(* ===== verification/Prelude.thy ===== *)
theory Prelude
  imports Complex_Main "HOL-Library.Word" "HOL-Library.List_Lexorder" "HOL-Library.Multiset"
begin

text \<open>
  Shared vocabulary of the development: JavaScript strings, numbers and errors, the
  result type of code that may throw, insertion-ordered \<open>Map\<close> and \<open>Set\<close>
  objects, and the stable \<open>toSorted\<close> of the language's arrays, with the generic
  lemmas the component theories share.

  A JavaScript string is a list of UTF-16 code units. \<open>lit\<close> turns an ASCII
  literal of the source into such a list. A thrown exception is a value of
  \<open>js_error\<close> that carries the source's message; code that may throw returns
  \<open>'a result\<close>, with \<open>Inl\<close> for the exception.
\<close>

section \<open>Collections of facts\<close>

named_theorems js_simps \<open>evaluation of the string, map and set primitives\<close>
named_theorems result_simps \<open>normal forms of computations that may throw\<close>

section \<open>Strings\<close>

type_synonym jstring = "16 word list"

definition lit :: "string \<Rightarrow> jstring" where
  "lit s = map of_char s"

lemma lit_simps [simp, js_simps]:
  "lit [] = []"
  "lit (c # s) = of_char c # lit s"
  by (simp_all add: lit_def)

lemma length_lit [simp]: "length (lit s) = length s"
  by (simp add: lit_def)

lemma lit_inj: "lit s = lit t \<longleftrightarrow> s = t"
proof -
  have "inj (of_char :: char \<Rightarrow> 16 word)"
  proof (rule injI)
    fix a b :: char
    assume "(of_char a :: 16 word) = of_char b"
    then have "(word_of_nat (of_char a) :: 16 word) = word_of_nat (of_char b)"
      by (simp only: of_nat_of_char)
    then have "take_bit 16 (of_char a :: nat) = take_bit 16 (of_char b)"
      by (simp add: word_of_nat_eq_iff)
    moreover have "(of_char c :: nat) < 2 ^ 16" for c
      using nat_of_char_less_256 [of c] by (rule less_trans) simp
    ultimately have "(of_char a :: nat) = of_char b" by (simp only: take_bit_nat_eq_self)
    then show "a = b" by simp
  qed
  then show ?thesis by (simp add: lit_def inj_map_eq_map)
qed

text \<open>\<open>s.slice(a, b)\<close> for \<open>0 \<le> a \<le> b\<close>.\<close>

definition slice :: "nat \<Rightarrow> nat \<Rightarrow> 'a list \<Rightarrow> 'a list" where
  "slice a b s = take (b - a) (drop a s)"

text \<open>The character classes of the source's regular expressions.\<close>

definition is_digit :: "16 word \<Rightarrow> bool" where
  "is_digit c \<longleftrightarrow> 0x30 \<le> c \<and> c \<le> 0x39"

definition is_lower_hex :: "16 word \<Rightarrow> bool" where
  "is_lower_hex c \<longleftrightarrow> is_digit c \<or> 0x61 \<le> c \<and> c \<le> 0x66"

definition is_lower :: "16 word \<Rightarrow> bool" where
  "is_lower c \<longleftrightarrow> 0x61 \<le> c \<and> c \<le> 0x7A"

definition is_upper :: "16 word \<Rightarrow> bool" where
  "is_upper c \<longleftrightarrow> 0x41 \<le> c \<and> c \<le> 0x5A"

definition is_alnum :: "16 word \<Rightarrow> bool" where
  "is_alnum c \<longleftrightarrow> is_digit c \<or> is_lower c \<or> is_upper c"

definition is_char :: "char \<Rightarrow> 16 word \<Rightarrow> bool" where
  "is_char k c \<longleftrightarrow> c = of_char k"

text \<open>
  A regular expression that is a fixed sequence of character classes, anchored at both
  ends, is the list of its classes.
\<close>

definition matches :: "(16 word \<Rightarrow> bool) list \<Rightarrow> jstring \<Rightarrow> bool" where
  "matches ps s = list_all2 (\<lambda>p c. p c) ps s"

lemma matches_length: "matches ps s \<Longrightarrow> length s = length ps"
  by (auto simp: matches_def dest: list_all2_lengthD)

lemma matches_append:
  "length s = length ps \<Longrightarrow> matches (ps @ qs) (s @ t) \<longleftrightarrow> matches ps s \<and> matches qs t"
  by (simp add: matches_def list_all2_append)

lemma matches_simps [simp]:
  "matches [] s \<longleftrightarrow> s = []"
  "matches (p # ps) (c # s) \<longleftrightarrow> p c \<and> matches ps s"
  "\<not> matches (p # ps) []"
  by (auto simp: matches_def)

lemma matches_replicate: "matches (replicate n p) s \<longleftrightarrow> length s = n \<and> list_all p s"
proof (induction n arbitrary: s)
  case 0
  then show ?case by auto
next
  case (Suc n)
  then show ?case by (cases s) auto
qed

lemmas char_class_defs = is_char_def is_digit_def is_lower_hex_def is_lower_def is_upper_def is_alnum_def

section \<open>Numbers\<close>

text \<open>
  A JavaScript number is a finite binary fraction, an infinity or NaN. Comparisons with
  NaN are false.
\<close>

datatype jsnum = Fin rat | PosInf | NegInf | NaN

fun isFinite :: "jsnum \<Rightarrow> bool" where
  "isFinite (Fin _) = True"
| "isFinite _ = False"

fun num_ge :: "jsnum \<Rightarrow> jsnum \<Rightarrow> bool" where
  "num_ge NaN _ = False"
| "num_ge _ NaN = False"
| "num_ge PosInf _ = True"
| "num_ge _ NegInf = True"
| "num_ge (Fin a) (Fin b) = (b \<le> a)"
| "num_ge _ _ = False"

definition MAX_SAFE_INTEGER :: int where
  "MAX_SAFE_INTEGER = 9007199254740991"

definition isSafeInteger :: "int \<Rightarrow> bool" where
  "isSafeInteger n \<longleftrightarrow> \<bar>n\<bar> \<le> MAX_SAFE_INTEGER"

section \<open>Errors and results\<close>

text \<open>
  \<open>Coded code message\<close> is an instance of one of the program's own error classes, which carry a
  code beside their message. Two values are no exceptions of the program: \<open>NotModelled\<close> marks a branch the model leaves
  open, \<open>OutOfFuel\<close> a recursion that was given too little fuel.
\<close>

datatype js_error =
    Error string
  | ErrorOn string jstring
  | RangeError string
  | RangeErrorOn string jstring
  | TypeError string
  | TypeErrorOn string jstring
  | Coded string string
  | CanonicalizationError jstring
  | NotModelled
  | OutOfFuel
  | ZodError

type_synonym 'a result = "js_error + 'a"

abbreviation throw :: "js_error \<Rightarrow> 'a result" where
  "throw \<equiv> Inl"

text \<open>Sequencing: an exception of the first computation is the exception of the whole.\<close>

definition bindr :: "'e + 'a \<Rightarrow> ('a \<Rightarrow> 'e + 'b) \<Rightarrow> 'e + 'b" where
  "bindr m f = (case m of Inl e \<Rightarrow> Inl e | Inr x \<Rightarrow> f x)"

lemma bindr_simps [simp, result_simps]:
  "bindr (Inl e) f = Inl e"
  "bindr (Inr x) f = f x"
  by (simp_all add: bindr_def)

lemma bindr_eq_Inr_iff [result_simps]:
  "bindr m f = Inr y \<longleftrightarrow> (\<exists>x. m = Inr x \<and> f x = Inr y)"
  by (cases m) simp_all

lemma bindr_Inr_elim:
  assumes "bindr m f = Inr y"
  obtains x where "m = Inr x" "f x = Inr y"
  using assms by (auto simp: bindr_eq_Inr_iff)

lemma bindr_cong [fundef_cong]:
  assumes "m = m'" and "\<And>x. m' = Inr x \<Longrightarrow> f x = g x"
  shows "bindr m f = bindr m' g"
  using assms by (cases m') simp_all

text \<open>A guard that throws: \<^verbatim>\<open>if (!ok) throw e\<close>.\<close>

definition ensure :: "bool \<Rightarrow> 'e \<Rightarrow> 'e + unit" where
  "ensure b e = (if b then Inr () else Inl e)"

lemma ensure_simps [simp, result_simps]:
  "ensure True e = Inr ()"
  "ensure False e = Inl e"
  "(ensure b e = Inr u) \<longleftrightarrow> b"
  "(ensure b e = Inl e') \<longleftrightarrow> \<not> b \<and> e' = e"
  by (auto simp: ensure_def)

text \<open>\<open>xs.map(f)\<close> with a callback that may throw: left to right, first exception wins.\<close>

fun mapr :: "('a \<Rightarrow> 'e + 'b) \<Rightarrow> 'a list \<Rightarrow> 'e + 'b list" where
  "mapr f [] = Inr []"
| "mapr f (x # xs) = bindr (f x) (\<lambda>y. bindr (mapr f xs) (\<lambda>ys. Inr (y # ys)))"

lemma mapr_Inr_iff [result_simps]:
  "mapr f xs = Inr ys \<longleftrightarrow> list_all2 (\<lambda>x y. f x = Inr y) xs ys"
  by (induction xs arbitrary: ys) (auto simp: bindr_eq_Inr_iff list_all2_Cons1)

lemma mapr_cong [fundef_cong]:
  assumes "xs = ys" and "\<And>x. x \<in> set ys \<Longrightarrow> f x = g x"
  shows "mapr f xs = mapr g ys"
  using assms by (induction ys arbitrary: xs) auto

lemma mapr_length: "mapr f xs = Inr ys \<Longrightarrow> length ys = length xs"
  by (simp add: mapr_Inr_iff list_all2_lengthD)

text \<open>
  \<open>xs.every(f)\<close>, \<open>xs.some(f)\<close> and \<open>xs.filter(f)\<close> with a callback that may throw: left to
  right, stopping at the first exception or, for the first two, at the first decisive element.
\<close>

fun everyr :: "('a \<Rightarrow> 'e + bool) \<Rightarrow> 'a list \<Rightarrow> 'e + bool" where
  "everyr f [] = Inr True"
| "everyr f (x # xs) = bindr (f x) (\<lambda>b. if b then everyr f xs else Inr False)"

fun somer :: "('a \<Rightarrow> 'e + bool) \<Rightarrow> 'a list \<Rightarrow> 'e + bool" where
  "somer f [] = Inr False"
| "somer f (x # xs) = bindr (f x) (\<lambda>b. if b then Inr True else somer f xs)"

fun filterr :: "('a \<Rightarrow> 'e + bool) \<Rightarrow> 'a list \<Rightarrow> 'e + 'a list" where
  "filterr f [] = Inr []"
| "filterr f (x # xs) =
     bindr (f x) (\<lambda>b. bindr (filterr f xs) (\<lambda>ys. Inr (if b then x # ys else ys)))"

lemma everyr_cong [fundef_cong]:
  "xs = ys \<Longrightarrow> (\<And>x. x \<in> set ys \<Longrightarrow> f x = g x) \<Longrightarrow> everyr f xs = everyr g ys"
  by (induction ys arbitrary: xs) (auto intro!: bindr_cong)

lemma somer_cong [fundef_cong]:
  "xs = ys \<Longrightarrow> (\<And>x. x \<in> set ys \<Longrightarrow> f x = g x) \<Longrightarrow> somer f xs = somer g ys"
  by (induction ys arbitrary: xs) (auto intro!: bindr_cong)

lemma filterr_Inr_iff [result_simps]:
  "filterr f xs = Inr ys \<longleftrightarrow> (\<forall>x\<in>set xs. \<exists>b. f x = Inr b) \<and> ys = filter (\<lambda>x. f x = Inr True) xs"
proof (induction xs arbitrary: ys)
  case Nil
  then show ?case by auto
next
  case (Cons x xs)
  show ?case
  proof (cases "f x")
    case (Inl e)
    then show ?thesis by simp
  next
    case (Inr b)
    then have "filterr f (x # xs) = Inr ys \<longleftrightarrow>
        (\<exists>zs. filterr f xs = Inr zs \<and> ys = (if b then x # zs else zs))"
      by (auto simp: bindr_eq_Inr_iff)
    then show ?thesis using Inr by (simp add: Cons.IH)
  qed
qed

lemma everyr_total: "(\<And>x. x \<in> set xs \<Longrightarrow> f x = Inr (p x)) \<Longrightarrow> everyr f xs = Inr (list_all p xs)"
  by (induction xs) auto

lemma somer_total: "(\<And>x. x \<in> set xs \<Longrightarrow> f x = Inr (p x)) \<Longrightarrow> somer f xs = Inr (list_ex p xs)"
  by (induction xs) auto

text \<open>
  A zod schema without a transformation is a predicate on the parsed value; \<open>parse\<close>
  returns the value itself when the predicate holds and throws otherwise.
\<close>

definition zparse :: "('a \<Rightarrow> bool) \<Rightarrow> 'a \<Rightarrow> 'a result" where
  "zparse schema x = (if schema x then Inr x else throw ZodError)"

lemma zparse_Inr_iff [simp, result_simps]: "zparse p x = Inr y \<longleftrightarrow> p x \<and> y = x"
  by (auto simp: zparse_def)

lemma zparse_Inl_iff [simp]: "zparse p x = Inl e \<longleftrightarrow> \<not> p x \<and> e = ZodError"
  by (auto simp: zparse_def)

lemma zparse_ok: "p x \<Longrightarrow> zparse p x = Inr x"
  by simp

section \<open>Insertion-ordered maps and sets\<close>

text \<open>
  A \<open>Map\<close> is the list of its entries in insertion order: setting a present key
  replaces the value in place, setting an absent one appends. A \<open>Set\<close> is the
  list of its elements in insertion order.
\<close>

fun map_set :: "'k \<Rightarrow> 'v \<Rightarrow> ('k \<times> 'v) list \<Rightarrow> ('k \<times> 'v) list" where
  "map_set k v [] = [(k, v)]"
| "map_set k v ((k', v') # m) = (if k' = k then (k, v) # m else (k', v') # map_set k v m)"

abbreviation map_has :: "('k \<times> 'v) list \<Rightarrow> 'k \<Rightarrow> bool" where
  "map_has m k \<equiv> map_of m k \<noteq> None"

lemma map_of_map_set [simp]: "map_of (map_set k v m) = (map_of m)(k \<mapsto> v)"
  by (induction m) auto

lemma map_set_new: "map_of m k = None \<Longrightarrow> map_set k v m = m @ [(k, v)]"
  by (induction m) (auto split: if_splits)

lemma keys_map_set: "fst ` set (map_set k v m) = insert k (fst ` set m)"
proof (induction m)
  case Nil
  then show ?case by simp
next
  case (Cons e m)
  then show ?case by (cases e) (simp add: insert_commute)
qed

lemma distinct_map_set: "distinct (map fst m) \<Longrightarrow> distinct (map fst (map_set k v m))"
proof (induction m)
  case Nil
  then show ?case by simp
next
  case (Cons e m)
  then show ?case by (cases e; cases "fst e = k") (simp_all add: keys_map_set)
qed

fun set_add :: "'a list \<Rightarrow> 'a \<Rightarrow> 'a list" where
  "set_add s x = (if x \<in> set s then s else s @ [x])"

text \<open>\<open>new Set(xs)\<close>: the first occurrence of each element, in order.\<close>

definition js_set :: "'a list \<Rightarrow> 'a list" where
  "js_set xs = foldl set_add [] xs"

lemma foldl_set_add_set: "set (foldl set_add s xs) = set s \<union> set xs"
  by (induction xs arbitrary: s) auto

lemma foldl_set_add_distinct: "distinct s \<Longrightarrow> distinct (foldl set_add s xs)"
  by (induction xs arbitrary: s) auto

lemma foldl_set_add_id:
  "distinct xs \<Longrightarrow> set xs \<inter> set s = {} \<Longrightarrow> foldl set_add s xs = s @ xs"
  by (induction xs arbitrary: s) auto

lemma set_js_set [simp]: "set (js_set xs) = set xs"
  by (simp add: js_set_def foldl_set_add_set)

lemma distinct_js_set [simp]: "distinct (js_set xs)"
  by (simp add: js_set_def foldl_set_add_distinct)

lemma js_set_distinct: "distinct xs \<Longrightarrow> js_set xs = xs"
  by (simp add: js_set_def foldl_set_add_id)

text \<open>\<open>new Set(xs).size !== xs.length\<close> detects a duplicate.\<close>

lemma length_js_set_iff: "length (js_set xs) = length xs \<longleftrightarrow> distinct xs"
proof
  assume "length (js_set xs) = length xs"
  moreover have "length (js_set xs) = card (set xs)"
    using distinct_card [OF distinct_js_set, of xs] by simp
  ultimately show "distinct xs" by (simp add: card_distinct)
next
  assume "distinct xs"
  then show "length (js_set xs) = length xs" by (simp add: js_set_distinct)
qed

section \<open>Stable sorting\<close>

text \<open>
  \<open>xs.toSorted(cmp)\<close>: a stable sort by a comparator that returns a negative, zero or
  positive number. For a consistent comparator the language fixes the result, which is
  that of this stable insertion sort.
\<close>

fun insert_by :: "('a \<Rightarrow> 'a \<Rightarrow> int) \<Rightarrow> 'a \<Rightarrow> 'a list \<Rightarrow> 'a list" where
  "insert_by cmp x [] = [x]"
| "insert_by cmp x (y # ys) = (if cmp x y \<le> 0 then x # y # ys else y # insert_by cmp x ys)"

definition toSorted :: "('a \<Rightarrow> 'a \<Rightarrow> int) \<Rightarrow> 'a list \<Rightarrow> 'a list" where
  "toSorted cmp xs = foldr (insert_by cmp) xs []"

lemma mset_insert_by: "mset (insert_by cmp x xs) = add_mset x (mset xs)"
  by (induction xs) auto

lemma mset_toSorted [simp]: "mset (toSorted cmp xs) = mset xs"
  by (induction xs) (auto simp: toSorted_def mset_insert_by)

lemma set_toSorted [simp]: "set (toSorted cmp xs) = set xs"
  by (metis mset_toSorted set_mset_mset)

lemma length_toSorted [simp]: "length (toSorted cmp xs) = length xs"
  by (metis mset_toSorted size_mset)

lemma toSorted_Nil_iff [simp]: "toSorted cmp xs = [] \<longleftrightarrow> xs = []"
  by (metis length_0_conv length_toSorted)

text \<open>
  The contract of a comparator: its non-positive pairs are a total preorder. What every
  client of \<open>toSorted\<close> relies on is proved here once.
\<close>

locale comparator =
  fixes cmp :: "'a \<Rightarrow> 'a \<Rightarrow> int"
  assumes cmp_total: "cmp x y \<le> 0 \<or> cmp y x \<le> 0"
    and cmp_trans: "cmp x y \<le> 0 \<Longrightarrow> cmp y z \<le> 0 \<Longrightarrow> cmp x z \<le> 0"
begin

lemma cmp_refl: "cmp x x \<le> 0"
  using cmp_total [of x x] by simp

text \<open>
  Sorting by a comparator \<open>fine\<close> that only breaks ties of \<open>cmp\<close> sorts by \<open>cmp\<close>, whatever the
  tie-breaker does.
\<close>

definition refines :: "('a \<Rightarrow> 'a \<Rightarrow> int) \<Rightarrow> bool" where
  "refines fine \<longleftrightarrow> (\<forall>x y. (fine x y \<le> 0 \<longrightarrow> cmp x y \<le> 0) \<and> (\<not> fine x y \<le> 0 \<longrightarrow> cmp y x \<le> 0))"

lemma refines_cmp: "refines cmp"
  using cmp_total by (auto simp: refines_def)

lemma sorted_insert_by:
  assumes "refines fine" and "sorted_wrt (\<lambda>a b. cmp a b \<le> 0) xs"
  shows "sorted_wrt (\<lambda>a b. cmp a b \<le> 0) (insert_by fine x xs)"
  using assms(2)
proof (induction xs)
  case Nil
  then show ?case by simp
next
  case (Cons y ys)
  have set: "set (insert_by fine x ys) = insert x (set ys)"
    by (metis mset_insert_by set_mset_add_mset_insert set_mset_mset)
  show ?case
  proof (cases "fine x y \<le> 0")
    case True
    with assms(1) have "cmp x y \<le> 0" by (simp add: refines_def)
    with True Cons.prems show ?thesis by (auto intro: cmp_trans)
  next
    case False
    with assms(1) have "cmp y x \<le> 0" by (simp add: refines_def)
    with False Cons show ?thesis by (auto simp: set)
  qed
qed

lemma sorted_toSorted:
  "refines fine \<Longrightarrow> sorted_wrt (\<lambda>a b. cmp a b \<le> 0) (toSorted fine xs)"
  by (induction xs) (auto simp: toSorted_def intro: sorted_insert_by)

lemma hd_toSorted_least:
  assumes "refines fine" and "toSorted fine xs = y # ys" and "x \<in> set xs"
  shows "cmp y x \<le> 0"
proof -
  have "x \<in> set (y # ys)" using assms(2,3) by (metis set_toSorted)
  then show ?thesis using sorted_toSorted [OF assms(1), of xs] assms(2) cmp_refl by auto
qed

lemma toSorted_sorted: "sorted_wrt (\<lambda>a b. cmp a b \<le> 0) (toSorted cmp xs)"
  by (rule sorted_toSorted [OF refines_cmp])

end

end
