(* ===== verification/Unicode.thy ===== *)
theory Unicode
  imports Prelude
begin

text \<open>
  The encodings between JavaScript strings and bytes the program relies on: UTF-16
  well-formedness (\<open>String.isWellFormed\<close>), UTF-8 encoding as \<open>Buffer\<close> and
  \<open>createHash().update(string)\<close> perform it, with an unpaired surrogate replaced by U+FFFD, and
  the strict UTF-8 decoding of \<open>new TextDecoder("utf-8", fatal, ignoreBOM)\<close>. Decoding inverts
  encoding on well-formed strings, so the encoding is injective there.
\<close>

section \<open>Surrogates\<close>

definition is_high :: "16 word \<Rightarrow> bool" where
  "is_high u \<longleftrightarrow> 0xD800 \<le> unat u \<and> unat u \<le> 0xDBFF"

definition is_low :: "16 word \<Rightarrow> bool" where
  "is_low u \<longleftrightarrow> 0xDC00 \<le> unat u \<and> unat u \<le> 0xDFFF"

fun isWellFormed :: "jstring \<Rightarrow> bool" where
  "isWellFormed [] = True"
| "isWellFormed [u] = (\<not> is_high u \<and> \<not> is_low u)"
| "isWellFormed (u # v # s) =
     (if is_high u then is_low v \<and> isWellFormed s else \<not> is_low u \<and> isWellFormed (v # s))"

section \<open>Code points\<close>

definition unit_point :: "16 word \<Rightarrow> nat" where
  "unit_point u = (if is_high u \<or> is_low u then 0xFFFD else unat u)"

fun code_points :: "jstring \<Rightarrow> nat list" where
  "code_points [] = []"
| "code_points [u] = [unit_point u]"
| "code_points (u # v # s) =
     (if is_high u \<and> is_low v
      then (0x10000 + (unat u - 0xD800) * 0x400 + (unat v - 0xDC00)) # code_points s
      else unit_point u # code_points (v # s))"

definition utf16_of_point :: "nat \<Rightarrow> jstring" where
  "utf16_of_point c =
     (if c < 0x10000 then [of_nat c]
      else [of_nat (0xD800 + (c - 0x10000) div 0x400), of_nat (0xDC00 + (c - 0x10000) mod 0x400)])"

definition scalar_value :: "nat \<Rightarrow> bool" where
  "scalar_value c \<longleftrightarrow> c < 0x110000 \<and> \<not> (0xD800 \<le> c \<and> c \<le> 0xDFFF)"

section \<open>UTF-8\<close>

definition utf8_of_point :: "nat \<Rightarrow> 8 word list" where
  "utf8_of_point c =
     (if c < 0x80 then [of_nat c]
      else if c < 0x800 then [of_nat (0xC0 + c div 0x40), of_nat (0x80 + c mod 0x40)]
      else if c < 0x10000
        then [of_nat (0xE0 + c div 0x1000), of_nat (0x80 + c div 0x40 mod 0x40), of_nat (0x80 + c mod 0x40)]
      else [of_nat (0xF0 + c div 0x40000), of_nat (0x80 + c div 0x1000 mod 0x40),
            of_nat (0x80 + c div 0x40 mod 0x40), of_nat (0x80 + c mod 0x40)])"

definition utf8_encode :: "jstring \<Rightarrow> 8 word list" where
  "utf8_encode s = concat (map utf8_of_point (code_points s))"

text \<open>One code point of strict UTF-8: no overlong form, no surrogate, nothing above U+10FFFF.\<close>

definition continuation :: "nat \<Rightarrow> bool" where
  "continuation b \<longleftrightarrow> 0x80 \<le> b \<and> b \<le> 0xBF"

fun utf8_point :: "nat list \<Rightarrow> (nat \<times> nat) option" where
  "utf8_point [] = None"
| "utf8_point (b0 # bs) =
     (if b0 < 0x80 then Some (b0, 1)
      else if 0xC2 \<le> b0 \<and> b0 \<le> 0xDF
        then (case bs of
            b1 # _ \<Rightarrow> if continuation b1 then Some ((b0 - 0xC0) * 0x40 + (b1 - 0x80), 2) else None
          | _ \<Rightarrow> None)
      else if 0xE0 \<le> b0 \<and> b0 \<le> 0xEF
        then (case bs of
            b1 # b2 # _ \<Rightarrow>
              if continuation b1 \<and> continuation b2 \<and> (b0 = 0xE0 \<longrightarrow> 0xA0 \<le> b1) \<and> (b0 = 0xED \<longrightarrow> b1 \<le> 0x9F)
              then Some ((b0 - 0xE0) * 0x1000 + (b1 - 0x80) * 0x40 + (b2 - 0x80), 3) else None
          | _ \<Rightarrow> None)
      else if 0xF0 \<le> b0 \<and> b0 \<le> 0xF4
        then (case bs of
            b1 # b2 # b3 # _ \<Rightarrow>
              if continuation b1 \<and> continuation b2 \<and> continuation b3 \<and>
                 (b0 = 0xF0 \<longrightarrow> 0x90 \<le> b1) \<and> (b0 = 0xF4 \<longrightarrow> b1 \<le> 0x8F)
              then Some ((b0 - 0xF0) * 0x40000 + (b1 - 0x80) * 0x1000 + (b2 - 0x80) * 0x40 + (b3 - 0x80), 4)
              else None
          | _ \<Rightarrow> None)
      else None)"

lemma utf8_point_pos: "utf8_point bs = Some (c, n) \<Longrightarrow> 0 < n"
  by (cases bs) (auto split: if_splits list.splits)

function utf8_points :: "nat list \<Rightarrow> nat list option" where
  "utf8_points bs =
     (if bs = [] then Some []
      else case utf8_point bs of
          None \<Rightarrow> None
        | Some (c, n) \<Rightarrow> (case utf8_points (drop n bs) of None \<Rightarrow> None | Some cs \<Rightarrow> Some (c # cs)))"
  by pat_completeness auto

termination
proof (relation "measure length")
  fix bs :: "nat list" and p c n
  assume "bs \<noteq> []" and "utf8_point bs = Some p" and "(c, n) = p"
  then show "(drop n bs, bs) \<in> measure length" by (auto dest: utf8_point_pos)
qed simp

declare utf8_points.simps [simp del]

definition utf8_decode :: "8 word list \<Rightarrow> jstring option" where
  "utf8_decode bs = map_option (\<lambda>cs. concat (map utf16_of_point cs)) (utf8_points (map unat bs))"

section \<open>Decoding inverts encoding\<close>

lemma unat_unit: "unat (u :: 16 word) < 0x10000"
  using unsigned_less [of u] by simp

lemma unat_byte: "n < 0x100 \<Longrightarrow> unat (of_nat n :: 8 word) = n"
  by (simp add: unat_of_nat)

lemma utf16_of_pair:
  assumes "is_high u" and "is_low v"
  shows "utf16_of_point (0x10000 + (unat u - 0xD800) * 0x400 + (unat v - 0xDC00)) = [u, v]"
proof -
  define a b where "a = unat u - 0xD800" and "b = unat v - 0xDC00"
  have u: "unat u = 0xD800 + a" and v: "unat v = 0xDC00 + b" and b: "b < 0x400"
    using assms by (auto simp: a_def b_def is_high_def is_low_def)
  have "(of_nat (0xD800 + a) :: 16 word) = u" "(of_nat (0xDC00 + b) :: 16 word) = v"
    unfolding u [symmetric] v [symmetric] by simp_all
  then show ?thesis
    using b unfolding a_def [symmetric] b_def [symmetric]
    by (simp add: utf16_of_point_def ac_simps)
qed

lemma utf16_of_unit: "\<not> is_high u \<Longrightarrow> \<not> is_low u \<Longrightarrow> utf16_of_point (unit_point u) = [u]"
  by (simp add: unit_point_def utf16_of_point_def unat_unit)

lemma code_points_utf16: "isWellFormed s \<Longrightarrow> concat (map utf16_of_point (code_points s)) = s"
  by (induction s rule: code_points.induct) (auto simp: utf16_of_pair utf16_of_unit split: if_splits)

lemma scalar_unit: "scalar_value (unit_point u)"
  using unat_unit [of u] by (auto simp: unit_point_def scalar_value_def is_high_def is_low_def)

lemma scalar_pair:
  "is_high u \<Longrightarrow> is_low v \<Longrightarrow> scalar_value (0x10000 + (unat u - 0xD800) * 0x400 + (unat v - 0xDC00))"
  by (auto simp: scalar_value_def is_high_def is_low_def)

lemma code_points_scalar: "list_all scalar_value (code_points s)"
  by (induction s rule: code_points.induct) (simp_all add: scalar_unit scalar_pair)

lemma split64:
  fixes c :: nat
  shows "c div 0x1000 = c div 0x40 div 0x40" and "c div 0x40000 = c div 0x40 div 0x40 div 0x40"
    and "c div 0x40 * 0x40 + c mod 0x40 = c"
  by (simp_all add: div_mult2_eq [symmetric] div_mult_mod_eq)

lemma utf8_point_encode:
  assumes "scalar_value c"
  shows "utf8_point (map unat (utf8_of_point c) @ bs) = Some (c, length (utf8_of_point c))"
proof -
  define q r s where "q = c div 0x40" and "r = q div 0x40" and "s = r div 0x40"
  have c: "c = q * 0x40 + c mod 0x40" and q: "q = r * 0x40 + q mod 0x40"
    and r: "r = s * 0x40 + r mod 0x40"
    unfolding q_def r_def s_def by (simp_all only: split64(3))
  have m: "c mod 0x40 < 0x40" "q mod 0x40 < 0x40" "r mod 0x40 < 0x40" by simp_all
  note d = split64(1,2) [of c, folded q_def, folded r_def, folded s_def]
  consider "c < 0x80" | "0x80 \<le> c" "c < 0x800" | "0x800 \<le> c" "c < 0x10000" | "0x10000 \<le> c" by linarith
  then show ?thesis
  proof cases
    case 1
    then show ?thesis by (simp add: utf8_of_point_def unat_byte)
  next
    case 2
    then have "q < 0x20" "2 \<le> q" using c m by linarith+
    moreover from this m 2 have "map unat (utf8_of_point c) = [0xC0 + q, 0x80 + c mod 0x40]"
      by (simp add: utf8_of_point_def unat_byte q_def [symmetric] del: of_nat_add)
    ultimately show ?thesis
      using 2 c m by (simp add: continuation_def flip: length_map [of unat "utf8_of_point c"])
  next
    case 3
    then have r16: "r < 0x10" using c q m by linarith
    have "r = 0 \<Longrightarrow> 0x20 \<le> q mod 0x40" using 3 c q m by linarith
    moreover have "r = 0xD \<Longrightarrow> q mod 0x40 < 0x20"
      using assms 3 c q m unfolding scalar_value_def by linarith
    moreover have "c = r * 0x1000 + (q mod 0x40) * 0x40 + c mod 0x40" using c q by linarith
    moreover have "map unat (utf8_of_point c) = [0xE0 + r, 0x80 + q mod 0x40, 0x80 + c mod 0x40]"
      using 3 m r16 by (simp add: utf8_of_point_def unat_byte d q_def [symmetric] del: of_nat_add)
    ultimately show ?thesis
      using m r16 by (auto simp: continuation_def simp flip: length_map [of unat "utf8_of_point c"])
  next
    case 4
    have s5: "s < 5" using assms c q r m unfolding scalar_value_def by linarith
    have "s = 0 \<Longrightarrow> 0x10 \<le> r mod 0x40" using 4 c q r m by linarith
    moreover have "s = 4 \<Longrightarrow> r mod 0x40 < 0x10"
      using assms c q r m unfolding scalar_value_def by linarith
    moreover have "c = s * 0x40000 + (r mod 0x40) * 0x1000 + (q mod 0x40) * 0x40 + c mod 0x40"
      using c q r by linarith
    moreover have "map unat (utf8_of_point c) =
        [0xF0 + s, 0x80 + r mod 0x40, 0x80 + q mod 0x40, 0x80 + c mod 0x40]"
      using 4 m s5
      by (simp add: utf8_of_point_def unat_byte d q_def [symmetric] r_def [symmetric] del: of_nat_add)
    ultimately show ?thesis
      using m s5 by (auto simp: continuation_def simp flip: length_map [of unat "utf8_of_point c"])
  qed
qed

lemma utf8_of_point_Nil [simp]: "utf8_of_point c \<noteq> []"
  by (simp add: utf8_of_point_def)

lemma utf8_points_encode:
  "list_all scalar_value cs \<Longrightarrow> utf8_points (map unat (concat (map utf8_of_point cs))) = Some cs"
proof (induction cs)
  case Nil
  then show ?case by (simp add: utf8_points.simps)
next
  case (Cons c cs)
  then show ?case by (subst utf8_points.simps) (simp add: utf8_point_encode)
qed

lemma utf8_decode_encode: "isWellFormed s \<Longrightarrow> utf8_decode (utf8_encode s) = Some s"
  by (simp add: utf8_decode_def utf8_encode_def utf8_points_encode code_points_scalar code_points_utf16)

lemma utf8_encode_inj:
  "isWellFormed s \<Longrightarrow> isWellFormed t \<Longrightarrow> utf8_encode s = utf8_encode t \<Longrightarrow> s = t"
  by (metis option.inject utf8_decode_encode)

section \<open>Encoding inverts strict decoding\<close>

lemma nat_digits:
  fixes x y :: nat
  assumes "y < 0x40"
  shows "(x * 0x40 + y) div 0x40 = x" and "(x * 0x40 + y) mod 0x40 = y"
  using assms by simp_all

lemma utf8_of_digits:
  assumes "y < 0x40" and "z < 0x40" and "w < 0x40"
  shows "2 \<le> x \<Longrightarrow> x < 0x20 \<Longrightarrow> utf8_of_point (x * 0x40 + y) = [of_nat (0xC0 + x), of_nat (0x80 + y)]"
    and "0x800 \<le> (x * 0x40 + y) * 0x40 + z \<Longrightarrow> x < 0x10 \<Longrightarrow> utf8_of_point ((x * 0x40 + y) * 0x40 + z) =
      [of_nat (0xE0 + x), of_nat (0x80 + y), of_nat (0x80 + z)]"
    and "0x10000 \<le> ((x * 0x40 + y) * 0x40 + z) * 0x40 + w \<Longrightarrow> utf8_of_point (((x * 0x40 + y) * 0x40 + z) * 0x40 + w) =
      [of_nat (0xF0 + x), of_nat (0x80 + y), of_nat (0x80 + z), of_nat (0x80 + w)]"
proof -
  show "utf8_of_point (x * 0x40 + y) = [of_nat (0xC0 + x), of_nat (0x80 + y)]" if "2 \<le> x" "x < 0x20"
  proof -
    have "\<not> x * 0x40 + y < 0x80" "x * 0x40 + y < 0x800" using that assms by linarith+
    then show ?thesis unfolding utf8_of_point_def nat_digits [OF assms(1)] by (simp only: if_True if_False)
  qed
  show "utf8_of_point ((x * 0x40 + y) * 0x40 + z) = [of_nat (0xE0 + x), of_nat (0x80 + y), of_nat (0x80 + z)]"
    if "0x800 \<le> (x * 0x40 + y) * 0x40 + z" "x < 0x10"
  proof -
    have "\<not> (x * 0x40 + y) * 0x40 + z < 0x80" "\<not> (x * 0x40 + y) * 0x40 + z < 0x800" "(x * 0x40 + y) * 0x40 + z < 0x10000"
      using that assms(1,2) by auto
    then show ?thesis unfolding utf8_of_point_def split64(1) nat_digits [OF assms(1)] nat_digits [OF assms(2)]
      by (simp only: if_True if_False)
  qed
  show "utf8_of_point (((x * 0x40 + y) * 0x40 + z) * 0x40 + w) =
      [of_nat (0xF0 + x), of_nat (0x80 + y), of_nat (0x80 + z), of_nat (0x80 + w)]"
    if "0x10000 \<le> ((x * 0x40 + y) * 0x40 + z) * 0x40 + w"
  proof -
    have "\<not> ((x * 0x40 + y) * 0x40 + z) * 0x40 + w < 0x80" "\<not> ((x * 0x40 + y) * 0x40 + z) * 0x40 + w < 0x800"
      "\<not> ((x * 0x40 + y) * 0x40 + z) * 0x40 + w < 0x10000"
      using that assms by linarith+
    then show ?thesis unfolding utf8_of_point_def split64(1,2) nat_digits [OF assms(1)] nat_digits [OF assms(2)]
        nat_digits [OF assms(3)]
      by (simp only: if_True if_False)
  qed
qed

lemma continuation_digit:
  assumes "continuation (unat (b :: 8 word))"
  obtains y where "unat b = 0x80 + y" and "y < 0x40" and "of_nat (0x80 + y) = b"
proof -
  let ?y = "unat b - 0x80"
  have b: "unat b = 0x80 + ?y" "?y < 0x40" using assms unfolding continuation_def by linarith+
  have "of_nat (0x80 + ?y) = b" unfolding b(1) [symmetric] by simp
  with b show thesis by (rule that)
qed

lemma lead_digit:
  assumes "n \<le> unat (b :: 8 word)"
  obtains x where "unat b = n + x" and "of_nat (n + x) = b"
proof -
  have b: "unat b = n + (unat b - n)" using assms by simp
  have "of_nat (n + (unat b - n)) = b" unfolding b [symmetric] by simp
  with b show thesis by (rule that)
qed

lemma utf8_point_exact:
  assumes "utf8_point (map unat bs) = Some (c, n)"
  shows "scalar_value c \<and> utf8_of_point c = take n bs"
proof (cases bs)
  case (Cons b bs')
  note p = assms [unfolded Cons list.map utf8_point.simps]
  consider "unat b < 0x80" | "0xC2 \<le> unat b" "unat b \<le> 0xDF" | "0xE0 \<le> unat b" "unat b \<le> 0xEF" | "0xF0 \<le> unat b" "unat b \<le> 0xF4"
    using p by (auto split: if_splits)
  then show ?thesis
  proof cases
    case 1
    then show ?thesis using p by (auto simp: Cons scalar_value_def utf8_of_point_def)
  next
    case 2
    obtain x where x: "unat b = 0xC0 + x" "of_nat (0xC0 + x) = b" by (rule lead_digit [of "0xC0" b]) (use 2 in simp_all)
    obtain b1 r where r: "bs' = b1 # r" "continuation (unat b1)"
      using p 2 by (cases bs') (auto split: if_splits)
    obtain y where y: "unat b1 = 0x80 + y" "y < 0x40" "of_nat (0x80 + y) = b1" by (rule continuation_digit [OF r(2)])
    have c: "c = x * 0x40 + y" "n = 2" using p 2 r by (simp_all add: x y(1))
    show ?thesis using 2 y(2) utf8_of_digits(1) [OF y(2,2,2), of x] x y(3)
      by (simp add: c Cons r scalar_value_def del: of_nat_add)
  next
    case 3
    obtain x where x: "unat b = 0xE0 + x" "of_nat (0xE0 + x) = b" by (rule lead_digit [of "0xE0" b]) (use 3 in simp_all)
    obtain b1 b2 r where r: "bs' = b1 # b2 # r" "continuation (unat b1)" "continuation (unat b2)"
      and e: "unat b = 0xE0 \<longrightarrow> 0xA0 \<le> unat b1" "unat b = 0xED \<longrightarrow> unat b1 \<le> 0x9F"
      using p 3 by (auto split: if_splits list.splits simp: neq_Nil_conv)
    obtain y where y: "unat b1 = 0x80 + y" "y < 0x40" "of_nat (0x80 + y) = b1" by (rule continuation_digit [OF r(2)])
    obtain z where z: "unat b2 = 0x80 + z" "z < 0x40" "of_nat (0x80 + z) = b2" by (rule continuation_digit [OF r(3)])
    have c: "c = (x * 0x40 + y) * 0x40 + z" "n = 3" using p 3 r e by (simp_all add: x(1) y(1) z(1) split: if_splits)
    have "x < 0x10" "x = 0 \<longrightarrow> 0x20 \<le> y" "x = 0xD \<longrightarrow> y < 0x20" using 3 e unfolding x(1) y(1) by linarith+
    then have "0x800 \<le> c" "scalar_value c" "x < 0x10"
      using y(2) z(2) less_linear [of x 13] unfolding c(1) scalar_value_def by auto
    then show ?thesis using utf8_of_digits(2) [OF y(2) z(2,2), of x] x(2) y(3) z(3) by (simp add: c Cons r del: of_nat_add)
  next
    case 4
    obtain x where x: "unat b = 0xF0 + x" "of_nat (0xF0 + x) = b" by (rule lead_digit [of "0xF0" b]) (use 4 in simp_all)
    obtain b1 b2 b3 r where r: "bs' = b1 # b2 # b3 # r" "continuation (unat b1)" "continuation (unat b2)" "continuation (unat b3)"
      and e: "unat b = 0xF0 \<longrightarrow> 0x90 \<le> unat b1" "unat b = 0xF4 \<longrightarrow> unat b1 \<le> 0x8F"
      using p 4 by (auto split: if_splits list.splits simp: neq_Nil_conv)
    obtain y where y: "unat b1 = 0x80 + y" "y < 0x40" "of_nat (0x80 + y) = b1" by (rule continuation_digit [OF r(2)])
    obtain z where z: "unat b2 = 0x80 + z" "z < 0x40" "of_nat (0x80 + z) = b2" by (rule continuation_digit [OF r(3)])
    obtain w where w: "unat b3 = 0x80 + w" "w < 0x40" "of_nat (0x80 + w) = b3" by (rule continuation_digit [OF r(4)])
    have c: "c = ((x * 0x40 + y) * 0x40 + z) * 0x40 + w" "n = 4"
      using p 4 r e by (simp_all add: x(1) y(1) z(1) w(1) split: if_splits)
    have "x < 5" "x = 0 \<longrightarrow> 0x10 \<le> y" "x = 4 \<longrightarrow> y < 0x10" using 4 e unfolding x(1) y(1) by linarith+
    then have "0x10000 \<le> c" "scalar_value c"
      using y(2) z(2) w(2) unfolding c(1) scalar_value_def by auto
    then show ?thesis using utf8_of_digits(3) [OF y(2) z(2) w(2), of x] x(2) y(3) z(3) w(3)
      by (simp add: c Cons r del: of_nat_add)
  qed
qed (use assms in simp)

lemma utf8_points_exact: "utf8_points (map unat bs) = Some cs \<Longrightarrow> list_all scalar_value cs \<and> concat (map utf8_of_point cs) = bs"
proof (induction "length bs" arbitrary: bs cs rule: less_induct)
  case less
  show ?case
  proof (cases "bs = []")
    case True
    with less.prems show ?thesis by (simp add: utf8_points.simps)
  next
    case False
    with less.prems obtain c n cs' where c: "utf8_point (map unat bs) = Some (c, n)"
      "utf8_points (map unat (drop n bs)) = Some cs'" "cs = c # cs'"
      by (subst (asm) utf8_points.simps) (auto split: option.splits simp: drop_map)
    have "length (drop n bs) < length bs" using utf8_point_pos [OF c(1)] False by simp
    from less.hyps [OF this c(2)] utf8_point_exact [OF c(1)] show ?thesis by (simp add: c(3))
  qed
qed

lemma code_points_unit: "\<not> is_high u \<Longrightarrow> code_points (u # s) = unit_point u # code_points s"
  by (cases s) simp_all

lemma code_points_utf16_of_point: "scalar_value c \<Longrightarrow> code_points (utf16_of_point c @ s) = c # code_points s"
proof (cases "c < 0x10000")
  case True
  assume s: "scalar_value c"
  have u: "unat (of_nat c :: 16 word) = c" using True by (simp add: unat_of_nat)
  from s u have "\<not> is_high (of_nat c)" "\<not> is_low (of_nat c)" by (auto simp: scalar_value_def is_high_def is_low_def)
  then show ?thesis using True u by (simp add: utf16_of_point_def code_points_unit unit_point_def)
next
  case False
  define a b where "a = (c - 0x10000) div 0x400" and "b = (c - 0x10000) mod 0x400"
  assume s: "scalar_value c"
  have ab: "c = 0x10000 + a * 0x400 + b" "b < 0x400" using False by (simp_all add: a_def b_def)
  have "a < 0x400" using s ab unfolding scalar_value_def by linarith
  then have u: "unat (of_nat (0xD800 + a) :: 16 word) = 0xD800 + a" "unat (of_nat (0xDC00 + b) :: 16 word) = 0xDC00 + b"
    using ab(2) by (simp_all add: unat_of_nat del: of_nat_add)
  have "is_high (of_nat (0xD800 + a))" "is_low (of_nat (0xDC00 + b))"
    using u \<open>a < 0x400\<close> ab(2) by (simp_all add: is_high_def is_low_def del: of_nat_add)
  then show ?thesis using False u ab
    by (simp add: utf16_of_point_def a_def [symmetric] b_def [symmetric] del: of_nat_add)
qed

lemma code_points_of_points: "list_all scalar_value cs \<Longrightarrow> code_points (concat (map utf16_of_point cs)) = cs"
  by (induction cs) (simp_all add: code_points_utf16_of_point)

lemma utf8_encode_decode: "utf8_decode bs = Some s \<Longrightarrow> utf8_encode s = bs"
  using utf8_points_exact [of bs] by (auto simp: utf8_decode_def utf8_encode_def code_points_of_points)

end
