(* ===== verification/Json.thy ===== *)
theory Json
  imports Unicode
begin

text \<open>
  JSON values, their serialization by \<open>JSON.stringify\<close>, and the strict parser of
  \<^verbatim>\<open>lib/contracts/src/canonical.ts\<close>. An object is the list of its own properties. Numbers
  are the safe integers, the only numbers the program's hashed records hold; a literal that
  denotes another number is \<open>NotModelled\<close>. The parser keeps the rest of the source instead of
  an index into it; the offsets in its messages are recovered from the lengths. Unicode
  normalization is the argument \<open>nfc\<close>.
\<close>

section \<open>Values\<close>

datatype json =
    JNull
  | JBool bool
  | JNum int
  | JStr jstring
  | JArr "json list"
  | JObj "(jstring \<times> json) list"

section \<open>Decimal numerals\<close>

fun dec_nat :: "nat \<Rightarrow> jstring" where
  "dec_nat n = (if n < 10 then [0x30 + of_nat n] else dec_nat (n div 10) @ [0x30 + of_nat (n mod 10)])"

declare dec_nat.simps [simp del]

definition dec_int :: "int \<Rightarrow> jstring" where
  "dec_int i = (if i < 0 then lit ''-'' @ dec_nat (nat (- i)) else dec_nat (nat i))"

definition digit_val :: "16 word \<Rightarrow> nat" where
  "digit_val c = unat c - 0x30"

definition dec_val :: "jstring \<Rightarrow> nat" where
  "dec_val s = foldl (\<lambda>n c. 10 * n + digit_val c) 0 s"

section \<open>Serialization\<close>

abbreviation (input) "QUOTE \<equiv> (0x22 :: 16 word)"
abbreviation (input) "BACKSLASH \<equiv> (0x5C :: 16 word)"

definition hex4_digit :: "nat \<Rightarrow> 16 word" where
  "hex4_digit d = (if d < 10 then 0x30 + of_nat d else 0x57 + of_nat d)"

definition hex4 :: "16 word \<Rightarrow> jstring" where
  "hex4 u = map hex4_digit
     [unat u div 0x1000, unat u div 0x100 mod 0x10, unat u div 0x10 mod 0x10, unat u mod 0x10]"

definition escape_unit :: "16 word \<Rightarrow> jstring" where
  "escape_unit u =
     (if u = 0x08 then BACKSLASH # lit ''b''
      else if u = 0x09 then BACKSLASH # lit ''t''
      else if u = 0x0A then BACKSLASH # lit ''n''
      else if u = 0x0C then BACKSLASH # lit ''f''
      else if u = 0x0D then BACKSLASH # lit ''r''
      else if u = QUOTE \<or> u = BACKSLASH then [BACKSLASH, u]
      else if u < 0x20 \<or> is_high u \<or> is_low u then BACKSLASH # lit ''u'' @ hex4 u
      else [u])"

fun escape_string :: "jstring \<Rightarrow> jstring" where
  "escape_string [] = []"
| "escape_string [u] = escape_unit u"
| "escape_string (u # v # s) =
     (if is_high u \<and> is_low v then u # v # escape_string s
      else escape_unit u @ escape_string (v # s))"

definition quote_string :: "jstring \<Rightarrow> jstring" where
  "quote_string s = QUOTE # escape_string s @ [QUOTE]"

fun join :: "jstring \<Rightarrow> jstring list \<Rightarrow> jstring" where
  "join sep [] = []"
| "join sep [x] = x"
| "join sep (x # y # xs) = x @ sep @ join sep (y # xs)"

fun stringify :: "json \<Rightarrow> jstring" where
  "stringify JNull = lit ''null''"
| "stringify (JBool b) = (if b then lit ''true'' else lit ''false'')"
| "stringify (JNum n) = dec_int n"
| "stringify (JStr s) = quote_string s"
| "stringify (JArr xs) = lit ''['' @ join (lit '','') (map stringify xs) @ lit '']''"
| "stringify (JObj es) =
     lit ''{'' @ join (lit '','') (map (\<lambda>(k, v). quote_string k @ lit '':'' @ stringify v) es) @ lit ''}''"

section \<open>Unicode admission\<close>

type_synonym nfc = "jstring \<Rightarrow> jstring"

definition is_ascii :: "jstring \<Rightarrow> bool" where
  "is_ascii s \<longleftrightarrow> list_all (\<lambda>u. u < 0x80) s"

definition assertUnicodeScalar :: "nfc \<Rightarrow> jstring \<Rightarrow> jstring \<Rightarrow> unit result" where
  "assertUnicodeScalar nfc val path =
     (if is_ascii val then Inr ()
      else if \<not> isWellFormed val
        then throw (CanonicalizationError (path @ lit '' contains an unpaired surrogate''))
      else if val \<noteq> nfc val then throw (CanonicalizationError (path @ lit '' must use Unicode NFC''))
      else Inr ())"

section \<open>Strings and numbers of the source text\<close>

definition hex_digit_val :: "16 word \<Rightarrow> nat option" where
  "hex_digit_val c =
     (if 0x30 \<le> c \<and> c \<le> 0x39 then Some (unat c - 0x30)
      else if 0x61 \<le> c \<and> c \<le> 0x66 then Some (unat c - 0x57)
      else if 0x41 \<le> c \<and> c \<le> 0x46 then Some (unat c - 0x37)
      else None)"

definition hex4_val :: "16 word \<Rightarrow> 16 word \<Rightarrow> 16 word \<Rightarrow> 16 word \<Rightarrow> 16 word option" where
  "hex4_val a b c d =
     (case (hex_digit_val a, hex_digit_val b, hex_digit_val c, hex_digit_val d) of
        (Some p, Some q, Some r, Some s) \<Rightarrow> Some (of_nat (p * 0x1000 + q * 0x100 + r * 0x10 + s))
      | _ \<Rightarrow> None)"

definition simple_escape :: "16 word \<Rightarrow> 16 word option" where
  "simple_escape c =
     (if c = QUOTE \<or> c = BACKSLASH \<or> c = 0x2F then Some c
      else if c = 0x62 then Some 0x08 else if c = 0x66 then Some 0x0C else if c = 0x6E then Some 0x0A
      else if c = 0x72 then Some 0x0D else if c = 0x74 then Some 0x09 else None)"

text \<open>\<open>JSON.parse\<close> on a string literal, without its quotes.\<close>

fun unescape :: "jstring \<Rightarrow> jstring option" where
  "unescape [] = Some []"
| "unescape (u # s) =
     (if u = BACKSLASH
      then (case s of
          [] \<Rightarrow> None
        | c # r \<Rightarrow>
            (if c = 0x75
             then (case r of
                 a # b # c' # d # r' \<Rightarrow>
                   (case hex4_val a b c' d of
                      None \<Rightarrow> None
                    | Some w \<Rightarrow> (case unescape r' of None \<Rightarrow> None | Some t \<Rightarrow> Some (w # t)))
               | _ \<Rightarrow> None)
             else case simple_escape c of
                 None \<Rightarrow> None
               | Some w \<Rightarrow> (case unescape r of None \<Rightarrow> None | Some t \<Rightarrow> Some (w # t))))
      else if u \<le> 0x1F \<or> u = QUOTE then None
      else case unescape s of None \<Rightarrow> None | Some t \<Rightarrow> Some (u # t))"

text \<open>The loop of \<open>parseString\<close>: up to the first unescaped quote.\<close>

fun scan_string :: "jstring \<Rightarrow> bool \<Rightarrow> jstring \<Rightarrow> (jstring \<times> jstring) result" where
  "scan_string path escaped [] =
     throw (CanonicalizationError (lit ''unterminated JSON string at '' @ path))"
| "scan_string path escaped (c # r) =
     (if \<not> escaped \<and> c = QUOTE then Inr ([], r)
      else if \<not> escaped \<and> c \<le> 0x1F
        then throw (CanonicalizationError (lit ''unescaped control character at '' @ path))
      else bindr (scan_string path (\<not> escaped \<and> c = BACKSLASH) r) (\<lambda>(inner, rest). Inr (c # inner, rest)))"

text \<open>\<open>parseString\<close>, called at a quote.\<close>

definition parseString :: "nfc \<Rightarrow> jstring \<Rightarrow> jstring \<Rightarrow> (jstring \<times> jstring) result" where
  "parseString nfc path rest =
     bindr (scan_string path False (tl rest)) (\<lambda>(inner, rest').
       case unescape inner of
         None \<Rightarrow> throw (CanonicalizationError (lit ''malformed JSON string at '' @ path))
       | Some val \<Rightarrow> bindr (assertUnicodeScalar nfc val path) (\<lambda>_. Inr (val, rest')))"

text \<open>The number literal of the source's regular expression: sign, integer digits, fraction
  digits, exponent, and the text after the match.\<close>

definition int_part :: "jstring \<Rightarrow> (jstring \<times> jstring) option" where
  "int_part s =
     (case s of
        [] \<Rightarrow> None
      | c # r \<Rightarrow>
          if c = 0x30 then Some ([c], r)
          else if is_digit c then Some (c # takeWhile is_digit r, dropWhile is_digit r)
          else None)"

definition frac_part :: "jstring \<Rightarrow> jstring \<times> jstring" where
  "frac_part s =
     (case s of
        c # r \<Rightarrow> if c = 0x2E \<and> takeWhile is_digit r \<noteq> []
                  then (takeWhile is_digit r, dropWhile is_digit r) else ([], s)
      | [] \<Rightarrow> ([], s))"

definition exp_part :: "jstring \<Rightarrow> int \<times> jstring" where
  "exp_part s =
     (case s of
        e # r \<Rightarrow>
          (if e = 0x65 \<or> e = 0x45
           then (let sg = (case r of c # _ \<Rightarrow> c = 0x2D | [] \<Rightarrow> False);
                     ds = (case r of c # r' \<Rightarrow> if c = 0x2D \<or> c = 0x2B then r' else r | [] \<Rightarrow> r)
                 in if takeWhile is_digit ds \<noteq> []
                    then ((if sg then - int (dec_val (takeWhile is_digit ds)) else int (dec_val (takeWhile is_digit ds))),
                          dropWhile is_digit ds)
                    else (0, s))
           else (0, s))
      | [] \<Rightarrow> (0, s))"

text \<open>\<open>Number(literal)\<close>: the integer the literal denotes, if it is a safe one.\<close>

definition literal_int :: "bool \<Rightarrow> jstring \<Rightarrow> jstring \<Rightarrow> int \<Rightarrow> int option" where
  "literal_int neg ip fp ex =
     (let m = int (dec_val (ip @ fp)); e = ex - int (length fp);
          v = (if 0 \<le> e then m * 10 ^ nat e else m div 10 ^ nat (- e))
      in if (0 \<le> e \<or> m mod 10 ^ nat (- e) = 0) \<and> v \<le> MAX_SAFE_INTEGER
         then Some (if neg then - v else v) else None)"

definition parseNumber :: "jstring \<Rightarrow> jstring \<Rightarrow> (json \<times> jstring) result" where
  "parseNumber path rest =
     (let neg = (case rest of c # _ \<Rightarrow> c = 0x2D | [] \<Rightarrow> False); unsigned = (if neg then tl rest else rest)
      in case int_part unsigned of
           None \<Rightarrow> throw (CanonicalizationError (lit ''malformed JSON number at '' @ path))
         | Some (ip, r1) \<Rightarrow>
             (let (fp, r2) = frac_part r1; (ex, r3) = exp_part r2
              in case literal_int neg ip fp ex of
                   None \<Rightarrow> throw NotModelled
                 | Some n \<Rightarrow> Inr (JNum n, r3)))"

definition starts_with :: "jstring \<Rightarrow> jstring \<Rightarrow> bool" where
  "starts_with literal s \<longleftrightarrow> take (length literal) s = literal"

definition parseLiteral :: "nat \<Rightarrow> jstring \<Rightarrow> json \<Rightarrow> jstring \<Rightarrow> (json \<times> jstring) result" where
  "parseLiteral len literal val rest =
     (if \<not> starts_with literal rest
        then throw (CanonicalizationError
          (lit ''malformed JSON literal at offset '' @ dec_nat (len - length rest)))
      else Inr (val, drop (length literal) rest))"

definition is_space :: "16 word \<Rightarrow> bool" where
  "is_space c \<longleftrightarrow> c = 0x20 \<or> c = 0x0A \<or> c = 0x0D \<or> c = 0x09"

definition skipWhitespace :: "jstring \<Rightarrow> jstring" where
  "skipWhitespace rest = dropWhile is_space rest"

fun consume :: "16 word \<Rightarrow> jstring \<Rightarrow> jstring option" where
  "consume ch [] = None"
| "consume ch (c # rest) = (if c = ch then Some rest else None)"

section \<open>The strict parser\<close>

text \<open>
  \<open>parseValue\<close>, and the loops of \<open>parseObject\<close> and \<open>parseArray\<close> after the opening
  bracket, with the names and entries read so far. Every call takes one unit of fuel.
\<close>

function (sequential) parseValue :: "nat \<Rightarrow> nat \<Rightarrow> nfc \<Rightarrow> jstring \<Rightarrow> jstring \<Rightarrow> (json \<times> jstring) result"
and parse_members ::
    "nat \<Rightarrow> nat \<Rightarrow> nfc \<Rightarrow> jstring \<Rightarrow> (jstring \<times> json) list \<Rightarrow> jstring \<Rightarrow> (json \<times> jstring) result"
and parse_elements ::
    "nat \<Rightarrow> nat \<Rightarrow> nfc \<Rightarrow> jstring \<Rightarrow> json list \<Rightarrow> jstring \<Rightarrow> (json \<times> jstring) result" where
  "parseValue 0 len nfc path rest = throw OutOfFuel"
| "parseValue (Suc n) len nfc path rest =
     (case rest of
        [] \<Rightarrow> throw (CanonicalizationError (lit ''invalid JSON value at '' @ path))
      | c # r \<Rightarrow>
          if c = QUOTE then bindr (parseString nfc path rest) (\<lambda>(s, r'). Inr (JStr s, r'))
          else if c = 0x7B
            then (let r1 = skipWhitespace r
                  in case consume 0x7D r1 of
                       Some r2 \<Rightarrow> Inr (JObj [], r2)
                     | None \<Rightarrow> parse_members n len nfc path [] r1)
          else if c = 0x5B
            then (let r1 = skipWhitespace r
                  in case consume 0x5D r1 of
                       Some r2 \<Rightarrow> Inr (JArr [], r2)
                     | None \<Rightarrow> parse_elements n len nfc path [] r1)
          else if c = 0x74 then parseLiteral len (lit ''true'') (JBool True) rest
          else if c = 0x66 then parseLiteral len (lit ''false'') (JBool False) rest
          else if c = 0x6E then parseLiteral len (lit ''null'') JNull rest
          else if c = 0x2D \<or> is_digit c then parseNumber path rest
          else throw (CanonicalizationError (lit ''invalid JSON value at '' @ path)))"
| "parse_members 0 len nfc path es rest = throw OutOfFuel"
| "parse_members (Suc n) len nfc path es rest =
     (if rest = [] \<or> hd rest \<noteq> QUOTE
        then throw (CanonicalizationError (lit ''object name required at '' @ path))
      else bindr (parseString nfc (path @ lit '' object name'') rest) (\<lambda>(name, r1).
        if name \<in> set (map fst es)
          then throw (CanonicalizationError (lit ''duplicate object name at '' @ path @ lit '': '' @ name))
        else case consume 0x3A (skipWhitespace r1) of
            None \<Rightarrow> throw (CanonicalizationError (lit ''missing colon at '' @ path @ lit ''.'' @ name))
          | Some r2 \<Rightarrow>
              bindr (parseValue n len nfc (path @ lit ''.'' @ name) (skipWhitespace r2)) (\<lambda>(v, r3).
                let r4 = skipWhitespace r3; es' = es @ [(name, v)]
                in case consume 0x7D r4 of
                     Some r5 \<Rightarrow> Inr (JObj es', r5)
                   | None \<Rightarrow>
                       (case consume 0x2C r4 of
                          None \<Rightarrow> throw (CanonicalizationError (lit ''missing comma at '' @ path))
                        | Some r5 \<Rightarrow> parse_members n len nfc path es' (skipWhitespace r5)))))"
| "parse_elements 0 len nfc path xs rest = throw OutOfFuel"
| "parse_elements (Suc n) len nfc path xs rest =
     bindr (parseValue n len nfc (path @ lit ''['' @ dec_nat (length xs) @ lit '']'') rest) (\<lambda>(v, r1).
       let r2 = skipWhitespace r1; xs' = xs @ [v]
       in case consume 0x5D r2 of
            Some r3 \<Rightarrow> Inr (JArr xs', r3)
          | None \<Rightarrow>
              (case consume 0x2C r2 of
                 None \<Rightarrow> throw (CanonicalizationError (lit ''missing comma at '' @ path))
               | Some r3 \<Rightarrow> parse_elements n len nfc path xs' (skipWhitespace r3)))"
  by pat_completeness auto

termination
  by (relation "measure (\<lambda>x. case x of Inl (n, _) \<Rightarrow> n | Inr (Inl (n, _)) \<Rightarrow> n | Inr (Inr (n, _)) \<Rightarrow> n)")
    simp_all

definition StrictJsonParser_parse :: "nfc \<Rightarrow> jstring \<Rightarrow> json result" where
  "StrictJsonParser_parse nfc source =
     bindr (parseValue (2 * length source + 1) (length source) nfc (lit ''$'') (skipWhitespace source))
       (\<lambda>(v, rest).
         let rest' = skipWhitespace rest
         in if rest' \<noteq> []
            then throw (CanonicalizationError
              (lit ''trailing JSON bytes at offset '' @ dec_nat (length source - length rest')))
            else Inr v)"

section \<open>Numerals read back\<close>

lemma digit_unit: "d < 10 \<Longrightarrow> is_digit (0x30 + of_nat d)" and
  digit_val_unit: "d < 10 \<Longrightarrow> digit_val (0x30 + of_nat d) = d"
proof -
  have "\<forall>d<10. is_digit (0x30 + of_nat d) \<and> digit_val (0x30 + of_nat d) = d"
    by code_simp
  then show "d < 10 \<Longrightarrow> is_digit (0x30 + of_nat d)" "d < 10 \<Longrightarrow> digit_val (0x30 + of_nat d) = d"
    by blast+
qed

lemma dec_val_snoc: "dec_val (s @ [c]) = 10 * dec_val s + digit_val c"
  by (simp add: dec_val_def)

lemma dec_val_dec_nat [simp]: "dec_val (dec_nat n) = n"
proof (induction n rule: dec_nat.induct)
  case (1 n)
  show ?case
  proof (cases "n < 10")
    case True
    then show ?thesis by (simp add: dec_nat.simps [of n] dec_val_def digit_val_unit)
  next
    case False
    with 1 show ?thesis
      by (subst dec_nat.simps) (simp add: dec_val_snoc digit_val_unit)
  qed
qed

lemma dec_nat_digits: "list_all is_digit (dec_nat n)"
proof (induction n rule: dec_nat.induct)
  case (1 n)
  show ?case
  proof (cases "n < 10")
    case True
    then show ?thesis by (simp add: dec_nat.simps [of n] digit_unit)
  next
    case False
    with 1 show ?thesis by (subst dec_nat.simps) (simp add: digit_unit)
  qed
qed

lemma dec_nat_nonempty [simp]: "dec_nat n \<noteq> []"
  by (subst dec_nat.simps) simp

lemma zero_unit: "d < 10 \<Longrightarrow> (of_nat d :: 16 word) = 0 \<longleftrightarrow> d = 0"
  by (auto simp: word_of_nat_eq_0_iff dest: nat_dvd_not_less)

lemma hd_dec_nat: "hd (dec_nat n) = 0x30 \<longleftrightarrow> n = 0"
proof (induction n rule: dec_nat.induct)
  case (1 n)
  show ?case
  proof (cases "n < 10")
    case True
    then show ?thesis by (simp add: dec_nat.simps [of n] zero_unit)
  next
    case False
    with 1 show ?thesis by (subst dec_nat.simps) simp
  qed
qed

lemma dec_nat_0: "dec_nat 0 = [0x30]"
  by (simp add: dec_nat.simps)

definition ends_number :: "jstring \<Rightarrow> bool" where
  "ends_number s \<longleftrightarrow>
     s = [] \<or> \<not> is_digit (hd s) \<and> hd s \<noteq> 0x2E \<and> hd s \<noteq> 0x65 \<and> hd s \<noteq> 0x45"

lemma int_part_dec_nat:
  assumes "ends_number rest"
  shows "int_part (dec_nat n @ rest) = Some (dec_nat n, rest)"
proof (cases "n = 0")
  case True
  then show ?thesis by (simp add: dec_nat_0 int_part_def)
next
  case False
  obtain c ds where d: "dec_nat n = c # ds" by (cases "dec_nat n") simp_all
  with False hd_dec_nat [of n] dec_nat_digits [of n] have c: "c \<noteq> 0x30" "is_digit c" "list_all is_digit ds"
    by auto
  then have "takeWhile is_digit (ds @ rest) = ds" "dropWhile is_digit (ds @ rest) = rest"
    using assms by (auto simp: list_all_iff ends_number_def takeWhile_append dropWhile_append
        takeWhile_eq_Nil_iff dropWhile_eq_self_iff takeWhile_eq_all_conv)
  with c show ?thesis by (simp add: d int_part_def)
qed

lemma frac_part_none: "ends_number rest \<Longrightarrow> frac_part rest = ([], rest)"
  by (cases rest) (auto simp: frac_part_def ends_number_def)

lemma exp_part_none: "ends_number rest \<Longrightarrow> exp_part rest = (0, rest)"
  by (cases rest) (auto simp: exp_part_def ends_number_def)

lemma digit_not_minus: "is_digit c \<Longrightarrow> c \<noteq> 0x2D"
  by (auto simp: is_digit_def)

lemma dec_nat_not_minus: "(case dec_nat n @ rest of c # _ \<Rightarrow> c = 0x2D | [] \<Rightarrow> False) = False"
  using dec_nat_digits [of n] by (cases "dec_nat n") (auto dest: digit_not_minus)

lemma parseNumber_dec_int:
  assumes "isSafeInteger n" and "ends_number rest"
  shows "parseNumber path (dec_int n @ rest) = Inr (JNum n, rest)"
proof -
  have safe: "nat \<bar>n\<bar> \<le> nat MAX_SAFE_INTEGER" using assms(1) by (simp add: isSafeInteger_def)
  show ?thesis
  proof (cases "n < 0")
    case True
    with assms show ?thesis
      by (simp add: parseNumber_def dec_int_def int_part_dec_nat frac_part_none exp_part_none
          literal_int_def isSafeInteger_def)
  next
    case False
    with assms show ?thesis
      by (simp add: parseNumber_def dec_int_def int_part_dec_nat frac_part_none exp_part_none
          literal_int_def isSafeInteger_def dec_nat_not_minus)
  qed
qed

section \<open>Strings read back\<close>

lemma hex_digit_val_hex4: "d < 16 \<Longrightarrow> hex_digit_val (hex4_digit d) = Some d"
proof -
  have "\<forall>d<16. hex_digit_val (hex4_digit d) = Some d" by code_simp
  then show "d < 16 \<Longrightarrow> hex_digit_val (hex4_digit d) = Some d" by blast
qed

lemma nibbles:
  fixes n :: nat
  shows "n div 0x1000 * 0x1000 + n div 0x100 mod 0x10 * 0x100 + n div 0x10 mod 0x10 * 0x10 + n mod 0x10 = n"
proof -
  have d: "n div 0x1000 = n div 0x10 div 0x10 div 0x10" "n div 0x100 = n div 0x10 div 0x10"
    by (simp_all add: div_mult2_eq [symmetric])
  have "p * 0x1000 + q * 0x100 + r * 0x10 + s = ((p * 0x10 + q) * 0x10 + r) * 0x10 + s" for p q r s :: nat
    by simp
  then show ?thesis unfolding d by (simp only: div_mult_mod_eq)
qed

lemma hex4_val_hex4: "map Some (hex4 u) = [Some a, Some b, Some c, Some d] \<Longrightarrow> hex4_val a b c d = Some u"
proof -
  assume "map Some (hex4 u) = [Some a, Some b, Some c, Some d]"
  then have "a = hex4_digit (unat u div 0x1000)" "b = hex4_digit (unat u div 0x100 mod 0x10)"
      "c = hex4_digit (unat u div 0x10 mod 0x10)" "d = hex4_digit (unat u mod 0x10)"
    by (simp_all add: hex4_def)
  moreover have "unat u div 0x1000 < 16" using unat_unit [of u] by simp
  ultimately show "hex4_val a b c d = Some u"
    by (simp add: hex4_val_def hex_digit_val_hex4 nibbles del: of_nat_add of_nat_mult)
qed

lemma unescape_unit:
  "unescape (escape_unit u @ t) = (case unescape t of None \<Rightarrow> None | Some r \<Rightarrow> Some (u # r))"
proof (cases "u = 0x08 \<or> u = 0x09 \<or> u = 0x0A \<or> u = 0x0C \<or> u = 0x0D \<or> u = QUOTE \<or> u = BACKSLASH")
  case True
  then show ?thesis
    by (elim disjE) (auto simp: escape_unit_def simple_escape_def split: option.split)
next
  case False
  show ?thesis
  proof (cases "u < 0x20 \<or> is_high u \<or> is_low u")
    case True
    obtain a b c d where h: "hex4 u = [a, b, c, d]" by (simp add: hex4_def)
    with hex4_val_hex4 have "hex4_val a b c d = Some u" by simp
    with True False h show ?thesis by (simp add: escape_unit_def)
  next
    case small: False
    then have "\<not> u \<le> 0x1F" by (simp add: word_le_nat_alt word_less_nat_alt)
    with False small show ?thesis by (simp add: escape_unit_def)
  qed
qed

lemma unescape_plain:
  "u \<noteq> BACKSLASH \<Longrightarrow> u \<noteq> QUOTE \<Longrightarrow> \<not> u \<le> 0x1F \<Longrightarrow>
    unescape (u # t) = (case unescape t of None \<Rightarrow> None | Some r \<Rightarrow> Some (u # r))"
  by simp

definition plain_unit :: "16 word \<Rightarrow> bool" where
  "plain_unit u \<longleftrightarrow> u \<noteq> BACKSLASH \<and> u \<noteq> QUOTE \<and> \<not> u \<le> 0x1F"

lemma surrogate_plain: "is_high u \<or> is_low u \<Longrightarrow> plain_unit u"
  by (auto simp: plain_unit_def is_high_def is_low_def word_le_nat_alt)

lemma unat_hex4_digit:
  assumes "d < 16"
  shows "unat (hex4_digit d) = (if d < 10 then 0x30 + d else 0x57 + d)"
proof -
  have "hex4_digit d = of_nat (if d < 10 then 0x30 + d else 0x57 + d)"
    by (simp add: hex4_digit_def)
  with assms show ?thesis by (simp only:) (simp add: unat_of_nat del: of_nat_add)
qed

lemma plain_unit_iff: "plain_unit u \<longleftrightarrow> unat u \<noteq> 0x5C \<and> unat u \<noteq> 0x22 \<and> 0x1F < unat u"
  by (auto simp: plain_unit_def word_le_nat_alt word_unat_eq_iff)

lemma hex4_digit_plain: "d < 16 \<Longrightarrow> plain_unit (hex4_digit d)"
  by (simp add: plain_unit_iff unat_hex4_digit)

lemma hex4_plain: "list_all plain_unit (hex4 u)"
  using unat_unit [of u] by (simp add: hex4_def hex4_digit_plain)

lemma unescape_escape: "unescape (escape_string s) = Some s"
proof (induction s rule: escape_string.induct)
  case (2 u)
  then show ?case using unescape_unit [of u "[]"] by simp
next
  case (3 u v s)
  then show ?case
    using surrogate_plain [of u] surrogate_plain [of v]
    by (auto simp: unescape_unit plain_unit_def simp del: unescape.simps(2) simp: unescape_plain)
qed simp

lemma scan_plain:
  "list_all plain_unit p \<Longrightarrow> scan_string path False (p @ t) =
     bindr (scan_string path False t) (\<lambda>(i, r). Inr (p @ i, r))"
proof (induction p)
  case Nil
  then show ?case by (cases "scan_string path False t") auto
next
  case (Cons u p)
  then show ?case by (cases "scan_string path False t") (auto simp: plain_unit_def)
qed

lemma scan_escaped:
  "scan_string path False (BACKSLASH # c # t) =
     bindr (scan_string path False t) (\<lambda>(i, r). Inr (BACKSLASH # c # i, r))"
  by (cases "scan_string path False t") (auto simp: word_le_nat_alt)

declare scan_string.simps(2) [simp del]

lemma scan_quote [simp]: "scan_string path False (QUOTE # rest) = Inr ([], rest)"
  by (simp add: scan_string.simps)

lemma scan_unit:
  "scan_string path False (escape_unit u @ t) =
     bindr (scan_string path False t) (\<lambda>(i, r). Inr (escape_unit u @ i, r))"
proof -
  have "scan_string path False (BACKSLASH # lit ''u'' @ hex4 u @ t) =
      bindr (scan_string path False t) (\<lambda>(i, r). Inr (BACKSLASH # lit ''u'' @ hex4 u @ i, r))"
    by (cases "scan_string path False t") (auto simp: scan_escaped scan_plain [OF hex4_plain])
  moreover have "plain_unit u" if "\<not> u < 0x20" "u \<noteq> QUOTE" "u \<noteq> BACKSLASH"
    using that by (auto simp: plain_unit_def word_le_nat_alt word_less_nat_alt)
  ultimately show ?thesis
    using scan_plain [of "[u]" path t] by (auto simp: escape_unit_def scan_escaped)
qed

lemma scan_escape:
  "scan_string path False (escape_string s @ QUOTE # rest) = Inr (escape_string s, rest)"
proof (induction s rule: escape_string.induct)
  case (2 u)
  show ?case by (simp add: scan_unit)
next
  case (3 u v s)
  show ?case
  proof (cases "is_high u \<and> is_low v")
    case True
    then have "list_all plain_unit [u, v]" using surrogate_plain by simp
    from scan_plain [OF this, of path "escape_string s @ QUOTE # rest"] True 3 show ?thesis
      by simp
  next
    case False
    with 3 show ?thesis by (auto simp: scan_unit)
  qed
qed simp

definition scalar_string :: "nfc \<Rightarrow> jstring \<Rightarrow> bool" where
  "scalar_string nfc s \<longleftrightarrow> is_ascii s \<or> isWellFormed s \<and> nfc s = s"

lemma assertUnicodeScalar_iff: "assertUnicodeScalar nfc s path = Inr u \<longleftrightarrow> scalar_string nfc s"
  by (auto simp: assertUnicodeScalar_def scalar_string_def)

lemma parseString_quote:
  "scalar_string nfc s \<Longrightarrow> parseString nfc path (quote_string s @ rest) = Inr (s, rest)"
  using assertUnicodeScalar_iff [of nfc s path "()"]
  by (simp add: parseString_def quote_string_def scan_escape unescape_escape)

section \<open>Values read back\<close>

fun wf_json :: "nfc \<Rightarrow> json \<Rightarrow> bool" where
  "wf_json nfc (JNum n) = isSafeInteger n"
| "wf_json nfc (JStr s) = scalar_string nfc s"
| "wf_json nfc (JArr xs) = (\<forall>x\<in>set xs. wf_json nfc x)"
| "wf_json nfc (JObj es) =
     (distinct (map fst es) \<and> (\<forall>(k, v)\<in>set es. scalar_string nfc k \<and> wf_json nfc v))"
| "wf_json nfc _ = True"

fun jsize :: "json \<Rightarrow> nat" where
  "jsize (JArr xs) = Suc (\<Sum>x\<leftarrow>xs. Suc (jsize x))"
| "jsize (JObj es) = Suc (\<Sum>(k, v)\<leftarrow>es. Suc (jsize v))"
| "jsize _ = 1"

lemma digit_bounds: "is_digit c \<longleftrightarrow> 0x30 \<le> unat c \<and> unat c \<le> 0x39"
  by (simp add: is_digit_def word_le_nat_alt)

lemma stringify_head:
  obtains c r where "stringify v = c # r" and "\<not> is_space c" and "c \<noteq> 0x5D" and "c \<noteq> 0x7D"
proof (cases v)
  case (JNum n)
  obtain d ds where d: "dec_nat (nat \<bar>n\<bar>) = d # ds" by (cases "dec_nat (nat \<bar>n\<bar>)") simp_all
  with dec_nat_digits [of "nat \<bar>n\<bar>"] have "is_digit d" by simp
  then have "\<not> is_space d" "d \<noteq> 0x5D" "d \<noteq> 0x7D" by (auto simp: digit_bounds is_space_def)
  with d JNum that show thesis by (cases "n < 0") (auto simp: dec_int_def is_space_def)
next
  case (JBool b)
  with that show thesis by (cases b) (auto simp: is_space_def)
qed (use that in \<open>auto simp: quote_string_def is_space_def\<close>)

lemma skip_stringify [simp]: "skipWhitespace (stringify v @ r) = stringify v @ r"
  using stringify_head [of v] by (metis append_Cons dropWhile.simps(2) skipWhitespace_def)

lemma consume_stringify [simp]:
  "consume 0x5D (stringify v @ r) = None" "consume 0x7D (stringify v @ r) = None"
  using stringify_head [of v] by (metis append_Cons consume.simps(2))+

lemma skip_quote [simp]: "skipWhitespace (quote_string s @ r) = quote_string s @ r"
  by (simp add: quote_string_def skipWhitespace_def is_space_def)

lemma hd_quote_string [simp]: "hd (quote_string s @ r) = QUOTE" "quote_string s @ r \<noteq> []"
  by (simp_all add: quote_string_def)

lemma consume_quote [simp]: "consume 0x7D (quote_string s @ r) = None"
  by (simp add: quote_string_def)

lemma skip_delim [simp]:
  "skipWhitespace (0x2C # r) = 0x2C # r" "skipWhitespace (0x5D # r) = 0x5D # r"
  "skipWhitespace (0x7D # r) = 0x7D # r" "skipWhitespace (0x3A # r) = 0x3A # r"
  by (simp_all add: skipWhitespace_def is_space_def)

lemma ends_number_delim [simp]:
  "ends_number (0x2C # r)" "ends_number (0x5D # r)" "ends_number (0x7D # r)" "ends_number []"
  by (simp_all add: ends_number_def digit_bounds)

lemma parse_elements_join:
  assumes "\<And>x fuel path rest. x \<in> set xs \<Longrightarrow> jsize x \<le> fuel \<Longrightarrow> ends_number rest \<Longrightarrow>
      parseValue fuel len nfc path (stringify x @ rest) = Inr (x, rest)"
    and "xs \<noteq> []" and "(\<Sum>x\<leftarrow>xs. Suc (jsize x)) \<le> fuel"
  shows "parse_elements fuel len nfc path acc (join (lit '','') (map stringify xs) @ 0x5D # rest) =
     Inr (JArr (acc @ xs), rest)"
  using assms
proof (induction xs arbitrary: fuel acc)
  case (Cons x xs)
  then obtain n where n: "fuel = Suc n" by (cases fuel) auto
  have x: "parseValue n len nfc p (stringify x @ r) = Inr (x, r)" if "ends_number r" for p r
    using Cons.prems(1,3) that n by simp
  show ?case
  proof (cases xs)
    case Nil
    with n x show ?thesis by simp
  next
    case (Cons y ys)
    have IH: "parse_elements n len nfc path (acc @ [x]) (join (lit '','') (map stringify xs) @ 0x5D # rest) =
        Inr (JArr ((acc @ [x]) @ xs), rest)"
      using Cons.IH [of n "acc @ [x]"] Cons.prems Cons n by simp
    have "skipWhitespace (join (lit '','') (map stringify xs) @ 0x5D # rest) =
        join (lit '','') (map stringify xs) @ 0x5D # rest"
      by (cases ys) (simp_all add: Cons)
    with n x IH Cons show ?thesis by simp
  qed
qed simp

lemma parse_members_join:
  assumes "\<And>k x fuel path rest. (k, x) \<in> set es \<Longrightarrow> jsize x \<le> fuel \<Longrightarrow> ends_number rest \<Longrightarrow>
      parseValue fuel len nfc path (stringify x @ rest) = Inr (x, rest)"
    and "\<And>k x. (k, x) \<in> set es \<Longrightarrow> scalar_string nfc k"
    and "es \<noteq> []" and "(\<Sum>(k, x)\<leftarrow>es. Suc (jsize x)) \<le> fuel" and "distinct (map fst (acc @ es))"
  shows "parse_members fuel len nfc path acc
      (join (lit '','') (map (\<lambda>(k, v). quote_string k @ lit '':'' @ stringify v) es) @ 0x7D # rest) =
     Inr (JObj (acc @ es), rest)"
  using assms
proof (induction es arbitrary: fuel acc)
  case (Cons e es)
  obtain k x where e: "e = (k, x)" by (cases e)
  from Cons.prems(4) obtain n where n: "fuel = Suc n" by (cases fuel) (auto simp: e)
  have x: "parseValue n len nfc p (stringify x @ r) = Inr (x, r)" if "ends_number r" for p r
    using Cons.prems(1) [of k x n r p] Cons.prems(4) that n by (simp add: e)
  have k: "parseString nfc p (quote_string k @ r) = Inr (k, r)" for p r
    using Cons.prems(2) [of k x] by (simp add: e parseString_quote)
  have fresh: "k \<notin> fst ` set acc" using Cons.prems(5) by (auto simp: e)
  show ?case
  proof (cases es)
    case Nil
    with n x k fresh show ?thesis by (simp add: e)
  next
    case (Cons e' es')
    let ?j = "join (lit '','') (map (\<lambda>(k, v). quote_string k @ lit '':'' @ stringify v) es) @ 0x7D # rest"
    have IH: "parse_members n len nfc path (acc @ [(k, x)]) ?j = Inr (JObj ((acc @ [(k, x)]) @ es), rest)"
      by (rule Cons.IH)
        (use Cons.prems(1,2) in \<open>blast intro: list.set_intros(2)\<close>,
         use Cons.prems(1,2) in \<open>blast intro: list.set_intros(2)\<close>,
         use Cons Cons.prems(4,5) n e in auto)
    have "skipWhitespace ?j = ?j"
      by (cases e'; cases es') (simp_all add: Cons)
    with n x k fresh IH Cons show ?thesis by (simp add: e)
  qed
qed simp

lemma parseNumber_head:
  "stringify (JNum m) @ rest = c # r \<Longrightarrow> parseValue (Suc n) len nfc path (c # r) = parseNumber path (c # r)"
proof -
  assume eq: "stringify (JNum m) @ rest = c # r"
  obtain d ds where d: "dec_nat (nat \<bar>m\<bar>) = d # ds" by (cases "dec_nat (nat \<bar>m\<bar>)") simp_all
  with dec_nat_digits [of "nat \<bar>m\<bar>"] have "is_digit d" by simp
  with eq d have "c = 0x2D \<or> is_digit c" by (cases "m < 0") (auto simp: dec_int_def)
  then show ?thesis by (auto simp: digit_bounds)
qed

lemma parseValue_stringify:
  "wf_json nfc v \<Longrightarrow> jsize v \<le> fuel \<Longrightarrow> ends_number rest \<Longrightarrow>
     parseValue fuel len nfc path (stringify v @ rest) = Inr (v, rest)"
proof (induction v arbitrary: fuel path rest)
  case JNull
  then obtain n where "fuel = Suc n" by (cases fuel) auto
  then show ?case by (simp add: parseLiteral_def starts_with_def)
next
  case (JBool b)
  then obtain n where "fuel = Suc n" by (cases fuel) auto
  then show ?case by (cases b) (simp_all add: parseLiteral_def starts_with_def)
next
  case (JNum m)
  then obtain n where n: "fuel = Suc n" by (cases fuel) auto
  obtain c r where c: "stringify (JNum m) @ rest = c # r"
    using stringify_head [of "JNum m"] by (metis append_Cons)
  have "parseNumber path (stringify (JNum m) @ rest) = Inr (JNum m, rest)"
    using parseNumber_dec_int JNum.prems by simp
  then show ?case unfolding n c parseNumber_head [OF c] .
next
  case (JStr s)
  then obtain n where n: "fuel = Suc n" by (cases fuel) auto
  from JStr have "parseString nfc path (quote_string s @ rest) = Inr (s, rest)"
    by (simp add: parseString_quote)
  then show ?case by (simp add: n quote_string_def)
next
  case (JArr xs)
  then obtain n where n: "fuel = Suc n" by (cases fuel) auto
  show ?case
  proof (cases xs)
    case Nil
    then show ?thesis by (simp add: n)
  next
    case (Cons y ys)
    have "parse_elements n len nfc path [] (join (lit '','') (map stringify xs) @ 0x5D # rest) =
        Inr (JArr ([] @ xs), rest)"
      by (rule parse_elements_join) (use JArr Cons n in auto)
    moreover have "skipWhitespace (join (lit '','') (map stringify xs) @ 0x5D # rest) =
        join (lit '','') (map stringify xs) @ 0x5D # rest"
      "consume 0x5D (join (lit '','') (map stringify xs) @ 0x5D # rest) = None"
      by (cases ys; simp add: Cons)+
    ultimately show ?thesis by (simp add: n)
  qed
next
  case (JObj es)
  then obtain n where n: "fuel = Suc n" by (cases fuel) auto
  let ?j = "join (lit '','') (map (\<lambda>(k, v). quote_string k @ lit '':'' @ stringify v) es) @ 0x7D # rest"
  show ?case
  proof (cases es)
    case Nil
    then show ?thesis by (simp add: n)
  next
    case (Cons e es')
    have "parse_members n len nfc path [] ?j = Inr (JObj ([] @ es), rest)"
    proof (rule parse_members_join)
      fix k x fuel path rest
      assume "(k, x) \<in> set es" "jsize x \<le> fuel" "ends_number rest"
      moreover from this JObj.prems have "wf_json nfc x" by auto
      ultimately show "parseValue fuel len nfc path (stringify x @ rest) = Inr (x, rest)"
        using JObj.IH [of "(k, x)" x] by simp
    qed (use JObj.prems Cons n in auto)
    moreover have "skipWhitespace ?j = ?j" "consume 0x7D ?j = None"
      by (cases e; cases es'; simp add: Cons)+
    ultimately show ?thesis by (simp add: n)
  qed
qed

lemma length_join: "xs \<noteq> [] \<Longrightarrow> length (join sep xs) + length sep = (\<Sum>x\<leftarrow>xs. length x + length sep)"
  by (induction sep xs rule: join.induct) auto

lemma jsize_le: "jsize v \<le> 2 * length (stringify v)"
proof (induction v)
  case (JNum n)
  then show ?case by (cases "dec_nat (nat \<bar>n\<bar>)") (auto simp: dec_int_def)
next
  case (JArr xs)
  have "(\<Sum>x\<leftarrow>xs. Suc (jsize x)) \<le> 2 * length (join (lit '','') (map stringify xs)) + 2"
  proof (cases xs)
    case (Cons y ys)
    have "(\<Sum>x\<leftarrow>xs. Suc (jsize x)) \<le> (\<Sum>x\<leftarrow>xs. 2 * (length (stringify x) + 1))"
      using JArr by (intro sum_list_mono) fastforce
    also have "\<dots> = 2 * (\<Sum>x\<leftarrow>xs. length (stringify x) + 1)" by (simp only: sum_list_const_mult)
    finally show ?thesis using length_join [of "map stringify xs" "lit '',''"] Cons
      by (simp add: comp_def)
  qed simp
  then show ?case by simp
next
  case (JObj es)
  let ?f = "\<lambda>(k, v). quote_string k @ lit '':'' @ stringify v"
  have "(\<Sum>(k, x)\<leftarrow>es. Suc (jsize x)) \<le> 2 * length (join (lit '','') (map ?f es)) + 2"
  proof (cases es)
    case (Cons y ys)
    have "(\<Sum>(k, x)\<leftarrow>es. Suc (jsize x)) \<le> (\<Sum>e\<leftarrow>es. 2 * (length (?f e) + 1))"
      using JObj by (intro sum_list_mono) fastforce
    also have "\<dots> = 2 * (\<Sum>e\<leftarrow>es. length (?f e) + 1)" by (simp only: sum_list_const_mult)
    finally show ?thesis using length_join [of "map ?f es" "lit '',''"] Cons
      by (simp add: comp_def)
  qed simp
  then show ?case by simp
qed (simp_all add: quote_string_def)

lemma parse_stringify:
  assumes "wf_json nfc v"
  shows "StrictJsonParser_parse nfc (stringify v) = Inr v"
proof -
  have "parseValue (2 * length (stringify v) + 1) len nfc path (stringify v @ []) = Inr (v, [])" for len path
    using jsize_le [of v] by (intro parseValue_stringify [OF assms]) simp_all
  then show ?thesis
    using skip_stringify [of v "[]"] by (simp add: StrictJsonParser_parse_def skipWhitespace_def)
qed

section \<open>The parser consumes its input and never runs out of fuel\<close>

lemma length_skip: "length (skipWhitespace s) \<le> length s"
  by (simp add: skipWhitespace_def length_dropWhile_le)

lemma consume_Some: "consume c s = Some r \<Longrightarrow> length s = Suc (length r)"
  by (cases s) (auto split: if_splits)

lemma scan_string_shorter: "scan_string path e s = Inr (i, r) \<Longrightarrow> length r < length s"
  by (induction s arbitrary: e i r)
    (fastforce simp: scan_string.simps bindr_eq_Inr_iff split: if_splits)+

lemma parseString_ok:
  assumes "parseString nfc path rest = Inr (v, r)"
  shows "length r < length rest" and "scalar_string nfc v"
  using assms
  by (auto simp: parseString_def bindr_eq_Inr_iff assertUnicodeScalar_iff split: option.splits
      dest!: scan_string_shorter)

lemma parseLiteral_ok: "parseLiteral len l v rest = Inr (w, r) \<Longrightarrow> l \<noteq> [] \<Longrightarrow> length r < length rest \<and> w = v"
  by (cases l; cases rest) (auto simp: parseLiteral_def starts_with_def split: if_splits)

lemma int_part_shorter: "int_part s = Some (d, r) \<Longrightarrow> length r < length s"
  by (cases s) (auto simp: int_part_def less_Suc_eq_le length_dropWhile_le split: if_splits)

lemma frac_part_le: "frac_part s = (d, r) \<Longrightarrow> length r \<le> length s"
  by (cases s) (auto simp: frac_part_def le_Suc_eq length_dropWhile_le intro: le_SucI split: if_splits)

lemma exp_part_le: "exp_part s = (d, r) \<Longrightarrow> length r \<le> length s"
  by (auto simp: exp_part_def Let_def split: list.splits if_splits
      intro: le_SucI length_dropWhile_le)

lemma parseNumber_ok:
  assumes "parseNumber path rest = Inr (v, r)"
  shows "length r < length rest" and "wf_json nfc v"
proof -
  define neg where "neg = (case rest of c # _ \<Rightarrow> c = 0x2D | [] \<Rightarrow> False)"
  from assms obtain ip r1 fp r2 ex r3 n where
    p: "int_part (if neg then tl rest else rest) = Some (ip, r1)" "frac_part r1 = (fp, r2)"
      "exp_part r2 = (ex, r)" "literal_int neg ip fp ex = Some n" "v = JNum n"
    by (auto simp: parseNumber_def Let_def neg_def [symmetric] split: option.splits prod.splits)
  have "length r < length (if neg then tl rest else rest)"
    using int_part_shorter [OF p(1)] frac_part_le [OF p(2)] exp_part_le [OF p(3)] by linarith
  then show "length r < length rest" by (auto split: if_splits)
  have nn: "0 \<le> int m div 10 ^ k" for m k by (simp add: pos_imp_zdiv_nonneg_iff)
  from p(4) have "isSafeInteger n"
    by (auto simp: literal_int_def Let_def isSafeInteger_def abs_of_nonneg [OF nn] split: if_splits)
  with p(5) show "wf_json nfc v" by simp
qed

text \<open>No primitive reports a lack of fuel.\<close>

lemma primitive_fuel [simp]:
  "parseString nfc path rest \<noteq> Inl OutOfFuel" "parseLiteral len l v rest \<noteq> Inl OutOfFuel"
  "parseNumber path rest \<noteq> Inl OutOfFuel"
proof -
  have "scan_string path e s \<noteq> Inl OutOfFuel" for path e s
    by (induction s arbitrary: e) (auto simp: scan_string.simps bindr_def split: sum.splits)
  then show "parseString nfc path rest \<noteq> Inl OutOfFuel"
    by (auto simp: parseString_def bindr_def assertUnicodeScalar_def split: sum.splits option.splits)
qed (auto simp: parseLiteral_def parseNumber_def Let_def split: option.splits prod.splits)

definition parses_ok :: "nat \<Rightarrow> nat \<Rightarrow> nfc \<Rightarrow> bool" where
  "parses_ok n len nfc \<longleftrightarrow>
    (\<forall>path rest v r. parseValue n len nfc path rest = Inr (v, r) \<longrightarrow> length r < length rest \<and> wf_json nfc v) \<and>
    (\<forall>path rest es v r. wf_json nfc (JObj es) \<longrightarrow> parse_members n len nfc path es rest = Inr (v, r) \<longrightarrow>
       length r < length rest \<and> wf_json nfc v) \<and>
    (\<forall>path rest xs v r. wf_json nfc (JArr xs) \<longrightarrow> parse_elements n len nfc path xs rest = Inr (v, r) \<longrightarrow>
       length r < length rest \<and> wf_json nfc v)"

lemma parses_okD:
  assumes "parses_ok n len nfc"
  shows "parseValue n len nfc path rest = Inr (v, r) \<Longrightarrow> length r < length rest"
    and "parseValue n len nfc path rest = Inr (v, r) \<Longrightarrow> wf_json nfc v"
    and "parse_members n len nfc path es rest = Inr (v, r) \<Longrightarrow> wf_json nfc (JObj es) \<Longrightarrow> length r < length rest \<and> wf_json nfc v"
    and "parse_elements n len nfc path xs rest = Inr (v, r) \<Longrightarrow> wf_json nfc (JArr xs) \<Longrightarrow> length r < length rest \<and> wf_json nfc v"
  using assms unfolding parses_ok_def by blast+

lemma length_consume_skip: "consume c (skipWhitespace s) = Some r \<Longrightarrow> length r < length s"
  using length_skip [of s] by (auto dest: consume_Some)

lemma parseValue_step:
  assumes IH: "parses_ok n len nfc" and p: "parseValue (Suc n) len nfc path rest = Inr (v, r)"
  shows "length r < length rest \<and> wf_json nfc v"
proof -
  obtain c s where rest: "rest = c # s" using p by (cases rest) simp_all
  note skip = length_skip [of s]
  consider "c = QUOTE" | "c = 0x7B" | "c = 0x5B" | "c = 0x74" | "c = 0x66" | "c = 0x6E"
    | "parseNumber path rest = Inr (v, r)"
    using p by (auto simp: rest split: if_splits)
  then show ?thesis
  proof cases
    case 1
    with p show ?thesis by (auto simp: rest bindr_eq_Inr_iff dest: parseString_ok)
  next
    case 2
    show ?thesis
    proof (cases "consume 0x7D (skipWhitespace s)")
      case None
      with 2 p have "parse_members n len nfc path [] (skipWhitespace s) = Inr (v, r)" by (simp add: rest)
      from parses_okD(3) [OF IH this] skip show ?thesis by (simp add: rest)
    next
      case (Some r')
      with 2 p show ?thesis using length_consume_skip [OF Some] by (auto simp: rest)
    qed
  next
    case 3
    show ?thesis
    proof (cases "consume 0x5D (skipWhitespace s)")
      case None
      with 3 p have "parse_elements n len nfc path [] (skipWhitespace s) = Inr (v, r)" by (simp add: rest)
      from parses_okD(4) [OF IH this] skip show ?thesis by (simp add: rest)
    next
      case (Some r')
      with 3 p show ?thesis using length_consume_skip [OF Some] by (auto simp: rest)
    qed
  next
    case 7
    then show ?thesis using parseNumber_ok by blast
  qed (use p in \<open>auto simp: rest dest!: parseLiteral_ok\<close>)
qed

lemma parse_members_step:
  assumes IH: "parses_ok n len nfc" and es: "wf_json nfc (JObj es)"
    and p: "parse_members (Suc n) len nfc path es rest = Inr (v, r)"
  shows "length r < length rest \<and> wf_json nfc v"
proof -
  from p obtain name r1 r2 w r3 where
    s: "parseString nfc (path @ lit '' object name'') rest = Inr (name, r1)" "name \<notin> fst ` set es"
      "consume 0x3A (skipWhitespace r1) = Some r2"
    and w: "parseValue n len nfc (path @ lit ''.'' @ name) (skipWhitespace r2) = Inr (w, r3)"
    and k: "(case consume 0x7D (skipWhitespace r3) of
             Some r5 \<Rightarrow> Inr (JObj (es @ [(name, w)]), r5)
           | None \<Rightarrow>
               (case consume 0x2C (skipWhitespace r3) of
                  None \<Rightarrow> throw (CanonicalizationError (lit ''missing comma at '' @ path))
                | Some r5 \<Rightarrow> parse_members n len nfc path (es @ [(name, w)]) (skipWhitespace r5))) = Inr (v, r)"
    by (auto simp: bindr_eq_Inr_iff Let_def split: if_splits option.splits)
  have r3: "length r3 < length rest"
    using parseString_ok(1) [OF s(1)] length_consume_skip [OF s(3)] parses_okD(1) [OF IH w]
      length_skip [of r2] by linarith
  have es': "wf_json nfc (JObj (es @ [(name, w)]))"
    using es s(2) parseString_ok(2) [OF s(1)] parses_okD(2) [OF IH w] by auto
  show ?thesis
  proof (cases "consume 0x7D (skipWhitespace r3)")
    case None
    with k obtain r5 where c: "consume 0x2C (skipWhitespace r3) = Some r5"
        and m: "parse_members n len nfc path (es @ [(name, w)]) (skipWhitespace r5) = Inr (v, r)"
      by (auto split: option.splits)
    from parses_okD(3) [OF IH m es'] length_consume_skip [OF c] length_skip [of r5] r3
    show ?thesis by simp
  next
    case (Some r5)
    with k es' length_consume_skip [OF Some] r3 show ?thesis by simp
  qed
qed

lemma parse_elements_step:
  assumes IH: "parses_ok n len nfc" and xs: "wf_json nfc (JArr xs)"
    and p: "parse_elements (Suc n) len nfc path xs rest = Inr (v, r)"
  shows "length r < length rest \<and> wf_json nfc v"
proof -
  from p obtain w r3 where
    w: "parseValue n len nfc (path @ lit ''['' @ dec_nat (length xs) @ lit '']'') rest = Inr (w, r3)"
    and k: "(case consume 0x5D (skipWhitespace r3) of
             Some r5 \<Rightarrow> Inr (JArr (xs @ [w]), r5)
           | None \<Rightarrow>
               (case consume 0x2C (skipWhitespace r3) of
                  None \<Rightarrow> throw (CanonicalizationError (lit ''missing comma at '' @ path))
                | Some r5 \<Rightarrow> parse_elements n len nfc path (xs @ [w]) (skipWhitespace r5))) = Inr (v, r)"
    by (auto simp: bindr_eq_Inr_iff Let_def split: if_splits option.splits)
  have xs': "wf_json nfc (JArr (xs @ [w]))" using xs parses_okD(2) [OF IH w] by auto
  show ?thesis
  proof (cases "consume 0x5D (skipWhitespace r3)")
    case None
    with k obtain r5 where c: "consume 0x2C (skipWhitespace r3) = Some r5"
        and m: "parse_elements n len nfc path (xs @ [w]) (skipWhitespace r5) = Inr (v, r)"
      by (auto split: option.splits)
    from parses_okD(4) [OF IH m xs'] length_consume_skip [OF c] length_skip [of r5]
      parses_okD(1) [OF IH w]
    show ?thesis by simp
  next
    case (Some r5)
    with k xs' length_consume_skip [OF Some] parses_okD(1) [OF IH w] show ?thesis by simp
  qed
qed

lemma parses_ok: "parses_ok n len nfc"
proof (induction n)
  case 0
  show ?case by (simp add: parses_ok_def)
next
  case (Suc n)
  then show ?case
    unfolding parses_ok_def [of "Suc n"]
    by (blast intro: parseValue_step parse_members_step parse_elements_step
        dest: parseValue_step parse_members_step parse_elements_step)
qed

lemma parsed_wf: "StrictJsonParser_parse nfc source = Inr v \<Longrightarrow> wf_json nfc v"
  by (auto simp: StrictJsonParser_parse_def bindr_eq_Inr_iff Let_def simp del: parseValue.simps
      split: if_splits dest: parses_okD(2) [OF parses_ok])

definition fuel_ok :: "nat \<Rightarrow> nat \<Rightarrow> nfc \<Rightarrow> bool" where
  "fuel_ok n len nfc \<longleftrightarrow>
    (\<forall>path rest. 2 * length rest + 1 \<le> n \<longrightarrow> parseValue n len nfc path rest \<noteq> Inl OutOfFuel) \<and>
    (\<forall>path rest es. 2 * length rest + 2 \<le> n \<longrightarrow> parse_members n len nfc path es rest \<noteq> Inl OutOfFuel) \<and>
    (\<forall>path rest xs. 2 * length rest + 2 \<le> n \<longrightarrow> parse_elements n len nfc path xs rest \<noteq> Inl OutOfFuel)"

lemma fuel_okD:
  assumes "fuel_ok n len nfc"
  shows "2 * length rest + 1 \<le> n \<Longrightarrow> parseValue n len nfc path rest \<noteq> Inl OutOfFuel"
    and "2 * length rest + 2 \<le> n \<Longrightarrow> parse_members n len nfc path es rest \<noteq> Inl OutOfFuel"
    and "2 * length rest + 2 \<le> n \<Longrightarrow> parse_elements n len nfc path xs rest \<noteq> Inl OutOfFuel"
  using assms unfolding fuel_ok_def by blast+

lemma bindr_Inl: "bindr m f = Inl e \<longleftrightarrow> m = Inl e \<or> (\<exists>x. m = Inr x \<and> f x = Inl e)"
  by (cases m) auto

lemma parseValue_fuel:
  assumes "fuel_ok n len nfc" and "2 * length rest + 1 \<le> Suc n"
  shows "parseValue (Suc n) len nfc path rest \<noteq> Inl OutOfFuel"
proof (cases rest)
  case (Cons c s)
  have "2 * length (skipWhitespace s) + 2 \<le> n" using assms(2) length_skip [of s] Cons by simp
  then show ?thesis
    using fuel_okD(2,3) [OF assms(1)] primitive_fuel(1) [of nfc path rest] Cons
    by (auto simp: bindr_Inl Let_def split: option.splits)
qed simp

lemma parse_members_fuel:
  assumes IH: "fuel_ok n len nfc" and le: "2 * length rest + 2 \<le> Suc n"
  shows "parse_members (Suc n) len nfc path es rest \<noteq> Inl OutOfFuel"
proof
  assume p: "parse_members (Suc n) len nfc path es rest = Inl OutOfFuel"
  then obtain name r1 r2 where
    s: "parseString nfc (path @ lit '' object name'') rest = Inr (name, r1)"
      "consume 0x3A (skipWhitespace r1) = Some r2"
    by (auto simp: bindr_Inl split: if_splits option.splits)
  have r2: "2 * length (skipWhitespace r2) + 1 \<le> n"
    using parseString_ok(1) [OF s(1)] length_consume_skip [OF s(2)] length_skip [of r2] le by linarith
  from p s fuel_okD(1) [OF IH r2] obtain w r3 r5 where
    w: "parseValue n len nfc (path @ lit ''.'' @ name) (skipWhitespace r2) = Inr (w, r3)"
    and r5: "consume 0x2C (skipWhitespace r3) = Some r5"
      "parse_members n len nfc path (es @ [(name, w)]) (skipWhitespace r5) = Inl OutOfFuel"
    by (auto simp: bindr_Inl Let_def split: if_splits option.splits)
  have "2 * length (skipWhitespace r5) + 2 \<le> n"
    using parses_okD(1) [OF parses_ok w] length_consume_skip [OF r5(1)] length_skip [of r5] r2 by linarith
  with r5(2) fuel_okD(2) [OF IH] show False by blast
qed

lemma parse_elements_fuel:
  assumes IH: "fuel_ok n len nfc" and le: "2 * length rest + 2 \<le> Suc n"
  shows "parse_elements (Suc n) len nfc path xs rest \<noteq> Inl OutOfFuel"
proof
  assume p: "parse_elements (Suc n) len nfc path xs rest = Inl OutOfFuel"
  have le': "2 * length rest + 1 \<le> n" using le by linarith
  from p fuel_okD(1) [OF IH le'] obtain w r3 r5 where
    w: "parseValue n len nfc (path @ lit ''['' @ dec_nat (length xs) @ lit '']'') rest = Inr (w, r3)"
    and r5: "consume 0x2C (skipWhitespace r3) = Some r5"
      "parse_elements n len nfc path (xs @ [w]) (skipWhitespace r5) = Inl OutOfFuel"
    by (auto simp: bindr_Inl Let_def split: if_splits option.splits)
  have "2 * length (skipWhitespace r5) + 2 \<le> n"
    using parses_okD(1) [OF parses_ok w] length_consume_skip [OF r5(1)] length_skip [of r5] le' by linarith
  with r5(2) fuel_okD(3) [OF IH] show False by blast
qed

lemma fuel_ok: "fuel_ok n len nfc"
proof (induction n)
  case (Suc n)
  then show ?case
    unfolding fuel_ok_def [of "Suc n"]
    using parseValue_fuel parse_members_fuel parse_elements_fuel by blast
qed (simp add: fuel_ok_def)

lemma parse_terminates: "StrictJsonParser_parse nfc source \<noteq> Inl OutOfFuel"
proof -
  have "2 * length (skipWhitespace source) + 1 \<le> 2 * length source + 1"
    using length_skip [of source] by simp
  from fuel_okD(1) [OF fuel_ok this] show ?thesis
    by (auto simp: StrictJsonParser_parse_def bindr_Inl Let_def simp del: parseValue.simps
        split: if_splits)
qed

end
