(* ===== verification/Schemas.thy ===== *)
theory Schemas
  imports Prelude
begin

text \<open>
  The scalar schemas of \<^verbatim>\<open>lib/contracts/src/schemas.ts\<close>: version-7 UUIDs, SHA-256
  digests in hexadecimal, RFC 3339 UTC timestamps with their calendar check, and the
  bounded integers and texts. Every schema is a predicate on the parsed value; the
  calendar functions of the language's \<open>Date\<close> that the timestamp schema relies on
  are defined here too.
\<close>

section \<open>Identifiers and digests\<close>

definition UUID_V7_PATTERN :: "(16 word \<Rightarrow> bool) list" where
  "UUID_V7_PATTERN =
     replicate 8 is_lower_hex @ [is_char CHR ''-''] @
     replicate 4 is_lower_hex @ [is_char CHR ''-'', is_char CHR ''7''] @
     replicate 3 is_lower_hex @
     [is_char CHR ''-'', \<lambda>c. c \<in> set (lit ''89ab'')] @
     replicate 3 is_lower_hex @ [is_char CHR ''-''] @
     replicate 12 is_lower_hex"

definition UuidV7Schema :: "jstring \<Rightarrow> bool" where
  "UuidV7Schema s = matches UUID_V7_PATTERN s"

abbreviation UuidSchema :: "jstring \<Rightarrow> bool" where
  "UuidSchema \<equiv> UuidV7Schema"

definition Sha256HexSchema :: "jstring \<Rightarrow> bool" where
  "Sha256HexSchema s = matches (replicate 64 is_lower_hex) s"

lemma UuidV7Schema_length: "UuidV7Schema s \<Longrightarrow> length s = 36"
  by (auto simp: UuidV7Schema_def UUID_V7_PATTERN_def dest!: matches_length)

lemma Sha256HexSchema_iff: "Sha256HexSchema s \<longleftrightarrow> length s = 64 \<and> list_all is_lower_hex s"
  by (simp add: Sha256HexSchema_def matches_replicate)

section \<open>Decimal fields and the calendar\<close>

text \<open>The value of a run of decimal digits.\<close>

definition digits_val :: "jstring \<Rightarrow> int" where
  "digits_val s = foldl (\<lambda>v c. 10 * v + (uint c - 48)) 0 s"

definition leap_year :: "int \<Rightarrow> bool" where
  "leap_year y \<longleftrightarrow> (y mod 4 = 0 \<and> y mod 100 \<noteq> 0) \<or> y mod 400 = 0"

definition days_in_month :: "int \<Rightarrow> int \<Rightarrow> int" where
  "days_in_month y m =
     (if m = 2 then (if leap_year y then 29 else 28)
      else if m \<in> {4, 6, 9, 11} then 30 else 31)"

definition day_from_year :: "int \<Rightarrow> int" where
  "day_from_year y =
     365 * (y - 1970) + (y - 1969) div 4 - (y - 1901) div 100 + (y - 1601) div 400"

definition day_number :: "int \<Rightarrow> int \<Rightarrow> int \<Rightarrow> int" where
  "day_number y m d =
     day_from_year y + sum_list (map (days_in_month y) [1..m - 1]) + d - 1"

definition calendar_ok :: "int \<Rightarrow> int \<Rightarrow> int \<Rightarrow> int \<Rightarrow> int \<Rightarrow> int \<Rightarrow> bool" where
  "calendar_ok y mo d h mi s \<longleftrightarrow>
     1 \<le> mo \<and> mo \<le> 12 \<and> 1 \<le> d \<and> d \<le> days_in_month y mo \<and> h \<le> 23 \<and> mi \<le> 59 \<and> s \<le> 59"

text \<open>
  \<open>Date.parse\<close> on \<^verbatim>\<open>YYYY-MM-DDTHH:MM:SSZ\<close>: the fields are read at their fixed
  offsets; the result is in milliseconds since the epoch.
\<close>

definition date_fields :: "jstring \<Rightarrow> int \<times> int \<times> int \<times> int \<times> int \<times> int" where
  "date_fields s =
     (digits_val (slice 0 4 s), digits_val (slice 5 7 s), digits_val (slice 8 10 s),
      digits_val (slice 11 13 s), digits_val (slice 14 16 s), digits_val (slice 17 19 s))"

definition date_utc_ms :: "jstring \<Rightarrow> int" where
  "date_utc_ms s =
     (case date_fields s of (y, mo, d, h, mi, sec) \<Rightarrow>
        (((day_number y mo d * 24 + h) * 60 + mi) * 60 + sec) * 1000)"

section \<open>Timestamps\<close>

definition rfc3339_prefix :: "(16 word \<Rightarrow> bool) list" where
  "rfc3339_prefix =
     replicate 4 is_digit @ [is_char CHR ''-''] @ replicate 2 is_digit @ [is_char CHR ''-''] @
     replicate 2 is_digit @ [is_char CHR ''T''] @ replicate 2 is_digit @ [is_char CHR '':''] @
     replicate 2 is_digit @ [is_char CHR '':''] @ replicate 2 is_digit"

text \<open>The optional fraction of one to six digits, and the closing \<open>Z\<close>.\<close>

definition rfc3339_suffix :: "jstring \<Rightarrow> bool" where
  "rfc3339_suffix s \<longleftrightarrow>
     s = lit ''Z'' \<or>
     (\<exists>n \<in> {1, 2, 3, 4, 5, 6}.
        matches ([is_char CHR ''.''] @ replicate n is_digit @ [is_char CHR ''Z'']) s)"

definition RFC3339_UTC_PATTERN :: "jstring \<Rightarrow> bool" where
  "RFC3339_UTC_PATTERN s \<longleftrightarrow> matches rfc3339_prefix (take 19 s) \<and> rfc3339_suffix (drop 19 s)"

text \<open>
  The refinement compares \<open>toISOString\<close> of the parsed instant with the input: it
  holds exactly when no field was normalised, that is when the fields are a calendar
  instant.
\<close>

definition Rfc3339UtcSchema :: "jstring \<Rightarrow> bool" where
  "Rfc3339UtcSchema s \<longleftrightarrow>
     RFC3339_UTC_PATTERN s \<and>
     (case date_fields s of (y, mo, d, h, mi, sec) \<Rightarrow> calendar_ok y mo d h mi sec)"

section \<open>Bounded integers and texts\<close>

definition SafePositiveIntegerSchema :: "int \<Rightarrow> bool" where
  "SafePositiveIntegerSchema n \<longleftrightarrow> 0 < n \<and> isSafeInteger n"

definition VotingWeightSchema :: "int \<Rightarrow> bool" where
  "VotingWeightSchema n \<longleftrightarrow> 1 \<le> n \<and> n \<le> 1000000000 \<and> isSafeInteger n"

definition NonEmptyTextSchema :: "jstring \<Rightarrow> bool" where
  "NonEmptyTextSchema s \<longleftrightarrow> 1 \<le> length s \<and> length s \<le> 262144"

definition CanonicalResolutionTextSchema :: "jstring \<Rightarrow> bool" where
  "CanonicalResolutionTextSchema s \<longleftrightarrow> 1 \<le> length s \<and> length s \<le> 1048576"

section \<open>Facts\<close>

lemma rfc3339_suffix_length:
  "rfc3339_suffix s \<Longrightarrow> 1 \<le> length s \<and> length s \<le> 8"
  by (auto simp: rfc3339_suffix_def dest!: matches_length)

lemma rfc3339_length:
  assumes "RFC3339_UTC_PATTERN s"
  shows "20 \<le> length s \<and> length s \<le> 27"
proof -
  have "1 \<le> length (drop 19 s) \<and> length (drop 19 s) \<le> 8"
    using assms by (intro rfc3339_suffix_length) (simp add: RFC3339_UTC_PATTERN_def)
  then show ?thesis by auto
qed

end
