(* ===== verification/Value_Objects.thy ===== *)
theory Value_Objects
  imports Schemas
begin

unbundle bit_operations_syntax

text \<open>
  \<^verbatim>\<open>lib/domain/src/value-objects.ts\<close>: exact fractions over arbitrary-precision
  integers, bounded voting weights, version-7 UUIDs built from a millisecond timestamp
  and ten random bytes, and the confirmation code a human types.
\<close>

section \<open>Fractions and weights\<close>

definition MAX_VOTING_WEIGHT :: int where
  "MAX_VOTING_WEIGHT = 1000000000"

record Rational =
  numerator :: int
  denominator :: int

definition rational :: "int \<Rightarrow> int \<Rightarrow> Rational result" where
  "rational num den =
     (if den \<le> 0 then throw (RangeError ''denominator must be positive'')
      else if num < 0 \<or> den < num
        then throw (RangeError ''fraction must be between zero and one'')
      else Inr \<lparr>numerator = num, denominator = den\<rparr>)"

definition meetsFraction :: "int \<Rightarrow> int \<Rightarrow> Rational \<Rightarrow> bool result" where
  "meetsFraction val tot fraction =
     (if val < 0 \<or> tot < 0 then throw (RangeError ''weights cannot be negative'')
      else Inr (tot * numerator fraction \<le> val * denominator fraction))"

definition assertWeight :: "int \<Rightarrow> int result" where
  "assertWeight val =
     (if val \<le> 0 \<or> MAX_VOTING_WEIGHT < val then throw (RangeError ''invalid voting weight'')
      else Inr val)"

section \<open>Version-7 UUIDs\<close>

definition UUID_V7_MAX_TIMESTAMP :: int where
  "UUID_V7_MAX_TIMESTAMP = 281474976710655"

text \<open>The loop over \<open>index = 5 .. 0\<close>: the low byte of the timestamp goes to
  \<open>bytes[index]\<close>, then the timestamp shifts right by eight bits.\<close>

fun timestamp_bytes :: "nat \<Rightarrow> int \<Rightarrow> 8 word list \<Rightarrow> 8 word list" where
  "timestamp_bytes 0 timestamp bytes = bytes"
| "timestamp_bytes (Suc index) timestamp bytes =
     timestamp_bytes index (drop_bit 8 timestamp)
       (bytes[index := word_of_int (timestamp AND 0xFF)])"

definition hex_digit :: "nat \<Rightarrow> 16 word" where
  "hex_digit n = (if n < 10 then of_nat (48 + n) else of_nat (87 + n))"

text \<open>\<open>value.toString(16).padStart(2, "0")\<close> of a byte.\<close>

definition hex_byte :: "8 word \<Rightarrow> jstring" where
  "hex_byte b = [hex_digit (unat b div 16), hex_digit (unat b mod 16)]"

definition hex_of_bytes :: "8 word list \<Rightarrow> jstring" where
  "hex_of_bytes bs = concat (map hex_byte bs)"

definition uuid_bytes :: "int \<Rightarrow> 8 word list \<Rightarrow> 8 word list" where
  "uuid_bytes timestampMs random =
     (let bytes = timestamp_bytes 6 timestampMs (replicate 16 0);
          bytes = bytes[6 := 0x70 OR (random ! 0 AND 0x0F)];
          bytes = bytes[7 := random ! 1];
          bytes = bytes[8 := 0x80 OR (random ! 2 AND 0x3F)]
      in take 9 bytes @ drop 3 random)"

definition uuid_format :: "jstring \<Rightarrow> jstring" where
  "uuid_format hex =
     slice 0 8 hex @ lit ''-'' @ slice 8 12 hex @ lit ''-'' @ slice 12 16 hex @ lit ''-'' @
     slice 16 20 hex @ lit ''-'' @ drop 20 hex"

text \<open>The timestamp is a JavaScript number, the ten random bytes a \<open>Uint8Array\<close>.\<close>

definition uuidV7 :: "jsnum \<Rightarrow> 8 word list \<Rightarrow> jstring result" where
  "uuidV7 timestampMs random =
     (case timestampMs of
        Fin q \<Rightarrow>
          (if q \<notin> \<int> \<or> q < 0 \<or> of_int UUID_V7_MAX_TIMESTAMP < q
             then throw (RangeError ''UUIDv7 timestamp must be a 48-bit nonnegative integer'')
           else if length random \<noteq> 10
             then throw (RangeError ''UUIDv7 requires exactly 10 random bytes'')
           else Inr (uuid_format (hex_of_bytes (uuid_bytes \<lfloor>q\<rfloor> random))))
      | _ \<Rightarrow> throw (RangeError ''UUIDv7 timestamp must be a 48-bit nonnegative integer''))"

text \<open>\<open>BigInt("0x" + digits)\<close>.\<close>

definition hex_val :: "jstring \<Rightarrow> int" where
  "hex_val s =
     foldl (\<lambda>v c. 16 * v + (if is_digit c then uint c - 48 else uint c - 87)) 0 s"

definition uuidV7TimestampMs :: "jstring \<Rightarrow> int result" where
  "uuidV7TimestampMs s =
     (if \<not> matches UUID_V7_PATTERN s then throw (TypeError ''value is not a canonical UUIDv7'')
      else Inr (hex_val (slice 0 8 s @ slice 9 13 s)))"

section \<open>Confirmation codes\<close>

definition confirmation_alphabet :: jstring where
  "confirmation_alphabet = lit ''ABCDEFGHJKLMNPQRSTUVWXYZ23456789''"

definition confirmationCode :: "(nat \<Rightarrow> 8 word list) \<Rightarrow> jstring" where
  "confirmationCode random =
     map (\<lambda>b. confirmation_alphabet ! (unat b mod length confirmation_alphabet)) (random 8)"

section \<open>Facts about fractions and weights\<close>

lemma rational_Inr_iff:
  "rational num den = Inr r \<longleftrightarrow>
     0 < den \<and> 0 \<le> num \<and> num \<le> den \<and> r = \<lparr>numerator = num, denominator = den\<rparr>"
  by (auto simp: rational_def)

lemma meetsFraction_nonneg:
  "0 \<le> v \<Longrightarrow> 0 \<le> t \<Longrightarrow> meetsFraction v t f = Inr (t * numerator f \<le> v * denominator f)"
  by (simp add: meetsFraction_def)

lemma assertWeight_Inr_iff:
  "assertWeight w = Inr v \<longleftrightarrow> 0 < w \<and> w \<le> MAX_VOTING_WEIGHT \<and> v = w"
  by (auto simp: assertWeight_def)

section \<open>Facts about UUIDs\<close>

lemma hex_digit_facts:
  assumes "n < 16"
  shows "is_lower_hex (hex_digit n)"
    and "(if is_digit (hex_digit n) then uint (hex_digit n) - 48 else uint (hex_digit n) - 87) = int n"
proof -
  have "\<forall>n\<in>set [0..<16]. is_lower_hex (hex_digit n) \<and>
     (if is_digit (hex_digit n) then uint (hex_digit n) - 48 else uint (hex_digit n) - 87) = int n"
    by code_simp
  with assms show "is_lower_hex (hex_digit n)"
    and "(if is_digit (hex_digit n) then uint (hex_digit n) - 48 else uint (hex_digit n) - 87) = int n"
    by auto
qed

lemma unat_byte_bound: "unat (b :: 8 word) < 256"
  using unsigned_less [of b, where 'a = nat] by simp

lemma hex_byte_hex: "list_all is_lower_hex (hex_byte b)"
  using hex_digit_facts(1) [of "unat b div 16"] hex_digit_facts(1) [of "unat b mod 16"]
    unat_byte_bound [of b]
  by (simp add: hex_byte_def)

lemma hex_of_bytes_simps [simp]:
  "hex_of_bytes [] = []"
  "hex_of_bytes (b # bs) = hex_byte b @ hex_of_bytes bs"
  "length (hex_of_bytes bs) = 2 * length bs"
  by (simp_all add: hex_of_bytes_def) (induction bs; simp add: hex_byte_def)

lemma hex_of_bytes_hex: "list_all is_lower_hex (hex_of_bytes bs)"
  by (induction bs) (auto simp: hex_byte_hex)

text \<open>The big-endian value of a byte string, and its hexadecimal reading.\<close>

definition be_val :: "8 word list \<Rightarrow> int" where
  "be_val bs = foldl (\<lambda>v b. 256 * v + uint b) 0 bs"

lemma hex_fold_bytes:
  "foldl (\<lambda>v c. 16 * v + (if is_digit c then uint c - 48 else uint c - 87)) v (hex_of_bytes bs) =
     foldl (\<lambda>v b. 256 * v + uint b) v bs"
proof (induction bs arbitrary: v)
  case Nil
  then show ?case by simp
next
  case (Cons b bs)
  have split: "16 * (16 * v + int (unat b div 16)) + int (unat b mod 16) = 256 * v + uint b"
  proof -
    have "int (unat b) = 16 * int (unat b div 16) + int (unat b mod 16)"
      by presburger
    then show ?thesis by simp
  qed
  have "unat b div 16 < 16" and "unat b mod 16 < 16"
    using unat_byte_bound [of b] by auto
  then show ?case
    by (simp only: hex_of_bytes_simps hex_byte_def foldl_append foldl_Cons foldl_Nil
        hex_digit_facts(2) split Cons.IH)
qed

lemma hex_val_bytes: "hex_val (hex_of_bytes bs) = be_val bs"
  by (simp add: hex_val_def be_val_def hex_fold_bytes)

lemma and_FF: "(t :: int) AND 0xFF = t mod 256"
proof -
  have "take_bit 8 t = t AND mask 8" by (rule take_bit_eq_mask)
  then show ?thesis by (simp add: take_bit_eq_mod mask_eq_exp_minus_1)
qed

lemma timestamp_bytes_6:
  "timestamp_bytes 6 t (replicate 16 0) =
     map word_of_int
       [drop_bit 8 (drop_bit 8 (drop_bit 8 (drop_bit 8 (drop_bit 8 t)))) AND 0xFF,
        drop_bit 8 (drop_bit 8 (drop_bit 8 (drop_bit 8 t))) AND 0xFF,
        drop_bit 8 (drop_bit 8 (drop_bit 8 t)) AND 0xFF,
        drop_bit 8 (drop_bit 8 t) AND 0xFF, drop_bit 8 t AND 0xFF, t AND 0xFF] @
     replicate 10 0"
  by (simp only: numeral_eq_Suc pred_numeral_simps arith_simps timestamp_bytes.simps
      replicate.simps list_update.simps nat.case list.map append.simps BitM.simps)

lemma low_byte: "uint (word_of_int (t AND 0xFF) :: 8 word) = t AND 0xFF"
  by (simp add: and_FF uint_word_of_int)

lemma byte_split: "256 * drop_bit 8 t + (t AND 0xFF) = (t :: int)"
  by (simp add: and_FF drop_bit_eq_div)

lemma top_byte:
  assumes "0 \<le> t" and "t \<le> UUID_V7_MAX_TIMESTAMP"
  defines "u \<equiv> drop_bit 8 (drop_bit 8 (drop_bit 8 (drop_bit 8 (drop_bit 8 t))))"
  shows "u AND 0xFF = u"
proof -
  have u: "u = t div 1099511627776"
    by (simp add: u_def drop_bit_eq_div)
  have "0 \<le> u" and "u < 256"
    using assms(1,2) by (simp_all add: u UUID_V7_MAX_TIMESTAMP_def pos_imp_zdiv_nonneg_iff)
  then show ?thesis by (simp add: and_FF)
qed

lemma be_val_timestamp:
  assumes "0 \<le> t" and "t \<le> UUID_V7_MAX_TIMESTAMP"
  shows "be_val (take 6 (timestamp_bytes 6 t (replicate 16 0))) = t"
proof -
  have six: "take 6 ([a, b, c, d, e, g] @ ys) = [a, b, c, d, e, g]" for a b c d e g and ys :: "8 word list"
    by simp
  show ?thesis
    unfolding timestamp_bytes_6 be_val_def list.map six foldl.simps low_byte
    by (simp only: top_byte [OF assms] byte_split mult_zero_right add_0_left)
qed

text \<open>The layout of a formatted UUID over its sixteen bytes.\<close>

lemma uuid_bytes_parts:
  assumes "length random = 10"
  shows "\<exists>rest. uuid_bytes t random = take 6 (timestamp_bytes 6 t (replicate 16 0)) @
      [0x70 OR (random ! 0 AND 0x0F), random ! 1, 0x80 OR (random ! 2 AND 0x3F)] @ rest \<and>
      length rest = 7"
proof -
  have "length (timestamp_bytes 6 t (replicate 16 0)) = 16"
    by (simp add: timestamp_bytes_6)
  then obtain ts a b c rest' where ts: "timestamp_bytes 6 t (replicate 16 0) = ts @ [a, b, c] @ rest'"
    "length ts = 6" "length rest' = 7"
    using timestamp_bytes_6 [of t] by (intro that [of _ 0 0 0 "replicate 7 0"]) (auto simp: eval_nat_numeral)
  show ?thesis
    using assms ts by (intro exI [of _ "drop 3 random"]) (simp add: uuid_bytes_def list_update_append)
qed

lemma unat_div_16: "unat (b :: 8 word) div 16 = unat (drop_bit 4 b)"
  by (simp add: unat_drop_bit_eq) (simp add: drop_bit_eq_div)

lemma version_nibble: "unat (0x70 OR (r AND 0x0F) :: 8 word) div 16 = 7"
  by (simp add: unat_div_16 drop_bit_or drop_bit_and)

lemma variant_nibble: "unat (0x80 OR (r AND 0x3F) :: 8 word) div 16 \<in> {8, 9, 10, 11}"
proof -
  have "drop_bit 4 r AND 3 = take_bit 2 (drop_bit 4 r)"
    by (simp add: take_bit_eq_mask mask_eq_exp_minus_1)
  then have "unat (drop_bit 4 r AND 3) = unat (drop_bit 4 r) mod 4"
    by (simp only: unsigned_take_bit_eq) (simp add: take_bit_eq_mod)
  then have "unat (drop_bit 4 r AND 3) < 4" by simp
  then have "unat (drop_bit 4 r AND 3) \<in> {0, 1, 2, 3}" by auto
  then have "drop_bit 4 r AND 3 \<in> {0, 1, 2, 3 :: 8 word}"
    by (auto simp: word_unat_eq_iff)
  then show ?thesis by (auto simp: unat_div_16 drop_bit_or drop_bit_and)
qed

lemma variant_char: "n \<in> {8, 9, 10, 11} \<Longrightarrow> hex_digit n \<in> set (lit ''89ab'')"
  by (auto simp: hex_digit_def)

lemma uuid_format_parts:
  assumes "length A = 8" "length B = 4" "length C = 3" "length D = 3" "length E = 12"
  shows "uuid_format (A @ B @ [c] @ C @ [v] @ D @ E) =
     A @ lit ''-'' @ B @ lit ''-'' @ (c # C) @ lit ''-'' @ (v # D) @ lit ''-'' @ E"
  using assms by (simp add: uuid_format_def slice_def)

lemma uuid_format_matches:
  assumes "length A = 8" "length B = 4" "length C = 3" "length D = 3" "length E = 12"
    and "list_all is_lower_hex (A @ B @ C @ D @ E)" and "c = of_char CHR ''7''"
    and "v \<in> set (lit ''89ab'')"
  shows "UuidV7Schema (uuid_format (A @ B @ [c] @ C @ [v] @ D @ E))"
  unfolding uuid_format_parts [OF assms(1-5)] UuidV7Schema_def UUID_V7_PATTERN_def
  using assms by (simp add: matches_append matches_replicate is_char_def)

lemma hex_of_bytes_append: "hex_of_bytes (xs @ ys) = hex_of_bytes xs @ hex_of_bytes ys"
  by (simp add: hex_of_bytes_def)

lemma hex_of_four_bytes:
  "hex_of_bytes (ts @ [b6, b7, b8] @ d # rs) =
     hex_of_bytes ts @ [hex_digit (unat b6 div 16)] @ (hex_digit (unat b6 mod 16) # hex_byte b7) @
     [hex_digit (unat b8 div 16)] @ (hex_digit (unat b8 mod 16) # hex_byte d) @ hex_of_bytes rs"
  by (simp add: hex_of_bytes_append hex_byte_def)

lemma hex_digit_7: "hex_digit 7 = of_char CHR ''7''"
  by (simp add: hex_digit_def)

lemma split_at: "n \<le> length xs \<Longrightarrow> \<exists>a b. xs = a @ b \<and> length a = n"
  by (intro exI [of _ "take n xs"] exI [of _ "drop n xs"]) simp

text \<open>The hexadecimal text of the bytes, cut where the format cuts it.\<close>

lemma uuid_hex_parts:
  assumes "length random = 10"
  obtains A B C v D E where
    "hex_of_bytes (uuid_bytes t random) = A @ B @ [of_char CHR ''7''] @ C @ [v] @ D @ E"
    "hex_of_bytes (take 6 (timestamp_bytes 6 t (replicate 16 0))) = A @ B"
    "length A = 8" "length B = 4" "length C = 3" "length D = 3" "length E = 12"
    "list_all is_lower_hex (A @ B @ C @ D @ E)" "v \<in> set (lit ''89ab'')"
proof -
  let ?ts = "take 6 (timestamp_bytes 6 t (replicate 16 0))"
  let ?r6 = "0x70 OR (random ! 0 AND 0x0F)" and ?r8 = "0x80 OR (random ! 2 AND 0x3F)"
  obtain rest where u: "uuid_bytes t random = ?ts @ [?r6, random ! 1, ?r8] @ rest"
    and rest: "length rest = 7"
    using uuid_bytes_parts [OF assms] by blast
  have "length ?ts = 6" by (simp add: timestamp_bytes_6)
  then have "length (hex_of_bytes ?ts) = 12" by simp
  then obtain A B where ab: "hex_of_bytes ?ts = A @ B" "length A = 8" "length B = 4"
    using split_at [of 8 "hex_of_bytes ?ts"] by (auto simp del: hex_of_bytes_simps(3))
  obtain d rs where r: "rest = d # rs" using rest by (cases rest) auto
  define C where "C = hex_digit (unat ?r6 mod 16) # hex_byte (random ! 1)"
  define D where "D = hex_digit (unat ?r8 mod 16) # hex_byte d"
  define v where "v = hex_digit (unat ?r8 div 16)"
  have hex: "hex_of_bytes (uuid_bytes t random) =
      A @ B @ [of_char CHR ''7''] @ C @ [v] @ D @ hex_of_bytes rs"
    unfolding u C_def D_def v_def r hex_of_four_bytes version_nibble hex_digit_7 ab
    by (simp only: append_assoc)
  show ?thesis
  proof (rule that [OF hex ab(1) ab(2,3)])
    show "length C = 3" and "length D = 3" by (simp_all add: C_def D_def hex_byte_def)
    show "length (hex_of_bytes rs) = 12" using rest r by simp
    show "v \<in> set (lit ''89ab'')" unfolding v_def by (rule variant_char [OF variant_nibble])
    show "list_all is_lower_hex (A @ B @ C @ D @ hex_of_bytes rs)"
      using hex_of_bytes_hex [of ?ts] hex_of_bytes_hex [of rs] hex_byte_hex [of d]
        hex_byte_hex [of "random ! 1"]
      by (simp add: ab C_def D_def hex_digit_facts(1))
  qed
qed

section \<open>Properties\<close>

text \<open>Every 48-bit millisecond timestamp and ten random bytes give a UUID that
  satisfies the version-7 schema, and reading its timestamp back returns the timestamp it
  was built from.\<close>

theorem uuidV7_roundtrip:
  assumes "0 \<le> t" and "t \<le> UUID_V7_MAX_TIMESTAMP" and "length random = 10"
  shows "\<exists>s. uuidV7 (Fin (of_int t)) random = Inr s \<and> UuidV7Schema s \<and>
     uuidV7TimestampMs s = Inr t"
proof -
  obtain A B C v D E where p:
    "hex_of_bytes (uuid_bytes t random) = A @ B @ [of_char CHR ''7''] @ C @ [v] @ D @ E"
    "hex_of_bytes (take 6 (timestamp_bytes 6 t (replicate 16 0))) = A @ B"
    "length A = 8" "length B = 4" "length C = 3" "length D = 3" "length E = 12"
    "list_all is_lower_hex (A @ B @ C @ D @ E)" "v \<in> set (lit ''89ab'')"
    using uuid_hex_parts [OF assms(3)] by blast
  define s where "s = uuid_format (hex_of_bytes (uuid_bytes t random))"
  have s: "s = A @ lit ''-'' @ B @ lit ''-'' @ (of_char CHR ''7'' # C) @ lit ''-'' @
      (v # D) @ lit ''-'' @ E"
    unfolding s_def p(1) by (rule uuid_format_parts [OF p(3-7)])
  have schema: "UuidV7Schema s"
    unfolding s_def p(1) by (rule uuid_format_matches [OF p(3-8) refl p(9)])
  have "slice 0 8 s @ slice 9 13 s = A @ B"
    using p(3,4) by (simp add: s slice_def)
  then have "hex_val (slice 0 8 s @ slice 9 13 s) = t"
    using be_val_timestamp [OF assms(1,2)] by (simp only: p(2) [symmetric] hex_val_bytes)
  with schema have "uuidV7TimestampMs s = Inr t"
    by (simp add: uuidV7TimestampMs_def UuidV7Schema_def)
  moreover have "uuidV7 (Fin (of_int t)) random = Inr s"
    using assms by (simp add: uuidV7_def s_def)
  ultimately show ?thesis using schema by blast
qed

theorem uuidV7_roundtrip_witness:
  "\<exists>s. uuidV7 (Fin (of_int 1700000000123)) (replicate 10 7) = Inr s \<and> UuidV7Schema s \<and>
     uuidV7TimestampMs s = Inr 1700000000123"
  by (rule uuidV7_roundtrip) (simp_all add: UUID_V7_MAX_TIMESTAMP_def)

lemma length_alphabet: "length confirmation_alphabet = 32"
  by (simp add: confirmation_alphabet_def del: lit_simps)

lemma alphabet_distinct: "distinct confirmation_alphabet"
  by code_simp

lemma bytes_as_image:
  "{b :: 8 word. P (unat b)} = of_nat ` {n. n < 256 \<and> P n}"
proof (intro equalityI subsetI)
  fix b :: "8 word"
  assume "b \<in> {b. P (unat b)}"
  then show "b \<in> of_nat ` {n. n < 256 \<and> P n}"
    by (intro image_eqI [of _ _ "unat b"]) (simp_all add: unat_byte_bound)
qed (auto simp: unat_of_nat)

lemma residue_class_image:
  assumes "i < 32"
  shows "{n :: nat. n < 256 \<and> n mod 32 = i} = (\<lambda>k. i + 32 * k) ` {..<8}"
proof (intro equalityI subsetI)
  fix n
  assume "n \<in> {n :: nat. n < 256 \<and> n mod 32 = i}"
  then have "n = i + 32 * (n div 32)" and "n div 32 < 8"
    by (auto simp: mod_mult_div_eq less_mult_imp_div_less)
  then show "n \<in> (\<lambda>k. i + 32 * k) ` {..<8}" by blast
qed (use assms in auto)

text \<open>A confirmation code has one character per random byte, every character is in
  the alphabet without the ambiguous I, O, 0 and 1, and each character stands for exactly
  eight of the 256 byte values, so uniform bytes give uniform characters.\<close>

theorem confirmationCode_uniform:
  "length (confirmationCode random) = length (random 8) \<and>
   set (confirmationCode random) \<subseteq> set confirmation_alphabet \<and>
   set (lit ''IO01'') \<inter> set confirmation_alphabet = {} \<and>
   (\<forall>i < 32. card {b :: 8 word. confirmationCode (\<lambda>_. [b]) = [confirmation_alphabet ! i]} = 8)"
proof (intro conjI allI impI)
  show "length (confirmationCode random) = length (random 8)"
    by (simp add: confirmationCode_def)
  show "set (confirmationCode random) \<subseteq> set confirmation_alphabet"
    by (auto simp: confirmationCode_def length_alphabet)
  show "set (lit ''IO01'') \<inter> set confirmation_alphabet = {}"
    by (simp add: confirmation_alphabet_def)
  fix i :: nat
  assume i: "i < 32"
  have "confirmationCode (\<lambda>_. [b]) = [confirmation_alphabet ! i] \<longleftrightarrow> unat b mod 32 = i"
    for b :: "8 word"
    using i alphabet_distinct by (simp add: confirmationCode_def length_alphabet nth_eq_iff_index_eq)
  then have "{b :: 8 word. confirmationCode (\<lambda>_. [b]) = [confirmation_alphabet ! i]} =
      of_nat ` {n. n < 256 \<and> n mod 32 = i}" (is "?L = _")
    using bytes_as_image [of "\<lambda>n. n mod 32 = i"] by simp
  moreover have "{n :: nat. n < 256 \<and> n mod 32 = i} = (\<lambda>k. i + 32 * k) ` {..<8}"
    by (rule residue_class_image [OF i])
  moreover have "inj_on (of_nat :: nat \<Rightarrow> 8 word) {n. n < 256 \<and> n mod 32 = i}"
    by (auto simp: inj_on_def word_of_nat_eq_iff take_bit_eq_mod)
  ultimately show "card ?L = 8"
    by (simp add: card_image inj_on_def)
qed

theorem confirmationCode_uniform_witness:
  "card {b :: 8 word. confirmationCode (\<lambda>_. [b]) = [confirmation_alphabet ! 3]} = 8"
  using confirmationCode_uniform by simp

end
