(* ===== verification/Canonical.thy ===== *)
theory Canonical
  imports Json Sha256 Value_Objects
begin

text \<open>
  Canonical JSON, canonical text and digests of \<^verbatim>\<open>lib/contracts/src/canonical.ts\<close>. The
  structural walk keeps its explicit stack of frames; it is shown to accept exactly the
  values of bounded nesting with admissible strings. Code outside the repository enters
  through the record \<open>platform\<close>: Unicode normalization and the \<open>canonicalize\<close> package,
  which encodes only values with integer-index names.
\<close>

record platform =
  normalizeNFC :: nfc
  canonicalize :: "json \<Rightarrow> jstring"

definition MAX_JSON_CONTAINER_DEPTH :: nat where
  "MAX_JSON_CONTAINER_DEPTH = 512"

section \<open>Structural walk\<close>

fun assertJsonScalar :: "nfc \<Rightarrow> json \<Rightarrow> jstring \<Rightarrow> unit result" where
  "assertJsonScalar nfc (JStr s) path = assertUnicodeScalar nfc s path"
| "assertJsonScalar nfc _ path = Inr ()"

definition arrayEntries :: "json list \<Rightarrow> (jstring \<times> json) list" where
  "arrayEntries xs = map (\<lambda>(i, x). (dec_nat i, x)) (enumerate 0 xs)"

datatype JsonFrame = JsonFrame (frame_path: jstring) (frame_array: bool) (frame_entries: "(jstring \<times> json) list")

fun open_frame :: "json \<Rightarrow> jstring \<Rightarrow> JsonFrame option" where
  "open_frame (JArr xs) path = Some (JsonFrame path True (arrayEntries xs))"
| "open_frame (JObj es) path = Some (JsonFrame path False es)"
| "open_frame _ path = None"

fun frame_weight :: "JsonFrame \<Rightarrow> nat" where
  "frame_weight (JsonFrame p a es) = Suc (\<Sum>e\<leftarrow>es. Suc (2 * jsize (snd e)))"

definition stack_weight :: "JsonFrame list \<Rightarrow> nat" where
  "stack_weight st = (\<Sum>f\<leftarrow>st. frame_weight f)"

lemma sum_arrayEntries: "(\<Sum>e\<leftarrow>arrayEntries xs. g (snd e)) = (\<Sum>x\<leftarrow>xs. g x :: nat)"
proof -
  have "(\<Sum>e\<leftarrow>map (\<lambda>(i, x). (dec_nat i, x)) (enumerate n xs). g (snd e)) = (\<Sum>x\<leftarrow>xs. g x)" for n
    by (induction xs arbitrary: n) simp_all
  then show ?thesis by (simp add: arrayEntries_def)
qed

lemma set_arrayEntries: "snd ` set (arrayEntries xs) = set xs"
proof -
  have "snd ` set (map (\<lambda>(i, x). (dec_nat i, x)) (enumerate n xs)) = set xs" for n
    by (induction xs arbitrary: n) simp_all
  then show ?thesis by (simp add: arrayEntries_def)
qed

lemma sum_double: "(\<Sum>x\<leftarrow>xs. Suc (2 * g x)) \<le> 2 * (\<Sum>x\<leftarrow>xs. Suc (g x :: nat))"
  by (induction xs) simp_all

lemma open_frame_weight: "open_frame v path = Some f \<Longrightarrow> frame_weight f < 2 * jsize v"
proof (cases v)
  case (JArr xs)
  moreover assume "open_frame v path = Some f"
  ultimately show ?thesis
    using sum_double [of jsize xs] sum_arrayEntries [of "\<lambda>x. Suc (2 * jsize x)" xs] by auto
next
  case (JObj es)
  moreover assume "open_frame v path = Some f"
  ultimately show ?thesis
    using sum_double [of "\<lambda>e. jsize (snd e)" es] by (auto simp: split_def less_Suc_eq_le)
qed simp_all

lemma jsize_pos [simp]: "0 < jsize v"
  by (cases v) simp_all

text \<open>
  The body of the outer loop on \<open>current\<close> (\<open>walk_visit\<close>) and the inner loop that looks for the
  next entry (\<open>walk_next\<close>). Own JSON data has no cycles and only plain prototypes.
\<close>

function (sequential) walk_visit ::
    "nfc \<Rightarrow> bool \<Rightarrow> json \<Rightarrow> jstring \<Rightarrow> JsonFrame list \<Rightarrow> unit result"
and walk_next :: "nfc \<Rightarrow> bool \<Rightarrow> JsonFrame list \<Rightarrow> unit result" where
  "walk_visit nfc validateValues current path stack =
     (case open_frame current path of
        Some frame \<Rightarrow>
          if MAX_JSON_CONTAINER_DEPTH \<le> length stack
          then throw (CanonicalizationError (lit ''JSON exceeds '' @ dec_nat MAX_JSON_CONTAINER_DEPTH @
                 lit '' nested containers at '' @ path))
          else walk_next nfc validateValues (frame # stack)
      | None \<Rightarrow>
          bindr (if validateValues then assertJsonScalar nfc current path else Inr ())
            (\<lambda>_. walk_next nfc validateValues stack))"
| "walk_next nfc validateValues [] = Inr ()"
| "walk_next nfc validateValues (JsonFrame path array [] # stack) = walk_next nfc validateValues stack"
| "walk_next nfc validateValues (JsonFrame path array ((key, entry) # es) # stack) =
     bindr (if validateValues \<and> \<not> array then assertUnicodeScalar nfc key (path @ lit '' object name'') else Inr ())
       (\<lambda>_. walk_visit nfc validateValues entry
          (if array then path @ lit ''['' @ key @ lit '']'' else path @ lit ''.'' @ key)
          (JsonFrame path array es # stack))"
  by pat_completeness auto

termination
  by (relation "measure (\<lambda>x. case x of
        Inl (nfc, b, v, path, st) \<Rightarrow> 2 * jsize v + stack_weight st
      | Inr (nfc, b, st) \<Rightarrow> stack_weight st)")
    (auto simp: stack_weight_def dest: open_frame_weight)

definition walkJsonStructure :: "nfc \<Rightarrow> json \<Rightarrow> bool \<Rightarrow> unit result" where
  "walkJsonStructure nfc val validateValues = walk_visit nfc validateValues val (lit ''$'') []"

definition assertJsonStructure :: "nfc \<Rightarrow> json \<Rightarrow> unit result" where
  "assertJsonStructure nfc val = walkJsonStructure nfc val False"

definition assertJsonValue :: "nfc \<Rightarrow> json \<Rightarrow> unit result" where
  "assertJsonValue nfc val = walkJsonStructure nfc val True"

section \<open>Structure of a JSON text\<close>

fun scan_structure :: "nat \<Rightarrow> int \<Rightarrow> bool \<Rightarrow> bool \<Rightarrow> jstring \<Rightarrow> unit result" where
  "scan_structure index depth quoted escaped [] = Inr ()"
| "scan_structure index depth quoted escaped (c # rest) =
     (if quoted
      then scan_structure (Suc index) depth (escaped \<or> c \<noteq> 0x22) (\<not> escaped \<and> c = 0x5C) rest
      else if c = 0x22 then scan_structure (Suc index) depth True escaped rest
      else if c = 0x5B \<or> c = 0x7B
        then (if int MAX_JSON_CONTAINER_DEPTH < depth + 1
              then throw (CanonicalizationError (lit ''JSON exceeds '' @ dec_nat MAX_JSON_CONTAINER_DEPTH @
                lit '' nested containers at offset '' @ dec_nat index))
              else scan_structure (Suc index) (depth + 1) quoted escaped rest)
      else if c = 0x5D \<or> c = 0x7D then scan_structure (Suc index) (depth - 1) quoted escaped rest
      else scan_structure (Suc index) depth quoted escaped rest)"

definition assertJsonTextStructure :: "jstring \<Rightarrow> unit result" where
  "assertJsonTextStructure source = scan_structure 0 0 False False source"

section \<open>Canonical encoding\<close>

text \<open>A name that is the decimal numeral of an array index.\<close>

definition integer_index :: "jstring \<Rightarrow> bool" where
  "integer_index key \<longleftrightarrow>
     key \<noteq> [] \<and> list_all is_digit key \<and> dec_val key < 4294967295 \<and> dec_nat (dec_val key) = key"

datatype encoding_signal = GENERAL_ENCODING_REQUIRED

function sortedJsonCopy :: "json \<Rightarrow> encoding_signal + json" where
  "sortedJsonCopy JNull = Inr JNull"
| "sortedJsonCopy (JBool b) = Inr (JBool b)"
| "sortedJsonCopy (JNum n) = Inr (JNum n)"
| "sortedJsonCopy (JStr s) = Inr (JStr s)"
| "sortedJsonCopy (JArr xs) = bindr (mapr sortedJsonCopy xs) (\<lambda>ys. Inr (JArr ys))"
| "sortedJsonCopy (JObj es) =
     bindr (mapr (\<lambda>(key, v).
         if integer_index key then Inl GENERAL_ENCODING_REQUIRED
         else bindr (sortedJsonCopy v) (\<lambda>w. Inr (key, w))) (sort_key fst es))
       (\<lambda>fs. Inr (JObj fs))"
  by pat_completeness auto

termination
proof (relation "measure jsize")
  fix xs :: "json list" and x
  assume "x \<in> set xs"
  then have "Suc (jsize x) \<le> (\<Sum>x\<leftarrow>xs. Suc (jsize x))"
    by (induction xs) auto
  then show "(x, JArr xs) \<in> measure jsize" by simp
next
  fix es :: "(jstring \<times> json) list" and e key v
  assume "e \<in> set (sort_key fst es)" and "(key, v) = e"
  then have "(key, v) \<in> set es" by simp
  then have "Suc (jsize v) \<le> (\<Sum>(k, v)\<leftarrow>es. Suc (jsize v))"
    by (induction es) auto
  then show "(v, JObj es) \<in> measure jsize" by simp
qed simp

definition canonicalJson :: "platform \<Rightarrow> json \<Rightarrow> jstring result" where
  "canonicalJson pl val =
     bindr (assertJsonValue (normalizeNFC pl) val) (\<lambda>_.
       case sortedJsonCopy val of
         Inr copy \<Rightarrow> Inr (stringify copy)
       | Inl _ \<Rightarrow> Inr (canonicalize pl val))"

text \<open>The argument of the text functions: a string, or bytes that must be strict UTF-8.\<close>

datatype text_input = Text jstring | Bytes "byte list"

fun decodeUtf8 :: "text_input \<Rightarrow> jstring result" where
  "decodeUtf8 (Text s) = Inr s"
| "decodeUtf8 (Bytes bs) =
     (case utf8_decode bs of
        None \<Rightarrow> throw (CanonicalizationError (lit ''input is not strict UTF-8''))
      | Some s \<Rightarrow> Inr s)"

definition canonicalJsonFromText :: "platform \<Rightarrow> text_input \<Rightarrow> jstring result" where
  "canonicalJsonFromText pl val =
     bindr (decodeUtf8 val) (\<lambda>source.
       if starts_with [0xFEFF] source
         then throw (CanonicalizationError (lit ''JSON byte-order mark rejected''))
       else bindr (assertJsonTextStructure source) (\<lambda>_.
         bindr (StrictJsonParser_parse (normalizeNFC pl) source) (\<lambda>v. canonicalJson pl v)))"

definition canonicalText :: "platform \<Rightarrow> text_input \<Rightarrow> jstring result" where
  "canonicalText pl val =
     bindr (decodeUtf8 val) (\<lambda>txt.
       if starts_with [0xFEFF] txt
         then throw (CanonicalizationError (lit ''text byte-order mark rejected''))
       else if 0x0D \<in> set txt
         then throw (CanonicalizationError (lit ''canonical text requires LF line endings''))
       else bindr (assertUnicodeScalar (normalizeNFC pl) txt (lit ''text'')) (\<lambda>_. Inr txt))"

section \<open>Digests\<close>

fun input_bytes :: "text_input \<Rightarrow> byte list" where
  "input_bytes (Text s) = utf8_encode s"
| "input_bytes (Bytes bs) = bs"

definition sha256Bytes :: "text_input \<Rightarrow> byte list" where
  "sha256Bytes val = sha256 (input_bytes val)"

definition sha256Hex :: "text_input \<Rightarrow> jstring" where
  "sha256Hex val = hex_of_bytes (sha256Bytes val)"

definition canonicalSha256 :: "platform \<Rightarrow> json \<Rightarrow> jstring result" where
  "canonicalSha256 pl val = bindr (canonicalJson pl val) (\<lambda>s. Inr (sha256Hex (Text s)))"

fun bytes_of_hex :: "jstring \<Rightarrow> byte list" where
  "bytes_of_hex (a # b # s) =
     of_nat (the (hex_digit_val a) * 16 + the (hex_digit_val b)) # bytes_of_hex s"
| "bytes_of_hex _ = []"

definition safeHashEqual :: "jstring \<Rightarrow> jstring \<Rightarrow> bool" where
  "safeHashEqual leftHex rightHex =
     (if \<not> Sha256HexSchema leftHex \<or> \<not> Sha256HexSchema rightHex then False
      else bytes_of_hex leftHex = bytes_of_hex rightHex)"

section \<open>What the walk accepts\<close>

fun admissible :: "nfc \<Rightarrow> bool \<Rightarrow> nat \<Rightarrow> json \<Rightarrow> bool" where
  "admissible nfc b d (JStr s) = (b \<longrightarrow> scalar_string nfc s)"
| "admissible nfc b d (JArr xs) = (d < MAX_JSON_CONTAINER_DEPTH \<and> (\<forall>x\<in>set xs. admissible nfc b (Suc d) x))"
| "admissible nfc b d (JObj es) =
     (d < MAX_JSON_CONTAINER_DEPTH \<and>
      (\<forall>(k, x)\<in>set es. (b \<longrightarrow> scalar_string nfc k) \<and> admissible nfc b (Suc d) x))"
| "admissible nfc b d _ = True"

definition frame_ok :: "nfc \<Rightarrow> bool \<Rightarrow> nat \<Rightarrow> JsonFrame \<Rightarrow> bool" where
  "frame_ok nfc b d f \<longleftrightarrow>
     (\<forall>(k, x)\<in>set (frame_entries f).
        (b \<and> \<not> frame_array f \<longrightarrow> scalar_string nfc k) \<and> admissible nfc b (Suc d) x)"

fun stack_ok :: "nfc \<Rightarrow> bool \<Rightarrow> JsonFrame list \<Rightarrow> bool" where
  "stack_ok nfc b [] = True"
| "stack_ok nfc b (f # st) = (frame_ok nfc b (length st) f \<and> stack_ok nfc b st)"

lemma open_frame_admissible:
  "open_frame v path = Some f \<Longrightarrow>
     admissible nfc b d v \<longleftrightarrow> d < MAX_JSON_CONTAINER_DEPTH \<and> frame_ok nfc b d f"
proof (cases v)
  case (JArr xs)
  moreover assume "open_frame v path = Some f"
  moreover have "(\<forall>x\<in>set xs. P x) \<longleftrightarrow> (\<forall>e\<in>set (arrayEntries xs). P (snd e))" for P
    unfolding set_arrayEntries [of xs, symmetric] by blast
  ultimately show ?thesis by (auto simp: frame_ok_def split_def)
qed (auto simp: frame_ok_def)

lemma assertJsonScalar_iff:
  "open_frame v path = None \<Longrightarrow>
     (if b then assertJsonScalar nfc v p else Inr ()) = Inr u \<longleftrightarrow> admissible nfc b d v"
  by (cases v) (auto simp: assertUnicodeScalar_iff)

lemma walk_iff:
  "walk_visit nfc b v path st = Inr u \<longleftrightarrow> admissible nfc b (length st) v \<and> stack_ok nfc b st"
  "walk_next nfc b st = Inr u \<longleftrightarrow> stack_ok nfc b st"
proof (induction nfc b v path st and nfc b st rule: walk_visit_walk_next.induct)
  case (1 nfc b v path st)
  show ?case
  proof (cases "open_frame v path")
    case None
    then show ?thesis
      using 1 assertJsonScalar_iff [OF None, of b nfc path "()" "length st"]
      by (auto simp: bindr_eq_Inr_iff)
  next
    case (Some f)
    with 1 show ?thesis
      using open_frame_admissible [OF Some, of nfc b "length st"] by auto
  qed
next
  case (4 nfc b path array key entry es st)
  then show ?case
    by (auto simp: bindr_eq_Inr_iff frame_ok_def assertUnicodeScalar_iff split: if_splits)
qed (simp_all add: frame_ok_def)

fun json_depth :: "json \<Rightarrow> nat" where
  "json_depth (JArr xs) = Suc (foldr max (map json_depth xs) 0)"
| "json_depth (JObj es) = Suc (foldr max (map (\<lambda>(k, x). json_depth x) es) 0)"
| "json_depth _ = 0"

fun strings_ok :: "nfc \<Rightarrow> json \<Rightarrow> bool" where
  "strings_ok nfc (JStr s) = scalar_string nfc s"
| "strings_ok nfc (JArr xs) = (\<forall>x\<in>set xs. strings_ok nfc x)"
| "strings_ok nfc (JObj es) = (\<forall>(k, x)\<in>set es. scalar_string nfc k \<and> strings_ok nfc x)"
| "strings_ok nfc _ = True"

lemma foldr_max_le: "foldr max ns 0 \<le> (m :: nat) \<longleftrightarrow> (\<forall>n\<in>set ns. n \<le> m)"
  by (induction ns) auto

lemma admissible_iff:
  "d \<le> MAX_JSON_CONTAINER_DEPTH \<Longrightarrow>
     admissible nfc b d v \<longleftrightarrow> d + json_depth v \<le> MAX_JSON_CONTAINER_DEPTH \<and> (b \<longrightarrow> strings_ok nfc v)"
proof (induction v arbitrary: d)
  case (JArr xs)
  have "d + json_depth (JArr xs) \<le> MAX_JSON_CONTAINER_DEPTH \<longleftrightarrow>
      d < MAX_JSON_CONTAINER_DEPTH \<and> (\<forall>x\<in>set xs. Suc d + json_depth x \<le> MAX_JSON_CONTAINER_DEPTH)"
    using foldr_max_le [of "map json_depth xs" "MAX_JSON_CONTAINER_DEPTH - Suc d"] by fastforce
  then show ?case using JArr.IH [of _ "Suc d"] by auto
next
  case (JObj es)
  have "d + json_depth (JObj es) \<le> MAX_JSON_CONTAINER_DEPTH \<longleftrightarrow>
      d < MAX_JSON_CONTAINER_DEPTH \<and> (\<forall>(k, x)\<in>set es. Suc d + json_depth x \<le> MAX_JSON_CONTAINER_DEPTH)"
    using foldr_max_le [of "map (\<lambda>(k, x). json_depth x) es" "MAX_JSON_CONTAINER_DEPTH - Suc d"]
    by fastforce
  moreover have "admissible nfc b (Suc d) x \<longleftrightarrow>
      Suc d + json_depth x \<le> MAX_JSON_CONTAINER_DEPTH \<and> (b \<longrightarrow> strings_ok nfc x)"
    if "(k, x) \<in> set es" "d < MAX_JSON_CONTAINER_DEPTH" for k x
    using JObj.IH [OF that(1), of x "Suc d"] that(2) by simp
  ultimately show ?case by (auto 0 3)
qed simp_all

lemma walkJsonStructure_iff:
  "walkJsonStructure nfc v b = Inr u \<longleftrightarrow>
     json_depth v \<le> MAX_JSON_CONTAINER_DEPTH \<and> (b \<longrightarrow> strings_ok nfc v)"
  using admissible_iff [of 0 nfc b v] by (simp add: walkJsonStructure_def walk_iff del: walk_visit.simps)

section \<open>The normal form\<close>

fun js_json :: "json \<Rightarrow> bool" where
  "js_json (JNum n) = isSafeInteger n"
| "js_json (JArr xs) = (\<forall>x\<in>set xs. js_json x)"
| "js_json (JObj es) = (distinct (map fst es) \<and> (\<forall>(k, x)\<in>set es. js_json x))"
| "js_json _ = True"

lemma wf_json_iff: "wf_json nfc v \<longleftrightarrow> js_json v \<and> strings_ok nfc v"
  by (induction v) auto

fun index_free :: "json \<Rightarrow> bool" where
  "index_free (JArr xs) = (\<forall>x\<in>set xs. index_free x)"
| "index_free (JObj es) = (\<forall>(k, x)\<in>set es. \<not> integer_index k \<and> index_free x)"
| "index_free _ = True"

fun jsort :: "json \<Rightarrow> json" where
  "jsort (JArr xs) = JArr (map jsort xs)"
| "jsort (JObj es) = JObj (sort_key fst (map (\<lambda>(k, x). (k, jsort x)) es))"
| "jsort v = v"

lemma mapr_total: "(\<And>x. x \<in> set xs \<Longrightarrow> f x = Inr (g x)) \<Longrightarrow> mapr f xs = Inr (map g xs)"
  by (induction xs) simp_all

lemma mapr_signal:
  "(\<exists>x\<in>set xs. \<forall>y. f x \<noteq> Inr y) \<Longrightarrow> mapr f xs = (Inl GENERAL_ENCODING_REQUIRED :: encoding_signal + 'b list)"
proof -
  assume "\<exists>x\<in>set xs. \<forall>y. f x \<noteq> Inr y"
  then have "\<forall>ys. mapr f xs \<noteq> Inr ys" by (induction xs) (auto simp: bindr_eq_Inr_iff)
  then show ?thesis by (metis encoding_signal.exhaust sum.exhaust)
qed

lemma insort_key_map: "(\<And>x. fst (h x) = fst x) \<Longrightarrow> map h (insort_key fst x xs) = insort_key fst (h x) (map h xs)"
  by (induction xs) auto

lemma sort_key_map: "(\<And>x. fst (h x) = fst x) \<Longrightarrow> map h (sort_key fst xs) = sort_key fst (map h xs)"
  by (induction xs) (simp_all add: insort_key_map)

lemma sortedJsonCopy_eq:
  "sortedJsonCopy v = (if index_free v then Inr (jsort v) else Inl GENERAL_ENCODING_REQUIRED)"
proof (induction v)
  case (JArr xs)
  show ?case
  proof (cases "index_free (JArr xs)")
    case True
    with JArr have "mapr sortedJsonCopy xs = Inr (map jsort xs)" by (intro mapr_total) simp
    with True show ?thesis by simp
  next
    case False
    with JArr have "mapr sortedJsonCopy xs = Inl GENERAL_ENCODING_REQUIRED" by (intro mapr_signal) auto
    with False show ?thesis by auto
  qed
next
  case (JObj es)
  let ?f = "\<lambda>(key, v). if integer_index key then Inl GENERAL_ENCODING_REQUIRED
      else bindr (sortedJsonCopy v) (\<lambda>w. Inr (key, w))"
  have IH: "sortedJsonCopy x = (if index_free x then Inr (jsort x) else Inl GENERAL_ENCODING_REQUIRED)"
    if "(k, x) \<in> set es" for k x
    using JObj [OF that, of x] by simp
  show ?case
  proof (cases "index_free (JObj es)")
    case True
    have "mapr ?f (sort_key fst es) = Inr (map (\<lambda>(k, x). (k, jsort x)) (sort_key fst es))"
      by (rule mapr_total) (use True IH in auto)
    with True show ?thesis by (simp add: sort_key_map split_def)
  next
    case False
    then obtain k x where kx: "(k, x) \<in> set es" "integer_index k \<or> \<not> index_free x" by auto
    have "mapr ?f (sort_key fst es) = Inl GENERAL_ENCODING_REQUIRED"
      by (rule mapr_signal) (use kx IH [OF kx(1)] in \<open>auto intro!: bexI [of _ "(k, x)"] split: if_splits\<close>)
    with False show ?thesis by auto
  qed
qed simp_all

lemma set_sort_map: "set (sort_key fst (map (\<lambda>(k, x). (k, g x)) es)) = (\<lambda>(k, x). (k, g x)) ` set es"
  by simp

lemma map_fst_pairs [simp]: "map fst (map (\<lambda>(k, x). (k, g x)) es) = map fst es"
  by (simp add: split_def comp_def)

lemma distinct_sort_key: "distinct (map fst (sort_key fst es)) \<longleftrightarrow> distinct (map fst es)"
  by (metis mset_eq_imp_distinct_iff mset_map mset_sort)

lemma js_json_jsort: "js_json v \<Longrightarrow> js_json (jsort v)"
proof (induction v)
  case (JObj es)
  have "distinct (map fst (sort_key fst (map (\<lambda>(k, x). (k, jsort x)) es)))"
    using JObj.prems unfolding distinct_sort_key by (simp only: map_fst_pairs js_json.simps)
  moreover have "\<forall>(k, x)\<in>set es. js_json (jsort x)" using JObj by fastforce
  ultimately show ?case by auto
qed simp_all

lemma strings_ok_jsort: "strings_ok nfc v \<Longrightarrow> strings_ok nfc (jsort v)"
proof (induction v)
  case (JObj es)
  then show ?case by fastforce
qed simp_all

lemma index_free_jsort: "index_free v \<Longrightarrow> index_free (jsort v)"
proof (induction v)
  case (JObj es)
  then show ?case by fastforce
qed simp_all

lemma jsort_jsort: "jsort (jsort v) = jsort v"
proof (induction v)
  case (JObj es)
  let ?J = "\<lambda>(k :: jstring, x). (k, jsort x)"
  have i: "map ?J (map ?J es) = map ?J es"
    using JObj by fastforce
  have m: "map ?J (sort_key fst fs) = sort_key fst (map ?J fs)" for fs
    by (rule sort_key_map) (simp add: split_def)
  have s: "sort_key fst (sort_key fst fs) = sort_key fst fs" for fs :: "(jstring \<times> json) list"
    by (rule sort_key_id_if_sorted) (rule sorted_sort_key)
  show ?case unfolding jsort.simps m i s ..
qed simp_all

lemma foldr_max_set: "set xs = set ys \<Longrightarrow> foldr max xs 0 = foldr max ys (0 :: nat)"
  using foldr_max_le by (intro antisym) auto

lemma json_depth_jsort: "json_depth (jsort v) = json_depth v"
proof (induction v)
  case (JArr xs)
  then have "map json_depth (map jsort xs) = map json_depth xs" by simp
  then show ?case by (simp del: map_map)
next
  case (JObj es)
  then have "set (map (\<lambda>(k, x). json_depth x) (sort_key fst (map (\<lambda>(k, x). (k, jsort x)) es))) =
      set (map (\<lambda>(k, x). json_depth x) es)"
    by (force simp: image_iff)
  from foldr_max_set [OF this] show ?case by simp
qed simp_all

section \<open>The text of a canonical value passes the text checks\<close>

lemma scan_structure_plain:
  "list_all plain_unit p \<Longrightarrow>
     scan_structure i d True False (p @ t) = scan_structure (i + length p) d True False t"
  by (induction p arbitrary: i) (simp_all add: plain_unit_def)

lemma scan_structure_unit:
  "scan_structure i d True False (escape_unit u @ t) = scan_structure (i + length (escape_unit u)) d True False t"
proof -
  have "plain_unit u" if "\<not> u < 0x20" "u \<noteq> QUOTE" "u \<noteq> BACKSLASH"
    using that by (auto simp: plain_unit_def word_le_nat_alt word_less_nat_alt)
  then show ?thesis
    using scan_structure_plain [of "[u]" i d t] scan_structure_plain [OF hex4_plain, of "i + 2" d u t]
    by (auto simp: escape_unit_def)
qed

declare scan_structure.simps(2) [simp del]

lemma scan_structure_escape:
  "scan_structure i d True False (escape_string s @ t) =
     scan_structure (i + length (escape_string s)) d True False t"
proof (induction s arbitrary: i rule: escape_string.induct)
  case (2 u)
  show ?case by (simp add: scan_structure_unit)
next
  case (3 u v s)
  show ?case
  proof (cases "is_high u \<and> is_low v")
    case True
    then have "list_all plain_unit [u, v]" using surrogate_plain by simp
    from scan_structure_plain [OF this, of i d "escape_string s @ t"] True 3 show ?thesis by simp
  next
    case False
    with 3 show ?thesis by (auto simp: scan_structure_unit add.assoc)
  qed
qed simp

lemma scan_structure_quote:
  "scan_structure i d False False (quote_string s @ t) =
     scan_structure (i + length (quote_string s)) d False False t"
  by (simp add: quote_string_def scan_structure_escape scan_structure.simps(2))

text \<open>Units outside strings that are neither quotes nor brackets.\<close>

definition flat_unit :: "16 word \<Rightarrow> bool" where
  "flat_unit c \<longleftrightarrow> c \<noteq> 0x22 \<and> c \<noteq> 0x5B \<and> c \<noteq> 0x7B \<and> c \<noteq> 0x5D \<and> c \<noteq> 0x7D"

lemma scan_structure_flat:
  "list_all flat_unit p \<Longrightarrow>
     scan_structure i d False False (p @ t) = scan_structure (i + length p) d False False t"
  by (induction p arbitrary: i) (simp_all add: flat_unit_def scan_structure.simps(2))

lemma dec_int_flat: "list_all flat_unit (dec_int n)"
proof -
  have "flat_unit c" if "is_digit c" for c using that by (auto simp: flat_unit_def digit_bounds)
  then have "list_all flat_unit (dec_nat k)" for k
    using dec_nat_digits [of k] by (auto simp: list_all_iff)
  then show ?thesis by (simp add: dec_int_def flat_unit_def)
qed

definition scans :: "int \<Rightarrow> jstring \<Rightarrow> bool" where
  "scans d s \<longleftrightarrow> (\<forall>i t. scan_structure i d False False (s @ t) =
      scan_structure (i + length s) d False False t)"

lemma scans_append: "scans d s \<Longrightarrow> scans d s' \<Longrightarrow> scans d (s @ s')"
  by (simp add: scans_def add.assoc)

lemma scans_flat: "list_all flat_unit p \<Longrightarrow> scans d p"
  unfolding scans_def by (simp add: scan_structure_flat)

lemma scans_quote: "scans d (quote_string s)"
  unfolding scans_def by (simp add: scan_structure_quote)

lemma scans_join: "(\<And>s. s \<in> set ss \<Longrightarrow> scans d s) \<Longrightarrow> scans d (join (lit '','') ss)"
proof (induction "lit '',''" ss rule: join.induct)
  case 1
  show ?case by (simp add: scans_def)
next
  case (3 x y xs)
  have "scans d (lit '','')" by (simp add: scans_flat flat_unit_def)
  with 3 have "scans d (x @ lit '','' @ join (lit '','') (y # xs))" by (intro scans_append) auto
  then show ?case by simp
qed simp

lemma scans_bracket:
  assumes "scans (d + 1) s" and "d < int MAX_JSON_CONTAINER_DEPTH"
    and "(a = 0x5B \<and> b = 0x5D) \<or> (a = 0x7B \<and> b = 0x7D)"
  shows "scans d (a # s @ [b])"
proof -
  have "scan_structure (Suc i) (d + 1) False False (s @ b # t) =
      scan_structure (Suc i + length s) (d + 1) False False (b # t)" for i t
    using assms(1) unfolding scans_def by blast
  then show ?thesis
    unfolding scans_def using assms(2,3) by (auto simp: scan_structure.simps(2))
qed

lemma scans_stringify:
  "d + int (json_depth v) \<le> int MAX_JSON_CONTAINER_DEPTH \<Longrightarrow> scans d (stringify v)"
proof (induction v arbitrary: d)
  case (JArr xs)
  have "scans (d + 1) (stringify x)" if "x \<in> set xs" for x
  proof (rule JArr.IH [OF that])
    have "json_depth x \<le> foldr max (map json_depth xs) 0"
      using foldr_max_le [of "map json_depth xs"] that by auto
    with JArr.prems show "d + 1 + int (json_depth x) \<le> int MAX_JSON_CONTAINER_DEPTH" by simp
  qed
  then have "scans (d + 1) (join (lit '','') (map stringify xs))" by (intro scans_join) auto
  from scans_bracket [OF this] JArr.prems show ?case by simp
next
  case (JObj es)
  have "scans (d + 1) (quote_string k @ lit '':'' @ stringify x)" if "(k, x) \<in> set es" for k x
  proof -
    have "json_depth x \<le> foldr max (map (\<lambda>(k, x). json_depth x) es) 0"
      using foldr_max_le [of "map (\<lambda>(k, x). json_depth x) es"] that by force
    with JObj.prems have "d + 1 + int (json_depth x) \<le> int MAX_JSON_CONTAINER_DEPTH" by simp
    from JObj.IH [OF that, of x, OF _ this] have "scans (d + 1) (stringify x)" by simp
    moreover have "scans (d + 1) (lit '':'')" by (simp add: scans_flat flat_unit_def)
    ultimately show ?thesis by (intro scans_append scans_quote)
  qed
  then have "scans (d + 1) (join (lit '','') (map (\<lambda>(k, v). quote_string k @ lit '':'' @ stringify v) es))"
    by (intro scans_join) auto
  from scans_bracket [OF this] JObj.prems show ?case by simp
qed (simp_all add: scans_flat scans_quote dec_int_flat, simp_all add: scans_flat flat_unit_def)

lemma text_structure_stringify:
  "json_depth v \<le> MAX_JSON_CONTAINER_DEPTH \<Longrightarrow> assertJsonTextStructure (stringify v) = Inr ()"
  using scans_stringify [of 0 v] unfolding scans_def assertJsonTextStructure_def
  by (metis add_0 append.right_neutral of_nat_le_iff scan_structure.simps(1))

lemma stringify_no_bom: "\<not> starts_with [0xFEFF] (stringify v)"
proof (cases v)
  case (JNum n)
  obtain d ds where d: "dec_nat (nat \<bar>n\<bar>) = d # ds" by (cases "dec_nat (nat \<bar>n\<bar>)") simp_all
  with dec_nat_digits [of "nat \<bar>n\<bar>"] have "is_digit d" by simp
  then have "d \<noteq> 0xFEFF" by (auto simp: digit_bounds)
  with d JNum show ?thesis by (cases "n < 0") (auto simp: dec_int_def starts_with_def)
qed (auto simp: starts_with_def quote_string_def)

section \<open>Canonical texts read back\<close>

lemma canonicalJson_iff:
  assumes "index_free v"
  shows "canonicalJson pl v = Inr s \<longleftrightarrow>
     json_depth v \<le> MAX_JSON_CONTAINER_DEPTH \<and> strings_ok (normalizeNFC pl) v \<and> s = stringify (jsort v)"
  using assms
  by (auto simp: canonicalJson_def bindr_eq_Inr_iff assertJsonValue_def walkJsonStructure_iff sortedJsonCopy_eq)

text \<open>What the program relies on from the package \<^verbatim>\<open>canonicalize\<close>, which it calls for objects with a name
  that is an array index: the serialization of RFC 8785.\<close>

definition rfc8785_encoder :: "platform \<Rightarrow> bool" where
  "rfc8785_encoder pl \<longleftrightarrow> (\<forall>v. js_json v \<longrightarrow> canonicalize pl v = stringify (jsort v))"

lemma canonicalJson_general:
  assumes "js_json v" and "index_free v \<or> rfc8785_encoder pl"
  shows "canonicalJson pl v = Inr s \<longleftrightarrow>
     json_depth v \<le> MAX_JSON_CONTAINER_DEPTH \<and> strings_ok (normalizeNFC pl) v \<and> s = stringify (jsort v)"
  using assms
  by (auto simp: canonicalJson_def bindr_eq_Inr_iff assertJsonValue_def walkJsonStructure_iff sortedJsonCopy_eq rfc8785_encoder_def)

lemma canonicalJson_rfc8785:
  assumes "rfc8785_encoder pl" and "js_json v"
  shows "canonicalJson pl v = Inr s \<longleftrightarrow>
     json_depth v \<le> MAX_JSON_CONTAINER_DEPTH \<and> strings_ok (normalizeNFC pl) v \<and> s = stringify (jsort v)"
  using assms by (intro canonicalJson_general) simp_all

lemma canonicalJson_parse:
  assumes "js_json v" and "index_free v" and "canonicalJson pl v = Inr s"
  shows "StrictJsonParser_parse (normalizeNFC pl) s = Inr (jsort v)"
  using assms by (auto simp: canonicalJson_iff wf_json_iff js_json_jsort strings_ok_jsort intro!: parse_stringify)

lemma canonicalJson_jsort:
  "index_free v \<Longrightarrow> canonicalJson pl v = Inr s \<Longrightarrow> canonicalJson pl (jsort v) = Inr s"
  by (simp add: canonicalJson_iff index_free_jsort json_depth_jsort strings_ok_jsort jsort_jsort)

lemma canonical_text_stable:
  assumes "js_json v" and "index_free v \<or> rfc8785_encoder pl" and "canonicalJson pl v = Inr s"
  shows "StrictJsonParser_parse (normalizeNFC pl) s = Inr (jsort v)" and "canonicalJsonFromText pl (Text s) = Inr s"
proof -
  from assms have s: "s = stringify (jsort v)" and d: "json_depth (jsort v) \<le> MAX_JSON_CONTAINER_DEPTH" "strings_ok (normalizeNFC pl) (jsort v)"
    by (simp_all add: canonicalJson_general json_depth_jsort strings_ok_jsort)
  show parse: "StrictJsonParser_parse (normalizeNFC pl) s = Inr (jsort v)"
    unfolding s by (intro parse_stringify) (simp add: wf_json_iff js_json_jsort assms(1) d)
  have "index_free (jsort v) \<or> rfc8785_encoder pl" using assms(2) by (auto simp: index_free_jsort)
  then have "canonicalJson pl (jsort v) = Inr s" using assms(1) d by (simp add: canonicalJson_general js_json_jsort s jsort_jsort)
  with parse show "canonicalJsonFromText pl (Text s) = Inr s"
    using stringify_no_bom text_structure_stringify [OF d(1)] by (simp add: canonicalJsonFromText_def s)
qed

lemma canonicalJson_fixpoint:
  "js_json v \<Longrightarrow> index_free v \<Longrightarrow> canonicalJson pl v = Inr s \<Longrightarrow> canonicalJsonFromText pl (Text s) = Inr s"
  using canonical_text_stable(2) by blast

section \<open>Abstract values\<close>

text \<open>The value a JSON tree denotes: an object is the finite map of its names.\<close>

datatype jval =
    VNull
  | VBool bool
  | VNum int
  | VStr jstring
  | VArr "jval list"
  | VObj "jstring \<Rightarrow> jval option"

fun jval_of :: "json \<Rightarrow> jval" where
  "jval_of JNull = VNull"
| "jval_of (JBool b) = VBool b"
| "jval_of (JNum n) = VNum n"
| "jval_of (JStr s) = VStr s"
| "jval_of (JArr xs) = VArr (map jval_of xs)"
| "jval_of (JObj es) = VObj (map_of (map (\<lambda>(k, x). (k, jval_of x)) es))"

lemma map_of_sort_key: "distinct (map fst es) \<Longrightarrow> map_of (sort_key fst es) = map_of es"
  by (rule map_of_inject_set [THEN iffD2]) (simp_all add: distinct_sort_key)

lemma jval_of_jsort: "js_json v \<Longrightarrow> jval_of (jsort v) = jval_of v"
proof (induction v)
  case (JObj es)
  let ?J = "\<lambda>(k :: jstring, x). (k, jsort x)" and ?A = "\<lambda>(k :: jstring, x). (k, jval_of x)"
  have m: "map ?A (sort_key fst fs) = sort_key fst (map ?A fs)" for fs
    by (rule sort_key_map) (simp add: split_def)
  have "map ?A (map ?J es) = map ?A es"
    using JObj by (auto simp: split_def)
  then have "map_of (map ?A (sort_key fst (map ?J es))) = map_of (sort_key fst (map ?A es))"
    by (simp only: m)
  also have "\<dots> = map_of (map ?A es)"
    using JObj.prems by (intro map_of_sort_key) (simp add: split_def comp_def)
  finally show ?case by simp
qed simp_all

lemma sort_key_set_eq:
  assumes "distinct (map fst xs)" and "distinct (map fst ys)" and "set xs = set ys"
  shows "sort_key fst xs = sort_key fst (ys :: ('k :: linorder \<times> 'v) list)"
proof (rule sort_key_inj_key_eq)
  show "mset xs = mset (sort_key fst ys)"
    using assms by (metis distinct_map mset_sort set_eq_iff_mset_eq_distinct)
  show "inj_on fst (set xs)" using assms(1) by (simp add: distinct_map)
  show "sorted (map fst (sort_key fst ys))" by (rule sorted_sort_key)
qed

lemma jsort_of_jval:
  "js_json v \<Longrightarrow> js_json w \<Longrightarrow> jval_of v = jval_of w \<Longrightarrow> jsort v = jsort w"
proof (induction v arbitrary: w)
  case (JArr xs)
  then obtain ys where w: "w = JArr ys" and m: "map jval_of xs = map jval_of ys" by (cases w) auto
  from m have "length xs = length ys" by (metis length_map)
  moreover have "jsort (xs ! i) = jsort (ys ! i)" if "i < length xs" for i
  proof (rule JArr.IH)
    show "jval_of (xs ! i) = jval_of (ys ! i)" using m that calculation by (metis nth_map)
  qed (use JArr.prems that calculation w in auto)
  ultimately show ?case by (simp add: w list_eq_iff_nth_eq)
next
  case (JObj es)
  let ?J = "\<lambda>(k :: jstring, x). (k, jsort x)" and ?A = "\<lambda>(k :: jstring, x). (k, jval_of x)"
  from JObj.prems obtain fs where w: "w = JObj fs" and m: "map_of (map ?A es) = map_of (map ?A fs)"
    by (cases w) auto
  have d: "distinct (map fst es)" "distinct (map fst fs)" using JObj.prems w by auto
  have A: "(k, a) \<in> set (map ?A es) \<longleftrightarrow> (k, a) \<in> set (map ?A fs)" for k a
    using d m by (metis map_fst_pairs map_of_eq_Some_iff)
  have IH: "jsort x = jsort y" if "(k, x) \<in> set es" "(k, y) \<in> set fs" "jval_of x = jval_of y" for k x y
    using JObj.IH [OF that(1), of x y] JObj.prems that w by auto
  have "set (map ?J es) = set (map ?J fs)"
  proof (intro set_eqI iffI)
    fix e assume "e \<in> set (map ?J es)"
    then obtain k x where e: "e = (k, jsort x)" "(k, x) \<in> set es" by auto
    then obtain y where "(k, y) \<in> set fs" "jval_of x = jval_of y" using A [of k "jval_of x"] by auto
    with e IH show "e \<in> set (map ?J fs)" by force
  next
    fix e assume "e \<in> set (map ?J fs)"
    then obtain k y where e: "e = (k, jsort y)" "(k, y) \<in> set fs" by auto
    then obtain x where x: "(k, x) \<in> set es" "jval_of x = jval_of y" using A [of k "jval_of y"] by auto
    with e IH have "e = (k, jsort x)" by simp
    with x(1) show "e \<in> set (map ?J es)" by force
  qed
  with d show ?case unfolding w jsort.simps by (intro arg_cong [of _ _ JObj] sort_key_set_eq) (simp_all only: map_fst_pairs)
next
  case JNull
  then show ?case by (cases w) simp_all
next
  case (JBool b)
  then show ?case by (cases w) simp_all
next
  case (JNum n)
  then show ?case by (cases w) simp_all
next
  case (JStr s)
  then show ?case by (cases w) simp_all
qed

lemma jsort_eq_iff: "js_json v \<Longrightarrow> js_json w \<Longrightarrow> jsort v = jsort w \<longleftrightarrow> jval_of v = jval_of w"
  by (metis jsort_of_jval jval_of_jsort)

lemma canonicalJson_eq_iff:
  assumes "js_json v" and "js_json w" and "index_free v" and "index_free w"
    and "canonicalJson pl v = Inr s" and "canonicalJson pl w = Inr t"
  shows "s = t \<longleftrightarrow> jval_of v = jval_of w"
proof
  assume "s = t"
  with canonicalJson_parse [OF assms(1,3,5)] canonicalJson_parse [OF assms(2,4,6)]
  have "jsort v = jsort w" by simp
  then show "jval_of v = jval_of w" using assms(1,2) by (simp add: jsort_eq_iff)
next
  assume "jval_of v = jval_of w"
  then have "jsort v = jsort w" using assms(1,2) by (simp add: jsort_eq_iff)
  then show "s = t" using assms(3-6) by (simp add: canonicalJson_iff)
qed

section \<open>Hexadecimal digests\<close>

lemma hex_digit_val_lower:
  assumes "is_lower_hex c"
  obtains d where "hex_digit_val c = Some d" and "d < 16" and "hex_digit d = c"
proof -
  have "unat c \<in> {0x30..0x39} \<union> {0x61..0x66}"
    using assms by (auto simp: is_lower_hex_def is_digit_def word_le_nat_alt)
  then have "hex_digit_val c = Some (if unat c \<le> 0x39 then unat c - 0x30 else unat c - 0x57)"
    by (auto simp: hex_digit_val_def word_le_nat_alt)
  moreover have "hex_digit (if unat c \<le> 0x39 then unat c - 0x30 else unat c - 0x57) = c"
    using \<open>unat c \<in> _\<close> by (auto simp: hex_digit_def simp del: of_nat_add of_nat_diff)
  ultimately show thesis
    using that \<open>unat c \<in> _\<close> by (auto split: if_splits)
qed

lemma hex_byte_of_digits: "p < 16 \<Longrightarrow> q < 16 \<Longrightarrow> hex_byte (of_nat (p * 16 + q)) = [hex_digit p, hex_digit q]"
  by (simp add: hex_byte_def unat_byte del: of_nat_add of_nat_mult)

lemma hex_of_bytes_of_hex:
  "list_all is_lower_hex s \<Longrightarrow> even (length s) \<Longrightarrow> hex_of_bytes (bytes_of_hex s) = s"
proof (induction s rule: bytes_of_hex.induct)
  case (1 a b s)
  from 1 obtain p where p: "hex_digit_val a = Some p" "p < 16" "hex_digit p = a"
    by (auto elim: hex_digit_val_lower)
  from 1 obtain q where q: "hex_digit_val b = Some q" "q < 16" "hex_digit q = b"
    by (auto elim: hex_digit_val_lower)
  from 1 p q show ?case by (simp add: hex_byte_of_digits del: of_nat_add of_nat_mult)
qed simp_all

lemma hex_byte_inj: "hex_byte a = hex_byte b \<Longrightarrow> a = b"
proof -
  assume "hex_byte a = hex_byte b"
  then have "hex_val (hex_of_bytes [a]) = hex_val (hex_of_bytes [b])" by simp
  then show ?thesis by (simp only: hex_val_bytes) (simp add: be_val_def, metis word_of_int_uint)
qed

lemma hex_of_bytes_inj: "hex_of_bytes xs = hex_of_bytes ys \<Longrightarrow> xs = ys"
proof (induction xs arbitrary: ys)
  case Nil
  then show ?case by (cases ys) (simp_all add: hex_byte_def)
next
  case (Cons x xs)
  then show ?case
    by (cases ys) (auto simp: hex_byte_def intro!: hex_byte_inj)
qed

lemma safeHashEqual_iff:
  "safeHashEqual a b \<longleftrightarrow> Sha256HexSchema a \<and> Sha256HexSchema b \<and> a = b"
proof -
  have "hex_of_bytes (bytes_of_hex h) = h" if "Sha256HexSchema h" for h
    using that by (intro hex_of_bytes_of_hex) (simp_all add: Sha256HexSchema_iff)
  then show ?thesis by (auto simp: safeHashEqual_def) metis
qed

lemma sha256Hex_schema: "Sha256HexSchema (sha256Hex v)"
  by (simp add: Sha256HexSchema_iff sha256Hex_def sha256Bytes_def hex_of_bytes_hex)

section \<open>Canonical texts are well-formed\<close>

lemma isWellFormed_append: "isWellFormed s \<Longrightarrow> isWellFormed t \<Longrightarrow> isWellFormed (s @ t)"
proof (induction s rule: isWellFormed.induct)
  case (2 u)
  then show ?case by (cases t) auto
next
  case (3 u v s)
  then show ?case by (auto split: if_splits)
qed simp

lemma isWellFormed_plain: "\<forall>u\<in>set s. \<not> is_high u \<and> \<not> is_low u \<Longrightarrow> isWellFormed s"
  by (induction s rule: isWellFormed.induct) auto

lemma ascii_not_surrogate: "unat u < 0x80 \<Longrightarrow> \<not> is_high u \<and> \<not> is_low u"
  by (simp add: is_high_def is_low_def)

lemma hex4_wf: "isWellFormed (hex4 u)"
proof (rule isWellFormed_plain, rule ballI)
  fix c assume "c \<in> set (hex4 u)"
  then obtain d where "c = hex4_digit d" "d < 16"
    using unat_unit [of u] by (auto simp: hex4_def)
  then show "\<not> is_high c \<and> \<not> is_low c" by (intro ascii_not_surrogate) (simp add: unat_hex4_digit)
qed

lemma ascii_wf: "list_all (\<lambda>u. unat u < 0x80) s \<Longrightarrow> isWellFormed s"
  by (intro isWellFormed_plain) (auto simp: list_all_iff dest: ascii_not_surrogate)

lemma escape_unit_wf: "isWellFormed (escape_unit u)"
proof -
  have "isWellFormed (BACKSLASH # lit ''u'' @ hex4 u)"
    using isWellFormed_append [OF ascii_wf hex4_wf, of "BACKSLASH # lit ''u''" u] by simp
  then show ?thesis
    by (auto simp: escape_unit_def is_high_def is_low_def)
qed

lemma escape_string_wf: "isWellFormed (escape_string s)"
proof (induction s rule: escape_string.induct)
  case (3 u v s)
  then show ?case by (auto simp: escape_unit_wf isWellFormed_append)
qed (simp_all add: escape_unit_wf)

lemma quote_string_wf: "isWellFormed (quote_string s)"
proof -
  have "isWellFormed ([QUOTE] @ escape_string s @ [QUOTE])"
    by (intro isWellFormed_append escape_string_wf) (simp_all add: is_high_def is_low_def)
  then show ?thesis by (simp add: quote_string_def)
qed

lemma join_wf: "isWellFormed sep \<Longrightarrow> (\<And>s. s \<in> set ss \<Longrightarrow> isWellFormed s) \<Longrightarrow> isWellFormed (join sep ss)"
  by (induction sep ss rule: join.induct) (auto intro!: isWellFormed_append)

lemma dec_int_wf: "isWellFormed (dec_int n)"
proof -
  have "isWellFormed (dec_nat k)" for k
    using dec_nat_digits [of k] by (intro ascii_wf) (auto simp: list_all_iff digit_bounds)
  then show ?thesis
    using isWellFormed_append [of "lit ''-''" "dec_nat (nat (- n))"]
    by (auto simp: dec_int_def is_high_def is_low_def)
qed

lemma stringify_wf: "isWellFormed (stringify v)"
proof (induction v)
  case (JArr xs)
  have "isWellFormed (lit ''['' @ join (lit '','') (map stringify xs) @ lit '']'')"
    using JArr by (intro isWellFormed_append join_wf) (auto simp: is_high_def is_low_def)
  then show ?case by (simp only: stringify.simps)
next
  case (JObj es)
  have e: "isWellFormed (quote_string k @ lit '':'' @ stringify x)" if "(k, x) \<in> set es" for k x
    using JObj [OF that, of x] by (intro isWellFormed_append quote_string_wf) (auto simp: is_high_def is_low_def)
  have "isWellFormed (lit ''{'' @ join (lit '','')
      (map (\<lambda>(k, v). quote_string k @ lit '':'' @ stringify v) es) @ lit ''}'')"
    using e by (intro isWellFormed_append join_wf) (auto simp: is_high_def is_low_def)
  then show ?case by (simp only: stringify.simps)
qed (simp_all add: dec_int_wf quote_string_wf, simp_all add: is_high_def is_low_def)

section \<open>Digests bind values\<close>

lemma sha256Hex_eq:
  "sha256Hex (Text s) = sha256Hex (Text t) \<longleftrightarrow> utf8_encode s = utf8_encode t \<or>
     sha256_collision (utf8_encode s) (utf8_encode t)"
  by (auto simp: sha256Hex_def sha256Bytes_def sha256_collision_def dest: hex_of_bytes_inj)

text \<open>The bytes that are hashed.\<close>

definition canonical_bytes :: "json \<Rightarrow> byte list" where
  "canonical_bytes v = utf8_encode (stringify (jsort v))"

lemma canonicalSha256_iff:
  assumes "index_free v"
  shows "canonicalSha256 pl v = Inr h \<longleftrightarrow>
     json_depth v \<le> MAX_JSON_CONTAINER_DEPTH \<and> strings_ok (normalizeNFC pl) v \<and>
     h = hex_of_bytes (sha256 (canonical_bytes v))"
  using assms
  by (auto simp: canonicalSha256_def bindr_eq_Inr_iff canonicalJson_iff sha256Hex_def sha256Bytes_def
      canonical_bytes_def)

lemma canonical_bytes_eq:
  assumes "wf_json nfc v" and "wf_json nfc w"
  shows "canonical_bytes v = canonical_bytes w \<longleftrightarrow> jval_of v = jval_of w"
proof -
  have "canonical_bytes v = canonical_bytes w \<longleftrightarrow> stringify (jsort v) = stringify (jsort w)"
    unfolding canonical_bytes_def by (metis stringify_wf utf8_encode_inj)
  also have "\<dots> \<longleftrightarrow> jsort v = jsort w"
  proof
    have p: "StrictJsonParser_parse nfc (stringify (jsort u)) = Inr (jsort u)" if "wf_json nfc u" for u
      using that by (intro parse_stringify) (simp add: wf_json_iff js_json_jsort strings_ok_jsort)
    assume "stringify (jsort v) = stringify (jsort w)"
    with p [OF assms(1)] p [OF assms(2)] have "(Inr (jsort v) :: json result) = Inr (jsort w)"
      by (simp only:)
    then show "jsort v = jsort w" by (simp only: sum.inject)
  qed (simp only:)
  finally show ?thesis using assms by (simp add: wf_json_iff jsort_eq_iff)
qed

lemma canonicalSha256_binding:
  assumes "js_json v" and "js_json w" and "index_free v" and "index_free w"
    and "canonicalSha256 pl v = Inr h" and "canonicalSha256 pl w = Inr h"
  shows "jval_of v = jval_of w \<or> sha256_collision (canonical_bytes v) (canonical_bytes w)"
proof -
  have "wf_json (normalizeNFC pl) v" "wf_json (normalizeNFC pl) w"
    using assms by (simp_all add: canonicalSha256_iff wf_json_iff)
  note eq = canonical_bytes_eq [OF this]
  have "hex_of_bytes (sha256 (canonical_bytes v)) = hex_of_bytes (sha256 (canonical_bytes w))"
    using assms(5,6) by (simp add: canonicalSha256_iff [OF assms(3)] canonicalSha256_iff [OF assms(4)])
  from hex_of_bytes_inj [OF this] eq show ?thesis unfolding sha256_collision_def by blast
qed

lemma canonical_bytes_stable:
  assumes "js_json v" and "index_free v \<or> rfc8785_encoder pl" and "canonicalJson pl v = Inr s"
  shows "canonicalJsonFromText pl (Bytes (utf8_encode s)) = Inr s"
proof -
  have "isWellFormed s" using assms by (simp add: canonicalJson_general stringify_wf)
  then have "decodeUtf8 (Bytes (utf8_encode s)) = decodeUtf8 (Text s)" by (simp add: utf8_decode_encode)
  with canonical_text_stable(2) [OF assms] show ?thesis by (simp only: canonicalJsonFromText_def)
qed

lemma canonicalSha256_binding_general:
  assumes "js_json v" and "js_json w" and "index_free v \<and> index_free w \<or> rfc8785_encoder pl"
    and "canonicalSha256 pl v = Inr h" and "canonicalSha256 pl w = Inr h"
  shows "jval_of v = jval_of w \<or> sha256_collision (canonical_bytes v) (canonical_bytes w)"
proof -
  have g: "index_free v \<or> rfc8785_encoder pl" "index_free w \<or> rfc8785_encoder pl" using assms(3) by auto
  have x: "canonicalSha256 pl x = Inr h \<longleftrightarrow> json_depth x \<le> MAX_JSON_CONTAINER_DEPTH \<and> strings_ok (normalizeNFC pl) x \<and>
      h = hex_of_bytes (sha256 (canonical_bytes x))" if "js_json x" "index_free x \<or> rfc8785_encoder pl" for x
    using canonicalJson_general [OF that]
    by (auto simp: canonicalSha256_def bindr_eq_Inr_iff sha256Hex_def sha256Bytes_def canonical_bytes_def)
  note d = assms(4) [unfolded x [OF assms(1) g(1)]] assms(5) [unfolded x [OF assms(2) g(2)]]
  have "wf_json (normalizeNFC pl) v" "wf_json (normalizeNFC pl) w" using assms(1,2) d by (simp_all add: wf_json_iff)
  note eq = canonical_bytes_eq [OF this]
  have "hex_of_bytes (sha256 (canonical_bytes v)) = hex_of_bytes (sha256 (canonical_bytes w))"
    using d by blast
  from hex_of_bytes_inj [OF this] eq show ?thesis unfolding sha256_collision_def by blast
qed

section \<open>Properties\<close>

text \<open>Property C24: the strict parser terminates on every source within the fuel of the model, and
  every value it returns is valid: names distinct in each object, strings and names
  well-formed and in normal form, numbers safe.\<close>

theorem strict_parser_total:
  "StrictJsonParser_parse nfc source \<noteq> Inl OutOfFuel \<and>
   (\<forall>v. StrictJsonParser_parse nfc source = Inr v \<longrightarrow> wf_json nfc v)"
  using parse_terminates parsed_wf by blast

theorem strict_parser_total_witness:
  "StrictJsonParser_parse id (lit ''[1, [-20]]'') = Inr (JArr [JNum 1, JArr [JNum (-20)]]) \<and>
   wf_json id (JArr [JNum 1, JArr [JNum (-20)]])"
proof -
  have "StrictJsonParser_parse id (lit ''[1, [-20]]'') = Inr (JArr [JNum 1, JArr [JNum (-20)]])"
    by code_simp
  with strict_parser_total [of id "lit ''[1, [-20]]''"] show ?thesis by blast
qed

text \<open>The walk with its explicit stack accepts a value exactly when its containers
  are nested at most 512 deep and, when values are validated, every string and name is
  admissible.\<close>

theorem walkJsonStructure_accepts:
  "walkJsonStructure nfc v validate = Inr () \<longleftrightarrow>
     json_depth v \<le> 512 \<and> (validate \<longrightarrow> strings_ok nfc v)"
  by (simp add: walkJsonStructure_iff MAX_JSON_CONTAINER_DEPTH_def)

theorem walkJsonStructure_accepts_witness:
  "walkJsonStructure id (JArr [JStr (lit ''a'')]) True = Inr () \<and> strings_ok id (JArr [JStr (lit ''a'')])"
  using walkJsonStructure_accepts [of id "JArr [JStr (lit ''a'')]" True]
  by (simp add: scalar_string_def is_ascii_def word_less_nat_alt)

text \<open>Property C23: canonical JSON is a fixed point of canonicalization and loses nothing. The value is any JSON value of the
  language whose numbers are integers of the safe range; its objects may have names that are array indices, when the package
  \<^verbatim>\<open>canonicalize\<close>, which then writes the text, keeps to RFC 8785. Parsing
  the canonical text of the value gives the value with its names sorted, and canonicalizing
  the text again, from the string or from its UTF-8 bytes, gives the same text.\<close>

theorem canonical_text_roundtrip:
  assumes "js_json v" and "index_free v \<or> rfc8785_encoder pl" and "canonicalJson pl v = Inr s"
  shows "StrictJsonParser_parse (normalizeNFC pl) s = Inr (jsort v) \<and>
     canonicalJsonFromText pl (Text s) = Inr s \<and>
     canonicalJsonFromText pl (Bytes (utf8_encode s)) = Inr s"
  using canonical_text_stable [OF assms] canonical_bytes_stable [OF assms] by blast

definition plain_platform :: platform where
  "plain_platform = \<lparr>normalizeNFC = id, canonicalize = \<lambda>v. stringify (jsort v)\<rparr>"

abbreviation "wit_json \<equiv> JObj [(lit ''b'', JNum 2), (lit ''a'', JArr [JNull, JBool True])]"
abbreviation "wit_json_permuted \<equiv> JObj [(lit ''a'', JArr [JNull, JBool True]), (lit ''b'', JNum 2)]"

lemma wit_json_facts: "js_json wit_json \<and> index_free wit_json \<and>
    js_json wit_json_permuted \<and> index_free wit_json_permuted \<and>
    canonicalJson plain_platform wit_json = Inr (stringify (jsort wit_json)) \<and>
    canonicalJson plain_platform wit_json_permuted = Inr (stringify (jsort wit_json_permuted))"
proof -
  have "js_json wit_json \<and> index_free wit_json \<and> js_json wit_json_permuted \<and> index_free wit_json_permuted"
    by (simp add: isSafeInteger_def MAX_SAFE_INTEGER_def integer_index_def is_digit_def)
  then show ?thesis
    by (simp add: canonicalJson_iff MAX_JSON_CONTAINER_DEPTH_def scalar_string_def is_ascii_def
        word_less_nat_alt)
qed

text \<open>An object with a name that is an array index, which the package writes.\<close>

abbreviation "wit_indexed_json \<equiv> JObj [(lit ''b'', JNum 2), (lit ''7'', JArr [JNull, JBool True])]"

lemma wit_indexed_facts:
  "js_json wit_indexed_json" "\<not> index_free wit_indexed_json" "rfc8785_encoder plain_platform"
  "canonicalJson plain_platform wit_indexed_json = Inr (stringify (jsort wit_indexed_json))"
proof -
  show r: "rfc8785_encoder plain_platform" by (simp add: rfc8785_encoder_def plain_platform_def)
  show j: "js_json wit_indexed_json" by (simp add: isSafeInteger_def MAX_SAFE_INTEGER_def)
  have "dec_val [55] = 7" "dec_nat 7 = [55]" by (simp_all add: dec_val_def digit_val_def dec_nat.simps)
  then have "integer_index (lit ''7'')" by (simp add: integer_index_def is_digit_def)
  then show "\<not> index_free wit_indexed_json" by (simp del: lit_simps)
  show "canonicalJson plain_platform wit_indexed_json = Inr (stringify (jsort wit_indexed_json))"
    by (simp only: canonicalJson_rfc8785 [OF r j])
      (simp add: MAX_JSON_CONTAINER_DEPTH_def scalar_string_def is_ascii_def word_less_nat_alt)
qed

theorem canonical_text_roundtrip_witness:
  "canonicalJsonFromText plain_platform (Text (stringify (jsort wit_json))) = Inr (stringify (jsort wit_json)) \<and>
   StrictJsonParser_parse id (stringify (jsort wit_indexed_json)) = Inr (jsort wit_indexed_json)"
  using canonical_text_roundtrip [of wit_json plain_platform "stringify (jsort wit_json)"] wit_json_facts
    canonical_text_roundtrip [OF wit_indexed_facts(1) disjI2 [OF wit_indexed_facts(3)] wit_indexed_facts(4)]
  by (simp add: plain_platform_def del: jsort.simps)

text \<open>Two values have the same canonical text exactly when they denote the same
  value, that is, when they differ at most in the order of the names of their objects.\<close>

theorem canonical_text_identifies:
  assumes "js_json v" and "js_json w" and "index_free v" and "index_free w"
    and "canonicalJson pl v = Inr s" and "canonicalJson pl w = Inr t"
  shows "s = t \<longleftrightarrow> jval_of v = jval_of w"
  by (rule canonicalJson_eq_iff [OF assms])

theorem canonical_text_identifies_witness:
  "stringify (jsort wit_json) = stringify (jsort wit_json_permuted)"
proof -
  have "jval_of wit_json = jval_of wit_json_permuted" by (simp add: fun_eq_iff)
  then show ?thesis
    using canonical_text_identifies [of wit_json wit_json_permuted plain_platform
        "stringify (jsort wit_json)" "stringify (jsort wit_json_permuted)"] wit_json_facts
    by blast
qed

text \<open>A digest binds a value. Two values with the same canonical SHA-256 digest
  denote the same value, or else the two byte strings that were hashed are a SHA-256
  collision.\<close>

theorem canonicalSha256_binds:
  assumes "js_json v" and "js_json w" and "index_free v" and "index_free w"
    and "canonicalSha256 pl v = Inr h" and "canonicalSha256 pl w = Inr h"
  shows "jval_of v = jval_of w \<or> sha256_collision (canonical_bytes v) (canonical_bytes w)"
  by (rule canonicalSha256_binding [OF assms])

theorem canonicalSha256_binds_witness:
  "jval_of wit_json = jval_of wit_json_permuted \<or>
   sha256_collision (canonical_bytes wit_json) (canonical_bytes wit_json_permuted)"
proof -
  have "jsort wit_json = jsort wit_json_permuted" by simp
  with wit_json_facts have
    "canonicalSha256 plain_platform wit_json = Inr (sha256Hex (Text (stringify (jsort wit_json))))"
    "canonicalSha256 plain_platform wit_json_permuted = Inr (sha256Hex (Text (stringify (jsort wit_json))))"
    by (simp_all only: canonicalSha256_def bindr_simps)
  with canonicalSha256_binds wit_json_facts show ?thesis by blast
qed

text \<open>The constant-time comparison of digests is equality on lower-case SHA-256
  digests and false on every other input, and a digest always equals itself.\<close>

theorem safeHashEqual_correct:
  "safeHashEqual a b = (Sha256HexSchema a \<and> Sha256HexSchema b \<and> a = b) \<and>
   safeHashEqual (sha256Hex x) (sha256Hex x)"
  using sha256Hex_schema [of x] by (auto simp: safeHashEqual_iff)

end
