(* ===== verification/Voting.thy ===== *)
theory Voting
  imports Value_Objects
begin

text \<open>
  The tally of \<^verbatim>\<open>lib/domain/src/voting.ts\<close>: the frozen electorate is validated, the
  ballots are attributed to eligible principals, the weights are summed exactly, and quorum,
  approval and outcome follow from the approval rule. The declarative specification
  \<open>tally_spec\<close> sums over the electorate's seats; the code's loops over insertion-ordered
  maps are shown to compute it.
\<close>

section \<open>Data\<close>

datatype BallotChoice = Yes | No | Abstain
datatype SeatRole = voting_member | management_seat | observer_seat
datatype ApprovalDenominator = eligible_weight | participating_weight | yes_no_weight
datatype TieBehavior = reject_tie | chair_casting_vote
datatype BallotSource = own_ballot | proxy_ballot
datatype VoteOutcome = approved | rejected | no_quorum

record ElectorSeat =
  es_memberId :: jstring
  es_role :: SeatRole
  es_weight :: int
  es_eligible :: bool
  es_recused :: bool
  es_chair :: bool

record EffectiveBallot =
  eb_principalMemberId :: jstring
  eb_casterMemberId :: jstring
  eb_choice :: BallotChoice
  eb_source :: BallotSource

record ApprovalRule =
  ar_approval :: Rational
  ar_quorum :: Rational
  ar_approvalDenominator :: ApprovalDenominator
  ar_abstentionsCountForQuorum :: bool
  ar_tieBehavior :: TieBehavior

record VoteTally =
  vt_eligibleWeight :: int
  vt_participatingWeight :: int
  vt_yesWeight :: int
  vt_noWeight :: int
  vt_abstainWeight :: int
  vt_quorumMet :: bool
  vt_approvalMet :: bool
  vt_outcome :: VoteOutcome

section \<open>Electorate\<close>

definition eligibleSeat :: "ElectorSeat \<Rightarrow> bool" where
  "eligibleSeat seat \<longleftrightarrow>
     (if es_role seat \<noteq> voting_member then False else es_eligible seat \<and> \<not> es_recused seat)"

type_synonym seat_map = "(jstring \<times> ElectorSeat) list"

text \<open>The loop of \<open>validateElectorate\<close>, with its map, running weight and chair count.\<close>

fun validate_seats :: "ElectorSeat list \<Rightarrow> seat_map \<Rightarrow> int \<Rightarrow> int \<Rightarrow> (seat_map \<times> int \<times> int) result" where
  "validate_seats [] seats eligibleWeight chairCount = Inr (seats, eligibleWeight, chairCount)"
| "validate_seats (seat # rest) seats eligibleWeight chairCount =
     (if map_has seats (es_memberId seat)
        then throw (ErrorOn ''duplicate electorate member: '' (es_memberId seat))
      else bindr
        (if es_role seat = voting_member then bindr (assertWeight (es_weight seat)) (\<lambda>_. Inr ())
         else ensure (es_weight seat = 0) (RangeError ''non-voting seats must have zero weight''))
        (\<lambda>_. if es_chair seat \<and> es_role seat \<noteq> voting_member
               then throw (Error ''only a voting member may be chair'')
             else validate_seats rest (map_set (es_memberId seat) seat seats)
               (if eligibleSeat seat then eligibleWeight + es_weight seat else eligibleWeight)
               (if es_chair seat then chairCount + 1 else chairCount)))"

definition validateElectorate :: "ElectorSeat list \<Rightarrow> (seat_map \<times> int) result" where
  "validateElectorate electorate =
     bindr (validate_seats electorate [] 0 0) (\<lambda>(seats, eligibleWeight, chairCount).
       if 1 < chairCount then throw (Error ''electorate may contain at most one chair'')
       else Inr (seats, eligibleWeight))"

definition eligibleVotingWeight :: "ElectorSeat list \<Rightarrow> int result" where
  "eligibleVotingWeight electorate = bindr (validateElectorate electorate) (\<lambda>(seats, w). Inr w)"

section \<open>Ballots\<close>

type_synonym ballot_map = "(jstring \<times> EffectiveBallot) list"

definition check_ballot :: "seat_map \<Rightarrow> EffectiveBallot \<Rightarrow> unit result" where
  "check_ballot seats ballot =
     (case map_of seats (eb_principalMemberId ballot) of
        None \<Rightarrow> throw (Error ''ballot principal is not eligible'')
      | Some seat \<Rightarrow>
          if \<not> eligibleSeat seat then throw (Error ''ballot principal is not eligible'')
          else if eb_source ballot = own_ballot \<and>
              eb_casterMemberId ballot \<noteq> eb_principalMemberId ballot
            then throw (Error ''own ballot caster must be the principal'')
          else if eb_source ballot = proxy_ballot
            then (if eb_casterMemberId ballot = eb_principalMemberId ballot
                    then throw (Error ''proxy ballot caster must differ from the principal'')
                  else case map_of seats (eb_casterMemberId ballot) of
                      None \<Rightarrow> throw (Error ''proxy holder is not eligible'')
                    | Some holder \<Rightarrow> ensure (eligibleSeat holder) (Error ''proxy holder is not eligible''))
          else Inr ())"

fun collect_ballots :: "seat_map \<Rightarrow> EffectiveBallot list \<Rightarrow> ballot_map \<Rightarrow> ballot_map result" where
  "collect_ballots seats [] effective = Inr effective"
| "collect_ballots seats (ballot # rest) effective =
     bindr (check_ballot seats ballot) (\<lambda>_.
       if map_has effective (eb_principalMemberId ballot)
         then throw (Error ''multiple active ballots for principal'')
       else collect_ballots seats rest (map_set (eb_principalMemberId ballot) ballot effective))"

text \<open>
  The summing loop. \<open>seats.get(memberId)!\<close> is structurally present; where it is not, the
  source would fail reading a property of \<open>undefined\<close>.
\<close>

fun sum_ballots :: "seat_map \<Rightarrow> ballot_map \<Rightarrow> int \<Rightarrow> int \<Rightarrow> int \<Rightarrow> bool \<Rightarrow> (int \<times> int \<times> int \<times> bool) result" where
  "sum_ballots seats [] y n a chairYes = Inr (y, n, a, chairYes)"
| "sum_ballots seats ((memberId, ballot) # rest) y n a chairYes =
     (case map_of seats memberId of
        None \<Rightarrow> throw (TypeError ''undefined seat'')
      | Some seat \<Rightarrow>
          if eb_choice ballot = Yes
            then sum_ballots seats rest (y + es_weight seat) n a (chairYes \<or> es_chair seat)
          else if eb_choice ballot = No
            then sum_ballots seats rest y (n + es_weight seat) a chairYes
          else sum_ballots seats rest y n (a + es_weight seat) chairYes)"

section \<open>Tally\<close>

definition tallyVote :: "ElectorSeat list \<Rightarrow> EffectiveBallot list \<Rightarrow> ApprovalRule \<Rightarrow> VoteTally result" where
  "tallyVote electorate ballots rule =
     bindr (validateElectorate electorate) (\<lambda>(seats, eligibleWeight).
     bindr (collect_ballots seats ballots []) (\<lambda>effective.
     bindr (sum_ballots seats effective 0 0 0 False) (\<lambda>(yesWeight, noWeight, abstainWeight, chairYes).
     let quorumParticipation =
           yesWeight + noWeight + (if ar_abstentionsCountForQuorum rule then abstainWeight else 0);
         participatingWeight = yesWeight + noWeight + abstainWeight;
         approvalTotal =
           (if ar_approvalDenominator rule = eligible_weight then eligibleWeight
            else if ar_approvalDenominator rule = participating_weight then participatingWeight
            else yesWeight + noWeight)
     in
     bindr (if 0 < eligibleWeight
              then meetsFraction quorumParticipation eligibleWeight (ar_quorum rule)
            else Inr False) (\<lambda>quorumMet.
     bindr (meetsFraction yesWeight approvalTotal (ar_approval rule)) (\<lambda>meets.
     let approvalMet =
           (if yesWeight = noWeight then ar_tieBehavior rule = chair_casting_vote \<and> chairYes
            else meets);
         outcome = (if \<not> quorumMet then no_quorum else if approvalMet then approved else rejected)
     in Inr \<lparr>vt_eligibleWeight = eligibleWeight, vt_participatingWeight = participatingWeight,
          vt_yesWeight = yesWeight, vt_noWeight = noWeight, vt_abstainWeight = abstainWeight,
          vt_quorumMet = quorumMet, vt_approvalMet = approvalMet, vt_outcome = outcome\<rparr>)))))"

section \<open>Supersession\<close>

datatype PrincipalSupersessionRule = principal_supersedes_proxy | first_ballot_final

definition chooseEffectiveBallot ::
    "EffectiveBallot option \<Rightarrow> EffectiveBallot \<Rightarrow> PrincipalSupersessionRule \<Rightarrow> EffectiveBallot result" where
  "chooseEffectiveBallot current incoming policy =
     (case current of
        None \<Rightarrow> Inr incoming
      | Some cur \<Rightarrow>
          if eb_principalMemberId cur \<noteq> eb_principalMemberId incoming
            then throw (Error ''principal mismatch'')
          else if policy = first_ballot_final
            then throw (Error ''principal already has an active ballot'')
          else if eb_source incoming \<noteq> own_ballot
            then throw (Error ''only the principal may supersede a proxy ballot'')
          else Inr incoming)"

section \<open>Specification of a valid input\<close>

definition seat_ok :: "ElectorSeat \<Rightarrow> bool" where
  "seat_ok s \<longleftrightarrow>
     (if es_role s = voting_member then 0 < es_weight s \<and> es_weight s \<le> MAX_VOTING_WEIGHT
      else es_weight s = 0 \<and> \<not> es_chair s)"

definition electorate_ok :: "ElectorSeat list \<Rightarrow> bool" where
  "electorate_ok E \<longleftrightarrow>
     distinct (map es_memberId E) \<and> list_all seat_ok E \<and> length (filter es_chair E) \<le> 1"

definition eligible_member :: "ElectorSeat list \<Rightarrow> jstring \<Rightarrow> bool" where
  "eligible_member E m \<longleftrightarrow> (\<exists>s\<in>set E. es_memberId s = m \<and> eligibleSeat s)"

definition ballot_ok :: "ElectorSeat list \<Rightarrow> EffectiveBallot \<Rightarrow> bool" where
  "ballot_ok E b \<longleftrightarrow>
     eligible_member E (eb_principalMemberId b) \<and>
     (eb_source b = own_ballot \<longrightarrow> eb_casterMemberId b = eb_principalMemberId b) \<and>
     (eb_source b = proxy_ballot \<longrightarrow>
        eb_casterMemberId b \<noteq> eb_principalMemberId b \<and> eligible_member E (eb_casterMemberId b))"

definition ballots_ok :: "ElectorSeat list \<Rightarrow> EffectiveBallot list \<Rightarrow> bool" where
  "ballots_ok E B \<longleftrightarrow> list_all (ballot_ok E) B \<and> distinct (map eb_principalMemberId B)"

text \<open>The weight of the seats whose active ballot is \<open>c\<close>.\<close>

definition choice_weight :: "ElectorSeat list \<Rightarrow> EffectiveBallot list \<Rightarrow> BallotChoice \<Rightarrow> int" where
  "choice_weight E B c =
     (\<Sum>s\<leftarrow>filter (\<lambda>s. \<exists>b\<in>set B. eb_principalMemberId b = es_memberId s \<and> eb_choice b = c) E.
        es_weight s)"

definition spec_eligible :: "ElectorSeat list \<Rightarrow> int" where
  "spec_eligible E = (\<Sum>s\<leftarrow>filter eligibleSeat E. es_weight s)"

definition chair_voted_yes :: "ElectorSeat list \<Rightarrow> EffectiveBallot list \<Rightarrow> bool" where
  "chair_voted_yes E B \<longleftrightarrow>
     (\<exists>s\<in>set E. es_chair s \<and> (\<exists>b\<in>set B. eb_principalMemberId b = es_memberId s \<and> eb_choice b = Yes))"

definition at_least :: "Rational \<Rightarrow> int \<Rightarrow> int \<Rightarrow> bool" where
  "at_least f part tot \<longleftrightarrow> tot * numerator f \<le> part * denominator f"

definition tally_spec :: "ElectorSeat list \<Rightarrow> EffectiveBallot list \<Rightarrow> ApprovalRule \<Rightarrow> VoteTally" where
  "tally_spec E B R =
     (let y = choice_weight E B Yes; n = choice_weight E B No; a = choice_weight E B Abstain;
          el = spec_eligible E;
          tot = (case ar_approvalDenominator R of eligible_weight \<Rightarrow> el
                   | participating_weight \<Rightarrow> y + n + a | yes_no_weight \<Rightarrow> y + n);
          q = (0 < el \<and> at_least (ar_quorum R) (if ar_abstentionsCountForQuorum R then y + n + a else y + n) el);
          ap = (if y = n then ar_tieBehavior R = chair_casting_vote \<and> chair_voted_yes E B
                else at_least (ar_approval R) y tot)
      in \<lparr>vt_eligibleWeight = el, vt_participatingWeight = y + n + a, vt_yesWeight = y,
          vt_noWeight = n, vt_abstainWeight = a, vt_quorumMet = q, vt_approvalMet = ap,
          vt_outcome = (if \<not> q then no_quorum else if ap then approved else rejected)\<rparr>)"

section \<open>Validation meets its specification\<close>

abbreviation seats_of :: "ElectorSeat list \<Rightarrow> seat_map" where
  "seats_of E \<equiv> map (\<lambda>s. (es_memberId s, s)) E"

definition seat_count :: "ElectorSeat list \<Rightarrow> int" where
  "seat_count E = int (length (filter es_chair E))"

lemma seat_check_iff:
  "bindr (if es_role s = voting_member then bindr (assertWeight (es_weight s)) (\<lambda>_. Inr ())
          else ensure (es_weight s = 0) e)
     (\<lambda>_. if es_chair s \<and> es_role s \<noteq> voting_member then Inl e' else m) = Inr r \<longleftrightarrow>
   seat_ok s \<and> m = Inr r"
  by (auto simp: seat_ok_def assertWeight_def bindr_eq_Inr_iff)

lemma map_of_seats_None: "map_of (seats_of E) m = None \<longleftrightarrow> m \<notin> set (map es_memberId E)"
  by (induction E) auto

lemma validate_seats_iff:
  "validate_seats rest (seats_of pre) w c = Inr r \<longleftrightarrow>
     list_all seat_ok rest \<and> distinct (map es_memberId rest) \<and>
     set (map es_memberId rest) \<inter> set (map es_memberId pre) = {} \<and>
     r = (seats_of (pre @ rest), w + spec_eligible rest, c + seat_count rest)"
proof (induction rest arbitrary: pre w c)
  case Nil
  then show ?case by (auto simp: spec_eligible_def seat_count_def)
next
  case (Cons s rest)
  show ?case
  proof (cases "es_memberId s \<in> set (map es_memberId pre)")
    case True
    then have "map_of (seats_of pre) (es_memberId s) \<noteq> None"
      by (simp only: map_of_seats_None) simp
    with True show ?thesis by auto
  next
    case False
    then have new: "map_of (seats_of pre) (es_memberId s) = None"
      by (simp only: map_of_seats_None) simp
    have "map_set (es_memberId s) s (seats_of pre) = seats_of (pre @ [s])"
      by (simp add: map_set_new new)
    with new have "validate_seats (s # rest) (seats_of pre) w c = Inr r \<longleftrightarrow> seat_ok s \<and>
        validate_seats rest (seats_of (pre @ [s]))
          (if eligibleSeat s then w + es_weight s else w) (if es_chair s then c + 1 else c) = Inr r"
      by (simp only: validate_seats.simps simp_thms if_False seat_check_iff not_None_eq)
    also have "\<dots> \<longleftrightarrow> seat_ok s \<and> list_all seat_ok rest \<and> distinct (map es_memberId rest) \<and>
        set (map es_memberId rest) \<inter> set (map es_memberId (pre @ [s])) = {} \<and>
        r = (seats_of (pre @ s # rest), w + spec_eligible (s # rest), c + seat_count (s # rest))"
      unfolding Cons.IH by (auto simp: spec_eligible_def seat_count_def)
    finally show ?thesis using False by auto
  qed
qed

lemma validateElectorate_iff:
  "validateElectorate E = Inr r \<longleftrightarrow> electorate_ok E \<and> r = (seats_of E, spec_eligible E)"
proof -
  have "validate_seats E [] 0 0 = Inr q \<longleftrightarrow> list_all seat_ok E \<and> distinct (map es_memberId E) \<and>
      q = (seats_of E, spec_eligible E, seat_count E)" for q
    using validate_seats_iff [of E "[]" 0 0 q] by simp
  then show ?thesis
    by (auto simp: validateElectorate_def bindr_eq_Inr_iff electorate_ok_def seat_count_def
        split: if_splits)
qed

section \<open>Ballot collection meets its specification\<close>

lemma map_of_seats_Some:
  assumes "distinct (map es_memberId E)"
  shows "map_of (seats_of E) m = Some s \<longleftrightarrow> s \<in> set E \<and> es_memberId s = m"
proof -
  have "distinct (map fst (seats_of E))" using assms by (simp add: comp_def)
  then have "map_of (seats_of E) m = Some s \<longleftrightarrow> (m, s) \<in> set (seats_of E)"
    by simp
  then show ?thesis by auto
qed

lemma seat_lookup_eligible:
  assumes "distinct (map es_memberId E)"
  shows "(\<exists>s. map_of (seats_of E) m = Some s \<and> eligibleSeat s) \<longleftrightarrow> eligible_member E m"
  using assms by (auto simp: eligible_member_def map_of_seats_Some)

lemma check_ballot_iff:
  assumes "distinct (map es_memberId E)"
  shows "check_ballot (seats_of E) b = Inr () \<longleftrightarrow> ballot_ok E b"
proof -
  have "check_ballot (seats_of E) b = Inr () \<longleftrightarrow>
      (\<exists>s. map_of (seats_of E) (eb_principalMemberId b) = Some s \<and> eligibleSeat s) \<and>
      (eb_source b = own_ballot \<longrightarrow> eb_casterMemberId b = eb_principalMemberId b) \<and>
      (eb_source b = proxy_ballot \<longrightarrow> eb_casterMemberId b \<noteq> eb_principalMemberId b \<and>
         (\<exists>s. map_of (seats_of E) (eb_casterMemberId b) = Some s \<and> eligibleSeat s))"
    by (auto simp: check_ballot_def split: option.splits)
  then show ?thesis by (simp only: seat_lookup_eligible [OF assms] ballot_ok_def)
qed

abbreviation ballots_of :: "EffectiveBallot list \<Rightarrow> ballot_map" where
  "ballots_of B \<equiv> map (\<lambda>b. (eb_principalMemberId b, b)) B"

lemma map_of_ballots_None:
  "map_of (ballots_of B) m = None \<longleftrightarrow> m \<notin> set (map eb_principalMemberId B)"
  by (induction B) auto

lemma collect_ballots_iff:
  assumes "distinct (map es_memberId E)"
  shows "collect_ballots (seats_of E) rest (ballots_of pre) = Inr r \<longleftrightarrow>
     list_all (ballot_ok E) rest \<and> distinct (map eb_principalMemberId rest) \<and>
     set (map eb_principalMemberId rest) \<inter> set (map eb_principalMemberId pre) = {} \<and>
     r = ballots_of (pre @ rest)"
proof (induction rest arbitrary: pre)
  case Nil
  then show ?case by auto
next
  case (Cons b rest)
  let ?p = "eb_principalMemberId b"
  show ?case
  proof (cases "?p \<in> set (map eb_principalMemberId pre)")
    case True
    then have "map_of (ballots_of pre) ?p \<noteq> None"
      by (simp only: map_of_ballots_None) simp
    with True show ?thesis by (auto simp: bindr_eq_Inr_iff)
  next
    case False
    then have new: "map_of (ballots_of pre) ?p = None"
      by (simp only: map_of_ballots_None) simp
    then have "map_set ?p b (ballots_of pre) = ballots_of (pre @ [b])"
      by (simp add: map_set_new)
    with new have "collect_ballots (seats_of E) (b # rest) (ballots_of pre) = Inr r \<longleftrightarrow>
        ballot_ok E b \<and> collect_ballots (seats_of E) rest (ballots_of (pre @ [b])) = Inr r"
      using check_ballot_iff [OF assms, of b] by (auto simp: bindr_eq_Inr_iff)
    also have "\<dots> \<longleftrightarrow> ballot_ok E b \<and> list_all (ballot_ok E) rest \<and>
        distinct (map eb_principalMemberId rest) \<and>
        set (map eb_principalMemberId rest) \<inter> set (map eb_principalMemberId (pre @ [b])) = {} \<and>
        r = ballots_of (pre @ b # rest)"
      unfolding Cons.IH by simp
    finally show ?thesis using False by auto
  qed
qed

section \<open>Summing meets its specification\<close>

lemma sum_filter_disjoint:
  assumes "\<And>x. x \<in> set xs \<Longrightarrow> \<not> (P x \<and> Q x)"
  shows "(\<Sum>x\<leftarrow>filter (\<lambda>x. P x \<or> Q x) xs. f x) =
     (\<Sum>x\<leftarrow>filter P xs. f x) + (\<Sum>x\<leftarrow>filter Q xs. f x :: int)"
  using assms by (induction xs) auto

lemma filter_unique:
  assumes "distinct (map f xs)" and "x \<in> set xs"
  shows "filter (\<lambda>y. f x = f y) xs = [x]"
  using assms
proof (induction xs)
  case Nil
  then show ?case by simp
next
  case (Cons y xs)
  then show ?case by (cases "x = y") (auto simp: filter_empty_conv image_iff)
qed

lemma choice_weight_Cons:
  assumes "distinct (map es_memberId E)" and "s \<in> set E"
    and "es_memberId s = eb_principalMemberId b"
    and "eb_principalMemberId b \<notin> set (map eb_principalMemberId B)"
  shows "choice_weight E (b # B) c =
     (if eb_choice b = c then es_weight s else 0) + choice_weight E B c"
proof (cases "eb_choice b = c")
  case True
  have one: "filter (\<lambda>t. eb_principalMemberId b = es_memberId t) E = [s]"
    unfolding assms(3) [symmetric] by (rule filter_unique [OF assms(1,2)])
  have "choice_weight E (b # B) c =
      (\<Sum>t\<leftarrow>filter (\<lambda>t. eb_principalMemberId b = es_memberId t \<or>
         (\<exists>x\<in>set B. eb_principalMemberId x = es_memberId t \<and> eb_choice x = c)) E. es_weight t)"
    using True by (simp add: choice_weight_def)
  also have "\<dots> = es_weight s + choice_weight E B c"
    unfolding choice_weight_def using assms(4)
    by (subst sum_filter_disjoint) (auto simp: one image_iff)
  finally show ?thesis using True by simp
next
  case False
  then show ?thesis by (simp add: choice_weight_def)
qed

lemma chair_voted_yes_Cons:
  assumes "distinct (map es_memberId E)" and "s \<in> set E"
    and "es_memberId s = eb_principalMemberId b"
  shows "chair_voted_yes E (b # B) \<longleftrightarrow> (eb_choice b = Yes \<and> es_chair s) \<or> chair_voted_yes E B"
proof -
  have "es_memberId t = eb_principalMemberId b \<longleftrightarrow> t = s" if "t \<in> set E" for t
    using that assms by (metis distinct_map inj_on_eq_iff)
  then have "(\<exists>t\<in>set E. es_chair t \<and> eb_principalMemberId b = es_memberId t) \<longleftrightarrow> es_chair s"
    using assms(2) by metis
  moreover have "chair_voted_yes E (b # B) \<longleftrightarrow>
      (eb_choice b = Yes \<and> (\<exists>t\<in>set E. es_chair t \<and> eb_principalMemberId b = es_memberId t)) \<or>
      chair_voted_yes E B"
    unfolding chair_voted_yes_def set_simps by blast
  ultimately show ?thesis by simp
qed

lemma choice_weight_Nil [simp]: "choice_weight E [] c = 0"
  by (simp add: choice_weight_def)

lemma sum_ballots_eq:
  assumes "distinct (map es_memberId E)"
  shows "list_all (ballot_ok E) B \<Longrightarrow> distinct (map eb_principalMemberId B) \<Longrightarrow>
     sum_ballots (seats_of E) (ballots_of B) y n a ch =
       Inr (y + choice_weight E B Yes, n + choice_weight E B No, a + choice_weight E B Abstain,
         ch \<or> chair_voted_yes E B)"
proof (induction B arbitrary: y n a ch)
  case Nil
  then show ?case by (simp add: chair_voted_yes_def)
next
  case (Cons b B)
  obtain s where s: "s \<in> set E" "es_memberId s = eb_principalMemberId b"
    using Cons.prems by (auto simp: ballot_ok_def eligible_member_def)
  then have look: "map_of (seats_of E) (eb_principalMemberId b) = Some s"
    by (simp add: map_of_seats_Some [OF assms])
  have fresh: "eb_principalMemberId b \<notin> set (map eb_principalMemberId B)"
    using Cons.prems by simp
  show ?case
    using Cons look
    by (cases "eb_choice b")
      (simp_all add: choice_weight_Cons [OF assms s fresh] chair_voted_yes_Cons [OF assms s] disj_assoc)
qed

lemma eligible_seat_weight_pos:
  "seat_ok s \<Longrightarrow> eligibleSeat s \<Longrightarrow> 0 < es_weight s \<and> es_weight s \<le> MAX_VOTING_WEIGHT"
  by (auto simp: seat_ok_def eligibleSeat_def split: if_splits)

lemma seat_weight_nonneg: "seat_ok s \<Longrightarrow> 0 \<le> es_weight s"
  by (auto simp: seat_ok_def split: if_splits)

lemma choice_weight_nonneg: "electorate_ok E \<Longrightarrow> 0 \<le> choice_weight E B c"
  by (auto simp: choice_weight_def electorate_ok_def list_all_iff intro!: sum_list_nonneg seat_weight_nonneg)

lemma spec_eligible_nonneg: "electorate_ok E \<Longrightarrow> 0 \<le> spec_eligible E"
  by (auto simp: spec_eligible_def electorate_ok_def list_all_iff intro!: sum_list_nonneg seat_weight_nonneg)

lemma tallyVote_ok:
  assumes "electorate_ok E" and "ballots_ok E B"
  shows "tallyVote E B R = Inr (tally_spec E B R)"
proof -
  have d: "distinct (map es_memberId E)" using assms(1) by (simp add: electorate_ok_def)
  have v: "validateElectorate E = Inr (seats_of E, spec_eligible E)"
    using assms(1) by (simp add: validateElectorate_iff)
  have c: "collect_ballots (seats_of E) B [] = Inr (ballots_of B)"
    using collect_ballots_iff [OF d, of B "[]"] assms(2) by (simp add: ballots_ok_def)
  have s: "sum_ballots (seats_of E) (ballots_of B) 0 0 0 False =
      Inr (choice_weight E B Yes, choice_weight E B No, choice_weight E B Abstain, chair_voted_yes E B)"
    using sum_ballots_eq [OF d] assms(2) by (simp add: ballots_ok_def)
  note nn = choice_weight_nonneg [OF assms(1), of B] spec_eligible_nonneg [OF assms(1)]
  show ?thesis
    using nn(1) [of Yes] nn(1) [of No] nn(1) [of Abstain] nn(2)
    by (cases "ar_approvalDenominator R")
      (auto simp: tallyVote_def v c s tally_spec_def Let_def meetsFraction_nonneg at_least_def)
qed

lemma tallyVote_Inr_iff:
  "tallyVote E B R = Inr t \<longleftrightarrow> electorate_ok E \<and> ballots_ok E B \<and> t = tally_spec E B R"
proof
  assume t: "tallyVote E B R = Inr t"
  then obtain seats w where v: "validateElectorate E = Inr (seats, w)"
    by (auto simp: tallyVote_def elim!: bindr_Inr_elim)
  then have E: "electorate_ok E" and seats: "seats = seats_of E"
    by (simp_all add: validateElectorate_iff)
  then have d: "distinct (map es_memberId E)" by (simp add: electorate_ok_def)
  from t v obtain eff where "collect_ballots seats B [] = Inr eff"
    by (auto simp: tallyVote_def elim!: bindr_Inr_elim)
  with seats have B: "ballots_ok E B"
    using collect_ballots_iff [OF d, of B "[]" eff] by (simp add: ballots_ok_def)
  from t show "electorate_ok E \<and> ballots_ok E B \<and> t = tally_spec E B R"
    using E B tallyVote_ok [OF E B] by simp
qed (simp add: tallyVote_ok)

section \<open>Bounds\<close>

text \<open>A seat has at most one active ballot, so the three choices cover disjoint seats, and
  every counted seat is eligible.\<close>

lemma one_choice_per_seat:
  assumes "ballots_ok E B" and "b \<in> set B" and "b' \<in> set B"
    and "eb_principalMemberId b = eb_principalMemberId b'"
  shows "b = b'"
  using assms by (auto simp: ballots_ok_def distinct_map dest: inj_onD)

lemma counted_seat_eligible:
  assumes "electorate_ok E" and "ballots_ok E B" and "s \<in> set E" and "b \<in> set B"
    and "eb_principalMemberId b = es_memberId s"
  shows "eligibleSeat s"
proof -
  obtain t where "t \<in> set E" "es_memberId t = es_memberId s" "eligibleSeat t"
    using assms by (auto simp: ballots_ok_def list_all_iff ballot_ok_def eligible_member_def)
  with assms(1,3) show ?thesis
    by (auto simp: electorate_ok_def distinct_map dest!: inj_onD)
qed

lemma sum_filter_mono:
  assumes "\<And>x. x \<in> set xs \<Longrightarrow> P x \<Longrightarrow> Q x" and "\<And>x. x \<in> set xs \<Longrightarrow> 0 \<le> f x"
  shows "(\<Sum>x\<leftarrow>filter P xs. f x) \<le> (\<Sum>x\<leftarrow>filter Q xs. f x :: int)"
  using assms
proof (induction xs)
  case (Cons x xs)
  then have "(\<Sum>x\<leftarrow>filter P xs. f x) \<le> (\<Sum>x\<leftarrow>filter Q xs. f x)" by simp
  moreover have "P x \<Longrightarrow> Q x" and "0 \<le> f x" using Cons.prems by auto
  ultimately show ?case by (cases "P x"; cases "Q x") auto
qed simp

lemma participating_eq:
  assumes "ballots_ok E B"
  shows "choice_weight E B Yes + choice_weight E B No + choice_weight E B Abstain =
     (\<Sum>s\<leftarrow>filter (\<lambda>s. \<exists>b\<in>set B. eb_principalMemberId b = es_memberId s) E. es_weight s)"
proof -
  let ?P = "\<lambda>c s. \<exists>b\<in>set B. eb_principalMemberId b = es_memberId s \<and> eb_choice b = c"
  have dis: "c \<noteq> d \<Longrightarrow> \<not> (?P c s \<and> ?P d s)" for c d s
    using one_choice_per_seat [OF assms] by metis
  have all: "eb_choice b = Yes \<or> eb_choice b = No \<or> eb_choice b = Abstain" for b
    by (cases "eb_choice b") simp_all
  have any: "(\<lambda>s. \<exists>b\<in>set B. eb_principalMemberId b = es_memberId s) =
      (\<lambda>s. (?P Yes s \<or> ?P No s) \<or> ?P Abstain s)"
    by (rule ext) (use all in blast)
  have "(\<Sum>s\<leftarrow>filter (\<lambda>s. \<exists>b\<in>set B. eb_principalMemberId b = es_memberId s) E. es_weight s) =
      (\<Sum>s\<leftarrow>filter (\<lambda>s. (?P Yes s \<or> ?P No s) \<or> ?P Abstain s) E. es_weight s)"
    by (simp only: any)
  also have "\<dots> = (\<Sum>s\<leftarrow>filter (\<lambda>s. ?P Yes s \<or> ?P No s) E. es_weight s) +
      (\<Sum>s\<leftarrow>filter (?P Abstain) E. es_weight s)"
    by (rule sum_filter_disjoint) (use dis in blast)
  also have "(\<Sum>s\<leftarrow>filter (\<lambda>s. ?P Yes s \<or> ?P No s) E. es_weight s) =
      (\<Sum>s\<leftarrow>filter (?P Yes) E. es_weight s) + (\<Sum>s\<leftarrow>filter (?P No) E. es_weight s)"
    by (rule sum_filter_disjoint) (use dis in blast)
  finally show ?thesis by (simp add: choice_weight_def)
qed

lemma participating_le_eligible:
  assumes "electorate_ok E" and "ballots_ok E B"
  shows "choice_weight E B Yes + choice_weight E B No + choice_weight E B Abstain \<le> spec_eligible E"
  unfolding participating_eq [OF assms(2)] spec_eligible_def
proof (rule sum_filter_mono)
  fix s
  assume "s \<in> set E"
  then show "0 \<le> es_weight s"
    using assms(1) by (simp add: electorate_ok_def list_all_iff seat_weight_nonneg)
  assume "\<exists>b\<in>set B. eb_principalMemberId b = es_memberId s"
  with \<open>s \<in> set E\<close> show "eligibleSeat s"
    by (blast intro: counted_seat_eligible [OF assms])
qed

lemma spec_eligible_le: "list_all seat_ok E \<Longrightarrow> spec_eligible E \<le> MAX_VOTING_WEIGHT * int (length E)"
proof (induction E)
  case (Cons s E)
  then have "es_weight s \<le> MAX_VOTING_WEIGHT \<or> \<not> eligibleSeat s"
    using eligible_seat_weight_pos by fastforce
  with Cons show ?case
    by (auto simp: spec_eligible_def algebra_simps MAX_VOTING_WEIGHT_def)
qed (simp add: spec_eligible_def)

section \<open>Order independence\<close>

lemma sum_list_filter_mset:
  "mset xs = mset ys \<Longrightarrow> (\<Sum>x\<leftarrow>filter P xs. f x) = (\<Sum>x\<leftarrow>filter P ys. f x :: int)"
  by (metis mset_filter mset_map sum_mset_sum_list)

lemma electorate_ok_perm: "mset E' = mset E \<Longrightarrow> electorate_ok E \<Longrightarrow> electorate_ok E'"
  by (metis electorate_ok_def list_all_iff mset_eq_imp_distinct_iff mset_eq_length mset_eq_setD
      mset_filter mset_map)

lemma ballots_ok_perm:
  assumes "mset E' = mset E" and "mset B' = mset B" and "ballots_ok E B"
  shows "ballots_ok E' B'"
proof -
  have E: "set E' = set E" and B: "set B' = set B"
    using assms(1,2) by (auto dest: mset_eq_setD)
  have "eligible_member E' = eligible_member E" by (simp add: eligible_member_def fun_eq_iff E)
  then have "ballot_ok E' = ballot_ok E" by (simp add: ballot_ok_def fun_eq_iff)
  moreover have "distinct (map eb_principalMemberId B')"
    using assms(2,3) by (metis ballots_ok_def mset_eq_imp_distinct_iff mset_map)
  ultimately show ?thesis using assms(3) by (simp add: ballots_ok_def list_all_iff B)
qed

lemma tally_spec_perm:
  assumes "mset E' = mset E" and "mset B' = mset B"
  shows "tally_spec E' B' R = tally_spec E B R"
proof -
  have E: "set E' = set E" and B: "set B' = set B"
    using assms by (auto dest: mset_eq_setD)
  have "choice_weight E' B' = choice_weight E B"
    by (rule ext) (simp only: choice_weight_def B sum_list_filter_mset [OF assms(1)])
  moreover have "spec_eligible E' = spec_eligible E"
    unfolding spec_eligible_def by (rule sum_list_filter_mset [OF assms(1)])
  moreover have "chair_voted_yes E' B' = chair_voted_yes E B"
    by (simp add: chair_voted_yes_def E B)
  ultimately show ?thesis by (simp only: tally_spec_def)
qed

section \<open>Effect of one ballot\<close>

lemma ballots_ok_change_choice:
  "ballots_ok E (B1 @ b\<lparr>eb_choice := c\<rparr> # B2) \<longleftrightarrow> ballots_ok E (B1 @ b # B2)"
  by (simp add: ballots_ok_def ballot_ok_def)

lemma choice_weight_move:
  assumes "electorate_ok E" and "ballots_ok E (B1 @ b # B2)" and "s \<in> set E"
    and "es_memberId s = eb_principalMemberId b"
  shows "choice_weight E (B1 @ b # B2) c =
     (if eb_choice b = c then es_weight s else 0) + choice_weight E (B1 @ B2) c"
proof -
  have "choice_weight E (B1 @ b # B2) c = choice_weight E (b # B1 @ B2) c"
    by (simp add: choice_weight_def)
  also have "\<dots> = (if eb_choice b = c then es_weight s else 0) + choice_weight E (B1 @ B2) c"
    using assms by (intro choice_weight_Cons) (auto simp: electorate_ok_def ballots_ok_def)
  finally show ?thesis .
qed

text \<open>At an approval fraction of one half or more, a yes weight that reaches it is at least the
  no weight.\<close>

lemma half_yes_ge_no:
  fixes y n tot num den :: int
  assumes "0 < den" and "den \<le> 2 * num" and "y + n \<le> tot" and "0 \<le> y + n"
    and "tot * num \<le> y * den"
  shows "n \<le> y"
proof -
  have "(y + n) * den \<le> tot * den" using assms(1,3) by simp
  also have "\<dots> \<le> tot * (2 * num)" using assms(2-4) by (intro mult_left_mono) auto
  also have "\<dots> \<le> 2 * y * den" using assms(5) by simp
  finally show ?thesis using assms(1) by simp
qed

definition approval_total :: "ApprovalDenominator \<Rightarrow> int \<Rightarrow> int \<Rightarrow> int \<Rightarrow> int \<Rightarrow> int" where
  "approval_total d el y n a =
     (case d of eligible_weight \<Rightarrow> el | participating_weight \<Rightarrow> y + n + a | yes_no_weight \<Rightarrow> y + n)"

lemma tally_spec_quorumMet:
  "vt_quorumMet (tally_spec E B R) \<longleftrightarrow> 0 < spec_eligible E \<and>
     at_least (ar_quorum R)
       (choice_weight E B Yes + choice_weight E B No +
         (if ar_abstentionsCountForQuorum R then choice_weight E B Abstain else 0))
       (spec_eligible E)"
  by (simp add: tally_spec_def Let_def)

lemma tally_spec_approvalMet:
  "vt_approvalMet (tally_spec E B R) \<longleftrightarrow>
     (if choice_weight E B Yes = choice_weight E B No
      then ar_tieBehavior R = chair_casting_vote \<and> chair_voted_yes E B
      else at_least (ar_approval R) (choice_weight E B Yes)
        (approval_total (ar_approvalDenominator R) (spec_eligible E)
          (choice_weight E B Yes) (choice_weight E B No) (choice_weight E B Abstain)))"
  by (simp add: tally_spec_def approval_total_def Let_def)

lemma tally_spec_outcome:
  "vt_outcome (tally_spec E B R) =
     (if \<not> vt_quorumMet (tally_spec E B R) then no_quorum
      else if vt_approvalMet (tally_spec E B R) then approved else rejected)"
  by (simp only: tally_spec_def Let_def VoteTally.simps)

lemma approved_iff:
  "vt_outcome (tally_spec E B R) = approved \<longleftrightarrow>
     vt_quorumMet (tally_spec E B R) \<and> vt_approvalMet (tally_spec E B R)"
  by (simp add: tally_spec_outcome)

section \<open>Sequences of casts\<close>

text \<open>The active ballot of a principal after a sequence of casts: a cast that is refused leaves
  the active ballot as it was.\<close>

fun active_ballot ::
    "PrincipalSupersessionRule \<Rightarrow> EffectiveBallot option \<Rightarrow> EffectiveBallot list \<Rightarrow> EffectiveBallot option" where
  "active_ballot policy cur [] = cur"
| "active_ballot policy cur (b # bs) =
     active_ballot policy
       (case chooseEffectiveBallot cur b policy of Inl _ \<Rightarrow> cur | Inr b' \<Rightarrow> Some b') bs"

lemma active_ballot_final: "active_ballot first_ballot_final (Some c) bs = Some c"
  by (induction bs) (simp_all add: chooseEffectiveBallot_def)

lemma active_ballot_supersede:
  assumes "\<forall>b\<in>set bs. eb_principalMemberId b = m" and "eb_principalMemberId c = m"
  shows "active_ballot principal_supersedes_proxy (Some c) bs =
     Some (last (c # filter (\<lambda>b. eb_source b = own_ballot) bs))"
  using assms by (induction bs arbitrary: c) (simp_all add: chooseEffectiveBallot_def)

section \<open>Properties\<close>

text \<open>Property C18: the tally of the code is exact. It succeeds on precisely the valid electorates
  and ballot sets (distinct seats with admissible weights and at most one chair; ballots of
  distinct eligible principals, cast by the principal itself or by another eligible member),
  and then its weights, quorum, approval and outcome are those of the declarative
  specification that sums over the seats.\<close>

theorem tallyVote_refines_spec:
  "tallyVote E B R = Inr t \<longleftrightarrow> electorate_ok E \<and> ballots_ok E B \<and> t = tally_spec E B R"
  by (rule tallyVote_Inr_iff)

text \<open>Property C20: in every tally the three choice weights are non-negative and add up to the
  participating weight, which never exceeds the eligible weight, which never exceeds
  the weight limit times the number of seats.\<close>

theorem tallyVote_bounds:
  assumes "tallyVote E B R = Inr t"
  shows "0 \<le> vt_yesWeight t \<and> 0 \<le> vt_noWeight t \<and> 0 \<le> vt_abstainWeight t \<and>
     vt_yesWeight t + vt_noWeight t + vt_abstainWeight t = vt_participatingWeight t \<and>
     vt_participatingWeight t \<le> vt_eligibleWeight t \<and>
     vt_eligibleWeight t \<le> MAX_VOTING_WEIGHT * int (length E)"
proof -
  have E: "electorate_ok E" and B: "ballots_ok E B" and t: "t = tally_spec E B R"
    using assms by (simp_all add: tallyVote_Inr_iff)
  have "list_all seat_ok E" using E by (simp add: electorate_ok_def)
  then show ?thesis
    using choice_weight_nonneg [OF E, of B] participating_le_eligible [OF E B] spec_eligible_le [of E]
    by (simp add: t tally_spec_def Let_def)
qed

definition wit_seat :: "string \<Rightarrow> int \<Rightarrow> bool \<Rightarrow> ElectorSeat" where
  "wit_seat m w ch = \<lparr>es_memberId = lit m, es_role = voting_member, es_weight = w,
     es_eligible = True, es_recused = False, es_chair = ch\<rparr>"

definition wit_ballot :: "string \<Rightarrow> string \<Rightarrow> BallotChoice \<Rightarrow> EffectiveBallot" where
  "wit_ballot m c ch = \<lparr>eb_principalMemberId = lit m, eb_casterMemberId = lit c, eb_choice = ch,
     eb_source = (if m = c then own_ballot else proxy_ballot)\<rparr>"

definition wit_electorate :: "ElectorSeat list" where
  "wit_electorate = [wit_seat ''a'' 5 True, wit_seat ''b'' 2 False, wit_seat ''c'' 1 False]"

definition wit_rule :: ApprovalRule where
  "wit_rule = \<lparr>ar_approval = \<lparr>numerator = 1, denominator = 2\<rparr>,
     ar_quorum = \<lparr>numerator = 1, denominator = 2\<rparr>, ar_approvalDenominator = participating_weight,
     ar_abstentionsCountForQuorum = True, ar_tieBehavior = reject_tie\<rparr>"

definition wit_tally :: VoteTally where
  "wit_tally = \<lparr>vt_eligibleWeight = 8, vt_participatingWeight = 8, vt_yesWeight = 5,
     vt_noWeight = 2, vt_abstainWeight = 1, vt_quorumMet = True, vt_approvalMet = True,
     vt_outcome = approved\<rparr>"

abbreviation "wit_ballots \<equiv>
  [wit_ballot ''a'' ''b'' Yes, wit_ballot ''b'' ''b'' No, wit_ballot ''c'' ''c'' Abstain]"

lemma wit_tallyVote: "tallyVote wit_electorate wit_ballots wit_rule = Inr wit_tally"
  by code_simp

theorem tallyVote_bounds_witness:
  "vt_participatingWeight wit_tally \<le> vt_eligibleWeight wit_tally \<and>
   vt_eligibleWeight wit_tally \<le> MAX_VOTING_WEIGHT * int (length wit_electorate)"
  using tallyVote_bounds [OF wit_tallyVote] by blast

text \<open>The tally does not depend on the order in which the seats or the ballots
  are presented, neither in success nor in its value.\<close>

theorem tallyVote_order_irrelevant:
  assumes "mset E' = mset E" and "mset B' = mset B"
  shows "tallyVote E' B' R = Inr t \<longleftrightarrow> tallyVote E B R = Inr t"
  unfolding tallyVote_Inr_iff tally_spec_perm [OF assms]
  using assms by (metis electorate_ok_perm ballots_ok_perm)

theorem tallyVote_order_irrelevant_witness:
  "tallyVote (rev wit_electorate) (rev wit_ballots) wit_rule = Inr wit_tally"
  using tallyVote_order_irrelevant
      [of "rev wit_electorate" wit_electorate "rev wit_ballots" wit_ballots wit_rule wit_tally]
    wit_tallyVote
  by simp

text \<open>Property C19: a vote can only help. When ties are rejected and the approval fraction is at
  least one half, changing one ballot of an approved vote from no to yes leaves the tally
  valid and the vote approved, whatever the approval denominator.\<close>

theorem yes_vote_never_hurts:
  assumes "tallyVote E (B1 @ b # B2) R = Inr t" and "vt_outcome t = approved"
    and "eb_choice b = No" and "ar_tieBehavior R = reject_tie"
    and "0 < denominator (ar_approval R)" and "denominator (ar_approval R) \<le> 2 * numerator (ar_approval R)"
  shows "\<exists>t'. tallyVote E (B1 @ b\<lparr>eb_choice := Yes\<rparr> # B2) R = Inr t' \<and> vt_outcome t' = approved"
proof -
  let ?B = "B1 @ b # B2" and ?B' = "B1 @ b\<lparr>eb_choice := Yes\<rparr> # B2" and ?f = "ar_approval R"
  let ?w = "choice_weight E (B1 @ B2)" and ?el = "spec_eligible E"
  have E: "electorate_ok E" and B: "ballots_ok E ?B" and t: "t = tally_spec E ?B R"
    using assms(1) by (simp_all add: tallyVote_Inr_iff)
  have B': "ballots_ok E ?B'" using B by (simp only: ballots_ok_change_choice)
  obtain s where s: "s \<in> set E" "es_memberId s = eb_principalMemberId b"
    using B by (auto simp: ballots_ok_def ballot_ok_def eligible_member_def)
  then have w: "0 \<le> es_weight s" using E by (simp add: electorate_ok_def list_all_iff seat_weight_nonneg)
  have c: "choice_weight E ?B Yes = ?w Yes" "choice_weight E ?B No = es_weight s + ?w No"
      "choice_weight E ?B Abstain = ?w Abstain"
    by (simp_all add: choice_weight_move [OF E B s] assms(3))
  have c': "choice_weight E ?B' Yes = es_weight s + ?w Yes" "choice_weight E ?B' No = ?w No"
      "choice_weight E ?B' Abstain = ?w Abstain"
    using choice_weight_move [OF E B' s(1)] s(2) by simp_all
  note nn = choice_weight_nonneg [OF E, of "B1 @ B2"]
  define tot where "tot = approval_total (ar_approvalDenominator R) ?el (?w Yes) (es_weight s + ?w No) (?w Abstain)"
  have tot: "?w Yes + (es_weight s + ?w No) \<le> tot"
    using participating_le_eligible [OF E B] nn [of Abstain]
    by (simp add: tot_def approval_total_def c split: ApprovalDenominator.split)
  have total_sym: "approval_total d el (?w Yes) (es_weight s + ?w No) a =
      approval_total d el (es_weight s + ?w Yes) (?w No) a" for d el a
    by (simp add: approval_total_def ac_simps split: ApprovalDenominator.split)
  have q: "vt_quorumMet (tally_spec E ?B' R) = vt_quorumMet t"
    unfolding t tally_spec_quorumMet by (simp only: c c' ac_simps)
  have ap: "?w Yes \<noteq> es_weight s + ?w No" "tot * numerator ?f \<le> ?w Yes * denominator ?f"
    using assms(2,4) unfolding t approved_iff
    by (auto simp: tally_spec_approvalMet c at_least_def tot_def split: if_splits)
  have "es_weight s + ?w No \<le> ?w Yes"
    using half_yes_ge_no [OF assms(5,6) tot _ ap(2)] nn w by (simp add: add_nonneg_nonneg)
  with ap(1) w have ne: "es_weight s + ?w Yes \<noteq> ?w No" by linarith
  have "tot * numerator ?f \<le> (es_weight s + ?w Yes) * denominator ?f"
    using ap(2) w assms(5) by (simp add: distrib_right add_increasing)
  then have "vt_approvalMet (tally_spec E ?B' R)"
    using ne unfolding tally_spec_approvalMet c' at_least_def tot_def total_sym by simp
  with q assms(2) have "vt_outcome (tally_spec E ?B' R) = approved"
    unfolding t by (simp add: approved_iff)
  then show ?thesis using tallyVote_ok [OF E B'] by blast
qed

theorem yes_vote_never_hurts_witness:
  "\<exists>t'. tallyVote wit_electorate
     ([wit_ballot ''a'' ''b'' Yes] @ (wit_ballot ''b'' ''b'' No)\<lparr>eb_choice := Yes\<rparr> #
       [wit_ballot ''c'' ''c'' Abstain]) wit_rule = Inr t' \<and> vt_outcome t' = approved"
  by (rule yes_vote_never_hurts [of _ _ _ _ _ wit_tally])
    (simp_all only: append.simps wit_tallyVote, simp_all add: wit_tally_def wit_ballot_def wit_rule_def)

text \<open>Property C21: supersession over a whole sequence of casts for one principal. Under
  \<open>first_ballot_final\<close> the first cast stays active; under
  \<open>principal_supersedes_proxy\<close> the last ballot the principal casts itself is active, and if
  there is none, the first cast. A proxy never displaces an active ballot.\<close>

theorem active_ballot_after_casts:
  assumes "\<forall>b\<in>set (c # bs). eb_principalMemberId b = m"
  shows "active_ballot first_ballot_final None (c # bs) = Some c \<and>
     active_ballot principal_supersedes_proxy None (c # bs) =
       Some (last (c # filter (\<lambda>b. eb_source b = own_ballot) bs))"
  using assms active_ballot_supersede [of bs m c]
  by (simp add: chooseEffectiveBallot_def active_ballot_final)

theorem active_ballot_after_casts_witness:
  "active_ballot principal_supersedes_proxy None
     [wit_ballot ''a'' ''b'' Yes, wit_ballot ''a'' ''a'' No, wit_ballot ''a'' ''c'' Yes] =
   Some (wit_ballot ''a'' ''a'' No)"
  using active_ballot_after_casts [of "wit_ballot ''a'' ''b'' Yes"
      "[wit_ballot ''a'' ''a'' No, wit_ballot ''a'' ''c'' Yes]" "lit ''a''"]
  by (simp add: wit_ballot_def)

end
