(* ===== verification/Consent_Hash.thy ===== *)
theory Consent_Hash
  imports Canonical Voting
begin

text \<open>
  What the program expects of its consent and evidence hashes, stated once as a locale: a hash
  function validates a request and returns the canonical digest of a record that determines
  the request. Then two requests with the same hash are equal, or their canonical records
  are a SHA-256 collision. Two kinds of request carry different schema versions, so a hash
  of one kind is never silently a hash of another.
\<close>

section \<open>Fields of an object\<close>

abbreviation jstr :: "string \<Rightarrow> json" where
  "jstr s \<equiv> JStr (lit s)"

definition nullable :: "('a \<Rightarrow> json) \<Rightarrow> 'a option \<Rightarrow> json" where
  "nullable f x = (case x of None \<Rightarrow> JNull | Some y \<Rightarrow> f y)"

lemma nullable_simps [simp]: "nullable f None = JNull" "nullable f (Some x) = f x"
  by (simp_all add: nullable_def)

fun jfield :: "jstring \<Rightarrow> json \<Rightarrow> json option" where
  "jfield k (JObj es) = map_of es k"
| "jfield k _ = None"

lemma map_of_values:
  assumes "map fst xs = map fst ys" and "distinct (map fst xs)" and "map_of xs = map_of ys"
  shows "xs = ys"
  using assms
proof (induction xs arbitrary: ys)
  case (Cons x xs)
  then obtain y ys' where ys: "ys = y # ys'" by (cases ys) auto
  have f: "fst x = fst y" and fs: "map fst xs = map fst ys'" using Cons.prems(1) ys by auto
  have "map_of (x # xs) (fst x) = map_of ys (fst x)" using Cons.prems(3) by (rule fun_cong)
  with f ys have s: "snd x = snd y" by (cases x; cases y) simp
  have "map_of xs k = map_of ys' k" for k
  proof (cases "k = fst x")
    case True
    have "k \<notin> set (map fst xs)" using Cons.prems(2) True by simp
    moreover from this have "k \<notin> set (map fst ys')" by (simp only: fs not_False_eq_True)
    ultimately have "map_of xs k = None" "map_of ys' k = None"
      by (simp_all only: map_of_eq_None_iff list.set_map not_False_eq_True)
    then show ?thesis by simp
  next
    case False
    then show ?thesis using fun_cong [OF Cons.prems(3), of k] ys f by (cases x; cases y) auto
  qed
  then have "xs = ys'" using Cons.IH [OF fs] Cons.prems(2) by auto
  with f s ys show ?case by (cases x; cases y) auto
qed simp

lemma jval_obj_eq:
  assumes "map fst es = map fst fs" and "distinct (map fst es)"
  shows "jval_of (JObj es) = jval_of (JObj fs) \<longleftrightarrow> map (\<lambda>e. jval_of (snd e)) es = map (\<lambda>e. jval_of (snd e)) fs"
proof
  let ?A = "\<lambda>(k :: jstring, x). (k, jval_of x)"
  assume "jval_of (JObj es) = jval_of (JObj fs)"
  then have "map ?A es = map ?A fs"
    using assms by (intro map_of_values) (simp_all only: map_fst_pairs jval_of.simps jval.inject)
  then have "map snd (map ?A es) = map snd (map ?A fs)" by (rule arg_cong)
  then show "map (\<lambda>e. jval_of (snd e)) es = map (\<lambda>e. jval_of (snd e)) fs"
    by (simp add: comp_def split_def)
next
  assume a: "map (\<lambda>e. jval_of (snd e)) es = map (\<lambda>e. jval_of (snd e)) fs"
  have z: "map (\<lambda>(k :: jstring, x). (k, jval_of x)) zs = zip (map fst zs) (map (\<lambda>e. jval_of (snd e)) zs)" for zs
    by (induction zs) auto
  show "jval_of (JObj es) = jval_of (JObj fs)"
    by (simp only: jval_of.simps z assms(1) a)
qed

lemma not_index_name [simp]: "\<not> is_digit c \<Longrightarrow> \<not> integer_index (c # k)"
  by (simp add: integer_index_def)

lemma letter_not_digit [simp]: "is_digit c \<longleftrightarrow> 0x30 \<le> unat c \<and> unat c \<le> 0x39"
  by (rule digit_bounds)

section \<open>Hashes that bind their request\<close>

locale binding_hash =
  fixes hash :: "platform \<Rightarrow> 'a \<Rightarrow> jstring result" and body :: "'a \<Rightarrow> json"
  assumes hash_canonical: "hash pl x = Inr h \<Longrightarrow> canonicalSha256 pl (body x) = Inr h"
    and body_json: "hash pl x = Inr h \<Longrightarrow> js_json (body x) \<and> index_free (body x)"
    and body_inj: "hash pl x = Inr h \<Longrightarrow> hash pl y = Inr h \<Longrightarrow>
      jval_of (body x) = jval_of (body y) \<Longrightarrow> x = y"
begin

lemma hash_binds:
  assumes "hash pl x = Inr h" and "hash pl y = Inr h"
  shows "x = y \<or> sha256_collision (canonical_bytes (body x)) (canonical_bytes (body y))"
  using canonicalSha256_binding [of "body x" "body y" pl h] body_json [OF assms(1)] body_json [OF assms(2)]
    hash_canonical [OF assms(1)] hash_canonical [OF assms(2)] body_inj [OF assms]
  by blast

lemma hash_is_digest: "hash pl x = Inr h \<Longrightarrow> Sha256HexSchema h"
  using hash_canonical [of pl x h]
  by (auto simp: canonicalSha256_def bindr_eq_Inr_iff sha256Hex_schema)

end

locale tagged_hash = binding_hash +
  fixes tag :: jstring
  assumes body_tag: "jfield (lit ''schemaVersion'') (body x) = Some (JStr tag)"

lemma jfield_jval: "jfield k v = Some a \<Longrightarrow> jval_of v = jval_of w \<Longrightarrow> \<exists>b. jfield k w = Some b \<and> jval_of a = jval_of b"
proof -
  have m: "map_of (map (\<lambda>(k, x). (k, jval_of x)) es) k = map_option jval_of (map_of es k)" for es
    by (induction es) auto
  assume a: "jfield k v = Some a" "jval_of v = jval_of w"
  then obtain es where v: "v = JObj es" by (cases v) auto
  with a obtain fs where w: "w = JObj fs" by (cases w) auto
  from a(2) have "map_of (map (\<lambda>(k, x). (k, jval_of x)) es) k = map_of (map (\<lambda>(k, x). (k, jval_of x)) fs) k"
    by (simp add: v w)
  then have "map_option jval_of (map_of es k) = map_option jval_of (map_of fs k)"
    by (simp only: m)
  with a v w show ?thesis by (cases "map_of fs k") auto
qed

lemma tagged_hashes_apart:
  assumes "tagged_hash hash1 body1 tag1" and "tagged_hash hash2 body2 tag2" and "tag1 \<noteq> tag2"
    and "hash1 pl x = Inr h" and "hash2 pl y = Inr h"
  shows "sha256_collision (canonical_bytes (body1 x)) (canonical_bytes (body2 y))"
proof -
  note b1 = tagged_hash.axioms(1) [OF assms(1)] and b2 = tagged_hash.axioms(1) [OF assms(2)]
  have "jval_of (body1 x) \<noteq> jval_of (body2 y)"
    using jfield_jval [OF tagged_hash.body_tag [OF assms(1)], of x "body2 y"]
      tagged_hash.body_tag [OF assms(2), of y] assms(3)
    by auto
  then show ?thesis
    using canonicalSha256_binding [of "body1 x" "body2 y" pl h]
      binding_hash.body_json [OF b1 assms(4)] binding_hash.body_json [OF b2 assms(5)]
      binding_hash.hash_canonical [OF b1 assms(4)] binding_hash.hash_canonical [OF b2 assms(5)]
    by blast
qed

end
