(* ===== verification/Voting_Consent.thy ===== *)
theory Voting_Consent
  imports Consent_Hash
begin

text \<open>
  The consent and evidence hashes of \<^verbatim>\<open>lib/domain/src/voting.ts\<close>, one record per input,
  each function with its validations in the order of the source. An enumeration the source
  checks at run time is a datatype here, so that check cannot fail. Every hash is an instance
  of \<open>tagged_hash\<close>.
\<close>

section \<open>Texts\<close>

text \<open>The white space and line terminators that \<open>String.trim\<close> removes.\<close>

definition js_space :: "16 word \<Rightarrow> bool" where
  "js_space u \<longleftrightarrow>
     (0x09 \<le> u \<and> u \<le> 0x0D) \<or> u \<in> set [0x20, 0xA0, 0x1680, 0x2028, 0x2029, 0x202F, 0x205F, 0x3000, 0xFEFF] \<or>
     (0x2000 \<le> u \<and> u \<le> 0x200A)"

definition js_trim :: "jstring \<Rightarrow> jstring" where
  "js_trim s = rev (dropWhile js_space (rev (dropWhile js_space s)))"

abbreviation parse_id :: "jstring \<Rightarrow> jstring result" where
  "parse_id \<equiv> zparse UuidV7Schema"

abbreviation parse_sha :: "jstring \<Rightarrow> jstring result" where
  "parse_sha \<equiv> zparse Sha256HexSchema"

definition parse_nullable :: "('a \<Rightarrow> 'a result) \<Rightarrow> 'a option \<Rightarrow> 'a option result" where
  "parse_nullable p x = (case x of None \<Rightarrow> Inr None | Some y \<Rightarrow> bindr (p y) (\<lambda>z. Inr (Some z)))"

definition canonical_string :: "platform \<Rightarrow> jstring \<Rightarrow> jstring result" where
  "canonical_string pl s = canonicalText pl (Text s)"

lemma canonical_string_id: "canonical_string pl s = Inr t \<Longrightarrow> t = s"
  by (auto simp: canonical_string_def canonicalText_def bindr_eq_Inr_iff split: if_splits)

lemma parse_nullable_Inr [simp]:
  "parse_nullable (zparse P) x = Inr y \<longleftrightarrow> (\<forall>z. x = Some z \<longrightarrow> P z) \<and> y = x"
  by (cases x) (auto simp: parse_nullable_def bindr_eq_Inr_iff)

section \<open>Rule overrides\<close>

record RuleSelectionCitation =
  rc_ruleId :: jstring
  rc_sourceDocumentVersionId :: jstring
  rc_sourceDocumentSha256 :: jstring
  rc_clause :: jstring
  rc_locator :: jstring

record RuleOverrideSelectionInput =
  ro_evaluationId :: jstring
  ro_evaluationResultSha256 :: jstring
  ro_wizardDraftId :: jstring
  ro_finalVoteId :: jstring
  ro_recommendedRuleId :: "jstring option"
  ro_selectedRuleId :: jstring
  ro_selectedRuleSha256 :: jstring
  ro_reason :: jstring
  ro_citations :: "RuleSelectionCitation list"

definition canonical_citation :: "platform \<Rightarrow> RuleSelectionCitation \<Rightarrow> RuleSelectionCitation result" where
  "canonical_citation pl c =
     bindr (parse_id (rc_ruleId c)) (\<lambda>ruleId.
     bindr (parse_id (rc_sourceDocumentVersionId c)) (\<lambda>versionId.
     bindr (parse_sha (rc_sourceDocumentSha256 c)) (\<lambda>sha.
     bindr (canonical_string pl (rc_clause c)) (\<lambda>clause.
     bindr (canonical_string pl (rc_locator c)) (\<lambda>locator.
     Inr \<lparr>rc_ruleId = ruleId, rc_sourceDocumentVersionId = versionId, rc_sourceDocumentSha256 = sha,
          rc_clause = clause, rc_locator = locator\<rparr>)))))"

definition citation_out_of_bounds :: "RuleSelectionCitation \<Rightarrow> bool" where
  "citation_out_of_bounds c \<longleftrightarrow>
     length (rc_clause c) < 1 \<or> 512 < length (rc_clause c) \<or>
     length (rc_locator c) < 1 \<or> 1024 < length (rc_locator c)"

definition canonicalRuleOverrideSelection ::
    "platform \<Rightarrow> RuleOverrideSelectionInput \<Rightarrow> RuleOverrideSelectionInput result" where
  "canonicalRuleOverrideSelection pl input =
     bindr (canonical_string pl (ro_reason input)) (\<lambda>reason.
     if length (js_trim reason) < 1 \<or> 65536 < length reason
       then throw (RangeError ''rule-override reason must contain 1 through 65536 characters'')
     else
     bindr (mapr (canonical_citation pl) (ro_citations input)) (\<lambda>citations.
     if length citations < 1 \<or> list_ex citation_out_of_bounds citations
       then throw (RangeError ''rule override requires bounded exact citations'')
     else
     bindr (parse_id (ro_evaluationId input)) (\<lambda>evaluationId.
     bindr (parse_sha (ro_evaluationResultSha256 input)) (\<lambda>evaluationResultSha256.
     bindr (parse_id (ro_wizardDraftId input)) (\<lambda>wizardDraftId.
     bindr (parse_id (ro_finalVoteId input)) (\<lambda>finalVoteId.
     bindr (parse_nullable parse_id (ro_recommendedRuleId input)) (\<lambda>recommendedRuleId.
     bindr (parse_id (ro_selectedRuleId input)) (\<lambda>selectedRuleId.
     bindr (parse_sha (ro_selectedRuleSha256 input)) (\<lambda>selectedRuleSha256.
     Inr \<lparr>ro_evaluationId = evaluationId, ro_evaluationResultSha256 = evaluationResultSha256,
          ro_wizardDraftId = wizardDraftId, ro_finalVoteId = finalVoteId,
          ro_recommendedRuleId = recommendedRuleId, ro_selectedRuleId = selectedRuleId,
          ro_selectedRuleSha256 = selectedRuleSha256, ro_reason = reason, ro_citations = citations\<rparr>)))))))))"

definition citation_json :: "RuleSelectionCitation \<Rightarrow> json" where
  "citation_json c = JObj
     [(lit ''ruleId'', JStr (rc_ruleId c)),
      (lit ''sourceDocumentVersionId'', JStr (rc_sourceDocumentVersionId c)),
      (lit ''sourceDocumentSha256'', JStr (rc_sourceDocumentSha256 c)),
      (lit ''clause'', JStr (rc_clause c)),
      (lit ''locator'', JStr (rc_locator c))]"

definition selection_fields :: "RuleOverrideSelectionInput \<Rightarrow> (jstring \<times> json) list" where
  "selection_fields s =
     [(lit ''evaluationId'', JStr (ro_evaluationId s)),
      (lit ''evaluationResultSha256'', JStr (ro_evaluationResultSha256 s)),
      (lit ''wizardDraftId'', JStr (ro_wizardDraftId s)),
      (lit ''finalVoteId'', JStr (ro_finalVoteId s)),
      (lit ''recommendedRuleId'', nullable JStr (ro_recommendedRuleId s)),
      (lit ''selectedRuleId'', JStr (ro_selectedRuleId s)),
      (lit ''selectedRuleSha256'', JStr (ro_selectedRuleSha256 s)),
      (lit ''reason'', JStr (ro_reason s)),
      (lit ''citations'', JArr (map citation_json (ro_citations s)))]"

text \<open>The hashed records take the validated selection, which is the input itself.\<close>

definition rule_override_consent_body :: "RuleOverrideSelectionInput \<times> jstring \<Rightarrow> json" where
  "rule_override_consent_body = (\<lambda>(input, packageSha256). JObj
     ((lit ''schemaVersion'', jstr ''boardagent.rule-override-consent.v1'') # selection_fields input @
      [(lit ''packageSha256'', JStr packageSha256)]))"

definition ruleOverrideConsentHash :: "platform \<Rightarrow> RuleOverrideSelectionInput \<times> jstring \<Rightarrow> jstring result" where
  "ruleOverrideConsentHash pl = (\<lambda>(input, packageSha256).
     bindr (canonicalRuleOverrideSelection pl input) (\<lambda>selection.
     bindr (parse_sha packageSha256) (\<lambda>sha.
     canonicalSha256 pl (rule_override_consent_body (selection, sha)))))"

definition rule_override_evidence_body :: "RuleOverrideSelectionInput \<times> jstring \<times> jstring \<Rightarrow> json" where
  "rule_override_evidence_body = (\<lambda>(input, consentRecordId, auditEventId). JObj
     ((lit ''schemaVersion'', jstr ''boardagent.rule-override-evidence.v1'') # selection_fields input @
      [(lit ''consentRecordId'', JStr consentRecordId), (lit ''auditEventId'', JStr auditEventId)]))"

definition ruleOverrideEvidenceHash ::
    "platform \<Rightarrow> RuleOverrideSelectionInput \<times> jstring \<times> jstring \<Rightarrow> jstring result" where
  "ruleOverrideEvidenceHash pl = (\<lambda>(input, consentRecordId, auditEventId).
     bindr (canonicalRuleOverrideSelection pl input) (\<lambda>selection.
     bindr (parse_id consentRecordId) (\<lambda>cid.
     bindr (parse_id auditEventId) (\<lambda>aid.
     canonicalSha256 pl (rule_override_evidence_body (selection, cid, aid))))))"

section \<open>Source exclusions\<close>

datatype SourceClass = management_submission | document_source | question_cutoff

fun sourceClass_name :: "SourceClass \<Rightarrow> jstring" where
  "sourceClass_name management_submission = lit ''management_submission''"
| "sourceClass_name document_source = lit ''document''"
| "sourceClass_name question_cutoff = lit ''question_cutoff''"

record SourceExclusionInput =
  sx_voteId :: jstring
  sx_causeId :: jstring
  sx_sourceClass :: SourceClass
  sx_sourceId :: jstring
  sx_sourceVersion :: jsnum
  sx_sourceSha256 :: jstring
  sx_reason :: jstring
  sx_packageSha256 :: jstring

text \<open>\<open>Number.isSafeInteger\<close>, with the integer.\<close>

fun safe_integer :: "jsnum \<Rightarrow> int option" where
  "safe_integer (Fin q) = (if q \<in> \<int> \<and> isSafeInteger \<lfloor>q\<rfloor> then Some \<lfloor>q\<rfloor> else None)"
| "safe_integer _ = None"

definition source_exclusion_body :: "SourceExclusionInput \<Rightarrow> json" where
  "source_exclusion_body i = JObj
     [(lit ''schemaVersion'', jstr ''boardagent.vote-source-exclusion-consent.v1''),
      (lit ''voteId'', JStr (sx_voteId i)),
      (lit ''causeId'', JStr (sx_causeId i)),
      (lit ''sourceClass'', JStr (sourceClass_name (sx_sourceClass i))),
      (lit ''sourceId'', JStr (sx_sourceId i)),
      (lit ''sourceVersion'', JNum (case safe_integer (sx_sourceVersion i) of Some n \<Rightarrow> n | None \<Rightarrow> 0)),
      (lit ''sourceSha256'', JStr (sx_sourceSha256 i)),
      (lit ''reason'', JStr (sx_reason i)),
      (lit ''packageSha256'', JStr (sx_packageSha256 i))]"

definition voteSourceExclusionConsentHash :: "platform \<Rightarrow> SourceExclusionInput \<Rightarrow> jstring result" where
  "voteSourceExclusionConsentHash pl input =
     bindr (canonical_string pl (sx_reason input)) (\<lambda>reason.
     if length (js_trim reason) < 1 \<or> 65536 < length reason
       then throw (RangeError ''source-exclusion reason must contain 1 through 65536 characters'')
     else case safe_integer (sx_sourceVersion input) of
         None \<Rightarrow> throw (RangeError ''source-exclusion version must be a positive safe integer'')
       | Some version \<Rightarrow>
     if version < 1
       then throw (RangeError ''source-exclusion version must be a positive safe integer'')
     else
     bindr (parse_id (sx_voteId input)) (\<lambda>voteId.
     bindr (parse_id (sx_causeId input)) (\<lambda>causeId.
     bindr (parse_id (sx_sourceId input)) (\<lambda>sourceId.
     bindr (parse_sha (sx_sourceSha256 input)) (\<lambda>sourceSha256.
     bindr (parse_sha (sx_packageSha256 input)) (\<lambda>packageSha256.
     canonicalSha256 pl (source_exclusion_body (input\<lparr>sx_voteId := voteId, sx_causeId := causeId,
       sx_sourceId := sourceId, sx_sourceSha256 := sourceSha256, sx_reason := reason,
       sx_packageSha256 := packageSha256\<rparr>))))))))"

section \<open>Recusals\<close>

datatype RecusalState = excluded_state | lifted_state

fun recusalState_name :: "RecusalState \<Rightarrow> jstring" where
  "recusalState_name excluded_state = lit ''excluded''"
| "recusalState_name lifted_state = lit ''lifted''"

record VoteRecusalInput =
  vr_voteId :: jstring
  vr_memberId :: jstring
  vr_state :: RecusalState
  vr_reason :: jstring
  vr_packageSha256 :: jstring

definition vote_recusal_body :: "VoteRecusalInput \<Rightarrow> json" where
  "vote_recusal_body i = JObj
     [(lit ''schemaVersion'', jstr ''boardagent.vote-recusal-consent.v1''),
      (lit ''voteId'', JStr (vr_voteId i)),
      (lit ''memberId'', JStr (vr_memberId i)),
      (lit ''state'', JStr (recusalState_name (vr_state i))),
      (lit ''reason'', JStr (vr_reason i)),
      (lit ''packageSha256'', JStr (vr_packageSha256 i))]"

definition voteRecusalConsentHash :: "platform \<Rightarrow> VoteRecusalInput \<Rightarrow> jstring result" where
  "voteRecusalConsentHash pl input =
     bindr (parse_id (vr_voteId input)) (\<lambda>voteId.
     bindr (parse_id (vr_memberId input)) (\<lambda>memberId.
     bindr (parse_sha (vr_packageSha256 input)) (\<lambda>packageSha256.
     canonicalSha256 pl (vote_recusal_body (input\<lparr>vr_voteId := voteId, vr_memberId := memberId,
       vr_packageSha256 := packageSha256\<rparr>)))))"

section \<open>Proxies\<close>

fun supersession_name :: "PrincipalSupersessionRule \<Rightarrow> jstring" where
  "supersession_name principal_supersedes_proxy = lit ''principal_supersedes_proxy''"
| "supersession_name first_ballot_final = lit ''first_ballot_final''"

record ProxyGrantInput =
  pg_voteId :: jstring
  pg_principalMemberId :: jstring
  pg_holderMemberId :: jstring
  pg_policy :: PrincipalSupersessionRule
  pg_expiresAt :: "jstring option"
  pg_packageSha256 :: jstring

definition proxy_grant_body :: "ProxyGrantInput \<Rightarrow> json" where
  "proxy_grant_body i = JObj
     [(lit ''schemaVersion'', jstr ''boardagent.proxy-grant-consent.v1''),
      (lit ''voteId'', JStr (pg_voteId i)),
      (lit ''principalMemberId'', JStr (pg_principalMemberId i)),
      (lit ''holderMemberId'', JStr (pg_holderMemberId i)),
      (lit ''policy'', JStr (supersession_name (pg_policy i))),
      (lit ''expiresAt'', nullable JStr (pg_expiresAt i)),
      (lit ''packageSha256'', JStr (pg_packageSha256 i))]"

definition proxyGrantConsentHash :: "platform \<Rightarrow> ProxyGrantInput \<Rightarrow> jstring result" where
  "proxyGrantConsentHash pl input =
     bindr (parse_id (pg_principalMemberId input)) (\<lambda>principalMemberId.
     bindr (parse_id (pg_holderMemberId input)) (\<lambda>holderMemberId.
     if principalMemberId = holderMemberId then throw (Error ''proxy holder must differ from principal'')
     else
     bindr (parse_id (pg_voteId input)) (\<lambda>voteId.
     bindr (parse_nullable (zparse Rfc3339UtcSchema) (pg_expiresAt input)) (\<lambda>expiresAt.
     bindr (parse_sha (pg_packageSha256 input)) (\<lambda>packageSha256.
     canonicalSha256 pl (proxy_grant_body (input\<lparr>pg_voteId := voteId,
       pg_principalMemberId := principalMemberId, pg_holderMemberId := holderMemberId,
       pg_expiresAt := expiresAt, pg_packageSha256 := packageSha256\<rparr>)))))))"

record ProxyRevokeInput =
  px_voteId :: jstring
  px_proxyGrantId :: jstring
  px_principalMemberId :: jstring
  px_reason :: jstring
  px_packageSha256 :: jstring

definition proxy_revoke_body :: "ProxyRevokeInput \<Rightarrow> json" where
  "proxy_revoke_body i = JObj
     [(lit ''schemaVersion'', jstr ''boardagent.proxy-revoke-consent.v1''),
      (lit ''voteId'', JStr (px_voteId i)),
      (lit ''proxyGrantId'', JStr (px_proxyGrantId i)),
      (lit ''principalMemberId'', JStr (px_principalMemberId i)),
      (lit ''reason'', JStr (px_reason i)),
      (lit ''packageSha256'', JStr (px_packageSha256 i))]"

definition proxyRevokeConsentHash :: "platform \<Rightarrow> ProxyRevokeInput \<Rightarrow> jstring result" where
  "proxyRevokeConsentHash pl input =
     bindr (canonical_string pl (px_reason input)) (\<lambda>reason.
     if length reason < 1 \<or> 65536 < length reason
       then throw (RangeError ''proxy revocation reason must contain 1 through 65536 characters'')
     else
     bindr (parse_id (px_voteId input)) (\<lambda>voteId.
     bindr (parse_id (px_proxyGrantId input)) (\<lambda>proxyGrantId.
     bindr (parse_id (px_principalMemberId input)) (\<lambda>principalMemberId.
     bindr (parse_sha (px_packageSha256 input)) (\<lambda>packageSha256.
     canonicalSha256 pl (proxy_revoke_body (input\<lparr>px_voteId := voteId, px_proxyGrantId := proxyGrantId,
       px_principalMemberId := principalMemberId, px_reason := reason,
       px_packageSha256 := packageSha256\<rparr>)))))))"

section \<open>Ballots\<close>

fun choice_name :: "BallotChoice \<Rightarrow> jstring" where
  "choice_name Yes = lit ''yes''"
| "choice_name No = lit ''no''"
| "choice_name Abstain = lit ''abstain''"

record BallotInput =
  bi_voteId :: jstring
  bi_principalMemberId :: jstring
  bi_casterMemberId :: jstring
  bi_choice :: BallotChoice
  bi_statement :: "jstring option"
  bi_proxyGrantId :: "jstring option"
  bi_packageSha256 :: jstring

definition ballot_body :: "BallotInput \<Rightarrow> json" where
  "ballot_body i = JObj
     [(lit ''schemaVersion'', jstr ''boardagent.ballot-consent.v1''),
      (lit ''voteId'', JStr (bi_voteId i)),
      (lit ''principalMemberId'', JStr (bi_principalMemberId i)),
      (lit ''casterMemberId'', JStr (bi_casterMemberId i)),
      (lit ''choice'', JStr (choice_name (bi_choice i))),
      (lit ''statement'', nullable JStr (bi_statement i)),
      (lit ''proxyGrantId'', nullable JStr (bi_proxyGrantId i)),
      (lit ''packageSha256'', JStr (bi_packageSha256 i))]"

definition ballotConsentHash :: "platform \<Rightarrow> BallotInput \<Rightarrow> jstring result" where
  "ballotConsentHash pl input =
     bindr (parse_id (bi_principalMemberId input)) (\<lambda>principalMemberId.
     bindr (parse_id (bi_casterMemberId input)) (\<lambda>casterMemberId.
     bindr (parse_nullable (canonical_string pl) (bi_statement input)) (\<lambda>statement.
     if (case statement of None \<Rightarrow> False | Some t \<Rightarrow> 500 < length t)
       then throw (RangeError ''ballot statement must not exceed 500 characters'')
     else
     bindr (parse_nullable parse_id (bi_proxyGrantId input)) (\<lambda>proxyGrantId.
     if (principalMemberId = casterMemberId \<and> proxyGrantId \<noteq> None) \<or>
        (principalMemberId \<noteq> casterMemberId \<and> proxyGrantId = None)
       then throw (Error ''ballot attribution and proxy grant are inconsistent'')
     else
     bindr (parse_id (bi_voteId input)) (\<lambda>voteId.
     bindr (parse_sha (bi_packageSha256 input)) (\<lambda>packageSha256.
     canonicalSha256 pl (ballot_body (input\<lparr>bi_voteId := voteId, bi_principalMemberId := principalMemberId,
       bi_casterMemberId := casterMemberId, bi_statement := statement, bi_proxyGrantId := proxyGrantId,
       bi_packageSha256 := packageSha256\<rparr>))))))))"

section \<open>Closing\<close>

record VoteCloseInput =
  vc_voteId :: jstring
  vc_packageSha256 :: jstring
  vc_expectedTallySha256 :: jstring
  vc_outcomeId :: jstring
  vc_certificateId :: jstring
  vc_certificatePublicIdSha256 :: jstring
  vc_signingKeyId :: jstring

definition vote_close_body :: "VoteCloseInput \<Rightarrow> json" where
  "vote_close_body i = JObj
     [(lit ''schemaVersion'', jstr ''boardagent.vote-close-consent.v1''),
      (lit ''voteId'', JStr (vc_voteId i)),
      (lit ''packageSha256'', JStr (vc_packageSha256 i)),
      (lit ''expectedTallySha256'', JStr (vc_expectedTallySha256 i)),
      (lit ''outcomeId'', JStr (vc_outcomeId i)),
      (lit ''certificateId'', JStr (vc_certificateId i)),
      (lit ''certificatePublicIdSha256'', JStr (vc_certificatePublicIdSha256 i)),
      (lit ''signingKeyId'', JStr (vc_signingKeyId i))]"

definition voteCloseConsentHash :: "platform \<Rightarrow> VoteCloseInput \<Rightarrow> jstring result" where
  "voteCloseConsentHash pl input =
     bindr (parse_id (vc_voteId input)) (\<lambda>voteId.
     bindr (parse_sha (vc_packageSha256 input)) (\<lambda>packageSha256.
     bindr (parse_sha (vc_expectedTallySha256 input)) (\<lambda>expectedTallySha256.
     bindr (parse_id (vc_outcomeId input)) (\<lambda>outcomeId.
     bindr (parse_id (vc_certificateId input)) (\<lambda>certificateId.
     bindr (parse_sha (vc_certificatePublicIdSha256 input)) (\<lambda>certificatePublicIdSha256.
     bindr (parse_id (vc_signingKeyId input)) (\<lambda>signingKeyId.
     canonicalSha256 pl (vote_close_body \<lparr>vc_voteId = voteId, vc_packageSha256 = packageSha256,
       vc_expectedTallySha256 = expectedTallySha256, vc_outcomeId = outcomeId,
       vc_certificateId = certificateId, vc_certificatePublicIdSha256 = certificatePublicIdSha256,
       vc_signingKeyId = signingKeyId\<rparr>))))))))"

section \<open>Tallies\<close>

fun outcome_name :: "VoteOutcome \<Rightarrow> jstring" where
  "outcome_name approved = lit ''approved''"
| "outcome_name rejected = lit ''rejected''"
| "outcome_name no_quorum = lit ''no_quorum''"

definition canonicalVoteTally :: "VoteTally \<Rightarrow> json" where
  "canonicalVoteTally t = JObj
     [(lit ''schemaVersion'', jstr ''boardagent.vote-tally.v1''),
      (lit ''eligibleWeight'', JStr (dec_int (vt_eligibleWeight t))),
      (lit ''participatingWeight'', JStr (dec_int (vt_participatingWeight t))),
      (lit ''yesWeight'', JStr (dec_int (vt_yesWeight t))),
      (lit ''noWeight'', JStr (dec_int (vt_noWeight t))),
      (lit ''abstainWeight'', JStr (dec_int (vt_abstainWeight t))),
      (lit ''quorumMet'', JBool (vt_quorumMet t)),
      (lit ''approvalMet'', JBool (vt_approvalMet t)),
      (lit ''outcome'', JStr (outcome_name (vt_outcome t)))]"

definition voteTallySha256 :: "platform \<Rightarrow> VoteTally \<Rightarrow> jstring result" where
  "voteTallySha256 pl tally = canonicalSha256 pl (canonicalVoteTally tally)"

section \<open>Every hash determines its request\<close>

lemma name_inj:
  "sourceClass_name a = sourceClass_name b \<longleftrightarrow> a = b"
  "recusalState_name r = recusalState_name t \<longleftrightarrow> r = t"
  "supersession_name p = supersession_name q \<longleftrightarrow> p = q"
  "choice_name c = choice_name d \<longleftrightarrow> c = d"
  "outcome_name u = outcome_name v \<longleftrightarrow> u = v"
proof -
  show "sourceClass_name a = sourceClass_name b \<longleftrightarrow> a = b" by (cases a; cases b) auto
  show "recusalState_name r = recusalState_name t \<longleftrightarrow> r = t" by (cases r; cases t) auto
  show "supersession_name p = supersession_name q \<longleftrightarrow> p = q" by (cases p; cases q) auto
  show "choice_name c = choice_name d \<longleftrightarrow> c = d" by (cases c; cases d) auto
  show "outcome_name u = outcome_name v \<longleftrightarrow> u = v" by (cases u; cases v) auto
qed

lemma dec_nat_inj: "dec_nat m = dec_nat n \<longleftrightarrow> m = n"
  by (metis dec_val_dec_nat)

lemma dec_int_inj: "dec_int i = dec_int j \<longleftrightarrow> i = j"
proof -
  have "dec_nat n \<noteq> 0x2D # s" "0x2D # s \<noteq> dec_nat n" for n s
    using dec_nat_digits [of n] by (cases "dec_nat n"; auto dest: digit_not_minus)+
  then show ?thesis by (auto simp: dec_int_def dec_nat_inj)
qed

lemma nullable_jval_inj:
  "jval_of (nullable JStr x) = jval_of (nullable JStr y) \<longleftrightarrow> x = y"
  by (cases x; cases y) auto

lemma nullable_json [simp]:
  "js_json (nullable JStr x)" "index_free (nullable JStr x)"
  by (cases x; simp)+

lemma parse_nullable_canonical: "parse_nullable (canonical_string pl) x = Inr y \<Longrightarrow> y = x"
  by (cases x) (auto simp: parse_nullable_def bindr_eq_Inr_iff dest: canonical_string_id)

lemma canonical_citation_id: "canonical_citation pl c = Inr d \<Longrightarrow> d = c"
  by (auto simp: canonical_citation_def bindr_eq_Inr_iff dest!: canonical_string_id)

lemma mapr_id: "(\<And>x y. f x = Inr y \<Longrightarrow> y = x) \<Longrightarrow> mapr f xs = Inr ys \<Longrightarrow> ys = xs"
  by (induction xs arbitrary: ys) (auto simp: bindr_eq_Inr_iff)

lemma citations_id: "mapr (canonical_citation pl) cs = Inr ds \<Longrightarrow> ds = cs"
  by (rule mapr_id) (rule canonical_citation_id)

lemma canonical_selection_id: "canonicalRuleOverrideSelection pl i = Inr s \<Longrightarrow> s = i"
  by (auto simp: canonicalRuleOverrideSelection_def bindr_eq_Inr_iff split: if_splits
      dest!: canonical_string_id citations_id)

lemma selection_fields_keys: "map fst (selection_fields s) = map fst (selection_fields t)"
  by (simp add: selection_fields_def)

lemma citation_json_inj: "jval_of (citation_json c) = jval_of (citation_json d) \<longleftrightarrow> c = d"
  unfolding citation_json_def by (subst jval_obj_eq) (auto intro!: RuleSelectionCitation.equality)

lemma citations_json_inj:
  "map (jval_of \<circ> citation_json) cs = map (jval_of \<circ> citation_json) ds \<longleftrightarrow> cs = ds"
  by (auto simp: inj_map_eq_map inj_def citation_json_inj)

lemma selection_fields_inj:
  "map (\<lambda>e. jval_of (snd e)) (selection_fields s) = map (\<lambda>e. jval_of (snd e)) (selection_fields t) \<longleftrightarrow> s = t"
  by (auto simp: selection_fields_def nullable_jval_inj citations_json_inj
      intro!: RuleOverrideSelectionInput.equality)

lemma selection_fields_json:
  "\<forall>(k, x)\<in>set (selection_fields s). js_json x \<and> \<not> integer_index k \<and> index_free x"
  by (auto simp: selection_fields_def citation_json_def)

interpretation override_consent: tagged_hash ruleOverrideConsentHash rule_override_consent_body
  "lit ''boardagent.rule-override-consent.v1''"
proof
  fix pl x y h
  show "ruleOverrideConsentHash pl x = Inr h \<Longrightarrow> canonicalSha256 pl (rule_override_consent_body x) = Inr h"
    by (auto simp: ruleOverrideConsentHash_def bindr_eq_Inr_iff split: prod.splits dest!: canonical_selection_id)
  show "js_json (rule_override_consent_body x) \<and> index_free (rule_override_consent_body x)"
    using selection_fields_json [of "fst x"]
    by (cases x) (auto simp: rule_override_consent_body_def selection_fields_def)
  show "jval_of (rule_override_consent_body x) = jval_of (rule_override_consent_body y) \<Longrightarrow> x = y"
    unfolding rule_override_consent_body_def split_def
    by (subst (asm) jval_obj_eq)
      (auto simp: selection_fields_def prod_eq_iff nullable_jval_inj citations_json_inj
        intro!: RuleOverrideSelectionInput.equality)
  show "jfield (lit ''schemaVersion'') (rule_override_consent_body x) =
      Some (JStr (lit ''boardagent.rule-override-consent.v1''))"
    by (simp add: rule_override_consent_body_def split_def)
qed

interpretation override_evidence: tagged_hash ruleOverrideEvidenceHash rule_override_evidence_body
  "lit ''boardagent.rule-override-evidence.v1''"
proof
  fix pl x y h
  show "ruleOverrideEvidenceHash pl x = Inr h \<Longrightarrow> canonicalSha256 pl (rule_override_evidence_body x) = Inr h"
    by (auto simp: ruleOverrideEvidenceHash_def bindr_eq_Inr_iff split: prod.splits dest!: canonical_selection_id)
  show "js_json (rule_override_evidence_body x) \<and> index_free (rule_override_evidence_body x)"
    using selection_fields_json [of "fst x"]
    by (cases x) (auto simp: rule_override_evidence_body_def selection_fields_def)
  show "jval_of (rule_override_evidence_body x) = jval_of (rule_override_evidence_body y) \<Longrightarrow> x = y"
    unfolding rule_override_evidence_body_def split_def
    by (subst (asm) jval_obj_eq)
      (auto simp: selection_fields_def prod_eq_iff nullable_jval_inj citations_json_inj
        intro!: RuleOverrideSelectionInput.equality)
  show "jfield (lit ''schemaVersion'') (rule_override_evidence_body x) =
      Some (JStr (lit ''boardagent.rule-override-evidence.v1''))"
    by (simp add: rule_override_evidence_body_def split_def)
qed

lemma safe_integer_inj: "safe_integer a = Some n \<Longrightarrow> safe_integer b = Some n \<Longrightarrow> a = b"
  by (cases a; cases b) (auto simp: Ints_def split: if_splits)

lemma safe_integer_safe: "safe_integer a = Some n \<Longrightarrow> isSafeInteger n"
  by (cases a) (auto split: if_splits)

interpretation source_exclusion: tagged_hash voteSourceExclusionConsentHash source_exclusion_body
  "lit ''boardagent.vote-source-exclusion-consent.v1''"
proof
  fix pl x y h
  show "voteSourceExclusionConsentHash pl x = Inr h \<Longrightarrow> canonicalSha256 pl (source_exclusion_body x) = Inr h"
    by (auto simp: voteSourceExclusionConsentHash_def bindr_eq_Inr_iff split: if_splits option.splits
        dest!: canonical_string_id)
  show "js_json (source_exclusion_body x) \<and> index_free (source_exclusion_body x)"
    by (auto simp: source_exclusion_body_def isSafeInteger_def MAX_SAFE_INTEGER_def split: option.split
        dest: safe_integer_safe [unfolded isSafeInteger_def MAX_SAFE_INTEGER_def])
  have some: "voteSourceExclusionConsentHash pl x = Inr h \<Longrightarrow> \<exists>n. safe_integer (sx_sourceVersion x) = Some n" for x
    by (auto simp: voteSourceExclusionConsentHash_def bindr_eq_Inr_iff split: if_splits option.splits)
  assume "voteSourceExclusionConsentHash pl x = Inr h" "voteSourceExclusionConsentHash pl y = Inr h"
    "jval_of (source_exclusion_body x) = jval_of (source_exclusion_body y)"
  then show "x = y"
    unfolding source_exclusion_body_def using some [of x] some [of y]
    by (subst (asm) jval_obj_eq)
      (auto simp: name_inj dest: safe_integer_inj intro!: SourceExclusionInput.equality)
next
  show "jfield (lit ''schemaVersion'') (source_exclusion_body x) =
      Some (JStr (lit ''boardagent.vote-source-exclusion-consent.v1''))" for x
    by (simp add: source_exclusion_body_def)
qed

interpretation vote_recusal: tagged_hash voteRecusalConsentHash vote_recusal_body
  "lit ''boardagent.vote-recusal-consent.v1''"
proof
  fix pl x y h
  show "voteRecusalConsentHash pl x = Inr h \<Longrightarrow> canonicalSha256 pl (vote_recusal_body x) = Inr h"
    by (auto simp: voteRecusalConsentHash_def bindr_eq_Inr_iff)
  show "js_json (vote_recusal_body x) \<and> index_free (vote_recusal_body x)"
    by (simp add: vote_recusal_body_def)
  show "jval_of (vote_recusal_body x) = jval_of (vote_recusal_body y) \<Longrightarrow> x = y"
    unfolding vote_recusal_body_def
    by (subst (asm) jval_obj_eq) (auto simp: name_inj intro!: VoteRecusalInput.equality)
  show "jfield (lit ''schemaVersion'') (vote_recusal_body x) = Some (JStr (lit ''boardagent.vote-recusal-consent.v1''))"
    by (simp add: vote_recusal_body_def)
qed

interpretation proxy_grant: tagged_hash proxyGrantConsentHash proxy_grant_body
  "lit ''boardagent.proxy-grant-consent.v1''"
proof
  fix pl x y h
  show "proxyGrantConsentHash pl x = Inr h \<Longrightarrow> canonicalSha256 pl (proxy_grant_body x) = Inr h"
    by (auto simp: proxyGrantConsentHash_def bindr_eq_Inr_iff split: if_splits)
  show "js_json (proxy_grant_body x) \<and> index_free (proxy_grant_body x)"
    by (simp add: proxy_grant_body_def)
  show "jval_of (proxy_grant_body x) = jval_of (proxy_grant_body y) \<Longrightarrow> x = y"
    unfolding proxy_grant_body_def
    by (subst (asm) jval_obj_eq) (auto simp: name_inj nullable_jval_inj intro!: ProxyGrantInput.equality)
  show "jfield (lit ''schemaVersion'') (proxy_grant_body x) = Some (JStr (lit ''boardagent.proxy-grant-consent.v1''))"
    by (simp add: proxy_grant_body_def)
qed

interpretation proxy_revoke: tagged_hash proxyRevokeConsentHash proxy_revoke_body
  "lit ''boardagent.proxy-revoke-consent.v1''"
proof
  fix pl x y h
  show "proxyRevokeConsentHash pl x = Inr h \<Longrightarrow> canonicalSha256 pl (proxy_revoke_body x) = Inr h"
    by (auto simp: proxyRevokeConsentHash_def bindr_eq_Inr_iff split: if_splits dest!: canonical_string_id)
  show "js_json (proxy_revoke_body x) \<and> index_free (proxy_revoke_body x)"
    by (simp add: proxy_revoke_body_def)
  show "jval_of (proxy_revoke_body x) = jval_of (proxy_revoke_body y) \<Longrightarrow> x = y"
    unfolding proxy_revoke_body_def
    by (subst (asm) jval_obj_eq) (auto intro!: ProxyRevokeInput.equality)
  show "jfield (lit ''schemaVersion'') (proxy_revoke_body x) = Some (JStr (lit ''boardagent.proxy-revoke-consent.v1''))"
    by (simp add: proxy_revoke_body_def)
qed

interpretation ballot_consent: tagged_hash ballotConsentHash ballot_body
  "lit ''boardagent.ballot-consent.v1''"
proof
  fix pl x y h
  show "ballotConsentHash pl x = Inr h \<Longrightarrow> canonicalSha256 pl (ballot_body x) = Inr h"
    by (cases x) (auto simp: ballotConsentHash_def bindr_eq_Inr_iff split: if_splits option.splits
        dest!: parse_nullable_canonical)
  show "js_json (ballot_body x) \<and> index_free (ballot_body x)"
    by (simp add: ballot_body_def)
  show "jval_of (ballot_body x) = jval_of (ballot_body y) \<Longrightarrow> x = y"
    unfolding ballot_body_def
    by (subst (asm) jval_obj_eq) (auto simp: name_inj nullable_jval_inj intro!: BallotInput.equality)
  show "jfield (lit ''schemaVersion'') (ballot_body x) = Some (JStr (lit ''boardagent.ballot-consent.v1''))"
    by (simp add: ballot_body_def)
qed

interpretation vote_close: tagged_hash voteCloseConsentHash vote_close_body
  "lit ''boardagent.vote-close-consent.v1''"
proof
  fix pl x y h
  show "voteCloseConsentHash pl x = Inr h \<Longrightarrow> canonicalSha256 pl (vote_close_body x) = Inr h"
    by (cases x) (auto simp: voteCloseConsentHash_def bindr_eq_Inr_iff)
  show "js_json (vote_close_body x) \<and> index_free (vote_close_body x)"
    by (simp add: vote_close_body_def)
  show "jval_of (vote_close_body x) = jval_of (vote_close_body y) \<Longrightarrow> x = y"
    unfolding vote_close_body_def
    by (subst (asm) jval_obj_eq) (auto intro!: VoteCloseInput.equality)
  show "jfield (lit ''schemaVersion'') (vote_close_body x) = Some (JStr (lit ''boardagent.vote-close-consent.v1''))"
    by (simp add: vote_close_body_def)
qed

interpretation vote_tally: tagged_hash voteTallySha256 canonicalVoteTally
  "lit ''boardagent.vote-tally.v1''"
proof
  fix pl x y h
  show "voteTallySha256 pl x = Inr h \<Longrightarrow> canonicalSha256 pl (canonicalVoteTally x) = Inr h"
    by (simp add: voteTallySha256_def)
  show "js_json (canonicalVoteTally x) \<and> index_free (canonicalVoteTally x)"
    by (simp add: canonicalVoteTally_def)
  show "jval_of (canonicalVoteTally x) = jval_of (canonicalVoteTally y) \<Longrightarrow> x = y"
    unfolding canonicalVoteTally_def
    by (subst (asm) jval_obj_eq) (auto simp: name_inj dec_int_inj intro!: VoteTally.equality)
  show "jfield (lit ''schemaVersion'') (canonicalVoteTally x) = Some (JStr (lit ''boardagent.vote-tally.v1''))"
    by (simp add: canonicalVoteTally_def)
qed

section \<open>Properties\<close>

text \<open>Property C26: a consent hash identifies the request it was computed from. Two ballots, two
  vote closings, two proxy grants or revocations, two recusals, two source exclusions and
  two rule overrides with the same hash are the same request in every field, or their
  canonical records are a SHA-256 collision.\<close>

theorem consent_hash_identifies_request:
  "(ballotConsentHash pl b = Inr h \<and> ballotConsentHash pl b' = Inr h \<longrightarrow>
      b = b' \<or> sha256_collision (canonical_bytes (ballot_body b)) (canonical_bytes (ballot_body b'))) \<and>
   (voteCloseConsentHash pl c = Inr h \<and> voteCloseConsentHash pl c' = Inr h \<longrightarrow>
      c = c' \<or> sha256_collision (canonical_bytes (vote_close_body c)) (canonical_bytes (vote_close_body c'))) \<and>
   (proxyGrantConsentHash pl g = Inr h \<and> proxyGrantConsentHash pl g' = Inr h \<longrightarrow>
      g = g' \<or> sha256_collision (canonical_bytes (proxy_grant_body g)) (canonical_bytes (proxy_grant_body g'))) \<and>
   (proxyRevokeConsentHash pl r = Inr h \<and> proxyRevokeConsentHash pl r' = Inr h \<longrightarrow>
      r = r' \<or> sha256_collision (canonical_bytes (proxy_revoke_body r)) (canonical_bytes (proxy_revoke_body r'))) \<and>
   (voteRecusalConsentHash pl u = Inr h \<and> voteRecusalConsentHash pl u' = Inr h \<longrightarrow>
      u = u' \<or> sha256_collision (canonical_bytes (vote_recusal_body u)) (canonical_bytes (vote_recusal_body u'))) \<and>
   (voteSourceExclusionConsentHash pl e = Inr h \<and> voteSourceExclusionConsentHash pl e' = Inr h \<longrightarrow>
      e = e' \<or> sha256_collision (canonical_bytes (source_exclusion_body e)) (canonical_bytes (source_exclusion_body e'))) \<and>
   (ruleOverrideConsentHash pl ov = Inr h \<and> ruleOverrideConsentHash pl ov' = Inr h \<longrightarrow>
      ov = ov' \<or> sha256_collision (canonical_bytes (rule_override_consent_body ov))
        (canonical_bytes (rule_override_consent_body ov')))"
  using ballot_consent.hash_binds [of pl b h b'] vote_close.hash_binds [of pl c h c']
    proxy_grant.hash_binds [of pl g h g'] proxy_revoke.hash_binds [of pl r h r']
    vote_recusal.hash_binds [of pl u h u'] source_exclusion.hash_binds [of pl e h e']
    override_consent.hash_binds [of pl ov h ov']
  by (intro conjI impI) blast+

definition wit_uuid :: jstring where
  "wit_uuid = lit ''01890a5d-ac96-774b-bcce-b302099a8057''"

definition wit_uuid' :: jstring where
  "wit_uuid' = lit ''01890a5d-ac96-774b-bcce-b302099a8058''"

definition wit_sha :: jstring where
  "wit_sha = lit (replicate 64 (CHR ''a''))"

lemma wit_uuid_ok [simp]: "UuidV7Schema wit_uuid" "UuidV7Schema wit_uuid'" "wit_uuid \<noteq> wit_uuid'"
  by code_simp+

lemma wit_sha_ok [simp]: "Sha256HexSchema wit_sha"
  by code_simp

lemma wit_scalar [simp]: "scalar_string nfc wit_uuid" "scalar_string nfc wit_uuid'" "scalar_string nfc wit_sha"
proof -
  have "is_ascii wit_uuid" "is_ascii wit_uuid'" "is_ascii wit_sha" by code_simp+
  then show "scalar_string nfc wit_uuid" "scalar_string nfc wit_uuid'" "scalar_string nfc wit_sha"
    by (simp_all add: scalar_string_def)
qed

definition wit_ballot_input :: BallotInput where
  "wit_ballot_input = \<lparr>bi_voteId = wit_uuid, bi_principalMemberId = wit_uuid, bi_casterMemberId = wit_uuid',
     bi_choice = Yes, bi_statement = None, bi_proxyGrantId = Some wit_uuid, bi_packageSha256 = wit_sha\<rparr>"

lemma wit_ballot_hash:
  "ballotConsentHash plain_platform wit_ballot_input =
     Inr (hex_of_bytes (sha256 (canonical_bytes (ballot_body wit_ballot_input))))"
proof -
  have "ballotConsentHash plain_platform wit_ballot_input =
      canonicalSha256 plain_platform (ballot_body wit_ballot_input)"
    by (simp add: ballotConsentHash_def wit_ballot_input_def parse_nullable_def zparse_ok)
  moreover have "index_free (ballot_body wit_ballot_input)"
    by (simp add: ballot_body_def)
  moreover have "strings_ok (normalizeNFC plain_platform) (ballot_body wit_ballot_input)"
    by (simp add: ballot_body_def wit_ballot_input_def)
      (simp add: scalar_string_def is_ascii_def word_less_nat_alt)
  ultimately show ?thesis
    by (simp add: canonicalSha256_iff)
      (simp add: ballot_body_def wit_ballot_input_def MAX_JSON_CONTAINER_DEPTH_def)
qed

definition wit_close_input :: VoteCloseInput where
  "wit_close_input = \<lparr>vc_voteId = wit_uuid, vc_packageSha256 = wit_sha, vc_expectedTallySha256 = wit_sha,
     vc_outcomeId = wit_uuid, vc_certificateId = wit_uuid, vc_certificatePublicIdSha256 = wit_sha,
     vc_signingKeyId = wit_uuid\<rparr>"

definition wit_grant_input :: ProxyGrantInput where
  "wit_grant_input = \<lparr>pg_voteId = wit_uuid, pg_principalMemberId = wit_uuid, pg_holderMemberId = wit_uuid',
     pg_policy = first_ballot_final, pg_expiresAt = None, pg_packageSha256 = wit_sha\<rparr>"

definition wit_revoke_input :: ProxyRevokeInput where
  "wit_revoke_input = \<lparr>px_voteId = wit_uuid, px_proxyGrantId = wit_uuid, px_principalMemberId = wit_uuid',
     px_reason = lit ''back'', px_packageSha256 = wit_sha\<rparr>"

definition wit_recusal_input :: VoteRecusalInput where
  "wit_recusal_input = \<lparr>vr_voteId = wit_uuid, vr_memberId = wit_uuid', vr_state = excluded_state, vr_reason = lit ''owner'',
     vr_packageSha256 = wit_sha\<rparr>"

definition wit_exclusion_input :: SourceExclusionInput where
  "wit_exclusion_input = \<lparr>sx_voteId = wit_uuid, sx_causeId = wit_uuid, sx_sourceClass = document_source,
     sx_sourceId = wit_uuid', sx_sourceVersion = Fin 1, sx_sourceSha256 = wit_sha, sx_reason = lit ''late'',
     sx_packageSha256 = wit_sha\<rparr>"

definition wit_override_input :: "RuleOverrideSelectionInput \<times> jstring" where
  "wit_override_input = (\<lparr>ro_evaluationId = wit_uuid, ro_evaluationResultSha256 = wit_sha, ro_wizardDraftId = wit_uuid,
     ro_finalVoteId = wit_uuid', ro_recommendedRuleId = None, ro_selectedRuleId = wit_uuid, ro_selectedRuleSha256 = wit_sha,
     ro_reason = lit ''strict'', ro_citations = [\<lparr>rc_ruleId = wit_uuid, rc_sourceDocumentVersionId = wit_uuid,
       rc_sourceDocumentSha256 = wit_sha, rc_clause = lit ''4'', rc_locator = lit ''p2''\<rparr>]\<rparr>, wit_sha)"

lemma wit_texts:
  "canonical_string plain_platform (lit t) = Inr (lit t)" "js_trim (lit t) = lit t" "scalar_string nfc (lit t)"
  if "t \<in> {''back'', ''owner'', ''late'', ''strict'', ''4'', ''p2''}"
proof -
  have a: "is_ascii (lit t)" using that by (auto simp: is_ascii_def word_less_nat_alt)
  then show "scalar_string nfc (lit t)" by (simp add: scalar_string_def)
  have "js_trim (lit t) = lit t" using that
    by (elim insertE emptyE) (hypsubst, code_simp)+
  then show "js_trim (lit t) = lit t" .
  have "\<not> starts_with [0xFEFF] (lit t)" "0x0D \<notin> set (lit t)" using that by (auto simp: starts_with_def)
  then show "canonical_string plain_platform (lit t) = Inr (lit t)"
    using a by (simp add: canonical_string_def canonicalText_def assertUnicodeScalar_def)
qed

lemma ascii_hash_defined:
  "index_free v \<Longrightarrow> json_depth v \<le> MAX_JSON_CONTAINER_DEPTH \<Longrightarrow> strings_ok (normalizeNFC pl) v \<Longrightarrow> \<exists>h. canonicalSha256 pl v = Inr h"
  by (simp add: canonicalSha256_iff)

lemma wit_consent_hashes:
  "\<exists>h. ballotConsentHash plain_platform wit_ballot_input = Inr h"
  "\<exists>h. voteCloseConsentHash plain_platform wit_close_input = Inr h"
  "\<exists>h. proxyGrantConsentHash plain_platform wit_grant_input = Inr h"
  "\<exists>h. proxyRevokeConsentHash plain_platform wit_revoke_input = Inr h"
  "\<exists>h. voteRecusalConsentHash plain_platform wit_recusal_input = Inr h"
  "\<exists>h. voteSourceExclusionConsentHash plain_platform wit_exclusion_input = Inr h"
  "\<exists>h. ruleOverrideConsentHash plain_platform wit_override_input = Inr h"
proof -
  show "\<exists>h. ballotConsentHash plain_platform wit_ballot_input = Inr h" using wit_ballot_hash by blast
  note ascii = scalar_string_def is_ascii_def word_less_nat_alt
  have "lit (c # t) \<noteq> []" for c t by simp
  note defs = this parse_nullable_def zparse_ok MAX_JSON_CONTAINER_DEPTH_def
  have "voteCloseConsentHash plain_platform wit_close_input = canonicalSha256 plain_platform (vote_close_body wit_close_input)"
    by (simp add: voteCloseConsentHash_def wit_close_input_def defs wit_texts length_lit del: lit_simps)
  moreover have "\<exists>h. canonicalSha256 plain_platform (vote_close_body wit_close_input) = Inr h"
    by (rule ascii_hash_defined) (simp_all add: vote_close_body_def wit_close_input_def defs, simp_all add: ascii)
  ultimately show "\<exists>h. voteCloseConsentHash plain_platform wit_close_input = Inr h" by simp
  have "proxyGrantConsentHash plain_platform wit_grant_input = canonicalSha256 plain_platform (proxy_grant_body wit_grant_input)"
    by (simp add: proxyGrantConsentHash_def wit_grant_input_def defs wit_texts length_lit del: lit_simps)
  moreover have "\<exists>h. canonicalSha256 plain_platform (proxy_grant_body wit_grant_input) = Inr h"
    by (rule ascii_hash_defined) (simp_all add: proxy_grant_body_def wit_grant_input_def defs, simp_all add: ascii)
  ultimately show "\<exists>h. proxyGrantConsentHash plain_platform wit_grant_input = Inr h" by simp
  have "proxyRevokeConsentHash plain_platform wit_revoke_input = canonicalSha256 plain_platform (proxy_revoke_body wit_revoke_input)"
    by (simp add: proxyRevokeConsentHash_def wit_revoke_input_def defs wit_texts length_lit del: lit_simps)
  moreover have "\<exists>h. canonicalSha256 plain_platform (proxy_revoke_body wit_revoke_input) = Inr h"
    by (rule ascii_hash_defined) (simp_all add: proxy_revoke_body_def wit_revoke_input_def defs, simp_all add: ascii)
  ultimately show "\<exists>h. proxyRevokeConsentHash plain_platform wit_revoke_input = Inr h" by simp
  have "voteRecusalConsentHash plain_platform wit_recusal_input = canonicalSha256 plain_platform (vote_recusal_body wit_recusal_input)"
    by (simp add: voteRecusalConsentHash_def wit_recusal_input_def defs wit_texts length_lit del: lit_simps)
  moreover have "\<exists>h. canonicalSha256 plain_platform (vote_recusal_body wit_recusal_input) = Inr h"
    by (rule ascii_hash_defined) (simp_all add: vote_recusal_body_def wit_recusal_input_def defs, simp_all add: ascii)
  ultimately show "\<exists>h. voteRecusalConsentHash plain_platform wit_recusal_input = Inr h" by simp
  have "voteSourceExclusionConsentHash plain_platform wit_exclusion_input = canonicalSha256 plain_platform (source_exclusion_body wit_exclusion_input)"
    by (simp add: voteSourceExclusionConsentHash_def wit_exclusion_input_def defs wit_texts length_lit isSafeInteger_def MAX_SAFE_INTEGER_def del: lit_simps)
  moreover have "\<exists>h. canonicalSha256 plain_platform (source_exclusion_body wit_exclusion_input) = Inr h"
    by (rule ascii_hash_defined) (simp_all add: source_exclusion_body_def wit_exclusion_input_def defs isSafeInteger_def MAX_SAFE_INTEGER_def, simp_all add: ascii)
  ultimately show "\<exists>h. voteSourceExclusionConsentHash plain_platform wit_exclusion_input = Inr h" by simp
  have "ruleOverrideConsentHash plain_platform wit_override_input = canonicalSha256 plain_platform (rule_override_consent_body wit_override_input)"
    by (simp add: ruleOverrideConsentHash_def wit_override_input_def defs wit_texts length_lit canonicalRuleOverrideSelection_def canonical_citation_def citation_out_of_bounds_def selection_fields_def citation_json_def del: lit_simps)
  moreover have "\<exists>h. canonicalSha256 plain_platform (rule_override_consent_body wit_override_input) = Inr h"
    by (rule ascii_hash_defined) (simp_all add: rule_override_consent_body_def wit_override_input_def defs canonicalRuleOverrideSelection_def canonical_citation_def citation_out_of_bounds_def selection_fields_def citation_json_def, simp_all add: ascii)
  ultimately show "\<exists>h. ruleOverrideConsentHash plain_platform wit_override_input = Inr h" by simp
qed

theorem consent_hash_identifies_request_witness:
  "(\<exists>h. ballotConsentHash plain_platform wit_ballot_input = Inr h \<and> {x. ballotConsentHash plain_platform x = Inr h} \<subseteq>
     {x. x = wit_ballot_input \<or> sha256_collision (canonical_bytes (ballot_body wit_ballot_input)) (canonical_bytes (ballot_body x))}) \<and>
   (\<exists>h. voteCloseConsentHash plain_platform wit_close_input = Inr h \<and> {x. voteCloseConsentHash plain_platform x = Inr h} \<subseteq>
     {x. x = wit_close_input \<or> sha256_collision (canonical_bytes (vote_close_body wit_close_input)) (canonical_bytes (vote_close_body x))}) \<and>
   (\<exists>h. proxyGrantConsentHash plain_platform wit_grant_input = Inr h \<and> {x. proxyGrantConsentHash plain_platform x = Inr h} \<subseteq>
     {x. x = wit_grant_input \<or> sha256_collision (canonical_bytes (proxy_grant_body wit_grant_input)) (canonical_bytes (proxy_grant_body x))}) \<and>
   (\<exists>h. proxyRevokeConsentHash plain_platform wit_revoke_input = Inr h \<and> {x. proxyRevokeConsentHash plain_platform x = Inr h} \<subseteq>
     {x. x = wit_revoke_input \<or> sha256_collision (canonical_bytes (proxy_revoke_body wit_revoke_input)) (canonical_bytes (proxy_revoke_body x))}) \<and>
   (\<exists>h. voteRecusalConsentHash plain_platform wit_recusal_input = Inr h \<and> {x. voteRecusalConsentHash plain_platform x = Inr h} \<subseteq>
     {x. x = wit_recusal_input \<or> sha256_collision (canonical_bytes (vote_recusal_body wit_recusal_input)) (canonical_bytes (vote_recusal_body x))}) \<and>
   (\<exists>h. voteSourceExclusionConsentHash plain_platform wit_exclusion_input = Inr h \<and> {x. voteSourceExclusionConsentHash plain_platform x = Inr h} \<subseteq>
     {x. x = wit_exclusion_input \<or> sha256_collision (canonical_bytes (source_exclusion_body wit_exclusion_input)) (canonical_bytes (source_exclusion_body x))}) \<and>
   (\<exists>h. ruleOverrideConsentHash plain_platform wit_override_input = Inr h \<and> {x. ruleOverrideConsentHash plain_platform x = Inr h} \<subseteq>
     {x. x = wit_override_input \<or> sha256_collision (canonical_bytes (rule_override_consent_body wit_override_input)) (canonical_bytes (rule_override_consent_body x))})"
proof (intro conjI)
  note binds = consent_hash_identifies_request [of plain_platform]
  obtain h where h: "ballotConsentHash plain_platform wit_ballot_input = Inr h" using wit_consent_hashes(1) by blast
  have "x = wit_ballot_input \<or> sha256_collision (canonical_bytes (ballot_body wit_ballot_input)) (canonical_bytes (ballot_body x))"
    if "ballotConsentHash plain_platform x = Inr h" for x
    using binds [THEN conjunct1, rule_format, OF conjI, OF h that] by auto
  with h show "\<exists>h. ballotConsentHash plain_platform wit_ballot_input = Inr h \<and> {x. ballotConsentHash plain_platform x = Inr h} \<subseteq>
     {x. x = wit_ballot_input \<or> sha256_collision (canonical_bytes (ballot_body wit_ballot_input)) (canonical_bytes (ballot_body x))}" by auto
  obtain h where h: "voteCloseConsentHash plain_platform wit_close_input = Inr h" using wit_consent_hashes(2) by blast
  have "x = wit_close_input \<or> sha256_collision (canonical_bytes (vote_close_body wit_close_input)) (canonical_bytes (vote_close_body x))"
    if "voteCloseConsentHash plain_platform x = Inr h" for x
    using binds [THEN conjunct2, THEN conjunct1, rule_format, OF conjI, OF h that] by auto
  with h show "\<exists>h. voteCloseConsentHash plain_platform wit_close_input = Inr h \<and> {x. voteCloseConsentHash plain_platform x = Inr h} \<subseteq>
     {x. x = wit_close_input \<or> sha256_collision (canonical_bytes (vote_close_body wit_close_input)) (canonical_bytes (vote_close_body x))}" by auto
  obtain h where h: "proxyGrantConsentHash plain_platform wit_grant_input = Inr h" using wit_consent_hashes(3) by blast
  have "x = wit_grant_input \<or> sha256_collision (canonical_bytes (proxy_grant_body wit_grant_input)) (canonical_bytes (proxy_grant_body x))"
    if "proxyGrantConsentHash plain_platform x = Inr h" for x
    using binds [THEN conjunct2, THEN conjunct2, THEN conjunct1, rule_format, OF conjI, OF h that] by auto
  with h show "\<exists>h. proxyGrantConsentHash plain_platform wit_grant_input = Inr h \<and> {x. proxyGrantConsentHash plain_platform x = Inr h} \<subseteq>
     {x. x = wit_grant_input \<or> sha256_collision (canonical_bytes (proxy_grant_body wit_grant_input)) (canonical_bytes (proxy_grant_body x))}" by auto
  obtain h where h: "proxyRevokeConsentHash plain_platform wit_revoke_input = Inr h" using wit_consent_hashes(4) by blast
  have "x = wit_revoke_input \<or> sha256_collision (canonical_bytes (proxy_revoke_body wit_revoke_input)) (canonical_bytes (proxy_revoke_body x))"
    if "proxyRevokeConsentHash plain_platform x = Inr h" for x
    using binds [THEN conjunct2, THEN conjunct2, THEN conjunct2, THEN conjunct1, rule_format, OF conjI, OF h that] by auto
  with h show "\<exists>h. proxyRevokeConsentHash plain_platform wit_revoke_input = Inr h \<and> {x. proxyRevokeConsentHash plain_platform x = Inr h} \<subseteq>
     {x. x = wit_revoke_input \<or> sha256_collision (canonical_bytes (proxy_revoke_body wit_revoke_input)) (canonical_bytes (proxy_revoke_body x))}" by auto
  obtain h where h: "voteRecusalConsentHash plain_platform wit_recusal_input = Inr h" using wit_consent_hashes(5) by blast
  have "x = wit_recusal_input \<or> sha256_collision (canonical_bytes (vote_recusal_body wit_recusal_input)) (canonical_bytes (vote_recusal_body x))"
    if "voteRecusalConsentHash plain_platform x = Inr h" for x
    using binds [THEN conjunct2, THEN conjunct2, THEN conjunct2, THEN conjunct2, THEN conjunct1, rule_format, OF conjI, OF h that] by auto
  with h show "\<exists>h. voteRecusalConsentHash plain_platform wit_recusal_input = Inr h \<and> {x. voteRecusalConsentHash plain_platform x = Inr h} \<subseteq>
     {x. x = wit_recusal_input \<or> sha256_collision (canonical_bytes (vote_recusal_body wit_recusal_input)) (canonical_bytes (vote_recusal_body x))}" by auto
  obtain h where h: "voteSourceExclusionConsentHash plain_platform wit_exclusion_input = Inr h" using wit_consent_hashes(6) by blast
  have "x = wit_exclusion_input \<or> sha256_collision (canonical_bytes (source_exclusion_body wit_exclusion_input)) (canonical_bytes (source_exclusion_body x))"
    if "voteSourceExclusionConsentHash plain_platform x = Inr h" for x
    using binds [THEN conjunct2, THEN conjunct2, THEN conjunct2, THEN conjunct2, THEN conjunct2, THEN conjunct1, rule_format, OF conjI, OF h that] by auto
  with h show "\<exists>h. voteSourceExclusionConsentHash plain_platform wit_exclusion_input = Inr h \<and> {x. voteSourceExclusionConsentHash plain_platform x = Inr h} \<subseteq>
     {x. x = wit_exclusion_input \<or> sha256_collision (canonical_bytes (source_exclusion_body wit_exclusion_input)) (canonical_bytes (source_exclusion_body x))}" by auto
  obtain h where h: "ruleOverrideConsentHash plain_platform wit_override_input = Inr h" using wit_consent_hashes(7) by blast
  have "x = wit_override_input \<or> sha256_collision (canonical_bytes (rule_override_consent_body wit_override_input)) (canonical_bytes (rule_override_consent_body x))"
    if "ruleOverrideConsentHash plain_platform x = Inr h" for x
    using binds [THEN conjunct2, THEN conjunct2, THEN conjunct2, THEN conjunct2, THEN conjunct2, THEN conjunct2, rule_format, OF conjI, OF h that] by auto
  with h show "\<exists>h. ruleOverrideConsentHash plain_platform wit_override_input = Inr h \<and> {x. ruleOverrideConsentHash plain_platform x = Inr h} \<subseteq>
     {x. x = wit_override_input \<or> sha256_collision (canonical_bytes (rule_override_consent_body wit_override_input)) (canonical_bytes (rule_override_consent_body x))}" by auto
qed

text \<open>Consents of different kinds are kept apart by their schema versions. The hash of
  a ballot is never the hash of a vote closing, a proxy grant or a proxy revocation unless
  the two canonical records are a SHA-256 collision.\<close>

theorem consent_kinds_kept_apart:
  assumes "ballotConsentHash pl b = Inr h"
  shows "(voteCloseConsentHash pl c = Inr h \<longrightarrow>
      sha256_collision (canonical_bytes (ballot_body b)) (canonical_bytes (vote_close_body c))) \<and>
    (proxyGrantConsentHash pl g = Inr h \<longrightarrow>
      sha256_collision (canonical_bytes (ballot_body b)) (canonical_bytes (proxy_grant_body g))) \<and>
    (proxyRevokeConsentHash pl r = Inr h \<longrightarrow>
      sha256_collision (canonical_bytes (ballot_body b)) (canonical_bytes (proxy_revoke_body r)))"
proof (intro conjI impI)
  note apart = tagged_hashes_apart [OF ballot_consent.tagged_hash_axioms]
  show "voteCloseConsentHash pl c = Inr h \<Longrightarrow>
      sha256_collision (canonical_bytes (ballot_body b)) (canonical_bytes (vote_close_body c))"
    by (rule apart [OF vote_close.tagged_hash_axioms _ assms]) simp
  show "proxyGrantConsentHash pl g = Inr h \<Longrightarrow>
      sha256_collision (canonical_bytes (ballot_body b)) (canonical_bytes (proxy_grant_body g))"
    by (rule apart [OF proxy_grant.tagged_hash_axioms _ assms]) simp
  show "proxyRevokeConsentHash pl r = Inr h \<Longrightarrow>
      sha256_collision (canonical_bytes (ballot_body b)) (canonical_bytes (proxy_revoke_body r))"
    by (rule apart [OF proxy_revoke.tagged_hash_axioms _ assms]) simp
qed

theorem consent_kinds_kept_apart_witness:
  "{h. ballotConsentHash plain_platform wit_ballot_input = Inr h \<and>
       voteCloseConsentHash plain_platform wit_close_input = Inr h} \<subseteq>
   {h. sha256_collision (canonical_bytes (ballot_body wit_ballot_input))
      (canonical_bytes (vote_close_body wit_close_input))}"
  using consent_kinds_kept_apart [OF wit_ballot_hash, of wit_close_input] wit_ballot_hash by auto

end
