(* ===== verification/State_Machines.thy ===== *)
theory State_Machines
  imports Prelude
begin

text \<open>
  The lifecycle tables of \<^verbatim>\<open>lib/domain/src/state-machines.ts\<close>: one datatype of states
  and one transition table per governed object, and the two functions that consult a table.
  A history of an object is the list of the states it enters; \<open>run\<close> admits it by
  asserting each transition. Two locales state what a lifecycle promises: from every state a
  final state can be reached (\<open>lifecycle\<close>), and, for tables without cycles, every history
  is bounded (\<open>acyclic_lifecycle\<close>). Every table but that of management questions, which
  can always be asked again, is an instance of one of them.
\<close>

section \<open>Tables\<close>

type_synonym 's transition_table = "'s \<Rightarrow> 's list"

datatype InstanceState =
    instance_absent
  | instance_active

fun instanceTransitions :: "InstanceState transition_table" where
  "instanceTransitions instance_absent = [instance_active]"
| "instanceTransitions instance_active = []"

datatype MemberState =
    member_invited
  | member_enrollment_pending
  | member_pending_activation
  | member_active
  | member_suspended
  | member_removed

fun memberTransitions :: "MemberState transition_table" where
  "memberTransitions member_invited = [member_enrollment_pending, member_removed]"
| "memberTransitions member_enrollment_pending = [member_pending_activation, member_removed]"
| "memberTransitions member_pending_activation = [member_active, member_removed]"
| "memberTransitions member_active = [member_suspended, member_removed]"
| "memberTransitions member_suspended = [member_active, member_removed]"
| "memberTransitions member_removed = []"

datatype BoardState =
    board_active
  | board_archived

fun boardTransitions :: "BoardState transition_table" where
  "boardTransitions board_active = [board_archived]"
| "boardTransitions board_archived = []"

datatype ConsumableState =
    consumable_issued
  | consumable_consumed
  | consumable_expired
  | consumable_revoked

fun consumableTransitions :: "ConsumableState transition_table" where
  "consumableTransitions consumable_issued = [consumable_consumed, consumable_expired, consumable_revoked]"
| "consumableTransitions consumable_consumed = []"
| "consumableTransitions consumable_expired = []"
| "consumableTransitions consumable_revoked = []"

datatype RefreshFamilyState =
    family_active
  | family_revoked
  | family_compromised
  | family_expired

fun refreshFamilyTransitions :: "RefreshFamilyState transition_table" where
  "refreshFamilyTransitions family_active = [family_revoked, family_compromised, family_expired]"
| "refreshFamilyTransitions family_revoked = []"
| "refreshFamilyTransitions family_compromised = []"
| "refreshFamilyTransitions family_expired = []"

datatype DocumentState =
    document_active
  | document_archived
  | document_soft_deleted

fun documentTransitions :: "DocumentState transition_table" where
  "documentTransitions document_active = [document_archived, document_soft_deleted]"
| "documentTransitions document_archived = [document_soft_deleted]"
| "documentTransitions document_soft_deleted = []"

datatype SubmissionState =
    submission_submitted
  | submission_revision_requested
  | submission_resubmitted
  | submission_approved_to_draft
  | submission_rejected

fun submissionTransitions :: "SubmissionState transition_table" where
  "submissionTransitions submission_submitted = [submission_revision_requested, submission_approved_to_draft, submission_rejected]"
| "submissionTransitions submission_revision_requested = [submission_resubmitted, submission_rejected]"
| "submissionTransitions submission_resubmitted = [submission_revision_requested, submission_approved_to_draft, submission_rejected]"
| "submissionTransitions submission_approved_to_draft = []"
| "submissionTransitions submission_rejected = []"

datatype ManagementQuestionState =
    question_pending
  | question_overdue
  | question_answered

fun managementQuestionTransitions :: "ManagementQuestionState transition_table" where
  "managementQuestionTransitions question_pending = [question_overdue, question_answered]"
| "managementQuestionTransitions question_overdue = [question_answered]"
| "managementQuestionTransitions question_answered = [question_pending]"

datatype MeetingState =
    meeting_draft
  | meeting_called
  | meeting_completed
  | meeting_cancelled

fun meetingTransitions :: "MeetingState transition_table" where
  "meetingTransitions meeting_draft = [meeting_called, meeting_cancelled]"
| "meetingTransitions meeting_called = [meeting_called, meeting_completed, meeting_cancelled]"
| "meetingTransitions meeting_completed = []"
| "meetingTransitions meeting_cancelled = []"

datatype TranscriptState =
    transcript_unverified
  | transcript_secretary_verified

fun transcriptTransitions :: "TranscriptState transition_table" where
  "transcriptTransitions transcript_unverified = [transcript_secretary_verified]"
| "transcriptTransitions transcript_secretary_verified = []"

datatype ChallengeState =
    challenge_pending
  | challenge_accepted
  | challenge_rejected

fun challengeTransitions :: "ChallengeState transition_table" where
  "challengeTransitions challenge_pending = [challenge_accepted, challenge_rejected]"
| "challengeTransitions challenge_accepted = []"
| "challengeTransitions challenge_rejected = []"

datatype MinutesState =
    minutes_unpublished_draft
  | minutes_published_review
  | minutes_signature_ready
  | minutes_finalized
  | minutes_cancelled

fun minutesTransitions :: "MinutesState transition_table" where
  "minutesTransitions minutes_unpublished_draft = [minutes_published_review, minutes_cancelled]"
| "minutesTransitions minutes_published_review = [minutes_published_review, minutes_signature_ready, minutes_cancelled]"
| "minutesTransitions minutes_signature_ready = [minutes_published_review, minutes_finalized, minutes_cancelled]"
| "minutesTransitions minutes_finalized = []"
| "minutesTransitions minutes_cancelled = []"

datatype ReviewItemState =
    item_pending
  | item_accepted
  | item_rejected
  | item_withdrawn

fun reviewItemTransitions :: "ReviewItemState transition_table" where
  "reviewItemTransitions item_pending = [item_accepted, item_rejected, item_withdrawn]"
| "reviewItemTransitions item_accepted = []"
| "reviewItemTransitions item_rejected = []"
| "reviewItemTransitions item_withdrawn = []"

datatype TaskState =
    task_draft
  | task_open
  | task_in_progress
  | task_evidence_submitted
  | task_completed
  | task_cancelled
  | task_superseded

fun taskTransitions :: "TaskState transition_table" where
  "taskTransitions task_draft = [task_open, task_cancelled, task_superseded]"
| "taskTransitions task_open = [task_in_progress, task_evidence_submitted, task_cancelled]"
| "taskTransitions task_in_progress = [task_open, task_evidence_submitted, task_cancelled]"
| "taskTransitions task_evidence_submitted = [task_open, task_completed, task_cancelled]"
| "taskTransitions task_completed = []"
| "taskTransitions task_cancelled = []"
| "taskTransitions task_superseded = []"

datatype ResignRequirementState =
    resign_pending
  | resign_resolved

fun resignRequirementTransitions :: "ResignRequirementState transition_table" where
  "resignRequirementTransitions resign_pending = [resign_resolved]"
| "resignRequirementTransitions resign_resolved = []"

datatype VoteState =
    vote_draft
  | vote_open
  | vote_source_update_pending
  | vote_closing
  | vote_closed
  | vote_superseded
  | vote_cancelled

fun voteTransitions :: "VoteState transition_table" where
  "voteTransitions vote_draft = [vote_open, vote_cancelled]"
| "voteTransitions vote_open = [vote_source_update_pending, vote_superseded, vote_closing, vote_cancelled]"
| "voteTransitions vote_source_update_pending = [vote_open, vote_superseded, vote_cancelled]"
| "voteTransitions vote_closing = [vote_closed]"
| "voteTransitions vote_closed = []"
| "voteTransitions vote_superseded = []"
| "voteTransitions vote_cancelled = []"

datatype ProxyGrantState =
    grant_active
  | grant_revoked
  | grant_expired
  | grant_superseded

fun proxyGrantTransitions :: "ProxyGrantState transition_table" where
  "proxyGrantTransitions grant_active = [grant_revoked, grant_expired, grant_superseded]"
| "proxyGrantTransitions grant_revoked = []"
| "proxyGrantTransitions grant_expired = []"
| "proxyGrantTransitions grant_superseded = []"

datatype ConsentStageState =
    stage_active
  | stage_replaced
  | stage_confirmed
  | stage_rejected
  | stage_expired
  | stage_cancelled

fun consentStageTransitions :: "ConsentStageState transition_table" where
  "consentStageTransitions stage_active = [stage_replaced, stage_confirmed, stage_rejected, stage_expired, stage_cancelled]"
| "consentStageTransitions stage_replaced = []"
| "consentStageTransitions stage_confirmed = []"
| "consentStageTransitions stage_rejected = []"
| "consentStageTransitions stage_expired = []"
| "consentStageTransitions stage_cancelled = []"

datatype WizardState =
    wizard_active
  | wizard_ready_to_confirm
  | wizard_posted
  | wizard_expired
  | wizard_cancelled

fun wizardTransitions :: "WizardState transition_table" where
  "wizardTransitions wizard_active = [wizard_ready_to_confirm, wizard_expired, wizard_cancelled]"
| "wizardTransitions wizard_ready_to_confirm = [wizard_posted, wizard_expired, wizard_cancelled]"
| "wizardTransitions wizard_posted = []"
| "wizardTransitions wizard_expired = []"
| "wizardTransitions wizard_cancelled = []"

datatype ProfileState =
    profile_draft
  | profile_active
  | profile_superseded

fun profileTransitions :: "ProfileState transition_table" where
  "profileTransitions profile_draft = [profile_active]"
| "profileTransitions profile_active = [profile_superseded]"
| "profileTransitions profile_superseded = []"

datatype ExportState =
    export_staged
  | export_confirmed
  | export_queued
  | export_running
  | export_succeeded
  | export_failed
  | export_expired
  | export_deleted

fun exportTransitions :: "ExportState transition_table" where
  "exportTransitions export_staged = [export_confirmed, export_expired]"
| "exportTransitions export_confirmed = [export_queued, export_expired]"
| "exportTransitions export_queued = [export_running, export_failed, export_expired]"
| "exportTransitions export_running = [export_succeeded, export_failed]"
| "exportTransitions export_succeeded = [export_expired, export_deleted]"
| "exportTransitions export_failed = []"
| "exportTransitions export_expired = [export_deleted]"
| "exportTransitions export_deleted = []"

datatype JobState =
    job_queued
  | job_leased
  | job_retry
  | job_succeeded
  | job_dead
  | job_cancelled

fun jobTransitions :: "JobState transition_table" where
  "jobTransitions job_queued = [job_leased, job_cancelled]"
| "jobTransitions job_leased = [job_succeeded, job_retry, job_dead, job_cancelled]"
| "jobTransitions job_retry = [job_leased, job_dead, job_cancelled]"
| "jobTransitions job_succeeded = []"
| "jobTransitions job_dead = []"
| "jobTransitions job_cancelled = []"

abbreviation rulesetTransitions :: "ProfileState transition_table" where
  "rulesetTransitions \<equiv> profileTransitions"

section \<open>Consulting a table\<close>

datatype 's transition_error = InvalidTransition 's 's

definition transitionAllowed :: "'s transition_table \<Rightarrow> 's \<Rightarrow> 's \<Rightarrow> bool" where
  "transitionAllowed table current nxt \<longleftrightarrow> nxt \<in> set (table current)"

definition assertTransition :: "'s transition_table \<Rightarrow> 's \<Rightarrow> 's \<Rightarrow> 's transition_error + unit" where
  "assertTransition table current nxt =
     (if \<not> transitionAllowed table current nxt then Inl (InvalidTransition current nxt) else Inr ())"

text \<open>A history: the states an object enters one after the other, each transition asserted.\<close>

fun run :: "'s transition_table \<Rightarrow> 's \<Rightarrow> 's list \<Rightarrow> 's transition_error + 's" where
  "run table s [] = Inr s"
| "run table s (n # ns) = bindr (assertTransition table s n) (\<lambda>_. run table n ns)"

text \<open>The same as a step relation.\<close>

inductive reaches :: "'s transition_table \<Rightarrow> 's \<Rightarrow> 's \<Rightarrow> bool" for table where
  reaches_refl: "reaches table s s"
| reaches_step: "transitionAllowed table s n \<Longrightarrow> reaches table n t \<Longrightarrow> reaches table s t"

inductive_cases reachesE: "reaches table s t"

section \<open>Histories\<close>

lemma assertTransition_Inr_iff [simp]: "assertTransition table s n = Inr u \<longleftrightarrow> n \<in> set (table s)"
  by (simp add: assertTransition_def transitionAllowed_def)

lemma run_Cons_iff [simp]:
  "run table s (n # ns) = Inr t \<longleftrightarrow> n \<in> set (table s) \<and> run table n ns = Inr t"
  by (auto simp: bindr_eq_Inr_iff)

declare run.simps(2) [simp del]

lemma run_append:
  "run table s (ms @ ns) = Inr t \<longleftrightarrow> (\<exists>u. run table s ms = Inr u \<and> run table u ns = Inr t)"
  by (induction ms arbitrary: s) auto

lemma reaches_iff_run: "reaches table s t \<longleftrightarrow> (\<exists>ns. run table s ns = Inr t)"
proof
  assume "reaches table s t"
  then show "\<exists>ns. run table s ns = Inr t"
  proof induction
    case (reaches_refl s)
    show ?case by (rule exI [of _ "[]"]) simp
  next
    case (reaches_step s n t)
    then obtain ns where "run table n ns = Inr t" by blast
    with reaches_step(1) have "run table s (n # ns) = Inr t"
      by (simp add: transitionAllowed_def)
    then show ?case by blast
  qed
next
  have "run table s ns = Inr t \<Longrightarrow> reaches table s t" for ns
    by (induction ns arbitrary: s)
      (auto simp: transitionAllowed_def intro: reaches.intros)
  then show "\<exists>ns. run table s ns = Inr t \<Longrightarrow> reaches table s t" by blast
qed

lemma final_state_absorbs: "table s = [] \<Longrightarrow> run table s ns = Inr t \<longleftrightarrow> ns = [] \<and> t = s"
  by (cases ns) auto

text \<open>A history that leaves a region enters it through a gate, when all the edges that leave
  the region lead to that gate.\<close>

lemma run_through_gate:
  assumes "\<And>x y. x \<in> I \<Longrightarrow> y \<in> set (table x) \<Longrightarrow> y \<in> I \<or> y = g"
    and "run table s ns = Inr t" and "s \<in> I" and "t \<notin> I"
  obtains ms ms' where "ns = ms @ g # ms'" and "run table g ms' = Inr t"
proof -
  have "\<exists>ms ms'. ns = ms @ g # ms' \<and> run table g ms' = Inr t"
    using assms(2,3)
  proof (induction ns arbitrary: s)
    case Nil
    with assms(4) show ?case by simp
  next
    case (Cons n ns)
    then have n: "n \<in> set (table s)" and r: "run table n ns = Inr t" by (simp_all only: run_Cons_iff)
    show ?case
    proof (cases "n = g")
      case True
      with r show ?thesis by (metis append_Nil)
    next
      case False
      with assms(1) Cons.prems(2) n have "n \<in> I" by blast
      then obtain ms ms' where "ns = ms @ g # ms'" "run table g ms' = Inr t"
        using Cons.IH [OF r] by blast
      then show ?thesis by (metis append_Cons)
    qed
  qed
  then show thesis using that by blast
qed

text \<open>When \<open>t\<close> is entered only from \<open>g\<close> and \<open>g\<close> only from \<open>p\<close>, every history that ends
  in \<open>t\<close> ends with \<open>p, g, t\<close>.\<close>

lemma run_last_two:
  assumes "run table s ns = Inr t"
    and "\<And>x. t \<in> set (table x) \<Longrightarrow> x = g" and "\<And>x. g \<in> set (table x) \<Longrightarrow> x = p"
    and "s \<noteq> t" and "s \<noteq> g"
  shows "\<exists>ms. ns = ms @ [g, t] \<and> run table s ms = Inr p"
proof -
  have last: "\<exists>ms. ns = ms @ [v] \<and> (\<exists>u. run table s ms = Inr u \<and> v \<in> set (table u))"
    if "run table s ns = Inr v" "s \<noteq> v" for ns v
    using that by (cases ns rule: rev_cases) (auto simp del: run.simps(2) simp: run_append run_Cons_iff)
  from last [OF assms(1,4)] assms(2) obtain ms where ns: "ns = ms @ [t]" and "run table s ms = Inr g"
    by blast
  from last [OF this(2) assms(5)] assms(3) obtain ls where "ms = ls @ [g]" "run table s ls = Inr p"
    by blast
  with ns show ?thesis by simp
qed

section \<open>What a lifecycle promises\<close>

locale lifecycle =
  fixes table :: "'s transition_table" and dist :: "'s \<Rightarrow> nat"
  assumes closer: "table s \<noteq> [] \<Longrightarrow> \<exists>t\<in>set (table s). dist t < dist s"
begin

lemma can_finish: "\<exists>ns t. run table s ns = Inr t \<and> table t = [] \<and> length ns \<le> dist s"
proof (induction "dist s" arbitrary: s rule: less_induct)
  case less
  show ?case
  proof (cases "table s = []")
    case True
    then show ?thesis by (intro exI [of _ "[]"]) simp
  next
    case False
    then obtain n where n: "n \<in> set (table s)" "dist n < dist s" using closer by blast
    with less obtain ns t where "run table n ns = Inr t" "table t = []" "length ns \<le> dist n"
      by blast
    with n show ?thesis
      by (intro exI [of _ "n # ns"] exI [of _ t]) simp
  qed
qed

lemma can_finish_reaches: "\<exists>t. reaches table s t \<and> table t = []"
  using can_finish unfolding reaches_iff_run by blast

end

locale acyclic_lifecycle =
  fixes table :: "'s transition_table" and rank :: "'s \<Rightarrow> nat"
  assumes descends: "t \<in> set (table s) \<Longrightarrow> rank t < rank s"
begin

lemma bounded_history: "run table s ns = Inr t \<Longrightarrow> length ns + rank t \<le> rank s"
proof (induction ns arbitrary: s)
  case (Cons n ns)
  then have "rank n < rank s" "length ns + rank t \<le> rank n"
    by (auto dest: descends)
  then show ?case by simp
qed simp

end

sublocale acyclic_lifecycle \<subseteq> lifecycle table rank
proof
  fix s
  assume "table s \<noteq> []"
  then have "hd (table s) \<in> set (table s)" by simp
  then show "\<exists>t\<in>set (table s). rank t < rank s" using descends by blast
qed

section \<open>The tables keep the promise\<close>

interpretation instance_lc: acyclic_lifecycle instanceTransitions "case_InstanceState 1 0"
proof
  fix s t
  show "t \<in> set (instanceTransitions s) \<Longrightarrow> (case_InstanceState 1 0 t :: nat) < case_InstanceState 1 0 s"
    by (cases s) auto
qed

interpretation board_lc: acyclic_lifecycle boardTransitions "case_BoardState 1 0"
proof
  fix s t
  show "t \<in> set (boardTransitions s) \<Longrightarrow> (case_BoardState 1 0 t :: nat) < case_BoardState 1 0 s"
    by (cases s) auto
qed

interpretation consumable_lc: acyclic_lifecycle consumableTransitions "case_ConsumableState 1 0 0 0"
proof
  fix s t
  show "t \<in> set (consumableTransitions s) \<Longrightarrow> (case_ConsumableState 1 0 0 0 t :: nat) < case_ConsumableState 1 0 0 0 s"
    by (cases s) auto
qed

interpretation refreshFamily_lc: acyclic_lifecycle refreshFamilyTransitions "case_RefreshFamilyState 1 0 0 0"
proof
  fix s t
  show "t \<in> set (refreshFamilyTransitions s) \<Longrightarrow> (case_RefreshFamilyState 1 0 0 0 t :: nat) < case_RefreshFamilyState 1 0 0 0 s"
    by (cases s) auto
qed

interpretation document_lc: acyclic_lifecycle documentTransitions "case_DocumentState 2 1 0"
proof
  fix s t
  show "t \<in> set (documentTransitions s) \<Longrightarrow> (case_DocumentState 2 1 0 t :: nat) < case_DocumentState 2 1 0 s"
    by (cases s) auto
qed

interpretation transcript_lc: acyclic_lifecycle transcriptTransitions "case_TranscriptState 1 0"
proof
  fix s t
  show "t \<in> set (transcriptTransitions s) \<Longrightarrow> (case_TranscriptState 1 0 t :: nat) < case_TranscriptState 1 0 s"
    by (cases s) auto
qed

interpretation challenge_lc: acyclic_lifecycle challengeTransitions "case_ChallengeState 1 0 0"
proof
  fix s t
  show "t \<in> set (challengeTransitions s) \<Longrightarrow> (case_ChallengeState 1 0 0 t :: nat) < case_ChallengeState 1 0 0 s"
    by (cases s) auto
qed

interpretation reviewItem_lc: acyclic_lifecycle reviewItemTransitions "case_ReviewItemState 1 0 0 0"
proof
  fix s t
  show "t \<in> set (reviewItemTransitions s) \<Longrightarrow> (case_ReviewItemState 1 0 0 0 t :: nat) < case_ReviewItemState 1 0 0 0 s"
    by (cases s) auto
qed

interpretation resignRequirement_lc: acyclic_lifecycle resignRequirementTransitions "case_ResignRequirementState 1 0"
proof
  fix s t
  show "t \<in> set (resignRequirementTransitions s) \<Longrightarrow> (case_ResignRequirementState 1 0 t :: nat) < case_ResignRequirementState 1 0 s"
    by (cases s) auto
qed

interpretation proxyGrant_lc: acyclic_lifecycle proxyGrantTransitions "case_ProxyGrantState 1 0 0 0"
proof
  fix s t
  show "t \<in> set (proxyGrantTransitions s) \<Longrightarrow> (case_ProxyGrantState 1 0 0 0 t :: nat) < case_ProxyGrantState 1 0 0 0 s"
    by (cases s) auto
qed

interpretation consentStage_lc: acyclic_lifecycle consentStageTransitions "case_ConsentStageState 1 0 0 0 0 0"
proof
  fix s t
  show "t \<in> set (consentStageTransitions s) \<Longrightarrow> (case_ConsentStageState 1 0 0 0 0 0 t :: nat) < case_ConsentStageState 1 0 0 0 0 0 s"
    by (cases s) auto
qed

interpretation wizard_lc: acyclic_lifecycle wizardTransitions "case_WizardState 2 1 0 0 0"
proof
  fix s t
  show "t \<in> set (wizardTransitions s) \<Longrightarrow> (case_WizardState 2 1 0 0 0 t :: nat) < case_WizardState 2 1 0 0 0 s"
    by (cases s) auto
qed

interpretation profile_lc: acyclic_lifecycle profileTransitions "case_ProfileState 2 1 0"
proof
  fix s t
  show "t \<in> set (profileTransitions s) \<Longrightarrow> (case_ProfileState 2 1 0 t :: nat) < case_ProfileState 2 1 0 s"
    by (cases s) auto
qed

interpretation export_lc: acyclic_lifecycle exportTransitions "case_ExportState 6 5 4 3 2 0 1 0"
proof
  fix s t
  show "t \<in> set (exportTransitions s) \<Longrightarrow> (case_ExportState 6 5 4 3 2 0 1 0 t :: nat) < case_ExportState 6 5 4 3 2 0 1 0 s"
    by (cases s) auto
qed

interpretation member_lc: lifecycle memberTransitions "case_MemberState 1 1 1 1 1 0"
proof
  fix s
  show "memberTransitions s \<noteq> [] \<Longrightarrow> \<exists>t\<in>set (memberTransitions s). (case_MemberState 1 1 1 1 1 0 t :: nat) < case_MemberState 1 1 1 1 1 0 s"
    by (cases s) auto
qed

interpretation submission_lc: lifecycle submissionTransitions "case_SubmissionState 1 1 1 0 0"
proof
  fix s
  show "submissionTransitions s \<noteq> [] \<Longrightarrow> \<exists>t\<in>set (submissionTransitions s). (case_SubmissionState 1 1 1 0 0 t :: nat) < case_SubmissionState 1 1 1 0 0 s"
    by (cases s) auto
qed

interpretation meeting_lc: lifecycle meetingTransitions "case_MeetingState 1 1 0 0"
proof
  fix s
  show "meetingTransitions s \<noteq> [] \<Longrightarrow> \<exists>t\<in>set (meetingTransitions s). (case_MeetingState 1 1 0 0 t :: nat) < case_MeetingState 1 1 0 0 s"
    by (cases s) auto
qed

interpretation minutes_lc: lifecycle minutesTransitions "case_MinutesState 1 1 1 0 0"
proof
  fix s
  show "minutesTransitions s \<noteq> [] \<Longrightarrow> \<exists>t\<in>set (minutesTransitions s). (case_MinutesState 1 1 1 0 0 t :: nat) < case_MinutesState 1 1 1 0 0 s"
    by (cases s) auto
qed

interpretation task_lc: lifecycle taskTransitions "case_TaskState 1 1 1 1 0 0 0"
proof
  fix s
  show "taskTransitions s \<noteq> [] \<Longrightarrow> \<exists>t\<in>set (taskTransitions s). (case_TaskState 1 1 1 1 0 0 0 t :: nat) < case_TaskState 1 1 1 1 0 0 0 s"
    by (cases s) auto
qed

interpretation vote_lc: lifecycle voteTransitions "case_VoteState 1 1 1 1 0 0 0"
proof
  fix s
  show "voteTransitions s \<noteq> [] \<Longrightarrow> \<exists>t\<in>set (voteTransitions s). (case_VoteState 1 1 1 1 0 0 0 t :: nat) < case_VoteState 1 1 1 1 0 0 0 s"
    by (cases s) auto
qed

interpretation job_lc: lifecycle jobTransitions "case_JobState 1 1 1 0 0 0"
proof
  fix s
  show "jobTransitions s \<noteq> [] \<Longrightarrow> \<exists>t\<in>set (jobTransitions s). (case_JobState 1 1 1 0 0 0 t :: nat) < case_JobState 1 1 1 0 0 0 s"
    by (cases s) auto
qed

section \<open>Edges into the closing states\<close>

lemma vote_entered_from:
  "vote_closed \<in> set (voteTransitions x) \<Longrightarrow> x = vote_closing"
  "vote_closing \<in> set (voteTransitions x) \<Longrightarrow> x = vote_open"
  by (cases x; simp)+

lemma minutes_entered_from:
  "minutes_finalized \<in> set (minutesTransitions x) \<Longrightarrow> x = minutes_signature_ready"
  "minutes_signature_ready \<in> set (minutesTransitions x) \<Longrightarrow> x = minutes_published_review"
  by (cases x; simp)+

section \<open>Properties\<close>

text \<open>No governed object gets stuck. From every state of the member, submission,
  meeting, minutes, task, vote and job lifecycles, whose tables have cycles, some sequence
  of allowed transitions ends in a final state.\<close>

theorem cyclic_lifecycles_can_finish:
  "(\<exists>t. reaches memberTransitions m t \<and> memberTransitions t = []) \<and>
   (\<exists>t. reaches submissionTransitions su t \<and> submissionTransitions t = []) \<and>
   (\<exists>t. reaches meetingTransitions me t \<and> meetingTransitions t = []) \<and>
   (\<exists>t. reaches minutesTransitions mi t \<and> minutesTransitions t = []) \<and>
   (\<exists>t. reaches taskTransitions ta t \<and> taskTransitions t = []) \<and>
   (\<exists>t. reaches voteTransitions v t \<and> voteTransitions t = []) \<and>
   (\<exists>t. reaches jobTransitions j t \<and> jobTransitions t = [])"
  by (intro conjI member_lc.can_finish_reaches submission_lc.can_finish_reaches
      meeting_lc.can_finish_reaches minutes_lc.can_finish_reaches task_lc.can_finish_reaches
      vote_lc.can_finish_reaches job_lc.can_finish_reaches)

text \<open>One-shot objects change state once. A consent stage, a one-time secret, a
  refresh-token family, a proxy grant and a review item make at most one transition in
  any history, and an export at most six, so none of them is ever used twice.\<close>

theorem one_shot_histories:
  "(run consentStageTransitions s1 n1 = Inr t1 \<longrightarrow> length n1 \<le> 1) \<and>
   (run consumableTransitions s2 n2 = Inr t2 \<longrightarrow> length n2 \<le> 1) \<and>
   (run refreshFamilyTransitions s3 n3 = Inr t3 \<longrightarrow> length n3 \<le> 1) \<and>
   (run proxyGrantTransitions s4 n4 = Inr t4 \<longrightarrow> length n4 \<le> 1) \<and>
   (run reviewItemTransitions s5 n5 = Inr t5 \<longrightarrow> length n5 \<le> 1) \<and>
   (run exportTransitions s6 n6 = Inr t6 \<longrightarrow> length n6 \<le> 6)"
proof (intro conjI impI)
  assume "run consentStageTransitions s1 n1 = Inr t1"
  from consentStage_lc.bounded_history [OF this] show "length n1 \<le> 1" by (cases s1) simp_all
next
  assume "run consumableTransitions s2 n2 = Inr t2"
  from consumable_lc.bounded_history [OF this] show "length n2 \<le> 1" by (cases s2) simp_all
next
  assume "run refreshFamilyTransitions s3 n3 = Inr t3"
  from refreshFamily_lc.bounded_history [OF this] show "length n3 \<le> 1" by (cases s3) simp_all
next
  assume "run proxyGrantTransitions s4 n4 = Inr t4"
  from proxyGrant_lc.bounded_history [OF this] show "length n4 \<le> 1" by (cases s4) simp_all
next
  assume "run reviewItemTransitions s5 n5 = Inr t5"
  from reviewItem_lc.bounded_history [OF this] show "length n5 \<le> 1" by (cases s5) simp_all
next
  assume "run exportTransitions s6 n6 = Inr t6"
  from export_lc.bounded_history [OF this] show "length n6 \<le> 6" by (cases s6) simp_all
qed

theorem one_shot_histories_witness:
  "run consentStageTransitions stage_active [stage_confirmed] = Inr stage_confirmed \<and>
   length [stage_confirmed] \<le> 1 \<and>
   run exportTransitions export_staged
     [export_confirmed, export_queued, export_running, export_succeeded, export_expired, export_deleted] =
     Inr export_deleted \<and>
   length [export_confirmed, export_queued, export_running, export_succeeded, export_expired,
     export_deleted] \<le> 6"
  using one_shot_histories [of stage_active "[stage_confirmed]" stage_confirmed
      _ _ _ _ _ _ _ _ _ _ _ _ export_staged
      "[export_confirmed, export_queued, export_running, export_succeeded, export_expired, export_deleted]"
      export_deleted]
  by simp

text \<open>Property C22: a vote that is closed was opened and then went through closing as its last
  step, and minutes that are finalized were published for review and were made ready for
  signature as the step before.\<close>

theorem no_shortcut_to_closed_or_finalized:
  "(run voteTransitions vote_draft ns = Inr vote_closed \<longrightarrow>
      (\<exists>ms. ns = ms @ [vote_closing, vote_closed] \<and> run voteTransitions vote_draft ms = Inr vote_open)) \<and>
   (run minutesTransitions minutes_unpublished_draft qs = Inr minutes_finalized \<longrightarrow>
      (\<exists>ps. qs = ps @ [minutes_signature_ready, minutes_finalized] \<and>
         run minutesTransitions minutes_unpublished_draft ps = Inr minutes_published_review))"
proof (intro conjI impI)
  assume "run voteTransitions vote_draft ns = Inr vote_closed"
  then show "\<exists>ms. ns = ms @ [vote_closing, vote_closed] \<and> run voteTransitions vote_draft ms = Inr vote_open"
    by (rule run_last_two) (auto dest: vote_entered_from)
next
  assume "run minutesTransitions minutes_unpublished_draft qs = Inr minutes_finalized"
  then show "\<exists>ps. qs = ps @ [minutes_signature_ready, minutes_finalized] \<and>
      run minutesTransitions minutes_unpublished_draft ps = Inr minutes_published_review"
    by (rule run_last_two) (auto dest: minutes_entered_from)
qed

theorem no_shortcut_to_closed_or_finalized_witness:
  "run voteTransitions vote_draft [vote_open, vote_closing, vote_closed] = Inr vote_closed \<and>
   (\<exists>ms. [vote_open, vote_closing, vote_closed] = ms @ [vote_closing, vote_closed] \<and>
      run voteTransitions vote_draft ms = Inr vote_open)"
  using no_shortcut_to_closed_or_finalized [of "[vote_open, vote_closing, vote_closed]" "[]"] by simp

text \<open>A member becomes active, or is suspended, only after enrolling and waiting for
  activation, in that order.\<close>

theorem member_active_after_enrollment:
  assumes "run memberTransitions member_invited ns = Inr t" and "t = member_active \<or> t = member_suspended"
  shows "\<exists>ms ms' ms''. ns = ms @ member_enrollment_pending # ms' @ member_pending_activation # ms''"
proof -
  have e: "y \<in> {member_invited, member_removed} \<or> y = member_enrollment_pending"
    if "x \<in> {member_invited, member_removed}" "y \<in> set (memberTransitions x)" for x y
    using that by auto
  obtain ms rest where ns: "ns = ms @ member_enrollment_pending # rest"
      and r: "run memberTransitions member_enrollment_pending rest = Inr t"
    by (rule run_through_gate [OF e assms(1)]) (use assms(2) in auto)
  have p: "y \<in> {member_enrollment_pending, member_removed} \<or> y = member_pending_activation"
    if "x \<in> {member_enrollment_pending, member_removed}" "y \<in> set (memberTransitions x)" for x y
    using that by auto
  obtain ms' ms'' where "rest = ms' @ member_pending_activation # ms''"
    by (rule run_through_gate [OF p r]) (use assms(2) in auto)
  with ns show ?thesis by blast
qed

theorem member_active_after_enrollment_witness:
  "\<exists>ms ms' ms''. [member_enrollment_pending, member_pending_activation, member_active] =
     ms @ member_enrollment_pending # ms' @ member_pending_activation # ms''"
  by (rule member_active_after_enrollment [of _ member_active]) simp_all

end
