(* ===== verification/Consent.thy ===== *)
theory Consent
  imports Voting_Consent State_Machines
begin

text \<open>
  Staged confirmations, \<^verbatim>\<open>lib/domain/src/consent.ts\<close>. The status of a stage is a state of the
  consent-stage lifecycle. The checks of \<open>verifyConfirmation\<close> are those of the source in its
  order; a digest is compared with \<open>safeHashEqual\<close>.
\<close>

datatype ConfirmationAction = accept_action | decline_action | cancel_action

datatype RefusalReason =
    stage_not_active | expired_reason | declined_reason | request_mismatch | state_mismatch
  | canonical_stale | code_mismatch

datatype ConfirmationResult = Accepted | Refused RefusalReason

record ActionStage =
  as_status :: ConsentStageState
  as_actionType :: jstring
  as_targetId :: jstring
  as_actorMemberId :: jstring
  as_canonicalHash :: jstring
  as_requestHash :: jstring
  as_protectedStateHash :: jstring
  as_confirmationCodeHash :: jstring
  as_expiresAtMs :: jsnum

record ConfirmationAttempt =
  ca_action :: ConfirmationAction
  ca_approve :: bool
  ca_confirmationCode :: jstring
  ca_protectedState :: jstring
  ca_requestHash :: jstring
  ca_canonicalHash :: jstring
  ca_nowMs :: jsnum

definition verifyConfirmation :: "ActionStage \<Rightarrow> ConfirmationAttempt \<Rightarrow> ConfirmationResult result" where
  "verifyConfirmation stage attempt =
     (if \<not> isFinite (as_expiresAtMs stage) \<or> \<not> isFinite (ca_nowMs attempt)
        then throw (RangeError ''consent expiry and clock must be finite timestamps'')
      else if as_status stage \<noteq> stage_active then Inr (Refused stage_not_active)
      else if num_ge (ca_nowMs attempt) (as_expiresAtMs stage) then Inr (Refused expired_reason)
      else if ca_action attempt \<noteq> accept_action \<or> \<not> ca_approve attempt
        then Inr (Refused declined_reason)
      else if \<not> safeHashEqual (as_requestHash stage) (ca_requestHash attempt)
        then Inr (Refused request_mismatch)
      else if \<not> safeHashEqual (as_protectedStateHash stage) (sha256Hex (Text (ca_protectedState attempt)))
        then Inr (Refused state_mismatch)
      else if \<not> safeHashEqual (as_canonicalHash stage) (ca_canonicalHash attempt)
        then Inr (Refused canonical_stale)
      else if \<not> safeHashEqual (as_confirmationCodeHash stage) (sha256Hex (Text (ca_confirmationCode attempt)))
        then Inr (Refused code_mismatch)
      else Inr Accepted)"

section \<open>What acceptance means\<close>

definition confirmation_ok :: "ActionStage \<Rightarrow> ConfirmationAttempt \<Rightarrow> bool" where
  "confirmation_ok stage attempt \<longleftrightarrow>
     as_status stage = stage_active \<and>
     (\<exists>now expiry. ca_nowMs attempt = Fin now \<and> as_expiresAtMs stage = Fin expiry \<and> now < expiry) \<and>
     ca_action attempt = accept_action \<and> ca_approve attempt \<and>
     Sha256HexSchema (as_requestHash stage) \<and> as_requestHash stage = ca_requestHash attempt \<and>
     as_protectedStateHash stage = sha256Hex (Text (ca_protectedState attempt)) \<and>
     Sha256HexSchema (as_canonicalHash stage) \<and> as_canonicalHash stage = ca_canonicalHash attempt \<and>
     as_confirmationCodeHash stage = sha256Hex (Text (ca_confirmationCode attempt))"

lemma isFinite_iff: "isFinite x \<longleftrightarrow> (\<exists>q. x = Fin q)"
  by (cases x) simp_all

lemma verifyConfirmation_accepted:
  "verifyConfirmation stage attempt = Inr Accepted \<longleftrightarrow> confirmation_ok stage attempt"
  using sha256Hex_schema
  by (auto simp: verifyConfirmation_def confirmation_ok_def isFinite_iff safeHashEqual_iff split: if_splits)

section \<open>Properties\<close>

text \<open>Property C25: a confirmation is accepted exactly when the stage is active and not expired, the
  attempt accepts and approves, and request hash, protected state, canonical hash and
  confirmation code all match the stage; every other attempt with finite times is refused
  with a reason, and non-finite times are an error.\<close>

theorem confirmation_accepted_iff:
  "(verifyConfirmation stage attempt = Inr Accepted \<longleftrightarrow> confirmation_ok stage attempt) \<and>
   (isFinite (as_expiresAtMs stage) \<and> isFinite (ca_nowMs attempt) \<or>
     verifyConfirmation stage attempt =
       Inl (RangeError ''consent expiry and clock must be finite timestamps'')) \<and>
   (\<not> isFinite (as_expiresAtMs stage) \<or> \<not> isFinite (ca_nowMs attempt) \<or>
     confirmation_ok stage attempt \<or> (\<exists>reason. verifyConfirmation stage attempt = Inr (Refused reason)))"
  unfolding verifyConfirmation_accepted [symmetric]
  by (auto simp: verifyConfirmation_def)

definition wit_stage :: "jstring \<Rightarrow> ActionStage" where
  "wit_stage canonical = \<lparr>as_status = stage_active, as_actionType = lit ''ballot'', as_targetId = wit_uuid,
     as_actorMemberId = wit_uuid, as_canonicalHash = canonical, as_requestHash = wit_sha,
     as_protectedStateHash = sha256Hex (Text []), as_confirmationCodeHash = sha256Hex (Text (lit ''ABCDEFGH'')),
     as_expiresAtMs = Fin 10\<rparr>"

definition wit_attempt :: "jstring \<Rightarrow> ConfirmationAttempt" where
  "wit_attempt canonical = \<lparr>ca_action = accept_action, ca_approve = True,
     ca_confirmationCode = lit ''ABCDEFGH'', ca_protectedState = [], ca_requestHash = wit_sha,
     ca_canonicalHash = canonical, ca_nowMs = Fin 9\<rparr>"

lemma wit_confirmation:
  "Sha256HexSchema h \<Longrightarrow> verifyConfirmation (wit_stage h) (wit_attempt h) = Inr Accepted"
  by (simp add: verifyConfirmation_accepted confirmation_ok_def wit_stage_def wit_attempt_def)

theorem confirmation_accepted_iff_witness:
  "confirmation_ok (wit_stage wit_sha) (wit_attempt wit_sha)"
  using confirmation_accepted_iff [of "wit_stage wit_sha" "wit_attempt wit_sha"] wit_confirmation [of wit_sha]
  by simp

text \<open>Consent is given to what was staged. When a stage carries the hash of one ballot
  and an accepted attempt the hash of another, the two ballots are the same in every field,
  or their canonical records are a SHA-256 collision.\<close>

theorem accepted_ballot_is_staged_ballot:
  assumes "verifyConfirmation stage attempt = Inr Accepted"
    and "ballotConsentHash pl staged = Inr (as_canonicalHash stage)"
    and "ballotConsentHash pl confirmed = Inr (ca_canonicalHash attempt)"
  shows "confirmed = staged \<or>
     sha256_collision (canonical_bytes (ballot_body confirmed)) (canonical_bytes (ballot_body staged))"
proof -
  have "as_canonicalHash stage = ca_canonicalHash attempt"
    using assms(1) by (simp add: verifyConfirmation_accepted confirmation_ok_def)
  with assms(2) have "ballotConsentHash pl staged = Inr (ca_canonicalHash attempt)" by simp
  from ballot_consent.hash_binds [OF assms(3) this] show ?thesis .
qed

theorem accepted_ballot_is_staged_ballot_witness:
  "wit_ballot_input = wit_ballot_input \<or>
     sha256_collision (canonical_bytes (ballot_body wit_ballot_input)) (canonical_bytes (ballot_body wit_ballot_input))"
proof -
  let ?h = "hex_of_bytes (sha256 (canonical_bytes (ballot_body wit_ballot_input)))"
  have "Sha256HexSchema ?h" using ballot_consent.hash_is_digest [OF wit_ballot_hash] .
  from wit_confirmation [OF this] show ?thesis
    by (rule accepted_ballot_is_staged_ballot [where pl = plain_platform])
      (simp_all add: wit_stage_def wit_attempt_def wit_ballot_hash)
qed

text \<open>A stage is confirmed at most once. Once a stage has left the active state, in
  whatever allowed history, no attempt on it is accepted.\<close>

theorem no_second_confirmation:
  assumes "run consentStageTransitions stage_active (s # ns) = Inr t"
  shows "verifyConfirmation (stage\<lparr>as_status := t\<rparr>) attempt \<noteq> Inr Accepted"
proof -
  have "t \<noteq> stage_active"
    using assms consentStage_lc.bounded_history [OF assms] by (cases ns) auto
  then show ?thesis by (simp add: verifyConfirmation_accepted confirmation_ok_def)
qed

theorem no_second_confirmation_witness:
  "verifyConfirmation ((wit_stage wit_sha)\<lparr>as_status := stage_confirmed\<rparr>) (wit_attempt wit_sha) \<noteq> Inr Accepted"
  by (rule no_second_confirmation [of stage_confirmed "[]"]) simp

end
