(* ===== verification/Registry_Data.thy ===== *)
theory Registry_Data
  imports Prelude
begin

text \<open>
  The frozen tool registry of \<^verbatim>\<open>lib/contracts/src/generated/registry.data.ts\<close>, as the policy reads
  it: the name, class and required authority of each of the 154 tools, in the order of the
  file, and the lookup by name of \<^verbatim>\<open>lib/contracts/src/registry/index.ts\<close>. The prose columns of
  the registry (section, object rule, required evidence), which no code reads, are left out.
\<close>

datatype ToolClass = class_R | class_D | class_H

definition registry_tools_1 :: "(string \<times> ToolClass \<times> string) list" where
  "registry_tools_1 =
    [(''whoami'', class_R, ''authenticated or enrollment-limited token''),
     (''list_my_boards'', class_R, ''`G:R`''),
     (''get_board'', class_R, ''`G:R`''),
     (''get_my_board_snapshot'', class_R, ''`G:R`''),
     (''list_my_updates'', class_R, ''`G:R`''),
     (''list_pending_actions'', class_R, ''`G:R`''),
     (''get_onboarding'', class_R, ''`O:R`''),
     (''get_onboarding_status'', class_R, ''`O:R`''),
     (''prepare_onboarding_attestation'', class_H, ''`O:R`; browser recent-auth completion''),
     (''create_board'', class_H, ''admin + `S:A`''),
     (''update_board'', class_H, ''admin + `S:A`''),
     (''archive_board'', class_H, ''admin + `S:A`''),
     (''get_board_governance_profile'', class_R, ''`G:R`''),
     (''list_approval_rule_templates'', class_R, ''`G:R`''),
     (''configure_board_governance'', class_H, ''admin + `S:A`''),
     (''list_matter_types'', class_R, ''`G:R`''),
     (''evaluate_matter'', class_D, ''secretary/admin + `S:A`'')]"

definition registry_tools_2 :: "(string \<times> ToolClass \<times> string) list" where
  "registry_tools_2 =
    [(''get_ruleset'', class_R, ''`G:R`''),
     (''list_ruleset_versions'', class_R, ''`G:R`''),
     (''validate_ruleset_draft'', class_R, ''admin/secretary + `S:A`''),
     (''manage_ruleset'', class_H, ''admin + `S:A`''),
     (''list_documents'', class_R, ''`D:R`''),
     (''read_document'', class_R, ''`D:R`''),
     (''search_documents'', class_R, ''`D:R`''),
     (''get_document_hash'', class_R, ''`D:R`''),
     (''list_document_versions'', class_R, ''`D:R`''),
     (''get_document_validation_status'', class_R, ''contributor or `D:R`''),
     (''create_document_version'', class_D, ''management/secretary + `D:C`''),
     (''circulate_document'', class_H, ''secretary + `S:A`''),
     (''manage_document_access'', class_H, ''secretary/admin + `S:A`''),
     (''manage_recusal'', class_H, ''secretary/admin + `S:A`''),
     (''archive_document'', class_H, ''secretary/admin + `S:A`''),
     (''soft_delete_document'', class_H, ''admin + `S:A`''),
     (''submit_document_to_secretariat'', class_D, ''management + `D:C`'')]"

definition registry_tools_3 :: "(string \<times> ToolClass \<times> string) list" where
  "registry_tools_3 =
    [(''list_management_submissions'', class_R, ''management/secretary + `G:R`''),
     (''get_management_submission'', class_R, ''management/secretary + `G:R`''),
     (''request_management_revision'', class_D, ''secretary + `S:A`''),
     (''reply_to_management_revision'', class_D, ''submitting management + `D:C`''),
     (''resubmit_management_materials'', class_D, ''submitting management + `D:C`''),
     (''approve_management_submission'', class_D, ''secretary + `S:A`''),
     (''reject_management_submission'', class_D, ''secretary + `S:A`''),
     (''ask_management'', class_D, ''voting member **or observer** + `MQ`''),
     (''list_management_questions'', class_R, ''`G:R`''),
     (''get_management_question'', class_R, ''`G:R`''),
     (''answer_management_question'', class_D, ''assigned management + `MQ`''),
     (''follow_up_management_question'', class_D, ''entitled voting member **or observer** + `MQ`''),
     (''list_meetings'', class_R, ''`G:R`''),
     (''get_agenda'', class_R, ''`G:R`''),
     (''rsvp'', class_D, ''nonobserver board seat + `MT:A`''),
     (''get_attendance'', class_R, ''`G:R`''),
     (''create_meeting'', class_H, ''secretary + `S:A`'')]"

definition registry_tools_4 :: "(string \<times> ToolClass \<times> string) list" where
  "registry_tools_4 =
    [(''amend_meeting'', class_H, ''secretary + `S:A`''),
     (''record_attendance'', class_D, ''secretary + `S:A`''),
     (''correct_attendance'', class_H, ''secretary + `S:A`''),
     (''cancel_meeting'', class_H, ''secretary + `S:A`''),
     (''complete_meeting'', class_H, ''secretary + `S:A`''),
     (''list_meeting_transcripts'', class_R, ''`G:R`''),
     (''get_meeting_transcript'', class_R, ''`G:R`''),
     (''create_meeting_transcript_version'', class_D, ''secretary + `S:A`''),
     (''verify_meeting_transcript'', class_H, ''secretary + `S:A`''),
     (''link_meeting_qna'', class_H, ''secretary + `S:A`''),
     (''challenge_transcript_turn'', class_D, ''entitled nonobserver participant + `S:M`''),
     (''resolve_transcript_challenge'', class_H, ''secretary + `S:A`''),
     (''list_votes'', class_R, ''`G:R`''),
     (''get_vote'', class_R, ''`G:R`''),
     (''get_vote_lineage'', class_R, ''`G:R`''),
     (''stage_ballot'', class_H, ''eligible voting seat + `V:A`''),
     (''grant_proxy'', class_H, ''eligible principal + `P:M`'')]"

definition registry_tools_5 :: "(string \<times> ToolClass \<times> string) list" where
  "registry_tools_5 =
    [(''revoke_proxy'', class_H, ''principal + `P:M`''),
     (''get_proxy_status'', class_R, ''principal/holder/secretary + `G:R`''),
     (''get_vote_certificate'', class_R, ''`G:R` or `A:R`''),
     (''verify_certificate'', class_R, ''authenticated''),
     (''create_vote'', class_H, ''secretary + `S:A`''),
     (''amend_resolution_text'', class_H, ''secretary + `S:A`''),
     (''replace_open_vote'', class_H, ''secretary + `S:A`''),
     (''exclude_pending_vote_source'', class_H, ''secretary + `S:A`''),
     (''extend_vote_deadline'', class_H, ''secretary + `S:A`''),
     (''close_vote'', class_H, ''secretary + `S:A`; only for `secretariat_confirmed` close mode''),
     (''cancel_vote'', class_H, ''secretary + `S:A`''),
     (''get_minutes'', class_R, ''`G:R`''),
     (''list_minutes_versions'', class_R, ''`G:R`''),
     (''get_minutes_lineage'', class_R, ''`G:R`''),
     (''create_minutes_version'', class_D, ''secretary + `S:A`''),
     (''publish_minutes'', class_H, ''secretary + `S:A`''),
     (''list_minutes_review_items'', class_R, ''entitled participant + `G:R`'')]"

definition registry_tools_6 :: "(string \<times> ToolClass \<times> string) list" where
  "registry_tools_6 =
    [(''comment_minutes'', class_D, ''entitled voting member **or observer** + `M:A`''),
     (''withdraw_minutes_comment'', class_D, ''entitled comment author, including observer + `M:A`''),
     (''propose_minutes_redline'', class_D, ''entitled voting member **or observer** + `M:A`''),
     (''resolve_minutes_review_item'', class_H, ''secretary + `S:A`''),
     (''correct_minutes_package'', class_H, ''secretary + `S:A`''),
     (''prepare_minutes_for_signature'', class_H, ''secretary + `S:A`''),
     (''stage_minutes_signature'', class_H, ''configured entitled voting member **or observer** + `M:A`''),
     (''finalize_minutes'', class_H, ''secretary + `S:A`''),
     (''create_minutes_correction_cycle'', class_H, ''secretary + `S:A`''),
     (''cancel_minutes'', class_H, ''secretary + `S:A`''),
     (''list_my_tasks'', class_R, ''`G:R`''),
     (''list_action_items'', class_R, ''`G:R`''),
     (''get_task'', class_R, ''`G:R`''),
     (''get_action_item'', class_R, ''`G:R`''),
     (''log_minutes_action_items'', class_H, ''secretary + `S:A`''),
     (''declare_no_minutes_action_items'', class_H, ''secretary + `S:A`''),
     (''create_task'', class_H, ''secretary + `S:A`'')]"

definition registry_tools_7 :: "(string \<times> ToolClass \<times> string) list" where
  "registry_tools_7 =
    [(''start_task'', class_D, ''assignee + `T:A`''),
     (''submit_task_evidence'', class_D, ''assignee + `T:A`''),
     (''review_task_evidence'', class_H, ''secretary + `S:A`''),
     (''complete_task'', class_H, ''secretary + `S:A`''),
     (''create_task_correction_cycle'', class_H, ''secretary + `S:A`''),
     (''cancel_task'', class_H, ''secretary + `S:A`''),
     (''propose_action'', class_D, ''voting member/management + `MP`''),
     (''withdraw_proposal'', class_D, ''proposer + `MP`''),
     (''list_proposals'', class_R, ''secretary + `S:A`''),
     (''approve_proposal'', class_D, ''secretary + `S:A`''),
     (''reject_proposal'', class_D, ''secretary + `S:A`''),
     (''ask_secretariat'', class_D, ''nonobserver member/management + `S:M`''),
     (''list_secretariat_requests'', class_R, ''requester or secretary + `G:R`''),
     (''reply_secretariat_request'', class_D, ''secretary + `S:A`''),
     (''close_secretariat_request'', class_D, ''requester or secretary + `S:M`''),
     (''list_members'', class_R, ''secretary/admin + `S:A`''),
     (''get_member'', class_R, ''own identity or secretary/admin + `S:A`'')]"

definition registry_tools_8 :: "(string \<times> ToolClass \<times> string) list" where
  "registry_tools_8 =
    [(''manage_member'', class_H, ''Current human admin + `S:A`, OR current human secretary with live exact-board member-administration delegation + `S:A` and strictly allowed operation/target.''),
     (''issue_enrollment'', class_H, ''secretary/admin + `S:A`''),
     (''list_enrollments'', class_R, ''secretary/admin + `S:A`''),
     (''revoke_enrollment'', class_H, ''secretary/admin + `S:A`''),
     (''confirm_enrollment_activation'', class_H, ''secretary/admin + `S:A`''),
     (''initiate_identity_recovery'', class_H, ''secretary/admin + `S:A`''),
     (''list_my_sessions'', class_R, ''authenticated''),
     (''revoke_my_session'', class_H, ''authenticated recent auth''),
     (''list_oauth_clients'', class_R, ''admin + `S:A`''),
     (''block_oauth_client'', class_H, ''admin + `S:A`''),
     (''unblock_oauth_client'', class_H, ''admin + `S:A`''),
     (''link_external_identity'', class_H, ''admin + `S:A` and browser subject proof''),
     (''unlink_external_identity'', class_H, ''admin + `S:A`''),
     (''export_audit_chain'', class_H, ''`A:R` + recent auth''),
     (''verify_audit_chain'', class_R, ''`A:R`''),
     (''export_system_data'', class_H, ''admin + `S:A` + recent auth''),
     (''get_export_status'', class_R, ''requesting principal + original scope'')]"

definition registry_tools_9 :: "(string \<times> ToolClass \<times> string) list" where
  "registry_tools_9 =
    [(''read_export_chunk'', class_R, ''requesting principal + original scope + recent auth''),
     (''cancel_export'', class_H, ''requesting principal + original authority''),
     (''delete_export_artifact'', class_H, ''requesting principal + original authority''),
     (''get_retention_policy'', class_R, ''`A:R` or admin + `S:A`''),
     (''list_my_webhooks'', class_R, ''`N:M`''),
     (''configure_webhook'', class_H, ''`N:M` + recent auth''),
     (''rotate_webhook_secret'', class_H, ''`N:M` + recent auth''),
     (''disable_webhook'', class_H, ''`N:M`''),
     (''test_webhook'', class_D, ''`N:M`''),
     (''list_my_drafts'', class_R, ''secretary/management/member according to draft type''),
     (''resume_draft'', class_R, ''original creator plus current authority''),
     (''cancel_draft'', class_D, ''original creator''),
     (''manage_company_admin'', class_H, ''Current human identity + `S:A`; admin for propose/transfer/revoke, named recipient for accept/decline, proposer/current admin for cancel; exact recent-auth H. Observer identities excluded.''),
     (''manage_member_admin_delegation'', class_H, ''Current human admin + `S:A`; exact recent-auth H.''),
     (''list_administrative_access'', class_R, ''Current human identity + `S:A`; own mode only, or current admin for organization mode.''),
     (''publish_secretary_support'', class_H, ''current board secretary + `S:A`; company admin + `S:A` only for its first support version''),
     (''publish_onboarding_terms'', class_H, ''company admin + `S:A`'')]"

definition registry_tools_10 :: "(string \<times> ToolClass \<times> string) list" where
  "registry_tools_10 =
    [(''reissue_activation'', class_H, ''company admin + `S:A`; current board secretary + `S:A` for a pending seat on their own board. The first setup administrator's own pending activation is served only by the operator CLI mode `bootstrap reissue-first-activation`.'')]"

definition registry_tools :: "(string \<times> ToolClass \<times> string) list" where
  "registry_tools =
     registry_tools_1 @
     registry_tools_2 @
     registry_tools_3 @
     registry_tools_4 @
     registry_tools_5 @
     registry_tools_6 @
     registry_tools_7 @
     registry_tools_8 @
     registry_tools_9 @
     registry_tools_10"

definition BOARDAGENT_TOOL_BY_NAME :: "string \<Rightarrow> (ToolClass \<times> string) option" where
  "BOARDAGENT_TOOL_BY_NAME = map_of registry_tools"

end
