(* ===== verification/Authorize.thy ===== *)
theory Authorize
  imports Registry_Data
begin

text \<open>
  The authorization decision of \<^verbatim>\<open>lib/authz/src/authorize.ts\<close> and the policy of each tool of
  \<^verbatim>\<open>lib/authz/src/surface-policy.ts\<close>: scopes read from the registry's authority text, role gates
  from the frozen cases. The decision is characterized by what it allows, and shown to
  respect the observer, recusal and terminal-object rules for every registered tool.
\<close>

section \<open>Vocabulary\<close>

datatype OrganizationRole = admin_role | secretariat_role | management_role | member_role | observer_role

datatype Scope =
    governance_read | documents_read | vote_act | proxy_manage | minutes_act | member_propose
  | secretariat_admin | audit_read | meeting_act | task_act | documents_contribute
  | secretariat_message | management_question | notifications_manage | onboarding_read

definition OBSERVER_PLATFORM_SELF_SERVICE :: "string list" where
  "OBSERVER_PLATFORM_SELF_SERVICE =
     [''prepare_onboarding_attestation'', ''revoke_my_session'', ''configure_webhook'',
      ''rotate_webhook_secret'', ''disable_webhook'', ''test_webhook'']"

definition OBSERVER_GOVERNANCE_EXCEPTIONS :: "string list" where
  "OBSERVER_GOVERNANCE_EXCEPTIONS =
     [''ask_management'', ''follow_up_management_question'', ''comment_minutes'',
      ''withdraw_minutes_comment'', ''propose_minutes_redline'', ''stage_minutes_signature'']"

definition ONBOARDING_ALLOWED_WHEN_STALE :: "string list" where
  "ONBOARDING_ALLOWED_WHEN_STALE =
     [''whoami'', ''get_onboarding'', ''get_onboarding_status'', ''prepare_onboarding_attestation'']"

record AuthorizationContext =
  ac_memberId :: jstring
  ac_active :: bool
  ac_onboardingCurrent :: bool
  ac_roles :: "OrganizationRole set"
  ac_scopes :: "Scope set"
  ac_memberBoardIds :: "jstring set"

record ObjectContext =
  oc_boardId :: "jstring option"
  oc_ownerMemberId :: "jstring option"
  oc_visible :: bool
  oc_recused :: bool
  oc_terminal :: bool

text \<open>An alternative authority: its scopes, and its roles if it names any.\<close>

type_synonym authority = "Scope list \<times> OrganizationRole list option"

record AuthorizationRequest =
  rq_toolName :: string
  rq_actionClass :: ToolClass
  rq_requiredScopes :: "Scope list"
  rq_requiredAnyAuthority :: "authority list option"
  rq_requiredAnyRoles :: "OrganizationRole list option"
  rq_ownPlatformSelfService :: bool
  rq_allowTerminalRead :: bool

datatype DenialReason =
    inactive_identity | onboarding_required | missing_scope | missing_role | object_absent
  | outside_board | recused_actor | observer_denied | not_owner | terminal_object

datatype AuthorizationDecision = Allowed | Denied DenialReason

section \<open>The decision\<close>

definition scopes_match :: "AuthorizationContext \<Rightarrow> authority \<Rightarrow> bool" where
  "scopes_match actor alternative \<longleftrightarrow> list_all (\<lambda>s. s \<in> ac_scopes actor) (fst alternative)"

definition roles_match :: "AuthorizationContext \<Rightarrow> authority \<Rightarrow> bool" where
  "roles_match actor alternative \<longleftrightarrow>
     (case snd alternative of None \<Rightarrow> True | Some roles \<Rightarrow> list_ex (\<lambda>r. r \<in> ac_roles actor) roles)"

text \<open>The check of \<open>requiredAnyAuthority\<close>: the reason of a denial, if there is one.\<close>

definition authority_denial :: "AuthorizationContext \<Rightarrow> AuthorizationRequest \<Rightarrow> DenialReason option" where
  "authority_denial actor request =
     (case rq_requiredAnyAuthority request of
        None \<Rightarrow> None
      | Some alternatives \<Rightarrow>
          let scopeMatches = filter (scopes_match actor) alternatives
          in if length scopeMatches = 0 then Some missing_scope
             else if \<not> list_ex (roles_match actor) scopeMatches then Some missing_role
             else None)"

definition observer_denial :: "AuthorizationContext \<Rightarrow> AuthorizationRequest \<Rightarrow> bool" where
  "observer_denial actor request \<longleftrightarrow>
     observer_role \<in> ac_roles actor \<and> rq_actionClass request \<noteq> class_R \<and>
     \<not> (rq_ownPlatformSelfService request \<and> rq_toolName request \<in> set OBSERVER_PLATFORM_SELF_SERVICE) \<and>
     \<not> rq_toolName request \<in> set OBSERVER_GOVERNANCE_EXCEPTIONS"

definition authorize :: "AuthorizationContext \<Rightarrow> ObjectContext \<Rightarrow> AuthorizationRequest \<Rightarrow> AuthorizationDecision" where
  "authorize actor object request =
     (if \<not> ac_active actor then Denied inactive_identity
      else if \<not> ac_onboardingCurrent actor \<and> rq_toolName request \<notin> set ONBOARDING_ALLOWED_WHEN_STALE
        then Denied onboarding_required
      else if list_ex (\<lambda>s. s \<notin> ac_scopes actor) (rq_requiredScopes request) then Denied missing_scope
      else case authority_denial actor request of
          Some reason \<Rightarrow> Denied reason
        | None \<Rightarrow>
      if (case rq_requiredAnyRoles request of
            None \<Rightarrow> False
          | Some roles \<Rightarrow> 0 < length roles \<and> \<not> list_ex (\<lambda>r. r \<in> ac_roles actor) roles)
        then Denied missing_role
      else if \<not> oc_visible object then Denied object_absent
      else if oc_recused object then Denied recused_actor
      else if (case oc_boardId object of None \<Rightarrow> False | Some b \<Rightarrow> b \<notin> ac_memberBoardIds actor)
        then Denied outside_board
      else if rq_ownPlatformSelfService request \<and> oc_ownerMemberId object \<noteq> Some (ac_memberId actor)
        then Denied not_owner
      else if observer_denial actor request then Denied observer_denied
      else if oc_terminal object \<and> rq_actionClass request \<noteq> class_R \<and> \<not> rq_allowTerminalRead request
        then Denied terminal_object
      else Allowed)"

section \<open>Policies\<close>

text \<open>The abbreviations of the authority matrix, in the order of the table.\<close>

definition scopeCode :: "(string \<times> Scope) list" where
  "scopeCode =
     [(''G:R'', governance_read), (''D:R'', documents_read), (''V:A'', vote_act),
      (''P:M'', proxy_manage), (''M:A'', minutes_act), (''MP'', member_propose),
      (''S:A'', secretariat_admin), (''A:R'', audit_read), (''MT:A'', meeting_act),
      (''T:A'', task_act), (''D:C'', documents_contribute), (''S:M'', secretariat_message),
      (''MQ'', management_question), (''N:M'', notifications_manage), (''O:R'', onboarding_read)]"

text \<open>\<open>hay.includes(needle)\<close>.\<close>

fun str_starts :: "string \<Rightarrow> string \<Rightarrow> bool" where
  "str_starts [] s = True"
| "str_starts (k # ks) [] = False"
| "str_starts (k # ks) (c # s) = (if k = c then str_starts ks s else False)"

fun str_includes :: "string \<Rightarrow> string \<Rightarrow> bool" where
  "str_includes needle [] = (needle = [])"
| "str_includes needle (c # s) = (if str_starts needle (c # s) then True else str_includes needle s)"

definition scopesFromAuthority :: "string \<Rightarrow> Scope list" where
  "scopesFromAuthority authority =
     map snd (filter (\<lambda>(code, scope). str_includes (''`'' @ code @ ''`'') authority) scopeCode)"

definition admin_tools :: "string list" where
  "admin_tools =
     [''publish_onboarding_terms'', ''create_board'', ''update_board'', ''archive_board'',
      ''configure_board_governance'', ''manage_ruleset'', ''soft_delete_document'',
      ''manage_member_admin_delegation'', ''list_oauth_clients'', ''block_oauth_client'',
      ''unblock_oauth_client'', ''link_external_identity'', ''unlink_external_identity'',
      ''export_system_data'']"

definition secretariat_admin_tools :: "string list" where
  "secretariat_admin_tools =
     [''publish_secretary_support'', ''evaluate_matter'', ''validate_ruleset_draft'',
      ''manage_document_access'', ''manage_recusal'', ''archive_document'', ''list_members'',
      ''manage_member'', ''get_member'', ''issue_enrollment'', ''reissue_activation'',
      ''list_enrollments'', ''revoke_enrollment'', ''confirm_enrollment_activation'',
      ''initiate_identity_recovery'']"

definition secretariat_tools :: "string list" where
  "secretariat_tools =
     [''circulate_document'', ''request_management_revision'', ''approve_management_submission'',
      ''reject_management_submission'', ''create_meeting'', ''amend_meeting'', ''record_attendance'',
      ''correct_attendance'', ''cancel_meeting'', ''complete_meeting'',
      ''create_meeting_transcript_version'', ''verify_meeting_transcript'', ''link_meeting_qna'',
      ''resolve_transcript_challenge'', ''create_vote'', ''amend_resolution_text'',
      ''replace_open_vote'', ''exclude_pending_vote_source'', ''extend_vote_deadline'', ''close_vote'',
      ''cancel_vote'', ''create_minutes_version'', ''publish_minutes'', ''resolve_minutes_review_item'',
      ''correct_minutes_package'', ''prepare_minutes_for_signature'', ''finalize_minutes'',
      ''create_minutes_correction_cycle'', ''cancel_minutes'', ''log_minutes_action_items'',
      ''declare_no_minutes_action_items'', ''create_task'', ''review_task_evidence'', ''complete_task'',
      ''create_task_correction_cycle'', ''cancel_task'', ''list_proposals'', ''reply_secretariat_request'']"

definition management_tools :: "string list" where
  "management_tools =
     [''submit_document_to_secretariat'', ''reply_to_management_revision'',
      ''resubmit_management_materials'', ''answer_management_question'']"

definition member_observer_tools :: "string list" where
  "member_observer_tools =
     [''ask_management'', ''follow_up_management_question'', ''comment_minutes'',
      ''withdraw_minutes_comment'', ''propose_minutes_redline'', ''stage_minutes_signature'']"

definition member_management_tools :: "string list" where
  "member_management_tools = [''propose_action'', ''ask_secretariat'']"

definition rolesForTool :: "string \<Rightarrow> OrganizationRole list option" where
  "rolesForTool toolName =
     (if toolName \<in> set admin_tools then Some [admin_role]
      else if toolName \<in> set secretariat_admin_tools then Some [secretariat_role, admin_role]
      else if toolName \<in> set secretariat_tools then Some [secretariat_role]
      else if toolName \<in> set management_tools then Some [management_role]
      else if toolName \<in> set member_observer_tools then Some [member_role, observer_role]
      else if toolName \<in> set member_management_tools then Some [member_role, management_role]
      else None)"

definition isTerminalCorrection :: "string \<Rightarrow> bool" where
  "isTerminalCorrection toolName \<longleftrightarrow>
     toolName = ''create_minutes_correction_cycle'' \<or> toolName = ''create_task_correction_cycle''"

definition requiredAnyAuthority_of :: "string \<Rightarrow> authority list option" where
  "requiredAnyAuthority_of toolName =
     (if toolName = ''get_vote_certificate'' then Some [([governance_read], None), ([audit_read], None)]
      else if toolName = ''get_retention_policy''
        then Some [([audit_read], None), ([secretariat_admin], Some [admin_role])]
      else None)"

definition policyForTool :: "string \<Rightarrow> AuthorizationRequest result" where
  "policyForTool toolName =
     (case BOARDAGENT_TOOL_BY_NAME toolName of
        None \<Rightarrow> throw (Error (''unregistered BoardAgent tool: '' @ toolName))
      | Some (cls, authority) \<Rightarrow> Inr
          \<lparr>rq_toolName = toolName, rq_actionClass = cls,
           rq_requiredScopes =
             (case requiredAnyAuthority_of toolName of None \<Rightarrow> scopesFromAuthority authority | Some _ \<Rightarrow> []),
           rq_requiredAnyAuthority = requiredAnyAuthority_of toolName,
           rq_requiredAnyRoles = rolesForTool toolName,
           rq_ownPlatformSelfService = (toolName \<in> set OBSERVER_PLATFORM_SELF_SERVICE),
           rq_allowTerminalRead = (cls = class_R \<or> isTerminalCorrection toolName)\<rparr>)"

definition policyForMemberRead :: "jstring \<Rightarrow> jstring \<Rightarrow> AuthorizationRequest result" where
  "policyForMemberRead actorMemberId targetMemberId =
     bindr (policyForTool ''get_member'') (\<lambda>policy.
       if actorMemberId = targetMemberId
       then Inr (policy\<lparr>rq_requiredScopes := [], rq_requiredAnyRoles := Some []\<rparr>)
       else Inr policy)"

section \<open>What the decision allows\<close>

definition authority_ok :: "AuthorizationContext \<Rightarrow> AuthorizationRequest \<Rightarrow> bool" where
  "authority_ok actor request \<longleftrightarrow>
     (\<forall>alternatives. rq_requiredAnyAuthority request = Some alternatives \<longrightarrow>
        (\<exists>alternative\<in>set alternatives. scopes_match actor alternative \<and> roles_match actor alternative))"

definition role_ok :: "AuthorizationContext \<Rightarrow> AuthorizationRequest \<Rightarrow> bool" where
  "role_ok actor request \<longleftrightarrow>
     (\<forall>roles. rq_requiredAnyRoles request = Some roles \<longrightarrow> roles \<noteq> [] \<longrightarrow> set roles \<inter> ac_roles actor \<noteq> {})"

definition object_ok :: "AuthorizationContext \<Rightarrow> ObjectContext \<Rightarrow> AuthorizationRequest \<Rightarrow> bool" where
  "object_ok actor object request \<longleftrightarrow>
     oc_visible object \<and> \<not> oc_recused object \<and>
     (\<forall>b. oc_boardId object = Some b \<longrightarrow> b \<in> ac_memberBoardIds actor) \<and>
     (rq_ownPlatformSelfService request \<longrightarrow> oc_ownerMemberId object = Some (ac_memberId actor)) \<and>
     (oc_terminal object \<longrightarrow> rq_actionClass request = class_R \<or> rq_allowTerminalRead request)"

lemma authority_denial_None: "authority_denial actor request = None \<longleftrightarrow> authority_ok actor request"
proof (cases "rq_requiredAnyAuthority request")
  case (Some alternatives)
  have "filter (scopes_match actor) alternatives \<noteq> [] \<and>
      list_ex (roles_match actor) (filter (scopes_match actor) alternatives) \<longleftrightarrow>
      (\<exists>a\<in>set alternatives. scopes_match actor a \<and> roles_match actor a)"
    by (auto simp: list_ex_iff filter_empty_conv)
  with Some show ?thesis by (auto simp: authority_denial_def authority_ok_def Let_def)
qed (simp add: authority_denial_def authority_ok_def)

lemma role_denial_iff:
  "(case rq_requiredAnyRoles request of None \<Rightarrow> False
     | Some roles \<Rightarrow> 0 < length roles \<and> \<not> list_ex (\<lambda>r. r \<in> ac_roles actor) roles) \<longleftrightarrow> \<not> role_ok actor request"
  by (auto simp: role_ok_def list_ex_iff split: option.split)

lemma authorize_Allowed_iff:
  "authorize actor object request = Allowed \<longleftrightarrow>
     ac_active actor \<and>
     (ac_onboardingCurrent actor \<or> rq_toolName request \<in> set ONBOARDING_ALLOWED_WHEN_STALE) \<and>
     set (rq_requiredScopes request) \<subseteq> ac_scopes actor \<and> authority_ok actor request \<and>
     role_ok actor request \<and> object_ok actor object request \<and> \<not> observer_denial actor request"
proof (cases "authority_denial actor request")
  case None
  then have "authority_ok actor request" by (simp add: authority_denial_None)
  with None show ?thesis
    unfolding authorize_def role_denial_iff object_ok_def
    by (auto simp: list_ex_iff subset_iff split: option.split)
next
  case (Some reason)
  then have "\<not> authority_ok actor request" by (simp flip: authority_denial_None)
  with Some show ?thesis by (auto simp: authorize_def)
qed

lemma policyForTool_cases:
  assumes "policyForTool tool = Inr p"
  obtains cls authority where "map_of registry_tools tool = Some (cls, authority)"
    and "rq_toolName p = tool" and "rq_actionClass p = cls" and "rq_requiredAnyRoles p = rolesForTool tool"
    and "rq_ownPlatformSelfService p \<longleftrightarrow> tool \<in> set OBSERVER_PLATFORM_SELF_SERVICE"
    and "rq_allowTerminalRead p \<longleftrightarrow> cls = class_R \<or> isTerminalCorrection tool"
    and "rq_requiredAnyAuthority p = requiredAnyAuthority_of tool"
    and "rq_requiredScopes p = (if requiredAnyAuthority_of tool = None then scopesFromAuthority authority else [])"
  using assms
  by (auto simp: policyForTool_def BOARDAGENT_TOOL_BY_NAME_def split: option.splits)

section \<open>Properties\<close>

text \<open>Property C27: an action is allowed exactly to an active actor with current onboarding (or on one
  of the four onboarding tools), who holds every required scope, the scopes and one of the roles of one alternative
  authority and one of the required roles, on a visible object of one of the actor's boards
  from which the actor is not recused, owned by the actor for self service and not terminal
  except where corrections are allowed; and when the actor is an observer and the action a change, only with the six
  governance tools, or the six self-service tools as a self service. On objects the actor cannot see the
  decision is the same, whatever the objects are.\<close>

theorem authorize_allows_exactly:
  "(authorize actor object request = Allowed \<longleftrightarrow>
     ac_active actor \<and>
     (ac_onboardingCurrent actor \<or> rq_toolName request \<in>
        {''whoami'', ''get_onboarding'', ''get_onboarding_status'', ''prepare_onboarding_attestation''}) \<and>
     set (rq_requiredScopes request) \<subseteq> ac_scopes actor \<and>
     (\<forall>alternatives. rq_requiredAnyAuthority request = Some alternatives \<longrightarrow>
        (\<exists>(scopes, roles)\<in>set alternatives. set scopes \<subseteq> ac_scopes actor \<and>
           (\<forall>rs. roles = Some rs \<longrightarrow> set rs \<inter> ac_roles actor \<noteq> {}))) \<and>
     (\<forall>roles. rq_requiredAnyRoles request = Some roles \<and> roles \<noteq> [] \<longrightarrow> set roles \<inter> ac_roles actor \<noteq> {}) \<and>
     oc_visible object \<and> \<not> oc_recused object \<and>
     (\<forall>b. oc_boardId object = Some b \<longrightarrow> b \<in> ac_memberBoardIds actor) \<and>
     (rq_ownPlatformSelfService request \<longrightarrow> oc_ownerMemberId object = Some (ac_memberId actor)) \<and>
     (oc_terminal object \<longrightarrow> rq_actionClass request = class_R \<or> rq_allowTerminalRead request) \<and>
     (observer_role \<in> ac_roles actor \<and> rq_actionClass request \<noteq> class_R \<longrightarrow>
        rq_toolName request \<in> {''ask_management'', ''follow_up_management_question'', ''comment_minutes'',
          ''withdraw_minutes_comment'', ''propose_minutes_redline'', ''stage_minutes_signature''} \<or>
        rq_ownPlatformSelfService request \<and> rq_toolName request \<in> {''prepare_onboarding_attestation'',
          ''revoke_my_session'', ''configure_webhook'', ''rotate_webhook_secret'', ''disable_webhook'', ''test_webhook''})) \<and>
   (\<not> oc_visible object \<and> \<not> oc_visible object' \<longrightarrow> authorize actor object request = authorize actor object' request)"
proof -
  have m: "scopes_match actor x \<and> roles_match actor x \<longleftrightarrow> (case x of (scopes, roles) \<Rightarrow> set scopes \<subseteq> ac_scopes actor \<and>
      (\<forall>rs. roles = Some rs \<longrightarrow> set rs \<inter> ac_roles actor \<noteq> {}))" for x
    by (cases x; cases "snd x") (auto simp: scopes_match_def roles_match_def list_all_iff list_ex_iff)
  have a: "authority_ok actor request \<longleftrightarrow> (\<forall>alternatives. rq_requiredAnyAuthority request = Some alternatives \<longrightarrow>
        (\<exists>(scopes, roles)\<in>set alternatives. set scopes \<subseteq> ac_scopes actor \<and>
           (\<forall>rs. roles = Some rs \<longrightarrow> set rs \<inter> ac_roles actor \<noteq> {})))"
    by (simp only: authority_ok_def m)
  have r: "role_ok actor request \<longleftrightarrow> (\<forall>roles. rq_requiredAnyRoles request = Some roles \<and> roles \<noteq> [] \<longrightarrow> set roles \<inter> ac_roles actor \<noteq> {})"
    by (auto simp: role_ok_def)
  have o: "\<not> observer_denial actor request \<longleftrightarrow> (observer_role \<in> ac_roles actor \<and> rq_actionClass request \<noteq> class_R \<longrightarrow>
        rq_toolName request \<in> {''ask_management'', ''follow_up_management_question'', ''comment_minutes'',
          ''withdraw_minutes_comment'', ''propose_minutes_redline'', ''stage_minutes_signature''} \<or>
        rq_ownPlatformSelfService request \<and> rq_toolName request \<in> {''prepare_onboarding_attestation'',
          ''revoke_my_session'', ''configure_webhook'', ''rotate_webhook_secret'', ''disable_webhook'', ''test_webhook''})"
    unfolding observer_denial_def OBSERVER_GOVERNANCE_EXCEPTIONS_def OBSERVER_PLATFORM_SELF_SERVICE_def list.set by blast
  have t: "set ONBOARDING_ALLOWED_WHEN_STALE =
      {''whoami'', ''get_onboarding'', ''get_onboarding_status'', ''prepare_onboarding_attestation''}"
    by (simp only: ONBOARDING_ALLOWED_WHEN_STALE_def list.set)
  have v: "authorize actor object request = authorize actor object' request" if "\<not> oc_visible object \<and> \<not> oc_visible object'"
    using that by (simp add: authorize_def)
  show ?thesis
    unfolding authorize_Allowed_iff a r o t object_ok_def conj_assoc by (rule conjI [OF refl impI]) (rule v)
qed

text \<open>Property C28: what an observer may change. When the policy of a registered tool allows a
  change to an actor with the observer role, the tool is one of the six governance exceptions
  or one of the six self-service tools on an object the actor owns; an object that has
  reached a final state is changed through the two correction tools only.\<close>

theorem observers_and_final_objects:
  assumes "policyForTool tool = Inr p" and "authorize actor object p = Allowed"
    and "rq_actionClass p \<noteq> class_R"
  shows "(observer_role \<in> ac_roles actor \<longrightarrow>
       tool \<in> set OBSERVER_GOVERNANCE_EXCEPTIONS \<or>
       tool \<in> set OBSERVER_PLATFORM_SELF_SERVICE \<and> oc_ownerMemberId object = Some (ac_memberId actor)) \<and>
     (oc_terminal object \<longrightarrow>
       tool = ''create_minutes_correction_cycle'' \<or> tool = ''create_task_correction_cycle'')"
  using assms(2,3) unfolding authorize_Allowed_iff object_ok_def observer_denial_def
  by (rule_tac policyForTool_cases [OF assms(1)]) (auto simp: isTerminalCorrection_def)

text \<open>More authority never takes a permission away. Adding scopes, boards and roles other
  than observer to an actor keeps every allowed action allowed.\<close>

theorem authorize_monotone:
  assumes "authorize actor object request = Allowed"
    and "ac_scopes actor \<subseteq> ac_scopes actor'" and "ac_memberBoardIds actor \<subseteq> ac_memberBoardIds actor'"
    and "ac_roles actor \<subseteq> ac_roles actor'"
    and "observer_role \<in> ac_roles actor' \<longrightarrow> observer_role \<in> ac_roles actor"
    and "ac_active actor'" and "ac_onboardingCurrent actor'" and "ac_memberId actor' = ac_memberId actor"
  shows "authorize actor' object request = Allowed"
proof -
  have "scopes_match actor a \<Longrightarrow> scopes_match actor' a" for a
    using assms(2) by (auto simp: scopes_match_def list_all_iff)
  moreover have "roles_match actor a \<Longrightarrow> roles_match actor' a" for a
    using assms(4) by (auto simp: roles_match_def list_ex_iff split: option.splits)
  ultimately have "authority_ok actor request \<Longrightarrow> authority_ok actor' request"
    unfolding authority_ok_def by blast
  moreover have "role_ok actor request \<Longrightarrow> role_ok actor' request"
    using assms(4) unfolding role_ok_def by blast
  ultimately show ?thesis
    using assms unfolding authorize_Allowed_iff object_ok_def observer_denial_def by auto
qed

definition owner_tools :: "string list" where
  "owner_tools = [''revoke_my_session'', ''cancel_export'', ''delete_export_artifact'', ''cancel_draft'']"

text \<open>A changing tool asks for some authority, or is one of the four.\<close>

definition gated :: "string \<times> ToolClass \<times> string \<Rightarrow> bool" where
  "gated = (\<lambda>(tool, cls, authority).
     if cls = class_R then True else if requiredAnyAuthority_of tool \<noteq> None then False
     else if rolesForTool tool \<noteq> None then True
     else if tool \<in> set owner_tools then True else scopesFromAuthority authority \<noteq> [])"

lemma tools_gated_1: "list_all gated registry_tools_1" by code_simp
lemma tools_gated_2: "list_all gated registry_tools_2" by code_simp
lemma tools_gated_3: "list_all gated registry_tools_3" by code_simp
lemma tools_gated_4: "list_all gated registry_tools_4" by code_simp
lemma tools_gated_5: "list_all gated registry_tools_5" by code_simp
lemma tools_gated_6: "list_all gated registry_tools_6" by code_simp
lemma tools_gated_7: "list_all gated registry_tools_7" by code_simp
lemma tools_gated_8: "list_all gated registry_tools_8" by code_simp
lemma tools_gated_9: "list_all gated registry_tools_9" by code_simp
lemma tools_gated_10: "list_all gated registry_tools_10" by code_simp

lemma tools_gated: "list_all gated registry_tools"
  unfolding registry_tools_def list_all_append
  by (intro conjI tools_gated_1 tools_gated_2 tools_gated_3 tools_gated_4 tools_gated_5 tools_gated_6
      tools_gated_7 tools_gated_8 tools_gated_9 tools_gated_10)

text \<open>No change is open to everyone, but for the four \<open>owner_tools\<close>: an allowed change through another registered tool is
  made by an actor who holds at least one of the tool's scopes or one of its roles. Of the four, only
  the revocation of a session is checked here to be the actor's own; the handlers check the others.\<close>

theorem changes_need_authority:
  assumes "policyForTool tool = Inr p" and "authorize actor object p = Allowed"
    and "rq_actionClass p \<noteq> class_R" and "tool \<notin> set owner_tools"
  shows "(\<exists>roles. rq_requiredAnyRoles p = Some roles \<and> set roles \<inter> ac_roles actor \<noteq> {}) \<or>
     (\<exists>scope. scope \<in> set (rq_requiredScopes p) \<and> scope \<in> ac_scopes actor)"
proof -
  obtain cls authority where t: "map_of registry_tools tool = Some (cls, authority)"
    and p: "rq_actionClass p = cls" "rq_requiredAnyRoles p = rolesForTool tool"
      "rq_requiredScopes p = (if requiredAnyAuthority_of tool = None then scopesFromAuthority authority else [])"
    by (rule policyForTool_cases [OF assms(1)])
  from t have "(tool, cls, authority) \<in> set registry_tools" by (rule map_of_SomeD)
  with tools_gated have "gated (tool, cls, authority)" by (simp add: list_all_iff)
  moreover have "rolesForTool tool = Some roles \<Longrightarrow> roles \<noteq> []" for roles
    by (auto simp: rolesForTool_def split: if_splits)
  ultimately show ?thesis
    using assms(3,4) \<open>authorize actor object p = Allowed\<close> p
    unfolding authorize_Allowed_iff role_ok_def gated_def
    by (cases "rolesForTool tool") (auto split: if_splits dest: hd_in_set)
qed

definition wit_policy :: AuthorizationRequest where
  "wit_policy =
     \<lparr>rq_toolName = ''prepare_onboarding_attestation'', rq_actionClass = class_H,
      rq_requiredScopes = [onboarding_read], rq_requiredAnyAuthority = None, rq_requiredAnyRoles = None,
      rq_ownPlatformSelfService = True, rq_allowTerminalRead = False\<rparr>"

lemma wit_policy: "policyForTool ''prepare_onboarding_attestation'' = Inr wit_policy"
  by code_simp

definition wit_observer :: AuthorizationContext where
  "wit_observer = \<lparr>ac_memberId = lit ''m'', ac_active = True, ac_onboardingCurrent = False,
     ac_roles = {observer_role}, ac_scopes = {onboarding_read}, ac_memberBoardIds = {}\<rparr>"

definition wit_object :: ObjectContext where
  "wit_object = \<lparr>oc_boardId = None, oc_ownerMemberId = Some (lit ''m''), oc_visible = True,
     oc_recused = False, oc_terminal = False\<rparr>"

lemma wit_observer_allowed: "authorize wit_observer wit_object wit_policy = Allowed"
  by (simp add: authorize_def wit_observer_def wit_object_def wit_policy_def authority_denial_def
      observer_denial_def OBSERVER_PLATFORM_SELF_SERVICE_def ONBOARDING_ALLOWED_WHEN_STALE_def)

text \<open>An observer attests an onboarding, and is refused a change that is reserved.\<close>

theorem authorize_allows_exactly_witness:
  "authorize wit_observer wit_object wit_policy = Allowed \<and>
   authorize wit_observer wit_object (wit_policy\<lparr>rq_ownPlatformSelfService := False\<rparr>) \<noteq> Allowed \<and>
   authorize wit_observer (wit_object\<lparr>oc_visible := False\<rparr>) wit_policy =
     authorize wit_observer (wit_object\<lparr>oc_visible := False, oc_terminal := True, oc_recused := True\<rparr>) wit_policy"
  unfolding authorize_allows_exactly [THEN conjunct1]
  using authorize_allows_exactly [THEN conjunct2, of "wit_object\<lparr>oc_visible := False\<rparr>"
      "wit_object\<lparr>oc_visible := False, oc_terminal := True, oc_recused := True\<rparr>" wit_observer wit_policy]
  by (simp add: wit_observer_def wit_object_def wit_policy_def)

theorem changes_need_authority_witness:
  "\<exists>scope. scope \<in> set (rq_requiredScopes wit_policy) \<and> scope \<in> ac_scopes wit_observer"
  using changes_need_authority [OF wit_policy wit_observer_allowed]
  by (simp add: wit_policy_def owner_tools_def)

theorem observers_and_final_objects_witness:
  "''prepare_onboarding_attestation'' \<in> set OBSERVER_GOVERNANCE_EXCEPTIONS \<or>
   ''prepare_onboarding_attestation'' \<in> set OBSERVER_PLATFORM_SELF_SERVICE \<and>
     oc_ownerMemberId wit_object = Some (ac_memberId wit_observer)"
  using observers_and_final_objects [OF wit_policy wit_observer_allowed]
  by (simp add: wit_policy_def wit_observer_def)

theorem authorize_monotone_witness:
  "authorize (wit_observer\<lparr>ac_onboardingCurrent := True, ac_roles := {observer_role, member_role},
     ac_scopes := {onboarding_read, vote_act}\<rparr>) wit_object wit_policy = Allowed"
  by (rule authorize_monotone [OF wit_observer_allowed]) (auto simp: wit_observer_def)

end
