(* ===== verification/Ruleset.thy ===== *)
theory Ruleset
  imports Voting_Consent
begin

text \<open>
  The matter rules of \<^verbatim>\<open>lib/ruleset/src/schema.ts\<close> and \<^verbatim>\<open>evaluate.ts\<close>: declared facts,
  condition trees, and the evaluation that selects one rule or reports why there is none. A
  number among the facts is an integer. Facts are the own entries of their object in
  enumeration order. The language's locale-dependent string order, which breaks the last tie
  when candidates are listed, is the argument \<open>lc\<close>.
\<close>

section \<open>Schemas\<close>

datatype MatterValue = MBool bool | MInt int | MStr jstring | MNull

definition MatterValueSchema :: "MatterValue \<Rightarrow> bool" where
  "MatterValueSchema v =
     (case v of MInt n \<Rightarrow> isSafeInteger n | MStr s \<Rightarrow> length s \<le> 4096 | _ \<Rightarrow> True)"

definition name_char :: "16 word \<Rightarrow> bool" where
  "name_char c \<longleftrightarrow> is_lower c \<or> is_digit c \<or> is_char CHR ''_'' c"

definition MatterFieldNameSchema :: "jstring \<Rightarrow> bool" where
  "MatterFieldNameSchema s =
     (case s of [] \<Rightarrow> False | c # cs \<Rightarrow> is_lower c \<and> length cs \<le> 127 \<and> list_all name_char cs)"

datatype MatterField =
    BooleanField (mf_name: jstring) (mf_required: bool)
  | IntegerField (mf_name: jstring) (mf_required: bool) (mf_minimum: "int option") (mf_maximum: "int option")
  | StringField (mf_name: jstring) (mf_required: bool) (mf_maxLength: int)

fun MatterFieldSchema :: "MatterField \<Rightarrow> bool" where
  "MatterFieldSchema (BooleanField name required) = MatterFieldNameSchema name"
| "MatterFieldSchema (IntegerField name required minimum maximum) =
     (MatterFieldNameSchema name \<and> pred_option isSafeInteger minimum \<and> pred_option isSafeInteger maximum)"
| "MatterFieldSchema (StringField name required maxLength) =
     (MatterFieldNameSchema name \<and> 0 < maxLength \<and> maxLength \<le> 262144)"

record MatterType =
  mt_code :: jstring
  mt_fields :: "MatterField list"

text \<open>The refinement of a matter type: no issue is added by the loop over its fields.\<close>

fun integer_bounds_ok :: "MatterField \<Rightarrow> bool" where
  "integer_bounds_ok (IntegerField _ _ (Some lo) (Some hi)) = (\<not> hi < lo)"
| "integer_bounds_ok _ = True"

fun matter_fields_ok :: "jstring list \<Rightarrow> MatterField list \<Rightarrow> bool" where
  "matter_fields_ok names [] = True"
| "matter_fields_ok names (field # rest) =
     (mf_name field \<notin> set names \<and> integer_bounds_ok field \<and>
      matter_fields_ok (set_add names (mf_name field)) rest)"

definition MatterTypeSchema :: "MatterType \<Rightarrow> bool" where
  "MatterTypeSchema t \<longleftrightarrow>
     MatterFieldNameSchema (mt_code t) \<and>
     1 \<le> length (mt_fields t) \<and> length (mt_fields t) \<le> 128 \<and>
     list_all MatterFieldSchema (mt_fields t) \<and>
     matter_fields_ok [] (mt_fields t)"

datatype Condition =
    CAll "Condition list"
  | CAny "Condition list"
  | CNot Condition
  | CExists jstring
  | CEquals jstring MatterValue
  | CIn jstring "MatterValue list"
  | CNumberGte jstring int
  | CNumberLte jstring int

fun ConditionSchema :: "Condition \<Rightarrow> bool" where
  "ConditionSchema (CAll cs) = (1 \<le> length cs \<and> length cs \<le> 64 \<and> list_all ConditionSchema cs)"
| "ConditionSchema (CAny cs) = (1 \<le> length cs \<and> length cs \<le> 64 \<and> list_all ConditionSchema cs)"
| "ConditionSchema (CNot c) = ConditionSchema c"
| "ConditionSchema (CExists field) = MatterFieldNameSchema field"
| "ConditionSchema (CEquals field v) = (MatterFieldNameSchema field \<and> MatterValueSchema v)"
| "ConditionSchema (CIn field vs) =
     (MatterFieldNameSchema field \<and> 1 \<le> length vs \<and> length vs \<le> 128 \<and> list_all MatterValueSchema vs)"
| "ConditionSchema (CNumberGte field n) = (MatterFieldNameSchema field \<and> isSafeInteger n)"
| "ConditionSchema (CNumberLte field n) = (MatterFieldNameSchema field \<and> isSafeInteger n)"

record Citation =
  ct_sourceDocumentVersionId :: jstring
  ct_sourceDocumentSha256 :: jstring
  ct_clause :: jstring
  ct_locator :: jstring

definition CitationSchema :: "Citation \<Rightarrow> bool" where
  "CitationSchema c \<longleftrightarrow>
     UuidSchema (ct_sourceDocumentVersionId c) \<and> Sha256HexSchema (ct_sourceDocumentSha256 c) \<and>
     1 \<le> length (ct_clause c) \<and> length (ct_clause c) \<le> 512 \<and>
     1 \<le> length (ct_locator c) \<and> length (ct_locator c) \<le> 1024"

record Rule =
  rl_id :: jstring
  rl_matterType :: jstring
  rl_priority :: int
  rl_specificity :: int
  rl_condition :: Condition
  rl_approvalRuleId :: jstring
  rl_citations :: "Citation list"

definition RuleSchema :: "Rule \<Rightarrow> bool" where
  "RuleSchema r \<longleftrightarrow>
     UuidSchema (rl_id r) \<and>
     1 \<le> length (rl_matterType r) \<and> length (rl_matterType r) \<le> 128 \<and>
     0 \<le> rl_priority r \<and> rl_priority r \<le> 1000000 \<and>
     0 \<le> rl_specificity r \<and> rl_specificity r \<le> 1000000 \<and>
     ConditionSchema (rl_condition r) \<and>
     UuidSchema (rl_approvalRuleId r) \<and>
     1 \<le> length (rl_citations r) \<and> length (rl_citations r) \<le> 64 \<and>
     list_all CitationSchema (rl_citations r)"

text \<open>
  The traversal that collects the fields of a condition and counts depth and nodes; the
  triple is the mutable set and the two counters.
\<close>

fun conditionFields :: "nat \<Rightarrow> jstring list \<times> nat \<times> nat \<Rightarrow> Condition \<Rightarrow> jstring list \<times> nat \<times> nat" where
  "conditionFields depth (seen, d, n) (CAll cs) =
     foldl (conditionFields (Suc depth)) (seen, max d depth, Suc n) cs"
| "conditionFields depth (seen, d, n) (CAny cs) =
     foldl (conditionFields (Suc depth)) (seen, max d depth, Suc n) cs"
| "conditionFields depth (seen, d, n) (CNot c) =
     conditionFields (Suc depth) (seen, max d depth, Suc n) c"
| "conditionFields depth (seen, d, n) (CExists field) = (set_add seen field, max d depth, Suc n)"
| "conditionFields depth (seen, d, n) (CEquals field v) = (set_add seen field, max d depth, Suc n)"
| "conditionFields depth (seen, d, n) (CIn field vs) = (set_add seen field, max d depth, Suc n)"
| "conditionFields depth (seen, d, n) (CNumberGte field m) = (set_add seen field, max d depth, Suc n)"
| "conditionFields depth (seen, d, n) (CNumberLte field m) = (set_add seen field, max d depth, Suc n)"

record RulesetVersion =
  rs_id :: jstring
  rs_boardId :: jstring
  rs_version :: int
  rs_canonicalHash :: jstring
  rs_matterTypes :: "MatterType list"
  rs_rules :: "Rule list"

fun distinct_codes :: "(jstring \<times> MatterType) list \<Rightarrow> MatterType list \<Rightarrow> bool" where
  "distinct_codes definitions [] = True"
| "distinct_codes definitions (t # ts) =
     (\<not> map_has definitions (mt_code t) \<and> distinct_codes (map_set (mt_code t) t definitions) ts)"

fun rules_ok :: "(jstring \<times> MatterType) list \<Rightarrow> jstring list \<Rightarrow> Rule list \<Rightarrow> bool" where
  "rules_ok definitions ruleIds [] = True"
| "rules_ok definitions ruleIds (rule # rules) =
     (rl_id rule \<notin> set ruleIds \<and>
      (case map_of definitions (rl_matterType rule) of
         None \<Rightarrow> False
       | Some t \<Rightarrow>
           (case conditionFields 1 ([], 0, 0) (rl_condition rule) of (seen, depth, nodes) \<Rightarrow>
              list_all (\<lambda>field. field \<in> mf_name ` set (mt_fields t)) seen \<and>
              \<not> (16 < depth \<or> 512 < nodes))) \<and>
      rules_ok definitions (set_add ruleIds (rl_id rule)) rules)"

definition RulesetVersionSchema :: "RulesetVersion \<Rightarrow> bool" where
  "RulesetVersionSchema rs \<longleftrightarrow>
     UuidSchema (rs_id rs) \<and> UuidSchema (rs_boardId rs) \<and>
     0 < rs_version rs \<and> isSafeInteger (rs_version rs) \<and>
     Sha256HexSchema (rs_canonicalHash rs) \<and>
     1 \<le> length (rs_matterTypes rs) \<and> length (rs_matterTypes rs) \<le> 1000 \<and>
     list_all MatterTypeSchema (rs_matterTypes rs) \<and>
     1 \<le> length (rs_rules rs) \<and> length (rs_rules rs) \<le> 10000 \<and> list_all RuleSchema (rs_rules rs) \<and>
     distinct_codes [] (rs_matterTypes rs) \<and>
     rules_ok (map (\<lambda>t. (mt_code t, t)) (rs_matterTypes rs)) [] (rs_rules rs)"

section \<open>Evaluation\<close>

type_synonym MatterFacts = "(jstring \<times> MatterValue) list"

fun value_json :: "MatterValue \<Rightarrow> json" where
  "value_json (MBool b) = JBool b"
| "value_json (MInt n) = JNum n"
| "value_json (MStr s) = JStr s"
| "value_json MNull = JNull"

definition facts_json :: "MatterFacts \<Rightarrow> json" where
  "facts_json facts = JObj (map (\<lambda>(k, v). (k, value_json v)) facts)"

definition isSame :: "platform \<Rightarrow> MatterValue \<Rightarrow> MatterValue \<Rightarrow> bool result" where
  "isSame pl left right =
     bindr (canonicalSha256 pl (value_json left)) (\<lambda>l.
     bindr (canonicalSha256 pl (value_json right)) (\<lambda>r. Inr (l = r)))"

definition fact_or_null :: "MatterFacts \<Rightarrow> jstring \<Rightarrow> MatterValue" where
  "fact_or_null facts field = (case map_of facts field of None \<Rightarrow> MNull | Some v \<Rightarrow> v)"

fun conditionMatches :: "platform \<Rightarrow> MatterFacts \<Rightarrow> Condition \<Rightarrow> bool result" where
  "conditionMatches pl facts (CAll cs) = everyr (conditionMatches pl facts) cs"
| "conditionMatches pl facts (CAny cs) = somer (conditionMatches pl facts) cs"
| "conditionMatches pl facts (CNot c) = bindr (conditionMatches pl facts c) (\<lambda>b. Inr (\<not> b))"
| "conditionMatches pl facts (CExists field) =
     Inr (map_has facts field \<and> map_of facts field \<noteq> Some MNull)"
| "conditionMatches pl facts (CEquals field v) =
     (if map_has facts field then isSame pl (fact_or_null facts field) v else Inr False)"
| "conditionMatches pl facts (CIn field vs) =
     (if map_has facts field then somer (isSame pl (fact_or_null facts field)) vs else Inr False)"
| "conditionMatches pl facts (CNumberGte field n) =
     Inr (case map_of facts field of Some (MInt v) \<Rightarrow> n \<le> v | _ \<Rightarrow> False)"
| "conditionMatches pl facts (CNumberLte field n) =
     Inr (case map_of facts field of Some (MInt v) \<Rightarrow> v \<le> n | _ \<Rightarrow> False)"

datatype MatterEvaluation =
    Matched (me_rulesetId: jstring) (me_rulesetVersion: int) (me_factsHash: jstring) (me_rule: Rule)
  | NoMatch (me_rulesetId: jstring) (me_rulesetVersion: int) (me_factsHash: jstring)
      (me_candidateRuleIds: "jstring list")
  | Ambiguous (me_rulesetId: jstring) (me_rulesetVersion: int) (me_factsHash: jstring)
      (me_candidateRuleIds: "jstring list")
  | Missing (me_rulesetId: jstring) (me_rulesetVersion: int) (me_factsHash: jstring)
      (me_missingFields: "jstring list")

fun assertFactValue :: "MatterField \<Rightarrow> MatterValue \<Rightarrow> unit result" where
  "assertFactValue field MNull = Inr ()"
| "assertFactValue (BooleanField name _) v =
     (case v of MBool _ \<Rightarrow> Inr () | _ \<Rightarrow> throw (TypeErrorOn ''matter fact must be boolean'' name))"
| "assertFactValue (IntegerField name _ minimum maximum) v =
     (case v of
        MInt n \<Rightarrow>
          if \<not> isSafeInteger n then throw (TypeErrorOn ''matter fact must be a safe integer'' name)
          else if (case minimum of None \<Rightarrow> False | Some lo \<Rightarrow> n < lo)
            then throw (RangeErrorOn ''matter fact is below its minimum'' name)
          else if (case maximum of None \<Rightarrow> False | Some hi \<Rightarrow> hi < n)
            then throw (RangeErrorOn ''matter fact is above its maximum'' name)
          else Inr ()
      | _ \<Rightarrow> throw (TypeErrorOn ''matter fact must be a safe integer'' name))"
| "assertFactValue (StringField name _ maxLength) v =
     (case v of
        MStr s \<Rightarrow>
          if maxLength < int (length s)
            then throw (RangeErrorOn ''matter fact exceeds maxLength'' name)
          else Inr ()
      | _ \<Rightarrow> throw (TypeErrorOn ''matter fact must be string'' name))"

definition validateFacts :: "MatterType \<Rightarrow> MatterFacts \<Rightarrow> jstring list result" where
  "validateFacts t facts =
     (let declared = foldl (\<lambda>m field. map_set (mf_name field) field m) [] (mt_fields t) in
      bindr (mapr (\<lambda>(name, v).
          case map_of declared name of
            None \<Rightarrow> throw (TypeErrorOn ''unknown matter fact: '' name)
          | Some field \<Rightarrow> assertFactValue field v) facts)
        (\<lambda>_. Inr (sort (map mf_name (filter (\<lambda>field. mf_required field \<and>
            (\<not> map_has facts (mf_name field) \<or> map_of facts (mf_name field) = Some MNull))
          (mt_fields t))))))"

text \<open>The order of the candidates: \<open>a || b\<close> on numbers is \<open>a\<close> unless that is zero.\<close>

definition js_or :: "int \<Rightarrow> int \<Rightarrow> int" where
  "js_or a b = (if a \<noteq> 0 then a else b)"

definition rule_order :: "(jstring \<Rightarrow> jstring \<Rightarrow> int) \<Rightarrow> Rule \<Rightarrow> Rule \<Rightarrow> int" where
  "rule_order lc left right =
     js_or (rl_priority right - rl_priority left)
       (js_or (rl_specificity right - rl_specificity left) (lc (rl_id left) (rl_id right)))"

definition matchingRules :: "platform \<Rightarrow> jstring \<Rightarrow> MatterFacts \<Rightarrow> Rule list \<Rightarrow> Rule list result" where
  "matchingRules pl matterType facts rules =
     filterr (\<lambda>rule. if rl_matterType rule = matterType
                     then conditionMatches pl facts (rl_condition rule) else Inr False) rules"

definition evaluateMatter ::
    "platform \<Rightarrow> (jstring \<Rightarrow> jstring \<Rightarrow> int) \<Rightarrow> RulesetVersion \<Rightarrow> jstring \<Rightarrow> MatterFacts \<Rightarrow>
     MatterEvaluation result" where
  "evaluateMatter pl lc rs matterType facts =
     bindr (canonicalSha256 pl (facts_json facts)) (\<lambda>factsHash.
       case find (\<lambda>t. mt_code t = matterType) (rs_matterTypes rs) of
         None \<Rightarrow> throw (TypeErrorOn ''unknown matter type: '' matterType)
       | Some t \<Rightarrow>
           bindr (validateFacts t facts) (\<lambda>missingFields.
             if 0 < length missingFields
               then Inr (Missing (rs_id rs) (rs_version rs) factsHash missingFields)
             else bindr (matchingRules pl matterType facts (rs_rules rs)) (\<lambda>matching.
               case toSorted (rule_order lc) matching of
                 [] \<Rightarrow> Inr (NoMatch (rs_id rs) (rs_version rs) factsHash [])
               | first # rest \<Rightarrow>
                   let tied = filter (\<lambda>c. rl_priority c = rl_priority first \<and>
                                         rl_specificity c = rl_specificity first) (first # rest) in
                   if length tied \<noteq> 1
                     then Inr (Ambiguous (rs_id rs) (rs_version rs) factsHash (map rl_id tied))
                     else Inr (Matched (rs_id rs) (rs_version rs) factsHash first))))"

section \<open>Condition trees\<close>

fun cond_fields :: "Condition \<Rightarrow> jstring set" where
  "cond_fields (CAll cs) = (\<Union>c\<in>set cs. cond_fields c)"
| "cond_fields (CAny cs) = (\<Union>c\<in>set cs. cond_fields c)"
| "cond_fields (CNot c) = cond_fields c"
| "cond_fields (CExists field) = {field}"
| "cond_fields (CEquals field v) = {field}"
| "cond_fields (CIn field vs) = {field}"
| "cond_fields (CNumberGte field n) = {field}"
| "cond_fields (CNumberLte field n) = {field}"

fun cond_depth :: "Condition \<Rightarrow> nat" where
  "cond_depth (CAll cs) = Suc (foldr max (map cond_depth cs) 0)"
| "cond_depth (CAny cs) = Suc (foldr max (map cond_depth cs) 0)"
| "cond_depth (CNot c) = Suc (cond_depth c)"
| "cond_depth _ = 1"

fun cond_nodes :: "Condition \<Rightarrow> nat" where
  "cond_nodes (CAll cs) = Suc (\<Sum>c\<leftarrow>cs. cond_nodes c)"
| "cond_nodes (CAny cs) = Suc (\<Sum>c\<leftarrow>cs. cond_nodes c)"
| "cond_nodes (CNot c) = Suc (cond_nodes c)"
| "cond_nodes _ = 1"

definition gathered :: "nat \<Rightarrow> jstring list \<times> nat \<times> nat \<Rightarrow> Condition list \<Rightarrow> jstring list \<times> nat \<times> nat \<Rightarrow> bool" where
  "gathered depth a cs b \<longleftrightarrow>
     set (fst b) = set (fst a) \<union> (\<Union>c\<in>set cs. cond_fields c) \<and>
     Suc (fst (snd b)) = foldr max (map (\<lambda>c. depth + cond_depth c) cs) (Suc (fst (snd a))) \<and>
     snd (snd b) = snd (snd a) + (\<Sum>c\<leftarrow>cs. cond_nodes c)"

lemma foldr_max_start: "foldr max xs (max a b) = max a (foldr max xs (b :: nat))"
  by (induction xs) auto

lemma gathered_Nil: "gathered depth a [] a"
  by (simp add: gathered_def)

lemma gathered_Cons: "gathered depth a [c] b \<Longrightarrow> gathered depth b cs x \<Longrightarrow> gathered depth a (c # cs) x"
  by (auto simp: gathered_def foldr_max_start max.commute)

lemma gathered_foldl:
  assumes "\<And>c a. c \<in> set cs \<Longrightarrow> gathered depth a [c] (f a c)"
  shows "gathered depth a cs (foldl f a cs)"
  using assms
proof (induction cs arbitrary: a)
  case Nil
  then show ?case by (simp add: gathered_Nil)
next
  case (Cons c cs)
  have "gathered depth (f a c) cs (foldl f (f a c) cs)"
    by (rule Cons.IH) (simp add: Cons.prems)
  with Cons.prems [of c a] show ?case by (auto intro: gathered_Cons)
qed

lemma gathered_node:
  assumes "gathered (Suc depth) (seen, max d depth, Suc n) cs b"
    and "cond_fields c = (\<Union>c\<in>set cs. cond_fields c)"
    and "cond_depth c = Suc (foldr max (map cond_depth cs) 0)"
    and "cond_nodes c = Suc (\<Sum>c\<leftarrow>cs. cond_nodes c)"
  shows "gathered depth (seen, d, n) [c] b"
proof -
  have "foldr max (map (\<lambda>c. Suc depth + cond_depth c) cs) (Suc (max d depth)) =
      max (Suc (depth + foldr max (map cond_depth cs) 0)) (Suc d)"
    by (induction cs) auto
  then show ?thesis using assms by (simp add: gathered_def)
qed

lemma conditionFields_gathered: "gathered depth a [c] (conditionFields depth a c)"
proof (induction depth a c rule: conditionFields.induct)
  case (1 depth fields d n cs)
  then have "gathered (Suc depth) (fields, max d depth, Suc n) cs
      (foldl (conditionFields (Suc depth)) (fields, max d depth, Suc n) cs)"
    by (intro gathered_foldl) blast
  then show ?case by (auto intro!: gathered_node)
next
  case (2 depth fields d n cs)
  then have "gathered (Suc depth) (fields, max d depth, Suc n) cs
      (foldl (conditionFields (Suc depth)) (fields, max d depth, Suc n) cs)"
    by (intro gathered_foldl) blast
  then show ?case by (auto intro!: gathered_node)
next
  case (3 depth fields d n c)
  then show ?case by (auto intro!: gathered_node [of _ _ _ _ "[c]"])
qed (auto simp: gathered_def)

lemma conditionFields_spec:
  assumes "conditionFields 1 ([], 0, 0) c = (seen, depth, nodes)"
  shows "set seen = cond_fields c" and "depth = cond_depth c" and "nodes = cond_nodes c"
proof -
  have "gathered 1 ([], 0, 0) [c] (seen, depth, nodes)"
    using conditionFields_gathered [of 1 "([], 0, 0)" c] by (simp only: assms)
  moreover have "1 \<le> cond_depth c" by (cases c) simp_all
  ultimately show "set seen = cond_fields c" "depth = cond_depth c" "nodes = cond_nodes c"
    by (auto simp: gathered_def)
qed

lemma distinct_codes_iff:
  "distinct_codes ds ts \<longleftrightarrow> distinct (map mt_code ts) \<and> fst ` set ds \<inter> mt_code ` set ts = {}"
proof (induction ts arbitrary: ds)
  case (Cons t ts)
  have "map_has ds k \<longleftrightarrow> k \<in> fst ` set ds" for k
    by (metis map_of_eq_None_iff)
  then show ?case by (auto simp: Cons.IH keys_map_set)
qed simp

lemma matter_fields_ok_iff:
  "matter_fields_ok names fs \<longleftrightarrow>
     distinct (map mf_name fs) \<and> set names \<inter> mf_name ` set fs = {} \<and> list_all integer_bounds_ok fs"
  by (induction fs arbitrary: names) auto

definition rule_ok :: "(jstring \<times> MatterType) list \<Rightarrow> Rule \<Rightarrow> bool" where
  "rule_ok ds r \<longleftrightarrow> (\<exists>t. map_of ds (rl_matterType r) = Some t \<and>
     cond_fields (rl_condition r) \<subseteq> mf_name ` set (mt_fields t) \<and>
     cond_depth (rl_condition r) \<le> 16 \<and> cond_nodes (rl_condition r) \<le> 512)"

lemma rules_ok_iff:
  "rules_ok ds ids rs \<longleftrightarrow>
     distinct (map rl_id rs) \<and> set ids \<inter> rl_id ` set rs = {} \<and> (\<forall>r\<in>set rs. rule_ok ds r)"
proof (induction rs arbitrary: ids)
  case (Cons r rs)
  obtain seen d n where c: "conditionFields 1 ([], 0, 0) (rl_condition r) = (seen, d, n)"
    by (cases "conditionFields 1 ([], 0, 0) (rl_condition r)")
  have "rule_ok ds r \<longleftrightarrow> (case map_of ds (rl_matterType r) of None \<Rightarrow> False | Some t \<Rightarrow>
      list_all (\<lambda>field. field \<in> mf_name ` set (mt_fields t)) seen \<and> \<not> (16 < d \<or> 512 < n))"
    using conditionFields_spec [OF c]
    by (auto simp: rule_ok_def list_all_iff split: option.splits)
  then show ?case by (simp only: rules_ok.simps c Cons.IH prod.case) auto
qed simp

section \<open>What a condition means\<close>

fun holds :: "MatterFacts \<Rightarrow> Condition \<Rightarrow> bool" where
  "holds facts (CAll cs) = (\<forall>c\<in>set cs. holds facts c)"
| "holds facts (CAny cs) = (\<exists>c\<in>set cs. holds facts c)"
| "holds facts (CNot c) = (\<not> holds facts c)"
| "holds facts (CExists field) = (\<exists>v. map_of facts field = Some v \<and> v \<noteq> MNull)"
| "holds facts (CEquals field v) = (map_of facts field = Some v)"
| "holds facts (CIn field vs) = (\<exists>v\<in>set vs. map_of facts field = Some v)"
| "holds facts (CNumberGte field n) = (\<exists>m. map_of facts field = Some (MInt m) \<and> n \<le> m)"
| "holds facts (CNumberLte field n) = (\<exists>m. map_of facts field = Some (MInt m) \<and> m \<le> n)"

fun cond_values :: "Condition \<Rightarrow> MatterValue set" where
  "cond_values (CAll cs) = (\<Union>c\<in>set cs. cond_values c)"
| "cond_values (CAny cs) = (\<Union>c\<in>set cs. cond_values c)"
| "cond_values (CNot c) = cond_values c"
| "cond_values (CEquals field v) = {v}"
| "cond_values (CIn field vs) = set vs"
| "cond_values _ = {}"

definition values_collide :: "MatterValue \<Rightarrow> MatterValue \<Rightarrow> bool" where
  "values_collide x y \<longleftrightarrow>
     sha256_collision (canonical_bytes (value_json x)) (canonical_bytes (value_json y))"

abbreviation fact_values :: "MatterFacts \<Rightarrow> MatterValue set" where
  "fact_values facts \<equiv> snd ` set facts"

lemma value_json_facts [simp]: "index_free (value_json v)" "json_depth (value_json v) = 0"
  by (cases v; simp)+

lemma value_json_inj: "jval_of (value_json x) = jval_of (value_json y) \<longleftrightarrow> x = y"
  by (cases x; cases y) auto

lemma isSame_total:
  "strings_ok (normalizeNFC pl) (value_json x) \<Longrightarrow> strings_ok (normalizeNFC pl) (value_json y) \<Longrightarrow>
     \<exists>b. isSame pl x y = Inr b"
  by (simp add: isSame_def bindr_eq_Inr_iff canonicalSha256_iff MAX_JSON_CONTAINER_DEPTH_def)

lemma isSame_sound:
  assumes "isSame pl x y = Inr b" and "js_json (value_json x)" and "js_json (value_json y)"
  shows "b \<longleftrightarrow> x = y \<or> values_collide x y"
proof -
  from assms(1) obtain h k where h: "canonicalSha256 pl (value_json x) = Inr h"
    "canonicalSha256 pl (value_json y) = Inr k" and b: "b \<longleftrightarrow> h = k"
    by (auto simp: isSame_def bindr_eq_Inr_iff)
  have "h = k \<longleftrightarrow> sha256 (canonical_bytes (value_json x)) = sha256 (canonical_bytes (value_json y))"
    using h by (auto simp: canonicalSha256_iff dest: hex_of_bytes_inj)
  moreover have "canonical_bytes (value_json x) = canonical_bytes (value_json y) \<longleftrightarrow> x = y"
    using canonical_bytes_eq [of "normalizeNFC pl" "value_json x" "value_json y"] h assms(2,3)
    by (simp add: wf_json_iff canonicalSha256_iff value_json_inj)
  ultimately show ?thesis using b by (auto simp: values_collide_def sha256_collision_def)
qed

lemma everyr_sound: "everyr f xs = Inr b \<Longrightarrow> (\<And>x c. x \<in> set xs \<Longrightarrow> f x = Inr c \<Longrightarrow> c = p x) \<Longrightarrow>
    b = (\<forall>x\<in>set xs. p x)"
proof (induction xs)
  case (Cons x xs)
  then obtain c where "f x = Inr c" by (auto simp: bindr_eq_Inr_iff)
  with Cons show ?case by (cases c) auto
qed simp

lemma somer_sound: "somer f xs = Inr b \<Longrightarrow> (\<And>x c. x \<in> set xs \<Longrightarrow> f x = Inr c \<Longrightarrow> c = p x) \<Longrightarrow>
    b = (\<exists>x\<in>set xs. p x)"
proof (induction xs)
  case (Cons x xs)
  then obtain c where "f x = Inr c" by (auto simp: bindr_eq_Inr_iff)
  with Cons show ?case by (cases c) auto
qed simp

lemma map_of_value: "map_of facts field = Some v \<Longrightarrow> v \<in> fact_values facts"
  by (force dest: map_of_SomeD)

lemma conditionMatches_sound:
  assumes "conditionMatches pl facts c = Inr b"
    and "\<forall>v\<in>fact_values facts \<union> cond_values c. js_json (value_json v)"
    and "\<forall>x\<in>fact_values facts. \<forall>y\<in>cond_values c. \<not> values_collide x y"
  shows "b = holds facts c"
  using assms
proof (induction c arbitrary: b)
  case (CAll cs)
  have "d = holds facts c" if "c \<in> set cs" "conditionMatches pl facts c = Inr d" for c d
    using CAll.IH [OF that] CAll.prems(2,3) that(1) by auto
  with CAll.prems(1) show ?case using everyr_sound [of "conditionMatches pl facts" cs b "holds facts"] by simp
next
  case (CAny cs)
  have "d = holds facts c" if "c \<in> set cs" "conditionMatches pl facts c = Inr d" for c d
    using CAny.IH [OF that] CAny.prems(2,3) that(1) by auto
  with CAny.prems(1) show ?case using somer_sound [of "conditionMatches pl facts" cs b "holds facts"] by simp
next
  case (CNot c)
  then show ?case by (auto simp: bindr_eq_Inr_iff)
next
  case (CEquals field v)
  show ?case
  proof (cases "map_of facts field")
    case None
    with CEquals show ?thesis by simp
  next
    case (Some x)
    with map_of_value [OF Some] CEquals show ?thesis
      using isSame_sound [of pl x v b] by (auto simp: fact_or_null_def)
  qed
next
  case (CIn field vs)
  show ?case
  proof (cases "map_of facts field")
    case None
    with CIn show ?thesis by simp
  next
    case (Some x)
    have "d = (x = y)" if "y \<in> set vs" "isSame pl x y = Inr d" for y d
      using isSame_sound [OF that(2)] map_of_value [OF Some] CIn.prems(2,3) that(1) by auto
    with Some CIn.prems(1) show ?thesis
      using somer_sound [of "isSame pl x" vs b "\<lambda>y. x = y"] by (simp add: fact_or_null_def)
  qed
qed (auto split: option.splits MatterValue.splits)

lemma everyr_defined: "(\<And>x. x \<in> set xs \<Longrightarrow> \<exists>b. f x = Inr b) \<Longrightarrow> \<exists>b. everyr f xs = Inr b"
proof (induction xs)
  case (Cons x xs)
  then obtain c where "f x = Inr c" by auto
  with Cons show ?case by (cases c) auto
qed auto

lemma somer_defined: "(\<And>x. x \<in> set xs \<Longrightarrow> \<exists>b. f x = Inr b) \<Longrightarrow> \<exists>b. somer f xs = Inr b"
proof (induction xs)
  case (Cons x xs)
  then obtain c where "f x = Inr c" by auto
  with Cons show ?case by (cases c) auto
qed auto

lemma conditionMatches_total:
  assumes "\<forall>v\<in>fact_values facts \<union> cond_values c. strings_ok (normalizeNFC pl) (value_json v)"
  shows "\<exists>b. conditionMatches pl facts c = Inr b"
  using assms
proof (induction c)
  case (CAll cs)
  have "\<exists>b. conditionMatches pl facts c = Inr b" if "c \<in> set cs" for c
    using CAll.IH [OF that] CAll.prems that by auto
  then show ?case by (auto intro!: everyr_defined)
next
  case (CAny cs)
  have "\<exists>b. conditionMatches pl facts c = Inr b" if "c \<in> set cs" for c
    using CAny.IH [OF that] CAny.prems that by auto
  then show ?case by (auto intro!: somer_defined)
next
  case (CNot c)
  then obtain b where "conditionMatches pl facts c = Inr b" by auto
  then show ?case by simp
next
  case (CEquals field v)
  show ?case
  proof (cases "map_of facts field")
    case (Some x)
    with CEquals map_of_value [OF Some] show ?thesis
      using isSame_total [of pl x v] by (auto simp: fact_or_null_def)
  qed auto
next
  case (CIn field vs)
  have "\<exists>b. isSame pl x y = Inr b" if "map_of facts field = Some x" "y \<in> set vs" for x y
    using isSame_total [of pl x y] map_of_value [OF that(1)] CIn.prems that(2) by auto
  then show ?case by (auto simp: fact_or_null_def intro!: somer_defined)
qed auto

section \<open>The order of the rules\<close>

text \<open>Priority first, then specificity; the last tie-breaker of \<open>rule_order\<close> only refines it.\<close>

definition rule_rank :: "Rule \<Rightarrow> Rule \<Rightarrow> int" where
  "rule_rank left right =
     js_or (rl_priority right - rl_priority left) (rl_specificity right - rl_specificity left)"

interpretation rank: comparator rule_rank
  by unfold_locales (auto simp: rule_rank_def js_or_def split: if_splits)

lemma rule_order_refines: "rank.refines (rule_order lc)"
  by (auto simp: rank.refines_def rule_order_def rule_rank_def js_or_def)

definition outranks :: "Rule \<Rightarrow> Rule \<Rightarrow> bool" where
  "outranks r r' \<longleftrightarrow> rl_priority r' < rl_priority r \<or>
     rl_priority r' = rl_priority r \<and> rl_specificity r' < rl_specificity r"

definition top_rules :: "Rule list \<Rightarrow> Rule list" where
  "top_rules M = filter (\<lambda>r. \<forall>r'\<in>set M. \<not> outranks r' r) M"

lemma rank_outranks: "rule_rank r r' \<le> 0 \<longleftrightarrow> \<not> outranks r' r"
  by (auto simp: rule_rank_def outranks_def js_or_def)

lemma tied_top:
  assumes "toSorted (rule_order lc) M = first # rest"
  shows "mset (filter (\<lambda>c. rl_priority c = rl_priority first \<and> rl_specificity c = rl_specificity first)
      (first # rest)) = mset (top_rules M)"
proof -
  let ?P = "\<lambda>c. rl_priority c = rl_priority first \<and> rl_specificity c = rl_specificity first"
  have least: "\<not> outranks c first" if "c \<in> set M" for c
    using rank.hd_toSorted_least [OF rule_order_refines assms that] by (simp add: rank_outranks)
  have "first \<in> set (toSorted (rule_order lc) M)" by (simp add: assms)
  then have first: "first \<in> set M" by simp
  have "?P c \<longleftrightarrow> (\<forall>r'\<in>set M. \<not> outranks r' c)" if "c \<in> set M" for c
    using least [OF that] least first by (fastforce simp: outranks_def)
  then have "filter ?P M = top_rules M" unfolding top_rules_def by (intro filter_cong) auto
  moreover have "mset (first # rest) = mset M" by (metis assms mset_toSorted)
  ultimately show ?thesis by (metis mset_filter)
qed

lemma top_rules_Nil: "top_rules M = [] \<longleftrightarrow> M = []"
proof
  assume t: "top_rules M = []"
  show "M = []"
  proof (cases "toSorted (rule_order (\<lambda>_ _. 0)) M")
    case (Cons f r)
    from tied_top [OF Cons] t show ?thesis by simp
  qed simp
qed (simp add: top_rules_def)

lemma top_rules_mset: "mset M = mset N \<Longrightarrow> mset (top_rules M) = mset (top_rules N)"
proof -
  assume m: "mset M = mset N"
  then have "set M = set N" by (rule mset_eq_setD)
  then show ?thesis by (simp add: top_rules_def m)
qed

definition selected ::
    "jstring \<Rightarrow> int \<Rightarrow> jstring \<Rightarrow> Rule list \<Rightarrow> MatterEvaluation \<Rightarrow> bool" where
  "selected i v h T ev \<longleftrightarrow>
     (case ev of
        Matched i' v' h' r \<Rightarrow> (i', v', h') = (i, v, h) \<and> T = [r]
      | NoMatch i' v' h' ids \<Rightarrow> (i', v', h') = (i, v, h) \<and> T = [] \<and> ids = []
      | Ambiguous i' v' h' ids \<Rightarrow>
          (i', v', h') = (i, v, h) \<and> 2 \<le> length T \<and> mset ids = mset (map rl_id T)
      | Missing _ _ _ _ \<Rightarrow> False)"

lemma candidates_selected:
  assumes "(case toSorted (rule_order lc) M of
      [] \<Rightarrow> Inr (NoMatch i v h [])
    | first # rest \<Rightarrow>
        let tied = filter (\<lambda>c. rl_priority c = rl_priority first \<and> rl_specificity c = rl_specificity first)
          (first # rest) in
        if length tied \<noteq> 1 then Inr (Ambiguous i v h (map rl_id tied)) else Inr (Matched i v h first)) =
    (Inr ev :: MatterEvaluation result)"
  shows "selected i v h (top_rules M) ev"
proof (cases "toSorted (rule_order lc) M")
  case Nil
  with assms show ?thesis by (auto simp: selected_def top_rules_Nil)
next
  case (Cons first rest)
  define T where "T = filter (\<lambda>c. rl_priority c = rl_priority first \<and> rl_specificity c = rl_specificity first)
      (first # rest)"
  have m: "mset T = mset (top_rules M)" using tied_top [OF Cons] by (simp only: T_def)
  have f: "first \<in> set T" by (simp add: T_def)
  from assms Cons have ev: "(if length T \<noteq> 1 then Inr (Ambiguous i v h (map rl_id T))
      else Inr (Matched i v h first)) = (Inr ev :: MatterEvaluation result)"
    by (simp only: list.case Let_def T_def)
  then have ev: "ev = (if length T \<noteq> 1 then Ambiguous i v h (map rl_id T) else Matched i v h first)"
    by (auto split: if_splits)
  show ?thesis
  proof (cases "length T = 1")
    case True
    then have "T = [first]" using f by (cases T) auto
    with m have "top_rules M = [first]" by simp
    with ev True show ?thesis by (simp add: selected_def)
  next
    case False
    have "length T = length (top_rules M)" using m by (metis size_mset)
    moreover have "length T \<noteq> 0" using f by auto
    ultimately have "2 \<le> length (top_rules M)" using False by linarith
    moreover have "mset (map rl_id T) = mset (map rl_id (top_rules M))" using m by simp
    ultimately show ?thesis using ev False by (simp add: selected_def)
  qed
qed

section \<open>Facts\<close>

fun conforms :: "MatterField \<Rightarrow> MatterValue \<Rightarrow> bool" where
  "conforms field MNull = True"
| "conforms (BooleanField _ _) v = (\<exists>b. v = MBool b)"
| "conforms (IntegerField _ _ lo hi) v =
     (\<exists>n. v = MInt n \<and> isSafeInteger n \<and> pred_option (\<lambda>l. l \<le> n) lo \<and> pred_option (\<lambda>h. n \<le> h) hi)"
| "conforms (StringField _ _ maxLength) v = (\<exists>s. v = MStr s \<and> int (length s) \<le> maxLength)"

lemma assertFactValue_iff: "assertFactValue field v = Inr u \<longleftrightarrow> conforms field v"
  by (cases "(field, v)" rule: conforms.cases)
    (auto split: MatterValue.splits option.splits if_splits simp: not_less)

definition absent_fields :: "MatterType \<Rightarrow> MatterFacts \<Rightarrow> jstring set" where
  "absent_fields t facts = {k. \<exists>field\<in>set (mt_fields t). mf_name field = k \<and> mf_required field \<and>
     (map_of facts k = None \<or> map_of facts k = Some MNull)}"

definition facts_conform :: "MatterType \<Rightarrow> MatterFacts \<Rightarrow> bool" where
  "facts_conform t facts \<longleftrightarrow>
     (\<forall>(k, v)\<in>set facts. \<exists>field\<in>set (mt_fields t). mf_name field = k \<and> conforms field v)"

lemma declared_fields:
  "distinct (map mf_name fs) \<Longrightarrow> set (map mf_name fs) \<inter> fst ` set m = {} \<Longrightarrow>
     foldl (\<lambda>m field. map_set (mf_name field) field m) m fs = m @ map (\<lambda>field. (mf_name field, field)) fs"
proof (induction fs arbitrary: m)
  case (Cons f fs)
  then have "map_of m (mf_name f) = None" by (auto simp: map_of_eq_None_iff)
  with Cons show ?case by (simp add: map_set_new)
qed simp

lemma map_of_keyed: "distinct (map g fs) \<Longrightarrow> map_of (map (\<lambda>f. (g f, f)) fs) k = Some f \<longleftrightarrow> f \<in> set fs \<and> g f = k"
  by (subst map_of_eq_Some_iff) (auto simp: comp_def)

lemma mapr_defined: "(\<exists>ys. mapr f xs = Inr ys) \<longleftrightarrow> (\<forall>x\<in>set xs. \<exists>y. f x = Inr y)"
  by (induction xs) (auto simp: bindr_eq_Inr_iff)

lemma sort_names_set:
  assumes "distinct (map mf_name fs)"
  shows "sort (map mf_name (filter P fs)) = sorted_list_of_set (mf_name ` {f \<in> set fs. P f})"
proof -
  have "distinct (map mf_name (filter P fs))" using assms by (rule distinct_map_filter)
  moreover have "set (map mf_name (filter P fs)) = mf_name ` {f \<in> set fs. P f}" by auto
  ultimately show ?thesis
    using sorted_list_of_set_sort_remdups [of "map mf_name (filter P fs)"] by (simp add: distinct_remdups_id)
qed

lemma validateFacts_iff:
  assumes "distinct (map mf_name (mt_fields t))"
  shows "validateFacts t facts = Inr ms \<longleftrightarrow>
     facts_conform t facts \<and> ms = sorted_list_of_set (absent_fields t facts)"
proof -
  let ?m = "map (\<lambda>field. (mf_name field, field)) (mt_fields t)"
  let ?f = "\<lambda>(name, v). case map_of ?m name of
      None \<Rightarrow> throw (TypeErrorOn ''unknown matter fact: '' name) | Some field \<Rightarrow> assertFactValue field v"
  let ?P = "\<lambda>field. mf_required field \<and>
      (\<not> map_has facts (mf_name field) \<or> map_of facts (mf_name field) = Some MNull)"
  have m: "foldl (\<lambda>m field. map_set (mf_name field) field m) [] (mt_fields t) = ?m"
    using declared_fields [OF assms, of "[]"] by simp
  have a: "mf_name ` {f \<in> set (mt_fields t). ?P f} = absent_fields t facts"
    by (auto simp: absent_fields_def)
  have "(\<exists>y. ?f (k, v) = Inr y) \<longleftrightarrow> (\<exists>field\<in>set (mt_fields t). mf_name field = k \<and> conforms field v)" for k v
  proof (cases "map_of ?m k")
    case None
    then have "\<forall>field. \<not> (field \<in> set (mt_fields t) \<and> mf_name field = k)"
      using map_of_keyed [OF assms, of k] by simp
    with None show ?thesis by auto
  next
    case (Some field)
    have "field' \<in> set (mt_fields t) \<and> mf_name field' = k \<longleftrightarrow> map_of ?m k = Some field'" for field'
      by (simp only: map_of_keyed [OF assms])
    then have "field' \<in> set (mt_fields t) \<and> mf_name field' = k \<longleftrightarrow> field' = field" for field'
      by (simp only: Some option.inject) blast
    then have "(\<exists>field'\<in>set (mt_fields t). mf_name field' = k \<and> conforms field' v) \<longleftrightarrow> conforms field v"
      by (simp only: Bex_def conj_assoc [symmetric]) simp
    moreover have "(\<exists>y. ?f (k, v) = Inr y) \<longleftrightarrow> conforms field v"
      by (simp add: Some assertFactValue_iff)
    ultimately show ?thesis by blast
  qed
  then have c: "(\<exists>us. mapr ?f facts = Inr us) \<longleftrightarrow> facts_conform t facts"
    by (auto simp: mapr_defined facts_conform_def)
  have "validateFacts t facts = bindr (mapr ?f facts) (\<lambda>_. Inr (sort (map mf_name (filter ?P (mt_fields t)))))"
    by (simp only: validateFacts_def m Let_def)
  then have "validateFacts t facts = Inr ms \<longleftrightarrow>
      (\<exists>us. mapr ?f facts = Inr us) \<and> ms = sorted_list_of_set (absent_fields t facts)"
    by (simp only: bindr_eq_Inr_iff sort_names_set [OF assms] a sum.inject) blast
  then show ?thesis by (simp only: c)
qed

section \<open>Valid rulesets\<close>

lemma valid_codes: "RulesetVersionSchema rs \<Longrightarrow> distinct (map mt_code (rs_matterTypes rs))"
  by (simp add: RulesetVersionSchema_def distinct_codes_iff)

lemma valid_type:
  "RulesetVersionSchema rs \<Longrightarrow> t \<in> set (rs_matterTypes rs) \<Longrightarrow>
     MatterTypeSchema t \<and> distinct (map mf_name (mt_fields t)) \<and> list_all integer_bounds_ok (mt_fields t)"
  by (auto simp: RulesetVersionSchema_def list_all_iff MatterTypeSchema_def matter_fields_ok_iff)

lemma valid_rule:
  "RulesetVersionSchema rs \<Longrightarrow> r \<in> set (rs_rules rs) \<Longrightarrow>
     RuleSchema r \<and> rule_ok (map (\<lambda>t. (mt_code t, t)) (rs_matterTypes rs)) r"
  by (simp add: RulesetVersionSchema_def list_all_iff rules_ok_iff)

lemma find_key: "distinct (map g xs) \<Longrightarrow> x \<in> set xs \<Longrightarrow> find (\<lambda>y. g y = g x) xs = Some x"
  by (induction xs) (auto simp: image_iff)

lemma find_type:
  assumes "RulesetVersionSchema rs"
  shows "find (\<lambda>t. mt_code t = mt) (rs_matterTypes rs) = Some t \<longleftrightarrow>
     t \<in> set (rs_matterTypes rs) \<and> mt_code t = mt"
  using find_key [OF valid_codes [OF assms], of t] by (auto simp: find_Some_iff)

lemma MatterValueSchema_safe: "MatterValueSchema v \<Longrightarrow> js_json (value_json v)"
  by (cases v) (simp_all add: MatterValueSchema_def)

lemma cond_values_safe: "ConditionSchema c \<Longrightarrow> v \<in> cond_values c \<Longrightarrow> js_json (value_json v)"
  by (induction c) (auto simp: list_all_iff intro: MatterValueSchema_safe)

lemma conforms_safe: "conforms field v \<Longrightarrow> js_json (value_json v)"
  by (cases "(field, v)" rule: conforms.cases) auto

lemma facts_conform_safe: "facts_conform t facts \<Longrightarrow> x \<in> fact_values facts \<Longrightarrow> js_json (value_json x)"
  by (fastforce simp: facts_conform_def intro: conforms_safe)

definition facts_admissible :: "nfc \<Rightarrow> MatterFacts \<Rightarrow> bool" where
  "facts_admissible nfc facts \<longleftrightarrow>
     (\<forall>(k, v)\<in>set facts. scalar_string nfc k \<and> strings_ok nfc (value_json v))"

lemma facts_hash_iff:
  "(\<exists>h. canonicalSha256 pl (facts_json facts) = Inr h) \<longleftrightarrow> facts_admissible (normalizeNFC pl) facts"
proof -
  have d: "json_depth (facts_json facts) \<le> MAX_JSON_CONTAINER_DEPTH"
    by (simp add: facts_json_def MAX_JSON_CONTAINER_DEPTH_def foldr_max_le split_def)
  have "(\<exists>h. canonicalSha256 pl v = Inr h) \<longleftrightarrow> (\<exists>u. assertJsonValue (normalizeNFC pl) v = Inr u)" for v
    by (auto simp: canonicalSha256_def canonicalJson_def bindr_eq_Inr_iff split: sum.splits)
  then show ?thesis
    using d by (auto simp: assertJsonValue_def walkJsonStructure_iff facts_admissible_def facts_json_def)
qed

definition applicable :: "jstring \<Rightarrow> MatterFacts \<Rightarrow> Rule list \<Rightarrow> Rule list" where
  "applicable mt facts rules = filter (\<lambda>r. rl_matterType r = mt \<and> holds facts (rl_condition r)) rules"

lemma evaluateMatter_cases:
  assumes "evaluateMatter pl lc rs mt facts = Inr ev"
  obtains h t ms where "canonicalSha256 pl (facts_json facts) = Inr h"
    and "find (\<lambda>t. mt_code t = mt) (rs_matterTypes rs) = Some t" and "validateFacts t facts = Inr ms"
    and "ms \<noteq> [] \<and> ev = Missing (rs_id rs) (rs_version rs) h ms \<or>
      ms = [] \<and> (\<exists>M. matchingRules pl mt facts (rs_rules rs) = Inr M \<and>
        selected (rs_id rs) (rs_version rs) h (top_rules M) ev)"
proof -
  from assms obtain h where h: "canonicalSha256 pl (facts_json facts) = Inr h"
    by (auto simp: evaluateMatter_def bindr_eq_Inr_iff)
  from assms h obtain t where t: "find (\<lambda>t. mt_code t = mt) (rs_matterTypes rs) = Some t"
    by (auto simp: evaluateMatter_def split: option.splits)
  from assms h t obtain ms where ms: "validateFacts t facts = Inr ms"
    by (auto simp: evaluateMatter_def bindr_eq_Inr_iff)
  show thesis
  proof (cases "ms = []")
    case False
    with assms h t ms have "ev = Missing (rs_id rs) (rs_version rs) h ms"
      by (simp add: evaluateMatter_def)
    with that [OF h t ms] False show thesis by blast
  next
    case True
    with assms h t ms obtain M where M: "matchingRules pl mt facts (rs_rules rs) = Inr M"
      by (auto simp: evaluateMatter_def bindr_eq_Inr_iff)
    from assms have "selected (rs_id rs) (rs_version rs) h (top_rules M) ev"
      unfolding evaluateMatter_def h t ms True M bindr_simps option.case
      by (intro candidates_selected) simp
    with that [OF h t ms] True M show thesis by blast
  qed
qed

lemma matchingRules_applicable:
  assumes "matchingRules pl mt facts rules = Inr M"
    and "\<forall>x\<in>fact_values facts. js_json (value_json x)"
    and "\<forall>r\<in>set rules. \<forall>y\<in>cond_values (rl_condition r). js_json (value_json y) \<and>
      (\<forall>x\<in>fact_values facts. \<not> values_collide x y)"
  shows "M = applicable mt facts rules"
proof -
  let ?f = "\<lambda>r. if rl_matterType r = mt then conditionMatches pl facts (rl_condition r) else Inr False"
  have M: "M = filter (\<lambda>r. ?f r = Inr True) rules" and d: "\<forall>r\<in>set rules. \<exists>b. ?f r = Inr b"
    using iffD1 [OF filterr_Inr_iff assms(1) [unfolded matchingRules_def]] by blast+
  have "?f r = Inr True \<longleftrightarrow> rl_matterType r = mt \<and> holds facts (rl_condition r)" if r: "r \<in> set rules" for r
  proof (cases "rl_matterType r = mt")
    case True
    with d r obtain b where b: "conditionMatches pl facts (rl_condition r) = Inr b" by fastforce
    with conditionMatches_sound [OF b] assms(2,3) r have "b = holds facts (rl_condition r)" by blast
    with True b show ?thesis by simp
  qed simp
  with M show ?thesis by (simp add: applicable_def cong: filter_cong)
qed

lemma evaluateMatter_ok:
  assumes "canonicalSha256 pl (facts_json facts) = Inr h"
    and "find (\<lambda>t. mt_code t = mt) (rs_matterTypes rs) = Some t" and "validateFacts t facts = Inr ms"
    and "ms = [] \<Longrightarrow> matchingRules pl mt facts (rs_rules rs) = Inr M"
  shows "\<exists>ev. evaluateMatter pl lc rs mt facts = Inr ev"
proof (cases "ms = []")
  case True
  with assms show ?thesis
    by (auto simp: evaluateMatter_def Let_def split: list.split)
qed (simp add: evaluateMatter_def assms(1,2,3))

lemma selected_unique:
  assumes "selected i v h T ev" and "selected i v h T' ev'" and "mset T = mset T'"
  shows "ev' = ev \<or> (\<exists>ids ids'. ev = Ambiguous i v h ids \<and> ev' = Ambiguous i v h ids' \<and> mset ids = mset ids')"
proof -
  have l: "length T = length T'" and m: "mset (map rl_id T) = mset (map rl_id T')"
    using assms(3) by (metis size_mset, simp)
  have s: "T' = [r]" if "T = [r]" for r
    using assms(3) that l by (cases T') auto
  show ?thesis
    using assms(1,2) l m s by (cases ev; cases ev') (auto simp: selected_def)
qed

section \<open>A sample ruleset\<close>

text \<open>A ruleset for the witnesses: spending is decided by rule 1 from 1000 on, and by rule 2 when it
  is not budgeted.\<close>

definition wit_type :: MatterType where
  "wit_type = \<lparr>mt_code = lit ''spend'', mt_fields =
     [IntegerField (lit ''amount'') True (Some 0) None, BooleanField (lit ''budgeted'') False]\<rparr>"

definition wit_citation :: Citation where
  "wit_citation = \<lparr>ct_sourceDocumentVersionId = wit_uuid, ct_sourceDocumentSha256 = wit_sha,
     ct_clause = lit ''7.2'', ct_locator = lit ''p. 4''\<rparr>"

definition wit_matter_rule :: "jstring \<Rightarrow> int \<Rightarrow> Condition \<Rightarrow> Rule" where
  "wit_matter_rule i p c = \<lparr>rl_id = i, rl_matterType = lit ''spend'', rl_priority = p, rl_specificity = 0,
     rl_condition = c, rl_approvalRuleId = wit_uuid, rl_citations = [wit_citation]\<rparr>"

definition wit_rule1 :: Rule where
  "wit_rule1 = wit_matter_rule wit_uuid 1 (CNumberGte (lit ''amount'') 1000)"

definition wit_rule2 :: Rule where
  "wit_rule2 = wit_matter_rule wit_uuid' 2
     (CAll [CNumberGte (lit ''amount'') 1000, CNot (CExists (lit ''budgeted''))])"

definition wit_ruleset :: RulesetVersion where
  "wit_ruleset = \<lparr>rs_id = wit_uuid, rs_boardId = wit_uuid, rs_version = 1, rs_canonicalHash = wit_sha,
     rs_matterTypes = [wit_type], rs_rules = [wit_rule1, wit_rule2]\<rparr>"

definition wit_facts :: MatterFacts where
  "wit_facts = [(lit ''amount'', MInt 5000)]"

lemma wit_ruleset_valid: "RulesetVersionSchema wit_ruleset"
proof -
  have r: "RuleSchema wit_rule1" "RuleSchema wit_rule2"
    by (simp_all add: RuleSchema_def wit_rule1_def wit_rule2_def wit_matter_rule_def CitationSchema_def
        wit_citation_def MatterFieldNameSchema_def name_char_def char_class_defs isSafeInteger_def
        MAX_SAFE_INTEGER_def)
  have t: "MatterTypeSchema wit_type"
    by (simp add: MatterTypeSchema_def wit_type_def MatterFieldNameSchema_def name_char_def
        char_class_defs isSafeInteger_def MAX_SAFE_INTEGER_def)
  have o: "rules_ok [(lit ''spend'', wit_type)] [] [wit_rule1, wit_rule2]"
    using wit_uuid_ok(3) by (simp add: wit_rule1_def wit_rule2_def wit_matter_rule_def wit_type_def eq_commute)
  have c: "mt_code wit_type = lit ''spend''" by (simp add: wit_type_def)
  show ?thesis
    using r t o by (simp add: RulesetVersionSchema_def wit_ruleset_def isSafeInteger_def
        MAX_SAFE_INTEGER_def c del: rules_ok.simps)
qed

lemma wit_constants: "r \<in> set (rs_rules wit_ruleset) \<Longrightarrow> cond_values (rl_condition r) = {}"
  by (auto simp: wit_ruleset_def wit_rule1_def wit_rule2_def wit_matter_rule_def)

lemma wit_facts_conform: "facts_admissible nfc wit_facts" "facts_conform wit_type wit_facts"
  by (simp_all add: facts_admissible_def facts_conform_def wit_facts_def wit_type_def scalar_string_def
      is_ascii_def isSafeInteger_def MAX_SAFE_INTEGER_def)

lemma wit_type_in: "wit_type \<in> set (rs_matterTypes wit_ruleset)"
  by (simp add: wit_ruleset_def)

lemma wit_ruleset_total:
  "\<exists>ev. evaluateMatter plain_platform (\<lambda>_ _. 0) wit_ruleset (mt_code wit_type) wit_facts = Inr ev"
proof -
  have "validateFacts wit_type wit_facts = Inr (sorted_list_of_set (absent_fields wit_type wit_facts))"
    using valid_type [OF wit_ruleset_valid wit_type_in] wit_facts_conform(2) by (simp add: validateFacts_iff)
  moreover have "find (\<lambda>t. mt_code t = mt_code wit_type) (rs_matterTypes wit_ruleset) = Some wit_type"
    by (simp add: wit_ruleset_def)
  moreover obtain h where "canonicalSha256 plain_platform (facts_json wit_facts) = Inr h"
    using facts_hash_iff wit_facts_conform(1) by blast
  moreover have "matchingRules plain_platform (mt_code wit_type) wit_facts (rs_rules wit_ruleset) =
      Inr [wit_rule1, wit_rule2]"
    by (simp add: matchingRules_def wit_ruleset_def wit_rule1_def wit_rule2_def wit_matter_rule_def wit_type_def
        wit_facts_def)
  ultimately show ?thesis by (intro evaluateMatter_ok)
qed

section \<open>Properties\<close>

text \<open>Property C29: rule selection. With a valid ruleset, an evaluation that returns binds the facts by
  their digest; it reports exactly the required facts that are absent or null, in code-unit
  order, and otherwise selects by the meaning of the conditions: the rule of the matter that no
  other applicable rule outranks by priority and then specificity, an ambiguity that lists all
  of them when there are several, and no match when none applies. Values are compared by
  digest, so this holds when no fact collides with a constant of a rule.\<close>

theorem evaluateMatter_selects:
  assumes "RulesetVersionSchema rs" and "t \<in> set (rs_matterTypes rs)"
    and "evaluateMatter pl lc rs (mt_code t) facts = Inr ev"
    and "\<forall>r\<in>set (rs_rules rs). \<forall>x\<in>fact_values facts. \<forall>y\<in>cond_values (rl_condition r). \<not> values_collide x y"
  shows "canonicalSha256 pl (facts_json facts) = Inr (me_factsHash ev) \<and>
    (if absent_fields t facts = {}
     then selected (rs_id rs) (rs_version rs) (me_factsHash ev)
       (top_rules (applicable (mt_code t) facts (rs_rules rs))) ev
     else ev = Missing (rs_id rs) (rs_version rs) (me_factsHash ev) (sorted_list_of_set (absent_fields t facts)))"
  using assms(3)
proof (cases rule: evaluateMatter_cases)
  case (1 h t' ms)
  have "t' = t" using 1(2) find_type [OF assms(1), of "mt_code t" t] assms(2) by simp
  with 1(3) valid_type [OF assms(1,2)] have v: "facts_conform t facts"
    "ms = sorted_list_of_set (absent_fields t facts)"
    by (simp_all add: validateFacts_iff)
  have "absent_fields t facts \<subseteq> mf_name ` set (mt_fields t)" by (auto simp: absent_fields_def)
  then have "finite (absent_fields t facts)" by (rule finite_subset) simp
  then have e: "ms = [] \<longleftrightarrow> absent_fields t facts = {}" by (simp add: v(2))
  have safe: "\<forall>x\<in>fact_values facts. js_json (value_json x)"
    using facts_conform_safe [OF v(1)] by blast
  have "M = applicable (mt_code t) facts (rs_rules rs)"
    if "matchingRules pl (mt_code t) facts (rs_rules rs) = Inr M" for M
    using valid_rule [OF assms(1)] assms(4)
    by (intro matchingRules_applicable [OF that safe]) (auto simp: RuleSchema_def intro: cond_values_safe)
  with 1(4) have "ms \<noteq> [] \<and> ev = Missing (rs_id rs) (rs_version rs) h ms \<or>
      ms = [] \<and> selected (rs_id rs) (rs_version rs) h (top_rules (applicable (mt_code t) facts (rs_rules rs))) ev"
    by blast
  moreover from this have "me_factsHash ev = h" by (cases ev) (auto simp: selected_def)
  ultimately show ?thesis using 1(1) v(2) e by auto
qed

theorem evaluateMatter_selects_witness:
  "\<exists>h. evaluateMatter plain_platform (\<lambda>_ _. 0) wit_ruleset (mt_code wit_type) wit_facts =
     Inr (Matched wit_uuid 1 h wit_rule2)"
proof -
  obtain ev where ev: "evaluateMatter plain_platform (\<lambda>_ _. 0) wit_ruleset (mt_code wit_type) wit_facts = Inr ev"
    using wit_ruleset_total by blast
  have "absent_fields wit_type wit_facts = {}"
    by (auto simp: absent_fields_def wit_type_def wit_facts_def)
  moreover have "top_rules (applicable (mt_code wit_type) wit_facts (rs_rules wit_ruleset)) = [wit_rule2]"
    by (simp add: applicable_def wit_ruleset_def wit_rule1_def wit_rule2_def wit_matter_rule_def wit_type_def
        wit_facts_def top_rules_def outranks_def)
  ultimately have "selected wit_uuid 1 (me_factsHash ev) [wit_rule2] ev"
    using evaluateMatter_selects [OF wit_ruleset_valid wit_type_in ev] wit_constants
    by (simp add: wit_ruleset_def)
  with ev show ?thesis by (cases ev) (auto simp: selected_def)
qed

text \<open>The order in which the rules are listed and the locale's string order have no
  influence on an evaluation, except on the order in which tied rules are reported.\<close>

theorem evaluateMatter_order_irrelevant:
  assumes "evaluateMatter pl lc rs mt facts = Inr ev" and "mset rules' = mset (rs_rules rs)"
  shows "\<exists>ev'. evaluateMatter pl lc' (rs\<lparr>rs_rules := rules'\<rparr>) mt facts = Inr ev' \<and>
    (ev' = ev \<or> (\<exists>i v h ids ids'. ev = Ambiguous i v h ids \<and> ev' = Ambiguous i v h ids' \<and> mset ids = mset ids'))"
  using assms(1)
proof (cases rule: evaluateMatter_cases)
  case (1 h t ms)
  let ?rs = "rs\<lparr>rs_rules := rules'\<rparr>"
  have s: "set rules' = set (rs_rules rs)" using assms(2) by (rule mset_eq_setD)
  have M: "\<exists>M'. matchingRules pl mt facts rules' = Inr M' \<and> mset M' = mset M"
    if "matchingRules pl mt facts (rs_rules rs) = Inr M" for M
    using that by (simp add: matchingRules_def filterr_Inr_iff s assms(2))
  from 1(4) M obtain M' where "ms = [] \<Longrightarrow> matchingRules pl mt facts (rs_rules ?rs) = Inr M'"
    by fastforce
  then obtain ev' where ev': "evaluateMatter pl lc' ?rs mt facts = Inr ev'"
    using evaluateMatter_ok [of pl facts h mt ?rs t ms M'] 1(1,2,3) by auto
  then show ?thesis
  proof (cases rule: evaluateMatter_cases)
    case (1 h' t' ms')
    with \<open>canonicalSha256 pl (facts_json facts) = Inr h\<close> \<open>validateFacts t facts = Inr ms\<close>
      \<open>find (\<lambda>t. mt_code t = mt) (rs_matterTypes rs) = Some t\<close>
    have same: "h' = h" "ms' = ms" by auto
    show ?thesis
    proof (cases "ms = []")
      case True
      with 1(4) same obtain N where N: "matchingRules pl mt facts rules' = Inr N"
        "selected (rs_id rs) (rs_version rs) h (top_rules N) ev'" by auto
      from True \<open>ms \<noteq> [] \<and> _ \<or> _\<close> obtain K where K: "matchingRules pl mt facts (rs_rules rs) = Inr K"
        "selected (rs_id rs) (rs_version rs) h (top_rules K) ev" by blast
      from M [OF K(1)] N(1) have "mset K = mset N" by simp
      from selected_unique [OF K(2) N(2) top_rules_mset [OF this]] ev' show ?thesis by blast
    next
      case False
      with 1(4) same \<open>ms \<noteq> [] \<and> _ \<or> _\<close> have "ev' = ev" by auto
      with ev' show ?thesis by blast
    qed
  qed
qed

theorem evaluateMatter_order_irrelevant_witness:
  "\<exists>ev. evaluateMatter plain_platform (\<lambda>_ _. 1) (wit_ruleset\<lparr>rs_rules := [wit_rule2, wit_rule1]\<rparr>)
     (mt_code wit_type) wit_facts = Inr ev"
proof -
  obtain ev where ev: "evaluateMatter plain_platform (\<lambda>_ _. 0) wit_ruleset (mt_code wit_type) wit_facts = Inr ev"
    using wit_ruleset_total by blast
  have m: "mset [wit_rule2, wit_rule1] = mset (rs_rules wit_ruleset)" by (simp add: wit_ruleset_def)
  from evaluateMatter_order_irrelevant [OF ev m, of "\<lambda>_ _. 1"] show ?thesis by (elim exE conjE) (rule exI)
qed

text \<open>Property C30: well-formedness of a valid ruleset. Every rule belongs to a declared matter type,
  its condition mentions only facts that type declares, and the condition is at most 16 deep
  with at most 512 nodes, so its evaluation is bounded.\<close>

theorem valid_ruleset_closed:
  assumes "RulesetVersionSchema rs" and "r \<in> set (rs_rules rs)"
  shows "\<exists>!t. t \<in> set (rs_matterTypes rs) \<and> mt_code t = rl_matterType r \<and>
    cond_fields (rl_condition r) \<subseteq> mf_name ` set (mt_fields t) \<and>
    cond_depth (rl_condition r) \<le> 16 \<and> cond_nodes (rl_condition r) \<le> 512"
proof -
  from valid_rule [OF assms] obtain t
    where t: "map_of (map (\<lambda>t. (mt_code t, t)) (rs_matterTypes rs)) (rl_matterType r) = Some t"
      "cond_fields (rl_condition r) \<subseteq> mf_name ` set (mt_fields t)"
      "cond_depth (rl_condition r) \<le> 16" "cond_nodes (rl_condition r) \<le> 512"
    by (auto simp: rule_ok_def)
  have k: "t' \<in> set (rs_matterTypes rs) \<and> mt_code t' = rl_matterType r \<longleftrightarrow> t' = t" for t'
    using map_of_keyed [OF valid_codes [OF assms(1)], of "rl_matterType r" t'] t(1) by auto
  show ?thesis
    using t k by (intro ex1I [of _ t]) blast+
qed

theorem valid_ruleset_closed_witness:
  "cond_depth (rl_condition wit_rule2) \<le> 16 \<and> cond_depth (rl_condition wit_rule2) = 3"
proof -
  have "wit_rule2 \<in> set (rs_rules wit_ruleset)" by (simp add: wit_ruleset_def)
  from valid_ruleset_closed [OF wit_ruleset_valid this]
  have "cond_depth (rl_condition wit_rule2) \<le> 16" by blast
  then show ?thesis by (simp add: wit_rule2_def wit_matter_rule_def)
qed

text \<open>Property C31: errors. With a valid ruleset whose constants are admissible strings, an evaluation
  returns exactly when the facts can be hashed, the matter type is declared, and every fact is
  declared for it and conforms to its field; nothing else makes it throw.\<close>

theorem evaluateMatter_defined_iff:
  assumes "RulesetVersionSchema rs"
    and "\<forall>r\<in>set (rs_rules rs). \<forall>v\<in>cond_values (rl_condition r). strings_ok (normalizeNFC pl) (value_json v)"
  shows "(\<exists>ev. evaluateMatter pl lc rs mt facts = Inr ev) \<longleftrightarrow>
    facts_admissible (normalizeNFC pl) facts \<and>
    (\<exists>t. t \<in> set (rs_matterTypes rs) \<and> mt_code t = mt \<and> facts_conform t facts)"
proof
  assume "\<exists>ev. evaluateMatter pl lc rs mt facts = Inr ev"
  then obtain ev where "evaluateMatter pl lc rs mt facts = Inr ev" ..
  then show "facts_admissible (normalizeNFC pl) facts \<and>
    (\<exists>t. t \<in> set (rs_matterTypes rs) \<and> mt_code t = mt \<and> facts_conform t facts)"
  proof (cases rule: evaluateMatter_cases)
    case (1 h t ms)
    then have t: "t \<in> set (rs_matterTypes rs)" "mt_code t = mt" by (simp_all add: find_type [OF assms(1)])
    with 1(3) valid_type [OF assms(1) t(1)] have "facts_conform t facts" by (simp add: validateFacts_iff)
    with t 1(1) facts_hash_iff show ?thesis by blast
  qed
next
  assume a: "facts_admissible (normalizeNFC pl) facts \<and>
    (\<exists>t. t \<in> set (rs_matterTypes rs) \<and> mt_code t = mt \<and> facts_conform t facts)"
  then obtain t where t: "t \<in> set (rs_matterTypes rs)" "mt_code t = mt" "facts_conform t facts" by blast
  from a facts_hash_iff obtain h where h: "canonicalSha256 pl (facts_json facts) = Inr h" by blast
  have "\<forall>x\<in>fact_values facts. strings_ok (normalizeNFC pl) (value_json x)"
    using a by (auto simp: facts_admissible_def)
  then have "\<exists>b. conditionMatches pl facts (rl_condition r) = Inr b" if "r \<in> set (rs_rules rs)" for r
    using assms(2) that by (intro conditionMatches_total) auto
  then have "\<exists>b. (if rl_matterType r = mt then conditionMatches pl facts (rl_condition r) else Inr False) = Inr b"
    if "r \<in> set (rs_rules rs)" for r
    using that by auto
  then obtain M where "matchingRules pl mt facts (rs_rules rs) = Inr M"
    unfolding matchingRules_def filterr_Inr_iff by blast
  moreover have "validateFacts t facts = Inr (sorted_list_of_set (absent_fields t facts))"
    using valid_type [OF assms(1) t(1)] t(3) by (simp add: validateFacts_iff)
  moreover have "find (\<lambda>t. mt_code t = mt) (rs_matterTypes rs) = Some t"
    using t by (simp add: find_type [OF assms(1)])
  ultimately show "\<exists>ev. evaluateMatter pl lc rs mt facts = Inr ev"
    by (intro evaluateMatter_ok [OF h])
qed

theorem evaluateMatter_defined_iff_witness:
  "(\<exists>ev. evaluateMatter plain_platform (\<lambda>_ _. 0) wit_ruleset (lit ''spend'') wit_facts = Inr ev) \<and>
   (\<nexists>ev. evaluateMatter plain_platform (\<lambda>_ _. 0) wit_ruleset (lit ''spend'') [(lit ''amount'', MInt (-1))] = Inr ev)"
proof -
  have c: "\<forall>r\<in>set (rs_rules wit_ruleset). \<forall>v\<in>cond_values (rl_condition r).
      strings_ok (normalizeNFC plain_platform) (value_json v)"
    using wit_constants by auto
  have "\<not> facts_conform wit_type [(lit ''amount'', MInt (-1))]"
    by (auto simp: facts_conform_def wit_type_def)
  moreover have "t = wit_type" if "t \<in> set (rs_matterTypes wit_ruleset)" for t
    using that by (simp add: wit_ruleset_def)
  moreover have "mt_code wit_type = lit ''spend''" by (simp add: wit_type_def)
  ultimately show ?thesis
    using evaluateMatter_defined_iff [OF wit_ruleset_valid c] wit_facts_conform wit_type_in by blast
qed


end
