(* ===== verification/Governance_Profile.thy ===== *)
theory Governance_Profile
  imports Ruleset
begin

text \<open>
  The governance profile of \<^verbatim>\<open>lib/ruleset/src/governance-profile.ts\<close>: the seats of a board and
  the voting rules its agreements permit, the selection of a rule with an override that may
  only strengthen it, and the digests that bind both. Fractions and weights are decimal
  strings of unbounded integers, as in the source. A schema that trims a text is a function
  that returns the parsed value; the others are predicates.
\<close>

section \<open>Fractions\<close>

definition UnsignedIntegerStringSchema :: "jstring \<Rightarrow> bool" where
  "UnsignedIntegerStringSchema s =
     (case s of [] \<Rightarrow> False
      | c # cs \<Rightarrow> c = 0x30 \<and> cs = [] \<or> is_digit c \<and> c \<noteq> 0x30 \<and> list_all is_digit cs)"

definition PositiveIntegerStringSchema :: "jstring \<Rightarrow> bool" where
  "PositiveIntegerStringSchema s =
     (case s of [] \<Rightarrow> False | c # cs \<Rightarrow> is_digit c \<and> c \<noteq> 0x30 \<and> list_all is_digit cs)"

text \<open>The remainder of bigints takes the sign of the dividend.\<close>

definition big_rem :: "int \<Rightarrow> int \<Rightarrow> int" where
  "big_rem a b = sgn a * (\<bar>a\<bar> mod \<bar>b\<bar>)"

lemma big_rem_less: "b \<noteq> 0 \<Longrightarrow> \<bar>big_rem a b\<bar> < \<bar>b\<bar>"
  by (cases "a = 0") (simp_all add: big_rem_def abs_mult abs_sgn_eq)

function greatestCommonDivisor :: "int \<Rightarrow> int \<Rightarrow> int" where
  "greatestCommonDivisor a b = (if b \<noteq> 0 then greatestCommonDivisor b (big_rem a b) else a)"
  by pat_completeness auto

termination
  by (relation "measure (\<lambda>(a, b). nat \<bar>b\<bar>)") (use big_rem_less in auto)

declare greatestCommonDivisor.simps [simp del]

text \<open>\<open>BigInt\<close> also reads other notations; they fail the pattern of their field in any case, so
  only the value of a digit sequence matters.\<close>

definition parseBigInt :: "jstring \<Rightarrow> int option" where
  "parseBigInt s = (if list_all is_digit s then Some (int (dec_val s)) else None)"

record GovernanceFraction =
  gf_numerator :: jstring
  gf_denominator :: jstring

definition GovernanceFractionSchema :: "GovernanceFraction \<Rightarrow> bool" where
  "GovernanceFractionSchema f \<longleftrightarrow>
     UnsignedIntegerStringSchema (gf_numerator f) \<and> PositiveIntegerStringSchema (gf_denominator f) \<and>
     (case (parseBigInt (gf_numerator f), parseBigInt (gf_denominator f)) of
        (Some n, Some d) \<Rightarrow> \<not> d < n \<and> \<not> greatestCommonDivisor n d \<noteq> 1
      | _ \<Rightarrow> True)"

section \<open>Seats, rules, profiles\<close>

datatype GovernanceSeatRole = gs_voting_member | gs_management | gs_observer

record GovernanceSeat =
  gs_memberId :: jstring
  gs_role :: GovernanceSeatRole
  gs_weight :: jstring
  gs_chair :: bool

definition GovernanceSeatSchema :: "GovernanceSeat \<Rightarrow> bool" where
  "GovernanceSeatSchema s \<longleftrightarrow> UuidSchema (gs_memberId s) \<and> UnsignedIntegerStringSchema (gs_weight s)"

datatype TemplateProxyPolicy = tp_principal_supersedes | tp_first_ballot_final | tp_forbidden
datatype TemplateCloseMode = tc_automatic | tc_secretariat_confirmed
datatype TemplateOverridePolicy = to_forbidden | to_strengthen_only

record GovernanceRuleTemplate =
  gt_id :: jstring
  gt_code :: jstring
  gt_label :: jstring
  gt_approval :: GovernanceFraction
  gt_quorum :: GovernanceFraction
  gt_approvalDenominator :: ApprovalDenominator
  gt_abstentionsCountForQuorum :: bool
  gt_tieBehavior :: TieBehavior
  gt_proxyPolicy :: TemplateProxyPolicy
  gt_noticePeriodSeconds :: int
  gt_closeMode :: TemplateCloseMode
  gt_overridePolicy :: TemplateOverridePolicy
  gt_citations :: "Citation list"

definition notice_ok :: "int \<Rightarrow> bool" where
  "notice_ok n \<longleftrightarrow> isSafeInteger n \<and> 0 \<le> n \<and> n \<le> 31536000"

definition GovernanceRuleTemplate_parse :: "GovernanceRuleTemplate \<Rightarrow> GovernanceRuleTemplate result" where
  "GovernanceRuleTemplate_parse input =
     (let t = input\<lparr>gt_label := js_trim (gt_label input)\<rparr> in
      if UuidSchema (gt_id t) \<and> MatterFieldNameSchema (gt_code t) \<and>
         1 \<le> length (gt_label t) \<and> length (gt_label t) \<le> 512 \<and>
         GovernanceFractionSchema (gt_approval t) \<and> GovernanceFractionSchema (gt_quorum t) \<and>
         notice_ok (gt_noticePeriodSeconds t) \<and>
         1 \<le> length (gt_citations t) \<and> length (gt_citations t) \<le> 64 \<and>
         list_all CitationSchema (gt_citations t)
      then Inr t else throw ZodError)"

record GovernanceProfile =
  gp_id :: jstring
  gp_boardId :: jstring
  gp_version :: int
  gp_supersedesId :: "jstring option"
  gp_sourceAgreements :: "Citation list"
  gp_seats :: "GovernanceSeat list"
  gp_templates :: "GovernanceRuleTemplate list"

text \<open>The loop over the seats: no issue is added; the second argument counts the chairs.\<close>

fun seats_ok :: "jstring list \<Rightarrow> nat \<Rightarrow> GovernanceSeat list \<Rightarrow> bool" where
  "seats_ok seatIds chairCount [] = (\<not> 1 < chairCount)"
| "seats_ok seatIds chairCount (seat # seats) =
     (let weight = parseBigInt (gs_weight seat) in
      gs_memberId seat \<notin> set seatIds \<and>
      \<not> (gs_role seat = gs_voting_member \<and> weight = Some 0) \<and>
      \<not> (gs_role seat \<noteq> gs_voting_member \<and> weight \<noteq> None \<and> weight \<noteq> Some 0) \<and>
      \<not> (gs_chair seat \<and> gs_role seat \<noteq> gs_voting_member) \<and>
      seats_ok (set_add seatIds (gs_memberId seat)) (if gs_chair seat then Suc chairCount else chairCount) seats)"

fun templates_ok :: "jstring list \<Rightarrow> jstring list \<Rightarrow> GovernanceRuleTemplate list \<Rightarrow> bool" where
  "templates_ok templateIds templateCodes [] = True"
| "templates_ok templateIds templateCodes (t # ts) =
     (gt_id t \<notin> set templateIds \<and> gt_code t \<notin> set templateCodes \<and>
      templates_ok (set_add templateIds (gt_id t)) (set_add templateCodes (gt_code t)) ts)"

definition profile_ok :: "GovernanceProfile \<Rightarrow> bool" where
  "profile_ok profile \<longleftrightarrow>
     UuidSchema (gp_id profile) \<and> UuidSchema (gp_boardId profile) \<and>
     0 < gp_version profile \<and> isSafeInteger (gp_version profile) \<and>
     pred_option UuidSchema (gp_supersedesId profile) \<and>
     1 \<le> length (gp_sourceAgreements profile) \<and> length (gp_sourceAgreements profile) \<le> 256 \<and>
     list_all CitationSchema (gp_sourceAgreements profile) \<and>
     1 \<le> length (gp_seats profile) \<and> length (gp_seats profile) \<le> 10000 \<and>
     list_all GovernanceSeatSchema (gp_seats profile) \<and>
     1 \<le> length (gp_templates profile) \<and> length (gp_templates profile) \<le> 1000 \<and>
     \<not> ((gp_version profile = 1) \<noteq> (gp_supersedesId profile = None)) \<and>
     seats_ok [] 0 (gp_seats profile) \<and> templates_ok [] [] (gp_templates profile)"

definition GovernanceProfile_parse :: "GovernanceProfile \<Rightarrow> GovernanceProfile result" where
  "GovernanceProfile_parse input =
     bindr (mapr GovernanceRuleTemplate_parse (gp_templates input)) (\<lambda>templates.
     let profile = input\<lparr>gp_templates := templates\<rparr> in
     if profile_ok profile then Inr profile else throw ZodError)"

section \<open>Overrides\<close>

record GovernanceRuleOverride =
  go_approval :: "GovernanceFraction option"
  go_quorum :: "GovernanceFraction option"
  go_noticePeriodSeconds :: "int option"
  go_reason :: jstring
  go_citations :: "Citation list"

definition GovernanceRuleOverride_parse :: "GovernanceRuleOverride \<Rightarrow> GovernanceRuleOverride result" where
  "GovernanceRuleOverride_parse input =
     (let ov = input\<lparr>go_reason := js_trim (go_reason input)\<rparr> in
      if pred_option GovernanceFractionSchema (go_approval ov) \<and>
         pred_option GovernanceFractionSchema (go_quorum ov) \<and>
         pred_option notice_ok (go_noticePeriodSeconds ov) \<and>
         1 \<le> length (go_reason ov) \<and> length (go_reason ov) \<le> 65536 \<and>
         1 \<le> length (go_citations ov) \<and> length (go_citations ov) \<le> 64 \<and>
         list_all CitationSchema (go_citations ov) \<and>
         (go_approval ov \<noteq> None \<or> go_quorum ov \<noteq> None \<or> go_noticePeriodSeconds ov \<noteq> None)
      then Inr ov else throw ZodError)"

definition fractionAtLeast :: "GovernanceFraction \<Rightarrow> GovernanceFraction \<Rightarrow> bool" where
  "fractionAtLeast candidate limit \<longleftrightarrow>
     int (dec_val (gf_numerator limit)) * int (dec_val (gf_denominator candidate))
       \<le> int (dec_val (gf_numerator candidate)) * int (dec_val (gf_denominator limit))"

section \<open>Canonical records\<close>

definition fraction_json :: "GovernanceFraction \<Rightarrow> json" where
  "fraction_json f = JObj [(lit ''numerator'', JStr (gf_numerator f)), (lit ''denominator'', JStr (gf_denominator f))]"

definition matter_citation_json :: "Citation \<Rightarrow> json" where
  "matter_citation_json c = JObj
     [(lit ''sourceDocumentVersionId'', JStr (ct_sourceDocumentVersionId c)),
      (lit ''sourceDocumentSha256'', JStr (ct_sourceDocumentSha256 c)),
      (lit ''clause'', JStr (ct_clause c)), (lit ''locator'', JStr (ct_locator c))]"

fun seat_role_name :: "GovernanceSeatRole \<Rightarrow> jstring" where
  "seat_role_name gs_voting_member = lit ''voting_member''"
| "seat_role_name gs_management = lit ''management''"
| "seat_role_name gs_observer = lit ''observer''"

definition seat_json :: "GovernanceSeat \<Rightarrow> json" where
  "seat_json s = JObj [(lit ''memberId'', JStr (gs_memberId s)), (lit ''role'', JStr (seat_role_name (gs_role s))),
     (lit ''weight'', JStr (gs_weight s)), (lit ''chair'', JBool (gs_chair s))]"

fun denominator_name :: "ApprovalDenominator \<Rightarrow> jstring" where
  "denominator_name eligible_weight = lit ''eligible''"
| "denominator_name participating_weight = lit ''participating''"
| "denominator_name yes_no_weight = lit ''yes_no''"

fun tie_name :: "TieBehavior \<Rightarrow> jstring" where
  "tie_name reject_tie = lit ''reject''"
| "tie_name chair_casting_vote = lit ''chair_casting_vote''"

fun proxy_policy_name :: "TemplateProxyPolicy \<Rightarrow> jstring" where
  "proxy_policy_name tp_principal_supersedes = lit ''principal_supersedes_proxy''"
| "proxy_policy_name tp_first_ballot_final = lit ''first_ballot_final''"
| "proxy_policy_name tp_forbidden = lit ''forbidden''"

fun close_mode_name :: "TemplateCloseMode \<Rightarrow> jstring" where
  "close_mode_name tc_automatic = lit ''automatic''"
| "close_mode_name tc_secretariat_confirmed = lit ''secretariat_confirmed''"

fun override_policy_name :: "TemplateOverridePolicy \<Rightarrow> jstring" where
  "override_policy_name to_forbidden = lit ''forbidden''"
| "override_policy_name to_strengthen_only = lit ''strengthen_only''"

definition template_json :: "GovernanceRuleTemplate \<Rightarrow> json" where
  "template_json t = JObj
     [(lit ''id'', JStr (gt_id t)), (lit ''code'', JStr (gt_code t)), (lit ''label'', JStr (gt_label t)),
      (lit ''approval'', fraction_json (gt_approval t)), (lit ''quorum'', fraction_json (gt_quorum t)),
      (lit ''approvalDenominator'', JStr (denominator_name (gt_approvalDenominator t))),
      (lit ''abstentionsCountForQuorum'', JBool (gt_abstentionsCountForQuorum t)),
      (lit ''tieBehavior'', JStr (tie_name (gt_tieBehavior t))),
      (lit ''proxyPolicy'', JStr (proxy_policy_name (gt_proxyPolicy t))),
      (lit ''noticePeriodSeconds'', JNum (gt_noticePeriodSeconds t)),
      (lit ''closeMode'', JStr (close_mode_name (gt_closeMode t))),
      (lit ''overridePolicy'', JStr (override_policy_name (gt_overridePolicy t))),
      (lit ''citations'', JArr (map matter_citation_json (gt_citations t)))]"

definition profile_json :: "GovernanceProfile \<Rightarrow> json" where
  "profile_json p = JObj
     [(lit ''schemaVersion'', jstr ''boardagent.governance-profile.v1''),
      (lit ''id'', JStr (gp_id p)), (lit ''boardId'', JStr (gp_boardId p)),
      (lit ''version'', JNum (gp_version p)), (lit ''supersedesId'', nullable JStr (gp_supersedesId p)),
      (lit ''sourceAgreements'', JArr (map matter_citation_json (gp_sourceAgreements p))),
      (lit ''seats'', JArr (map seat_json (gp_seats p))),
      (lit ''templates'', JArr (map template_json (gp_templates p)))]"

text \<open>An optional field that is not given is absent from the object.\<close>

definition optional_field :: "string \<Rightarrow> ('a \<Rightarrow> json) \<Rightarrow> 'a option \<Rightarrow> (jstring \<times> json) list" where
  "optional_field k f x = (case x of None \<Rightarrow> [] | Some y \<Rightarrow> [(lit k, f y)])"

definition override_json :: "GovernanceRuleOverride \<Rightarrow> json" where
  "override_json ov = JObj
     (optional_field ''approval'' fraction_json (go_approval ov) @
      optional_field ''quorum'' fraction_json (go_quorum ov) @
      optional_field ''noticePeriodSeconds'' JNum (go_noticePeriodSeconds ov) @
      [(lit ''reason'', JStr (go_reason ov)),
       (lit ''citations'', JArr (map matter_citation_json (go_citations ov)))])"

definition selection_json :: "jstring \<Rightarrow> GovernanceRuleTemplate \<Rightarrow> GovernanceRuleOverride option \<Rightarrow> json" where
  "selection_json profileSha256 t ov = JObj
     [(lit ''schemaVersion'', jstr ''boardagent.governance-rule-selection.v1''),
      (lit ''profileSha256'', JStr profileSha256), (lit ''template'', template_json t),
      (lit ''override'', nullable override_json ov)]"

section \<open>Selection\<close>

record SelectedGovernanceRule =
  sg_profileSha256 :: jstring
  sg_template :: GovernanceRuleTemplate
  sg_override :: "GovernanceRuleOverride option"
  sg_selectionSha256 :: jstring

definition governanceProfileSha256 :: "platform \<Rightarrow> GovernanceProfile \<Rightarrow> jstring result" where
  "governanceProfileSha256 pl input =
     bindr (GovernanceProfile_parse input) (\<lambda>profile. canonicalSha256 pl (profile_json profile))"

definition or_else :: "'a option \<Rightarrow> 'a \<Rightarrow> 'a" where
  "or_else x y = (case x of None \<Rightarrow> y | Some z \<Rightarrow> z)"

definition selectGovernanceRule ::
    "platform \<Rightarrow> GovernanceProfile \<Rightarrow> jstring \<Rightarrow> GovernanceRuleOverride option \<Rightarrow> SelectedGovernanceRule result" where
  "selectGovernanceRule pl profileInput templateCode overrideInput =
     bindr (GovernanceProfile_parse profileInput) (\<lambda>profile.
     case find (\<lambda>candidate. gt_code candidate = templateCode) (gp_templates profile) of
       None \<Rightarrow> throw (Error ''rule_not_permitted_by_profile'')
     | Some t \<Rightarrow>
     bindr (governanceProfileSha256 pl profile) (\<lambda>profileSha256.
     case overrideInput of
       None \<Rightarrow>
         bindr (canonicalSha256 pl (selection_json profileSha256 t None)) (\<lambda>selectionSha256.
         Inr \<lparr>sg_profileSha256 = profileSha256, sg_template = t, sg_override = None,
              sg_selectionSha256 = selectionSha256\<rparr>)
     | Some ovInput \<Rightarrow>
         if gt_overridePolicy t \<noteq> to_strengthen_only then throw (Error ''override_forbidden'')
         else bindr (GovernanceRuleOverride_parse ovInput) (\<lambda>ov.
         if (case go_approval ov of None \<Rightarrow> False | Some f \<Rightarrow> \<not> fractionAtLeast f (gt_approval t))
           then throw (Error ''override_weakens_approval'')
         else if (case go_quorum ov of None \<Rightarrow> False | Some f \<Rightarrow> \<not> fractionAtLeast f (gt_quorum t))
           then throw (Error ''override_weakens_quorum'')
         else if (case go_noticePeriodSeconds ov of None \<Rightarrow> False | Some n \<Rightarrow> n < gt_noticePeriodSeconds t)
           then throw (Error ''override_shortens_notice'')
         else
         bindr (GovernanceRuleTemplate_parse (t\<lparr>
             gt_approval := or_else (go_approval ov) (gt_approval t),
             gt_quorum := or_else (go_quorum ov) (gt_quorum t),
             gt_noticePeriodSeconds := or_else (go_noticePeriodSeconds ov) (gt_noticePeriodSeconds t)\<rparr>))
           (\<lambda>selectedTemplate.
         bindr (canonicalSha256 pl (selection_json profileSha256 selectedTemplate (Some ov))) (\<lambda>selectionSha256.
         Inr \<lparr>sg_profileSha256 = profileSha256, sg_template = selectedTemplate, sg_override = Some ov,
              sg_selectionSha256 = selectionSha256\<rparr>)))))"

record GovernanceProfileActivation =
  ga_profile :: GovernanceProfile
  ga_profileSha256 :: jstring
  ga_activationConsentRecordId :: jstring

definition GovernanceProfileActivation_parse ::
    "platform \<Rightarrow> GovernanceProfileActivation \<Rightarrow> GovernanceProfileActivation result" where
  "GovernanceProfileActivation_parse pl input =
     bindr (GovernanceProfile_parse (ga_profile input)) (\<lambda>profile.
     bindr (governanceProfileSha256 pl profile) (\<lambda>sha.
     if sha \<noteq> ga_profileSha256 input \<or> \<not> Sha256HexSchema (ga_profileSha256 input) \<or>
        \<not> UuidSchema (ga_activationConsentRecordId input)
     then throw ZodError
     else Inr (input\<lparr>ga_profile := profile\<rparr>)))"

section \<open>Numerals and fractions\<close>

lemma greatestCommonDivisor_gcd:
  "0 \<le> a \<Longrightarrow> 0 \<le> b \<Longrightarrow> greatestCommonDivisor a b = gcd a b"
proof (induction a b rule: greatestCommonDivisor.induct)
  case (1 a b)
  show ?case
  proof (cases "b = 0")
    case True
    with 1 show ?thesis by (simp add: greatestCommonDivisor.simps)
  next
    case False
    have "big_rem a b = a mod b" using 1 by (cases "a = 0") (simp_all add: big_rem_def)
    with 1 False show ?thesis
      by (subst greatestCommonDivisor.simps) (simp add: gcd.commute [of b] gcd_red_int [symmetric])
  qed
qed

lemma dec_nat_snoc: "0 < n \<Longrightarrow> d < 10 \<Longrightarrow> dec_nat (10 * n + d) = dec_nat n @ [0x30 + of_nat d]"
  by (subst dec_nat.simps) simp

lemma digit_val_less: "is_digit c \<Longrightarrow> digit_val c < 10"
  by (auto simp: digit_val_def digit_bounds)

lemma digit_val_back: "is_digit c \<Longrightarrow> 0x30 + of_nat (digit_val c) = c"
proof -
  assume "is_digit c"
  then have "0x30 \<le> unat c" by (simp add: digit_bounds)
  then show ?thesis by (simp add: digit_val_def of_nat_diff)
qed

lemma dec_val_pos: "list_all is_digit cs \<Longrightarrow> cs \<noteq> [] \<Longrightarrow> hd cs \<noteq> 0x30 \<Longrightarrow>
    0 < dec_val cs \<and> dec_nat (dec_val cs) = cs"
proof (induction cs rule: rev_induct)
  case (snoc c cs)
  from snoc.prems have c: "is_digit c" by simp
  note dv = digit_val_less [OF c] digit_val_back [OF c]
  show ?case
  proof (cases "cs = []")
    case True
    with snoc.prems(3) have "c \<noteq> 0x30" by simp
    have "digit_val c \<noteq> 0"
    proof
      assume "digit_val c = 0"
      with dv(2) have "c = 0x30" by simp
      with \<open>c \<noteq> 0x30\<close> show False by simp
    qed
    with True dv show ?thesis by (simp add: dec_val_def dec_nat.simps [of "digit_val c"])
  next
    case False
    with snoc have "0 < dec_val cs" "dec_nat (dec_val cs) = cs" by auto
    with dv show ?thesis by (simp add: dec_val_snoc dec_nat_snoc)
  qed
qed simp

lemma PositiveIntegerString_val:
  "PositiveIntegerStringSchema s \<Longrightarrow> list_all is_digit s \<and> 0 < dec_val s \<and> dec_nat (dec_val s) = s"
  using dec_val_pos [of s] by (cases s) (auto simp: PositiveIntegerStringSchema_def)

lemma UnsignedIntegerString_val:
  assumes "UnsignedIntegerStringSchema s"
  shows "list_all is_digit s \<and> dec_nat (dec_val s) = s"
proof (cases "s = [0x30]")
  case True
  then show ?thesis by (simp add: dec_val_def digit_val_def dec_nat_0 is_digit_def)
next
  case False
  with assms have "PositiveIntegerStringSchema s"
    by (auto simp: UnsignedIntegerStringSchema_def PositiveIntegerStringSchema_def split: list.splits)
  then show ?thesis by (simp add: PositiveIntegerString_val)
qed

definition fraction_of :: "GovernanceFraction \<Rightarrow> Rational" where
  "fraction_of f = \<lparr>numerator = int (dec_val (gf_numerator f)), denominator = int (dec_val (gf_denominator f))\<rparr>"

lemma GovernanceFractionSchema_iff:
  "GovernanceFractionSchema f \<longleftrightarrow>
     UnsignedIntegerStringSchema (gf_numerator f) \<and> PositiveIntegerStringSchema (gf_denominator f) \<and>
     dec_val (gf_numerator f) \<le> dec_val (gf_denominator f) \<and>
     coprime (dec_val (gf_numerator f)) (dec_val (gf_denominator f))"
proof (cases "UnsignedIntegerStringSchema (gf_numerator f) \<and> PositiveIntegerStringSchema (gf_denominator f)")
  case True
  then have d: "list_all is_digit (gf_numerator f)" "list_all is_digit (gf_denominator f)"
    using UnsignedIntegerString_val PositiveIntegerString_val by blast+
  have "greatestCommonDivisor (int (dec_val (gf_numerator f))) (int (dec_val (gf_denominator f))) = 1 \<longleftrightarrow>
      coprime (dec_val (gf_numerator f)) (dec_val (gf_denominator f))"
    by (simp add: greatestCommonDivisor_gcd coprime_iff_gcd_eq_1 gcd_int_int_eq del: coprime_int_iff)
  with True d show ?thesis by (auto simp: GovernanceFractionSchema_def parseBigInt_def)
qed (auto simp: GovernanceFractionSchema_def)

lemma fraction_unique:
  assumes "GovernanceFractionSchema f" and "GovernanceFractionSchema g"
    and "dec_val (gf_numerator f) * dec_val (gf_denominator g) = dec_val (gf_numerator g) * dec_val (gf_denominator f)"
  shows "f = g"
proof -
  have "dec_val (gf_numerator f) = dec_val (gf_numerator g) \<and> dec_val (gf_denominator f) = dec_val (gf_denominator g)"
    using assms coprime_crossproduct_nat [of "dec_val (gf_numerator f)" "dec_val (gf_denominator f)"
        "dec_val (gf_numerator g)" "dec_val (gf_denominator g)"]
    by (simp add: GovernanceFractionSchema_iff mult.commute coprime_commute)
  then have "gf_numerator f = gf_numerator g" "gf_denominator f = gf_denominator g"
    using assms(1,2) UnsignedIntegerString_val PositiveIntegerString_val
    unfolding GovernanceFractionSchema_iff by metis+
  then show ?thesis by simp
qed

section \<open>Parsing is idempotent\<close>

lemma dropWhile_fix: "xs = [] \<or> \<not> P (hd xs) \<Longrightarrow> dropWhile P xs = xs"
  by (cases xs) auto

lemma js_trim_idem: "js_trim (js_trim s) = js_trim s"
proof -
  define u where "u = dropWhile js_space s"
  define v where "v = rev (dropWhile js_space (rev u))"
  have v: "js_trim s = v" by (simp add: js_trim_def u_def v_def)
  have "v = [] \<or> \<not> js_space (hd v)"
  proof (cases "v = []")
    case False
    obtain w where "u = v @ w"
      using takeWhile_dropWhile_id [of js_space "rev u"] unfolding v_def
      by (metis rev_append rev_rev_ident)
    with False have "hd v = hd u" "u \<noteq> []" by auto
    moreover from this(2) have "\<not> js_space (hd u)" unfolding u_def by (rule hd_dropWhile)
    ultimately show ?thesis by simp
  qed simp
  moreover have "rev v = [] \<or> \<not> js_space (hd (rev v))"
    unfolding v_def rev_rev_ident using hd_dropWhile by blast
  ultimately show ?thesis unfolding v by (simp add: js_trim_def dropWhile_fix)
qed

lemma template_parse_fix: "GovernanceRuleTemplate_parse t = Inr u \<Longrightarrow> GovernanceRuleTemplate_parse u = Inr u"
  by (auto simp: GovernanceRuleTemplate_parse_def Let_def js_trim_idem split: if_splits)

lemma mapr_fix: "mapr f xs = Inr ys \<Longrightarrow> (\<And>x y. f x = Inr y \<Longrightarrow> f y = Inr y) \<Longrightarrow> mapr f ys = Inr ys"
  by (induction xs arbitrary: ys) (auto simp: bindr_eq_Inr_iff)

lemma profile_parse_fix: "GovernanceProfile_parse p = Inr q \<Longrightarrow> GovernanceProfile_parse q = Inr q"
proof -
  assume "GovernanceProfile_parse p = Inr q"
  then obtain ts where ts: "mapr GovernanceRuleTemplate_parse (gp_templates p) = Inr ts"
    and q: "q = p\<lparr>gp_templates := ts\<rparr>" "profile_ok q"
    by (auto simp: GovernanceProfile_parse_def Let_def bindr_eq_Inr_iff split: if_splits)
  from mapr_fix [OF ts template_parse_fix] q show ?thesis
    by (simp add: GovernanceProfile_parse_def Let_def)
qed

lemma templates_ok_iff:
  "templates_ok ids codes ts \<longleftrightarrow> distinct (map gt_id ts) \<and> distinct (map gt_code ts) \<and>
     set ids \<inter> gt_id ` set ts = {} \<and> set codes \<inter> gt_code ` set ts = {}"
  by (induction ts arbitrary: ids codes) auto

section \<open>The canonical records determine their values\<close>

named_theorems json_inj \<open>injectivity of encodings into abstract JSON values\<close>

lemma map_inj: "(\<And>x y. g x = g y \<longleftrightarrow> x = y) \<Longrightarrow> map g xs = map g ys \<longleftrightarrow> xs = ys"
  by (rule inj_map_eq_map) (simp add: inj_def)

lemma jarr_inj:
  "(\<And>x y. jval_of (f x) = jval_of (f y) \<longleftrightarrow> x = y) \<Longrightarrow>
     jval_of (JArr (map f xs)) = jval_of (JArr (map f ys)) \<longleftrightarrow> xs = ys"
  using map_inj [of "\<lambda>x. jval_of (f x)" xs ys] by (simp add: comp_def)

lemma governance_name_inj [json_inj]:
  "seat_role_name a = seat_role_name b \<longleftrightarrow> a = b"
  "denominator_name c = denominator_name d \<longleftrightarrow> c = d"
  "tie_name e = tie_name f \<longleftrightarrow> e = f"
  "proxy_policy_name g = proxy_policy_name h \<longleftrightarrow> g = h"
  "close_mode_name i = close_mode_name j \<longleftrightarrow> i = j"
  "override_policy_name k = override_policy_name l \<longleftrightarrow> k = l"
proof -
  show "seat_role_name a = seat_role_name b \<longleftrightarrow> a = b" by (cases a; cases b) auto
  show "denominator_name c = denominator_name d \<longleftrightarrow> c = d" by (cases c; cases d) auto
  show "tie_name e = tie_name f \<longleftrightarrow> e = f" by (cases e; cases f) auto
  show "proxy_policy_name g = proxy_policy_name h \<longleftrightarrow> g = h" by (cases g; cases h) auto
  show "close_mode_name i = close_mode_name j \<longleftrightarrow> i = j" by (cases i; cases j) auto
  show "override_policy_name k = override_policy_name l \<longleftrightarrow> k = l" by (cases k; cases l) auto
qed

lemma fraction_json_inj [json_inj]: "jval_of (fraction_json f) = jval_of (fraction_json g) \<longleftrightarrow> f = g"
  unfolding fraction_json_def by (subst jval_obj_eq) auto

lemma matter_citation_json_inj [json_inj]:
  "jval_of (matter_citation_json c) = jval_of (matter_citation_json d) \<longleftrightarrow> c = d"
  unfolding matter_citation_json_def by (subst jval_obj_eq) auto

lemma seat_json_inj [json_inj]: "jval_of (seat_json s) = jval_of (seat_json t) \<longleftrightarrow> s = t"
  unfolding seat_json_def by (subst jval_obj_eq) (auto simp: json_inj)

lemmas governance_arrays [json_inj] =
  jarr_inj [OF matter_citation_json_inj] jarr_inj [OF seat_json_inj]

lemma template_json_inj [json_inj]: "jval_of (template_json t) = jval_of (template_json u) \<longleftrightarrow> t = u"
  unfolding template_json_def
  by (subst jval_obj_eq) (simp_all add: json_inj del: jval_of.simps(5), auto)

lemmas template_array [json_inj] = jarr_inj [OF template_json_inj]

lemma profile_json_inj [json_inj]: "jval_of (profile_json p) = jval_of (profile_json q) \<longleftrightarrow> p = q"
  unfolding profile_json_def
  by (subst jval_obj_eq) (simp_all add: json_inj nullable_jval_inj del: jval_of.simps(5), auto)

definition override_lookup :: "GovernanceRuleOverride \<Rightarrow> jstring \<Rightarrow> jval option" where
  "override_lookup ov k = (case jval_of (override_json ov) of VObj m \<Rightarrow> m k | _ \<Rightarrow> None)"

lemma override_lookup_simps:
  "override_lookup ov (lit ''approval'') = map_option (\<lambda>f. jval_of (fraction_json f)) (go_approval ov)"
  "override_lookup ov (lit ''quorum'') = map_option (\<lambda>f. jval_of (fraction_json f)) (go_quorum ov)"
  "override_lookup ov (lit ''noticePeriodSeconds'') = map_option VNum (go_noticePeriodSeconds ov)"
  "override_lookup ov (lit ''reason'') = Some (VStr (go_reason ov))"
  "override_lookup ov (lit ''citations'') = Some (jval_of (JArr (map matter_citation_json (go_citations ov))))"
  by (cases "go_approval ov"; cases "go_quorum ov"; cases "go_noticePeriodSeconds ov";
      simp add: override_lookup_def override_json_def optional_field_def)+

lemma override_json_inj [json_inj]: "jval_of (override_json x) = jval_of (override_json y) \<longleftrightarrow> x = y"
proof
  assume "jval_of (override_json x) = jval_of (override_json y)"
  then have l: "override_lookup x k = override_lookup y k" for k by (simp add: override_lookup_def)
  have o: "map_option g a = map_option g b \<longleftrightarrow> a = b" if "\<And>u v. g u = g v \<longleftrightarrow> u = v" for g a b
    using that by (cases a; cases b) auto
  have "go_approval x = go_approval y" "go_quorum x = go_quorum y"
    using l [of "lit ''approval''"] l [of "lit ''quorum''"]
    unfolding override_lookup_simps by (simp_all add: o json_inj del: lit_simps)
  moreover have "go_noticePeriodSeconds x = go_noticePeriodSeconds y"
    using l [of "lit ''noticePeriodSeconds''"] unfolding override_lookup_simps by (simp add: o)
  moreover have "go_reason x = go_reason y" "go_citations x = go_citations y"
    using l [of "lit ''reason''"] l [of "lit ''citations''"]
    unfolding override_lookup_simps option.inject json_inj by simp_all
  ultimately show "x = y" by simp
qed simp

lemma selection_json_inj:
  "jval_of (selection_json h t x) = jval_of (selection_json k u y) \<longleftrightarrow> h = k \<and> t = u \<and> x = y"
proof -
  have "jval_of (override_json z) \<noteq> VNull" for z by (simp add: override_json_def)
  then have "jval_of (nullable override_json x) = jval_of (nullable override_json y) \<longleftrightarrow> x = y"
    by (cases x; cases y) (simp_all add: json_inj eq_commute [of VNull])
  then show ?thesis
    unfolding selection_json_def by (subst jval_obj_eq) (simp_all add: json_inj)
qed

lemma governance_json_ok [simp]:
  "js_json (fraction_json f) \<and> index_free (fraction_json f)"
  "js_json (matter_citation_json c) \<and> index_free (matter_citation_json c)"
  "js_json (seat_json s) \<and> index_free (seat_json s)"
  by (simp_all add: fraction_json_def matter_citation_json_def seat_json_def)

lemma template_json_ok:
  "isSafeInteger (gt_noticePeriodSeconds t) \<Longrightarrow> js_json (template_json t) \<and> index_free (template_json t)"
  by (simp add: template_json_def)

lemma template_parse_notice:
  "GovernanceRuleTemplate_parse t = Inr u \<Longrightarrow> notice_ok (gt_noticePeriodSeconds u)"
  by (auto simp: GovernanceRuleTemplate_parse_def Let_def split: if_splits)

lemma parsed_templates:
  assumes "GovernanceProfile_parse p = Inr q" and "t \<in> set (gp_templates q)"
  shows "GovernanceRuleTemplate_parse t = Inr t"
proof -
  from profile_parse_fix [OF assms(1)] have "mapr GovernanceRuleTemplate_parse (gp_templates q) = Inr (gp_templates q)"
    by (auto simp: GovernanceProfile_parse_def Let_def bindr_eq_Inr_iff split: if_splits)
      (metis GovernanceProfile.select_convs(7) GovernanceProfile.surjective GovernanceProfile.update_convs(7))
  then show ?thesis using assms(2) by (auto simp: mapr_Inr_iff list_all2_same)
qed

lemma profile_json_ok:
  assumes "GovernanceProfile_parse p = Inr q"
  shows "js_json (profile_json q) \<and> index_free (profile_json q)"
proof -
  have "js_json (template_json t) \<and> index_free (template_json t)" if "t \<in> set (gp_templates q)" for t
    using template_parse_notice [OF parsed_templates [OF assms that]] by (intro template_json_ok) (simp add: notice_ok_def)
  moreover have "isSafeInteger (gp_version q)"
    using assms by (auto simp: GovernanceProfile_parse_def Let_def bindr_eq_Inr_iff profile_ok_def split: if_splits)
  ultimately show ?thesis by (simp add: profile_json_def)
qed

lemma override_json_ok:
  assumes "GovernanceRuleOverride_parse x = Inr y"
  shows "js_json (override_json y) \<and> index_free (override_json y)"
proof -
  have "pred_option notice_ok (go_noticePeriodSeconds y)"
    using assms by (auto simp: GovernanceRuleOverride_parse_def Let_def split: if_splits)
  then show ?thesis
    by (cases "go_approval y"; cases "go_quorum y"; cases "go_noticePeriodSeconds y")
      (simp_all add: override_json_def optional_field_def notice_ok_def)
qed

lemma selection_json_ok:
  assumes "notice_ok (gt_noticePeriodSeconds t)"
    and "\<And>y. x = Some y \<Longrightarrow> js_json (override_json y) \<and> index_free (override_json y)"
  shows "js_json (selection_json h t x) \<and> index_free (selection_json h t x)"
  using assms template_json_ok [of t] by (cases x) (simp_all add: selection_json_def notice_ok_def)

section \<open>Selection\<close>

lemma select_cases:
  assumes "selectGovernanceRule pl p code x = Inr s"
  obtains q t where "GovernanceProfile_parse p = Inr q"
    and "find (\<lambda>candidate. gt_code candidate = code) (gp_templates q) = Some t"
    and "canonicalSha256 pl (profile_json q) = Inr (sg_profileSha256 s)"
    and "canonicalSha256 pl (selection_json (sg_profileSha256 s) (sg_template s) (sg_override s)) =
      Inr (sg_selectionSha256 s)"
    and "x = None \<Longrightarrow> sg_template s = t \<and> sg_override s = None"
    and "\<And>y. x = Some y \<Longrightarrow> \<exists>ov. GovernanceRuleOverride_parse y = Inr ov \<and> sg_override s = Some ov \<and>
      gt_overridePolicy t = to_strengthen_only \<and>
      pred_option (\<lambda>f. fractionAtLeast f (gt_approval t)) (go_approval ov) \<and>
      pred_option (\<lambda>f. fractionAtLeast f (gt_quorum t)) (go_quorum ov) \<and>
      pred_option (\<lambda>n. gt_noticePeriodSeconds t \<le> n) (go_noticePeriodSeconds ov) \<and>
      GovernanceRuleTemplate_parse (t\<lparr>
        gt_approval := or_else (go_approval ov) (gt_approval t),
        gt_quorum := or_else (go_quorum ov) (gt_quorum t),
        gt_noticePeriodSeconds := or_else (go_noticePeriodSeconds ov) (gt_noticePeriodSeconds t)\<rparr>) =
      Inr (sg_template s)"
proof -
  from assms obtain q where q: "GovernanceProfile_parse p = Inr q"
    by (auto simp: selectGovernanceRule_def bindr_eq_Inr_iff)
  from assms q obtain t where t: "find (\<lambda>candidate. gt_code candidate = code) (gp_templates q) = Some t"
    by (auto simp: selectGovernanceRule_def split: option.splits)
  from assms q t obtain h where h: "canonicalSha256 pl (profile_json q) = Inr h"
    by (auto simp: selectGovernanceRule_def bindr_eq_Inr_iff governanceProfileSha256_def profile_parse_fix [OF q])
  show thesis
  proof (cases x)
    case None
    with assms q t h show thesis
      by (intro that [OF q t])
        (auto simp: selectGovernanceRule_def bindr_eq_Inr_iff governanceProfileSha256_def profile_parse_fix [OF q])
  next
    case (Some y)
    with assms q t h obtain ov where ov: "GovernanceRuleOverride_parse y = Inr ov"
      by (auto simp: selectGovernanceRule_def bindr_eq_Inr_iff governanceProfileSha256_def
          profile_parse_fix [OF q] split: if_splits)
    from assms Some q t h ov show thesis
      by (intro that [OF q t])
        (auto simp: selectGovernanceRule_def bindr_eq_Inr_iff governanceProfileSha256_def
          profile_parse_fix [OF q] not_less split: if_splits option.splits)
  qed
qed

lemma select_template_parsed:
  assumes "selectGovernanceRule pl p code x = Inr s"
  shows "GovernanceRuleTemplate_parse (sg_template s) = Inr (sg_template s)"
  using assms
proof (cases rule: select_cases)
  case (1 q t)
  show ?thesis
  proof (cases x)
    case None
    have "t \<in> set (gp_templates q)" using 1(2) by (auto simp: find_Some_iff)
    with parsed_templates [OF 1(1)] 1(5) None show ?thesis by blast
  next
    case (Some y)
    with 1(6) show ?thesis by (blast intro: template_parse_fix)
  qed
qed

definition approval_rule_of :: "GovernanceRuleTemplate \<Rightarrow> ApprovalRule" where
  "approval_rule_of t = \<lparr>ar_approval = fraction_of (gt_approval t), ar_quorum = fraction_of (gt_quorum t),
     ar_approvalDenominator = gt_approvalDenominator t,
     ar_abstentionsCountForQuorum = gt_abstentionsCountForQuorum t, ar_tieBehavior = gt_tieBehavior t\<rparr>"

lemma at_least_weaken:
  assumes "fractionAtLeast f g" and "PositiveIntegerStringSchema (gf_denominator f)"
    and "at_least (fraction_of f) v w" and "0 \<le> w"
  shows "at_least (fraction_of g) v w"
proof -
  let ?nf = "int (dec_val (gf_numerator f))" and ?df = "int (dec_val (gf_denominator f))"
  let ?ng = "int (dec_val (gf_numerator g))" and ?dg = "int (dec_val (gf_denominator g))"
  have df: "0 < ?df" using PositiveIntegerString_val [OF assms(2)] by simp
  have "w * ?ng * ?df \<le> w * (?nf * ?dg)"
    using assms(1,4) by (simp add: fractionAtLeast_def mult.assoc mult_left_mono)
  also have "\<dots> \<le> v * ?df * ?dg"
    using assms(3) by (simp add: at_least_def fraction_of_def mult.assoc [symmetric] mult_right_mono)
  finally have "(w * ?ng) * ?df \<le> (v * ?dg) * ?df" by (simp add: ac_simps)
  with df show ?thesis by (simp add: at_least_def fraction_of_def mult_le_cancel_right)
qed

lemma fractionAtLeast_refl: "fractionAtLeast f f"
  by (simp add: fractionAtLeast_def)

definition strengthens :: "GovernanceRuleTemplate \<Rightarrow> GovernanceRuleTemplate \<Rightarrow> bool" where
  "strengthens u t \<longleftrightarrow>
     fractionAtLeast (gt_approval u) (gt_approval t) \<and> fractionAtLeast (gt_quorum u) (gt_quorum t) \<and>
     gt_noticePeriodSeconds t \<le> gt_noticePeriodSeconds u \<and>
     t = u\<lparr>gt_approval := gt_approval t, gt_quorum := gt_quorum t,
          gt_noticePeriodSeconds := gt_noticePeriodSeconds t\<rparr>"

lemma approved_weaken:
  assumes "strengthens u t" and "GovernanceRuleTemplate_parse u = Inr u" and "electorate_ok E" and "ballots_ok E B"
    and "vt_outcome (tally_spec E B (approval_rule_of u)) = approved"
  shows "vt_outcome (tally_spec E B (approval_rule_of t)) = approved"
proof -
  note nn = choice_weight_nonneg [OF assms(3), of B] spec_eligible_nonneg [OF assms(3)]
  have d: "PositiveIntegerStringSchema (gf_denominator (gt_approval u))"
      "PositiveIntegerStringSchema (gf_denominator (gt_quorum u))"
    using assms(2) by (auto simp: GovernanceRuleTemplate_parse_def Let_def GovernanceFractionSchema_def split: if_splits)
  from assms(1) have s: "fractionAtLeast (gt_approval u) (gt_approval t)"
      "fractionAtLeast (gt_quorum u) (gt_quorum t)" and e: "gt_approvalDenominator t = gt_approvalDenominator u"
      "gt_abstentionsCountForQuorum t = gt_abstentionsCountForQuorum u" "gt_tieBehavior t = gt_tieBehavior u"
    unfolding strengthens_def by (auto dest: arg_cong [of _ _ gt_approvalDenominator]
        arg_cong [of _ _ gt_abstentionsCountForQuorum] arg_cong [of _ _ gt_tieBehavior])
  have tot: "0 \<le> approval_total k (spec_eligible E) (choice_weight E B Yes) (choice_weight E B No)
      (choice_weight E B Abstain)" for k
    using nn by (simp add: approval_total_def add_nonneg_nonneg split: ApprovalDenominator.split)
  have q: "vt_quorumMet (tally_spec E B (approval_rule_of t))"
    if "vt_quorumMet (tally_spec E B (approval_rule_of u))"
    using that at_least_weaken [OF s(2) d(2) _ nn(2)]
    unfolding tally_spec_quorumMet by (auto simp: approval_rule_of_def e)
  have a: "vt_approvalMet (tally_spec E B (approval_rule_of t))"
    if "vt_approvalMet (tally_spec E B (approval_rule_of u))"
    using that at_least_weaken [OF s(1) d(1) _ tot]
    unfolding tally_spec_approvalMet by (auto simp: approval_rule_of_def e split: if_splits)
  show ?thesis using q a assms(5) unfolding approved_iff by blast
qed

lemma select_strengthens:
  assumes "selectGovernanceRule pl p code (Some y) = Inr s" and "selectGovernanceRule pl p code None = Inr b"
  shows "strengthens (sg_template s) (sg_template b) \<and> gt_overridePolicy (sg_template b) = to_strengthen_only"
  using assms(1)
proof (cases rule: select_cases)
  case (1 q t)
  have t: "sg_template b = t"
    using assms(2) 1(1,2) by (cases rule: select_cases) auto
  from 1(6) [OF refl] obtain ov :: GovernanceRuleOverride where ov: "gt_overridePolicy t = to_strengthen_only"
      "pred_option (\<lambda>f. fractionAtLeast f (gt_approval t)) (go_approval ov)"
      "pred_option (\<lambda>f. fractionAtLeast f (gt_quorum t)) (go_quorum ov)"
      "pred_option (\<lambda>n. gt_noticePeriodSeconds t \<le> n) (go_noticePeriodSeconds ov)"
    and u: "GovernanceRuleTemplate_parse (t\<lparr>
        gt_approval := or_else (go_approval ov) (gt_approval t),
        gt_quorum := or_else (go_quorum ov) (gt_quorum t),
        gt_noticePeriodSeconds := or_else (go_noticePeriodSeconds ov) (gt_noticePeriodSeconds t)\<rparr>) =
      Inr (sg_template s)"
    by blast
  have "t \<in> set (gp_templates q)" using 1(2) by (auto simp: find_Some_iff)
  from parsed_templates [OF 1(1) this] have "js_trim (gt_label t) = gt_label t"
    by (auto simp: GovernanceRuleTemplate_parse_def Let_def split: if_splits)
      (metis GovernanceRuleTemplate.select_convs(3) GovernanceRuleTemplate.surjective GovernanceRuleTemplate.update_convs(3))
  with u have "sg_template s = t\<lparr>
        gt_approval := or_else (go_approval ov) (gt_approval t),
        gt_quorum := or_else (go_quorum ov) (gt_quorum t),
        gt_noticePeriodSeconds := or_else (go_noticePeriodSeconds ov) (gt_noticePeriodSeconds t)\<rparr>"
    by (auto simp: GovernanceRuleTemplate_parse_def Let_def split: if_splits)
  with ov t show ?thesis
    by (cases "go_approval ov"; cases "go_quorum ov"; cases "go_noticePeriodSeconds ov")
      (simp_all add: strengthens_def or_else_def fractionAtLeast_refl)
qed

section \<open>A sample profile\<close>

definition wit_template :: GovernanceRuleTemplate where
  "wit_template = \<lparr>gt_id = wit_uuid, gt_code = lit ''ordinary'', gt_label = lit ''Ordinary'',
     gt_approval = \<lparr>gf_numerator = lit ''1'', gf_denominator = lit ''2''\<rparr>,
     gt_quorum = \<lparr>gf_numerator = lit ''1'', gf_denominator = lit ''2''\<rparr>,
     gt_approvalDenominator = participating_weight, gt_abstentionsCountForQuorum = True,
     gt_tieBehavior = reject_tie, gt_proxyPolicy = tp_forbidden, gt_noticePeriodSeconds = 86400,
     gt_closeMode = tc_automatic, gt_overridePolicy = to_strengthen_only, gt_citations = [wit_citation]\<rparr>"

definition wit_profile :: GovernanceProfile where
  "wit_profile = \<lparr>gp_id = wit_uuid, gp_boardId = wit_uuid', gp_version = 1, gp_supersedesId = None,
     gp_sourceAgreements = [wit_citation],
     gp_seats = [\<lparr>gs_memberId = wit_uuid, gs_role = gs_voting_member, gs_weight = lit ''3'', gs_chair = True\<rparr>],
     gp_templates = [wit_template]\<rparr>"

definition wit_override :: GovernanceRuleOverride where
  "wit_override = \<lparr>go_approval = Some \<lparr>gf_numerator = lit ''3'', gf_denominator = lit ''5''\<rparr>, go_quorum = None,
     go_noticePeriodSeconds = None, go_reason = lit ''entrenched'', go_citations = [wit_citation]\<rparr>"

lemma wit_fractions:
  "GovernanceFractionSchema \<lparr>gf_numerator = lit ''1'', gf_denominator = lit ''2''\<rparr>"
  "GovernanceFractionSchema \<lparr>gf_numerator = lit ''3'', gf_denominator = lit ''5''\<rparr>"
  by code_simp+

lemma wit_citation_valid: "CitationSchema wit_citation"
  by (simp add: CitationSchema_def wit_citation_def)

lemma trim_fix: "s \<noteq> [] \<Longrightarrow> \<not> js_space (hd s) \<Longrightarrow> \<not> js_space (last s) \<Longrightarrow> js_trim s = s"
  by (simp add: js_trim_def dropWhile_fix hd_rev)

lemma wit_trims: "js_trim (lit ''Ordinary'') = lit ''Ordinary''" "js_trim (lit ''entrenched'') = lit ''entrenched''"
  by (rule trim_fix; simp add: js_space_def)+

lemma wit_template_parses: "GovernanceRuleTemplate_parse wit_template = Inr wit_template"
proof -
  have "MatterFieldNameSchema (lit ''ordinary'')" by code_simp
  then show ?thesis
    using wit_fractions
    by (simp add: GovernanceRuleTemplate_parse_def wit_template_def wit_trims wit_citation_valid notice_ok_def
        isSafeInteger_def MAX_SAFE_INTEGER_def del: lit_simps)
qed

lemma wit_profile_parses: "GovernanceProfile_parse wit_profile = Inr wit_profile"
proof -
  have w: "UnsignedIntegerStringSchema (lit ''3'')" "parseBigInt (lit ''3'') = Some 3" by code_simp+
  have c: "gt_code wit_template = lit ''ordinary''" by (simp add: wit_template_def)
  have "profile_ok wit_profile"
    using w by (simp add: profile_ok_def wit_profile_def wit_citation_valid GovernanceSeatSchema_def isSafeInteger_def
        MAX_SAFE_INTEGER_def del: lit_simps)
  then show ?thesis
    by (simp add: GovernanceProfile_parse_def wit_profile_def wit_template_parses)
qed

lemma hash_defined:
  "index_free v \<Longrightarrow> json_depth v \<le> MAX_JSON_CONTAINER_DEPTH \<Longrightarrow> strings_ok (normalizeNFC pl) v \<Longrightarrow>
     \<exists>h. canonicalSha256 pl v = Inr h"
  by (simp add: canonicalSha256_iff)

lemma is_ascii_simps [simp]: "is_ascii []" "is_ascii (c # s) \<longleftrightarrow> c < 0x80 \<and> is_ascii s"
  by (simp_all add: is_ascii_def)

lemma scalar_ascii [simp]: "is_ascii s \<Longrightarrow> scalar_string nfc s"
  by (simp add: scalar_string_def)

lemma scalar_digest: "Sha256HexSchema h \<Longrightarrow> scalar_string nfc h"
proof -
  have "is_lower_hex c \<Longrightarrow> c < 0x80" for c
    by (auto simp: is_lower_hex_def is_digit_def word_le_nat_alt word_less_nat_alt)
  then show "Sha256HexSchema h \<Longrightarrow> scalar_string nfc h"
    by (auto simp: Sha256HexSchema_iff is_ascii_def list_all_iff scalar_string_def)
qed

abbreviation wit_strong :: GovernanceRuleTemplate where
  "wit_strong \<equiv> wit_template\<lparr>gt_approval := \<lparr>gf_numerator = lit ''3'', gf_denominator = lit ''5''\<rparr>\<rparr>"

lemmas governance_json_defs = selection_json_def profile_json_def template_json_def fraction_json_def
  matter_citation_json_def seat_json_def override_json_def optional_field_def

lemma wit_json:
  "json_depth (profile_json wit_profile) \<le> MAX_JSON_CONTAINER_DEPTH"
  "strings_ok nfc (profile_json wit_profile)"
  "json_depth (selection_json h wit_template None) \<le> MAX_JSON_CONTAINER_DEPTH"
  "json_depth (selection_json h wit_strong (Some wit_override)) \<le> MAX_JSON_CONTAINER_DEPTH"
  by (simp_all add: governance_json_defs wit_profile_def wit_template_def wit_override_def wit_citation_def
      MAX_JSON_CONTAINER_DEPTH_def)

lemma wit_selection_strings:
  assumes "Sha256HexSchema h"
  shows "strings_ok nfc (selection_json h wit_template None)"
    and "strings_ok nfc (selection_json h wit_strong (Some wit_override))"
  by (simp_all add: governance_json_defs wit_template_def wit_citation_def wit_override_def
      scalar_digest [OF assms])

lemma wit_digest: "canonicalSha256 pl v = Inr h \<Longrightarrow> Sha256HexSchema h"
  by (auto simp: canonicalSha256_def bindr_eq_Inr_iff sha256Hex_schema)

lemma wit_selections:
  "\<exists>b. selectGovernanceRule pl wit_profile (lit ''ordinary'') None = Inr b \<and> sg_template b = wit_template"
  "\<exists>s. selectGovernanceRule pl wit_profile (lit ''ordinary'') (Some wit_override) = Inr s \<and>
     sg_template s = wit_strong"
proof -
  note p = profile_json_ok [OF wit_profile_parses]
  obtain h where h: "canonicalSha256 pl (profile_json wit_profile) = Inr h"
    using hash_defined [OF _ wit_json(1,2)] p by blast
  note hh = wit_digest [OF h]
  have f: "find (\<lambda>candidate. gt_code candidate = lit ''ordinary'') (gp_templates wit_profile) = Some wit_template"
    by (simp add: wit_profile_def wit_template_def)
  have o: "GovernanceRuleOverride_parse wit_override = Inr wit_override"
    using wit_fractions by (simp add: GovernanceRuleOverride_parse_def wit_override_def wit_trims wit_citation_valid
        del: lit_simps)
  have n: "notice_ok (gt_noticePeriodSeconds wit_template)" "notice_ok (gt_noticePeriodSeconds wit_strong)"
    by (simp_all add: wit_template_def notice_ok_def isSafeInteger_def MAX_SAFE_INTEGER_def)
  obtain k where k: "canonicalSha256 pl (selection_json h wit_template None) = Inr k"
    using hash_defined [OF _ wit_json(3) wit_selection_strings(1) [OF hh]] selection_json_ok [OF n(1), of None] by auto
  obtain l where l: "canonicalSha256 pl (selection_json h wit_strong (Some wit_override)) = Inr l"
    using hash_defined [OF _ wit_json(4) wit_selection_strings(2) [OF hh]]
      selection_json_ok [OF n(2), of "Some wit_override"] override_json_ok [OF o] by blast
  have u: "GovernanceRuleTemplate_parse wit_strong = Inr wit_strong"
    using wit_template_parses wit_fractions(2)
    by (auto simp: GovernanceRuleTemplate_parse_def Let_def wit_template_def split: if_splits)
  show "\<exists>b. selectGovernanceRule pl wit_profile (lit ''ordinary'') None = Inr b \<and> sg_template b = wit_template"
    by (simp add: selectGovernanceRule_def wit_profile_parses f governanceProfileSha256_def h k del: lit_simps)
  have "fractionAtLeast \<lparr>gf_numerator = lit ''3'', gf_denominator = lit ''5''\<rparr> (gt_approval wit_template)"
    unfolding wit_template_def by code_simp
  then show "\<exists>s. selectGovernanceRule pl wit_profile (lit ''ordinary'') (Some wit_override) = Inr s \<and> sg_template s = wit_strong"
    using l u
    by (simp add: selectGovernanceRule_def wit_profile_parses f governanceProfileSha256_def h o del: lit_simps)
      (simp add: wit_override_def wit_template_def or_else_def del: lit_simps)
qed

section \<open>Properties\<close>

text \<open>Property C32: an override only strengthens. When a rule is selected with an override, its template
  permits strengthening, its approval and quorum fractions and its notice period are at least
  the template's and nothing else differs; so every electorate and ballot set that approves a
  vote under the override approves it under the profile's own rule.\<close>

theorem override_only_strengthens:
  assumes "selectGovernanceRule pl p code (Some y) = Inr s" and "selectGovernanceRule pl p code None = Inr b"
    and "tallyVote E B (approval_rule_of (sg_template s)) = Inr t" and "vt_outcome t = approved"
  shows "gt_overridePolicy (sg_template b) = to_strengthen_only \<and>
    strengthens (sg_template s) (sg_template b) \<and>
    (\<exists>t'. tallyVote E B (approval_rule_of (sg_template b)) = Inr t' \<and> vt_outcome t' = approved)"
proof -
  have E: "electorate_ok E" and B: "ballots_ok E B" and t: "t = tally_spec E B (approval_rule_of (sg_template s))"
    using assms(3) by (simp_all add: tallyVote_Inr_iff)
  note st = select_strengthens [OF assms(1,2)]
  from approved_weaken [OF _ select_template_parsed [OF assms(1)] E B] st assms(4)
  have "vt_outcome (tally_spec E B (approval_rule_of (sg_template b))) = approved" by (simp add: t)
  with st tallyVote_ok [OF E B] show ?thesis by blast
qed

theorem override_only_strengthens_witness:
  "\<exists>t'. tallyVote wit_electorate wit_ballots (approval_rule_of wit_template) = Inr t' \<and> vt_outcome t' = approved"
proof -
  obtain b s where b: "selectGovernanceRule plain_platform wit_profile (lit ''ordinary'') None = Inr b"
      "sg_template b = wit_template"
    and s: "selectGovernanceRule plain_platform wit_profile (lit ''ordinary'') (Some wit_override) = Inr s"
      "sg_template s = wit_strong"
    using wit_selections by blast
  have t: "tallyVote wit_electorate wit_ballots (approval_rule_of wit_strong) = Inr wit_tally"
    unfolding approval_rule_of_def wit_template_def by code_simp
  show ?thesis
    using override_only_strengthens [OF s(1) b(1), of wit_electorate wit_ballots wit_tally] t s(2) b(2)
    by (simp add: wit_tally_def)
qed

text \<open>The selection digest binds profile, rule and override. Two selections with the same
  digest are equal and were made under the same parsed profile, or their records or those of
  their profiles are a SHA-256 collision.\<close>

theorem selection_hash_binds:
  assumes "selectGovernanceRule pl p code x = Inr s" and "selectGovernanceRule pl p' code' x' = Inr s'"
    and "sg_selectionSha256 s = sg_selectionSha256 s'"
  shows "s = s' \<and> GovernanceProfile_parse p = GovernanceProfile_parse p' \<or>
    sha256_collision (canonical_bytes (selection_json (sg_profileSha256 s) (sg_template s) (sg_override s)))
      (canonical_bytes (selection_json (sg_profileSha256 s') (sg_template s') (sg_override s'))) \<or>
    (\<exists>q q'. GovernanceProfile_parse p = Inr q \<and> GovernanceProfile_parse p' = Inr q' \<and>
      sha256_collision (canonical_bytes (profile_json q)) (canonical_bytes (profile_json q')))"
proof -
  let ?J = "\<lambda>s. selection_json (sg_profileSha256 s) (sg_template s) (sg_override s)"
  have ok: "js_json (?J s) \<and> index_free (?J s)" if "selectGovernanceRule pl p code x = Inr s" for p code x s
  proof (rule selection_json_ok)
    show "notice_ok (gt_noticePeriodSeconds (sg_template s))"
      using template_parse_notice [OF select_template_parsed [OF that]] .
    fix y assume y: "sg_override s = Some y"
    from that show "js_json (override_json y) \<and> index_free (override_json y)"
    proof (cases rule: select_cases)
      case (1 q t)
      with y show ?thesis by (cases x) (auto dest: override_json_ok)
    qed
  qed
  from assms(1) obtain q where q: "GovernanceProfile_parse p = Inr q"
      "canonicalSha256 pl (profile_json q) = Inr (sg_profileSha256 s)"
      "canonicalSha256 pl (?J s) = Inr (sg_selectionSha256 s)"
    by (cases rule: select_cases) blast
  from assms(2) obtain q' where q': "GovernanceProfile_parse p' = Inr q'"
      "canonicalSha256 pl (profile_json q') = Inr (sg_profileSha256 s')"
      "canonicalSha256 pl (?J s') = Inr (sg_selectionSha256 s')"
    by (cases rule: select_cases) blast
  have "jval_of (?J s) = jval_of (?J s') \<or> sha256_collision (canonical_bytes (?J s)) (canonical_bytes (?J s'))"
    using canonicalSha256_binding [OF _ _ _ _ q(3) q'(3) [folded assms(3)]] ok [OF assms(1)] ok [OF assms(2)]
    by blast
  then show ?thesis
  proof
    assume "jval_of (?J s) = jval_of (?J s')"
    then have e: "sg_profileSha256 s = sg_profileSha256 s'" "s = s'"
      using assms(3) by (simp_all add: selection_json_inj)
    from canonicalSha256_binding [OF _ _ _ _ q(2) q'(2) [folded e(1)]]
      profile_json_ok [OF q(1)] profile_json_ok [OF q'(1)]
    have "q = q' \<or> sha256_collision (canonical_bytes (profile_json q)) (canonical_bytes (profile_json q'))"
      by (auto simp: profile_json_inj)
    with e q(1) q'(1) show ?thesis by auto
  qed blast
qed

text \<open>The same profile with blanks around a label is parsed to the same profile.\<close>

definition wit_profile' :: GovernanceProfile where
  "wit_profile' = wit_profile\<lparr>gp_templates := [wit_template\<lparr>gt_label := lit '' Ordinary ''\<rparr>]\<rparr>"

lemma wit_profile'_parses: "GovernanceProfile_parse wit_profile' = Inr wit_profile"
proof -
  have "js_trim (lit '' Ordinary '') = lit ''Ordinary''" by code_simp
  then have "GovernanceRuleTemplate_parse (wit_template\<lparr>gt_label := lit '' Ordinary ''\<rparr>) =
      GovernanceRuleTemplate_parse wit_template"
    by (simp add: GovernanceRuleTemplate_parse_def wit_template_def wit_trims del: lit_simps)
  then show ?thesis
    using wit_profile_parses
    by (simp add: GovernanceProfile_parse_def wit_profile'_def wit_profile_def wit_template_parses)
qed

theorem selection_hash_binds_witness:
  "\<exists>s s'. selectGovernanceRule plain_platform wit_profile (lit ''ordinary'') None = Inr s \<and>
     selectGovernanceRule plain_platform wit_profile' (lit ''ordinary'') None = Inr s' \<and>
     (s = s' \<and> GovernanceProfile_parse wit_profile = GovernanceProfile_parse wit_profile' \<or>
      sha256_collision (canonical_bytes (selection_json (sg_profileSha256 s) (sg_template s) (sg_override s)))
        (canonical_bytes (selection_json (sg_profileSha256 s') (sg_template s') (sg_override s'))) \<or>
      sha256_collision (canonical_bytes (profile_json wit_profile)) (canonical_bytes (profile_json wit_profile)))"
proof -
  obtain s where s: "selectGovernanceRule plain_platform wit_profile (lit ''ordinary'') None = Inr s"
    using wit_selections by blast
  then have s': "selectGovernanceRule plain_platform wit_profile' (lit ''ordinary'') None = Inr s"
    by (simp add: selectGovernanceRule_def wit_profile_parses wit_profile'_parses)
  from selection_hash_binds [OF s s' refl] show ?thesis
    using s s' by (simp add: wit_profile_parses wit_profile'_parses)
qed

text \<open>Fractions have one notation. The loop computes the greatest common divisor, and two
  valid fractions of which each is at least the other are the same pair of numerals.\<close>

theorem governance_fractions_canonical:
  "greatestCommonDivisor (int m) (int n) = gcd (int m) (int n) \<and>
   (GovernanceFractionSchema f \<and> GovernanceFractionSchema g \<and> fractionAtLeast f g \<and> fractionAtLeast g f
     \<longleftrightarrow> GovernanceFractionSchema f \<and> f = g)"
proof
  show "greatestCommonDivisor (int m) (int n) = gcd (int m) (int n)"
    by (rule greatestCommonDivisor_gcd) simp_all
  have "f = g" if "GovernanceFractionSchema f" "GovernanceFractionSchema g" "fractionAtLeast f g" "fractionAtLeast g f"
  proof (rule fraction_unique [OF that(1,2)])
    have "int (dec_val (gf_numerator f) * dec_val (gf_denominator g)) =
        int (dec_val (gf_numerator g) * dec_val (gf_denominator f))"
      using that(3,4) by (simp add: fractionAtLeast_def)
    then show "dec_val (gf_numerator f) * dec_val (gf_denominator g) =
        dec_val (gf_numerator g) * dec_val (gf_denominator f)"
      by (simp only: of_nat_eq_iff)
  qed
  then show "GovernanceFractionSchema f \<and> GovernanceFractionSchema g \<and> fractionAtLeast f g \<and> fractionAtLeast g f
     \<longleftrightarrow> GovernanceFractionSchema f \<and> f = g"
    by (auto simp: fractionAtLeast_refl)
qed

text \<open>Property C33: the seats of a valid profile. Members are distinct, exactly the voting members have
  positive weight, at most one seat is the chair and the chair votes; templates have distinct
  identifiers and codes, and only version 1 supersedes nothing.\<close>

theorem valid_profile_seats:
  assumes "GovernanceProfile_parse p = Inr q"
  shows "distinct (map gs_memberId (gp_seats q)) \<and>
    (\<forall>s\<in>set (gp_seats q). (0 < dec_val (gs_weight s) \<longleftrightarrow> gs_role s = gs_voting_member) \<and>
       (gs_chair s \<longrightarrow> gs_role s = gs_voting_member)) \<and>
    length (filter gs_chair (gp_seats q)) \<le> 1 \<and>
    distinct (map gt_id (gp_templates q)) \<and> distinct (map gt_code (gp_templates q)) \<and>
    (gp_version q = 1 \<longleftrightarrow> gp_supersedesId q = None)"
proof -
  have ok: "profile_ok q"
    using assms by (auto simp: GovernanceProfile_parse_def Let_def bindr_eq_Inr_iff split: if_splits)
  have d: "list_all is_digit (gs_weight s)" if "s \<in> set (gp_seats q)" for s
    using ok that UnsignedIntegerString_val by (auto simp: profile_ok_def list_all_iff GovernanceSeatSchema_def)
  have seats: "distinct (map gs_memberId ss) \<and> set ids \<inter> gs_memberId ` set ss = {} \<and>
      (\<forall>s\<in>set ss. (0 < dec_val (gs_weight s) \<longleftrightarrow> gs_role s = gs_voting_member) \<and>
         (gs_chair s \<longrightarrow> gs_role s = gs_voting_member)) \<and> n + length (filter gs_chair ss) \<le> 1"
    if "seats_ok ids n ss" "set ss \<subseteq> set (gp_seats q)" for ids n ss
    using that
  proof (induction ss arbitrary: ids n)
    case (Cons s ss)
    then have "parseBigInt (gs_weight s) = Some (int (dec_val (gs_weight s)))"
      using d by (simp add: parseBigInt_def)
    with Cons.prems have s: "gs_memberId s \<notin> set ids" "0 < dec_val (gs_weight s) \<longleftrightarrow> gs_role s = gs_voting_member"
        "gs_chair s \<longrightarrow> gs_role s = gs_voting_member"
        "seats_ok (set_add ids (gs_memberId s)) (if gs_chair s then Suc n else n) ss"
      by (auto simp: Let_def)
    from Cons.IH [OF s(4)] Cons.prems(2) s(1,2,3) show ?case by (auto split: if_splits)
  qed auto
  show ?thesis
    using ok seats [of "[]" 0 "gp_seats q"] by (simp add: profile_ok_def templates_ok_iff)
qed

theorem valid_profile_seats_witness: "length (filter gs_chair (gp_seats wit_profile)) \<le> 1"
  using valid_profile_seats [OF wit_profile_parses] by blast

end
