(* ===== verification/Key_Lifecycle.thy ===== *)
theory Key_Lifecycle
  imports Governance_Profile
begin

text \<open>
  The evidence of a signing or encryption key operation,
  \<^verbatim>\<open>lib/audit/src/key-lifecycle-event.ts\<close>: the states of the key before and after, a
  replacement, and the effects on sessions and secrets. The evidence travels as the JSON
  details of an audit event and is decoded here into records; an enumeration is a datatype.
  The locale-dependent string order is the argument \<open>lc\<close>.
\<close>

section \<open>Strict objects\<close>

text \<open>An object with exactly the given names: its values in the order of the names.\<close>

definition strict_object :: "string list \<Rightarrow> json \<Rightarrow> json list option" where
  "strict_object names v =
     (case v of
        JObj es \<Rightarrow>
          if set (map fst es) = set (map lit names)
          then Some (map (\<lambda>k. case map_of es (lit k) of Some x \<Rightarrow> x | None \<Rightarrow> JNull) names) else None
      | _ \<Rightarrow> None)"

fun as_str :: "json \<Rightarrow> jstring option" where
  "as_str (JStr s) = Some s"
| "as_str _ = None"

fun as_nullable :: "(json \<Rightarrow> 'a option) \<Rightarrow> json \<Rightarrow> 'a option option" where
  "as_nullable f JNull = Some None"
| "as_nullable f v = map_option Some (f v)"

fun as_enum :: "(string \<times> 'a) list \<Rightarrow> json \<Rightarrow> 'a option" where
  "as_enum [] v = None"
| "as_enum ((k, x) # ks) v = (if v = jstr k then Some x else as_enum ks v)"

section \<open>Field schemas\<close>

datatype KeyLifecyclePurpose = oauth_signing | evidence_signing | browser_session | data_kek | backup_kek

definition KeyLifecyclePurposeSchema :: "json \<Rightarrow> KeyLifecyclePurpose option" where
  "KeyLifecyclePurposeSchema = as_enum
     [(''oauth_signing'', oauth_signing), (''evidence_signing'', evidence_signing),
      (''browser_session'', browser_session), (''data_kek'', data_kek), (''backup_kek'', backup_kek)]"

datatype KeyLifecycleOperation = replace_key | retire_key | mark_compromised

definition KeyLifecycleOperationSchema :: "json \<Rightarrow> KeyLifecycleOperation option" where
  "KeyLifecycleOperationSchema = as_enum
     [(''replace'', replace_key), (''retire'', retire_key), (''mark_compromised'', mark_compromised)]"

datatype KeyAlgorithm = ES256 | EdDSA | HMAC_SHA256 | A256GCM

definition KeyAlgorithmSchema :: "json \<Rightarrow> KeyAlgorithm option" where
  "KeyAlgorithmSchema = as_enum
     [(''ES256'', ES256), (''EdDSA'', EdDSA), (''HMAC-SHA256'', HMAC_SHA256), (''A256GCM'', A256GCM)]"

text \<open>A calendar instant with exactly six fraction digits, in UTC.\<close>

definition KeyTime :: "jstring \<Rightarrow> bool" where
  "KeyTime s \<longleftrightarrow>
     matches (rfc3339_prefix @ [is_char CHR ''.''] @ replicate 6 is_digit @ [is_char CHR ''Z'']) s \<and>
     (case date_fields s of (y, mo, d, h, mi, sec) \<Rightarrow> calendar_ok y mo d h mi sec)"

definition kid_char :: "16 word \<Rightarrow> bool" where
  "kid_char c \<longleftrightarrow> is_alnum c \<or> is_char CHR ''.'' c \<or> is_char CHR ''_'' c \<or> is_char CHR ''-'' c"

definition Kid :: "jstring \<Rightarrow> bool" where
  "Kid s \<longleftrightarrow> 1 \<le> length s \<and> length s \<le> 128 \<and> list_all kid_char s"

definition KeyCount :: "jstring \<Rightarrow> bool" where
  "KeyCount s \<longleftrightarrow> UnsignedIntegerStringSchema s \<and> length s \<le> 7 \<and> dec_val s \<le> 1000000"

definition operator_text :: "nfc \<Rightarrow> nat \<Rightarrow> jstring \<Rightarrow> bool" where
  "operator_text nfc m v \<longleftrightarrow>
     1 \<le> length v \<and> length v \<le> m \<and> isWellFormed v \<and> v = nfc v \<and> js_trim v = v \<and>
     list_all (\<lambda>point. 32 \<le> point \<and> (point < 127 \<or> 159 < point)) (code_points v)"

section \<open>Key states\<close>

record KeyLifecycleState =
  ks_keyId :: jstring
  ks_kid :: jstring
  ks_algorithm :: KeyAlgorithm
  ks_publicMaterialSha256 :: "jstring option"
  ks_activatedAt :: jstring
  ks_retiredAt :: "jstring option"
  ks_compromisedAt :: "jstring option"

definition key_state_of :: "json \<Rightarrow> KeyLifecycleState option" where
  "key_state_of v =
     (case strict_object [''keyId'', ''kid'', ''algorithm'', ''publicMaterialSha256'', ''activatedAt'',
        ''retiredAt'', ''compromisedAt''] v of
        Some [a, b, c, d, e, f, g] \<Rightarrow>
          Option.bind (as_str a) (\<lambda>keyId. Option.bind (as_str b) (\<lambda>kid.
          Option.bind (KeyAlgorithmSchema c) (\<lambda>algorithm.
          Option.bind (as_nullable as_str d) (\<lambda>publicMaterialSha256.
          Option.bind (as_str e) (\<lambda>activatedAt. Option.bind (as_nullable as_str f) (\<lambda>retiredAt.
          Option.bind (as_nullable as_str g) (\<lambda>compromisedAt.
          Some \<lparr>ks_keyId = keyId, ks_kid = kid, ks_algorithm = algorithm,
            ks_publicMaterialSha256 = publicMaterialSha256, ks_activatedAt = activatedAt,
            ks_retiredAt = retiredAt, ks_compromisedAt = compromisedAt\<rparr>)))))))
      | _ \<Rightarrow> None)"

definition before_time :: "(jstring \<Rightarrow> jstring \<Rightarrow> int) \<Rightarrow> jstring option \<Rightarrow> jstring \<Rightarrow> bool" where
  "before_time lc t u = (case t of None \<Rightarrow> False | Some s \<Rightarrow> lc s u < 0)"

definition after_time :: "(jstring \<Rightarrow> jstring \<Rightarrow> int) \<Rightarrow> jstring option \<Rightarrow> jstring \<Rightarrow> bool" where
  "after_time lc t u = (case t of None \<Rightarrow> False | Some s \<Rightarrow> 0 < lc s u)"

definition KeyLifecycleStateSchema :: "(jstring \<Rightarrow> jstring \<Rightarrow> int) \<Rightarrow> KeyLifecycleState \<Rightarrow> bool" where
  "KeyLifecycleStateSchema lc s \<longleftrightarrow>
     UuidV7Schema (ks_keyId s) \<and> Kid (ks_kid s) \<and> pred_option Sha256HexSchema (ks_publicMaterialSha256 s) \<and>
     KeyTime (ks_activatedAt s) \<and> pred_option KeyTime (ks_retiredAt s) \<and> pred_option KeyTime (ks_compromisedAt s) \<and>
     \<not> (before_time lc (ks_retiredAt s) (ks_activatedAt s) \<or> before_time lc (ks_compromisedAt s) (ks_activatedAt s))"

fun algorithm_name :: "KeyAlgorithm \<Rightarrow> jstring" where
  "algorithm_name ES256 = lit ''ES256''"
| "algorithm_name EdDSA = lit ''EdDSA''"
| "algorithm_name HMAC_SHA256 = lit ''HMAC-SHA256''"
| "algorithm_name A256GCM = lit ''A256GCM''"

definition key_state_json :: "KeyLifecycleState \<Rightarrow> json" where
  "key_state_json s = JObj
     [(lit ''keyId'', JStr (ks_keyId s)), (lit ''kid'', JStr (ks_kid s)),
      (lit ''algorithm'', JStr (algorithm_name (ks_algorithm s))),
      (lit ''publicMaterialSha256'', nullable JStr (ks_publicMaterialSha256 s)),
      (lit ''activatedAt'', JStr (ks_activatedAt s)), (lit ''retiredAt'', nullable JStr (ks_retiredAt s)),
      (lit ''compromisedAt'', nullable JStr (ks_compromisedAt s))]"

section \<open>Key operations\<close>

record KeyLifecycleEffects =
  ke_revokedSessions :: jstring
  ke_revokedRefreshFamilies :: jstring
  ke_cancelledStages :: jstring
  ke_affectedTotp :: jstring
  ke_disabledWebhooks :: jstring
  ke_rewrappedWebhooks :: jstring

definition effects_of :: "json \<Rightarrow> KeyLifecycleEffects option" where
  "effects_of v =
     (case strict_object [''revokedSessions'', ''revokedRefreshFamilies'', ''cancelledStages'',
        ''affectedTotp'', ''disabledWebhooks'', ''rewrappedWebhooks''] v of
        Some [JStr a, JStr b, JStr c, JStr d, JStr e, JStr f] \<Rightarrow>
          Some \<lparr>ke_revokedSessions = a, ke_revokedRefreshFamilies = b, ke_cancelledStages = c,
            ke_affectedTotp = d, ke_disabledWebhooks = e, ke_rewrappedWebhooks = f\<rparr>
      | _ \<Rightarrow> None)"

record KeyLifecycleChanged =
  kc_operationId :: jstring
  kc_requestSha256 :: jstring
  kc_instanceId :: jstring
  kc_organizationId :: jstring
  kc_purpose :: KeyLifecyclePurpose
  kc_operation :: KeyLifecycleOperation
  kc_before :: KeyLifecycleState
  kc_after :: KeyLifecycleState
  kc_replacement :: "KeyLifecycleState option"
  kc_recordedAt :: jstring
  kc_declaredCompromisedAt :: "jstring option"
  kc_dependencyStateSha256 :: jstring
  kc_retainedMaterialSha256 :: jstring
  kc_operatorReference :: jstring
  kc_reason :: jstring
  kc_effects :: KeyLifecycleEffects

definition key_change_of :: "json \<Rightarrow> KeyLifecycleChanged option" where
  "key_change_of v =
     (case strict_object [''schemaVersion'', ''operationId'', ''requestSha256'', ''instanceId'',
        ''organizationId'', ''purpose'', ''operation'', ''before'', ''after'', ''replacement'', ''recordedAt'',
        ''declaredCompromisedAt'', ''dependencyStateSha256'', ''retainedMaterialSha256'',
        ''operatorReference'', ''reason'', ''effects''] v of
        Some [ver, JStr operationId, JStr requestSha256, JStr instanceId, JStr organizationId, p, q, b, a, r,
              JStr recordedAt, d, JStr dependencyStateSha256, JStr retainedMaterialSha256,
              JStr operatorReference, JStr reason, e] \<Rightarrow>
          if ver \<noteq> jstr ''boardagent.key-lifecycle-changed.v1'' then None
          else
          Option.bind (KeyLifecyclePurposeSchema p) (\<lambda>purpose.
          Option.bind (KeyLifecycleOperationSchema q) (\<lambda>operation.
          Option.bind (key_state_of b) (\<lambda>prior. Option.bind (key_state_of a) (\<lambda>posterior.
          Option.bind (as_nullable key_state_of r) (\<lambda>replacement.
          Option.bind (as_nullable as_str d) (\<lambda>declaredCompromisedAt.
          Option.bind (effects_of e) (\<lambda>effects.
          Some \<lparr>kc_operationId = operationId, kc_requestSha256 = requestSha256, kc_instanceId = instanceId,
            kc_organizationId = organizationId, kc_purpose = purpose, kc_operation = operation,
            kc_before = prior, kc_after = posterior, kc_replacement = replacement, kc_recordedAt = recordedAt,
            kc_declaredCompromisedAt = declaredCompromisedAt, kc_dependencyStateSha256 = dependencyStateSha256,
            kc_retainedMaterialSha256 = retainedMaterialSha256, kc_operatorReference = operatorReference,
            kc_reason = reason, kc_effects = effects\<rparr>)))))))
      | _ \<Rightarrow> None)"

fun purpose_algorithm :: "KeyLifecyclePurpose \<Rightarrow> KeyAlgorithm" where
  "purpose_algorithm oauth_signing = ES256"
| "purpose_algorithm evidence_signing = EdDSA"
| "purpose_algorithm browser_session = HMAC_SHA256"
| "purpose_algorithm data_kek = A256GCM"
| "purpose_algorithm backup_kek = A256GCM"

definition public_material :: "KeyLifecyclePurpose \<Rightarrow> bool" where
  "public_material p \<longleftrightarrow> p = oauth_signing \<or> p = evidence_signing"

definition key_fields_ok :: "nfc \<Rightarrow> (jstring \<Rightarrow> jstring \<Rightarrow> int) \<Rightarrow> KeyLifecycleChanged \<Rightarrow> bool" where
  "key_fields_ok nfc lc ev \<longleftrightarrow>
     UuidV7Schema (kc_operationId ev) \<and> Sha256HexSchema (kc_requestSha256 ev) \<and>
     UuidV7Schema (kc_instanceId ev) \<and> UuidV7Schema (kc_organizationId ev) \<and>
     KeyLifecycleStateSchema lc (kc_before ev) \<and> KeyLifecycleStateSchema lc (kc_after ev) \<and>
     pred_option (KeyLifecycleStateSchema lc) (kc_replacement ev) \<and>
     KeyTime (kc_recordedAt ev) \<and> pred_option KeyTime (kc_declaredCompromisedAt ev) \<and>
     Sha256HexSchema (kc_dependencyStateSha256 ev) \<and> Sha256HexSchema (kc_retainedMaterialSha256 ev) \<and>
     operator_text nfc 512 (kc_operatorReference ev) \<and> operator_text nfc 4096 (kc_reason ev) \<and>
     list_all KeyCount [ke_revokedSessions (kc_effects ev), ke_revokedRefreshFamilies (kc_effects ev),
       ke_cancelledStages (kc_effects ev), ke_affectedTotp (kc_effects ev),
       ke_disabledWebhooks (kc_effects ev), ke_rewrappedWebhooks (kc_effects ev)]"

text \<open>The state the operation must lead to, and the conditions on the operation itself.\<close>

definition expected_state :: "KeyLifecycleChanged \<Rightarrow> KeyLifecycleState" where
  "expected_state ev =
     (if kc_operation ev = replace_key \<or> kc_operation ev = retire_key
      then (kc_before ev)\<lparr>ks_retiredAt := Some (or_else (ks_retiredAt (kc_before ev)) (kc_recordedAt ev))\<rparr>
      else (kc_before ev)\<lparr>ks_compromisedAt := kc_declaredCompromisedAt ev\<rparr>)"

definition replacement_ok :: "KeyLifecycleChanged \<Rightarrow> bool" where
  "replacement_ok ev =
     (case kc_replacement ev of
        None \<Rightarrow> False
      | Some k \<Rightarrow>
          \<not> (ks_keyId k = ks_keyId (kc_before ev) \<or> ks_kid k = ks_kid (kc_before ev) \<or>
             ks_activatedAt k \<noteq> kc_recordedAt ev \<or> ks_retiredAt k \<noteq> None \<or> ks_compromisedAt k \<noteq> None \<or>
             (public_material (kc_purpose ev) \<and>
              ks_publicMaterialSha256 k = ks_publicMaterialSha256 (kc_before ev))))"

definition operation_ok :: "(jstring \<Rightarrow> jstring \<Rightarrow> int) \<Rightarrow> KeyLifecycleChanged \<Rightarrow> bool" where
  "operation_ok lc ev =
     (if kc_operation ev = replace_key \<or> kc_operation ev = retire_key
      then \<not> ((kc_operation ev = retire_key \<and> ks_retiredAt (kc_before ev) \<noteq> None) \<or>
              kc_declaredCompromisedAt ev \<noteq> None) \<and>
           (if kc_operation ev = replace_key then replacement_ok ev else kc_replacement ev = None)
      else \<not> (kc_replacement ev \<noteq> None \<or> kc_declaredCompromisedAt ev = None \<or>
             (case (ks_compromisedAt (kc_before ev), kc_declaredCompromisedAt ev) of
                (Some t, Some u) \<Rightarrow> lc t u \<le> 0
              | _ \<Rightarrow> False)))"

definition same_canonical :: "platform \<Rightarrow> json \<Rightarrow> json \<Rightarrow> bool" where
  "same_canonical pl v w =
     (case (canonicalJson pl v, canonicalJson pl w) of (Inr s, Inr t) \<Rightarrow> s = t | _ \<Rightarrow> False)"

definition KeyLifecycleChangedSchema ::
    "platform \<Rightarrow> (jstring \<Rightarrow> jstring \<Rightarrow> int) \<Rightarrow> KeyLifecycleChanged \<Rightarrow> bool" where
  "KeyLifecycleChangedSchema pl lc ev \<longleftrightarrow>
     key_fields_ok (normalizeNFC pl) lc ev \<and>
     list_all (\<lambda>s. \<not> (ks_algorithm s \<noteq> purpose_algorithm (kc_purpose ev) \<or>
         public_material (kc_purpose ev) \<noteq> (ks_publicMaterialSha256 s \<noteq> None) \<or>
         after_time lc (ks_retiredAt s) (kc_recordedAt ev) \<or> after_time lc (ks_compromisedAt s) (kc_recordedAt ev)))
       ([kc_before ev, kc_after ev] @ (case kc_replacement ev of None \<Rightarrow> [] | Some k \<Rightarrow> [k])) \<and>
     operation_ok lc ev \<and>
     same_canonical pl (key_state_json (kc_after ev)) (key_state_json (expected_state ev)) \<and>
     \<not> (kc_purpose ev \<noteq> data_kek \<and>
        (ke_affectedTotp (kc_effects ev) \<noteq> lit ''0'' \<or> ke_disabledWebhooks (kc_effects ev) \<noteq> lit ''0'' \<or>
         ke_rewrappedWebhooks (kc_effects ev) \<noteq> lit ''0'')) \<and>
     \<not> (kc_operation ev \<noteq> replace_key \<and> ke_rewrappedWebhooks (kc_effects ev) \<noteq> lit ''0'')"

text \<open>The identity of public key material.\<close>

datatype PublicMaterial = EC_P256 jstring jstring | OKP_Ed25519 jstring

fun public_material_json :: "PublicMaterial \<Rightarrow> json" where
  "public_material_json (EC_P256 x y) = JObj
     [(lit ''kty'', jstr ''EC''), (lit ''crv'', jstr ''P-256''), (lit ''x'', JStr x), (lit ''y'', JStr y)]"
| "public_material_json (OKP_Ed25519 x) = JObj
     [(lit ''kty'', jstr ''OKP''), (lit ''crv'', jstr ''Ed25519''), (lit ''x'', JStr x)]"

definition keyLifecyclePublicMaterialSha256 :: "platform \<Rightarrow> PublicMaterial \<Rightarrow> jstring result" where
  "keyLifecyclePublicMaterialSha256 pl key = canonicalSha256 pl (public_material_json key)"

section \<open>Facts\<close>

lemma algorithm_name_inj: "algorithm_name a = algorithm_name b \<longleftrightarrow> a = b"
  by (cases a; cases b) auto

lemma key_state_json_inj: "jval_of (key_state_json s) = jval_of (key_state_json t) \<longleftrightarrow> s = t"
  unfolding key_state_json_def
  by (subst jval_obj_eq) (auto simp: algorithm_name_inj nullable_jval_inj)

lemma key_state_json_ok: "js_json (key_state_json s)" "index_free (key_state_json s)"
  by (simp_all add: key_state_json_def)

lemma same_canonical_states:
  assumes "same_canonical pl (key_state_json s) (key_state_json t)"
  shows "s = t"
proof -
  obtain u where "canonicalJson pl (key_state_json s) = Inr u" "canonicalJson pl (key_state_json t) = Inr u"
    using assms by (auto simp: same_canonical_def split: sum.splits)
  from canonicalJson_eq_iff [OF key_state_json_ok(1) key_state_json_ok(1) key_state_json_ok(2)
      key_state_json_ok(2) this]
  show ?thesis by (simp add: key_state_json_inj)
qed

interpretation key_material: binding_hash keyLifecyclePublicMaterialSha256 public_material_json
proof
  fix pl x y h
  show "keyLifecyclePublicMaterialSha256 pl x = Inr h \<Longrightarrow> canonicalSha256 pl (public_material_json x) = Inr h"
    by (simp add: keyLifecyclePublicMaterialSha256_def)
  show "js_json (public_material_json x) \<and> index_free (public_material_json x)"
    by (cases x) simp_all
  assume j: "jval_of (public_material_json x) = jval_of (public_material_json y)"
  have k: "jfield (lit ''kty'') (public_material_json x) = Some a \<Longrightarrow>
      \<exists>b. jfield (lit ''kty'') (public_material_json y) = Some b \<and> jval_of a = jval_of b" for a
    using jfield_jval [OF _ j] .
  show "x = y"
  proof (cases x)
    case (EC_P256 a b)
    with k obtain c d where y: "y = EC_P256 c d" by (cases y) auto
    with EC_P256 j show ?thesis unfolding EC_P256 y public_material_json.simps
      by (subst (asm) jval_obj_eq) auto
  next
    case (OKP_Ed25519 a)
    with k obtain c where y: "y = OKP_Ed25519 c" by (cases y) auto
    with OKP_Ed25519 j show ?thesis unfolding OKP_Ed25519 y public_material_json.simps
      by (subst (asm) jval_obj_eq) auto
  qed
qed

end
