(* ===== verification/Audit_Event.thy ===== *)
theory Audit_Event
  imports Key_Lifecycle
begin

text \<open>
  The audit log of \<^verbatim>\<open>lib/audit/src/event.ts\<close>: every event carries its sequence number, the
  hash of its predecessor and the hash of its own canonical record, and a verifier replays the
  chain. The incremental verifier is a record of its private fields. Of its two entry points the
  one that decodes persisted bytes with the language's JSON parser is not modelled. An event
  extends its body, as the interfaces of the source do; the constant \<open>schemaVersion\<close> is no field.
\<close>

section \<open>Event identifiers\<close>

text \<open>The registry's event names, \<^verbatim>\<open>lib/contracts/src/generated/registry.ids.ts\<close>.\<close>

definition EVENT_IDS :: "string list" where
  "EVENT_IDS =
     [''context_read'', ''client_registered'', ''client_registration_rejected'',
      ''oauth_client_blocked'', ''oauth_client_unblocked'', ''token_issued'', ''token_refreshed'',
      ''token_reuse_detected'', ''session_revoked'', ''enrollment_issued'', ''enrollment_redeemed'',
      ''enrollment_revoked'', ''member_activated'', ''identity_recovery_started'',
      ''external_identity_linked'', ''external_identity_unlinked'', ''member_changed'',
      ''onboarding_stage_created'', ''onboarding_attested'', ''onboarding_stale'',
      ''authorization_denied'', ''rate_limited'', ''resource_fetch'', ''notice_delivered'',
      ''document_version_created'', ''document_circulated'', ''document_access_changed'',
      ''document_archived'', ''document_soft_deleted'', ''recusal_changed'',
      ''management_submission_created'', ''management_revision_requested'',
      ''management_revision_replied'', ''management_submission_version_created'',
      ''management_submission_approved_to_draft'', ''management_submission_rejected'',
      ''management_question_asked'', ''management_question_answered'',
      ''management_question_followed_up'', ''secretariat_request_created'',
      ''secretariat_request_replied'', ''secretariat_request_closed'', ''board_created'',
      ''board_amended'', ''board_archived'', ''governance_profile_activated'', ''matter_evaluated'',
      ''ruleset_amended'', ''rule_overridden'', ''stage_created'', ''stage_replaced'',
      ''elicitation_sent'', ''consent_recorded'', ''consent_rejected'', ''ballot_cast'',
      ''ballot_superseded'', ''proxy_granted'', ''proxy_revoked'', ''resolution_amended'',
      ''vote_opened'', ''vote_source_update_pending'', ''vote_source_excluded'', ''vote_closing'',
      ''vote_closed'', ''vote_cancelled'', ''vote_superseded'', ''vote_replaced'',
      ''revote_required'', ''certificate_issued'', ''certificate_corrected'', ''meeting_called'',
      ''meeting_amended'', ''meeting_rsvp_recorded'', ''meeting_attendance_recorded'',
      ''meeting_attendance_corrected'', ''meeting_completed'', ''meeting_cancelled'',
      ''transcript_version_created'', ''transcript_secretary_verified'', ''transcript_qna_linked'',
      ''transcript_turn_challenged'', ''transcript_challenge_resolved'', ''minutes_version_created'',
      ''minutes_published'', ''minutes_commented'', ''minutes_review_withdrawn'',
      ''minutes_redline_proposed'', ''minutes_review_dispositioned'', ''minutes_package_corrected'',
      ''minutes_correction_cycle_created'', ''minutes_action_items_declared'',
      ''minutes_action_item_draft_superseded'', ''minutes_action_items_activated'',
      ''minutes_signature_package_issued'', ''minutes_signed'', ''minutes_signature_superseded'',
      ''minutes_resign_required'', ''minutes_finalized'', ''minutes_cancelled'', ''task_created'',
      ''task_started'', ''task_evidence_submitted'', ''task_evidence_reviewed'', ''task_completed'',
      ''task_correction_cycle_created'', ''task_cancelled'', ''proposal_submitted'',
      ''proposal_withdrawn'', ''proposal_approved_to_draft'', ''proposal_rejected'',
      ''draft_cancelled'', ''draft_expired'', ''export_requested'', ''export_started'',
      ''export_performed'', ''export_failed'', ''export_cancelled'', ''export_artifact_deleted'',
      ''webhook_configured'', ''webhook_secret_rotated'', ''webhook_disabled'', ''webhook_tested'',
      ''webhook_delivery_attempted'', ''audit_checkpoint_signed'', ''audit_verification_failed'',
      ''migration_applied'', ''backup_completed'', ''restore_verified'', ''company_admin_proposed'',
      ''company_admin_proposal_cancelled'', ''company_admin_proposal_declined'',
      ''company_admin_granted'', ''company_admin_revoked'', ''company_admin_transferred'',
      ''member_admin_delegation_granted'', ''member_admin_delegation_revoked'',
      ''key_lifecycle_changed'', ''secretary_support_published'', ''onboarding_terms_published'',
      ''activation_restart_issued'', ''activation_restart_completed'']"

section \<open>Events\<close>

record AuditEventBody =
  ab_eventId :: jstring
  ab_eventType :: jstring
  ab_actorMemberId :: "jstring option"
  ab_actorClientId :: "jstring option"
  ab_tokenJti :: "jstring option"
  ab_entityType :: jstring
  ab_entityId :: jstring
  ab_boardId :: "jstring option"
  ab_occurredAt :: jstring
  ab_origin :: jstring
  ab_details :: "(jstring \<times> json) list"

record AuditEvent = AuditEventBody +
  ae_sequence :: int
  ae_previousHash :: jstring
  ae_eventHash :: jstring

definition AUDIT_DOMAIN :: string where
  "AUDIT_DOMAIN = ''boardagent.audit.event.v1''"

definition GENESIS_HASH :: jstring where
  "GENESIS_HASH = lit (replicate 64 (CHR ''0''))"

definition entity_type_ok :: "jstring \<Rightarrow> bool" where
  "entity_type_ok s =
     (case s of [] \<Rightarrow> False
      | c # cs \<Rightarrow> is_lower c \<and> 1 \<le> length cs \<and> length cs \<le> 63 \<and> list_all name_char cs)"

definition detail_key_ok :: "jstring \<Rightarrow> bool" where
  "detail_key_ok s =
     (case s of [] \<Rightarrow> False
      | c # cs \<Rightarrow> is_lower c \<and> length cs \<le> 127 \<and> list_all (\<lambda>c. is_alnum c \<or> is_char CHR ''_'' c) cs)"

definition origins :: "string list" where
  "origins = [''mcp'', ''oauth'', ''browser'', ''worker'', ''scheduler'', ''migration'', ''restore'', ''cli'']"

text \<open>The refinement for key operations: only the operator's command line reports one, about itself.\<close>

definition key_event_ok :: "platform \<Rightarrow> (jstring \<Rightarrow> jstring \<Rightarrow> int) \<Rightarrow> AuditEventBody \<Rightarrow> bool" where
  "key_event_ok pl lc b \<longleftrightarrow>
     (case key_change_of (JObj (ab_details b)) of
        None \<Rightarrow> False
      | Some ev \<Rightarrow>
          KeyLifecycleChangedSchema pl lc ev \<and> ab_origin b = lit ''cli'' \<and>
          ab_actorMemberId b = None \<and> ab_actorClientId b = None \<and> ab_tokenJti b = None \<and> ab_boardId b = None \<and>
          ab_entityType b = lit ''key_lifecycle_operation'' \<and> ab_entityId b = kc_operationId ev \<and>
          ab_occurredAt b = kc_recordedAt ev)"

definition AuditEventBodySchema :: "platform \<Rightarrow> (jstring \<Rightarrow> jstring \<Rightarrow> int) \<Rightarrow> AuditEventBody \<Rightarrow> bool" where
  "AuditEventBodySchema pl lc b \<longleftrightarrow>
     UuidV7Schema (ab_eventId b) \<and> ab_eventType b \<in> set (map lit EVENT_IDS) \<and>
     pred_option UuidV7Schema (ab_actorMemberId b) \<and> pred_option UuidV7Schema (ab_actorClientId b) \<and>
     pred_option UuidV7Schema (ab_tokenJti b) \<and> entity_type_ok (ab_entityType b) \<and>
     1 \<le> length (ab_entityId b) \<and> length (ab_entityId b) \<le> 2048 \<and>
     pred_option UuidV7Schema (ab_boardId b) \<and> Rfc3339UtcSchema (ab_occurredAt b) \<and>
     ab_origin b \<in> set (map lit origins) \<and>
     list_all (\<lambda>(k, v). detail_key_ok k) (ab_details b) \<and>
     (ab_eventType b \<noteq> lit ''key_lifecycle_changed'' \<or> key_event_ok pl lc b)"

definition body_fields :: "AuditEventBody \<Rightarrow> (jstring \<times> json) list" where
  "body_fields b =
     [(lit ''eventId'', JStr (ab_eventId b)), (lit ''eventType'', JStr (ab_eventType b)),
      (lit ''actorMemberId'', nullable JStr (ab_actorMemberId b)),
      (lit ''actorClientId'', nullable JStr (ab_actorClientId b)),
      (lit ''tokenJti'', nullable JStr (ab_tokenJti b)), (lit ''entityType'', JStr (ab_entityType b)),
      (lit ''entityId'', JStr (ab_entityId b)), (lit ''boardId'', nullable JStr (ab_boardId b)),
      (lit ''occurredAt'', JStr (ab_occurredAt b)), (lit ''origin'', JStr (ab_origin b)),
      (lit ''details'', JObj (ab_details b)), (lit ''schemaVersion'', JNum 1)]"

definition hash_material :: "int \<Rightarrow> jstring \<Rightarrow> AuditEventBody \<Rightarrow> json" where
  "hash_material sequence previousHash b = JObj
     ([(lit ''domain'', jstr AUDIT_DOMAIN), (lit ''sequence'', JStr (dec_int sequence)),
       (lit ''previousHash'', JStr previousHash)] @ body_fields b)"

definition hashValidatedEvent :: "platform \<Rightarrow> int \<Rightarrow> jstring \<Rightarrow> AuditEventBody \<Rightarrow> jstring result" where
  "hashValidatedEvent pl sequence previousHash validated =
     bindr (canonicalJson pl (hash_material sequence previousHash validated)) (\<lambda>s. Inr (sha256Hex (Text s)))"

definition eventHash ::
    "platform \<Rightarrow> (jstring \<Rightarrow> jstring \<Rightarrow> int) \<Rightarrow> int \<Rightarrow> jstring \<Rightarrow> AuditEventBody \<Rightarrow> jstring result" where
  "eventHash pl lc sequence previousHash body =
     (if sequence < 1 then throw (RangeError ''audit sequence must be positive'')
      else bindr (parse_sha previousHash) (\<lambda>_.
        bindr (zparse (AuditEventBodySchema pl lc) body) (\<lambda>validated.
        hashValidatedEvent pl sequence previousHash validated)))"

definition appendEvent ::
    "platform \<Rightarrow> (jstring \<Rightarrow> jstring \<Rightarrow> int) \<Rightarrow> AuditEvent option \<Rightarrow> AuditEventBody \<Rightarrow> AuditEvent result" where
  "appendEvent pl lc previous body =
     bindr (zparse (AuditEventBodySchema pl lc) body) (\<lambda>validated.
     let sequence = (case previous of Some e \<Rightarrow> ae_sequence e + 1 | None \<Rightarrow> 1);
         previousHash = (case previous of Some e \<Rightarrow> ae_eventHash e | None \<Rightarrow> GENESIS_HASH) in
     bindr (eventHash pl lc sequence previousHash validated) (\<lambda>h.
     Inr (AuditEventBody.extend validated
       \<lparr>ae_sequence = sequence, ae_previousHash = previousHash, ae_eventHash = h\<rparr>)))"

section \<open>Verification of a chain\<close>

datatype ChainVerification =
    ValidChain (cv_count: int) (cv_headHash: jstring)
  | BrokenChain (cv_firstBreakSequence: int) (cv_reason: string)

text \<open>The verifier object: its private fields; \<open>failure\<close> is the first break, once found.\<close>

record AuditChainVerifier =
  av_previousHash :: jstring
  av_expectedSequence :: int
  av_failure :: "ChainVerification option"

definition new_verifier :: AuditChainVerifier where
  "new_verifier = \<lparr>av_previousHash = GENESIS_HASH, av_expectedSequence = 1, av_failure = None\<rparr>"

definition fail :: "AuditChainVerifier \<Rightarrow> int \<Rightarrow> string \<Rightarrow> ChainVerification option \<times> AuditChainVerifier" where
  "fail this n reason = (let f = BrokenChain n reason in (Some f, this\<lparr>av_failure := Some f\<rparr>))"

definition addWithHash ::
    "AuditChainVerifier \<Rightarrow> AuditEvent \<Rightarrow> jstring result \<Rightarrow> ChainVerification option \<times> AuditChainVerifier" where
  "addWithHash this event recompute =
     (case av_failure this of
        Some f \<Rightarrow> (Some f, this)
      | None \<Rightarrow>
          if ae_sequence event \<noteq> av_expectedSequence this
            then fail this (av_expectedSequence this) ''sequence_gap_or_reorder''
          else if \<not> safeHashEqual (ae_previousHash event) (av_previousHash this)
            then fail this (ae_sequence event) ''previous_hash_mismatch''
          else (case recompute of
              Inl _ \<Rightarrow> fail this (ae_sequence event) ''event_schema_invalid''
            | Inr recomputed \<Rightarrow>
                if \<not> safeHashEqual (ae_eventHash event) recomputed
                  then fail this (ae_sequence event) ''event_hash_mismatch''
                else (None, this\<lparr>av_previousHash := ae_eventHash event,
                  av_expectedSequence := av_expectedSequence this + 1\<rparr>)))"

definition verifier_add ::
    "platform \<Rightarrow> (jstring \<Rightarrow> jstring \<Rightarrow> int) \<Rightarrow> AuditChainVerifier \<Rightarrow> AuditEvent \<Rightarrow>
     ChainVerification option \<times> AuditChainVerifier" where
  "verifier_add pl lc this event =
     addWithHash this event
       (eventHash pl lc (ae_sequence event) (ae_previousHash event) (AuditEventBody.truncate event))"

definition verifier_finish :: "AuditChainVerifier \<Rightarrow> (int \<times> jstring) option \<Rightarrow> ChainVerification" where
  "verifier_finish this expected =
     (case av_failure this of
        Some f \<Rightarrow> f
      | None \<Rightarrow>
          let count = av_expectedSequence this - 1 in
          (case expected of
             Some (n, h) \<Rightarrow>
               if n \<noteq> count then BrokenChain (count + 1) ''truncation_or_extension''
               else if \<not> safeHashEqual h (av_previousHash this) then BrokenChain count ''head_hash_mismatch''
               else ValidChain count (av_previousHash this)
           | None \<Rightarrow> ValidChain count (av_previousHash this)))"

fun verify_from ::
    "platform \<Rightarrow> (jstring \<Rightarrow> jstring \<Rightarrow> int) \<Rightarrow> AuditChainVerifier \<Rightarrow> AuditEvent list \<Rightarrow>
     (int \<times> jstring) option \<Rightarrow> ChainVerification" where
  "verify_from pl lc verifier [] expected = verifier_finish verifier expected"
| "verify_from pl lc verifier (event # events) expected =
     (case verifier_add pl lc verifier event of
        (Some failure, _) \<Rightarrow> failure
      | (None, verifier') \<Rightarrow> verify_from pl lc verifier' events expected)"

definition verifyChain ::
    "platform \<Rightarrow> (jstring \<Rightarrow> jstring \<Rightarrow> int) \<Rightarrow> AuditEvent list \<Rightarrow> (int \<times> jstring) option \<Rightarrow> ChainVerification" where
  "verifyChain pl lc events expected = verify_from pl lc new_verifier events expected"

section \<open>What a valid chain is\<close>

text \<open>An event continues a chain with head \<open>prev\<close> and \<open>n - 1\<close> events.\<close>

definition links :: "platform \<Rightarrow> (jstring \<Rightarrow> jstring \<Rightarrow> int) \<Rightarrow> int \<Rightarrow> jstring \<Rightarrow> AuditEvent \<Rightarrow> bool" where
  "links pl lc n prev e \<longleftrightarrow>
     ae_sequence e = n \<and> ae_previousHash e = prev \<and>
     eventHash pl lc n prev (AuditEventBody.truncate e) = Inr (ae_eventHash e)"

fun chain :: "platform \<Rightarrow> (jstring \<Rightarrow> jstring \<Rightarrow> int) \<Rightarrow> int \<Rightarrow> jstring \<Rightarrow> AuditEvent list \<Rightarrow> bool" where
  "chain pl lc n prev [] = True"
| "chain pl lc n prev (e # es) = (links pl lc n prev e \<and> chain pl lc (n + 1) (ae_eventHash e) es)"

definition head_hash :: "jstring \<Rightarrow> AuditEvent list \<Rightarrow> jstring" where
  "head_hash prev es = (if es = [] then prev else ae_eventHash (last es))"

lemma eventHash_digest: "eventHash pl lc n prev b = Inr h \<Longrightarrow> Sha256HexSchema h \<and> Sha256HexSchema prev \<and> 1 \<le> n"
  by (auto simp: eventHash_def hashValidatedEvent_def bindr_eq_Inr_iff sha256Hex_schema split: if_splits)

lemma genesis_digest: "Sha256HexSchema GENESIS_HASH"
  by (simp add: Sha256HexSchema_iff GENESIS_HASH_def list_all_length lit_def is_lower_hex_def is_digit_def)

abbreviation verifier_at :: "jstring \<Rightarrow> int \<Rightarrow> AuditChainVerifier" where
  "verifier_at prev n \<equiv> \<lparr>av_previousHash = prev, av_expectedSequence = n, av_failure = None\<rparr>"

lemma verifier_add_cases:
  assumes "Sha256HexSchema prev"
  shows "links pl lc n prev e \<and> verifier_add pl lc (verifier_at prev n) e = (None, verifier_at (ae_eventHash e) (n + 1)) \<or>
    \<not> links pl lc n prev e \<and> (\<exists>r v. verifier_add pl lc (verifier_at prev n) e = (Some (BrokenChain n r), v))"
proof (cases "ae_sequence e = n \<and> ae_previousHash e = prev")
  case True
  then have t: "ae_sequence e = n" "ae_previousHash e = prev" by simp_all
  then show ?thesis
    using assms eventHash_digest [of pl lc n prev "AuditEventBody.truncate e"]
    by (cases "eventHash pl lc n prev (AuditEventBody.truncate e)")
      (auto simp: verifier_add_def addWithHash_def fail_def links_def safeHashEqual_iff Let_def)
next
  case False
  then show ?thesis
    by (auto simp: verifier_add_def addWithHash_def fail_def links_def safeHashEqual_iff Let_def)
qed

lemma verify_from_chain:
  assumes "Sha256HexSchema prev" and "chain pl lc n prev es"
  shows "verify_from pl lc (verifier_at prev n) (es @ fs) x =
      verify_from pl lc (verifier_at (head_hash prev es) (n + int (length es))) fs x \<and>
    Sha256HexSchema (head_hash prev es)"
  using assms
proof (induction es arbitrary: n prev)
  case Nil
  then show ?case by (simp add: head_hash_def)
next
  case (Cons e es)
  then have l: "links pl lc n prev e" and c: "chain pl lc (n + 1) (ae_eventHash e) es" by simp_all
  from l have d: "Sha256HexSchema (ae_eventHash e)" by (auto simp: links_def dest: eventHash_digest)
  have "head_hash prev (e # es) = head_hash (ae_eventHash e) es" by (simp add: head_hash_def)
  moreover have "verify_from pl lc (verifier_at prev n) (e # es @ fs) x =
      verify_from pl lc (verifier_at (ae_eventHash e) (n + 1)) (es @ fs) x"
    using verifier_add_cases [OF Cons.prems(1), of pl lc n e] l by auto
  ultimately show ?case using Cons.IH [OF d c] by (simp add: add.assoc)
qed


lemma chain_append:
  "chain pl lc n prev (es @ fs) \<longleftrightarrow> chain pl lc n prev es \<and> chain pl lc (n + int (length es)) (head_hash prev es) fs"
proof (induction es arbitrary: n prev)
  case (Cons e es)
  have "head_hash prev (e # es) = head_hash (ae_eventHash e) es" by (simp add: head_hash_def)
  then show ?case by (simp add: Cons.IH add.assoc)
qed (simp add: head_hash_def)

lemma head_hash_snoc: "head_hash prev (es @ [e]) = ae_eventHash e"
  by (simp add: head_hash_def)

fun valid_prefix :: "platform \<Rightarrow> (jstring \<Rightarrow> jstring \<Rightarrow> int) \<Rightarrow> int \<Rightarrow> jstring \<Rightarrow> AuditEvent list \<Rightarrow> nat" where
  "valid_prefix pl lc n prev [] = 0"
| "valid_prefix pl lc n prev (e # es) =
     (if links pl lc n prev e then Suc (valid_prefix pl lc (n + 1) (ae_eventHash e) es) else 0)"

lemma valid_prefix_split:
  "chain pl lc n prev (take (valid_prefix pl lc n prev es) es) \<and> valid_prefix pl lc n prev es \<le> length es \<and>
   (valid_prefix pl lc n prev es < length es \<longrightarrow>
      \<not> links pl lc (n + int (valid_prefix pl lc n prev es)) (head_hash prev (take (valid_prefix pl lc n prev es) es))
        (es ! valid_prefix pl lc n prev es))"
proof (induction es arbitrary: n prev)
  case (Cons e es)
  have "head_hash prev (e # xs) = head_hash (ae_eventHash e) xs" for xs by (simp add: head_hash_def)
  with Cons.IH [of "n + 1" "ae_eventHash e"] show ?case by (auto simp: add.assoc head_hash_def)
qed simp

lemma valid_prefix_all: "valid_prefix pl lc n prev es = length es \<longleftrightarrow> chain pl lc n prev es"
  by (induction es arbitrary: n prev) auto

abbreviation valid_log :: "platform \<Rightarrow> (jstring \<Rightarrow> jstring \<Rightarrow> int) \<Rightarrow> AuditEvent list \<Rightarrow> bool" where
  "valid_log pl lc es \<equiv> chain pl lc 1 GENESIS_HASH es"

abbreviation log_head :: "AuditEvent list \<Rightarrow> jstring" where
  "log_head es \<equiv> head_hash GENESIS_HASH es"

lemma verifyChain_valid:
  assumes "valid_log pl lc es"
  shows "verifyChain pl lc es x =
    (case x of None \<Rightarrow> ValidChain (int (length es)) (log_head es)
     | Some (n, h) \<Rightarrow>
         if n \<noteq> int (length es) then BrokenChain (int (length es) + 1) ''truncation_or_extension''
         else if h \<noteq> log_head es then BrokenChain (int (length es)) ''head_hash_mismatch''
         else ValidChain (int (length es)) (log_head es))"
  using verify_from_chain [OF genesis_digest assms, of "[]" x]
  by (auto simp: verifyChain_def new_verifier_def verifier_finish_def Let_def safeHashEqual_iff split: option.splits)

lemma verifyChain_broken:
  assumes "valid_prefix pl lc 1 GENESIS_HASH es < length es"
  shows "\<exists>r. verifyChain pl lc es x = BrokenChain (int (valid_prefix pl lc 1 GENESIS_HASH es) + 1) r"
proof -
  let ?p = "valid_prefix pl lc 1 GENESIS_HASH es"
  let ?e = "es ! ?p"
  have c: "valid_log pl lc (take ?p es)" and l: "\<not> links pl lc (1 + int ?p) (log_head (take ?p es)) ?e"
    using valid_prefix_split [of pl lc 1 GENESIS_HASH es] assms by blast+
  have s: "es = take ?p es @ ?e # drop (Suc ?p) es" using assms by (rule id_take_nth_drop)
  note v = verify_from_chain [OF genesis_digest c, of "?e # drop (Suc ?p) es" x]
  have "int (length (take ?p es)) = int ?p" using assms by simp
  with v have "verifyChain pl lc es x =
      verify_from pl lc (verifier_at (log_head (take ?p es)) (1 + int ?p)) (?e # drop (Suc ?p) es) x"
    unfolding verifyChain_def new_verifier_def by (subst s) simp
  with verifier_add_cases [OF conjunct2 [OF v], of pl lc "1 + int ?p" ?e] l show ?thesis
    by (auto simp: add.commute)
qed

lemma verifyChain_ok_iff:
  "verifyChain pl lc es x = ValidChain n h \<longleftrightarrow>
     valid_log pl lc es \<and> n = int (length es) \<and> h = log_head es \<and> (x = None \<or> x = Some (n, h))"
proof (cases "valid_log pl lc es")
  case True
  then show ?thesis by (auto simp: verifyChain_valid split: option.splits if_splits)
next
  case False
  then have "valid_prefix pl lc 1 GENESIS_HASH es < length es"
    using valid_prefix_split [of pl lc 1 GENESIS_HASH es] valid_prefix_all [of pl lc 1 GENESIS_HASH es]
    by (metis le_neq_implies_less)
  from verifyChain_broken [OF this, of x] False show ?thesis by auto
qed

section \<open>The hash of an event determines it\<close>

definition event_bytes :: "AuditEvent \<Rightarrow> byte list" where
  "event_bytes e = canonical_bytes (hash_material (ae_sequence e) (ae_previousHash e) (AuditEventBody.truncate e))"

text \<open>Events that differ at most in the order of the names among their details.\<close>

definition same_event :: "AuditEvent \<Rightarrow> AuditEvent \<Rightarrow> bool" where
  "same_event e f \<longleftrightarrow>
     f = e\<lparr>ab_details := ab_details f\<rparr> \<and> jval_of (JObj (ab_details e)) = jval_of (JObj (ab_details f))"

text \<open>The details are a value of the language, with integers of the safe range as numbers, and its canonical text is known: it has
  no name that is an array index, or the package that writes such objects keeps to RFC 8785.\<close>

definition proper_details :: "platform \<Rightarrow> AuditEvent \<Rightarrow> bool" where
  "proper_details pl e \<longleftrightarrow>
     js_json (JObj (ab_details e)) \<and> (index_free (JObj (ab_details e)) \<or> rfc8785_encoder pl)"

lemma hash_material_ok:
  "js_json (JObj (ab_details b)) \<Longrightarrow> index_free (JObj (ab_details b)) \<Longrightarrow>
     js_json (hash_material n prev b) \<and> index_free (hash_material n prev b)"
  by (simp add: hash_material_def body_fields_def isSafeInteger_def MAX_SAFE_INTEGER_def del: js_json.simps(3) index_free.simps(3))
    (simp add: isSafeInteger_def MAX_SAFE_INTEGER_def)

lemma hash_material_js: "js_json (JObj (ab_details b)) \<Longrightarrow> js_json (hash_material n prev b)"
  by (simp add: hash_material_def body_fields_def isSafeInteger_def MAX_SAFE_INTEGER_def del: js_json.simps(3))
    (simp add: isSafeInteger_def MAX_SAFE_INTEGER_def)

lemma hash_material_inj:
  assumes "jval_of (hash_material n p b) = jval_of (hash_material m q c)"
  shows "n = m \<and> p = q \<and> c = b\<lparr>ab_details := ab_details c\<rparr> \<and>
    jval_of (JObj (ab_details b)) = jval_of (JObj (ab_details c))"
proof -
  have "map (\<lambda>e. jval_of (snd e)) ([(lit ''domain'', jstr AUDIT_DOMAIN), (lit ''sequence'', JStr (dec_int n)),
       (lit ''previousHash'', JStr p)] @ body_fields b) =
     map (\<lambda>e. jval_of (snd e)) ([(lit ''domain'', jstr AUDIT_DOMAIN), (lit ''sequence'', JStr (dec_int m)),
       (lit ''previousHash'', JStr q)] @ body_fields c)"
    using assms unfolding hash_material_def by (subst (asm) jval_obj_eq) (simp_all add: body_fields_def)
  then show ?thesis
    by (simp add: body_fields_def dec_int_inj nullable_jval_inj del: jval_of.simps(6))
qed

lemma same_event_fields:
  assumes "ae_sequence e = ae_sequence f" and "ae_previousHash e = ae_previousHash f"
    and "ae_eventHash e = ae_eventHash f"
    and "AuditEventBody.truncate f = (AuditEventBody.truncate e)\<lparr>ab_details := ab_details f\<rparr>"
    and "jval_of (JObj (ab_details e)) = jval_of (JObj (ab_details f))"
  shows "same_event e f"
  using assms by (cases e; cases f) (simp add: same_event_def AuditEventBody.defs)

lemma truncate_details [simp]: "ab_details (AuditEventBody.truncate e) = ab_details e"
  by (simp add: AuditEventBody.defs)

lemma links_same_hash:
  assumes "links pl lc n p e" and "links pl lc m q f" and "ae_eventHash e = ae_eventHash f"
    and "proper_details pl e" and "proper_details pl f"
  shows "(p = q \<and> same_event e f) \<or> sha256_collision (event_bytes e) (event_bytes f)"
proof -
  let ?J = "\<lambda>e. hash_material (ae_sequence e) (ae_previousHash e) (AuditEventBody.truncate e)"
  have h: "canonicalSha256 pl (?J g) = Inr (ae_eventHash g)" if "links pl lc k r g" for k r g
    using that by (auto simp: links_def eventHash_def hashValidatedEvent_def canonicalSha256_def bindr_eq_Inr_iff
        split: if_splits)
  have ok: "js_json (?J g)" "index_free (?J g) \<or> rfc8785_encoder pl" if "proper_details pl g" for g
    using that hash_material_ok [of "AuditEventBody.truncate g" "ae_sequence g" "ae_previousHash g"]
      hash_material_js [of "AuditEventBody.truncate g" "ae_sequence g" "ae_previousHash g"]
    by (auto simp: proper_details_def simp del: js_json.simps index_free.simps)
  have "index_free (?J e) \<and> index_free (?J f) \<or> rfc8785_encoder pl" using ok(2) [OF assms(4)] ok(2) [OF assms(5)] by blast
  from canonicalSha256_binding_general [OF ok(1) [OF assms(4)] ok(1) [OF assms(5)] this h [OF assms(1)] h [OF assms(2), folded assms(3)]]
  have "jval_of (?J e) = jval_of (?J f) \<or> sha256_collision (event_bytes e) (event_bytes f)"
    unfolding event_bytes_def by blast
  then show ?thesis
  proof
    assume "jval_of (?J e) = jval_of (?J f)"
    from hash_material_inj [OF this] have "same_event e f" "ae_previousHash e = ae_previousHash f"
      using assms(3) by (auto intro: same_event_fields simp del: jval_of.simps(6))
    with assms(1,2) show ?thesis by (simp add: links_def)
  qed blast
qed

lemma chain_same_head:
  assumes "chain pl lc n p es" and "chain pl lc m q fs" and "length es = length fs"
    and "head_hash p es = head_hash q fs" and "\<forall>e\<in>set es \<union> set fs. proper_details pl e"
  shows "list_all2 same_event es fs \<or> (\<exists>i<length es. sha256_collision (event_bytes (es ! i)) (event_bytes (fs ! i)))"
  using assms
proof (induction es arbitrary: fs rule: rev_induct)
  case (snoc e es)
  then obtain gs f where fs: "fs = gs @ [f]" by (cases fs rule: rev_cases) auto
  from snoc.prems have l: "length es = length gs"
    and c: "chain pl lc n p es" "links pl lc (n + int (length es)) (head_hash p es) e"
      "chain pl lc m q gs" "links pl lc (m + int (length gs)) (head_hash q gs) f"
    and h: "ae_eventHash e = ae_eventHash f" and d: "proper_details pl e" "proper_details pl f"
      "\<forall>e\<in>set es \<union> set gs. proper_details pl e"
    by (auto simp: fs chain_append head_hash_snoc)
  from links_same_hash [OF c(2,4) h d(1,2)] show ?case
  proof
    assume s: "head_hash p es = head_hash q gs \<and> same_event e f"
    with snoc.IH [OF c(1,3) l _ d(3)]
    have "list_all2 same_event es gs \<or> (\<exists>i<length es. sha256_collision (event_bytes (es ! i)) (event_bytes (gs ! i)))"
      by blast
    then show ?thesis
    proof
      assume "list_all2 same_event es gs"
      with s l show ?thesis by (simp add: fs list_all2_appendI)
    next
      assume "\<exists>i<length es. sha256_collision (event_bytes (es ! i)) (event_bytes (gs ! i))"
      then obtain i where "i < length es" "sha256_collision (event_bytes (es ! i)) (event_bytes (gs ! i))" by blast
      with l have "i < length (es @ [e]) \<and> sha256_collision (event_bytes ((es @ [e]) ! i)) (event_bytes (fs ! i))"
        by (simp add: fs nth_append)
      then show ?thesis by blast
    qed
  next
    assume "sha256_collision (event_bytes e) (event_bytes f)"
    with l have "length es < length (es @ [e]) \<and>
        sha256_collision (event_bytes ((es @ [e]) ! length es)) (event_bytes (fs ! length es))"
      by (simp add: fs nth_append)
    then show ?thesis by blast
  qed
qed simp

section \<open>Appending\<close>

lemma extend_event [simp]:
  fixes b :: AuditEventBody
  shows "AuditEventBody.truncate (AuditEventBody.extend b r) = b"
    and "ae_sequence (AuditEventBody.extend b \<lparr>ae_sequence = n, ae_previousHash = p, ae_eventHash = h\<rparr>) = n"
    and "ae_previousHash (AuditEventBody.extend b \<lparr>ae_sequence = n, ae_previousHash = p, ae_eventHash = h\<rparr>) = p"
    and "ae_eventHash (AuditEventBody.extend b \<lparr>ae_sequence = n, ae_previousHash = p, ae_eventHash = h\<rparr>) = h"
  by (cases b; simp add: AuditEventBody.defs)+

lemma appendEvent_links:
  assumes "appendEvent pl lc (if es = [] then None else Some (last es)) b = Inr e" and "valid_log pl lc es"
  shows "links pl lc (1 + int (length es)) (log_head es) e \<and> AuditEventBody.truncate e = b"
proof -
  have s: "es \<noteq> [] \<Longrightarrow> ae_sequence (last es) = int (length es)"
    using assms(2) by (cases es rule: rev_cases) (auto simp: chain_append links_def)
  from assms(1) show ?thesis
    by (cases "es = []")
      (auto simp: appendEvent_def bindr_eq_Inr_iff Let_def links_def head_hash_def s add.commute)
qed

lemma valid_log_body:
  assumes "valid_log pl lc es" and "e \<in> set es"
  shows "AuditEventBodySchema pl lc (AuditEventBody.truncate e)"
proof -
  have "chain pl lc n prev es \<Longrightarrow> e \<in> set es \<Longrightarrow> AuditEventBodySchema pl lc (AuditEventBody.truncate e)" for n prev
    by (induction es arbitrary: n prev)
      (auto simp: links_def eventHash_def bindr_eq_Inr_iff split: if_splits)
  with assms show ?thesis by blast
qed

lemma key_change_after:
  "KeyLifecycleChangedSchema pl lc ev \<Longrightarrow> kc_after ev = expected_state ev"
  unfolding KeyLifecycleChangedSchema_def using same_canonical_states by blast

section \<open>A sample log\<close>

definition wit_body :: "(jstring \<times> json) list \<Rightarrow> AuditEventBody" where
  "wit_body details = \<lparr>ab_eventId = wit_uuid, ab_eventType = lit ''board_created'', ab_actorMemberId = Some wit_uuid,
     ab_actorClientId = None, ab_tokenJti = None, ab_entityType = lit ''board'', ab_entityId = wit_uuid',
     ab_boardId = None, ab_occurredAt = lit ''2026-01-31T12:00:00Z'', ab_origin = lit ''mcp'',
     ab_details = details\<rparr>"

abbreviation wit_details :: "(jstring \<times> json) list" where
  "wit_details \<equiv> [(lit ''name'', jstr ''Main''), (lit ''seats'', JNum 5)]"

lemma wit_body_valid:
  assumes "details = wit_details \<or> details = rev wit_details"
  shows "AuditEventBodySchema pl lc (wit_body details)"
proof -
  have t: "lit ''board_created'' \<in> set (map lit EVENT_IDS)" "lit ''board_created'' \<noteq> lit ''key_lifecycle_changed''"
    by (simp_all add: EVENT_IDS_def del: lit_simps) simp
  have c: "entity_type_ok (lit ''board'')" "Rfc3339UtcSchema (lit ''2026-01-31T12:00:00Z'')"
      "lit ''mcp'' \<in> set (map lit origins)" "detail_key_ok (lit ''name'')" "detail_key_ok (lit ''seats'')"
    by code_simp+
  have l: "1 \<le> length wit_uuid'" "length wit_uuid' \<le> 2048" by (simp_all add: wit_uuid'_def)
  have d: "list_all (\<lambda>(k, v). detail_key_ok k) details" using assms c by auto
  show ?thesis
    using t c l d unfolding AuditEventBodySchema_def wit_body_def AuditEventBody.simps
    by (simp del: lit_simps set_map list.map)
qed

lemma eventHash_defined:
  assumes "AuditEventBodySchema pl lc b" and "Sha256HexSchema prev" and "1 \<le> n"
    and "js_json (JObj (ab_details b)) \<and> index_free (JObj (ab_details b))"
    and "json_depth (hash_material n prev b) \<le> MAX_JSON_CONTAINER_DEPTH"
    and "is_ascii (dec_int n) \<Longrightarrow> scalar_string (normalizeNFC pl) prev \<Longrightarrow>
      strings_ok (normalizeNFC pl) (hash_material n prev b)"
  shows "eventHash pl lc n prev b = Inr (hex_of_bytes (sha256 (canonical_bytes (hash_material n prev b))))"
proof -
  have "is_ascii (dec_int n)"
    using dec_nat_digits [of "nat n"] assms(3)
    by (auto simp: dec_int_def is_ascii_def list_all_iff is_digit_def word_le_nat_alt word_less_nat_alt)
  note s = assms(6) [OF this scalar_digest [OF assms(2)]]
  have "index_free (hash_material n prev b)" using hash_material_ok [of b n prev] assms(4) by blast
  then have "canonicalSha256 pl (hash_material n prev b) =
      Inr (hex_of_bytes (sha256 (canonical_bytes (hash_material n prev b))))"
    using s assms(5) canonicalSha256_iff by blast
  then show ?thesis
    using assms(1,2,3) by (simp add: eventHash_def hashValidatedEvent_def canonicalSha256_def zparse_ok)
qed

lemma wit_event:
  assumes "details = wit_details \<or> details = rev wit_details" and "Sha256HexSchema prev" and "1 \<le> n"
  shows "eventHash pl lc n prev (wit_body details) =
    Inr (hex_of_bytes (sha256 (canonical_bytes (hash_material n prev (wit_body details)))))"
  using assms(1)
  by (intro eventHash_defined [OF wit_body_valid [OF assms(1)] assms(2,3)])
    (auto simp: hash_material_def body_fields_def wit_body_def AUDIT_DOMAIN_def isSafeInteger_def
      MAX_SAFE_INTEGER_def MAX_JSON_CONTAINER_DEPTH_def)

definition wit_audit_event :: "(jstring \<times> json) list \<Rightarrow> AuditEvent" where
  "wit_audit_event details = AuditEventBody.extend (wit_body details)
     \<lparr>ae_sequence = 1, ae_previousHash = GENESIS_HASH,
      ae_eventHash = hex_of_bytes (sha256 (canonical_bytes (hash_material 1 GENESIS_HASH (wit_body wit_details))))\<rparr>"

lemma wit_material_order:
  "canonical_bytes (hash_material 1 GENESIS_HASH (wit_body (rev wit_details))) =
   canonical_bytes (hash_material 1 GENESIS_HASH (wit_body wit_details))"
proof -
  have ok: "js_json (hash_material 1 GENESIS_HASH (wit_body d)) \<and> index_free (hash_material 1 GENESIS_HASH (wit_body d))"
    if "d = wit_details \<or> d = rev wit_details" for d
    using that by (intro hash_material_ok) (auto simp: wit_body_def isSafeInteger_def MAX_SAFE_INTEGER_def)
  have m: "jval_of (hash_material 1 GENESIS_HASH (wit_body d)) = jval_of (hash_material 1 GENESIS_HASH (wit_body d'))"
    if "jval_of (JObj d) = jval_of (JObj d')" for d d'
    unfolding hash_material_def
    by (subst jval_obj_eq) (simp_all add: body_fields_def wit_body_def that del: jval_of.simps(6))
  have "jval_of (JObj (rev wit_details)) = jval_of (JObj wit_details)" by (auto simp: fun_eq_iff)
  note mm = m [OF this]
  have "jsort (hash_material 1 GENESIS_HASH (wit_body (rev wit_details))) =
      jsort (hash_material 1 GENESIS_HASH (wit_body wit_details))"
    by (rule iffD2 [OF jsort_eq_iff mm]) (rule conjunct1 [OF ok], simp only: simp_thms)+
  then show ?thesis unfolding canonical_bytes_def by (rule arg_cong)
qed

lemma wit_log_valid:
  assumes "details = wit_details \<or> details = rev wit_details"
  shows "valid_log pl lc [wit_audit_event details]" and "proper_details pl (wit_audit_event details)"
proof -
  show "valid_log pl lc [wit_audit_event details]"
    using assms wit_event [OF assms genesis_digest, of 1 pl lc] wit_material_order
    by (auto simp: links_def wit_audit_event_def simp del: rev.simps)
  have "ab_details (wit_audit_event d) = d" for d
    by (simp add: wit_audit_event_def wit_body_def AuditEventBody.defs)
  then show "proper_details pl (wit_audit_event details)"
    using assms by (auto simp: proper_details_def isSafeInteger_def MAX_SAFE_INTEGER_def)
qed

text \<open>A sample key event: a browser session key is retired.\<close>

definition wit_key_state :: "json \<Rightarrow> json" where
  "wit_key_state retiredAt = JObj
     [(lit ''keyId'', JStr wit_uuid), (lit ''kid'', jstr ''session-1''), (lit ''algorithm'', jstr ''HMAC-SHA256''),
      (lit ''publicMaterialSha256'', JNull), (lit ''activatedAt'', jstr ''2026-01-01T00:00:00.000000Z''),
      (lit ''retiredAt'', retiredAt), (lit ''compromisedAt'', JNull)]"

definition wit_key_details :: "(jstring \<times> json) list" where
  "wit_key_details =
     [(lit ''schemaVersion'', jstr ''boardagent.key-lifecycle-changed.v1''), (lit ''operationId'', JStr wit_uuid),
      (lit ''requestSha256'', JStr wit_sha), (lit ''instanceId'', JStr wit_uuid),
      (lit ''organizationId'', JStr wit_uuid), (lit ''purpose'', jstr ''browser_session''),
      (lit ''operation'', jstr ''retire''), (lit ''before'', wit_key_state JNull),
      (lit ''after'', wit_key_state (jstr ''2026-02-01T00:00:00.000000Z'')), (lit ''replacement'', JNull),
      (lit ''recordedAt'', jstr ''2026-02-01T00:00:00.000000Z''), (lit ''declaredCompromisedAt'', JNull),
      (lit ''dependencyStateSha256'', JStr wit_sha), (lit ''retainedMaterialSha256'', JStr wit_sha),
      (lit ''operatorReference'', jstr ''CHG-7''), (lit ''reason'', jstr ''rotation''),
      (lit ''effects'', JObj [(lit ''revokedSessions'', jstr ''3''), (lit ''revokedRefreshFamilies'', jstr ''0''),
        (lit ''cancelledStages'', jstr ''0''), (lit ''affectedTotp'', jstr ''0''),
        (lit ''disabledWebhooks'', jstr ''0''), (lit ''rewrappedWebhooks'', jstr ''0'')])]"

definition wit_key_body :: AuditEventBody where
  "wit_key_body = \<lparr>ab_eventId = wit_uuid, ab_eventType = lit ''key_lifecycle_changed'', ab_actorMemberId = None,
     ab_actorClientId = None, ab_tokenJti = None, ab_entityType = lit ''key_lifecycle_operation'',
     ab_entityId = wit_uuid, ab_boardId = None, ab_occurredAt = lit ''2026-02-01T00:00:00.000000Z'',
     ab_origin = lit ''cli'', ab_details = wit_key_details\<rparr>"

definition wit_key_prior :: KeyLifecycleState where
  "wit_key_prior = \<lparr>ks_keyId = wit_uuid, ks_kid = lit ''session-1'', ks_algorithm = HMAC_SHA256,
     ks_publicMaterialSha256 = None, ks_activatedAt = lit ''2026-01-01T00:00:00.000000Z'',
     ks_retiredAt = None, ks_compromisedAt = None\<rparr>"

abbreviation "wit_key_time \<equiv> lit ''2026-02-01T00:00:00.000000Z''"

definition wit_key_change :: KeyLifecycleChanged where
  "wit_key_change = \<lparr>kc_operationId = wit_uuid, kc_requestSha256 = wit_sha, kc_instanceId = wit_uuid,
     kc_organizationId = wit_uuid, kc_purpose = browser_session, kc_operation = retire_key,
     kc_before = wit_key_prior, kc_after = wit_key_prior\<lparr>ks_retiredAt := Some wit_key_time\<rparr>,
     kc_replacement = None, kc_recordedAt = wit_key_time, kc_declaredCompromisedAt = None,
     kc_dependencyStateSha256 = wit_sha, kc_retainedMaterialSha256 = wit_sha,
     kc_operatorReference = lit ''CHG-7'', kc_reason = lit ''rotation'',
     kc_effects = \<lparr>ke_revokedSessions = lit ''3'', ke_revokedRefreshFamilies = lit ''0'',
       ke_cancelledStages = lit ''0'', ke_affectedTotp = lit ''0'', ke_disabledWebhooks = lit ''0'',
       ke_rewrappedWebhooks = lit ''0''\<rparr>\<rparr>"

lemma wit_key_states:
  "key_state_of (wit_key_state JNull) = Some wit_key_prior"
  "key_state_of (wit_key_state (JStr t)) = Some (wit_key_prior\<lparr>ks_retiredAt := Some t\<rparr>)"
  by (simp_all add: key_state_of_def wit_key_state_def strict_object_def lit_inj KeyAlgorithmSchema_def
      wit_key_prior_def del: lit_simps)

lemma wit_key_decodes: "key_change_of (JObj wit_key_details) = Some wit_key_change"
proof -
  have e: "effects_of (JObj [(lit ''revokedSessions'', jstr ''3''), (lit ''revokedRefreshFamilies'', jstr ''0''),
        (lit ''cancelledStages'', jstr ''0''), (lit ''affectedTotp'', jstr ''0''),
        (lit ''disabledWebhooks'', jstr ''0''), (lit ''rewrappedWebhooks'', jstr ''0'')]) =
      Some (kc_effects wit_key_change)"
    by (simp add: effects_of_def strict_object_def lit_inj wit_key_change_def del: lit_simps)
  show ?thesis
    by (simp add: key_change_of_def wit_key_details_def strict_object_def lit_inj wit_key_states e
        KeyLifecyclePurposeSchema_def KeyLifecycleOperationSchema_def del: lit_simps)
      (simp add: wit_key_change_def del: lit_simps)
qed

lemma same_canonical_refl:
  "index_free v \<Longrightarrow> json_depth v \<le> MAX_JSON_CONTAINER_DEPTH \<Longrightarrow> strings_ok (normalizeNFC pl) v \<Longrightarrow>
     same_canonical pl v v"
  using canonicalJson_iff [of v pl "stringify (jsort v)"] by (simp add: same_canonical_def)

lemma wit_key_times: "KeyTime wit_key_time" "KeyTime (lit ''2026-01-01T00:00:00.000000Z'')"
proof -
  have "matches (rfc3339_prefix @ [is_char CHR ''.''] @ replicate 6 is_digit @ [is_char CHR ''Z'']) wit_key_time"
    "date_fields wit_key_time = (2026, 2, 1, 0, 0, 0)" "calendar_ok 2026 2 1 0 0 0"
    by code_simp+
  then show "KeyTime wit_key_time" by (simp add: KeyTime_def del: lit_simps)
  have "matches (rfc3339_prefix @ [is_char CHR ''.''] @ replicate 6 is_digit @ [is_char CHR ''Z''])
      (lit ''2026-01-01T00:00:00.000000Z'')"
    "date_fields (lit ''2026-01-01T00:00:00.000000Z'') = (2026, 1, 1, 0, 0, 0)" "calendar_ok 2026 1 1 0 0 0"
    by code_simp+
  then show "KeyTime (lit ''2026-01-01T00:00:00.000000Z'')" by (simp add: KeyTime_def del: lit_simps)
qed

lemma wit_key_fields:
  "Kid (lit ''session-1'')" "KeyCount (lit ''0'')" "KeyCount (lit ''3'')"
  "operator_text (normalizeNFC plain_platform) 512 (lit ''CHG-7'')"
  "operator_text (normalizeNFC plain_platform) 4096 (lit ''rotation'')"
proof -
  have t: "js_trim (lit ''CHG-7'') = lit ''CHG-7''" "js_trim (lit ''rotation'') = lit ''rotation''"
    by code_simp+
  show "Kid (lit ''session-1'')" by code_simp
  show "KeyCount (lit ''0'')" "KeyCount (lit ''3'')"
    by (simp_all add: KeyCount_def UnsignedIntegerStringSchema_def dec_val_def digit_val_def)
  have "isWellFormed (lit ''CHG-7'')" "isWellFormed (lit ''rotation'')"
    "list_all (\<lambda>point. 32 \<le> point \<and> (point < 127 \<or> 159 < point)) (code_points (lit ''CHG-7''))"
    "list_all (\<lambda>point. 32 \<le> point \<and> (point < 127 \<or> 159 < point)) (code_points (lit ''rotation''))"
    by (simp_all add: is_high_def is_low_def unit_point_def)
  with t show "operator_text (normalizeNFC plain_platform) 512 (lit ''CHG-7'')"
    "operator_text (normalizeNFC plain_platform) 4096 (lit ''rotation'')"
    by (simp_all add: operator_text_def plain_platform_def del: lit_simps)
qed

lemma wit_key_change_valid: "KeyLifecycleChangedSchema plain_platform (\<lambda>_ _. 0) wit_key_change"
proof -
  have "same_canonical plain_platform (key_state_json s) (key_state_json s)"
    if "s = wit_key_prior\<lparr>ks_retiredAt := Some wit_key_time\<rparr>" for s
    using key_state_json_ok(2) that
    by (intro same_canonical_refl) (auto simp: key_state_json_def wit_key_prior_def MAX_JSON_CONTAINER_DEPTH_def)
  moreover have "expected_state wit_key_change = kc_after wit_key_change"
    by (simp add: expected_state_def wit_key_change_def wit_key_prior_def or_else_def del: lit_simps)
  moreover have "kc_after wit_key_change = wit_key_prior\<lparr>ks_retiredAt := Some wit_key_time\<rparr>"
    by (simp add: wit_key_change_def del: lit_simps)
  moreover have "key_fields_ok (normalizeNFC plain_platform) (\<lambda>_ _. 0) wit_key_change"
    using wit_key_fields wit_key_times
    by (simp add: key_fields_ok_def wit_key_change_def KeyLifecycleStateSchema_def wit_key_prior_def before_time_def
        del: lit_simps)
  ultimately show ?thesis
    unfolding KeyLifecycleChangedSchema_def
    by (simp add: operation_ok_def wit_key_change_def wit_key_prior_def public_material_def after_time_def
        del: lit_simps)
qed

lemma wit_key_schema: "AuditEventBodySchema plain_platform (\<lambda>_ _. 0) wit_key_body"
proof -
  have "lit ''key_lifecycle_changed'' \<in> set (map lit EVENT_IDS)"
    by (simp add: EVENT_IDS_def del: lit_simps)
  moreover have "entity_type_ok (lit ''key_lifecycle_operation'')" "Rfc3339UtcSchema wit_key_time"
    "lit ''cli'' \<in> set (map lit origins)"
    by code_simp+
  moreover have "list_all (\<lambda>(k, v). detail_key_ok k) wit_key_details"
    by (simp add: wit_key_details_def detail_key_ok_def char_class_defs)
  moreover have "1 \<le> length wit_uuid" "length wit_uuid \<le> 2048" by (simp_all add: wit_uuid_def)
  moreover have "key_event_ok plain_platform (\<lambda>_ _. 0) wit_key_body"
    using wit_key_change_valid
    by (simp add: key_event_ok_def wit_key_body_def wit_key_decodes del: lit_simps)
      (simp add: wit_key_change_def del: lit_simps)
  ultimately show ?thesis
    unfolding AuditEventBodySchema_def
    by (simp add: wit_key_body_def del: lit_simps set_map list.map)
qed

lemma wit_key_json: "js_json (JObj wit_key_details) \<and> index_free (JObj wit_key_details) \<and>
    json_depth (JObj wit_key_details) \<le> 2 \<and> strings_ok nfc (JObj wit_key_details)"
  by (simp add: wit_key_details_def wit_key_state_def)

definition wit_key_event :: AuditEvent where
  "wit_key_event = AuditEventBody.extend wit_key_body
     \<lparr>ae_sequence = 1, ae_previousHash = GENESIS_HASH,
      ae_eventHash = hex_of_bytes (sha256 (canonical_bytes (hash_material 1 GENESIS_HASH wit_key_body)))\<rparr>"

lemma wit_key_log: "valid_log plain_platform (\<lambda>_ _. 0) [wit_key_event]"
proof -
  have d: "ab_details wit_key_body = wit_key_details" by (simp add: wit_key_body_def)
  have "eventHash plain_platform (\<lambda>_ _. 0) 1 GENESIS_HASH wit_key_body =
      Inr (hex_of_bytes (sha256 (canonical_bytes (hash_material 1 GENESIS_HASH wit_key_body))))"
    using wit_key_json [of "normalizeNFC plain_platform"]
    by (intro eventHash_defined [OF wit_key_schema genesis_digest])
      (auto simp: d hash_material_def body_fields_def AUDIT_DOMAIN_def MAX_JSON_CONTAINER_DEPTH_def
        simp del: json_depth.simps(2) strings_ok.simps(3) js_json.simps(3) index_free.simps(3),
       auto simp: wit_key_body_def)
  then show ?thesis by (simp add: links_def wit_key_event_def)
qed

section \<open>Properties\<close>

text \<open>Property C34: the log is tamper evident. Take two logs whose details are values of the language with integers of the safe
  range as numbers; where a detail has a name that is an array index, the package that then writes the text keeps to RFC 8785. If both logs verify
  against the same anchor, a count and
  a head hash, they have the same events up to the order of names in their details; otherwise the
  records of two events at one position are a SHA-256 collision.\<close>

theorem audit_log_tamper_evident:
  assumes "verifyChain pl lc es (Some (n, h)) = ValidChain n h"
    and "verifyChain pl lc fs (Some (n, h)) = ValidChain n h"
    and "\<forall>e\<in>set es \<union> set fs. proper_details pl e"
  shows "list_all2 same_event es fs \<or>
    (\<exists>i<length es. sha256_collision (event_bytes (es ! i)) (event_bytes (fs ! i)))"
  using assms chain_same_head [of pl lc 1 GENESIS_HASH es 1 GENESIS_HASH fs]
  by (simp add: verifyChain_ok_iff)

theorem audit_log_tamper_evident_witness:
  "list_all2 same_event [wit_audit_event wit_details] [wit_audit_event (rev wit_details)] \<or>
   (\<exists>i. i < 1 \<and> sha256_collision (event_bytes ([wit_audit_event wit_details] ! i))
      (event_bytes ([wit_audit_event (rev wit_details)] ! i)))"
proof -
  let ?e = "[wit_audit_event wit_details]" and ?f = "[wit_audit_event (rev wit_details)]"
  let ?pl = plain_platform and ?lc = "\<lambda>_ _. 0 :: int"
  have h: "log_head ?f = log_head ?e"
    by (simp add: head_hash_def wit_audit_event_def)
  have "verifyChain ?pl ?lc ?e (Some (1, log_head ?e)) = ValidChain 1 (log_head ?e)"
    "verifyChain ?pl ?lc ?f (Some (1, log_head ?e)) = ValidChain 1 (log_head ?e)"
    unfolding verifyChain_ok_iff h using wit_log_valid(1) by simp_all
  from audit_log_tamper_evident [OF this] wit_log_valid(2)
  show ?thesis by (simp del: rev.simps)
qed

text \<open>Property C35: verification against its specification. A log whose longest correctly linked prefix is
  shorter than the log is reported as broken at the next sequence number; a correctly linked log
  is valid with its length and head hash, unless the anchor names another length or head.\<close>

theorem verifyChain_reports_first_break:
  "(let p = valid_prefix pl lc 1 GENESIS_HASH es; l = int (length es) in
    if int p < l then cv_firstBreakSequence (verifyChain pl lc es x) = int p + 1 \<and>
      (\<exists>r. verifyChain pl lc es x = BrokenChain (int p + 1) r)
    else verifyChain pl lc es x =
      (case x of None \<Rightarrow> ValidChain l (log_head es)
       | Some (n, h) \<Rightarrow>
           if n \<noteq> l then BrokenChain (l + 1) ''truncation_or_extension''
           else if h \<noteq> log_head es then BrokenChain l ''head_hash_mismatch''
           else ValidChain l (log_head es)))"
proof (cases "valid_prefix pl lc 1 GENESIS_HASH es < length es")
  case True
  with verifyChain_broken [OF True, of x] show ?thesis by (auto simp: Let_def)
next
  case False
  then have "valid_prefix pl lc 1 GENESIS_HASH es = length es"
    using valid_prefix_split [of pl lc 1 GENESIS_HASH es] by linarith
  with valid_prefix_all [of pl lc 1 GENESIS_HASH es] have "valid_log pl lc es" by simp
  from verifyChain_valid [OF this, of x] False show ?thesis by (simp add: Let_def)
qed

text \<open>Property C36: appending keeps the log valid. An event appended to a valid log carries the given body
  and the next sequence number, and the longer log verifies with the event's hash as its
  head.\<close>

theorem append_keeps_log_valid:
  assumes "verifyChain pl lc es None = ValidChain n h"
    and "appendEvent pl lc (if es = [] then None else Some (last es)) b = Inr e"
  shows "verifyChain pl lc (es @ [e]) None = ValidChain (n + 1) (ae_eventHash e) \<and>
    AuditEventBody.truncate e = b \<and> ae_sequence e = n + 1 \<and> ae_previousHash e = h"
proof -
  from assms(1) have v: "valid_log pl lc es" "n = int (length es)" "h = log_head es"
    by (simp_all add: verifyChain_ok_iff)
  from appendEvent_links [OF assms(2) v(1)] have l: "links pl lc (1 + n) h e" "AuditEventBody.truncate e = b"
    by (simp_all add: v)
  with v show ?thesis
    by (simp add: verifyChain_ok_iff chain_append head_hash_snoc) (simp add: links_def)
qed

theorem append_keeps_log_valid_witness:
  "\<exists>h. verifyChain plain_platform (\<lambda>_ _. 0) [wit_audit_event wit_details] None = ValidChain 1 h"
proof -
  let ?pl = plain_platform and ?lc = "\<lambda>_ _. 0 :: int"
  have v: "verifyChain ?pl ?lc [] None = ValidChain 0 GENESIS_HASH"
    by (simp add: verifyChain_ok_iff head_hash_def)
  have "AuditEventBodySchema ?pl ?lc (wit_body wit_details)" by (intro wit_body_valid) simp
  then have a: "appendEvent ?pl ?lc (if ([] :: AuditEvent list) = [] then None else Some (last []))
      (wit_body wit_details) = Inr (wit_audit_event wit_details)"
    using wit_event [of wit_details GENESIS_HASH 1 ?pl ?lc] genesis_digest
    by (simp add: appendEvent_def zparse_ok wit_audit_event_def del: lit_simps)
  from append_keeps_log_valid [OF v a] show ?thesis by auto
qed

text \<open>Property C37: key operations in a valid log. A key event is an operator's own report whose state
  after the operation is the state before with exactly the fields set that the operation sets:
  retirement at the recorded time, or the declared compromise; a replacement key is fresh,
  active from the recorded time and has another identity.\<close>

theorem key_events_in_valid_log:
  assumes "verifyChain pl lc es x = ValidChain n h" and "e \<in> set es"
    and "ab_eventType e = lit ''key_lifecycle_changed''"
  shows "\<exists>ev. key_change_of (JObj (ab_details e)) = Some ev \<and>
    ab_origin e = lit ''cli'' \<and> ab_actorMemberId e = None \<and> ab_occurredAt e = kc_recordedAt ev \<and>
    (case kc_operation ev of
       mark_compromised \<Rightarrow> kc_replacement ev = None \<and> kc_declaredCompromisedAt ev \<noteq> None \<and>
         kc_after ev = (kc_before ev)\<lparr>ks_compromisedAt := kc_declaredCompromisedAt ev\<rparr>
     | retire_key \<Rightarrow> kc_replacement ev = None \<and> ks_retiredAt (kc_before ev) = None \<and>
         kc_after ev = (kc_before ev)\<lparr>ks_retiredAt := Some (kc_recordedAt ev)\<rparr>
     | replace_key \<Rightarrow> (\<exists>k. kc_replacement ev = Some k \<and> ks_keyId k \<noteq> ks_keyId (kc_before ev) \<and>
         ks_activatedAt k = kc_recordedAt ev \<and> ks_retiredAt k = None \<and> ks_compromisedAt k = None \<and>
         ks_algorithm k = ks_algorithm (kc_before ev)) \<and>
         kc_after ev = (kc_before ev)\<lparr>ks_retiredAt :=
           Some (or_else (ks_retiredAt (kc_before ev)) (kc_recordedAt ev))\<rparr>)"
proof -
  have "valid_log pl lc es" using assms(1) by (simp add: verifyChain_ok_iff)
  from valid_log_body [OF this assms(2)] assms(3)
  have "key_event_ok pl lc (AuditEventBody.truncate e)"
    by (simp add: AuditEventBodySchema_def AuditEventBody.defs)
  then obtain ev where ev: "key_change_of (JObj (ab_details e)) = Some ev" "KeyLifecycleChangedSchema pl lc ev"
    "ab_origin e = lit ''cli''" "ab_actorMemberId e = None" "ab_occurredAt e = kc_recordedAt ev"
    by (auto simp: key_event_ok_def AuditEventBody.defs split: option.splits)
  from ev(2) have o: "operation_ok lc ev" and a: "\<forall>s\<in>set ([kc_before ev, kc_after ev] @
      (case kc_replacement ev of None \<Rightarrow> [] | Some k \<Rightarrow> [k])). ks_algorithm s = purpose_algorithm (kc_purpose ev)"
    by (auto simp: KeyLifecycleChangedSchema_def list_all_iff)
  show ?thesis
  proof (intro exI [of _ ev] conjI ev(1,3,4,5))
    show "case kc_operation ev of
       mark_compromised \<Rightarrow> kc_replacement ev = None \<and> kc_declaredCompromisedAt ev \<noteq> None \<and>
         kc_after ev = (kc_before ev)\<lparr>ks_compromisedAt := kc_declaredCompromisedAt ev\<rparr>
     | retire_key \<Rightarrow> kc_replacement ev = None \<and> ks_retiredAt (kc_before ev) = None \<and>
         kc_after ev = (kc_before ev)\<lparr>ks_retiredAt := Some (kc_recordedAt ev)\<rparr>
     | replace_key \<Rightarrow> (\<exists>k. kc_replacement ev = Some k \<and> ks_keyId k \<noteq> ks_keyId (kc_before ev) \<and>
         ks_activatedAt k = kc_recordedAt ev \<and> ks_retiredAt k = None \<and> ks_compromisedAt k = None \<and>
         ks_algorithm k = ks_algorithm (kc_before ev)) \<and>
         kc_after ev = (kc_before ev)\<lparr>ks_retiredAt :=
           Some (or_else (ks_retiredAt (kc_before ev)) (kc_recordedAt ev))\<rparr>"
      using o a key_change_after [OF ev(2)]
      by (cases "kc_operation ev"; cases "kc_replacement ev")
        (auto simp: operation_ok_def replacement_ok_def expected_state_def or_else_def)
  qed
qed

theorem key_events_in_valid_log_witness:
  "\<exists>ev. key_change_of (JObj wit_key_details) = Some ev \<and> kc_operation ev = retire_key \<and>
     kc_after ev = (kc_before ev)\<lparr>ks_retiredAt := Some (kc_recordedAt ev)\<rparr>"
proof -
  have v: "verifyChain plain_platform (\<lambda>_ _. 0) [wit_key_event] None = ValidChain 1 (log_head [wit_key_event])"
    using wit_key_log by (simp add: verifyChain_ok_iff)
  have e: "ab_eventType wit_key_event = lit ''key_lifecycle_changed''" "ab_details wit_key_event = wit_key_details"
    by (simp_all add: wit_key_event_def wit_key_body_def AuditEventBody.defs)
  have o: "kc_operation wit_key_change = retire_key" by (simp add: wit_key_change_def)
  have m: "wit_key_event \<in> set [wit_key_event]" by simp
  from key_events_in_valid_log [OF v m e(1)]
  have "kc_after wit_key_change = (kc_before wit_key_change)\<lparr>ks_retiredAt := Some (kc_recordedAt wit_key_change)\<rparr>"
    by (simp only: e(2) wit_key_decodes option.inject simp_thms o KeyLifecycleOperation.case)
  with o wit_key_decodes show ?thesis by blast
qed

end
