(* ===== verification/Decision_Package.thy ===== *)
theory Decision_Package
  imports Governance_Profile
begin

text \<open>
  The frozen basis of a vote, \<^verbatim>\<open>lib/domain/src/decision-package.ts\<close> with its schemas of
  \<^verbatim>\<open>lib/contracts/src/governance.ts\<close>: the decision package and its comparison with a
  successor, the plan that replaces a vote, and the electorate evidence the package binds. The
  locale-dependent string order is the argument \<open>lc\<close>; the constant fields of a record are left
  out.
\<close>

section \<open>Packages\<close>

datatype DecisionPackageChangeClass =
    ch_resolution | ch_governance_profile | ch_ruleset | ch_approval_rule | ch_electorate | ch_close_mode
  | ch_deadline | ch_management_submission | ch_document | ch_question_cutoff

datatype ComponentType = ct_management_submission | ct_document | ct_question_cutoff

record DecisionPackageComponent =
  dc_type :: ComponentType
  dc_ordinal :: int
  dc_id :: jstring
  dc_version :: int
  dc_sha256 :: jstring

fun component_type_name :: "ComponentType \<Rightarrow> jstring" where
  "component_type_name ct_management_submission = lit ''management_submission''"
| "component_type_name ct_document = lit ''document''"
| "component_type_name ct_question_cutoff = lit ''question_cutoff''"

definition DecisionPackageComponentSchema :: "DecisionPackageComponent \<Rightarrow> bool" where
  "DecisionPackageComponentSchema c \<longleftrightarrow>
     SafePositiveIntegerSchema (dc_ordinal c) \<and> UuidSchema (dc_id c) \<and>
     SafePositiveIntegerSchema (dc_version c) \<and> Sha256HexSchema (dc_sha256 c)"

record RuleOverrideRef =
  rr_id :: jstring
  rr_canonicalSha256 :: jstring

record DecisionPackage =
  dp_voteId :: jstring
  dp_packageVersion :: int
  dp_resolutionVersionId :: jstring
  dp_resolutionSha256 :: jstring
  dp_governanceProfileVersionId :: jstring
  dp_governanceProfileSha256 :: jstring
  dp_rulesetVersionId :: jstring
  dp_rulesetSha256 :: jstring
  dp_approvalRuleId :: jstring
  dp_approvalRuleSha256 :: jstring
  dp_matterEvaluationId :: jstring
  dp_matterEvaluationResultSha256 :: jstring
  dp_selectedRulesetRuleId :: jstring
  dp_selectedRulesetRuleSha256 :: jstring
  dp_ruleOverride :: "RuleOverrideRef option"
  dp_electorateSha256 :: jstring
  dp_closeMode :: TemplateCloseMode
  dp_deadlineAt :: jstring
  dp_components :: "DecisionPackageComponent list"

definition component_key :: "DecisionPackageComponent \<Rightarrow> jstring" where
  "component_key c = component_type_name (dc_type c) @ lit '':'' @ dc_id c @ lit '':'' @ dec_int (dc_version c)"

fun components_ok :: "nat \<Rightarrow> jstring list \<Rightarrow> DecisionPackageComponent list \<Rightarrow> bool" where
  "components_ok index keys [] = True"
| "components_ok index keys (c # cs) =
     (dc_ordinal c = int index + 1 \<and> component_key c \<notin> set keys \<and>
      components_ok (Suc index) (set_add keys (component_key c)) cs)"

definition DecisionPackageSchema :: "DecisionPackage \<Rightarrow> bool" where
  "DecisionPackageSchema p \<longleftrightarrow>
     UuidSchema (dp_voteId p) \<and> SafePositiveIntegerSchema (dp_packageVersion p) \<and>
     UuidSchema (dp_resolutionVersionId p) \<and> Sha256HexSchema (dp_resolutionSha256 p) \<and>
     UuidSchema (dp_governanceProfileVersionId p) \<and> Sha256HexSchema (dp_governanceProfileSha256 p) \<and>
     UuidSchema (dp_rulesetVersionId p) \<and> Sha256HexSchema (dp_rulesetSha256 p) \<and>
     UuidSchema (dp_approvalRuleId p) \<and> Sha256HexSchema (dp_approvalRuleSha256 p) \<and>
     UuidSchema (dp_matterEvaluationId p) \<and> Sha256HexSchema (dp_matterEvaluationResultSha256 p) \<and>
     UuidSchema (dp_selectedRulesetRuleId p) \<and> Sha256HexSchema (dp_selectedRulesetRuleSha256 p) \<and>
     pred_option (\<lambda>r. UuidSchema (rr_id r) \<and> Sha256HexSchema (rr_canonicalSha256 r)) (dp_ruleOverride p) \<and>
     Sha256HexSchema (dp_electorateSha256 p) \<and> Rfc3339UtcSchema (dp_deadlineAt p) \<and>
     length (dp_components p) \<le> 10000 \<and> list_all DecisionPackageComponentSchema (dp_components p) \<and>
     components_ok 0 [] (dp_components p)"

definition component_json :: "DecisionPackageComponent \<Rightarrow> json" where
  "component_json c = JObj
     [(lit ''type'', JStr (component_type_name (dc_type c))), (lit ''ordinal'', JNum (dc_ordinal c)),
      (lit ''id'', JStr (dc_id c)), (lit ''version'', JNum (dc_version c)), (lit ''sha256'', JStr (dc_sha256 c))]"

definition override_ref_json :: "RuleOverrideRef \<Rightarrow> json" where
  "override_ref_json r = JObj [(lit ''id'', JStr (rr_id r)), (lit ''canonicalSha256'', JStr (rr_canonicalSha256 r))]"

definition package_json :: "DecisionPackage \<Rightarrow> json" where
  "package_json p = JObj
     [(lit ''schemaVersion'', jstr ''boardagent.decision-package.v1''), (lit ''voteId'', JStr (dp_voteId p)),
      (lit ''packageVersion'', JNum (dp_packageVersion p)),
      (lit ''resolutionVersionId'', JStr (dp_resolutionVersionId p)),
      (lit ''resolutionSha256'', JStr (dp_resolutionSha256 p)),
      (lit ''governanceProfileVersionId'', JStr (dp_governanceProfileVersionId p)),
      (lit ''governanceProfileSha256'', JStr (dp_governanceProfileSha256 p)),
      (lit ''rulesetVersionId'', JStr (dp_rulesetVersionId p)), (lit ''rulesetSha256'', JStr (dp_rulesetSha256 p)),
      (lit ''approvalRuleId'', JStr (dp_approvalRuleId p)),
      (lit ''approvalRuleSha256'', JStr (dp_approvalRuleSha256 p)),
      (lit ''matterEvaluationId'', JStr (dp_matterEvaluationId p)),
      (lit ''matterEvaluationResultSha256'', JStr (dp_matterEvaluationResultSha256 p)),
      (lit ''selectedRulesetRuleId'', JStr (dp_selectedRulesetRuleId p)),
      (lit ''selectedRulesetRuleSha256'', JStr (dp_selectedRulesetRuleSha256 p)),
      (lit ''ruleOverride'', nullable override_ref_json (dp_ruleOverride p)),
      (lit ''electorateSha256'', JStr (dp_electorateSha256 p)),
      (lit ''closeMode'', JStr (close_mode_name (dp_closeMode p))), (lit ''deadlineAt'', JStr (dp_deadlineAt p)),
      (lit ''components'', JArr (map component_json (dp_components p)))]"

definition decisionPackageHash :: "platform \<Rightarrow> DecisionPackage \<Rightarrow> jstring result" where
  "decisionPackageHash pl p =
     bindr (zparse DecisionPackageSchema p) (\<lambda>q. canonicalSha256 pl (package_json q))"

section \<open>Comparison and replacement\<close>

definition componentDigest :: "platform \<Rightarrow> DecisionPackage \<Rightarrow> ComponentType \<Rightarrow> jstring result" where
  "componentDigest pl p ty =
     canonicalSha256 pl (JArr (map component_json (filter (\<lambda>c. dc_type c = ty) (dp_components p))))"

fun component_change :: "ComponentType \<Rightarrow> DecisionPackageChangeClass" where
  "component_change ct_management_submission = ch_management_submission"
| "component_change ct_document = ch_document"
| "component_change ct_question_cutoff = ch_question_cutoff"

text \<open>The loop over the component types appends the class of each type whose digests differ.\<close>

fun component_changes ::
    "platform \<Rightarrow> DecisionPackage \<Rightarrow> DecisionPackage \<Rightarrow> ComponentType list \<Rightarrow>
     DecisionPackageChangeClass list \<Rightarrow> DecisionPackageChangeClass list result" where
  "component_changes pl oldPackage newPackage [] changes = Inr changes"
| "component_changes pl oldPackage newPackage (ty # tys) changes =
     bindr (componentDigest pl oldPackage ty) (\<lambda>a. bindr (componentDigest pl newPackage ty) (\<lambda>b.
     component_changes pl oldPackage newPackage tys (if a \<noteq> b then changes @ [component_change ty] else changes)))"

text \<open>The comparison of the single fields, in the order the code appends the classes.\<close>

definition field_changes :: "DecisionPackage \<Rightarrow> DecisionPackage \<Rightarrow> bool \<Rightarrow> DecisionPackageChangeClass list" where
  "field_changes old new electorateChanged =
        (if dp_resolutionSha256 old \<noteq> dp_resolutionSha256 new then [ch_resolution] else []) @
        (if dp_governanceProfileVersionId old \<noteq> dp_governanceProfileVersionId new \<or>
            dp_governanceProfileSha256 old \<noteq> dp_governanceProfileSha256 new then [ch_governance_profile] else []) @
        (if dp_rulesetVersionId old \<noteq> dp_rulesetVersionId new \<or> dp_rulesetSha256 old \<noteq> dp_rulesetSha256 new \<or>
            dp_matterEvaluationId old \<noteq> dp_matterEvaluationId new \<or>
            dp_matterEvaluationResultSha256 old \<noteq> dp_matterEvaluationResultSha256 new \<or>
            dp_selectedRulesetRuleId old \<noteq> dp_selectedRulesetRuleId new \<or>
            dp_selectedRulesetRuleSha256 old \<noteq> dp_selectedRulesetRuleSha256 new \<or>
            map_option rr_id (dp_ruleOverride old) \<noteq> map_option rr_id (dp_ruleOverride new) \<or>
            map_option rr_canonicalSha256 (dp_ruleOverride old) \<noteq> map_option rr_canonicalSha256 (dp_ruleOverride new)
         then [ch_ruleset] else []) @
        (if dp_approvalRuleId old \<noteq> dp_approvalRuleId new \<or> dp_approvalRuleSha256 old \<noteq> dp_approvalRuleSha256 new
         then [ch_approval_rule] else []) @
        (if electorateChanged then [ch_electorate] else []) @
        (if dp_closeMode old \<noteq> dp_closeMode new then [ch_close_mode] else []) @
        (if dp_deadlineAt old \<noteq> dp_deadlineAt new then [ch_deadline] else [])"

definition compareDecisionPackages ::
    "platform \<Rightarrow> DecisionPackage \<Rightarrow> DecisionPackage \<Rightarrow> bool \<Rightarrow> DecisionPackageChangeClass list result" where
  "compareDecisionPackages pl prior posterior electorateChanged =
     bindr (zparse DecisionPackageSchema prior) (\<lambda>old. bindr (zparse DecisionPackageSchema posterior) (\<lambda>new.
     component_changes pl old new [ct_management_submission, ct_document, ct_question_cutoff]
       (field_changes old new electorateChanged)))"

record VoteReplacementPlan =
  rp_oldVoteId :: jstring
  rp_newVoteId :: jstring
  rp_oldPackageSha256 :: jstring
  rp_newPackageSha256 :: jstring
  rp_changedComponentClasses :: "DecisionPackageChangeClass list"
  rp_carriedBallotIds :: "jstring list"
  rp_carriedStageIds :: "jstring list"
  rp_carriedProxyGrantIds :: "jstring list"
  rp_revoteRequiredMemberIds :: "jstring list"

definition replacementPlan ::
    "platform \<Rightarrow> DecisionPackage \<Rightarrow> DecisionPackage \<Rightarrow> jstring list \<Rightarrow> jstring list \<Rightarrow> bool \<Rightarrow>
     VoteReplacementPlan result" where
  "replacementPlan pl prior posterior priorBallotPrincipalIds newlyEligibleMemberIds electorateChanged =
     bindr (zparse DecisionPackageSchema prior) (\<lambda>old. bindr (zparse DecisionPackageSchema posterior) (\<lambda>new.
     if dp_voteId old = dp_voteId new then throw (Error ''replacement requires a distinct vote identifier'')
     else
     bindr (compareDecisionPackages pl old new electorateChanged) (\<lambda>changed.
     if length changed = 0 then throw (Error ''replacement requires at least one changed package component'')
     else
     bindr (decisionPackageHash pl old) (\<lambda>oldSha. bindr (decisionPackageHash pl new) (\<lambda>newSha.
     Inr \<lparr>rp_oldVoteId = dp_voteId old, rp_newVoteId = dp_voteId new, rp_oldPackageSha256 = oldSha,
       rp_newPackageSha256 = newSha, rp_changedComponentClasses = changed, rp_carriedBallotIds = [],
       rp_carriedStageIds = [], rp_carriedProxyGrantIds = [],
       rp_revoteRequiredMemberIds =
         sort (filter (\<lambda>m. m \<in> set (js_set newlyEligibleMemberIds)) (js_set priorBallotPrincipalIds))\<rparr>)))))"

record VoteReplacementConsent =
  vr_oldVoteId :: jstring
  vr_newVoteId :: jstring
  vr_newTitle :: jstring
  vr_newResolutionVersionId :: jstring
  vr_newResolutionSha256 :: jstring
  vr_decisionPackageId :: jstring
  vr_newPackageSha256 :: jstring
  vr_reason :: jstring

definition vote_replacement_body :: "VoteReplacementConsent \<Rightarrow> json" where
  "vote_replacement_body i = JObj
     [(lit ''schemaVersion'', jstr ''boardagent.vote-replacement-consent.v1''),
      (lit ''oldVoteId'', JStr (vr_oldVoteId i)), (lit ''newVoteId'', JStr (vr_newVoteId i)),
      (lit ''newTitle'', JStr (vr_newTitle i)),
      (lit ''newResolutionVersionId'', JStr (vr_newResolutionVersionId i)),
      (lit ''newResolutionSha256'', JStr (vr_newResolutionSha256 i)),
      (lit ''decisionPackageId'', JStr (vr_decisionPackageId i)),
      (lit ''newPackageSha256'', JStr (vr_newPackageSha256 i)), (lit ''reason'', JStr (vr_reason i))]"

definition voteReplacementConsentHash :: "platform \<Rightarrow> VoteReplacementConsent \<Rightarrow> jstring result" where
  "voteReplacementConsentHash pl input =
     bindr (parse_id (vr_oldVoteId input)) (\<lambda>oldVoteId.
     bindr (parse_id (vr_newVoteId input)) (\<lambda>newVoteId.
     bindr (parse_id (vr_newResolutionVersionId input)) (\<lambda>newResolutionVersionId.
     bindr (parse_sha (vr_newResolutionSha256 input)) (\<lambda>newResolutionSha256.
     bindr (parse_id (vr_decisionPackageId input)) (\<lambda>decisionPackageId.
     bindr (parse_sha (vr_newPackageSha256 input)) (\<lambda>newPackageSha256.
     canonicalSha256 pl (vote_replacement_body (input\<lparr>vr_oldVoteId := oldVoteId, vr_newVoteId := newVoteId,
       vr_newResolutionVersionId := newResolutionVersionId, vr_newResolutionSha256 := newResolutionSha256,
       vr_decisionPackageId := decisionPackageId, vr_newPackageSha256 := newPackageSha256\<rparr>))))))))"

section \<open>Electorates\<close>

record VoteElectorateEntryInput =
  vi_id :: jstring
  vi_memberId :: jstring
  vi_membershipVersionId :: jstring
  vi_isChair :: "bool option"
  vi_votingWeight :: int
  vi_eligibilitySnapshot :: json

record PreparedVoteElectorateEntry =
  pv_id :: jstring
  pv_memberId :: jstring
  pv_membershipVersionId :: jstring
  pv_isChair :: bool
  pv_votingWeight :: int
  pv_eligibilitySnapshot :: json
  pv_eligibilitySha256 :: jstring

record PreparedVoteElectorate =
  pe_voteId :: jstring
  pe_entries :: "PreparedVoteElectorateEntry list"
  pe_electorateSha256 :: jstring

definition MAX_ELECTORATE_WEIGHT :: int where
  "MAX_ELECTORATE_WEIGHT = 1000000000"

definition prepare_entry :: "platform \<Rightarrow> VoteElectorateEntryInput \<Rightarrow> PreparedVoteElectorateEntry result" where
  "prepare_entry pl e =
     bindr (parse_id (vi_id e)) (\<lambda>id.
     bindr (parse_id (vi_memberId e)) (\<lambda>memberId.
     bindr (parse_id (vi_membershipVersionId e)) (\<lambda>membershipVersionId.
     if vi_votingWeight e < 1 \<or> MAX_ELECTORATE_WEIGHT < vi_votingWeight e
       then throw (RangeError ''vote electorate weight must be between 1 and 1000000000'')
     else bindr (canonicalSha256 pl (vi_eligibilitySnapshot e)) (\<lambda>eligibilitySha256.
     Inr \<lparr>pv_id = id, pv_memberId = memberId, pv_membershipVersionId = membershipVersionId,
       pv_isChair = or_else (vi_isChair e) False, pv_votingWeight = vi_votingWeight e,
       pv_eligibilitySnapshot = vi_eligibilitySnapshot e, pv_eligibilitySha256 = eligibilitySha256\<rparr>))))"

definition electorate_entry_json :: "PreparedVoteElectorateEntry \<Rightarrow> json" where
  "electorate_entry_json e = JObj
     [(lit ''memberId'', JStr (pv_memberId e)), (lit ''membershipVersionId'', JStr (pv_membershipVersionId e)),
      (lit ''seatRole'', jstr ''voting_member''), (lit ''isChair'', JBool (pv_isChair e)),
      (lit ''votingWeight'', JNum (pv_votingWeight e)), (lit ''eligibilitySnapshot'', pv_eligibilitySnapshot e),
      (lit ''eligibilitySha256'', JStr (pv_eligibilitySha256 e))]"

definition electorate_json :: "jstring \<Rightarrow> PreparedVoteElectorateEntry list \<Rightarrow> json" where
  "electorate_json voteId entries = JObj
     [(lit ''schemaVersion'', jstr ''boardagent.vote-electorate.v1''), (lit ''voteId'', JStr voteId),
      (lit ''entries'', JArr (map electorate_entry_json entries))]"

definition prepareVoteElectorate ::
    "platform \<Rightarrow> (jstring \<Rightarrow> jstring \<Rightarrow> int) \<Rightarrow> jstring \<Rightarrow> VoteElectorateEntryInput list \<Rightarrow>
     PreparedVoteElectorate result" where
  "prepareVoteElectorate pl lc voteIdInput input =
     bindr (parse_id voteIdInput) (\<lambda>voteId.
     if length input < 1 \<or> 10000 < length input
       then throw (RangeError ''vote electorate must contain 1 through 10000 voting members'')
     else
     bindr (mapr (prepare_entry pl) input) (\<lambda>prepared.
     let entries = toSorted (\<lambda>left right. lc (pv_memberId left) (pv_memberId right)) prepared in
     if length (js_set (map pv_id entries)) \<noteq> length entries
       then throw (TypeError ''vote electorate row IDs must be unique'')
     else if length (js_set (map pv_memberId entries)) \<noteq> length entries
       then throw (TypeError ''vote electorate members must be unique'')
     else if 1 < length (filter pv_isChair entries)
       then throw (TypeError ''vote electorate may contain at most one chair'')
     else
     bindr (canonicalSha256 pl (electorate_json voteId entries)) (\<lambda>sha.
     Inr \<lparr>pe_voteId = voteId, pe_entries = entries, pe_electorateSha256 = sha\<rparr>)))"

definition evidence_json :: "PreparedVoteElectorateEntry list \<Rightarrow> json" where
  "evidence_json entries = JObj
     [(lit ''schemaVersion'', jstr ''boardagent.vote-electorate-evidence.v1''),
      (lit ''entries'', JArr (map electorate_entry_json entries))]"

definition evidence_entry :: "PreparedVoteElectorateEntry \<Rightarrow> PreparedVoteElectorateEntry result" where
  "evidence_entry e =
     bindr (parse_id (pv_memberId e)) (\<lambda>memberId.
     bindr (parse_id (pv_membershipVersionId e)) (\<lambda>membershipVersionId.
     bindr (parse_sha (pv_eligibilitySha256 e)) (\<lambda>sha.
     Inr (e\<lparr>pv_memberId := memberId, pv_membershipVersionId := membershipVersionId, pv_eligibilitySha256 := sha\<rparr>))))"

text \<open>The row identifier of an entry is no part of the evidence.\<close>

definition voteElectorateEvidenceHash ::
    "platform \<Rightarrow> (jstring \<Rightarrow> jstring \<Rightarrow> int) \<Rightarrow> PreparedVoteElectorateEntry list \<Rightarrow> jstring result" where
  "voteElectorateEvidenceHash pl lc input =
     bindr (mapr evidence_entry input) (\<lambda>parsed.
     let entries = toSorted (\<lambda>left right. lc (pv_memberId left) (pv_memberId right)) parsed in
     if length (js_set (map pv_memberId entries)) \<noteq> length entries
       then throw (TypeError ''vote electorate evidence members must be unique'')
     else
     bindr (mapr (\<lambda>e.
         if \<not> isSafeInteger (pv_votingWeight e) \<or> pv_votingWeight e < 1 \<or> MAX_ELECTORATE_WEIGHT < pv_votingWeight e
           then throw (TypeError ''vote electorate semantic evidence is invalid'')
         else bindr (canonicalSha256 pl (pv_eligibilitySnapshot e)) (\<lambda>sha.
           ensure (sha = pv_eligibilitySha256 e) (TypeError ''vote electorate semantic evidence is invalid''))) entries)
       (\<lambda>_. canonicalSha256 pl (evidence_json entries)))"


section \<open>Facts\<close>

lemma component_type_name_inj: "component_type_name a = component_type_name b \<longleftrightarrow> a = b"
  by (cases a; cases b) auto

lemma component_json_inj: "jval_of (component_json c) = jval_of (component_json d) \<longleftrightarrow> c = d"
  unfolding component_json_def by (subst jval_obj_eq) (auto simp: component_type_name_inj)

lemma component_json_ok:
  "DecisionPackageComponentSchema c \<Longrightarrow> js_json (component_json c) \<and> index_free (component_json c)"
  by (simp add: component_json_def DecisionPackageComponentSchema_def SafePositiveIntegerSchema_def)

abbreviation of_type :: "ComponentType \<Rightarrow> DecisionPackage \<Rightarrow> DecisionPackageComponent list" where
  "of_type ty p \<equiv> filter (\<lambda>c. dc_type c = ty) (dp_components p)"

abbreviation components_json :: "DecisionPackageComponent list \<Rightarrow> json" where
  "components_json cs \<equiv> JArr (map component_json cs)"

lemma components_json_ok:
  assumes "DecisionPackageSchema p"
  shows "js_json (components_json (of_type ty p)) \<and> index_free (components_json (of_type ty p))"
  using assms component_json_ok by (auto simp: DecisionPackageSchema_def list_all_iff)

lemma componentDigest_eq:
  assumes "DecisionPackageSchema p" and "DecisionPackageSchema q"
    and "componentDigest pl p ty = Inr a" and "componentDigest pl q ty = Inr b"
    and "\<not> sha256_collision (canonical_bytes (components_json (of_type ty p)))
      (canonical_bytes (components_json (of_type ty q)))"
  shows "a = b \<longleftrightarrow> of_type ty p = of_type ty q"
proof
  assume "a = b"
  with canonicalSha256_binding [of "components_json (of_type ty p)" "components_json (of_type ty q)" pl a]
    components_json_ok [OF assms(1), of ty] components_json_ok [OF assms(2), of ty] assms(3,4,5)
  have "jval_of (components_json (of_type ty p)) = jval_of (components_json (of_type ty q))"
    by (auto simp: componentDigest_def simp del: jval_of.simps index_free.simps js_json.simps)
  then show "of_type ty p = of_type ty q" by (simp only: jarr_inj [OF component_json_inj])
qed (use assms(3,4) in \<open>simp add: componentDigest_def\<close>)

lemma component_changes_eq:
  "component_changes pl old new tys changes = Inr cs \<Longrightarrow>
   (\<forall>ty\<in>set tys. (\<exists>a. componentDigest pl old ty = Inr a) \<and> (\<exists>b. componentDigest pl new ty = Inr b)) \<and>
   cs = changes @ map component_change (filter (\<lambda>ty. componentDigest pl old ty \<noteq> componentDigest pl new ty) tys)"
proof (induction tys arbitrary: changes)
  case (Cons ty tys)
  then obtain a b where d: "componentDigest pl old ty = Inr a" "componentDigest pl new ty = Inr b"
    and r: "component_changes pl old new tys (if a \<noteq> b then changes @ [component_change ty] else changes) = Inr cs"
    by (auto simp: bindr_eq_Inr_iff)
  show ?case using Cons.IH [OF r] d by (cases "a = b") auto
qed simp

lemma ordinals_contiguous:
  "components_ok i keys cs \<Longrightarrow> map dc_ordinal cs = map (\<lambda>k. int (i + k) + 1) [0..<length cs]"
proof (induction cs arbitrary: i keys)
  case (Cons c cs)
  then have "map dc_ordinal cs = map (\<lambda>k. int (Suc i + k) + 1) [0..<length cs]" by auto
  moreover have "[0..<length (c # cs)] = 0 # map Suc [0..<length cs]"
    by (simp add: upt_conv_Cons map_Suc_upt del: upt_Suc)
  ultimately show ?case using Cons.prems by simp
qed simp

lemma components_determined:
  assumes "DecisionPackageSchema p" and "DecisionPackageSchema q" and "\<And>ty. of_type ty p = of_type ty q"
  shows "dp_components p = dp_components q"
proof -
  have s: "set (dp_components p) = set (dp_components q)"
  proof (rule set_eqI)
    fix c
    have "c \<in> set (dp_components p) \<longleftrightarrow> c \<in> set (of_type (dc_type c) p)" by simp
    also have "\<dots> \<longleftrightarrow> c \<in> set (dp_components q)" by (simp add: assms(3))
    finally show "c \<in> set (dp_components p) \<longleftrightarrow> c \<in> set (dp_components q)" .
  qed
  have contiguous: "map dc_ordinal (dp_components r) = map (\<lambda>k. int k + 1) [0..<length (dp_components r)]"
    if "DecisionPackageSchema r" for r
    using ordinals_contiguous [of 0 "[]" "dp_components r"] that by (simp add: DecisionPackageSchema_def)
  have sorted: "sorted (map dc_ordinal (dp_components r)) \<and> distinct (map dc_ordinal (dp_components r))"
    if "DecisionPackageSchema r" for r
    unfolding contiguous [OF that] by (simp add: sorted_map sorted_wrt_upt distinct_map inj_on_def sorted_wrt_mono_rel [OF _ sorted_wrt_upt])
  show ?thesis
    using map_sorted_distinct_set_unique [of dc_ordinal "dp_components p" "dp_components q"] s
      sorted [OF assms(1)] sorted [OF assms(2)]
    by (auto simp: distinct_map)
qed

lemma override_ref_eq:
  "map_option rr_id x = map_option rr_id y \<Longrightarrow> map_option rr_canonicalSha256 x = map_option rr_canonicalSha256 y \<Longrightarrow> x = y"
  for x y :: "RuleOverrideRef option"
  by (cases x; cases y) auto

text \<open>What the comparison of a package leaves out: its vote, its number, the row of its resolution
  and the vote-bound electorate hash.\<close>

abbreviation rebased :: "DecisionPackage \<Rightarrow> DecisionPackage \<Rightarrow> DecisionPackage" where
  "rebased p q \<equiv> q\<lparr>dp_voteId := dp_voteId p, dp_packageVersion := dp_packageVersion p,
     dp_resolutionVersionId := dp_resolutionVersionId p, dp_electorateSha256 := dp_electorateSha256 p\<rparr>"

lemma when_nil: "(if c then [x] else []) = [] \<longleftrightarrow> \<not> c"
  by simp

lemma rebased_eq: "rebased p q = p \<longleftrightarrow> field_changes p q False = [] \<and> dp_components p = dp_components q"
proof
  assume "rebased p q = p"
  then have "q = p\<lparr>dp_voteId := dp_voteId q, dp_packageVersion := dp_packageVersion q,
      dp_resolutionVersionId := dp_resolutionVersionId q, dp_electorateSha256 := dp_electorateSha256 q\<rparr>"
    by (cases p; cases q) simp
  then obtain a b c d where "q = p\<lparr>dp_voteId := a, dp_packageVersion := b, dp_resolutionVersionId := c, dp_electorateSha256 := d\<rparr>"
    by blast
  then show "field_changes p q False = [] \<and> dp_components p = dp_components q" by (simp add: field_changes_def)
next
  assume "field_changes p q False = [] \<and> dp_components p = dp_components q"
  then have e: "field_changes p q False = []" and c: "dp_components p = dp_components q" by simp_all
  note f = e [unfolded field_changes_def append_is_Nil_conv when_nil de_Morgan_disj not_not]
  then have r: "dp_ruleOverride p = dp_ruleOverride q" by (intro override_ref_eq) blast+
  show "rebased p q = p" by (rule DecisionPackage.equality) (simp_all add: f c r)
qed

lemma field_changes_nil: "field_changes p q e = [] \<longleftrightarrow> \<not> e \<and> field_changes p q False = []"
  unfolding field_changes_def append_is_Nil_conv when_nil by blast

lemma compare_eq:
  assumes "compareDecisionPackages pl old new e = Inr cs"
  shows "DecisionPackageSchema old \<and> DecisionPackageSchema new \<and>
    (\<forall>ty. (\<exists>a. componentDigest pl old ty = Inr a) \<and> (\<exists>b. componentDigest pl new ty = Inr b)) \<and>
    cs = field_changes old new e @ map component_change (filter (\<lambda>ty. componentDigest pl old ty \<noteq> componentDigest pl new ty)
      [ct_management_submission, ct_document, ct_question_cutoff])"
proof -
  have all: "ty \<in> set [ct_management_submission, ct_document, ct_question_cutoff]" for ty
    by (cases ty) simp_all
  from assms have s: "DecisionPackageSchema old" "DecisionPackageSchema new" and
    c: "component_changes pl old new [ct_management_submission, ct_document, ct_question_cutoff] (field_changes old new e) = Inr cs"
    by (simp_all add: compareDecisionPackages_def bindr_eq_Inr_iff zparse_def del: component_changes.simps split: if_splits)
  show ?thesis using s component_changes_eq [OF c] all by blast
qed


section \<open>Interfaces\<close>

lemma change_names_inj [json_inj]:
  "close_mode_name a = close_mode_name b \<longleftrightarrow> a = b"
  by (cases a; cases b) auto

lemma override_ref_json_inj: "jval_of (override_ref_json r) = jval_of (override_ref_json s) \<longleftrightarrow> r = s"
  unfolding override_ref_json_def by (subst jval_obj_eq) auto

lemma nullable_inj:
  assumes "\<And>x y. jval_of (f x) = jval_of (f y) \<longleftrightarrow> x = y" and "\<And>x. jval_of (f x) \<noteq> jval_of JNull"
  shows "jval_of (nullable f u) = jval_of (nullable f v) \<longleftrightarrow> u = v"
  using assms by (cases u; cases v) (auto, metis+)

lemma override_ref_nullable_inj:
  "jval_of (nullable override_ref_json u) = jval_of (nullable override_ref_json v) \<longleftrightarrow> u = v"
  by (rule nullable_inj [OF override_ref_json_inj]) (simp add: override_ref_json_def)

lemma package_json_inj: "jval_of (package_json p) = jval_of (package_json q) \<Longrightarrow> p = q"
  unfolding package_json_def
  by (subst (asm) jval_obj_eq)
    (auto simp: change_names_inj jarr_inj [OF component_json_inj] override_ref_nullable_inj
       simp del: jval_of.simps(5) intro!: DecisionPackage.equality)

lemma package_json_ok:
  "DecisionPackageSchema p \<Longrightarrow> js_json (package_json p) \<and> index_free (package_json p)"
  using component_json_ok
  by (cases "dp_ruleOverride p")
    (auto simp: package_json_def DecisionPackageSchema_def SafePositiveIntegerSchema_def list_all_iff override_ref_json_def)

interpretation decision_package: tagged_hash decisionPackageHash package_json
  "lit ''boardagent.decision-package.v1''"
proof
  fix pl x y h
  show "decisionPackageHash pl x = Inr h \<Longrightarrow> canonicalSha256 pl (package_json x) = Inr h"
    by (auto simp: decisionPackageHash_def bindr_eq_Inr_iff)
  show "decisionPackageHash pl x = Inr h \<Longrightarrow> js_json (package_json x) \<and> index_free (package_json x)"
    by (auto simp: decisionPackageHash_def bindr_eq_Inr_iff intro: package_json_ok [THEN conjunct1] package_json_ok [THEN conjunct2])
  show "jval_of (package_json x) = jval_of (package_json y) \<Longrightarrow> x = y" by (rule package_json_inj)
  show "jfield (lit ''schemaVersion'') (package_json x) = Some (JStr (lit ''boardagent.decision-package.v1''))"
    by (simp add: package_json_def)
qed

interpretation vote_replacement: tagged_hash voteReplacementConsentHash vote_replacement_body
  "lit ''boardagent.vote-replacement-consent.v1''"
proof
  fix pl x y h
  show "voteReplacementConsentHash pl x = Inr h \<Longrightarrow> canonicalSha256 pl (vote_replacement_body x) = Inr h"
    by (auto simp: voteReplacementConsentHash_def bindr_eq_Inr_iff)
  show "js_json (vote_replacement_body x) \<and> index_free (vote_replacement_body x)"
    by (simp add: vote_replacement_body_def)
  show "jval_of (vote_replacement_body x) = jval_of (vote_replacement_body y) \<Longrightarrow> x = y"
    unfolding vote_replacement_body_def
    by (subst (asm) jval_obj_eq) (auto intro!: VoteReplacementConsent.equality)
  show "jfield (lit ''schemaVersion'') (vote_replacement_body x) =
      Some (JStr (lit ''boardagent.vote-replacement-consent.v1''))"
    by (simp add: vote_replacement_body_def)
qed

section \<open>Prepared electorates as tally input\<close>

text \<open>The seat of a prepared entry, with the eligibility and the recusal the vote records for its member.\<close>

definition seat_of :: "(jstring \<Rightarrow> bool) \<Rightarrow> (jstring \<Rightarrow> bool) \<Rightarrow> PreparedVoteElectorateEntry \<Rightarrow> ElectorSeat" where
  "seat_of elig rec e = \<lparr>es_memberId = pv_memberId e, es_role = voting_member, es_weight = pv_votingWeight e,
     es_eligible = elig (pv_memberId e), es_recused = rec (pv_memberId e), es_chair = pv_isChair e\<rparr>"

lemma prepare_entry_eq:
  "prepare_entry pl e = Inr x \<Longrightarrow> pv_memberId x = vi_memberId e \<and> pv_membershipVersionId x = vi_membershipVersionId e \<and>
     pv_votingWeight x = vi_votingWeight e \<and> pv_isChair x = (vi_isChair e = Some True) \<and>
     1 \<le> pv_votingWeight x \<and> pv_votingWeight x \<le> MAX_ELECTORATE_WEIGHT"
  by (cases "vi_isChair e") (auto simp: prepare_entry_def bindr_eq_Inr_iff or_else_def split: if_splits)

lemma prepared_entries:
  assumes "prepareVoteElectorate pl lc v input = Inr p"
  obtains xs where "mapr (prepare_entry pl) input = Inr xs" and "mset (pe_entries p) = mset xs"
    and "distinct (map pv_memberId (pe_entries p))" and "length (filter pv_isChair (pe_entries p)) \<le> 1"
proof -
  from assms obtain xs where xs: "mapr (prepare_entry pl) input = Inr xs"
    by (auto simp: prepareVoteElectorate_def bindr_eq_Inr_iff split: if_splits)
  define es where "es = toSorted (\<lambda>left right. lc (pv_memberId left) (pv_memberId right)) xs"
  have "length (js_set (map pv_memberId es)) = length (map pv_memberId es)" and "length (filter pv_isChair es) \<le> 1"
    and p: "pe_entries p = es"
    using assms by (auto simp: prepareVoteElectorate_def bindr_eq_Inr_iff Let_def xs es_def [symmetric] split: if_splits)
  moreover have "mset es = mset xs" by (simp add: es_def)
  ultimately show thesis using that [OF xs] by (simp only: p length_js_set_iff)
qed

lemma prepared_entries_match:
  assumes "mapr (prepare_entry pl) input = Inr xs"
  shows "map (\<lambda>x. (pv_memberId x, pv_membershipVersionId x, pv_votingWeight x, pv_isChair x)) xs =
      map (\<lambda>e. (vi_memberId e, vi_membershipVersionId e, vi_votingWeight e, vi_isChair e = Some True)) input"
    and "x \<in> set xs \<Longrightarrow> 1 \<le> pv_votingWeight x \<and> pv_votingWeight x \<le> MAX_ELECTORATE_WEIGHT"
proof -
  have l: "list_all2 (\<lambda>e x. prepare_entry pl e = Inr x) input xs" using assms by (simp add: mapr_Inr_iff)
  then show "map (\<lambda>x. (pv_memberId x, pv_membershipVersionId x, pv_votingWeight x, pv_isChair x)) xs =
      map (\<lambda>e. (vi_memberId e, vi_membershipVersionId e, vi_votingWeight e, vi_isChair e = Some True)) input"
    by (induction rule: list_all2_induct) (auto dest: prepare_entry_eq)
  from l show "x \<in> set xs \<Longrightarrow> 1 \<le> pv_votingWeight x \<and> pv_votingWeight x \<le> MAX_ELECTORATE_WEIGHT"
    by (induction rule: list_all2_induct) (auto dest: prepare_entry_eq)
qed

lemma seats_ok_electorate:
  assumes "distinct (map pv_memberId es)" and "length (filter pv_isChair es) \<le> 1"
    and "\<And>x. x \<in> set es \<Longrightarrow> 1 \<le> pv_votingWeight x \<and> pv_votingWeight x \<le> MAX_ELECTORATE_WEIGHT"
  shows "electorate_ok (map (seat_of elig rec) es)"
proof -
  have "0 < pv_votingWeight x \<and> pv_votingWeight x \<le> MAX_VOTING_WEIGHT" if "x \<in> set es" for x
    using assms(3) [OF that] by (simp add: MAX_ELECTORATE_WEIGHT_def MAX_VOTING_WEIGHT_def)
  with assms(1,2) show ?thesis
    by (simp add: electorate_ok_def comp_def list_all_iff seat_ok_def seat_of_def filter_map)
qed

lemma seats_eligible:
  "spec_eligible (map (seat_of elig rec) es) =
     (\<Sum>x\<leftarrow>es. if elig (pv_memberId x) \<and> \<not> rec (pv_memberId x) then pv_votingWeight x else 0)"
  by (induction es) (auto simp: spec_eligible_def seat_of_def eligibleSeat_def)

section \<open>Samples\<close>

definition wit_component :: "ComponentType \<Rightarrow> int \<Rightarrow> DecisionPackageComponent" where
  "wit_component ty n = \<lparr>dc_type = ty, dc_ordinal = n, dc_id = wit_uuid, dc_version = 1, dc_sha256 = wit_sha\<rparr>"

definition wit_package :: "jstring \<Rightarrow> jstring \<Rightarrow> DecisionPackage" where
  "wit_package voteId deadline = \<lparr>dp_voteId = voteId, dp_packageVersion = 1, dp_resolutionVersionId = wit_uuid,
     dp_resolutionSha256 = wit_sha, dp_governanceProfileVersionId = wit_uuid, dp_governanceProfileSha256 = wit_sha,
     dp_rulesetVersionId = wit_uuid, dp_rulesetSha256 = wit_sha, dp_approvalRuleId = wit_uuid,
     dp_approvalRuleSha256 = wit_sha, dp_matterEvaluationId = wit_uuid, dp_matterEvaluationResultSha256 = wit_sha,
     dp_selectedRulesetRuleId = wit_uuid, dp_selectedRulesetRuleSha256 = wit_sha, dp_ruleOverride = None,
     dp_electorateSha256 = wit_sha, dp_closeMode = tc_secretariat_confirmed, dp_deadlineAt = deadline,
     dp_components = [wit_component ct_document 1]\<rparr>"

definition wit_time :: "jstring" where
  "wit_time = lit ''2026-02-01T00:00:00.000000Z''"

definition wit_time' :: "jstring" where
  "wit_time' = lit ''2026-03-01T00:00:00.000000Z''"

lemma wit_times: "Rfc3339UtcSchema wit_time" "Rfc3339UtcSchema wit_time'" "wit_time \<noteq> wit_time'"
  by (code_simp, code_simp, simp add: wit_time_def wit_time'_def)

lemma wit_uuid_parses: "UuidSchema wit_uuid" "UuidSchema wit_uuid'"
  using wit_uuid_ok by simp_all

lemma wit_package_ok:
  "UuidSchema v \<Longrightarrow> Rfc3339UtcSchema d \<Longrightarrow> DecisionPackageSchema (wit_package v d)"
  using wit_uuid_parses
  by (simp add: DecisionPackageSchema_def wit_package_def wit_component_def DecisionPackageComponentSchema_def
      SafePositiveIntegerSchema_def isSafeInteger_def MAX_SAFE_INTEGER_def)

lemma wit_digests: "\<exists>h. componentDigest pl (wit_package v d) ty = Inr h"
  unfolding componentDigest_def
  by (rule hash_defined)
    (simp_all add: wit_package_def wit_component_def component_json_def MAX_JSON_CONTAINER_DEPTH_def)

lemma wit_same_digest: "componentDigest pl (wit_package v d) ty = componentDigest pl (wit_package v' d') ty"
  by (simp add: componentDigest_def wit_package_def)

lemma wit_comparison: "compareDecisionPackages pl (wit_package wit_uuid wit_time) (wit_package wit_uuid' wit_time') False = Inr [ch_deadline]"
proof -
  have d: "\<exists>h. componentDigest pl (wit_package wit_uuid wit_time) ty = Inr h \<and>
      componentDigest pl (wit_package wit_uuid' wit_time') ty = Inr h" for ty
    using wit_digests [of pl wit_uuid wit_time ty] wit_same_digest [of pl wit_uuid wit_time ty wit_uuid' wit_time'] by metis
  obtain a b c where "componentDigest pl (wit_package wit_uuid wit_time) ct_management_submission = Inr a"
    "componentDigest pl (wit_package wit_uuid' wit_time') ct_management_submission = Inr a"
    "componentDigest pl (wit_package wit_uuid wit_time) ct_document = Inr b"
    "componentDigest pl (wit_package wit_uuid' wit_time') ct_document = Inr b"
    "componentDigest pl (wit_package wit_uuid wit_time) ct_question_cutoff = Inr c"
    "componentDigest pl (wit_package wit_uuid' wit_time') ct_question_cutoff = Inr c"
    using d [of ct_management_submission] d [of ct_document] d [of ct_question_cutoff] by blast
  moreover have "field_changes (wit_package wit_uuid wit_time) (wit_package wit_uuid' wit_time') False = [ch_deadline]"
    by (simp add: field_changes_def wit_package_def wit_times)
  ultimately show ?thesis
    by (simp add: compareDecisionPackages_def zparse_ok wit_package_ok wit_uuid_parses wit_times)
qed

definition wit_entry :: "jstring \<Rightarrow> bool option \<Rightarrow> int \<Rightarrow> VoteElectorateEntryInput" where
  "wit_entry m c w = \<lparr>vi_id = m, vi_memberId = m, vi_membershipVersionId = m, vi_isChair = c, vi_votingWeight = w,
     vi_eligibilitySnapshot = JNull\<rparr>"

definition wit_entries :: "VoteElectorateEntryInput list" where
  "wit_entries = [wit_entry wit_uuid None 2, wit_entry wit_uuid' (Some True) 3]"

lemma wit_prepared: "\<exists>p. prepareVoteElectorate pl (\<lambda>x y. - 1) wit_uuid wit_entries = Inr p \<and>
    map pv_memberId (pe_entries p) = [wit_uuid, wit_uuid']"
proof -
  obtain h where h: "canonicalSha256 pl JNull = Inr h"
    using hash_defined [of JNull pl] by (auto simp: MAX_JSON_CONTAINER_DEPTH_def)
  let ?e = "\<lambda>m c w. \<lparr>pv_id = m, pv_memberId = m, pv_membershipVersionId = m, pv_isChair = c, pv_votingWeight = w,
     pv_eligibilitySnapshot = JNull, pv_eligibilitySha256 = h\<rparr>"
  let ?es = "[?e wit_uuid False 2, ?e wit_uuid' True 3]"
  obtain k where k: "canonicalSha256 pl (electorate_json wit_uuid ?es) = Inr k"
    using hash_defined [of "electorate_json wit_uuid ?es" pl] scalar_digest [OF wit_digest [OF h]]
    by (auto simp: electorate_json_def electorate_entry_json_def MAX_JSON_CONTAINER_DEPTH_def)
  have p: "mapr (prepare_entry pl) wit_entries = Inr ?es"
    using h by (simp add: wit_entries_def wit_entry_def prepare_entry_def or_else_def zparse_ok MAX_ELECTORATE_WEIGHT_def
        wit_uuid_parses)
  have l: "length wit_entries = 2" by (simp add: wit_entries_def)
  have s: "toSorted (\<lambda>x y. - 1) ?es = ?es" by (simp add: toSorted_def)
  show ?thesis
    using wit_uuid_ok(3) by (simp add: prepareVoteElectorate_def zparse_ok wit_uuid_parses l p s k Let_def js_set_distinct)
qed

section \<open>Properties\<close>

text \<open>Property C38: a prepared electorate is a valid input of the tally. It holds the members of the request, each
  once, with their membership version, weight and chair mark and with at most one chair; whatever eligibility and
  recusals the vote records for them, every admissible set of ballots has a tally, whose eligible weight is
  the sum of the requested weights of the members that are eligible and not recused.\<close>

theorem prepared_electorate_tallies:
  assumes "prepareVoteElectorate pl lc v input = Inr p"
    and "ballots_ok (map (seat_of elig rec) (pe_entries p)) B"
  shows "mset (map (\<lambda>x. (pv_memberId x, pv_membershipVersionId x, pv_votingWeight x, pv_isChair x)) (pe_entries p)) =
      mset (map (\<lambda>e. (vi_memberId e, vi_membershipVersionId e, vi_votingWeight e, vi_isChair e = Some True)) input) \<and>
    electorate_ok (map (seat_of elig rec) (pe_entries p)) \<and>
    (\<exists>t. tallyVote (map (seat_of elig rec) (pe_entries p)) B R = Inr t \<and>
       vt_eligibleWeight t =
         (\<Sum>e\<leftarrow>input. if elig (vi_memberId e) \<and> \<not> rec (vi_memberId e) then vi_votingWeight e else 0))"
proof -
  obtain xs where xs: "mapr (prepare_entry pl) input = Inr xs" "mset (pe_entries p) = mset xs"
    and d: "distinct (map pv_memberId (pe_entries p))" "length (filter pv_isChair (pe_entries p)) \<le> 1"
    using prepared_entries [OF assms(1)] by blast
  note m = prepared_entries_match [OF xs(1)]
  have s: "set (pe_entries p) = set xs" using xs(2) by (rule mset_eq_setD)
  have E: "electorate_ok (map (seat_of elig rec) (pe_entries p))"
    using m(2) s by (intro seats_ok_electorate d) simp
  let ?w = "\<lambda>(i, _, w, _). if elig i \<and> \<not> rec i then w else (0 :: int)"
  have "spec_eligible (map (seat_of elig rec) (pe_entries p)) =
      sum_list (map ?w (map (\<lambda>x. (pv_memberId x, pv_membershipVersionId x, pv_votingWeight x, pv_isChair x)) (pe_entries p)))"
    unfolding seats_eligible by (simp add: comp_def)
  also have "\<dots> = sum_list (map ?w (map (\<lambda>e. (vi_memberId e, vi_membershipVersionId e, vi_votingWeight e, vi_isChair e = Some True)) input))"
    unfolding m(1) [symmetric] by (simp only: sum_mset_sum_list [symmetric] mset_map xs(2))
  finally have w: "spec_eligible (map (seat_of elig rec) (pe_entries p)) =
      (\<Sum>e\<leftarrow>input. if elig (vi_memberId e) \<and> \<not> rec (vi_memberId e) then vi_votingWeight e else 0)"
    by (simp add: comp_def)
  have "mset (map (\<lambda>x. (pv_memberId x, pv_membershipVersionId x, pv_votingWeight x, pv_isChair x)) (pe_entries p)) =
      mset (map (\<lambda>e. (vi_memberId e, vi_membershipVersionId e, vi_votingWeight e, vi_isChair e = Some True)) input)"
    unfolding m(1) [symmetric] by (simp add: xs(2))
  moreover have "tallyVote (map (seat_of elig rec) (pe_entries p)) B R =
      Inr (tally_spec (map (seat_of elig rec) (pe_entries p)) B R)"
    using E assms(2) by (simp add: tallyVote_Inr_iff)
  ultimately show ?thesis using E w by (simp add: tally_spec_def Let_def)
qed

theorem prepared_electorate_tallies_witness:
  "\<exists>p t. prepareVoteElectorate plain_platform (\<lambda>x y. - 1) wit_uuid wit_entries = Inr p \<and>
     tallyVote (map (seat_of (\<lambda>_. True) (\<lambda>m. m = wit_uuid)) (pe_entries p)) [] wit_rule = Inr t \<and> vt_eligibleWeight t = 3"
proof -
  obtain p where p: "prepareVoteElectorate plain_platform (\<lambda>x y. - 1) wit_uuid wit_entries = Inr p"
    using wit_prepared by blast
  have "ballots_ok E []" for E by (simp add: ballots_ok_def)
  note prepared_electorate_tallies [OF p this, of "\<lambda>_. True" "\<lambda>m. m = wit_uuid" wit_rule]
  moreover have "(\<Sum>e\<leftarrow>wit_entries. if True \<and> vi_memberId e \<noteq> wit_uuid then vi_votingWeight e else 0) = 3"
    using wit_uuid_ok(3) [symmetric] by (simp add: wit_entries_def wit_entry_def)
  ultimately show ?thesis using p by auto
qed

text \<open>Property C39: the comparison of two decision packages reports no change exactly when the decision is
  the same: the successor differs from the package at most in the vote, the package number, the row of the resolution and the
  vote-bound electorate hash, and its electorate did not change. The only other possibility is
  a collision between the digests of the components of one type.\<close>

theorem no_change_iff_same_decision:
  assumes "compareDecisionPackages pl old new electorateChanged = Inr cs"
    and "\<And>ty. \<not> sha256_collision (canonical_bytes (components_json (of_type ty old)))
      (canonical_bytes (components_json (of_type ty new)))"
  shows "cs = [] \<longleftrightarrow> \<not> electorateChanged \<and>
    new\<lparr>dp_voteId := dp_voteId old, dp_packageVersion := dp_packageVersion old,
      dp_resolutionVersionId := dp_resolutionVersionId old, dp_electorateSha256 := dp_electorateSha256 old\<rparr> = old"
proof -
  note c = compare_eq [OF assms(1)]
  have ty: "componentDigest pl old ty = componentDigest pl new ty \<longleftrightarrow> of_type ty old = of_type ty new" for ty
  proof -
    obtain a b where d: "componentDigest pl old ty = Inr a" "componentDigest pl new ty = Inr b" using c by blast
    show ?thesis using componentDigest_eq [OF _ _ d assms(2)] c by (simp only: d sum.inject)
  qed
  have all: "ty \<in> set [ct_management_submission, ct_document, ct_question_cutoff]" for ty by (cases ty) simp_all
  have "cs = [] \<longleftrightarrow> field_changes old new electorateChanged = [] \<and>
      (\<forall>ty\<in>set [ct_management_submission, ct_document, ct_question_cutoff]. componentDigest pl old ty = componentDigest pl new ty)"
    using c by (simp only: append_is_Nil_conv map_is_Nil_conv filter_empty_conv not_not)
  also have "\<dots> \<longleftrightarrow> field_changes old new electorateChanged = [] \<and> (\<forall>ty. of_type ty old = of_type ty new)"
    using all by (auto simp: ty simp del: set_simps)
  also have "(\<forall>ty. of_type ty old = of_type ty new) \<longleftrightarrow> dp_components old = dp_components new"
    using components_determined [of old new] c by metis
  finally show ?thesis by (simp add: field_changes_nil [of old new electorateChanged] rebased_eq)
qed

theorem no_change_iff_same_decision_witness:
  "compareDecisionPackages plain_platform (wit_package wit_uuid wit_time) (wit_package wit_uuid' wit_time') False = Inr [ch_deadline] \<and>
   (wit_package wit_uuid' wit_time')\<lparr>dp_voteId := wit_uuid\<rparr> \<noteq> wit_package wit_uuid wit_time"
proof
  have "of_type ty (wit_package wit_uuid wit_time) = of_type ty (wit_package wit_uuid' wit_time')" for ty
    by (simp add: wit_package_def)
  then show "(wit_package wit_uuid' wit_time')\<lparr>dp_voteId := wit_uuid\<rparr> \<noteq> wit_package wit_uuid wit_time"
    using no_change_iff_same_decision [OF wit_comparison [of plain_platform]]
    by (auto simp: sha256_collision_def) (simp add: wit_package_def)
qed (rule wit_comparison)

text \<open>Property C40: a replacement plan joins two distinct votes with a real change and carries over no vote, no stage and no
  proxy; the members asked to vote again are those with a ballot in the old vote that are eligible in the new one, each
  once and in order; and the plan names two different package hashes unless the digests of the two packages collide.\<close>

theorem replacement_carries_nothing:
  assumes "replacementPlan pl old new ballots eligible electorateChanged = Inr r"
  shows "rp_oldVoteId r = dp_voteId old \<and> rp_newVoteId r = dp_voteId new \<and> rp_oldVoteId r \<noteq> rp_newVoteId r \<and>
    compareDecisionPackages pl old new electorateChanged = Inr (rp_changedComponentClasses r) \<and>
    rp_changedComponentClasses r \<noteq> [] \<and>
    rp_carriedBallotIds r = [] \<and> rp_carriedStageIds r = [] \<and> rp_carriedProxyGrantIds r = [] \<and>
    sorted (rp_revoteRequiredMemberIds r) \<and> distinct (rp_revoteRequiredMemberIds r) \<and>
    set (rp_revoteRequiredMemberIds r) = set ballots \<inter> set eligible \<and>
    (rp_oldPackageSha256 r \<noteq> rp_newPackageSha256 r \<or>
       sha256_collision (canonical_bytes (package_json old)) (canonical_bytes (package_json new)))"
proof -
  from assms obtain cs a b where p: "DecisionPackageSchema old" "DecisionPackageSchema new"
    and n: "dp_voteId old \<noteq> dp_voteId new" and c: "compareDecisionPackages pl old new electorateChanged = Inr cs" "cs \<noteq> []"
    and h: "decisionPackageHash pl old = Inr a" "decisionPackageHash pl new = Inr b"
    and r: "r = \<lparr>rp_oldVoteId = dp_voteId old, rp_newVoteId = dp_voteId new, rp_oldPackageSha256 = a,
       rp_newPackageSha256 = b, rp_changedComponentClasses = cs, rp_carriedBallotIds = [],
       rp_carriedStageIds = [], rp_carriedProxyGrantIds = [],
       rp_revoteRequiredMemberIds = sort (filter (\<lambda>m. m \<in> set (js_set eligible)) (js_set ballots))\<rparr>"
    by (auto simp: replacementPlan_def bindr_eq_Inr_iff split: if_splits)
  have "a \<noteq> b \<or> sha256_collision (canonical_bytes (package_json old)) (canonical_bytes (package_json new))"
    using decision_package.hash_binds [of pl old a new] h n by auto
  then show ?thesis using n c by (auto simp: r distinct_filter)
qed

theorem replacement_carries_nothing_witness:
  "\<exists>r. replacementPlan plain_platform (wit_package wit_uuid wit_time) (wit_package wit_uuid' wit_time')
       [wit_uuid', wit_uuid] [wit_uuid', wit_sha] False = Inr r \<and> set (rp_revoteRequiredMemberIds r) = {wit_uuid'}"
proof -
  have h: "\<exists>h. decisionPackageHash plain_platform (wit_package v d) = Inr h"
    if v: "UuidSchema v" "Rfc3339UtcSchema d" and a: "is_ascii v" "is_ascii d" for v d
  proof -
    obtain h where "canonicalSha256 plain_platform (package_json (wit_package v d)) = Inr h"
      using hash_defined [of "package_json (wit_package v d)" plain_platform] package_json_ok [OF wit_package_ok [OF v]] a
      by (auto simp: package_json_def wit_package_def wit_component_def component_json_def MAX_JSON_CONTAINER_DEPTH_def)
    then show ?thesis by (simp add: decisionPackageHash_def zparse_ok wit_package_ok v)
  qed
  have a: "is_ascii wit_uuid" "is_ascii wit_uuid'" "is_ascii wit_time" "is_ascii wit_time'"
    by (simp_all add: wit_uuid_def wit_uuid'_def wit_time_def wit_time'_def)
  have v: "dp_voteId (wit_package v d) = v" for v d by (simp add: wit_package_def)
  obtain x y where "decisionPackageHash plain_platform (wit_package wit_uuid wit_time) = Inr x"
    "decisionPackageHash plain_platform (wit_package wit_uuid' wit_time') = Inr y"
    using h [OF wit_uuid_parses(1) wit_times(1) a(1,3)] h [OF wit_uuid_parses(2) wit_times(2) a(2,4)] by blast
  then obtain r where r: "replacementPlan plain_platform (wit_package wit_uuid wit_time) (wit_package wit_uuid' wit_time')
       [wit_uuid', wit_uuid] [wit_uuid', wit_sha] False = Inr r"
    using wit_uuid_ok(3) v
    by (simp add: replacementPlan_def zparse_ok wit_package_ok wit_uuid_parses wit_times wit_comparison)
  have "wit_uuid \<noteq> wit_sha"
    by (auto simp: wit_uuid_def wit_sha_def lit_def dest: arg_cong [of _ _ length])
  with replacement_carries_nothing [OF r] r wit_uuid_ok(3) show ?thesis by auto
qed

end
