(* ===== verification/Encoding.thy ===== *)
theory Encoding
  imports Canonical
begin

text \<open>
  The encodings of the language's library the program frames its tokens and signatures with: splitting a
  string at a separator, base64url as \<open>Buffer\<close> writes and reads it, and HMAC-SHA256 as
  \<open>createHmac\<close> computes it (RFC 2104).
\<close>

unbundle bit_operations_syntax

section \<open>Splitting\<close>

text \<open>\<open>s.split(c)\<close> for a separator of one unit.\<close>

fun split_on :: "16 word \<Rightarrow> jstring \<Rightarrow> jstring list" where
  "split_on c [] = [[]]"
| "split_on c (u # s) = (if u = c then [] # split_on c s else (case split_on c s of [] \<Rightarrow> [[u]] | p # ps \<Rightarrow> (u # p) # ps))"

lemma split_on_nonempty [simp]: "split_on c s \<noteq> []"
  by (cases s) (simp_all split: list.splits)

lemma split_on_absent: "c \<notin> set s \<Longrightarrow> split_on c s = [s]"
  by (induction s) auto

lemma split_on_append: "c \<notin> set p \<Longrightarrow> split_on c (p @ c # s) = p # split_on c s"
  by (induction p) auto

lemma split_on_pieces: "p \<in> set (split_on c s) \<Longrightarrow> c \<notin> set p"
  by (induction s arbitrary: p) (auto split: if_splits list.splits)

lemma join_split: "join [c] (split_on c s) = s"
proof (induction s)
  case (Cons u s)
  show ?case
  proof (cases "split_on c s")
    case Nil
    then show ?thesis by simp
  next
    case (Cons p ps)
    with Cons.IH show ?thesis by (cases ps) simp_all
  qed
qed simp

lemma split_join:
  assumes "ps \<noteq> []" and "\<forall>p\<in>set ps. c \<notin> set p"
  shows "split_on c (join [c] ps) = ps"
  using assms
proof (induction ps)
  case (Cons p ps)
  then show ?case by (cases ps) (simp_all add: split_on_absent split_on_append)
qed simp

section \<open>base64url\<close>

definition base64url_digit :: "nat \<Rightarrow> 16 word" where
  "base64url_digit n =
     (if n < 26 then of_nat (65 + n) else if n < 52 then of_nat (71 + n) else if n < 62 then of_nat (n - 4)
      else if n = 62 then 0x2D else 0x5F)"

fun base64url :: "byte list \<Rightarrow> jstring" where
  "base64url [] = []"
| "base64url [a] = [base64url_digit (unat a div 4), base64url_digit (unat a mod 4 * 16)]"
| "base64url [a, b] =
     [base64url_digit (unat a div 4), base64url_digit (unat a mod 4 * 16 + unat b div 16),
      base64url_digit (unat b mod 16 * 4)]"
| "base64url (a # b # c # r) =
     base64url_digit (unat a div 4) # base64url_digit (unat a mod 4 * 16 + unat b div 16) #
     base64url_digit (unat b mod 16 * 4 + unat c div 64) # base64url_digit (unat c mod 64) # base64url r"

text \<open>The reader takes both alphabets and ignores every other character.\<close>

definition base64_value :: "16 word \<Rightarrow> nat option" where
  "base64_value u =
     (if is_upper u then Some (unat u - 65) else if is_lower u then Some (unat u - 71)
      else if is_digit u then Some (unat u + 4) else if u = 0x2D \<or> u = 0x2B then Some 62
      else if u = 0x5F \<or> u = 0x2F then Some 63 else None)"

fun sextet_bytes :: "nat list \<Rightarrow> byte list" where
  "sextet_bytes (p # q # r # s # rest) =
     of_nat (p * 4 + q div 16) # of_nat (q mod 16 * 16 + r div 4) # of_nat (r mod 4 * 64 + s) # sextet_bytes rest"
| "sextet_bytes [p, q, r] = [of_nat (p * 4 + q div 16), of_nat (q mod 16 * 16 + r div 4)]"
| "sextet_bytes [p, q] = [of_nat (p * 4 + q div 16)]"
| "sextet_bytes _ = []"

definition from_base64url :: "jstring \<Rightarrow> byte list" where
  "from_base64url s = sextet_bytes (List.map_filter base64_value s)"

lemma base64_value_digit: "n < 64 \<Longrightarrow> base64_value (base64url_digit n) = Some n"
proof -
  have "list_all (\<lambda>n. base64_value (base64url_digit n) = Some n) [0..<64]" by code_simp
  then show "n < 64 \<Longrightarrow> base64_value (base64url_digit n) = Some n" by (simp add: list_all_iff)
qed

lemma sextets_base64url:
  "List.map_filter base64_value [] = []"
  "n < 64 \<Longrightarrow> List.map_filter base64_value (base64url_digit n # s) = n # List.map_filter base64_value s"
  by (simp_all add: List.map_filter_simps base64_value_digit)

lemma byte_less: "unat (b :: byte) < 256"
  using unsigned_less [of b] by simp

lemma byte_parts:
  "unat (a :: byte) div 4 < 64" "unat a mod 4 * 16 + unat (b :: byte) div 16 < 64" "unat a mod 4 * 16 < 64"
  "unat b mod 16 * 4 + unat (c :: byte) div 64 < 64" "unat b mod 16 * 4 < 64" "unat c mod 64 < 64"
  using byte_less [of a] byte_less [of b] byte_less [of c] by linarith+

lemma byte_join:
  "unat (a :: byte) div 4 * 4 + (unat a mod 4 * 16 + unat (b :: byte) div 16) div 16 = unat a"
  "(unat a mod 4 * 16 + unat b div 16) mod 16 * 16 + (unat b mod 16 * 4 + unat (c :: byte) div 64) div 4 = unat b"
  "(unat b mod 16 * 4 + unat c div 64) mod 4 * 64 + unat c mod 64 = unat c"
  "unat a div 4 * 4 + (unat a mod 4 * 16) div 16 = unat a"
  "(unat a mod 4 * 16 + unat b div 16) mod 16 * 16 + (unat b mod 16 * 4) div 4 = unat b"
proof -
  have d: "(x * k + y) div k = x" "(x * k + y) mod k = y" if "y < k" for x y k :: nat
    using that by simp_all
  have "unat b div 16 < 16" "unat c div 64 < 4" using byte_less [of b] byte_less [of c] by linarith+
  note d = d [OF this(1)] d [OF this(2)]
  show "unat a div 4 * 4 + (unat a mod 4 * 16 + unat b div 16) div 16 = unat a"
    "(unat a mod 4 * 16 + unat b div 16) mod 16 * 16 + (unat b mod 16 * 4 + unat c div 64) div 4 = unat b"
    "(unat b mod 16 * 4 + unat c div 64) mod 4 * 64 + unat c mod 64 = unat c"
    "unat a div 4 * 4 + (unat a mod 4 * 16) div 16 = unat a"
    "(unat a mod 4 * 16 + unat b div 16) mod 16 * 16 + (unat b mod 16 * 4) div 4 = unat b"
    unfolding d by simp_all
qed

text \<open>Reading what was written gives the bytes back.\<close>

lemma from_base64url_inverse [simp]: "from_base64url (base64url bs) = bs"
proof (induction bs rule: base64url.induct)
  have w: "of_nat (unat x) = x" for x :: byte by simp
  note simps = from_base64url_def base64url.simps List.map_filter_simps option.case sextet_bytes.simps
    byte_parts [THEN base64_value_digit] byte_join w
  case 1
  show ?case by (simp only: simps)
  case (2 a)
  show ?case by (simp only: simps)
  case (3 a b)
  show ?case by (simp only: simps)
  case (4 a b c r)
  then show ?case by (simp only: simps)
qed

lemma base64url_inj: "base64url xs = base64url ys \<longleftrightarrow> xs = ys"
  by (metis from_base64url_inverse)

text \<open>What is written uses only letters, digits, hyphen and underscore, four of them for three bytes.\<close>

definition base64url_unit :: "16 word \<Rightarrow> bool" where
  "base64url_unit u \<longleftrightarrow> is_alnum u \<or> is_char CHR ''-'' u \<or> is_char CHR ''_'' u"

lemma base64url_digit_unit: "base64url_unit (base64url_digit n)" if "n < 64"
proof -
  have "list_all (\<lambda>n. base64url_unit (base64url_digit n)) [0..<64]" by code_simp
  then show ?thesis using that by (simp add: list_all_iff)
qed

lemma base64url_units: "list_all base64url_unit (base64url bs)"
  by (induction bs rule: base64url.induct) (simp_all add: base64url_digit_unit [OF byte_parts(1)]
      base64url_digit_unit [OF byte_parts(2)] base64url_digit_unit [OF byte_parts(3)] base64url_digit_unit [OF byte_parts(4)]
      base64url_digit_unit [OF byte_parts(5)] base64url_digit_unit [OF byte_parts(6)])

lemma length_base64url: "length (base64url bs) = (4 * length bs + 2) div 3"
  by (induction bs rule: base64url.induct) simp_all

lemma base64url_no_dot: "0x2E \<notin> set (base64url bs)"
proof -
  have "\<not> base64url_unit 0x2E" by code_simp
  then show ?thesis using base64url_units [of bs] by (auto simp: list_all_iff)
qed

lemma base64url_Nil_iff [simp]: "base64url bs = [] \<longleftrightarrow> bs = []"
  by (cases bs rule: base64url.cases) simp_all

text \<open>A writing of \<open>n\<close> bytes is a string that the reader and the writer map to itself.\<close>

definition canonical_base64url :: "nat \<Rightarrow> jstring \<Rightarrow> byte list option" where
  "canonical_base64url n s =
     (let bs = from_base64url s in if length bs \<noteq> n then None else if base64url bs = s then Some bs else None)"

lemma canonical_base64url_iff: "canonical_base64url n s = Some bs \<longleftrightarrow> length bs = n \<and> s = base64url bs"
  unfolding canonical_base64url_def Let_def by (metis from_base64url_inverse option.distinct(1) option.inject)

section \<open>HMAC\<close>

definition hmac_block :: "byte list \<Rightarrow> byte list" where
  "hmac_block key = (let k = (if 64 < length key then sha256 key else key) in k @ replicate (64 - length k) 0)"

definition hmac_sha256 :: "byte list \<Rightarrow> byte list \<Rightarrow> byte list" where
  "hmac_sha256 key m =
     (let k = hmac_block key
      in sha256 (map (\<lambda>b. b XOR 0x5C) k @ sha256 (map (\<lambda>b. b XOR 0x36) k @ m)))"

lemma length_hmac [simp]: "length (hmac_sha256 key m) = 32"
  by (simp add: hmac_sha256_def Let_def)

end
