(* ===== verification/Minutes.thy ===== *)
theory Minutes
  imports Encoding Governance_Profile
begin

text \<open>
  Minutes under review, \<^verbatim>\<open>lib/domain/src/minutes.ts\<close> with its schemas of \<^verbatim>\<open>lib/contracts/src/governance.ts\<close>: redlines
  that replace exactly the lines they were written against, the resolution of a review, and the manifest of
  action items with the hash of its activation.
\<close>

section \<open>Texts and citations\<close>

definition canonicalString :: "platform \<Rightarrow> nat \<Rightarrow> nat \<Rightarrow> jstring \<Rightarrow> bool" where
  "canonicalString pl minimum maximum s \<longleftrightarrow>
     minimum \<le> length s \<and> length s \<le> maximum \<and> canonicalText pl (Text s) = Inr s"

record GovernanceCitation =
  gc_sourceDocumentVersionId :: jstring
  gc_sourceDocumentSha256 :: jstring
  gc_clause :: jstring
  gc_locator :: jstring

definition GovernanceCitationSchema :: "platform \<Rightarrow> GovernanceCitation \<Rightarrow> bool" where
  "GovernanceCitationSchema pl c \<longleftrightarrow>
     UuidSchema (gc_sourceDocumentVersionId c) \<and> Sha256HexSchema (gc_sourceDocumentSha256 c) \<and>
     canonicalString pl 1 512 (gc_clause c) \<and> canonicalString pl 1 1024 (gc_locator c)"

section \<open>Redlines\<close>

datatype MinutesAnchor =
    SectionAnchor (ma_section: jstring)
  | LinesAnchor (ma_startLine: int) (ma_endLine: int)

fun MinutesAnchorSchema :: "platform \<Rightarrow> MinutesAnchor \<Rightarrow> bool" where
  "MinutesAnchorSchema pl (SectionAnchor sec) \<longleftrightarrow> canonicalString pl 1 512 sec"
| "MinutesAnchorSchema pl (LinesAnchor startLine endLine) \<longleftrightarrow>
     SafePositiveIntegerSchema startLine \<and> SafePositiveIntegerSchema endLine \<and> startLine \<le> endLine"

datatype RedlineOperation = redline_replace | redline_insert_before | redline_insert_after | redline_delete

record MinutesRedline =
  mr_minutesId :: jstring
  mr_baseVersion :: int
  mr_baseSha256 :: jstring
  mr_anchor :: MinutesAnchor
  mr_anchoredTextSha256 :: jstring
  mr_operation :: RedlineOperation
  mr_proposedText :: jstring
  mr_rationale :: jstring
  mr_citations :: "GovernanceCitation list"

definition MinutesRedlineSchema :: "platform \<Rightarrow> MinutesRedline \<Rightarrow> bool" where
  "MinutesRedlineSchema pl r \<longleftrightarrow>
     UuidSchema (mr_minutesId r) \<and> SafePositiveIntegerSchema (mr_baseVersion r) \<and> Sha256HexSchema (mr_baseSha256 r) \<and>
     MinutesAnchorSchema pl (mr_anchor r) \<and> Sha256HexSchema (mr_anchoredTextSha256 r) \<and>
     canonicalString pl 0 262144 (mr_proposedText r) \<and> canonicalString pl 1 65536 (mr_rationale r) \<and>
     list_all (GovernanceCitationSchema pl) (mr_citations r) \<and> length (mr_citations r) \<le> 64 \<and>
     \<not> (mr_operation r = redline_delete \<and> mr_proposedText r \<noteq> []) \<and>
     \<not> (mr_operation r \<noteq> redline_delete \<and> length (mr_proposedText r) = 0)"

abbreviation LF :: "16 word" where "LF \<equiv> 0x0A"

text \<open>\<^verbatim>\<open>.\<close> of a regular expression does not match a line terminator.\<close>

definition line_terminator :: "16 word \<Rightarrow> bool" where
  "line_terminator u \<longleftrightarrow> u = 0x0A \<or> u = 0x0D \<or> u = 0x2028 \<or> u = 0x2029"

text \<open>The Markdown heading a line starts with, \<^verbatim>\<open>^(#{1,6})\s\<close>: the number of its hash signs.\<close>

definition hashes :: "jstring \<Rightarrow> nat" where
  "hashes line = length (takeWhile (is_char CHR ''#'') line)"

definition heading_mark :: "jstring \<Rightarrow> nat option" where
  "heading_mark line =
     (let level = hashes line; rest = drop level line
      in if 1 \<le> level \<and> level \<le> 6 \<and> rest \<noteq> [] \<and> js_space (hd rest) then Some level else None)"

text \<open>The title of \<^verbatim>\<open>^(#{1,6})\s+(.+)\<close>: \<^verbatim>\<open>\s+\<close> takes as much white space as leaves a character for \<^verbatim>\<open>.+\<close>.\<close>

fun heading_rest :: "nat \<Rightarrow> jstring \<Rightarrow> jstring option" where
  "heading_rest 0 rest = None"
| "heading_rest (Suc k) rest =
     (let title = takeWhile (\<lambda>u. \<not> line_terminator u) (drop (Suc k) rest)
      in if title \<noteq> [] then Some title else heading_rest k rest)"

definition section_heading :: "jstring \<Rightarrow> (nat \<times> jstring) option" where
  "section_heading line =
     (case heading_mark line of
        None \<Rightarrow> None
      | Some level \<Rightarrow>
          let rest = drop level line
          in map_option (Pair level) (heading_rest (length (takeWhile js_space rest)) rest))"

fun find_section :: "nat \<Rightarrow> jstring list \<Rightarrow> jstring \<Rightarrow> (nat \<times> nat) option" where
  "find_section i [] sec = None"
| "find_section i (line # lines) sec =
     (case section_heading line of
        Some (level, title) \<Rightarrow> if title = sec then Some (i, level) else find_section (Suc i) lines sec
      | None \<Rightarrow> find_section (Suc i) lines sec)"

fun section_length :: "nat \<Rightarrow> jstring list \<Rightarrow> nat" where
  "section_length level [] = 0"
| "section_length level (line # lines) =
     (case heading_mark line of
        Some l \<Rightarrow> if l \<le> level then 0 else Suc (section_length level lines)
      | None \<Rightarrow> Suc (section_length level lines))"

record LineRange =
  lr_start :: nat
  lr_endExclusive :: nat

definition lineRange :: "jstring list \<Rightarrow> MinutesRedline \<Rightarrow> LineRange result" where
  "lineRange lines redline =
     (case mr_anchor redline of
        LinesAnchor startLine endLine \<Rightarrow>
          if int (length lines) < endLine then throw (Error ''minutes line anchor is outside base'')
          else Inr \<lparr>lr_start = nat (startLine - 1), lr_endExclusive = nat endLine\<rparr>
      | SectionAnchor sec \<Rightarrow>
          (case find_section 0 lines sec of
             None \<Rightarrow> throw (Error ''minutes section anchor is absent from base'')
           | Some (start, level) \<Rightarrow>
               Inr \<lparr>lr_start = start,
                 lr_endExclusive = start + 1 + section_length level (drop (start + 1) lines)\<rparr>))"

definition contentLines :: "jstring \<Rightarrow> jstring list \<times> bool" where
  "contentLines val =
     (let terminalLf = (val \<noteq> [] \<and> last val = LF); lines = split_on LF val
      in (if terminalLf then butlast lines else lines, terminalLf))"

text \<open>\<^verbatim>\<open>lines.splice(start, count, ...items)\<close> within the list.\<close>

definition splice :: "nat \<Rightarrow> nat \<Rightarrow> 'a list \<Rightarrow> 'a list \<Rightarrow> 'a list" where
  "splice start n items lines = take start lines @ items @ drop (start + n) lines"

definition applyExactMinutesRedline :: "platform \<Rightarrow> jstring \<Rightarrow> MinutesRedline \<Rightarrow> jstring result" where
  "applyExactMinutesRedline pl baseText input =
     bindr (canonicalText pl (Text baseText)) (\<lambda>base.
     bindr (zparse (MinutesRedlineSchema pl) input) (\<lambda>redline.
     if \<not> safeHashEqual (mr_baseSha256 redline) (sha256Hex (Text base))
       then throw (Error ''minutes redline base hash mismatch'')
     else
       let (lines, terminalLf) = contentLines base
       in bindr (lineRange lines redline) (\<lambda>range.
          let start = lr_start range; endExclusive = lr_endExclusive range;
            anchored = join (lit [CHR 0x0A]) (slice start endExclusive lines)
          in if \<not> safeHashEqual (mr_anchoredTextSha256 redline) (sha256Hex (Text anchored))
               then throw (Error ''minutes redline anchored text hash mismatch'')
             else bindr (canonicalText pl (Text (mr_proposedText redline))) (\<lambda>proposedText.
               let proposed = fst (contentLines proposedText);
                 edited = (case mr_operation redline of
                     redline_replace \<Rightarrow> splice start (endExclusive - start) proposed lines
                   | redline_delete \<Rightarrow> splice start (endExclusive - start) [] lines
                   | redline_insert_before \<Rightarrow> splice start 0 proposed lines
                   | redline_insert_after \<Rightarrow> splice endExclusive 0 proposed lines)
               in canonicalText pl (Text (join (lit [CHR 0x0A]) edited @ (if terminalLf then [LF] else [])))))))"

section \<open>The resolution of a review\<close>

datatype ReviewItemKind = review_comment | review_redline

record MinutesReviewItemRef =
  ri_itemId :: jstring
  ri_kind :: ReviewItemKind

fun review_items :: "(jstring \<times> MinutesReviewItemRef) list \<Rightarrow> MinutesReviewItemRef list \<Rightarrow> (jstring \<times> MinutesReviewItemRef) list result" where
  "review_items itemMap [] = Inr itemMap"
| "review_items itemMap (item # items) =
     (if map_has itemMap (ri_itemId item) then throw (ErrorOn ''duplicate minutes review item: '' (ri_itemId item))
      else review_items (map_set (ri_itemId item) item itemMap) items)"

fun review_withdrawals ::
    "(jstring \<times> MinutesReviewItemRef) list \<Rightarrow> jstring list \<Rightarrow> jstring list \<Rightarrow> jstring list result" where
  "review_withdrawals itemMap withdrawn [] = Inr withdrawn"
| "review_withdrawals itemMap withdrawn (itemId # withdrawals) =
     (case map_of itemMap itemId of
        None \<Rightarrow> throw (ErrorOn ''withdrawal references unknown item: '' itemId)
      | Some item \<Rightarrow>
          if ri_kind item \<noteq> review_comment then throw (Error ''redlines cannot be withdrawn'')
          else if ri_itemId item \<in> set withdrawn then throw (ErrorOn ''duplicate withdrawal: '' (ri_itemId item))
          else review_withdrawals itemMap (set_add withdrawn (ri_itemId item)) withdrawals)"

fun review_dispositions ::
    "(jstring \<times> MinutesReviewItemRef) list \<Rightarrow> jstring list \<Rightarrow> jstring list \<Rightarrow> jstring list \<Rightarrow> jstring list result" where
  "review_dispositions itemMap withdrawn dispositioned [] = Inr dispositioned"
| "review_dispositions itemMap withdrawn dispositioned (itemId # dispositions) =
     (if \<not> map_has itemMap itemId then throw (ErrorOn ''disposition references unknown item: '' itemId)
      else if itemId \<in> set dispositioned then throw (ErrorOn ''duplicate disposition: '' itemId)
      else if itemId \<in> set withdrawn then throw (ErrorOn ''withdrawn item also dispositioned: '' itemId)
      else review_dispositions itemMap withdrawn (set_add dispositioned itemId) dispositions)"

definition reviewIsResolved :: "MinutesReviewItemRef list \<Rightarrow> jstring list \<Rightarrow> jstring list \<Rightarrow> bool result" where
  "reviewIsResolved items withdrawals dispositions =
     bindr (review_items [] items) (\<lambda>itemMap.
     bindr (review_withdrawals itemMap [] withdrawals) (\<lambda>withdrawn.
     bindr (review_dispositions itemMap withdrawn [] dispositions) (\<lambda>dispositioned.
       Inr (list_all (\<lambda>item. ri_itemId item \<in> set withdrawn \<or> ri_itemId item \<in> set dispositioned) items))))"

section \<open>The action manifest\<close>

datatype ActionVisibility = board_visible | secretariat_management

fun action_visibility_name :: "ActionVisibility \<Rightarrow> jstring" where
  "action_visibility_name board_visible = lit ''board''"
| "action_visibility_name secretariat_management = lit ''secretariat_management''"

record MinutesActionItem =
  ai_itemId :: jstring
  ai_ownerMemberId :: jstring
  ai_dueAt :: jstring
  ai_section :: jstring
  ai_line :: int
  ai_description :: jstring
  ai_requiredEvidence :: jstring
  ai_visibility :: ActionVisibility

definition MinutesActionItemSchema :: "platform \<Rightarrow> MinutesActionItem \<Rightarrow> bool" where
  "MinutesActionItemSchema pl i \<longleftrightarrow>
     UuidSchema (ai_itemId i) \<and> UuidSchema (ai_ownerMemberId i) \<and> Rfc3339UtcSchema (ai_dueAt i) \<and>
     canonicalString pl 1 512 (ai_section i) \<and> SafePositiveIntegerSchema (ai_line i) \<and>
     canonicalString pl 1 262144 (ai_description i) \<and> canonicalString pl 1 262144 (ai_requiredEvidence i)"

text \<open>A manifest logs items, or declares with \<open>None\<close> that there are none.\<close>

record MinutesActionManifest =
  am_minutesId :: jstring
  am_minutesVersion :: int
  am_minutesSha256 :: jstring
  am_items :: "MinutesActionItem list option"

definition MinutesActionManifestSchema :: "platform \<Rightarrow> MinutesActionManifest \<Rightarrow> bool" where
  "MinutesActionManifestSchema pl m \<longleftrightarrow>
     UuidSchema (am_minutesId m) \<and> SafePositiveIntegerSchema (am_minutesVersion m) \<and> Sha256HexSchema (am_minutesSha256 m) \<and>
     (case am_items m of
        None \<Rightarrow> True
      | Some items \<Rightarrow> 1 \<le> length items \<and> length items \<le> 1000 \<and> list_all (MinutesActionItemSchema pl) items \<and>
          distinct (map ai_itemId items))"

definition action_item_json :: "MinutesActionItem \<Rightarrow> json" where
  "action_item_json i = JObj
     [(lit ''itemId'', JStr (ai_itemId i)), (lit ''ownerMemberId'', JStr (ai_ownerMemberId i)),
      (lit ''dueAt'', JStr (ai_dueAt i)),
      (lit ''sourceLocator'', JObj [(lit ''section'', JStr (ai_section i)), (lit ''line'', JNum (ai_line i))]),
      (lit ''description'', JStr (ai_description i)), (lit ''requiredEvidence'', JStr (ai_requiredEvidence i)),
      (lit ''visibility'', JStr (action_visibility_name (ai_visibility i)))]"

definition action_manifest_json :: "MinutesActionManifest \<Rightarrow> json" where
  "action_manifest_json m = JObj
     ([(lit ''schemaVersion'', jstr ''boardagent.minutes-action-manifest.v1''), (lit ''minutesId'', JStr (am_minutesId m)),
       (lit ''minutesVersion'', JNum (am_minutesVersion m)), (lit ''minutesSha256'', JStr (am_minutesSha256 m))] @
      (case am_items m of
         None \<Rightarrow> [(lit ''declaration'', jstr ''no_action_items'')]
       | Some items \<Rightarrow> [(lit ''declaration'', jstr ''items_logged''), (lit ''items'', JArr (map action_item_json items))]))"

definition minutesActionManifestHash :: "platform \<Rightarrow> MinutesActionManifest \<Rightarrow> jstring result" where
  "minutesActionManifestHash pl manifest =
     bindr (zparse (MinutesActionManifestSchema pl) manifest) (\<lambda>m. canonicalSha256 pl (action_manifest_json m))"

text \<open>A draft task; that its state is \<open>draft\<close> is part of its type.\<close>

record DraftActionRef =
  da_taskId :: jstring
  da_sourceMinutesSha256 :: jstring

definition string_array :: "jstring list \<Rightarrow> json" where
  "string_array ids = JArr (map JStr ids)"

definition action_activation_json :: "jstring \<Rightarrow> jstring list \<Rightarrow> json" where
  "action_activation_json manifestSha256 taskIds = JObj
     [(lit ''schemaVersion'', jstr ''boardagent.minutes-action-activation.v1''), (lit ''manifestSha256'', JStr manifestSha256),
      (lit ''taskIds'', string_array taskIds)]"

definition activationManifestHash :: "platform \<Rightarrow> MinutesActionManifest \<Rightarrow> DraftActionRef list \<Rightarrow> jstring result" where
  "activationManifestHash pl manifestInput tasks =
     bindr (zparse (MinutesActionManifestSchema pl) manifestInput) (\<lambda>manifest.
     let expectedIds = (case am_items manifest of Some items \<Rightarrow> sort (map ai_itemId items) | None \<Rightarrow> []);
       actualIds = sort (map da_taskId tasks)
     in bindr (canonicalSha256 pl (string_array expectedIds)) (\<lambda>expected.
        bindr (canonicalSha256 pl (string_array actualIds)) (\<lambda>actual.
        if expected \<noteq> actual then throw (Error ''draft tasks do not match the exact action manifest'')
        else if \<not> list_all (\<lambda>t. safeHashEqual (da_sourceMinutesSha256 t) (am_minutesSha256 manifest)) tasks
          then throw (Error ''draft task source minutes hash mismatch'')
        else bindr (minutesActionManifestHash pl manifest) (\<lambda>h.
          canonicalSha256 pl (action_activation_json h actualIds)))))"

section \<open>Redlines change what they name\<close>

lemma find_section_bound: "find_section i lines sec = Some (j, level) \<Longrightarrow> i \<le> j \<and> j < i + length lines"
proof (induction lines arbitrary: i)
  case (Cons line lines)
  show ?case
  proof (cases "j = i")
    case False
    with Cons.prems have "find_section (Suc i) lines sec = Some (j, level)"
      by (auto split: option.splits prod.splits if_splits)
    then show ?thesis using Cons.IH by fastforce
  qed simp
qed simp

lemma section_length_le: "section_length level lines \<le> length lines"
  by (induction lines) (auto split: option.splits)

lemma lineRange_bound:
  assumes "lineRange lines r = Inr rg" and "MinutesAnchorSchema pl (mr_anchor r)"
  shows "lr_start rg < lr_endExclusive rg \<and> lr_endExclusive rg \<le> length lines"
proof (cases "mr_anchor r")
  case (SectionAnchor sec)
  with assms(1) obtain start level where f: "find_section 0 lines sec = Some (start, level)"
    and rg: "rg = \<lparr>lr_start = start, lr_endExclusive = start + 1 + section_length level (drop (start + 1) lines)\<rparr>"
    by (auto simp: lineRange_def split: option.splits)
  have "start < length lines" using find_section_bound [OF f] by simp
  then show ?thesis using section_length_le [of level "drop (start + 1) lines"] by (simp add: rg)
next
  case (LinesAnchor s e)
  with assms show ?thesis
    by (auto simp: lineRange_def SafePositiveIntegerSchema_def split: if_splits)
qed

definition unlines :: "jstring list \<Rightarrow> bool \<Rightarrow> jstring" where
  "unlines lines terminalLf = join [LF] lines @ (if terminalLf then [LF] else [])"

lemma split_on_snoc: "split_on c (p @ [c]) = split_on c p @ [[]]"
  by (induction p) (auto split: list.splits)

lemma contentLines_unlines: "contentLines s = (lines, terminalLf) \<Longrightarrow> unlines lines terminalLf = s"
proof (cases "s \<noteq> [] \<and> last s = LF")
  case True
  then obtain p where s: "s = p @ [LF]" by (metis append_butlast_last_id)
  assume "contentLines s = (lines, terminalLf)"
  then show ?thesis by (auto simp: contentLines_def s Let_def split_on_snoc unlines_def join_split)
next
  case False
  assume "contentLines s = (lines, terminalLf)"
  with False show ?thesis by (auto simp: contentLines_def Let_def unlines_def join_split)
qed

lemma contentLines_no_LF: "contentLines s = (lines, terminalLf) \<Longrightarrow> line \<in> set lines \<Longrightarrow> LF \<notin> set line"
  by (auto simp: contentLines_def Let_def split: if_splits dest: in_set_butlastD split_on_pieces)

text \<open>What an operation makes of the lines it is anchored to.\<close>

fun redlined :: "RedlineOperation \<Rightarrow> jstring list \<Rightarrow> jstring list \<Rightarrow> jstring list" where
  "redlined redline_replace old new = new"
| "redlined redline_delete old new = []"
| "redlined redline_insert_before old new = new @ old"
| "redlined redline_insert_after old new = old @ new"

text \<open>Where the anchored lines stand.\<close>

fun anchored_at :: "MinutesAnchor \<Rightarrow> jstring list \<Rightarrow> jstring list \<Rightarrow> jstring list \<Rightarrow> bool" where
  "anchored_at (LinesAnchor startLine endLine) pre old post \<longleftrightarrow>
     int (length pre) = startLine - 1 \<and> int (length pre + length old) = endLine"
| "anchored_at (SectionAnchor sec) pre old post \<longleftrightarrow>
     (\<exists>level. section_heading (hd old) = Some (level, sec) \<and>
       (\<forall>line\<in>set pre. map_option snd (section_heading line) \<noteq> Some sec) \<and>
       (\<forall>line\<in>set (tl old). \<forall>l. heading_mark line = Some l \<longrightarrow> level < l) \<and>
       (post \<noteq> [] \<longrightarrow> (\<exists>l\<le>level. heading_mark (hd post) = Some l)))"

lemma find_section_first:
  "find_section i lines sec = Some (j, level) \<Longrightarrow> i \<le> j \<and> j < i + length lines \<and>
     section_heading (lines ! (j - i)) = Some (level, sec) \<and>
     (\<forall>line\<in>set (take (j - i) lines). map_option snd (section_heading line) \<noteq> Some sec)"
proof (induction lines arbitrary: i)
  case (Cons line lines)
  show ?case
  proof (cases "\<exists>l. section_heading line = Some (l, sec)")
    case True
    with Cons.prems show ?thesis by auto
  next
    case False
    with Cons.prems have f: "find_section (Suc i) lines sec = Some (j, level)"
      by (auto split: option.splits prod.splits if_splits)
    from Cons.IH [OF f] have "Suc i \<le> j" by blast
    then obtain k where "j = Suc (i + k)" by (metis add_Suc le_Suc_ex)
    with Cons.IH [OF f] False show ?thesis by auto
  qed
qed simp

lemma section_length_end:
  "(\<forall>line\<in>set (take (section_length level lines) lines). \<forall>l. heading_mark line = Some l \<longrightarrow> level < l) \<and>
   (drop (section_length level lines) lines \<noteq> [] \<longrightarrow>
     (\<exists>l\<le>level. heading_mark (hd (drop (section_length level lines) lines)) = Some l))"
  by (induction lines) (auto split: option.splits)

lemma lineRange_anchored:
  assumes "lineRange lines r = Inr rg" and "MinutesAnchorSchema pl (mr_anchor r)"
  shows "lr_start rg < lr_endExclusive rg \<and> lr_endExclusive rg \<le> length lines \<and>
    anchored_at (mr_anchor r) (take (lr_start rg) lines) (slice (lr_start rg) (lr_endExclusive rg) lines) (drop (lr_endExclusive rg) lines)"
proof (cases "mr_anchor r")
  case (SectionAnchor sec)
  with assms(1) obtain start level where f: "find_section 0 lines sec = Some (start, level)"
    and rg: "rg = \<lparr>lr_start = start, lr_endExclusive = start + 1 + section_length level (drop (start + 1) lines)\<rparr>"
    by (auto simp: lineRange_def split: option.splits)
  let ?rest = "drop (start + 1) lines" and ?n = "section_length level (drop (start + 1) lines)"
  have s: "start < length lines" "section_heading (lines ! start) = Some (level, sec)"
    "\<forall>line\<in>set (take start lines). map_option snd (section_heading line) \<noteq> Some sec"
    using find_section_first [OF f] by simp_all
  have n: "?n \<le> length ?rest" by (rule section_length_le)
  have old: "slice start (start + 1 + ?n) lines = lines ! start # take ?n ?rest"
    using s(1) by (simp add: slice_def Cons_nth_drop_Suc [symmetric])
  have post: "drop (start + 1 + ?n) lines = drop ?n ?rest" by (simp add: add.commute)
  have "anchored_at (SectionAnchor sec) (take start lines) (slice start (start + 1 + ?n) lines) (drop (start + 1 + ?n) lines)"
    unfolding old post using s section_length_end [of level ?rest] by simp
  then show ?thesis using n s(1) by (simp add: rg SectionAnchor)
next
  case (LinesAnchor s e)
  with assms show ?thesis
    by (auto simp: lineRange_def SafePositiveIntegerSchema_def slice_def split: if_splits)
qed

lemma splice_parts:
  assumes "i < j" and "j \<le> length lines"
  shows "take i lines @ slice i j lines @ drop j lines = lines"
    and "splice i (j - i) items lines = take i lines @ items @ drop j lines"
    and "splice i 0 items lines = take i lines @ items @ slice i j lines @ drop j lines"
    and "splice j 0 items lines = take i lines @ slice i j lines @ items @ drop j lines"
proof -
  have t: "take i lines @ slice i j lines = take j lines"
    using take_add [of i "j - i" lines] assms(1) by (simp add: slice_def)
  have d: "slice i j lines @ drop j lines = drop i lines"
    using append_take_drop_id [of "j - i" "drop i lines"] assms(1) by (simp add: slice_def)
  show "take i lines @ slice i j lines @ drop j lines = lines" by (simp add: d)
  show "splice i (j - i) items lines = take i lines @ items @ drop j lines" using assms(1) by (simp add: splice_def)
  show "splice i 0 items lines = take i lines @ items @ slice i j lines @ drop j lines" by (simp add: splice_def d)
  show "splice j 0 items lines = take i lines @ slice i j lines @ items @ drop j lines"
    using t by (simp add: splice_def flip: append_assoc)
qed

text \<open>Property C12: a redline changes exactly the lines it was written against. When it applies, the base and the anchored lines
  have the digests it names, the anchored lines are those of its line numbers or the first section with its title up to the
  next heading of the same or a higher level, and the result is the base with these lines replaced, deleted or
  put before or after the proposed lines; every other line and the final line feed stay.\<close>

theorem redline_changes_exactly_its_anchor:
  assumes "applyExactMinutesRedline pl base r = Inr result"
  shows "\<exists>pre old post terminalLf.
    base = unlines (pre @ old @ post) terminalLf \<and> (\<forall>line\<in>set (pre @ old @ post). LF \<notin> set line) \<and> old \<noteq> [] \<and>
    anchored_at (mr_anchor r) pre old post \<and>
    sha256Hex (Text base) = mr_baseSha256 r \<and> sha256Hex (Text (join [LF] old)) = mr_anchoredTextSha256 r \<and>
    result = unlines (pre @ redlined (mr_operation r) old (fst (contentLines (mr_proposedText r))) @ post) terminalLf"
proof -
  have canon: "canonicalText pl (Text s) = Inr t \<Longrightarrow> t = s" for s t
    by (auto simp: canonicalText_def bindr_eq_Inr_iff split: if_splits)
  obtain lines lf where c: "contentLines base = (lines, lf)" by (cases "contentLines base")
  from assms obtain b rg p where b: "canonicalText pl (Text base) = Inr b" and s: "MinutesRedlineSchema pl r"
    and h: "safeHashEqual (mr_baseSha256 r) (sha256Hex (Text b))" and rg: "lineRange (fst (contentLines b)) r = Inr rg"
    and a: "safeHashEqual (mr_anchoredTextSha256 r)
      (sha256Hex (Text (join (lit [CHR 0x0A]) (slice (lr_start rg) (lr_endExclusive rg) (fst (contentLines b))))))"
    and p: "canonicalText pl (Text (mr_proposedText r)) = Inr p"
    and res: "canonicalText pl (Text (join (lit [CHR 0x0A]) (case mr_operation r of
        redline_replace \<Rightarrow> splice (lr_start rg) (lr_endExclusive rg - lr_start rg) (fst (contentLines p)) (fst (contentLines b))
      | redline_insert_before \<Rightarrow> splice (lr_start rg) 0 (fst (contentLines p)) (fst (contentLines b))
      | redline_insert_after \<Rightarrow> splice (lr_endExclusive rg) 0 (fst (contentLines p)) (fst (contentLines b))
      | redline_delete \<Rightarrow> splice (lr_start rg) (lr_endExclusive rg - lr_start rg) [] (fst (contentLines b))) @
        (if snd (contentLines b) then [LF] else []))) = Inr result"
    by (auto simp: applyExactMinutesRedline_def bindr_eq_Inr_iff Let_def split_beta' simp del: lit_simps split: if_splits)
  note eq = canon [OF b] canon [OF p]
  let ?pre = "take (lr_start rg) lines" and ?old = "slice (lr_start rg) (lr_endExclusive rg) lines"
    and ?post = "drop (lr_endExclusive rg) lines" and ?new = "fst (contentLines (mr_proposedText r))"
  have rg': "lr_start rg < lr_endExclusive rg" "lr_endExclusive rg \<le> length lines" "anchored_at (mr_anchor r) ?pre ?old ?post"
    using lineRange_anchored [OF rg, of pl] s by (simp_all add: eq c MinutesRedlineSchema_def)
  note parts = splice_parts [OF rg'(1,2)]
  have lf: "lit [CHR 0x0A] = [LF]" by simp
  have "result = unlines (?pre @ redlined (mr_operation r) ?old ?new @ ?post) lf"
    using canon [OF res] unfolding eq c fst_conv snd_conv lf unlines_def
    by (cases "mr_operation r") (simp_all only: parts redlined.simps RedlineOperation.case append_assoc append_Nil)
  moreover have "?old \<noteq> []" using rg' by (simp add: slice_def)
  moreover have "sha256Hex (Text base) = mr_baseSha256 r" "sha256Hex (Text (join [LF] ?old)) = mr_anchoredTextSha256 r"
    using h a by (simp_all add: safeHashEqual_iff eq c)
  ultimately show ?thesis
    using contentLines_unlines [OF c] contentLines_no_LF [OF c] rg'(3) parts(1) by metis
qed

section \<open>Reviews\<close>

lemma review_items_ok:
  "review_items m items = Inr m' \<longleftrightarrow>
     distinct (map ri_itemId items) \<and> ri_itemId ` set items \<inter> dom (map_of m) = {} \<and> m' = m @ map (\<lambda>i. (ri_itemId i, i)) items"
proof (induction items arbitrary: m)
  case (Cons i items)
  show ?case
  proof (cases "map_has m (ri_itemId i)")
    case False
    then have "map_set (ri_itemId i) i m = m @ [(ri_itemId i, i)]" by (intro map_set_new) simp
    moreover have "dom (map_of (m @ [(ri_itemId i, i)])) = insert (ri_itemId i) (dom (map_of m))" by auto
    ultimately show ?thesis using False by (auto simp: Cons.IH)
  qed auto
qed auto

definition comment_in :: "(jstring \<times> MinutesReviewItemRef) list \<Rightarrow> jstring \<Rightarrow> bool" where
  "comment_in m k \<longleftrightarrow> (\<exists>i. map_of m k = Some i \<and> ri_kind i = review_comment)"

lemma review_withdrawals_ok:
  assumes "\<forall>k i. map_of m k = Some i \<longrightarrow> ri_itemId i = k"
  shows "review_withdrawals m s ws = Inr s' \<longleftrightarrow>
     list_all (comment_in m) ws \<and> distinct ws \<and> set ws \<inter> set s = {} \<and> s' = s @ ws"
proof (induction ws arbitrary: s)
  case (Cons k ws)
  show ?case
  proof (cases "map_of m k")
    case (Some i)
    then have "ri_itemId i = k" using assms by blast
    with Some show ?thesis by (auto simp: Cons.IH comment_in_def)
  qed (simp add: comment_in_def)
qed auto

lemma review_dispositions_ok:
  "review_dispositions m ws s ds = Inr s' \<longleftrightarrow>
     list_all (\<lambda>k. map_has m k) ds \<and> distinct ds \<and> set ds \<inter> (set s \<union> set ws) = {} \<and> s' = s @ ds"
  by (induction ds arbitrary: s) auto

text \<open>Property C13: when a review counts as resolved. The answer is returned exactly when the items have distinct identifiers, only
  comments are withdrawn, only known items are disposed of, and no item is withdrawn or disposed of twice or
  both; and it is then positive exactly when every item is withdrawn or disposed of. Every other input is
  refused.\<close>

theorem reviewIsResolved_iff:
  "reviewIsResolved items withdrawals dispositions = Inr resolved \<longleftrightarrow>
     distinct (map ri_itemId items) \<and> distinct (withdrawals @ dispositions) \<and>
     set withdrawals \<subseteq> ri_itemId ` {i \<in> set items. ri_kind i = review_comment} \<and>
     set dispositions \<subseteq> ri_itemId ` set items \<and>
     (resolved \<longleftrightarrow> ri_itemId ` set items \<subseteq> set withdrawals \<union> set dispositions)"
proof -
  let ?m = "map (\<lambda>i. (ri_itemId i, i)) items"
  have keys: "\<forall>k i. map_of ?m k = Some i \<longrightarrow> ri_itemId i = k"
    by (auto dest: map_of_SomeD)
  have has: "map_has ?m k \<longleftrightarrow> k \<in> ri_itemId ` set items" for k
    by (simp add: map_of_eq_None_iff comp_def image_image)
  have comment: "comment_in ?m k \<longleftrightarrow> k \<in> ri_itemId ` {i \<in> set items. ri_kind i = review_comment}"
    if "distinct (map ri_itemId items)" for k
  proof -
    have d: "distinct (map fst ?m)" using that by (simp add: comp_def)
    have "map_of ?m k = Some i \<longleftrightarrow> i \<in> set items \<and> ri_itemId i = k" for i
      unfolding map_of_eq_Some_iff [OF d] by auto
    then show ?thesis by (auto simp: comment_in_def)
  qed
  have dom: "dom (map_of ([] :: (jstring \<times> MinutesReviewItemRef) list)) = {}" by simp
  have w: "review_withdrawals ?m [] withdrawals = Inr s \<longleftrightarrow>
      list_all (comment_in ?m) withdrawals \<and> distinct withdrawals \<and> s = withdrawals" for s
    unfolding review_withdrawals_ok [OF keys] by simp
  have "reviewIsResolved items withdrawals dispositions = Inr resolved \<longleftrightarrow>
      distinct (map ri_itemId items) \<and> list_all (comment_in ?m) withdrawals \<and> distinct withdrawals \<and>
      list_all (\<lambda>k. map_has ?m k) dispositions \<and> distinct dispositions \<and> set dispositions \<inter> set withdrawals = {} \<and>
      (resolved \<longleftrightarrow> list_all (\<lambda>i. ri_itemId i \<in> set withdrawals \<or> ri_itemId i \<in> set dispositions) items)"
    unfolding reviewIsResolved_def bindr_eq_Inr_iff review_items_ok w review_dispositions_ok dom append_Nil
    by (simp add: w del: map_map) blast
  also have "\<dots> \<longleftrightarrow> distinct (map ri_itemId items) \<and> distinct (withdrawals @ dispositions) \<and>
     set withdrawals \<subseteq> ri_itemId ` {i \<in> set items. ri_kind i = review_comment} \<and> set dispositions \<subseteq> ri_itemId ` set items \<and>
     (resolved \<longleftrightarrow> ri_itemId ` set items \<subseteq> set withdrawals \<union> set dispositions)"
  proof (cases "distinct (map ri_itemId items)")
    case True
    have "list_all (comment_in ?m) withdrawals \<longleftrightarrow> set withdrawals \<subseteq> ri_itemId ` {i \<in> set items. ri_kind i = review_comment}"
      by (simp only: list_all_iff comment [OF True] subset_iff Ball_def)
    moreover have "list_all (\<lambda>k. map_has ?m k) dispositions \<longleftrightarrow> set dispositions \<subseteq> ri_itemId ` set items"
      by (simp only: list_all_iff has subset_iff Ball_def)
    moreover have "list_all (\<lambda>i. ri_itemId i \<in> set withdrawals \<or> ri_itemId i \<in> set dispositions) items \<longleftrightarrow>
        ri_itemId ` set items \<subseteq> set withdrawals \<union> set dispositions"
      by (simp only: list_all_iff image_subset_iff Un_iff)
    ultimately show ?thesis by (simp only: distinct_append True) blast
  qed simp
  finally show ?thesis .
qed

section \<open>Hashes of manifests\<close>

lemma action_visibility_inj [json_inj]: "action_visibility_name a = action_visibility_name b \<longleftrightarrow> a = b"
  by (cases a; cases b) auto

lemma action_item_json_inj [json_inj]: "jval_of (action_item_json i) = jval_of (action_item_json j) \<longleftrightarrow> i = j"
proof -
  have "jval_of (JObj [(lit ''section'', JStr s), (lit ''line'', JNum l)]) =
      jval_of (JObj [(lit ''section'', JStr t), (lit ''line'', JNum m)]) \<longleftrightarrow> s = t \<and> l = m" for s t l m
    by (subst jval_obj_eq) auto
  then show ?thesis
    unfolding action_item_json_def by (subst jval_obj_eq) (auto simp: json_inj simp del: jval_of.simps(6))
qed

lemmas action_items_inj [json_inj] = jarr_inj [OF action_item_json_inj]

lemma action_manifest_json_inj: "jval_of (action_manifest_json m) = jval_of (action_manifest_json n) \<Longrightarrow> m = n"
proof -
  assume eq: "jval_of (action_manifest_json m) = jval_of (action_manifest_json n)"
  let ?d = "lit ''declaration''"
  have f: "jfield ?d (action_manifest_json p) = Some (if am_items p = None then jstr ''no_action_items'' else jstr ''items_logged'')" for p
    by (cases "am_items p") (simp_all add: action_manifest_json_def lit_inj del: lit_simps)
  have same: "am_items m = None \<longleftrightarrow> am_items n = None"
    using jfield_jval [OF f eq] f [of n] by (auto split: if_splits)
  show "m = n"
  proof (cases "am_items m")
    case None
    with same have "am_items n = None" by simp
    with None eq show ?thesis
      unfolding action_manifest_json_def by (subst (asm) jval_obj_eq) (auto intro!: MinutesActionManifest.equality)
  next
    case (Some xs)
    with same obtain ys where "am_items n = Some ys" by auto
    with Some eq show ?thesis
      unfolding action_manifest_json_def
      by (subst (asm) jval_obj_eq) (auto simp: json_inj simp del: jval_of.simps(5) intro!: MinutesActionManifest.equality)
  qed
qed

lemma action_manifest_json_ok:
  "MinutesActionManifestSchema pl m \<Longrightarrow> js_json (action_manifest_json m) \<and> index_free (action_manifest_json m)"
  by (cases "am_items m") (auto simp: action_manifest_json_def MinutesActionManifestSchema_def SafePositiveIntegerSchema_def
      action_item_json_def MinutesActionItemSchema_def list_all_iff)

interpretation action_manifest: tagged_hash minutesActionManifestHash action_manifest_json
  "lit ''boardagent.minutes-action-manifest.v1''"
proof
  fix pl x y h
  show "minutesActionManifestHash pl x = Inr h \<Longrightarrow> canonicalSha256 pl (action_manifest_json x) = Inr h"
    by (auto simp: minutesActionManifestHash_def bindr_eq_Inr_iff)
  show "minutesActionManifestHash pl x = Inr h \<Longrightarrow> js_json (action_manifest_json x) \<and> index_free (action_manifest_json x)"
    by (auto simp: minutesActionManifestHash_def bindr_eq_Inr_iff intro: action_manifest_json_ok [THEN conjunct1]
        action_manifest_json_ok [THEN conjunct2])
  show "jval_of (action_manifest_json x) = jval_of (action_manifest_json y) \<Longrightarrow> x = y" by (rule action_manifest_json_inj)
  show "jfield (lit ''schemaVersion'') (action_manifest_json x) = Some (JStr (lit ''boardagent.minutes-action-manifest.v1''))"
    by (simp add: action_manifest_json_def)
qed

section \<open>Activation\<close>

definition manifest_item_ids :: "MinutesActionManifest \<Rightarrow> jstring list" where
  "manifest_item_ids m = (case am_items m of None \<Rightarrow> [] | Some items \<Rightarrow> map ai_itemId items)"

definition activation_record :: "jstring \<Rightarrow> DraftActionRef list \<Rightarrow> json" where
  "activation_record h tasks = action_activation_json h (sort (map da_taskId tasks))"

lemma string_array_ok: "js_json (string_array xs)" "index_free (string_array xs)"
  by (simp_all add: string_array_def)

lemma string_array_inj [json_inj]: "jval_of (string_array xs) = jval_of (string_array ys) \<longleftrightarrow> xs = ys"
  unfolding string_array_def by (rule jarr_inj) simp

lemma activation_record_ok: "js_json (activation_record h tasks)" "index_free (activation_record h tasks)"
  using string_array_ok by (simp_all add: activation_record_def action_activation_json_def)

lemma activation_record_inj:
  "jval_of (activation_record h tasks) = jval_of (activation_record k tasks') \<longleftrightarrow>
     h = k \<and> sort (map da_taskId tasks) = sort (map da_taskId tasks')"
  unfolding activation_record_def action_activation_json_def
  by (subst jval_obj_eq) (auto simp: json_inj)

lemma activation_steps:
  assumes "activationManifestHash pl m tasks = Inr h"
  obtains k d where "MinutesActionManifestSchema pl m" and "minutesActionManifestHash pl m = Inr k"
    and "canonicalSha256 pl (activation_record k tasks) = Inr h"
    and "canonicalSha256 pl (string_array (sort (manifest_item_ids m))) = Inr d"
    and "canonicalSha256 pl (string_array (sort (map da_taskId tasks))) = Inr d"
    and "\<forall>t\<in>set tasks. da_sourceMinutesSha256 t = am_minutesSha256 m"
proof -
  have ids: "(case am_items m of Some items \<Rightarrow> sort (map ai_itemId items) | None \<Rightarrow> []) = sort (manifest_item_ids m)"
    by (simp add: manifest_item_ids_def split: option.splits)
  show thesis
    using assms that
    by (auto simp: activationManifestHash_def bindr_eq_Inr_iff Let_def ids activation_record_def safeHashEqual_iff list_all_iff
        split: if_splits)
qed

text \<open>The tasks of an activation are determined by their ids: the digest of the minutes is the manifest's.\<close>

lemma tasks_of_ids:
  "\<forall>t\<in>set tasks. da_sourceMinutesSha256 t = h \<Longrightarrow>
     mset tasks = image_mset (\<lambda>i. \<lparr>da_taskId = i, da_sourceMinutesSha256 = h\<rparr>) (mset (map da_taskId tasks))"
  by (induction tasks) auto

text \<open>Property C14: what an activation hash certifies. The draft tasks are exactly the logged items, each once, and come from the
  minutes of the manifest; and two activations with the same hash have the same manifest and the same tasks, up to the order
  in which the tasks are given. Any other case exhibits a SHA-256 collision of the two records involved.\<close>

theorem activation_binds_manifest:
  assumes "activationManifestHash pl m tasks = Inr h" and "activationManifestHash pl n tasks' = Inr h"
  shows "(mset (map da_taskId tasks) = mset (manifest_item_ids m) \<or>
       sha256_collision (canonical_bytes (string_array (sort (manifest_item_ids m))))
         (canonical_bytes (string_array (sort (map da_taskId tasks))))) \<and>
     (\<forall>t\<in>set tasks. da_sourceMinutesSha256 t = am_minutesSha256 m) \<and>
     (m = n \<and> mset tasks = mset tasks' \<or>
       sha256_collision (canonical_bytes (action_manifest_json m)) (canonical_bytes (action_manifest_json n)) \<or>
       (\<exists>j k. minutesActionManifestHash pl m = Inr j \<and> minutesActionManifestHash pl n = Inr k \<and>
         sha256_collision (canonical_bytes (activation_record j tasks)) (canonical_bytes (activation_record k tasks'))))"
proof -
  from assms(1) obtain j d where m: "minutesActionManifestHash pl m = Inr j" "canonicalSha256 pl (activation_record j tasks) = Inr h"
    "canonicalSha256 pl (string_array (sort (manifest_item_ids m))) = Inr d"
    "canonicalSha256 pl (string_array (sort (map da_taskId tasks))) = Inr d" "\<forall>t\<in>set tasks. da_sourceMinutesSha256 t = am_minutesSha256 m"
    by (rule activation_steps)
  from assms(2) obtain k e where n: "minutesActionManifestHash pl n = Inr k" "canonicalSha256 pl (activation_record k tasks') = Inr h"
    "\<forall>t\<in>set tasks'. da_sourceMinutesSha256 t = am_minutesSha256 n"
    by (rule activation_steps)
  have sorts: "sort xs = sort ys \<Longrightarrow> mset xs = mset ys" for xs ys :: "jstring list" by (metis mset_sort)
  have "mset (map da_taskId tasks) = mset (manifest_item_ids m) \<or>
       sha256_collision (canonical_bytes (string_array (sort (manifest_item_ids m))))
         (canonical_bytes (string_array (sort (map da_taskId tasks))))"
    using canonicalSha256_binding [OF string_array_ok(1) string_array_ok(1) string_array_ok(2) string_array_ok(2) m(3,4)]
      sorts [of "map da_taskId tasks" "manifest_item_ids m"] by (auto simp: string_array_inj)
  moreover have "jval_of (activation_record j tasks) = jval_of (activation_record k tasks') \<or>
      sha256_collision (canonical_bytes (activation_record j tasks)) (canonical_bytes (activation_record k tasks'))"
    by (rule canonicalSha256_binding [OF activation_record_ok(1) activation_record_ok(1) activation_record_ok(2)
          activation_record_ok(2) m(2) n(2)])
  moreover have "m = n \<or> sha256_collision (canonical_bytes (action_manifest_json m)) (canonical_bytes (action_manifest_json n))"
    if "j = k" using action_manifest.hash_binds [OF m(1)] n(1) that by simp
  moreover have "mset tasks = mset tasks'" if "m = n" "sort (map da_taskId tasks) = sort (map da_taskId tasks')"
    using tasks_of_ids [OF m(5)] tasks_of_ids [OF n(3)] sorts [OF that(2)] that(1) by simp
  ultimately show ?thesis using m(1,5) n(1) unfolding activation_record_inj by blast
qed

section \<open>Instances\<close>

abbreviation wit_text :: "string list \<Rightarrow> jstring" where
  "wit_text lines \<equiv> unlines (map lit lines) True"

definition wit_minutes_redline :: MinutesRedline where
  "wit_minutes_redline = \<lparr>mr_minutesId = wit_uuid, mr_baseVersion = 1,
     mr_baseSha256 = sha256Hex (Text (wit_text [''# A'', ''x'', ''# B'', ''y''])), mr_anchor = SectionAnchor (lit ''A''),
     mr_anchoredTextSha256 = sha256Hex (Text (join [LF] [lit ''# A'', lit ''x''])), mr_operation = redline_insert_after,
     mr_proposedText = lit ''z'', mr_rationale = lit ''r'', mr_citations = []\<rparr>"

theorem redline_changes_exactly_its_anchor_witness:
  "applyExactMinutesRedline plain_platform (wit_text [''# A'', ''x'', ''# B'', ''y'']) wit_minutes_redline =
     Inr (wit_text [''# A'', ''x'', ''z'', ''# B'', ''y'']) \<and>
   (\<exists>pre old post terminalLf. wit_text [''# A'', ''x'', ''# B'', ''y''] = unlines (pre @ old @ post) terminalLf \<and>
     anchored_at (SectionAnchor (lit ''A'')) pre old post)"
proof -
  have c: "canonicalText plain_platform (Text s) = Inr s" if "is_ascii s" "0x0D \<notin> set s" for s
  proof -
    have "\<not> starts_with [0xFEFF] s" using that(1) by (cases s) (auto simp: starts_with_def is_ascii_def)
    then show ?thesis using that by (simp add: canonicalText_def assertUnicodeScalar_def)
  qed
  have t: "contentLines (wit_text [''# A'', ''x'', ''# B'', ''y'']) = ([lit ''# A'', lit ''x'', lit ''# B'', lit ''y''], True)"
    "contentLines (lit ''z'') = ([lit ''z''], False)"
    "find_section 0 [lit ''# A'', lit ''x'', lit ''# B'', lit ''y''] (lit ''A'') = Some (0, 1)"
    "section_length 1 [lit ''x'', lit ''# B'', lit ''y''] = 1"
    by code_simp+
  have rg: "lineRange [lit ''# A'', lit ''x'', lit ''# B'', lit ''y''] wit_minutes_redline = Inr \<lparr>lr_start = 0, lr_endExclusive = 2\<rparr>"
    using t(3,4) by (simp add: lineRange_def wit_minutes_redline_def del: lit_simps)
  have e: "join (lit [CHR 0x0A]) (slice 0 2 [lit ''# A'', lit ''x'', lit ''# B'', lit ''y'']) = join [LF] [lit ''# A'', lit ''x'']"
    "splice 2 0 [lit ''z''] [lit ''# A'', lit ''x'', lit ''# B'', lit ''y''] = [lit ''# A'', lit ''x'', lit ''z'', lit ''# B'', lit ''y'']"
    "join (lit [CHR 0x0A]) [lit ''# A'', lit ''x'', lit ''z'', lit ''# B'', lit ''y''] @ [LF] = wit_text [''# A'', ''x'', ''z'', ''# B'', ''y'']"
    by (simp_all add: slice_def splice_def unlines_def numeral_2_eq_2)
  have a: "is_ascii (wit_text [''# A'', ''x'', ''# B'', ''y''])" "is_ascii (wit_text [''# A'', ''x'', ''z'', ''# B'', ''y''])"
    "is_ascii (lit ''z'')" "is_ascii (lit ''A'')" "is_ascii (lit ''r'')" "0x0D \<notin> set (wit_text [''# A'', ''x'', ''# B'', ''y''])"
    "0x0D \<notin> set (wit_text [''# A'', ''x'', ''z'', ''# B'', ''y''])" "0x0D \<notin> set (lit ''z'')" "0x0D \<notin> set (lit ''A'')" "0x0D \<notin> set (lit ''r'')"
    by code_simp+
  have s: "MinutesRedlineSchema plain_platform wit_minutes_redline"
    using a by (simp add: MinutesRedlineSchema_def wit_minutes_redline_def canonicalString_def c sha256Hex_schema
        SafePositiveIntegerSchema_def isSafeInteger_def MAX_SAFE_INTEGER_def)
  have r: "applyExactMinutesRedline plain_platform (wit_text [''# A'', ''x'', ''# B'', ''y'']) wit_minutes_redline =
     Inr (wit_text [''# A'', ''x'', ''z'', ''# B'', ''y''])"
    unfolding applyExactMinutesRedline_def c [OF a(1,6)] bindr_simps zparse_ok [where p = "MinutesRedlineSchema plain_platform", OF s]
    using t(2) rg e c [OF a(2,7)] c [OF a(3,8)]
    by (simp add: t(1) Let_def wit_minutes_redline_def safeHashEqual_iff sha256Hex_schema del: lit_simps list.map)
  have w: "mr_anchor wit_minutes_redline = SectionAnchor (lit ''A'')" by (simp add: wit_minutes_redline_def)
  from redline_changes_exactly_its_anchor [OF r] r show ?thesis unfolding w by blast
qed

definition wit_action :: "jstring \<Rightarrow> MinutesActionItem" where
  "wit_action i = \<lparr>ai_itemId = i, ai_ownerMemberId = wit_uuid, ai_dueAt = lit ''2026-02-01T00:00:00Z'', ai_section = lit ''A'',
     ai_line = 1, ai_description = lit ''d'', ai_requiredEvidence = lit ''e'', ai_visibility = board_visible\<rparr>"

definition wit_manifest :: MinutesActionManifest where
  "wit_manifest = \<lparr>am_minutesId = wit_uuid, am_minutesVersion = 1, am_minutesSha256 = wit_sha,
     am_items = Some [wit_action wit_uuid, wit_action wit_uuid']\<rparr>"

definition wit_tasks :: "jstring list \<Rightarrow> DraftActionRef list" where
  "wit_tasks = map (\<lambda>i. \<lparr>da_taskId = i, da_sourceMinutesSha256 = wit_sha\<rparr>)"

lemma wit_manifest_ok: "MinutesActionManifestSchema plain_platform wit_manifest"
proof -
  have c: "canonicalText plain_platform (Text (lit [x])) = Inr (lit [x])" if "x \<in> {CHR ''A'', CHR ''d'', CHR ''e''}" for x
    using that by (auto simp: canonicalText_def starts_with_def assertUnicodeScalar_def)
  have u: "UuidSchema wit_uuid" "UuidSchema wit_uuid'" by code_simp+
  have d: "Rfc3339UtcSchema (lit ''2026-02-01T00:00:00Z'')" by code_simp
  have "MinutesActionItemSchema plain_platform (wit_action i)" if "UuidSchema i" for i
    using that u d c by (simp add: MinutesActionItemSchema_def wit_action_def canonicalString_def SafePositiveIntegerSchema_def
        isSafeInteger_def MAX_SAFE_INTEGER_def del: lit_simps)
  then show ?thesis
    using u by (simp add: MinutesActionManifestSchema_def wit_manifest_def SafePositiveIntegerSchema_def isSafeInteger_def
        MAX_SAFE_INTEGER_def) (simp add: wit_action_def)
qed

lemma wit_activation:
  "\<exists>h. activationManifestHash plain_platform wit_manifest (wit_tasks [wit_uuid, wit_uuid']) = Inr h \<and>
     activationManifestHash plain_platform wit_manifest (wit_tasks [wit_uuid', wit_uuid]) = Inr h"
proof -
  define ids where "ids = sort [wit_uuid, wit_uuid']"
  have d: "\<exists>h. canonicalSha256 plain_platform v = Inr h"
    if "js_json v" "index_free v" "json_depth v \<le> MAX_JSON_CONTAINER_DEPTH" "strings_ok (normalizeNFC plain_platform) v" for v
    using that by (simp add: canonicalSha256_iff)
  have i: "json_depth (string_array ids) = 1" "strings_ok (normalizeNFC plain_platform) (string_array ids)"
    by (simp_all add: string_array_def ids_def)
  obtain e where e: "canonicalSha256 plain_platform (string_array ids) = Inr e"
    using d [OF string_array_ok _ i(2)] i(1) unfolding MAX_JSON_CONTAINER_DEPTH_def by force
  have "js_json (action_manifest_json wit_manifest)" "index_free (action_manifest_json wit_manifest)"
    "json_depth (action_manifest_json wit_manifest) \<le> MAX_JSON_CONTAINER_DEPTH"
    "strings_ok (normalizeNFC plain_platform) (action_manifest_json wit_manifest)"
    by (simp_all add: action_manifest_json_def wit_manifest_def wit_action_def action_item_json_def MAX_JSON_CONTAINER_DEPTH_def
        isSafeInteger_def MAX_SAFE_INTEGER_def)
  from d [OF this] obtain k where k: "canonicalSha256 plain_platform (action_manifest_json wit_manifest) = Inr k" by blast
  have "Sha256HexSchema k" using k by (auto simp: canonicalSha256_def bindr_eq_Inr_iff sha256Hex_schema)
  then have "scalar_string (normalizeNFC plain_platform) k" by (rule scalar_digest)
  then have "strings_ok (normalizeNFC plain_platform) (action_activation_json k ids)"
    using i by (simp add: action_activation_json_def)
  moreover have "js_json (action_activation_json k ids)" "index_free (action_activation_json k ids)"
    "json_depth (action_activation_json k ids) \<le> MAX_JSON_CONTAINER_DEPTH"
    using i string_array_ok by (simp_all add: action_activation_json_def MAX_JSON_CONTAINER_DEPTH_def)
  ultimately obtain h where h: "canonicalSha256 plain_platform (action_activation_json k ids) = Inr h" using d by blast
  have m: "minutesActionManifestHash plain_platform wit_manifest = Inr k" "am_minutesSha256 wit_manifest = wit_sha"
    "(case am_items wit_manifest of Some items \<Rightarrow> sort (map ai_itemId items) | None \<Rightarrow> []) = ids"
    using wit_manifest_ok k by (simp_all add: minutesActionManifestHash_def zparse_def) (simp_all add: wit_manifest_def wit_action_def ids_def)
  have "activationManifestHash plain_platform wit_manifest (wit_tasks order) = Inr h" if "sort order = ids" for order
  proof -
    have "map da_taskId (wit_tasks order) = order" "list_all (\<lambda>t. safeHashEqual (da_sourceMinutesSha256 t) wit_sha) (wit_tasks order)"
      by (simp_all add: wit_tasks_def comp_def list_all_iff safeHashEqual_iff)
    then show ?thesis
      using e h m that wit_manifest_ok by (simp add: activationManifestHash_def zparse_def Let_def)
  qed
  moreover have "sort [wit_uuid', wit_uuid] = ids" "sort [wit_uuid, wit_uuid'] = ids" by (auto simp: ids_def)
  ultimately show ?thesis by blast
qed

theorem activation_binds_manifest_witness:
  "\<exists>h. activationManifestHash plain_platform wit_manifest (wit_tasks [wit_uuid, wit_uuid']) = Inr h \<and>
     activationManifestHash plain_platform wit_manifest (wit_tasks [wit_uuid', wit_uuid]) = Inr h \<and>
     mset (wit_tasks [wit_uuid, wit_uuid']) = mset (wit_tasks [wit_uuid', wit_uuid]) \<and>
     (\<forall>t\<in>set (wit_tasks [wit_uuid, wit_uuid']). da_sourceMinutesSha256 t = am_minutesSha256 wit_manifest)"
proof -
  from wit_activation obtain h where
    h: "activationManifestHash plain_platform wit_manifest (wit_tasks [wit_uuid, wit_uuid']) = Inr h"
       "activationManifestHash plain_platform wit_manifest (wit_tasks [wit_uuid', wit_uuid]) = Inr h" by blast
  moreover have "mset (wit_tasks [wit_uuid, wit_uuid']) = mset (wit_tasks [wit_uuid', wit_uuid])" by (simp add: wit_tasks_def)
  ultimately show ?thesis using activation_binds_manifest [OF h] by blast
qed

end
