(* ===== verification/Question.thy ===== *)
theory Question
  imports Minutes
begin

text \<open>
  Questions to the management, \<^verbatim>\<open>lib/domain/src/question.ts\<close>: a question or a turn of its thread is brought into a
  normal form, whose canonical JSON is hashed. The order of \<open>localeCompare\<close> is the argument \<open>lc\<close>.
\<close>

section \<open>Normal forms\<close>

datatype QuestionVisibilityGrant =
    MemberGrant jstring
  | SeatRoleGrant GovernanceSeatRole

definition normalizedCitations :: "platform \<Rightarrow> GovernanceCitation list \<Rightarrow> GovernanceCitation list result" where
  "normalizedCitations pl citations =
     (if 64 < length citations then throw (RangeError ''question citations cannot exceed 64 entries'')
      else mapr (zparse (GovernanceCitationSchema pl)) citations)"

fun grant_key :: "QuestionVisibilityGrant \<Rightarrow> jstring" where
  "grant_key (MemberGrant memberId) = lit ''member:'' @ memberId"
| "grant_key (SeatRoleGrant seatRole) = lit ''seat_role:'' @ seat_role_name seatRole"

fun collect_grants ::
    "(jstring \<times> QuestionVisibilityGrant) list \<Rightarrow> QuestionVisibilityGrant list \<Rightarrow> (jstring \<times> QuestionVisibilityGrant) list result" where
  "collect_grants normalized [] = Inr normalized"
| "collect_grants normalized (grant # visibility) =
     (case grant of
        MemberGrant m \<Rightarrow>
          bindr (zparse UuidV7Schema m) (\<lambda>memberId.
            collect_grants (map_set (grant_key (MemberGrant memberId)) (MemberGrant memberId) normalized) visibility)
      | SeatRoleGrant seatRole \<Rightarrow>
          collect_grants (map_set (grant_key (SeatRoleGrant seatRole)) (SeatRoleGrant seatRole) normalized) visibility)"

definition entry_order :: "(jstring \<Rightarrow> jstring \<Rightarrow> int) \<Rightarrow> jstring \<times> 'v \<Rightarrow> jstring \<times> 'v \<Rightarrow> int" where
  "entry_order lc left right = lc (fst left) (fst right)"

definition normalizedVisibility ::
    "(jstring \<Rightarrow> jstring \<Rightarrow> int) \<Rightarrow> QuestionVisibilityGrant list \<Rightarrow> QuestionVisibilityGrant list result" where
  "normalizedVisibility lc visibility =
     (if length visibility < 1 \<or> 1003 < length visibility
        then throw (RangeError ''question visibility must contain 1 through 1003 grants'')
      else bindr (collect_grants [] visibility) (\<lambda>normalized.
        Inr (map snd (toSorted (entry_order lc) normalized))))"

definition normalizedOwners :: "jstring list \<Rightarrow> jstring list result" where
  "normalizedOwners ownerIds =
     (if length ownerIds < 1 \<or> 1000 < length ownerIds
        then throw (RangeError ''assigned owner IDs must contain 1 through 1000 entries'')
      else bindr (mapr (zparse UuidV7Schema) ownerIds) (\<lambda>ids. Inr (sort (js_set ids))))"

definition canonicalNonblank :: "platform \<Rightarrow> jstring \<Rightarrow> string \<Rightarrow> jstring result" where
  "canonicalNonblank pl val label =
     bindr (canonicalText pl (Text val)) (\<lambda>canonical.
       if 1048576 < length canonical then throw (RangeError (label @ '' exceeds 1 MiB''))
       else if length (js_trim canonical) = 0 then throw (TypeError (label @ '' must be nonblank''))
       else Inr canonical)"

section \<open>Questions\<close>

record ManagementQuestionInput =
  qi_questionId :: jstring
  qi_boardId :: jstring
  qi_question :: jstring
  qi_assignedOwnerIds :: "jstring list"
  qi_dueAt :: jstring
  qi_citations :: "GovernanceCitation list"
  qi_visibility :: "QuestionVisibilityGrant list"

record PreparedManagementQuestion = ManagementQuestionInput +
  pq_textSha256 :: jstring
  pq_canonicalPayload :: "byte list"
  pq_requestSha256 :: jstring

definition governance_citation_json :: "GovernanceCitation \<Rightarrow> json" where
  "governance_citation_json c = JObj
     [(lit ''sourceDocumentVersionId'', JStr (gc_sourceDocumentVersionId c)),
      (lit ''sourceDocumentSha256'', JStr (gc_sourceDocumentSha256 c)), (lit ''clause'', JStr (gc_clause c)),
      (lit ''locator'', JStr (gc_locator c))]"

fun grant_json :: "QuestionVisibilityGrant \<Rightarrow> json" where
  "grant_json (MemberGrant memberId) = JObj [(lit ''granteeType'', jstr ''member''), (lit ''memberId'', JStr memberId)]"
| "grant_json (SeatRoleGrant seatRole) =
     JObj [(lit ''granteeType'', jstr ''seat_role''), (lit ''seatRole'', JStr (seat_role_name seatRole))]"

definition acl_policy_json :: "QuestionVisibilityGrant list \<Rightarrow> json" where
  "acl_policy_json grants = JObj
     [(lit ''schemaVersion'', jstr ''boardagent.question-acl.v1''), (lit ''grants'', JArr (map grant_json grants))]"

definition question_json :: "('a ManagementQuestionInput_scheme) \<Rightarrow> json" where
  "question_json q = JObj
     [(lit ''schemaVersion'', jstr ''boardagent.management-question.v1''), (lit ''questionId'', JStr (qi_questionId q)),
      (lit ''boardId'', JStr (qi_boardId q)), (lit ''question'', JStr (qi_question q)),
      (lit ''assignedOwnerIds'', string_array (qi_assignedOwnerIds q)), (lit ''dueAt'', JStr (qi_dueAt q)),
      (lit ''citations'', JArr (map governance_citation_json (qi_citations q))),
      (lit ''aclPolicy'', acl_policy_json (qi_visibility q))]"

definition prepareManagementQuestion ::
    "platform \<Rightarrow> (jstring \<Rightarrow> jstring \<Rightarrow> int) \<Rightarrow> ManagementQuestionInput \<Rightarrow> PreparedManagementQuestion result" where
  "prepareManagementQuestion pl lc i =
     bindr (zparse UuidV7Schema (qi_questionId i)) (\<lambda>questionId.
     bindr (zparse UuidV7Schema (qi_boardId i)) (\<lambda>boardId.
     bindr (canonicalNonblank pl (qi_question i) ''management question'') (\<lambda>question.
     bindr (normalizedOwners (qi_assignedOwnerIds i)) (\<lambda>assignedOwnerIds.
     bindr (zparse Rfc3339UtcSchema (qi_dueAt i)) (\<lambda>dueAt.
     bindr (normalizedCitations pl (qi_citations i)) (\<lambda>citations.
     bindr (normalizedVisibility lc (qi_visibility i)) (\<lambda>visibility.
     let payload = \<lparr>qi_questionId = questionId, qi_boardId = boardId, qi_question = question,
         qi_assignedOwnerIds = assignedOwnerIds, qi_dueAt = dueAt, qi_citations = citations, qi_visibility = visibility\<rparr>
     in bindr (canonicalJson pl (question_json payload)) (\<lambda>canonical.
        bindr (canonicalSha256 pl (question_json payload)) (\<lambda>requestSha256.
        Inr (ManagementQuestionInput.extend payload
          \<lparr>pq_textSha256 = sha256Hex (Text question), pq_canonicalPayload = utf8_encode canonical,
           pq_requestSha256 = requestSha256\<rparr>))))))))))"

section \<open>Turns\<close>

text \<open>A follow-up has a due date, an answer has none.\<close>

datatype QuestionTurnKind = question_answer | question_follow_up jstring

record ManagementQuestionTurnInput =
  ti_questionId :: jstring
  ti_text :: jstring
  ti_citations :: "GovernanceCitation list"
  ti_turnKind :: QuestionTurnKind

record PreparedManagementQuestionTurn = ManagementQuestionTurnInput +
  pt_textSha256 :: jstring
  pt_canonicalPayload :: "byte list"
  pt_requestSha256 :: jstring

fun turn_kind_name :: "QuestionTurnKind \<Rightarrow> jstring" where
  "turn_kind_name question_answer = lit ''answer''"
| "turn_kind_name (question_follow_up dueAt) = lit ''follow_up''"

fun turn_due :: "QuestionTurnKind \<Rightarrow> jstring option" where
  "turn_due question_answer = None"
| "turn_due (question_follow_up dueAt) = Some dueAt"

definition turn_json :: "('a ManagementQuestionTurnInput_scheme) \<Rightarrow> json" where
  "turn_json t = JObj
     [(lit ''schemaVersion'', jstr ''boardagent.management-question-turn.v1''), (lit ''questionId'', JStr (ti_questionId t)),
      (lit ''turnKind'', JStr (turn_kind_name (ti_turnKind t))), (lit ''text'', JStr (ti_text t)),
      (lit ''citations'', JArr (map governance_citation_json (ti_citations t))),
      (lit ''dueAt'', nullable JStr (turn_due (ti_turnKind t)))]"

definition prepareManagementQuestionTurn ::
    "platform \<Rightarrow> ManagementQuestionTurnInput \<Rightarrow> PreparedManagementQuestionTurn result" where
  "prepareManagementQuestionTurn pl i =
     bindr (zparse UuidV7Schema (ti_questionId i)) (\<lambda>questionId.
     bindr (canonicalNonblank pl (ti_text i) ''management question turn'') (\<lambda>body.
     bindr (normalizedCitations pl (ti_citations i)) (\<lambda>citations.
     bindr (case ti_turnKind i of
         question_answer \<Rightarrow> Inr question_answer
       | question_follow_up dueAt \<Rightarrow> bindr (zparse Rfc3339UtcSchema dueAt) (\<lambda>d. Inr (question_follow_up d))) (\<lambda>turnKind.
     let payload = \<lparr>ti_questionId = questionId, ti_text = body, ti_citations = citations, ti_turnKind = turnKind\<rparr>
     in bindr (canonicalJson pl (turn_json payload)) (\<lambda>canonical.
        bindr (canonicalSha256 pl (turn_json payload)) (\<lambda>requestSha256.
        Inr (ManagementQuestionTurnInput.extend payload
          \<lparr>pt_textSha256 = sha256Hex (Text body), pt_canonicalPayload = utf8_encode canonical,
           pt_requestSha256 = requestSha256\<rparr>)))))))"

section \<open>The normal form depends on what is asked, not on how it is listed\<close>

lemma mapr_zparse_iff: "mapr (zparse P) xs = Inr ys \<longleftrightarrow> ys = xs \<and> list_all P xs"
proof (induction xs arbitrary: ys)
  case (Cons x xs)
  then show ?case by (cases "P x") (auto simp: bindr_eq_Inr_iff zparse_def)
qed auto

lemma normalizedCitations_ok:
  "normalizedCitations pl cs = Inr ds \<longleftrightarrow> ds = cs \<and> length cs \<le> 64 \<and> list_all (GovernanceCitationSchema pl) cs"
  by (auto simp: normalizedCitations_def mapr_zparse_iff)

lemma sort_js_set: "sort (js_set xs) = sorted_list_of_set (set xs)"
  by (metis distinct_js_set distinct_remdups_id set_js_set sorted_list_of_set_sort_remdups)

lemma normalizedOwners_ok:
  "normalizedOwners xs = Inr ys \<longleftrightarrow>
     xs \<noteq> [] \<and> length xs \<le> 1000 \<and> list_all UuidV7Schema xs \<and> ys = sorted_list_of_set (set xs)"
  by (auto simp: normalizedOwners_def bindr_eq_Inr_iff mapr_zparse_iff sort_js_set)

lemma grant_key_inj: "grant_key g = grant_key h \<longleftrightarrow> g = h"
  by (cases g; cases h) (auto simp: governance_name_inj)

fun grant_ok :: "QuestionVisibilityGrant \<Rightarrow> bool" where
  "grant_ok (MemberGrant memberId) \<longleftrightarrow> UuidV7Schema memberId"
| "grant_ok (SeatRoleGrant seatRole) \<longleftrightarrow> True"

abbreviation put_grant :: "(jstring \<times> QuestionVisibilityGrant) list \<Rightarrow> QuestionVisibilityGrant \<Rightarrow> (jstring \<times> QuestionVisibilityGrant) list" where
  "put_grant m g \<equiv> map_set (grant_key g) g m"

lemma collect_grants_ok: "collect_grants m gs = Inr m' \<longleftrightarrow> list_all grant_ok gs \<and> m' = foldl put_grant m gs"
proof (induction gs arbitrary: m)
  case (Cons g gs)
  then show ?case by (cases g) (auto simp: bindr_eq_Inr_iff zparse_def)
qed auto

lemma map_set_same: "map_of m k = Some v \<Longrightarrow> map_set k v m = m"
  by (induction m) (auto split: if_splits)

lemma put_grant_js_set:
  "foldl put_grant (map (\<lambda>g. (grant_key g, g)) s) gs = map (\<lambda>g. (grant_key g, g)) (foldl set_add s gs)"
proof (induction gs arbitrary: s)
  case (Cons g gs)
  have m: "map_of (map (\<lambda>g. (grant_key g, g)) s) (grant_key h) = (if h \<in> set s then Some h else None)" for h
    by (induction s) (auto simp: grant_key_inj)
  have "put_grant (map (\<lambda>g. (grant_key g, g)) s) g = map (\<lambda>g. (grant_key g, g)) (set_add s g)"
    using m [of g] by (simp add: map_set_same map_set_new)
  then show ?case by (simp only: foldl_Cons Cons.IH)
qed simp

text \<open>What the order of the visibility grants needs from the string order of the language: a total preorder on strings, as its
  standard demands of it, that tells two different grant keys (a UUID behind a tag, or one of the fixed seat roles behind
  a tag) apart.\<close>

definition grant_order :: "(jstring \<Rightarrow> jstring \<Rightarrow> int) \<Rightarrow> bool" where
  "grant_order lc \<longleftrightarrow> comparator lc \<and>
     (\<forall>g h. grant_ok g \<and> grant_ok h \<and> lc (grant_key g) (grant_key h) \<le> 0 \<and> lc (grant_key h) (grant_key g) \<le> 0 \<longrightarrow> g = h)"

lemma sorted_wrt_unique:
  assumes "sorted_wrt R xs" and "sorted_wrt R ys" and "distinct xs" and "distinct ys" and "set xs = set ys"
    and "\<And>x y. x \<in> set xs \<Longrightarrow> y \<in> set xs \<Longrightarrow> R x y \<Longrightarrow> R y x \<Longrightarrow> x = y"
  shows "xs = ys"
  using assms
proof (induction xs arbitrary: ys)
  case (Cons x xs)
  then obtain y ys' where ys: "ys = y # ys'" by (cases ys) auto
  have "x = y"
  proof (rule ccontr)
    assume "x \<noteq> y"
    have e: "insert x (set xs) = insert y (set ys')" using Cons.prems(5) ys by simp
    then have "x \<in> insert y (set ys')" "y \<in> insert x (set xs)" by (metis insertI1)+
    with \<open>x \<noteq> y\<close> have "x \<in> set ys'" "y \<in> set xs" by simp_all
    have "R x y" using Cons.prems(1) \<open>y \<in> set xs\<close> by simp
    moreover have "R y x" using Cons.prems(2) \<open>x \<in> set ys'\<close> unfolding ys by simp
    ultimately have "x = y" using \<open>y \<in> set xs\<close> by (intro Cons.prems(6)) simp_all
    with \<open>x \<noteq> y\<close> show False by simp
  qed
  then have "insert x (set xs) = insert x (set ys')" "x \<notin> set xs" "x \<notin> set ys'"
    using Cons.prems(3-5) ys by simp_all
  then have "set xs = set ys'" by (metis insert_ident)
  then have "xs = ys'" using Cons.prems ys by (intro Cons.IH) simp_all
  with ys \<open>x = y\<close> show ?case by simp
qed simp

lemma matches_ascii:
  assumes "matches ps s" and "\<And>p c. p \<in> set ps \<Longrightarrow> p c \<Longrightarrow> c < 0x80"
  shows "is_ascii s"
proof -
  have "s ! n < 0x80" if "n < length s" for n
    using assms(1) that by (intro assms(2) [of "ps ! n"]) (simp_all add: matches_def list_all2_conv_all_nth)
  then show ?thesis by (simp add: is_ascii_def list_all_length)
qed

lemma uuid_ascii: "UuidV7Schema s \<Longrightarrow> is_ascii s"
  unfolding UuidV7Schema_def
proof (erule matches_ascii)
  fix p and c :: "16 word"
  have d: "is_lower_hex c \<Longrightarrow> c < 0x80" by (auto simp: is_lower_hex_def is_digit_def word_le_nat_alt word_less_nat_alt)
  assume "p \<in> set UUID_V7_PATTERN" and "p c"
  then show "c < 0x80" using d by (auto simp: UUID_V7_PATTERN_def is_char_def set_replicate_conv_if)
qed

lemma normalizedVisibility_ok:
  "normalizedVisibility lc gs = Inr vs \<longleftrightarrow>
     gs \<noteq> [] \<and> length gs \<le> 1003 \<and> list_all grant_ok gs \<and>
     vs = map snd (toSorted (entry_order lc) (map (\<lambda>g. (grant_key g, g)) (js_set gs)))"
  using put_grant_js_set [of "[]" gs] by (auto simp: normalizedVisibility_def bindr_eq_Inr_iff collect_grants_ok js_set_def)

lemma visibility_set: "normalizedVisibility lc gs = Inr vs \<Longrightarrow> set vs = set gs"
  by (auto simp: normalizedVisibility_ok image_image)

lemma visibility_unique:
  assumes "grant_order lc" and "normalizedVisibility lc gs = Inr vs" and "normalizedVisibility lc hs = Inr ws" and "set gs = set hs"
  shows "vs = ws"
proof -
  let ?e = "\<lambda>gs. map (\<lambda>g. (grant_key g, g)) (js_set gs)"
  have c: "comparator (entry_order lc)"
    using assms(1) by (simp add: grant_order_def comparator_def entry_order_def)
  have "toSorted (entry_order lc) (?e gs) = toSorted (entry_order lc) (?e hs)"
  proof (rule sorted_wrt_unique)
    fix x y
    assume xy: "x \<in> set (toSorted (entry_order lc) (?e gs))" "y \<in> set (toSorted (entry_order lc) (?e gs))"
      and le: "entry_order lc x y \<le> 0" "entry_order lc y x \<le> 0"
    then obtain g h where gh: "x = (grant_key g, g)" "g \<in> set gs" "y = (grant_key h, h)" "h \<in> set gs" by auto
    then have "grant_ok g" "grant_ok h" using assms(2) by (auto simp: normalizedVisibility_ok list_all_iff)
    with le gh assms(1) have "g = h" by (auto simp: grant_order_def entry_order_def)
    then show "x = y" by (simp add: gh)
  next
    have d: "distinct (?e xs)" for xs by (simp add: distinct_map inj_on_def)
    then show "distinct (toSorted (entry_order lc) (?e gs))" "distinct (toSorted (entry_order lc) (?e hs))"
      by (metis mset_eq_imp_distinct_iff mset_toSorted)+
    show "set (toSorted (entry_order lc) (?e gs)) = set (toSorted (entry_order lc) (?e hs))" using assms(4) by simp
  qed (rule comparator.toSorted_sorted [OF c])+
  then show ?thesis using assms(2,3) by (simp add: normalizedVisibility_ok)
qed

section \<open>What a request hash identifies\<close>

lemma governance_citation_json_inj [json_inj]:
  "jval_of (governance_citation_json c) = jval_of (governance_citation_json d) \<longleftrightarrow> c = d"
  unfolding governance_citation_json_def by (subst jval_obj_eq) auto

lemma grant_json_inj [json_inj]: "jval_of (grant_json g) = jval_of (grant_json h) \<longleftrightarrow> g = h"
proof -
  have l: "jfield (lit ''granteeType'') (grant_json k) = Some (case k of MemberGrant _ \<Rightarrow> jstr ''member'' | SeatRoleGrant _ \<Rightarrow> jstr ''seat_role'')" for k
    by (cases k) simp_all
  have o: "jval_of (JObj [(lit a, JStr x), (lit b, JStr m)]) = jval_of (JObj [(lit a, JStr x), (lit b, JStr n)]) \<longleftrightarrow> m = n"
    if "a \<noteq> b" for a b x m n using that by (subst jval_obj_eq) (auto simp: lit_inj)
  show ?thesis
  proof
    assume eq: "jval_of (grant_json g) = jval_of (grant_json h)"
    from jfield_jval [OF l eq] l [of h] have "(\<exists>m n. g = MemberGrant m \<and> h = MemberGrant n) \<or> (\<exists>r s. g = SeatRoleGrant r \<and> h = SeatRoleGrant s)"
      by (auto split: QuestionVisibilityGrant.splits)
    with eq show "g = h"
    proof (elim disjE exE conjE)
      fix m n assume "g = MemberGrant m" "h = MemberGrant n"
      with eq show "g = h" unfolding grant_json.simps by (simp add: o del: lit_simps jval_of.simps)
    next
      fix r s assume "g = SeatRoleGrant r" "h = SeatRoleGrant s"
      with eq show "g = h" unfolding grant_json.simps by (simp add: o governance_name_inj del: lit_simps jval_of.simps)
    qed
  qed simp
qed

lemmas question_arrays [json_inj] = jarr_inj [OF governance_citation_json_inj] jarr_inj [OF grant_json_inj]

lemma acl_policy_json_inj [json_inj]: "jval_of (acl_policy_json gs) = jval_of (acl_policy_json hs) \<longleftrightarrow> gs = hs"
  unfolding acl_policy_json_def by (subst jval_obj_eq) (simp_all add: json_inj del: jval_of.simps(5))

lemma question_json_inj: "jval_of (question_json q) = jval_of (question_json r) \<longleftrightarrow> q = r"
  for q r :: ManagementQuestionInput
proof
  assume "jval_of (question_json q) = jval_of (question_json r)"
  then show "q = r"
    unfolding question_json_def
    by (subst (asm) jval_obj_eq) (auto simp: json_inj simp del: jval_of.simps(5) intro!: ManagementQuestionInput.equality)
qed simp

lemma citations_json_ok: "js_json (JArr (map governance_citation_json cs))" "index_free (JArr (map governance_citation_json cs))"
  by (auto simp: governance_citation_json_def)

lemma question_json_ok: "js_json (question_json q)" "index_free (question_json q)"
proof -
  have g: "js_json (grant_json g)" "index_free (grant_json g)" for g by (cases g; simp)+
  show "js_json (question_json q)" "index_free (question_json q)"
    using g citations_json_ok [of "qi_citations q"] string_array_ok [of "qi_assignedOwnerIds q"]
    by (auto simp: question_json_def acl_policy_json_def)
qed

text \<open>The payload a question is hashed as.\<close>

definition question_payload :: "('a ManagementQuestionInput_scheme) \<Rightarrow> ManagementQuestionInput" where
  "question_payload q = ManagementQuestionInput.truncate q"

lemma prepared_question:
  assumes "prepareManagementQuestion pl lc i = Inr p"
  obtains vs where "normalizedVisibility lc (qi_visibility i) = Inr vs"
    and "question_payload p = i\<lparr>qi_assignedOwnerIds := sorted_list_of_set (set (qi_assignedOwnerIds i)), qi_visibility := vs\<rparr>"
    and "canonicalSha256 pl (question_json (question_payload p)) = Inr (pq_requestSha256 p)"
    and "pq_canonicalPayload p = canonical_bytes (question_json (question_payload p))"
proof -
  have canon: "canonicalNonblank pl s label = Inr t \<Longrightarrow> t = s" for s t label
    by (auto simp: canonicalNonblank_def canonicalText_def bindr_eq_Inr_iff split: if_splits)
  let ?P = "\<lambda>question vs. i\<lparr>qi_question := question, qi_assignedOwnerIds := sorted_list_of_set (set (qi_assignedOwnerIds i)),
    qi_visibility := vs\<rparr>"
  have P: "?P question vs = \<lparr>qi_questionId = qi_questionId i, qi_boardId = qi_boardId i, qi_question = question,
      qi_assignedOwnerIds = sorted_list_of_set (set (qi_assignedOwnerIds i)), qi_dueAt = qi_dueAt i,
      qi_citations = qi_citations i, qi_visibility = vs\<rparr>" for question vs
    by (cases i) simp
  from assms obtain question vs canonical h where q: "canonicalNonblank pl (qi_question i) ''management question'' = Inr question"
    and vs: "normalizedVisibility lc (qi_visibility i) = Inr vs"
    and p: "p = ManagementQuestionInput.extend (?P question vs)
      \<lparr>pq_textSha256 = sha256Hex (Text question), pq_canonicalPayload = utf8_encode canonical, pq_requestSha256 = h\<rparr>"
    and c: "canonicalJson pl (question_json (?P question vs)) = Inr canonical"
    and h: "canonicalSha256 pl (question_json (?P question vs)) = Inr h"
    unfolding P by (auto simp: prepareManagementQuestion_def bindr_eq_Inr_iff Let_def normalizedOwners_ok normalizedCitations_ok)
  have "?P question vs = i\<lparr>qi_assignedOwnerIds := sorted_list_of_set (set (qi_assignedOwnerIds i)), qi_visibility := vs\<rparr>"
    by (simp add: canon [OF q])
  note p = p [unfolded this] and c = c [unfolded this] and h = h [unfolded this]
  let ?P = "i\<lparr>qi_assignedOwnerIds := sorted_list_of_set (set (qi_assignedOwnerIds i)), qi_visibility := vs\<rparr>"
  have pay: "question_payload p = ?P"
    by (cases i) (simp add: p question_payload_def ManagementQuestionInput.defs)
  have "pq_canonicalPayload p = canonical_bytes (question_json ?P)"
    using c by (simp add: p ManagementQuestionInput.defs canonicalJson_iff question_json_ok canonical_bytes_def)
  moreover have "pq_requestSha256 p = h" by (simp add: p ManagementQuestionInput.defs)
  ultimately show thesis using vs h pay by (intro that) simp_all
qed

text \<open>Two inputs ask the same question.\<close>

definition same_question :: "ManagementQuestionInput \<Rightarrow> ManagementQuestionInput \<Rightarrow> bool" where
  "same_question x y \<longleftrightarrow>
     qi_questionId x = qi_questionId y \<and> qi_boardId x = qi_boardId y \<and> qi_question x = qi_question y \<and>
     set (qi_assignedOwnerIds x) = set (qi_assignedOwnerIds y) \<and> qi_dueAt x = qi_dueAt y \<and>
     qi_citations x = qi_citations y \<and> set (qi_visibility x) = set (qi_visibility y)"

text \<open>Property C17: the hash of a management question identifies the question. When two accepted inputs have the same request
  hash, they agree in identifiers, text, due date and citations and name the same owners and the same visibility
  grants, or else their canonical payloads are a SHA-256 collision; this holds whatever the string order of the language. In
  the other direction, inputs that agree in all of this have the same hash, in whatever order and however often they name
  owners and grants, when that order tells different grant keys apart; and so do colliding payloads.\<close>

theorem question_hash_identifies:
  assumes "prepareManagementQuestion pl lc x = Inr p" and "prepareManagementQuestion pl lc y = Inr q"
  shows "(pq_requestSha256 p = pq_requestSha256 q \<longrightarrow>
      same_question x y \<or> sha256_collision (pq_canonicalPayload p) (pq_canonicalPayload q)) \<and>
    (grant_order lc \<and> same_question x y \<or> sha256_collision (pq_canonicalPayload p) (pq_canonicalPayload q) \<longrightarrow>
      pq_requestSha256 p = pq_requestSha256 q)"
proof -
  from assms(1) obtain vs where p: "normalizedVisibility lc (qi_visibility x) = Inr vs"
    "question_payload p = x\<lparr>qi_assignedOwnerIds := sorted_list_of_set (set (qi_assignedOwnerIds x)), qi_visibility := vs\<rparr>"
    "canonicalSha256 pl (question_json (question_payload p)) = Inr (pq_requestSha256 p)"
    "pq_canonicalPayload p = canonical_bytes (question_json (question_payload p))"
    by (rule prepared_question)
  from assms(2) obtain ws where q: "normalizedVisibility lc (qi_visibility y) = Inr ws"
    "question_payload q = y\<lparr>qi_assignedOwnerIds := sorted_list_of_set (set (qi_assignedOwnerIds y)), qi_visibility := ws\<rparr>"
    "canonicalSha256 pl (question_json (question_payload q)) = Inr (pq_requestSha256 q)"
    "pq_canonicalPayload q = canonical_bytes (question_json (question_payload q))"
    by (rule prepared_question)
  have vis: "vs = ws \<Longrightarrow> set (qi_visibility x) = set (qi_visibility y)"
    using visibility_set [OF p(1)] visibility_set [OF q(1)] by simp
  have owners: "sorted_list_of_set (set xs) = sorted_list_of_set (set ys) \<longleftrightarrow> set xs = set ys" for xs ys :: "jstring list"
    by (metis List.finite_set set_sorted_list_of_set)
  have same: "question_payload p = question_payload q \<Longrightarrow> same_question x y"
    by (cases x; cases y) (auto simp: p(2) q(2) same_question_def owners dest: vis)
  have "question_payload p = question_payload q" if "grant_order lc" "same_question x y"
    using that visibility_unique [OF that(1) p(1) q(1)]
    by (cases x; cases y) (simp add: p(2) q(2) same_question_def owners)
  then have ordered: "pq_requestSha256 p = pq_requestSha256 q" if "grant_order lc" "same_question x y"
    using that p(3) q(3) by simp
  have collide: "pq_requestSha256 p = pq_requestSha256 q" if "sha256_collision (pq_canonicalPayload p) (pq_canonicalPayload q)"
    using that p(3,4) q(3,4) by (simp add: sha256_collision_def canonicalSha256_iff question_json_ok)
  have "same_question x y \<or> sha256_collision (pq_canonicalPayload p) (pq_canonicalPayload q)"
    if "pq_requestSha256 p = pq_requestSha256 q"
  proof -
    have "canonicalSha256 pl (question_json (question_payload q)) = Inr (pq_requestSha256 p)" using q(3) that by simp
    from canonicalSha256_binding [OF question_json_ok(1) question_json_ok(1) question_json_ok(2) question_json_ok(2) p(3) this]
    show ?thesis using same by (auto simp: question_json_inj p(4) q(4))
  qed
  with ordered collide show ?thesis by blast
qed

text \<open>A turn is hashed as it is: two accepted turns with the same hash are equal, or their payloads collide.\<close>

lemma turn_json_inj: "jval_of (turn_json t) = jval_of (turn_json u) \<longleftrightarrow> t = u" for t u :: ManagementQuestionTurnInput
proof
  assume eq: "jval_of (turn_json t) = jval_of (turn_json u)"
  have k: "turn_kind_name a = turn_kind_name b \<Longrightarrow> turn_due a = turn_due b \<Longrightarrow> a = b" for a b by (cases a; cases b) simp_all
  from eq show "t = u"
    unfolding turn_json_def
    by (subst (asm) jval_obj_eq)
      (auto simp: json_inj nullable_jval_inj simp del: jval_of.simps(5) intro!: ManagementQuestionTurnInput.equality k)
qed simp

lemma turn_json_ok: "js_json (turn_json t)" "index_free (turn_json t)"
  using citations_json_ok [of "ti_citations t"] by (cases "ti_turnKind t"; auto simp: turn_json_def)+

lemma prepared_turn:
  assumes "prepareManagementQuestionTurn pl i = Inr p"
  shows "p = ManagementQuestionTurnInput.extend i \<lparr>pt_textSha256 = sha256Hex (Text (ti_text i)),
      pt_canonicalPayload = canonical_bytes (turn_json i), pt_requestSha256 = pt_requestSha256 p\<rparr>"
    and "canonicalSha256 pl (turn_json i) = Inr (pt_requestSha256 p)"
proof -
  have canon: "canonicalNonblank pl s label = Inr t \<Longrightarrow> t = s" for s t label
    by (auto simp: canonicalNonblank_def canonicalText_def bindr_eq_Inr_iff split: if_splits)
  have "\<exists>h. canonicalSha256 pl (turn_json i) = Inr h \<and> p = ManagementQuestionTurnInput.extend i
      \<lparr>pt_textSha256 = sha256Hex (Text (ti_text i)), pt_canonicalPayload = canonical_bytes (turn_json i), pt_requestSha256 = h\<rparr>"
    using assms
    by (cases i; cases "ti_turnKind i")
      (auto simp: prepareManagementQuestionTurn_def bindr_eq_Inr_iff Let_def normalizedCitations_ok canonicalJson_iff turn_json_ok
        canonical_bytes_def dest: canon)
  then show "p = ManagementQuestionTurnInput.extend i \<lparr>pt_textSha256 = sha256Hex (Text (ti_text i)),
      pt_canonicalPayload = canonical_bytes (turn_json i), pt_requestSha256 = pt_requestSha256 p\<rparr>"
    and "canonicalSha256 pl (turn_json i) = Inr (pt_requestSha256 p)"
    by (auto simp: ManagementQuestionTurnInput.defs)
qed

lemma turn_hash_identifies:
  assumes "prepareManagementQuestionTurn pl x = Inr p" and "prepareManagementQuestionTurn pl y = Inr q"
    and "pt_requestSha256 p = pt_requestSha256 q"
  shows "x = y \<or> sha256_collision (canonical_bytes (turn_json x)) (canonical_bytes (turn_json y))"
proof -
  have "canonicalSha256 pl (turn_json y) = Inr (pt_requestSha256 p)" using prepared_turn(2) [OF assms(2)] assms(3) by simp
  from canonicalSha256_binding [OF turn_json_ok(1) turn_json_ok(1) turn_json_ok(2) turn_json_ok(2) prepared_turn(2) [OF assms(1)] this]
  show ?thesis by (simp add: turn_json_inj)
qed

section \<open>An instance\<close>

abbreviation wit_order :: "jstring \<Rightarrow> jstring \<Rightarrow> int" where
  "wit_order \<equiv> \<lambda>x y. if x < y then - 1 else if x = y then 0 else 1"

definition wit_question :: "jstring list \<Rightarrow> ManagementQuestionInput" where
  "wit_question owners = \<lparr>qi_questionId = wit_uuid, qi_boardId = wit_uuid', qi_question = lit ''Why'', qi_assignedOwnerIds = owners,
     qi_dueAt = lit ''2026-02-01T00:00:00Z'', qi_citations = [], qi_visibility = [SeatRoleGrant gs_observer]\<rparr>"

lemma wit_question_prepared:
  assumes "owners \<noteq> []" and "set owners \<subseteq> {wit_uuid, wit_uuid'}" and "length owners \<le> 2"
  shows "\<exists>p. prepareManagementQuestion plain_platform lc (wit_question owners) = Inr p"
proof -
  let ?q = "(wit_question owners)\<lparr>qi_assignedOwnerIds := sorted_list_of_set (set owners)\<rparr>"
  have t: "canonicalNonblank plain_platform (lit ''Why'') l = Inr (lit ''Why'')" for l
    by (simp add: canonicalNonblank_def canonicalText_def starts_with_def assertUnicodeScalar_def js_trim_def js_space_def)
  have o: "normalizedOwners owners = Inr (sorted_list_of_set (set owners))"
    using assms by (auto simp: normalizedOwners_ok list_all_iff)
  have v: "normalizedVisibility lc [SeatRoleGrant gs_observer] = Inr [SeatRoleGrant gs_observer]"
    by (simp add: normalizedVisibility_def toSorted_def)
  have d: "Rfc3339UtcSchema (lit ''2026-02-01T00:00:00Z'')" by code_simp
  have "foldr max (map (\<lambda>x. 0) xs) 0 = (0 :: nat)" for xs :: "jstring list" by (induction xs) simp_all
  then have "json_depth (question_json ?q) \<le> MAX_JSON_CONTAINER_DEPTH"
    by (simp add: question_json_def acl_policy_json_def string_array_def wit_question_def MAX_JSON_CONTAINER_DEPTH_def comp_def)
  moreover have "strings_ok (normalizeNFC plain_platform) (question_json ?q)"
    using assms(2) by (auto simp: question_json_def acl_policy_json_def string_array_def wit_question_def)
  ultimately obtain c h where "canonicalJson plain_platform (question_json ?q) = Inr c"
    "canonicalSha256 plain_platform (question_json ?q) = Inr h"
    by (simp add: canonicalJson_iff canonicalSha256_iff question_json_ok)
  then show ?thesis
    using t o v d by (simp add: prepareManagementQuestion_def wit_question_def normalizedCitations_def zparse_def Let_def
        del: lit_simps)
qed

theorem question_hash_identifies_witness:
  "\<exists>p q. prepareManagementQuestion plain_platform wit_order (wit_question [wit_uuid, wit_uuid']) = Inr p \<and>
     prepareManagementQuestion plain_platform wit_order (wit_question [wit_uuid', wit_uuid]) = Inr q \<and>
     pq_requestSha256 p = pq_requestSha256 q"
proof -
  obtain p q where pq: "prepareManagementQuestion plain_platform wit_order (wit_question [wit_uuid, wit_uuid']) = Inr p"
    "prepareManagementQuestion plain_platform wit_order (wit_question [wit_uuid', wit_uuid]) = Inr q"
    using wit_question_prepared [of "[wit_uuid, wit_uuid']" wit_order] wit_question_prepared [of "[wit_uuid', wit_uuid]" wit_order]
    by auto
  have lt: "wit_order x y \<le> 0 \<longleftrightarrow> x \<le> y" for x y by auto
  have "comparator wit_order" by (auto simp: comparator_def split: if_splits)
  then have "grant_order wit_order" unfolding grant_order_def lt by (metis antisym grant_key_inj)
  with question_hash_identifies [OF pq] pq show ?thesis by (auto simp: same_question_def wit_question_def)
qed

end
