(* ===== verification/Vote_Store.thy ===== *)
theory Vote_Store
  imports Audit_Event Decision_Package State_Machines
begin

text \<open>
  The rows a vote keeps in the database and the statements that read and write them, as far as
  the transactions of \<^verbatim>\<open>lib/db/src/transactions/ballots.ts\<close>, \<^verbatim>\<open>recusals.ts\<close>, \<^verbatim>\<open>vote-close.ts\<close> and
  \<^verbatim>\<open>audit.ts\<close> use them. A table is the list of its rows in the order of insertion; a statement is a
  function on the store; an insert that violates a primary key or a unique constraint throws. The row
  locks make the transactions of one vote run one after the other, so a transaction is
  a function from the store to a result with the new store, and a thrown error leaves the store as it
  was. Digests and identifiers are kept as the strings the program exchanges with the database. A
  timestamp is a number of microseconds.

  What the statements obtain from other tables is an argument of the transaction, the record
  \<open>TxEnv\<close>: the request context, the clock, whether the board is visible and the actor may act for a
  scope, the locked membership of a board, whether a member stands recused on the board, whether a consent
  record confirms a board recusal, and the entitled recipients of a recusal notice.
\<close>

section \<open>The environment of a transaction\<close>

record ActiveRequestContext =
  cx_organizationId :: jstring
  cx_memberId :: jstring
  cx_clientId :: jstring
  cx_tokenJti :: jstring

record BoardMember =
  bm_activeNow :: bool
  bm_votingSeat :: bool
  bm_votingWeight :: int

record TxEnv =
  tx_context :: "ActiveRequestContext option"
  tx_now :: int
  tx_nowText :: jstring
  tx_boardAllowed :: "jstring \<Rightarrow> bool"
  tx_actorReady :: "jstring \<Rightarrow> jstring \<Rightarrow> bool"
  tx_boardMember :: "jstring \<Rightarrow> jstring \<Rightarrow> jstring \<Rightarrow> BoardMember option"
  tx_instant :: "jstring \<Rightarrow> int"
  tx_voteActorReady :: "jstring \<Rightarrow> bool"
  tx_targetActive :: "jstring \<Rightarrow> jstring \<Rightarrow> jstring \<Rightarrow> bool"
  tx_boardRecused :: "jstring \<Rightarrow> jstring \<Rightarrow> bool"
  tx_boardRecusalConfirmed :: "jstring \<Rightarrow> jstring \<Rightarrow> jstring \<Rightarrow> bool"
  tx_recusalRecipients :: "jstring \<Rightarrow> jstring \<Rightarrow> RecusalState \<Rightarrow> bool \<Rightarrow> (jstring \<times> int) list"

definition readRequestContext :: "TxEnv \<Rightarrow> ActiveRequestContext result" where
  "readRequestContext env =
     (case tx_context env of
        None \<Rightarrow> throw (Error ''managed request context is unavailable'')
      | Some cx \<Rightarrow> Inr cx)"

section \<open>Tables\<close>

datatype ProxyPolicy = Policy PrincipalSupersessionRule | proxy_forbidden

text \<open>A vote joined with its current decision package and its approval rule.\<close>

record VoteRow =
  vo_id :: jstring
  vo_organizationId :: jstring
  vo_boardId :: jstring
  vo_state :: VoteState
  vo_rowVersion :: int
  vo_packageId :: jstring
  vo_packageSha256 :: jstring
  vo_proxyPolicy :: ProxyPolicy
  vo_deadlineAt :: int
  vo_electorateSha256 :: jstring
  vo_rule :: ApprovalRule
  vo_closeMode :: TemplateCloseMode

record ElectorateRow =
  el_id :: jstring
  el_membershipVersionId :: jstring
  el_eligibilitySnapshot :: json
  el_eligibilitySha256 :: jstring
  el_voteId :: jstring
  el_organizationId :: jstring
  el_boardId :: jstring
  el_memberId :: jstring
  el_isChair :: bool
  el_votingWeight :: int

record ExclusionRow =
  xr_id :: jstring
  xr_organizationId :: jstring
  xr_boardId :: jstring
  xr_voteId :: jstring
  xr_memberId :: jstring
  xr_version :: int
  xr_state :: RecusalState
  xr_reason :: jstring
  xr_actorMemberId :: jstring
  xr_requestedState :: "RecusalState option"
  xr_sourceBoardExclusionId :: "jstring option"
  xr_consentRecordId :: jstring

record GrantRow =
  gr_id :: jstring
  gr_organizationId :: jstring
  gr_boardId :: jstring
  gr_voteId :: jstring
  gr_principalMemberId :: jstring
  gr_holderMemberId :: jstring
  gr_policy :: PrincipalSupersessionRule
  gr_consentRecordId :: jstring
  gr_expiresAt :: "int option"

record RevocationRow =
  rv_id :: jstring
  rv_grantId :: jstring
  rv_revokerMemberId :: jstring
  rv_reason :: jstring
  rv_consentRecordId :: jstring

record BallotRow =
  br_id :: jstring
  br_organizationId :: jstring
  br_boardId :: jstring
  br_voteId :: jstring
  br_packageId :: jstring
  br_principalMemberId :: jstring
  br_casterMemberId :: jstring
  br_choice :: BallotChoice
  br_statement :: "jstring option"
  br_statementSha256 :: "jstring option"
  br_votingWeight :: int
  br_source :: BallotSource
  br_proxyGrantId :: "jstring option"
  br_consentRecordId :: jstring

datatype DispositionEffect = superseded | invalidated_by_recusal | invalidated_by_vote_replacement

record DispositionRow =
  dr_id :: jstring
  dr_priorBallotId :: jstring
  dr_supersedingBallotId :: "jstring option"
  dr_reason :: jstring
  dr_effect :: DispositionEffect
  dr_auditEventId :: jstring

record StageRow =
  sr_id :: jstring
  sr_organizationId :: jstring
  sr_boardId :: "jstring option"
  sr_actorMemberId :: jstring
  sr_actingForMemberId :: "jstring option"
  sr_clientId :: jstring
  sr_tokenJti :: jstring
  sr_actionCode :: jstring
  sr_targetType :: jstring
  sr_targetId :: "jstring option"
  sr_payloadSha256 :: jstring
  sr_packageSha256 :: "jstring option"
  sr_state :: ConsentStageState

datatype ResponseAction = response_accept | response_decline | response_cancel

datatype AttemptState =
    attempt_prepared | attempt_confirmed | attempt_accepted | attempt_declined | attempt_cancelled | attempt_expired

record AttemptRow =
  ar_id :: jstring
  ar_organizationId :: jstring
  ar_stageId :: jstring
  ar_originalName :: jstring
  ar_responseAction :: "ResponseAction option"
  ar_state :: AttemptState

record ConsentRow =
  cr_id :: jstring
  cr_organizationId :: jstring
  cr_boardId :: "jstring option"
  cr_stageId :: jstring
  cr_attemptId :: jstring
  cr_actorMemberId :: jstring
  cr_clientId :: jstring
  cr_tokenJti :: jstring
  cr_actionCode :: jstring
  cr_targetType :: jstring
  cr_targetId :: "jstring option"
  cr_payloadSha256 :: jstring
  cr_packageSha256 :: "jstring option"
  cr_recordSha256 :: jstring

datatype IdempotencyState = idem_in_progress | idem_succeeded | idem_failed | idem_expired

record IdempotencyRow =
  ir_id :: jstring
  ir_actorMemberId :: jstring
  ir_clientId :: jstring
  ir_operation :: jstring
  ir_key :: jstring
  ir_requestSha256 :: jstring
  ir_state :: IdempotencyState
  ir_safeResponseId :: "jstring option"
  ir_safeResponseSha256 :: "jstring option"

datatype FeedState = feed_pending | feed_resolved | feed_superseded

record FeedRow =
  fr_id :: jstring
  fr_organizationId :: jstring
  fr_boardId :: jstring
  fr_memberId :: jstring
  fr_entitlementGeneration :: int
  fr_feedSequence :: int
  fr_actionType :: jstring
  fr_objectType :: jstring
  fr_objectId :: jstring
  fr_objectVersion :: int
  fr_visibilitySha256 :: jstring
  fr_canonicalPayload :: jstring
  fr_payloadSha256 :: jstring
  fr_state :: FeedState
  fr_noticeId :: "jstring option"
  fr_auditEventId :: jstring
  fr_resolvedAt :: "int option"

record NoticeRow =
  nr_id :: jstring
  nr_organizationId :: jstring
  nr_boardId :: jstring
  nr_noticeType :: jstring
  nr_objectType :: jstring
  nr_objectId :: jstring
  nr_objectVersion :: int
  nr_recipientMemberId :: jstring
  nr_contentSha256 :: jstring
  nr_feedSequence :: int
  nr_auditEventId :: jstring

record TombstoneRow =
  tr_id :: jstring
  tr_organizationId :: jstring
  tr_boardId :: jstring
  tr_memberId :: jstring
  tr_entitlementGeneration :: int
  tr_feedSequence :: int
  tr_removedFeedId :: jstring
  tr_objectType :: jstring
  tr_objectId :: jstring
  tr_reasonClass :: jstring
  tr_tombstoneSha256 :: jstring
  tr_auditEventId :: jstring

record AuditRow =
  au_event :: AuditEvent
  au_organizationId :: jstring
  au_actingForMemberId :: "jstring option"
  au_consentRecordId :: "jstring option"
  au_objectVersion :: "int option"

record VoteStore =
  st_votes :: "VoteRow list"
  st_electorate :: "ElectorateRow list"
  st_exclusions :: "ExclusionRow list"
  st_grants :: "GrantRow list"
  st_revocations :: "RevocationRow list"
  st_ballots :: "BallotRow list"
  st_dispositions :: "DispositionRow list"
  st_stages :: "StageRow list"
  st_attempts :: "AttemptRow list"
  st_consents :: "ConsentRow list"
  st_idempotency :: "IdempotencyRow list"
  st_feed :: "FeedRow list"
  st_notices :: "NoticeRow list"
  st_tombstones :: "TombstoneRow list"
  st_audit :: "AuditRow list"

text \<open>An insert checks the new row against the keys of the table.\<close>

definition insert_row :: "('r \<Rightarrow> 'r \<Rightarrow> bool) \<Rightarrow> 'r \<Rightarrow> 'r list \<Rightarrow> 'r list result" where
  "insert_row clash r rows =
     (if list_ex (clash r) rows then throw (Error ''duplicate key value violates unique constraint'')
      else Inr (rows @ [r]))"

definition grant_clash :: "GrantRow \<Rightarrow> GrantRow \<Rightarrow> bool" where
  "grant_clash a b \<longleftrightarrow> gr_id a = gr_id b \<or> gr_consentRecordId a = gr_consentRecordId b \<or>
     gr_voteId a = gr_voteId b \<and> gr_principalMemberId a = gr_principalMemberId b"

definition revocation_clash :: "RevocationRow \<Rightarrow> RevocationRow \<Rightarrow> bool" where
  "revocation_clash a b \<longleftrightarrow> rv_id a = rv_id b \<or> rv_grantId a = rv_grantId b"

definition ballot_clash :: "BallotRow \<Rightarrow> BallotRow \<Rightarrow> bool" where
  "ballot_clash a b \<longleftrightarrow> br_id a = br_id b \<or> br_consentRecordId a = br_consentRecordId b"

definition disposition_clash :: "DispositionRow \<Rightarrow> DispositionRow \<Rightarrow> bool" where
  "disposition_clash a b \<longleftrightarrow> dr_id a = dr_id b \<or> dr_priorBallotId a = dr_priorBallotId b"

definition exclusion_clash :: "ExclusionRow \<Rightarrow> ExclusionRow \<Rightarrow> bool" where
  "exclusion_clash a b \<longleftrightarrow> xr_id a = xr_id b \<or>
     xr_voteId a = xr_voteId b \<and> xr_memberId a = xr_memberId b \<and> xr_version a = xr_version b"

definition feed_clash :: "FeedRow \<Rightarrow> FeedRow \<Rightarrow> bool" where
  "feed_clash a b \<longleftrightarrow> fr_id a = fr_id b \<or>
     fr_memberId a = fr_memberId b \<and> fr_boardId a = fr_boardId b \<and>
     fr_entitlementGeneration a = fr_entitlementGeneration b \<and> fr_feedSequence a = fr_feedSequence b"

definition notice_clash :: "NoticeRow \<Rightarrow> NoticeRow \<Rightarrow> bool" where
  "notice_clash a b \<longleftrightarrow> nr_id a = nr_id b \<or>
     nr_recipientMemberId a = nr_recipientMemberId b \<and> nr_boardId a = nr_boardId b \<and>
     nr_feedSequence a = nr_feedSequence b \<or>
     nr_noticeType a = nr_noticeType b \<and> nr_objectType a = nr_objectType b \<and> nr_objectId a = nr_objectId b \<and>
     nr_objectVersion a = nr_objectVersion b \<and> nr_recipientMemberId a = nr_recipientMemberId b"

definition tombstone_clash :: "TombstoneRow \<Rightarrow> TombstoneRow \<Rightarrow> bool" where
  "tombstone_clash a b \<longleftrightarrow> tr_id a = tr_id b \<or> tr_tombstoneSha256 a = tr_tombstoneSha256 b \<or>
     tr_memberId a = tr_memberId b \<and> tr_boardId a = tr_boardId b \<and>
     tr_entitlementGeneration a = tr_entitlementGeneration b \<and> tr_feedSequence a = tr_feedSequence b"

definition same_idempotency_key :: "IdempotencyRow \<Rightarrow> IdempotencyRow \<Rightarrow> bool" where
  "same_idempotency_key a b \<longleftrightarrow> ir_actorMemberId a = ir_actorMemberId b \<and> ir_clientId a = ir_clientId b \<and>
     ir_operation a = ir_operation b \<and> ir_key a = ir_key b"

text \<open>The event hash is unique too; that key, which only two events with one SHA-256 digest could violate, is left out.\<close>

definition audit_clash :: "AuditRow \<Rightarrow> AuditRow \<Rightarrow> bool" where
  "audit_clash a b \<longleftrightarrow> ab_eventId (au_event a) = ab_eventId (au_event b) \<or>
     ae_sequence (au_event a) = ae_sequence (au_event b)"

section \<open>The audit append\<close>

record AuditAppendInput =
  ai_organizationId :: jstring
  ai_event :: AuditEventBody
  ai_actingForMemberId :: "jstring option"
  ai_consentRecordId :: "jstring option"
  ai_objectVersion :: "int option"

definition MAX_CANONICAL_AUDIT_BYTES :: nat where
  "MAX_CANONICAL_AUDIT_BYTES = 10 * 1024 * 1024"

definition MAX_BIGINT :: int where
  "MAX_BIGINT = 9223372036854775807"

definition objectVersion :: "int option \<Rightarrow> unit result" where
  "objectVersion v =
     ensure (case v of None \<Rightarrow> True | Some n \<Rightarrow> 1 \<le> n \<and> n \<le> MAX_BIGINT)
       (RangeError ''audit object version must fit a positive PostgreSQL bigint'')"

definition normalize_input :: "AuditAppendInput \<Rightarrow> AuditAppendInput result" where
  "normalize_input i =
     bindr (parse_id (ai_organizationId i)) (\<lambda>_.
     bindr (parse_nullable parse_id (ai_actingForMemberId i)) (\<lambda>_.
     bindr (parse_nullable parse_id (ai_consentRecordId i)) (\<lambda>_.
     bindr (objectVersion (ai_objectVersion i)) (\<lambda>_. Inr i))))"

text \<open>The head of the chain: sequence and hash of the last event, or those of the empty log.\<close>

definition audit_head :: "VoteStore \<Rightarrow> int \<times> jstring" where
  "audit_head st =
     (if st_audit st = [] then (0, GENESIS_HASH)
      else (ae_sequence (au_event (last (st_audit st))), ae_eventHash (au_event (last (st_audit st)))))"

definition append_event ::
    "platform \<Rightarrow> (jstring \<Rightarrow> jstring \<Rightarrow> int) \<Rightarrow> TxEnv \<Rightarrow> AuditAppendInput \<Rightarrow> int \<Rightarrow> jstring \<Rightarrow> VoteStore \<Rightarrow>
     (AuditEvent \<times> VoteStore) result" where
  "append_event pl lc env input sequence previousHash st =
     bindr (zparse (AuditEventBodySchema pl lc) ((ai_event input)\<lparr>ab_occurredAt := tx_nowText env\<rparr>)) (\<lambda>body.
     bindr (canonicalJson pl (JObj (body_fields body))) (\<lambda>payload.
     if MAX_CANONICAL_AUDIT_BYTES < length (utf8_encode payload)
       then throw (RangeError ''canonical audit event exceeds the 10 MiB evidence limit'')
     else
     bindr (eventHash pl lc sequence previousHash body) (\<lambda>nextHash.
     let event = AuditEventBody.extend body
           \<lparr>ae_sequence = sequence, ae_previousHash = previousHash, ae_eventHash = nextHash\<rparr> in
     bindr (insert_row audit_clash \<lparr>au_event = event, au_organizationId = ai_organizationId input,
         au_actingForMemberId = ai_actingForMemberId input, au_consentRecordId = ai_consentRecordId input,
         au_objectVersion = ai_objectVersion input\<rparr> (st_audit st)) (\<lambda>rows.
     Inr (event, st\<lparr>st_audit := rows\<rparr>)))))"

fun append_events ::
    "platform \<Rightarrow> (jstring \<Rightarrow> jstring \<Rightarrow> int) \<Rightarrow> TxEnv \<Rightarrow> AuditAppendInput list \<Rightarrow> int \<Rightarrow> jstring \<Rightarrow>
     AuditEvent list \<Rightarrow> VoteStore \<Rightarrow> (AuditEvent list \<times> VoteStore) result" where
  "append_events pl lc env [] sequence previousHash appended st = Inr (appended, st)"
| "append_events pl lc env (input # inputs) sequence previousHash appended st =
     bindr (append_event pl lc env input (sequence + 1) previousHash st) (\<lambda>(event, st).
     append_events pl lc env inputs (sequence + 1) (ae_eventHash event) (appended @ [event]) st)"

definition appendAuditEventsInTransaction ::
    "platform \<Rightarrow> (jstring \<Rightarrow> jstring \<Rightarrow> int) \<Rightarrow> TxEnv \<Rightarrow> AuditAppendInput list \<Rightarrow> VoteStore \<Rightarrow>
     (AuditEvent list \<times> VoteStore) result" where
  "appendAuditEventsInTransaction pl lc env inputs st =
     (if length inputs = 0 then Inr ([], st)
      else bindr (mapr normalize_input inputs) (\<lambda>normalized.
        let (sequence, previousHash) = audit_head st in
        if length previousHash \<noteq> 64 then throw (Error ''audit chain head returned an invalid shape'')
        else append_events pl lc env normalized sequence previousHash [] st))"

definition mcp_event ::
    "jstring \<Rightarrow> string \<Rightarrow> ActiveRequestContext \<Rightarrow> string \<Rightarrow> jstring \<Rightarrow> jstring \<Rightarrow> (jstring \<times> json) list \<Rightarrow>
     AuditEventBody" where
  "mcp_event eventId eventType cx entityType entityId boardId details =
     \<lparr>ab_eventId = eventId, ab_eventType = lit eventType, ab_actorMemberId = Some (cx_memberId cx),
      ab_actorClientId = Some (cx_clientId cx), ab_tokenJti = Some (cx_tokenJti cx), ab_entityType = lit entityType,
      ab_entityId = entityId, ab_boardId = Some boardId, ab_occurredAt = [], ab_origin = lit ''mcp'',
      ab_details = details\<rparr>"

section \<open>What inserts and appends do\<close>

text \<open>Guards that throw, read as conjunctions.\<close>

lemma guard_Inr [result_simps]:
  "(if c then throw e else m) = Inr y \<longleftrightarrow> \<not> c \<and> m = Inr y"
  "(if c then m else throw e) = Inr y \<longleftrightarrow> c \<and> m = Inr y"
  "(case x of None \<Rightarrow> throw e | Some v \<Rightarrow> f v) = Inr y \<longleftrightarrow> (\<exists>v. x = Some v \<and> f v = Inr y)"
  by (auto split: option.split)

lemma insert_row_Inr [result_simps]:
  "insert_row clash r rows = Inr rows' \<longleftrightarrow> list_all (\<lambda>x. \<not> clash r x) rows \<and> rows' = rows @ [r]"
  by (auto simp: insert_row_def list_ex_iff list_all_iff)

lemma append_event_ok:
  assumes "append_event pl lc env input n h st = Inr (e, st')"
  shows "AuditEventBodySchema pl lc ((ai_event input)\<lparr>ab_occurredAt := tx_nowText env\<rparr>) \<and>
    (\<exists>k. eventHash pl lc n h ((ai_event input)\<lparr>ab_occurredAt := tx_nowText env\<rparr>) = Inr k \<and>
       e = AuditEventBody.extend ((ai_event input)\<lparr>ab_occurredAt := tx_nowText env\<rparr>)
         \<lparr>ae_sequence = n, ae_previousHash = h, ae_eventHash = k\<rparr>) \<and>
    st' = st\<lparr>st_audit := st_audit st @ [\<lparr>au_event = e, au_organizationId = ai_organizationId input,
      au_actingForMemberId = ai_actingForMemberId input, au_consentRecordId = ai_consentRecordId input,
      au_objectVersion = ai_objectVersion input\<rparr>]\<rparr>"
  using assms by (auto simp: append_event_def bindr_eq_Inr_iff insert_row_Inr Let_def split: if_splits)

lemma append_events_ok:
  "append_events pl lc env is n h appended st = Inr (events, st') \<Longrightarrow>
     \<exists>rows. st' = st\<lparr>st_audit := st_audit st @ rows\<rparr> \<and> events = appended @ map au_event rows"
proof (induction "is" arbitrary: n h appended st)
  case Nil
  then show ?case by (auto intro!: exI [of _ "[]"])
next
  case (Cons i "is")
  then obtain e st1 where e: "append_event pl lc env i (n + 1) h st = Inr (e, st1)"
    and r: "append_events pl lc env is (n + 1) (ae_eventHash e) (appended @ [e]) st1 = Inr (events, st')"
    by (auto simp: bindr_eq_Inr_iff)
  let ?row = "\<lparr>au_event = e, au_organizationId = ai_organizationId i, au_actingForMemberId = ai_actingForMemberId i,
      au_consentRecordId = ai_consentRecordId i, au_objectVersion = ai_objectVersion i\<rparr>"
  from append_event_ok [OF e] have row: "st1 = st\<lparr>st_audit := st_audit st @ [?row]\<rparr>" by blast
  from Cons.IH [OF r] obtain rows where "st' = st1\<lparr>st_audit := st_audit st1 @ rows\<rparr>"
    "events = (appended @ [e]) @ map au_event rows" by blast
  with row have "st' = st\<lparr>st_audit := st_audit st @ ?row # rows\<rparr>" "events = appended @ map au_event (?row # rows)"
    by simp_all
  then show ?case by blast
qed

lemma appendAuditEvents_cases:
  assumes "appendAuditEventsInTransaction pl lc env is st = Inr (events, st')"
  obtains "is = []" and "events = []" and "st' = st"
  | inputs where "append_events pl lc env inputs (fst (audit_head st)) (snd (audit_head st)) [] st = Inr (events, st')"
proof (cases "is = []")
  case False
  obtain n h where "audit_head st = (n, h)" by (cases "audit_head st")
  with assms False that(2) show thesis
    by (auto simp: appendAuditEventsInTransaction_def bindr_eq_Inr_iff split: if_splits)
qed (use assms that(1) in \<open>simp add: appendAuditEventsInTransaction_def\<close>)

lemma appendAuditEvents_ok:
  assumes "appendAuditEventsInTransaction pl lc env is st = Inr (events, st')"
  shows "\<exists>rows. st' = st\<lparr>st_audit := st_audit st @ rows\<rparr> \<and> events = map au_event rows"
  using assms
proof (cases rule: appendAuditEvents_cases)
  case 1
  then show ?thesis by (auto intro!: exI [of _ "[]"])
next
  case (2 inputs)
  from append_events_ok [OF 2] show ?thesis by simp
qed

text \<open>The audit log of the store; appending keeps it a valid chain.\<close>

definition audit_log :: "VoteStore \<Rightarrow> AuditEvent list" where
  "audit_log st = map au_event (st_audit st)"

lemma appendAuditEvents_log:
  "appendAuditEventsInTransaction pl lc env is st = Inr (events, st') \<Longrightarrow> audit_log st' = audit_log st @ events"
  by (auto simp: audit_log_def dest!: appendAuditEvents_ok)

lemma append_events_chain:
  "append_events pl lc env is n h appended st = Inr (events, st') \<Longrightarrow> valid_log pl lc (audit_log st) \<Longrightarrow>
     n = int (length (audit_log st)) \<Longrightarrow> h = log_head (audit_log st) \<Longrightarrow> valid_log pl lc (audit_log st')"
proof (induction "is" arbitrary: n h appended st)
  case (Cons i "is")
  then obtain e st1 where e: "append_event pl lc env i (n + 1) h st = Inr (e, st1)"
    and r: "append_events pl lc env is (n + 1) (ae_eventHash e) (appended @ [e]) st1 = Inr (events, st')"
    by (auto simp: bindr_eq_Inr_iff)
  from append_event_ok [OF e] have l: "audit_log st1 = audit_log st @ [e]" "links pl lc (n + 1) h e"
    by (auto simp: audit_log_def links_def)
  with Cons.prems(2-4) have "valid_log pl lc (audit_log st1)" by (simp add: chain_append add.commute)
  then show ?case
    by (rule Cons.IH [OF r]) (simp_all add: l Cons.prems(3) head_hash_snoc)
qed simp

lemma audit_head_log:
  assumes "valid_log pl lc (audit_log st)"
  shows "audit_head st = (int (length (audit_log st)), log_head (audit_log st))"
proof (cases "st_audit st" rule: rev_cases)
  case (snoc rows r)
  then have l: "audit_log st = map au_event rows @ [au_event r]" by (simp add: audit_log_def)
  with assms have "ae_sequence (au_event r) = 1 + int (length rows)" by (simp add: chain_append links_def)
  then show ?thesis unfolding l by (simp add: audit_head_def snoc head_hash_snoc)
qed (simp add: audit_head_def audit_log_def head_hash_def)

lemma appendAuditEvents_chain:
  assumes "appendAuditEventsInTransaction pl lc env is st = Inr (events, st')" and "valid_log pl lc (audit_log st)"
  shows "valid_log pl lc (audit_log st')"
  using assms(1)
proof (cases rule: appendAuditEvents_cases)
  case 1
  then show ?thesis using assms(2) by simp
next
  case (2 inputs)
  from append_events_chain [OF 2 assms(2)] show ?thesis by (simp add: audit_head_log [OF assms(2)])
qed

end
