(* ===== verification/Feed.thy ===== *)
theory Feed
  imports Vote_Store
begin

text \<open>
  The pending-action feed: the delta a member receives (\<^verbatim>\<open>PendingActionDeltaSchema\<close> in
  \<^verbatim>\<open>lib/contracts/src/governance.ts\<close>) and the allocation of feed sequence numbers
  (\<^verbatim>\<open>nextFeedSequence\<close> in \<^verbatim>\<open>lib/db/src/transactions/recusals.ts\<close>).
\<close>

section \<open>The delta\<close>

datatype DeltaType =
    delta_revote_required
  | delta_minutes_resign_required
  | delta_vote_replaced
  | delta_notice
  | delta_task_assigned
  | delta_task_due
  | delta_management_question_due
  | delta_submission_revision_requested
  | delta_action_required
  | delta_tombstone

fun delta_name :: "DeltaType \<Rightarrow> jstring" where
  "delta_name delta_revote_required = lit ''revote_required''"
| "delta_name delta_minutes_resign_required = lit ''minutes_resign_required''"
| "delta_name delta_vote_replaced = lit ''vote_replaced''"
| "delta_name delta_notice = lit ''notice''"
| "delta_name delta_task_assigned = lit ''task_assigned''"
| "delta_name delta_task_due = lit ''task_due''"
| "delta_name delta_management_question_due = lit ''management_question_due''"
| "delta_name delta_submission_revision_requested = lit ''submission_revision_requested''"
| "delta_name delta_action_required = lit ''action_required''"
| "delta_name delta_tombstone = lit ''tombstone''"

definition feed_object_types :: "jstring list" where
  "feed_object_types = map lit [''vote'', ''minutes'', ''task'', ''question'', ''submission'', ''document'', ''meeting'']"

datatype ActionState = action_pending | action_resolved | action_informational

fun action_state_name :: "ActionState \<Rightarrow> jstring" where
  "action_state_name action_pending = lit ''pending''"
| "action_state_name action_resolved = lit ''resolved''"
| "action_state_name action_informational = lit ''informational''"

definition changed_component_classes :: "jstring list" where
  "changed_component_classes = map lit [''resolution'', ''governance_profile'', ''ruleset'', ''approval_rule'', ''electorate'',
     ''close_mode'', ''deadline'', ''management_submission'', ''document'', ''question_cutoff'']"

fun SafeReferenceValueSchema :: "json \<Rightarrow> bool" where
  "SafeReferenceValueSchema (JStr s) \<longleftrightarrow> UuidSchema s \<or> Sha256HexSchema s \<or> Rfc3339UtcSchema s"
| "SafeReferenceValueSchema (JNum n) \<longleftrightarrow> 0 \<le> n \<and> isSafeInteger n"
| "SafeReferenceValueSchema _ \<longleftrightarrow> False"

definition SAFE_REFERENCE_NAME :: "jstring \<Rightarrow> bool" where
  "SAFE_REFERENCE_NAME s \<longleftrightarrow>
     (case s of [] \<Rightarrow> False | c # cs \<Rightarrow> is_lower c \<and> length cs \<le> 63 \<and> list_all is_alnum cs)"

definition positive_decimal :: "jstring \<Rightarrow> bool" where
  "positive_decimal s \<longleftrightarrow> (case s of [] \<Rightarrow> False | c # cs \<Rightarrow> is_digit c \<and> \<not> is_char CHR ''0'' c \<and> list_all is_digit cs)"

record PendingActionDelta =
  pa_sequence :: jstring
  pa_deltaType :: DeltaType
  pa_objectType :: jstring
  pa_objectId :: jstring
  pa_objectVersion :: int
  pa_entitlementGeneration :: int
  pa_actionState :: ActionState
  pa_changedComponentClasses :: "jstring list option"
  pa_safeRefs :: "(jstring \<times> json) list"
  pa_createdAt :: jstring

definition PendingActionDeltaSchema :: "PendingActionDelta \<Rightarrow> bool" where
  "PendingActionDeltaSchema d \<longleftrightarrow>
     positive_decimal (pa_sequence d) \<and> pa_objectType d \<in> set feed_object_types \<and> UuidSchema (pa_objectId d) \<and>
     SafePositiveIntegerSchema (pa_objectVersion d) \<and> SafePositiveIntegerSchema (pa_entitlementGeneration d) \<and>
     (case pa_changedComponentClasses d of
        None \<Rightarrow> True
      | Some cs \<Rightarrow> 1 \<le> length cs \<and> length cs \<le> 10 \<and> list_all (\<lambda>c. c \<in> set changed_component_classes) cs) \<and>
     list_all (\<lambda>(k, v). SAFE_REFERENCE_NAME k \<and> SafeReferenceValueSchema v) (pa_safeRefs d) \<and>
     Rfc3339UtcSchema (pa_createdAt d)"

definition pending_action_json :: "PendingActionDelta \<Rightarrow> json" where
  "pending_action_json d = JObj
     ([(lit ''schemaVersion'', jstr ''boardagent.pending-action.v1''), (lit ''sequence'', JStr (pa_sequence d)),
       (lit ''deltaType'', JStr (delta_name (pa_deltaType d))), (lit ''objectType'', JStr (pa_objectType d)),
       (lit ''objectId'', JStr (pa_objectId d)), (lit ''objectVersion'', JNum (pa_objectVersion d)),
       (lit ''entitlementGeneration'', JNum (pa_entitlementGeneration d)),
       (lit ''actionState'', JStr (action_state_name (pa_actionState d)))] @
      (case pa_changedComponentClasses d of
         None \<Rightarrow> []
       | Some cs \<Rightarrow> [(lit ''changedComponentClasses'', JArr (map JStr cs))]) @
      [(lit ''safeRefs'', JObj (pa_safeRefs d)), (lit ''createdAt'', JStr (pa_createdAt d))])"

section \<open>Feed sequence numbers\<close>

definition feed_sequences :: "VoteStore \<Rightarrow> jstring \<Rightarrow> jstring \<Rightarrow> int list" where
  "feed_sequences st boardId memberId =
     map nr_feedSequence (filter (\<lambda>n. nr_boardId n = boardId \<and> nr_recipientMemberId n = memberId) (st_notices st)) @
     map fr_feedSequence (filter (\<lambda>f. fr_boardId f = boardId \<and> fr_memberId f = memberId) (st_feed st)) @
     map tr_feedSequence (filter (\<lambda>t. tr_boardId t = boardId \<and> tr_memberId t = memberId) (st_tombstones st))"

definition nextFeedSequence :: "VoteStore \<Rightarrow> jstring \<Rightarrow> jstring \<Rightarrow> int result" where
  "nextFeedSequence st boardId memberId =
     (let n = foldr max (feed_sequences st boardId memberId) 0 + 1 in
      if n < 1 then throw (Error ''failed to allocate a positive feed sequence'') else Inr n)"

lemma foldr_max_ge: "m \<le> foldr max ns m" "n \<in> set ns \<Longrightarrow> n \<le> foldr max ns (m :: int)"
  by (induction ns) (auto simp: le_max_iff_disj)

lemma nextFeedSequence_ok:
  "\<exists>n. nextFeedSequence st boardId memberId = Inr n \<and> 0 < n \<and> (\<forall>k\<in>set (feed_sequences st boardId memberId). k < n)"
  using foldr_max_ge [of 0 "feed_sequences st boardId memberId"] foldr_max_ge(2) [of _ "feed_sequences st boardId memberId" 0]
  by (auto simp: nextFeedSequence_def Let_def)

end
