(* ===== verification/Feed_Cursor.thy ===== *)
theory Feed_Cursor
  imports Feed Encoding
begin

text \<open>
  Reading the feed, \<^verbatim>\<open>lib/domain/src/feed.ts\<close>: the signed cursor a member holds
  (\<^verbatim>\<open>FeedCursorPayloadSchema\<close> in \<^verbatim>\<open>lib/contracts/src/governance.ts\<close>) and the page of deltas it selects. \<open>JSON.parse\<close> is
  applied to canonical text only, which the strict parser reads in the same way.
\<close>

section \<open>The cursor\<close>

record FeedCursorPayload =
  fc_memberId :: jstring
  fc_boardId :: "jstring option"
  fc_entitlementGeneration :: int
  fc_afterSequence :: jstring

definition unsigned_decimal :: "jstring \<Rightarrow> bool" where
  "unsigned_decimal s \<longleftrightarrow> s = lit ''0'' \<or> positive_decimal s"

definition FeedCursorPayloadSchema :: "FeedCursorPayload \<Rightarrow> bool" where
  "FeedCursorPayloadSchema p \<longleftrightarrow>
     UuidSchema (fc_memberId p) \<and> pred_option UuidSchema (fc_boardId p) \<and>
     SafePositiveIntegerSchema (fc_entitlementGeneration p) \<and> unsigned_decimal (fc_afterSequence p)"

abbreviation feed_cursor_names :: "string list" where
  "feed_cursor_names \<equiv> [''schemaVersion'', ''memberId'', ''boardId'', ''entitlementGeneration'', ''afterSequence'']"

definition feed_cursor_json :: "FeedCursorPayload \<Rightarrow> json" where
  "feed_cursor_json p = JObj
     [(lit ''schemaVersion'', jstr ''boardagent.feed-cursor.v1''), (lit ''memberId'', JStr (fc_memberId p)),
      (lit ''boardId'', nullable JStr (fc_boardId p)),
      (lit ''entitlementGeneration'', JNum (fc_entitlementGeneration p)), (lit ''afterSequence'', JStr (fc_afterSequence p))]"

definition feed_cursor_of :: "json \<Rightarrow> FeedCursorPayload option" where
  "feed_cursor_of v =
     (case strict_object feed_cursor_names v of
        Some [ver, JStr memberId, b, JNum generation, JStr afterSequence] \<Rightarrow>
          if ver \<noteq> jstr ''boardagent.feed-cursor.v1'' then None
          else Option.bind (as_nullable as_str b) (\<lambda>boardId.
            Some \<lparr>fc_memberId = memberId, fc_boardId = boardId, fc_entitlementGeneration = generation,
              fc_afterSequence = afterSequence\<rparr>)
      | _ \<Rightarrow> None)"

definition parseFeedCursorPayload :: "json \<Rightarrow> FeedCursorPayload result" where
  "parseFeedCursorPayload v =
     (case feed_cursor_of v of None \<Rightarrow> throw ZodError | Some p \<Rightarrow> zparse FeedCursorPayloadSchema p)"

definition assertCursorKey :: "byte list \<Rightarrow> unit result" where
  "assertCursorKey key = ensure (32 \<le> length key) (RangeError ''feed cursor key must contain at least 32 bytes'')"

definition encodeFeedCursor :: "platform \<Rightarrow> FeedCursorPayload \<Rightarrow> byte list \<Rightarrow> jstring result" where
  "encodeFeedCursor pl payloadInput key =
     bindr (assertCursorKey key) (\<lambda>_.
     bindr (zparse FeedCursorPayloadSchema payloadInput) (\<lambda>payload.
     bindr (canonicalJson pl (feed_cursor_json payload)) (\<lambda>t.
       let body = base64url (utf8_encode t); signature = base64url (hmac_sha256 key (utf8_encode body))
       in Inr (body @ lit ''.'' @ signature))))"

definition decodeFeedCursor :: "platform \<Rightarrow> jstring \<Rightarrow> byte list \<Rightarrow> FeedCursorPayload result" where
  "decodeFeedCursor pl cursor key =
     bindr (assertCursorKey key) (\<lambda>_.
     case split_on 0x2E cursor of
       [body, suppliedEncoded] \<Rightarrow>
         if body = [] \<or> suppliedEncoded = [] then throw (Error ''invalid feed cursor framing'')
         else
           let supplied = from_base64url suppliedEncoded; expected = hmac_sha256 key (utf8_encode body);
             raw = from_base64url body
           in if base64url supplied \<noteq> suppliedEncoded then throw (Error ''invalid feed cursor signature encoding'')
              else if length supplied \<noteq> length expected \<or> supplied \<noteq> expected
                then throw (Error ''invalid feed cursor signature'')
              else if base64url raw \<noteq> body then throw (Error ''invalid feed cursor body encoding'')
              else bindr (canonicalJsonFromText pl (Bytes raw)) (\<lambda>canonical.
                if utf8_decode raw \<noteq> Some canonical then throw (Error ''feed cursor body is not canonical'')
                else bindr (StrictJsonParser_parse (normalizeNFC pl) canonical) parseFeedCursorPayload)
     | _ \<Rightarrow> throw (Error ''invalid feed cursor framing''))"

section \<open>The page a cursor selects\<close>

record EntitledPendingDelta =
  ed_memberId :: jstring
  ed_boardId :: jstring
  ed_delta :: PendingActionDelta

record FeedReadContext =
  fx_memberId :: jstring
  fx_boardId :: "jstring option"
  fx_entitlementGeneration :: int
  fx_limit :: int

fun validate_deltas :: "jstring list \<Rightarrow> EntitledPendingDelta list \<Rightarrow> EntitledPendingDelta list result" where
  "validate_deltas seen [] = Inr []"
| "validate_deltas seen (row # rows) =
     bindr (zparse PendingActionDeltaSchema (ed_delta row)) (\<lambda>delta.
       let key = ed_memberId row @ lit '':'' @ pa_sequence delta
       in if key \<in> set seen then throw (ErrorOn ''duplicate feed sequence: '' (pa_sequence delta))
          else bindr (validate_deltas (set_add seen key) rows) (\<lambda>rest. Inr (row\<lparr>ed_delta := delta\<rparr> # rest)))"

definition delta_selected :: "FeedCursorPayload \<Rightarrow> FeedReadContext \<Rightarrow> EntitledPendingDelta \<Rightarrow> bool" where
  "delta_selected cursor context row \<longleftrightarrow>
     ed_memberId row = fx_memberId context \<and>
     (case fx_boardId context of None \<Rightarrow> True | Some b \<Rightarrow> ed_boardId row = b) \<and>
     pa_entitlementGeneration (ed_delta row) = fx_entitlementGeneration context \<and>
     dec_val (fc_afterSequence cursor) < dec_val (pa_sequence (ed_delta row))"

definition sequence_order :: "(jstring \<Rightarrow> jstring \<Rightarrow> int) \<Rightarrow> EntitledPendingDelta \<Rightarrow> EntitledPendingDelta \<Rightarrow> int" where
  "sequence_order lc left right =
     (let s = pa_sequence (ed_delta left); t = pa_sequence (ed_delta right); lengthOrder = int (length s) - int (length t)
      in if lengthOrder \<noteq> 0 then lengthOrder else lc s t)"

definition listEntitledDeltas ::
    "(jstring \<Rightarrow> jstring \<Rightarrow> int) \<Rightarrow> EntitledPendingDelta list \<Rightarrow> FeedCursorPayload \<Rightarrow> FeedReadContext \<Rightarrow>
     PendingActionDelta list result" where
  "listEntitledDeltas lc rows cursorInput context =
     bindr (zparse FeedCursorPayloadSchema cursorInput) (\<lambda>cursor.
     if fc_memberId cursor \<noteq> fx_memberId context then throw (Error ''feed cursor member mismatch'')
     else if fc_boardId cursor \<noteq> fx_boardId context then throw (Error ''feed cursor board mismatch'')
     else if fc_entitlementGeneration cursor \<noteq> fx_entitlementGeneration context
       then throw (Error ''feed cursor entitlement generation mismatch'')
     else if \<not> isSafeInteger (fx_limit context) \<or> fx_limit context < 1 \<or> 1000 < fx_limit context
       then throw (RangeError ''feed limit must be between 1 and 1000'')
     else bindr (validate_deltas [] rows) (\<lambda>validated.
       Inr (map ed_delta (take (nat (fx_limit context))
         (toSorted (sequence_order lc) (filter (delta_selected cursor context) validated))))))"

section \<open>Reading a cursor inverts writing it\<close>

text \<open>A strict object denotes the object that lists its fields in the order of the names.\<close>

lemma strict_object_value:
  assumes "strict_object names v = Some xs" and "distinct (map lit names)"
  shows "length xs = length names" and "jval_of v = jval_of (JObj (zip (map lit names) xs))"
    and "js_json v \<Longrightarrow> js_json (JObj (zip (map lit names) xs))"
    and "strings_ok nfc v \<Longrightarrow> list_all (strings_ok nfc) xs"
    and "list_all index_free xs \<Longrightarrow> list_all (\<lambda>n. \<not> integer_index (lit n)) names \<Longrightarrow> js_json v \<Longrightarrow> index_free v"
proof -
  obtain es where v: "v = JObj es" and s: "set (map fst es) = set (map lit names)"
    and xs: "xs = map (\<lambda>k. case map_of es (lit k) of Some x \<Rightarrow> x | None \<Rightarrow> JNull) names"
    using assms(1) by (auto simp: strict_object_def split: json.splits if_splits)
  have some: "\<exists>x. map_of es (lit k) = Some x" if "k \<in> set names" for k
  proof -
    have "lit k \<in> set (map fst es)" unfolding s using that by simp
    then show ?thesis by (metis image_set map_of_eq_None_iff not_None_eq)
  qed
  show len: "length xs = length names" by (simp add: xs)
  have z: "map_of (zip (map lit names) xs) = map_of es"
  proof
    fix k
    show "map_of (zip (map lit names) xs) k = map_of es k"
    proof (cases "k \<in> lit ` set names")
      case True
      then obtain i where i: "i < length names" "k = lit (names ! i)" by (auto simp: in_set_conv_nth)
      have "map_of (zip (map lit names) xs) (map lit names ! i) = Some (xs ! i)"
        using assms(2) i len by (intro map_of_zip_nth) simp_all
      moreover have "Some (xs ! i) = map_of es k" using some [of "names ! i"] i by (auto simp: xs)
      ultimately show ?thesis using i by simp
    next
      case False
      then have "k \<notin> set (map fst es)" unfolding s by simp
      then have "map_of es k = None" by (simp add: map_of_eq_None_iff)
      moreover have "map_of (zip (map lit names) xs) k = None"
        using False len by (auto simp: map_of_eq_None_iff dest: set_zip_leftD)
      ultimately show ?thesis by simp
    qed
  qed
  have m: "map_of (map (\<lambda>(k, x). (k, jval_of x)) fs) k = map_option jval_of (map_of fs k)" for fs :: "(jstring \<times> json) list" and k
    by (induction fs) auto
  show "jval_of v = jval_of (JObj (zip (map lit names) xs))" 
    unfolding v jval_of.simps by (intro arg_cong [of _ _ VObj] ext) (simp only: m z)
  have entry: "\<exists>k. (k, x) \<in> set es" if "x \<in> set xs" for x
    using that some by (fastforce simp: xs dest: map_of_SomeD split: option.splits)
  show "js_json (JObj (zip (map lit names) xs))" if "js_json v"
  proof -
    have "js_json x" if "x \<in> set xs" for x using entry [OF that] \<open>js_json v\<close> by (fastforce simp: v)
    moreover have "distinct (map fst (zip (map lit names) xs))" using assms(2) len by simp
    ultimately show ?thesis unfolding js_json.simps by (auto dest: set_zip_rightD)
  qed
  show "list_all (strings_ok nfc) xs" if "strings_ok nfc v"
    using that entry by (fastforce simp: v list_all_iff)
  show "index_free v" if a: "list_all index_free xs" "list_all (\<lambda>n. \<not> integer_index (lit n)) names" "js_json v"
  proof -
    have "\<not> integer_index k \<and> index_free x" if "(k, x) \<in> set es" for k x
    proof -
      have "k \<in> lit ` set names" using that s by (metis fst_conv image_eqI image_set)
      then obtain n where n: "k = lit n" "n \<in> set names" by blast
      have "map_of es k = Some x" using that a(3) by (simp add: v)
      then have "x \<in> set xs" using n by (force simp: xs)
      then show ?thesis using a(1,2) n by (auto simp: list_all_iff)
    qed
    then show ?thesis by (auto simp: v)
  qed
qed


lemma feed_cursor_fields:
  assumes "FeedCursorPayloadSchema p"
  shows "js_json (feed_cursor_json p)" and "index_free (feed_cursor_json p)"
  using assms
  by (simp_all add: feed_cursor_json_def FeedCursorPayloadSchema_def SafePositiveIntegerSchema_def nullable_def lit_inj
      split: option.splits)

lemma feed_cursor_of_json:
  assumes "feed_cursor_of v = Some p" and "js_json v"
  shows "jsort v = jsort (feed_cursor_json p)" and "index_free v"
proof -
  have d: "distinct (map lit feed_cursor_names)" by (simp add: lit_inj del: lit_simps)
  obtain m b g a boardId where x: "strict_object feed_cursor_names v = Some [jstr ''boardagent.feed-cursor.v1'', JStr m, b, JNum g, JStr a]"
    and b: "as_nullable as_str b = Some boardId"
    and p: "p = \<lparr>fc_memberId = m, fc_boardId = boardId, fc_entitlementGeneration = g, fc_afterSequence = a\<rparr>"
    using assms(1) unfolding feed_cursor_of_def
    by (auto simp: bind_eq_Some_conv split: option.splits list.splits json.splits if_splits)
  note v = strict_object_value [OF x d]
  have n: "nullable JStr boardId = b"
    using b by (cases b) auto
  have z: "JObj (zip (map lit feed_cursor_names) [jstr ''boardagent.feed-cursor.v1'', JStr m, b, JNum g, JStr a]) = feed_cursor_json p"
    by (simp add: feed_cursor_json_def p n)
  note v' = v(2,3) [unfolded z]
  show "jsort v = jsort (feed_cursor_json p)"
    using v'(1) by (simp only: jsort_eq_iff [OF assms(2) v'(2) [OF assms(2)]])
  have "index_free b" using b by (cases b) auto
  then show "index_free v" by (intro v(5) assms(2)) simp_all
qed

lemma strings_ok_jsort_iff: "strings_ok nfc (jsort v) \<longleftrightarrow> strings_ok nfc v"
proof (induction v)
  case (JObj es)
  then show ?case by fastforce
qed simp_all

lemma canonicalJson_same:
  assumes "jsort v = jsort w" and "index_free v" and "index_free w"
  shows "canonicalJson pl v = Inr t \<longleftrightarrow> canonicalJson pl w = Inr t"
proof -
  have "json_depth v = json_depth w" using assms(1) by (metis json_depth_jsort)
  moreover have "strings_ok (normalizeNFC pl) v = strings_ok (normalizeNFC pl) w" using assms(1) by (metis strings_ok_jsort_iff)
  ultimately show ?thesis by (simp add: canonicalJson_iff assms)
qed

lemma stringify_object_nonempty: "utf8_encode (stringify (JObj es)) \<noteq> []"
proof
  assume "utf8_encode (stringify (JObj es)) = []"
  then have "stringify (JObj es) = []"
    using utf8_decode_encode [OF stringify_wf, of "JObj es"] utf8_decode_encode [of "[]"]
    by (simp add: utf8_encode_def)
  then show False by simp
qed

lemma split_cursor:
  "split_on 0x2E c = [p, q] \<longleftrightarrow> c = p @ 0x2E # q \<and> 0x2E \<notin> set p \<and> 0x2E \<notin> set q"
proof
  assume a: "split_on 0x2E c = [p, q]"
  then show "c = p @ 0x2E # q \<and> 0x2E \<notin> set p \<and> 0x2E \<notin> set q"
    using join_split [of "0x2E" c] split_on_pieces [of _ "0x2E" c] by auto
qed (simp add: split_on_append split_on_absent)

lemma base64url_frames: "0x2E \<notin> set (base64url bs)" "sha256 m \<noteq> []" "hmac_sha256 key m \<noteq> []"
  using length_sha256 [of m] length_hmac [of key m] by (auto simp: base64url_no_dot simp del: length_sha256 length_hmac)

text \<open>What the reader checks of a cursor is that it is the writing of its payload.\<close>

lemma decodeFeedCursor_steps:
  "decodeFeedCursor pl cursor key = Inr p \<longleftrightarrow>
     (\<exists>t v. 32 \<le> length key \<and> utf8_encode t \<noteq> [] \<and>
       cursor = base64url (utf8_encode t) @ lit ''.'' @
         base64url (hmac_sha256 key (utf8_encode (base64url (utf8_encode t)))) \<and>
       utf8_decode (utf8_encode t) = Some t \<and> canonicalJsonFromText pl (Text t) = Inr t \<and>
       StrictJsonParser_parse (normalizeNFC pl) t = Inr v \<and> parseFeedCursorPayload v = Inr p)"
  (is "?L = (\<exists>t v. ?R t v)")
proof
  assume ?L
  then obtain body sup canonical v where k: "32 \<le> length key" and f: "split_on 0x2E cursor = [body, sup]"
    and ne: "body \<noteq> []" "base64url (from_base64url sup) = sup" "from_base64url sup = hmac_sha256 key (utf8_encode body)"
    "base64url (from_base64url body) = body" "canonicalJsonFromText pl (Bytes (from_base64url body)) = Inr canonical"
    "utf8_decode (from_base64url body) = Some canonical"
    and v: "StrictJsonParser_parse (normalizeNFC pl) canonical = Inr v" "parseFeedCursorPayload v = Inr p"
    by (auto simp: decodeFeedCursor_def assertCursorKey_def Let_def bindr_eq_Inr_iff split: list.splits if_splits)
  note e = utf8_encode_decode [OF ne(6)]
  have "canonicalJsonFromText pl (Text canonical) = Inr canonical"
    using ne(5,6) by (simp add: canonicalJsonFromText_def)
  moreover have "utf8_encode canonical \<noteq> []" using e ne(1,4) by (metis base64url_Nil_iff)
  moreover have "base64url (utf8_encode canonical) = body" using e ne(4) by simp
  moreover have "sup = base64url (hmac_sha256 key (utf8_encode body))" using ne(2,3) by simp
  moreover have "cursor = body @ 0x2E # sup" using f by (simp add: split_cursor)
  ultimately have "?R canonical v" using k v ne(6) e by simp
  then show "\<exists>t v. ?R t v" by blast
next
  assume "\<exists>t v. ?R t v"
  then obtain t v where R: "?R t v" by blast
  let ?b = "base64url (utf8_encode t)" and ?s = "base64url (hmac_sha256 key (utf8_encode (base64url (utf8_encode t))))"
  have "split_on 0x2E cursor = [?b, ?s]" using R by (simp add: split_cursor base64url_frames)
  moreover have "?b \<noteq> []" "?s \<noteq> []" using R by (simp_all add: base64url_frames)
  moreover have "canonicalJsonFromText pl (Bytes (utf8_encode t)) = Inr t"
    using R by (simp add: canonicalJsonFromText_def)
  ultimately show ?L using R by (simp add: decodeFeedCursor_def assertCursorKey_def)
qed

lemma encodeFeedCursor_steps:
  "encodeFeedCursor pl p key = Inr cursor \<longleftrightarrow>
     (\<exists>t. 32 \<le> length key \<and> FeedCursorPayloadSchema p \<and> canonicalJson pl (feed_cursor_json p) = Inr t \<and>
       cursor = base64url (utf8_encode t) @ lit ''.'' @
         base64url (hmac_sha256 key (utf8_encode (base64url (utf8_encode t)))))"
  by (auto simp: encodeFeedCursor_def assertCursorKey_def bindr_eq_Inr_iff Let_def)

lemma strict_object_zip:
  fixes xs :: "'a list"
  assumes "distinct (map lit names)" and "length xs = length names"
  shows "strict_object names (JObj (sort_key fst (map (\<lambda>(k, x). (k, f x)) (zip (map lit names) xs)))) = Some (map f xs)"
proof -
  let ?es = "zip (map lit names) xs" and ?fs = "map (\<lambda>(k, x). (k, f x)) (zip (map lit names) xs)"
  have d: "distinct (map fst ?fs)" using assms by (simp only: map_fst_pairs map_fst_zip length_map)
  have m: "map_of (sort_key fst ?fs) = map_of ?fs" by (rule map_of_sort_key [OF d])
  have "map_of ?fs (lit (names ! i)) = Some (f (xs ! i))" if "i < length names" for i
  proof -
    have "map_of ?es (map lit names ! i) = Some (xs ! i)" using assms that by (intro map_of_zip_nth) simp_all
    moreover have "map_of (map (\<lambda>(k, x). (k, f x)) zs) k = map_option f (map_of zs k)" for zs :: "(jstring \<times> 'a) list" and k
      by (induction zs) auto
    ultimately show ?thesis using that by simp
  qed
  then have "map (\<lambda>k. case map_of ?fs (lit k) of Some x \<Rightarrow> x | None \<Rightarrow> JNull) names = map f xs"
    using assms(2) by (intro nth_equalityI) simp_all
  moreover have "fst ` set ?fs = lit ` set names"
    by (metis assms(2) length_map list.set_map map_fst_pairs map_fst_zip)
  ultimately show ?thesis by (simp add: strict_object_def m)
qed

lemma feed_cursor_of_jsort: "feed_cursor_of (jsort (feed_cursor_json p)) = Some p"
proof -
  have d: "distinct (map lit feed_cursor_names)" by (simp add: lit_inj del: lit_simps)
  let ?xs = "[jstr ''boardagent.feed-cursor.v1'', JStr (fc_memberId p), nullable JStr (fc_boardId p),
    JNum (fc_entitlementGeneration p), JStr (fc_afterSequence p)]"
  have "strict_object feed_cursor_names (jsort (feed_cursor_json p)) = Some (map jsort ?xs)"
    using strict_object_zip [OF d, of ?xs jsort] by (simp add: feed_cursor_json_def del: lit_simps)
  then show ?thesis by (cases "fc_boardId p") (simp_all add: feed_cursor_of_def)
qed

text \<open>Property C11: a feed cursor cannot be forged or altered. With a key of at least 32 bytes the reader accepts a string
  as the cursor of a payload exactly when the writer produces that string for that payload; with a shorter key both refuse.\<close>

theorem feed_cursor_roundtrip:
  "decodeFeedCursor pl cursor key = Inr p \<longleftrightarrow> encodeFeedCursor pl p key = Inr cursor"
proof
  assume "decodeFeedCursor pl cursor key = Inr p"
  then obtain t v where d: "32 \<le> length key"
    "cursor = base64url (utf8_encode t) @ lit ''.'' @ base64url (hmac_sha256 key (utf8_encode (base64url (utf8_encode t))))"
    "canonicalJsonFromText pl (Text t) = Inr t" and v: "StrictJsonParser_parse (normalizeNFC pl) t = Inr v"
    "feed_cursor_of v = Some p" "FeedCursorPayloadSchema p"
    by (auto simp: decodeFeedCursor_steps parseFeedCursorPayload_def split: option.splits simp del: lit_simps)
  have "js_json v" using parsed_wf [OF v(1)] by (simp add: wf_json_iff)
  note s = feed_cursor_of_json [OF v(2) this]
  have "canonicalJson pl v = Inr t"
    using d(3) v(1) by (auto simp: canonicalJsonFromText_def bindr_eq_Inr_iff split: if_splits)
  then have "canonicalJson pl (feed_cursor_json p) = Inr t"
    using canonicalJson_same [OF s feed_cursor_fields(2) [OF v(3)]] by simp
  with d v(3) show "encodeFeedCursor pl p key = Inr cursor" by (auto simp: encodeFeedCursor_steps)
next
  assume "encodeFeedCursor pl p key = Inr cursor"
  then obtain t where e: "32 \<le> length key" "FeedCursorPayloadSchema p" "canonicalJson pl (feed_cursor_json p) = Inr t"
    "cursor = base64url (utf8_encode t) @ lit ''.'' @ base64url (hmac_sha256 key (utf8_encode (base64url (utf8_encode t))))"
    by (auto simp: encodeFeedCursor_steps simp del: lit_simps)
  note f = feed_cursor_fields [OF e(2)]
  note parse = canonicalJson_parse [OF f e(3)]
  have t: "t = stringify (jsort (feed_cursor_json p))" using e(3) by (simp add: canonicalJson_iff f)
  have "isWellFormed t" by (simp add: t stringify_wf)
  moreover have "utf8_encode t \<noteq> []" unfolding t feed_cursor_json_def jsort.simps by (rule stringify_object_nonempty)
  moreover have "feed_cursor_of (jsort (feed_cursor_json p)) = Some p" by (rule feed_cursor_of_jsort)
  ultimately show "decodeFeedCursor pl cursor key = Inr p"
    using e f canonicalJson_fixpoint [OF f e(3)] parse
    by (auto simp: decodeFeedCursor_steps parseFeedCursorPayload_def utf8_decode_encode simp del: lit_simps)
qed

section \<open>Pages\<close>

text \<open>A client that asks again from the last delta it was given, until it is given none.\<close>

fun read_pages ::
    "nat \<Rightarrow> (jstring \<Rightarrow> jstring \<Rightarrow> int) \<Rightarrow> EntitledPendingDelta list \<Rightarrow> FeedCursorPayload \<Rightarrow> FeedReadContext \<Rightarrow>
     PendingActionDelta list result" where
  "read_pages 0 lc rows cursor context = throw OutOfFuel"
| "read_pages (Suc n) lc rows cursor context =
     bindr (listEntitledDeltas lc rows cursor context) (\<lambda>page.
       if page = [] then Inr []
       else bindr (read_pages n lc rows (cursor\<lparr>fc_afterSequence := pa_sequence (last page)\<rparr>) context)
         (\<lambda>rest. Inr (page @ rest)))"

text \<open>What a member may read after a cursor, in the order of the sequence numbers.\<close>

definition delta_number :: "PendingActionDelta \<Rightarrow> nat" where
  "delta_number d = dec_val (pa_sequence d)"

definition entitled_after ::
    "EntitledPendingDelta list \<Rightarrow> FeedCursorPayload \<Rightarrow> FeedReadContext \<Rightarrow> PendingActionDelta list" where
  "entitled_after rows cursor context =
     sort_key delta_number (map ed_delta (filter (delta_selected cursor context) rows))"

text \<open>The order of the language on strings of digits of one length.\<close>

definition orders_digits :: "(jstring \<Rightarrow> jstring \<Rightarrow> int) \<Rightarrow> bool" where
  "orders_digits lc \<longleftrightarrow>
     (\<forall>s t. length s = length t \<and> list_all is_digit s \<and> list_all is_digit t \<longrightarrow> (lc s t \<le> 0 \<longleftrightarrow> dec_val s \<le> dec_val t))"

lemma dec_val_bounds: "list_all is_digit s \<Longrightarrow> dec_val s < 10 ^ length s"
proof (induction s rule: rev_induct)
  case (snoc c s)
  then have "dec_val s < 10 ^ length s" "digit_val c < 10" by (simp_all add: digit_val_less)
  then show ?case by (simp add: dec_val_snoc)
qed (simp add: dec_val_def)

lemma positive_decimal_digits: "positive_decimal s \<Longrightarrow> list_all is_digit s \<and> s \<noteq> [] \<and> hd s \<noteq> 0x30"
  by (cases s) (simp_all add: positive_decimal_def is_char_def)

lemma positive_decimal_val: "positive_decimal s \<Longrightarrow> 0 < dec_val s \<and> dec_nat (dec_val s) = s"
  using positive_decimal_digits [of s] dec_val_pos [of s] by simp

lemma positive_decimal_least: "positive_decimal s \<Longrightarrow> 10 ^ (length s - 1) \<le> dec_val s"
proof (induction s rule: rev_induct)
  case (snoc c s)
  show ?case
  proof (cases "s = []")
    case True
    with positive_decimal_val [OF snoc.prems] show ?thesis by simp
  next
    case False
    then obtain d s' where s: "s = d # s'" by (cases s) auto
    with snoc.prems have "positive_decimal s" by (simp add: positive_decimal_def)
    with snoc.IH have "10 ^ (length s - 1) \<le> dec_val s" by simp
    then have "10 * 10 ^ (length s - 1) \<le> 10 * dec_val s" by simp
    moreover have "10 * 10 ^ (length s - 1) = (10 :: nat) ^ length s" by (simp add: s)
    ultimately have "10 ^ length s \<le> 10 * dec_val s" by (simp only:)
    then show ?thesis by (simp add: dec_val_snoc)
  qed
qed (simp add: positive_decimal_def)

lemma positive_decimal_inj: "positive_decimal s \<Longrightarrow> positive_decimal t \<Longrightarrow> dec_val s = dec_val t \<Longrightarrow> s = t"
  by (metis positive_decimal_val)

lemma longer_is_greater:
  assumes "positive_decimal s" and "positive_decimal t" and "length s < length t"
  shows "dec_val s < dec_val t"
proof -
  have "dec_val s < 10 ^ length s" using assms(1) by (simp add: dec_val_bounds positive_decimal_digits)
  also have "\<dots> \<le> 10 ^ (length t - 1)" using assms(3) by (intro power_increasing) simp_all
  also have "\<dots> \<le> dec_val t" by (rule positive_decimal_least [OF assms(2)])
  finally show ?thesis .
qed

lemma sequence_order_number:
  assumes "orders_digits lc" and "positive_decimal (pa_sequence (ed_delta a))" and "positive_decimal (pa_sequence (ed_delta b))"
  shows "sequence_order lc a b \<le> 0 \<longleftrightarrow> delta_number (ed_delta a) \<le> delta_number (ed_delta b)"
proof -
  let ?s = "pa_sequence (ed_delta a)" and ?t = "pa_sequence (ed_delta b)"
  consider "length ?s < length ?t" | "length ?t < length ?s" | "length ?s = length ?t" by linarith
  then show ?thesis
  proof cases
    case 1
    with longer_is_greater [OF assms(2,3)] show ?thesis by (simp add: sequence_order_def Let_def delta_number_def)
  next
    case 2
    with longer_is_greater [OF assms(3,2)] show ?thesis by (simp add: sequence_order_def Let_def delta_number_def)
  next
    case 3
    then show ?thesis using assms positive_decimal_digits
      by (simp add: sequence_order_def Let_def delta_number_def orders_digits_def)
  qed
qed

lemma insert_by_key:
  "(\<And>y. y \<in> set ys \<Longrightarrow> cmp x y \<le> 0 \<longleftrightarrow> k x \<le> k y) \<Longrightarrow> insert_by cmp x ys = insort_key k x ys"
  by (induction ys) auto

lemma toSorted_key:
  "(\<And>x y. x \<in> set xs \<Longrightarrow> y \<in> set xs \<Longrightarrow> cmp x y \<le> 0 \<longleftrightarrow> k x \<le> k y) \<Longrightarrow> toSorted cmp xs = sort_key k xs"
proof (induction xs)
  case (Cons x xs)
  then have IH: "toSorted cmp xs = sort_key k xs" by simp
  have "insert_by cmp x (sort_key k xs) = insort_key k x (sort_key k xs)"
    using Cons.prems by (intro insert_by_key) simp
  then show ?case using IH by (simp add: toSorted_def)
qed (simp add: toSorted_def)

lemma insort_key_image: "insort_key k (f x) (map f xs) = map f (insort_key (\<lambda>y. k (f y)) x xs)"
  by (induction xs) simp_all

lemma sort_key_image: "sort_key k (map f xs) = map f (sort_key (\<lambda>x. k (f x)) xs)"
  by (induction xs) (simp_all add: insort_key_image)

text \<open>A list of rows that passes validation is returned unchanged, and no member has a sequence number twice.\<close>

definition delta_key :: "EntitledPendingDelta \<Rightarrow> jstring" where
  "delta_key row = ed_memberId row @ lit '':'' @ pa_sequence (ed_delta row)"

lemma validate_deltas_ok:
  "validate_deltas seen rows = Inr vs \<longleftrightarrow>
     vs = rows \<and> list_all (\<lambda>r. PendingActionDeltaSchema (ed_delta r)) rows \<and>
     distinct (map delta_key rows) \<and> set (map delta_key rows) \<inter> set seen = {}"
proof (induction rows arbitrary: seen vs)
  case (Cons r rows)
  have u: "r\<lparr>ed_delta := ed_delta r\<rparr> = r" by simp
  have k: "ed_memberId r @ lit '':'' @ pa_sequence (ed_delta r) = delta_key r" by (simp add: delta_key_def)
  show ?case
    by (auto simp: bindr_eq_Inr_iff Let_def Cons.IH u k simp del: lit_simps split: if_splits)
qed auto

text \<open>The context and cursor that \<open>listEntitledDeltas\<close> serves.\<close>

definition feed_request_ok :: "EntitledPendingDelta list \<Rightarrow> FeedCursorPayload \<Rightarrow> FeedReadContext \<Rightarrow> bool" where
  "feed_request_ok rows cursor context \<longleftrightarrow>
     FeedCursorPayloadSchema cursor \<and> fc_memberId cursor = fx_memberId context \<and> fc_boardId cursor = fx_boardId context \<and>
     fc_entitlementGeneration cursor = fx_entitlementGeneration context \<and> 1 \<le> fx_limit context \<and> fx_limit context \<le> 1000 \<and>
     list_all (\<lambda>r. PendingActionDeltaSchema (ed_delta r)) rows \<and> distinct (map delta_key rows)"

lemma delta_positive: "PendingActionDeltaSchema d \<Longrightarrow> positive_decimal (pa_sequence d)"
  by (simp add: PendingActionDeltaSchema_def)

lemma listEntitledDeltas_iff:
  assumes "orders_digits lc"
  shows "listEntitledDeltas lc rows cursor context = Inr page \<longleftrightarrow>
     feed_request_ok rows cursor context \<and> page = take (nat (fx_limit context)) (entitled_after rows cursor context)"
proof -
  let ?sel = "filter (delta_selected cursor context)"
  have sort: "toSorted (sequence_order lc) (?sel rows) = sort_key (\<lambda>r. delta_number (ed_delta r)) (?sel rows)"
    if "list_all (\<lambda>r. PendingActionDeltaSchema (ed_delta r)) rows"
    using that by (intro toSorted_key sequence_order_number [OF assms] delta_positive) (auto simp: list_all_iff)
  show ?thesis
    by (auto simp: listEntitledDeltas_def bindr_eq_Inr_iff validate_deltas_ok feed_request_ok_def entitled_after_def
        sort sort_key_image take_map isSafeInteger_def MAX_SAFE_INTEGER_def split: if_splits)
qed

lemma distinct_numbers:
  assumes "feed_request_ok rows cursor context"
  shows "distinct (map delta_number (entitled_after rows cursor context))"
proof -
  let ?sel = "filter (delta_selected cursor context)"
  have "inj_on (\<lambda>r. delta_number (ed_delta r)) (set (?sel rows))"
  proof (rule inj_onI)
    fix a b
    assume a: "a \<in> set (?sel rows)" and b: "b \<in> set (?sel rows)" and eq: "delta_number (ed_delta a) = delta_number (ed_delta b)"
    from assms a b have "pa_sequence (ed_delta a) = pa_sequence (ed_delta b)"
      by (intro positive_decimal_inj delta_positive eq [unfolded delta_number_def]) (auto simp: feed_request_ok_def list_all_iff)
    moreover have "ed_memberId a = ed_memberId b" using a b by (simp add: delta_selected_def)
    ultimately have "delta_key a = delta_key b" by (simp add: delta_key_def)
    with assms a b show "a = b" by (auto simp: feed_request_ok_def distinct_map inj_on_def)
  qed
  moreover have "distinct (?sel rows)" using assms by (auto simp: feed_request_ok_def distinct_map)
  ultimately have "distinct (map (\<lambda>r. delta_number (ed_delta r)) (?sel rows))" by (simp add: distinct_map)
  then have "distinct (map delta_number (map ed_delta (?sel rows)))" by (simp add: comp_def)
  then show ?thesis
    unfolding entitled_after_def by (metis mset_eq_imp_distinct_iff mset_map mset_sort)
qed

lemma entitled_ascending:
  assumes "feed_request_ok rows cursor context"
  shows "sorted_wrt (\<lambda>d e. delta_number d < delta_number e) (entitled_after rows cursor context)"
proof -
  have "sorted (map delta_number (entitled_after rows cursor context))" unfolding entitled_after_def by (rule sorted_sort_key)
  then have "sorted_wrt (<) (map delta_number (entitled_after rows cursor context))"
    using distinct_numbers [OF assms] by (simp add: strict_sorted_iff)
  then show ?thesis by (simp only: sorted_wrt_map)
qed

lemma filter_above_last:
  assumes "sorted_wrt (\<lambda>d e. f d < (f e :: nat)) xs" and "take k xs \<noteq> []"
  shows "filter (\<lambda>d. f (last (take k xs)) < f d) xs = drop k xs"
proof -
  let ?t = "take k xs" and ?m = "f (last (take k xs))"
  have s: "sorted_wrt (\<lambda>d e. f d < f e) (?t @ drop k xs)" using assms(1) by simp
  have "\<not> ?m < f d" if "d \<in> set ?t" for d
  proof -
    have "sorted_wrt (\<lambda>d e. f d < f e) (butlast ?t @ [last ?t])" using s assms(2) by (simp add: sorted_wrt_append)
    moreover have "d \<in> set (butlast ?t @ [last ?t])" using that assms(2) by simp
    ultimately show ?thesis by (auto simp: sorted_wrt_append)
  qed
  then have "filter (\<lambda>d. ?m < f d) ?t = []" by simp
  moreover have "?m < f d" if "d \<in> set (drop k xs)" for d
    using s [unfolded sorted_wrt_append] that last_in_set [OF assms(2)] by blast
  then have "filter (\<lambda>d. ?m < f d) (drop k xs) = drop k xs" by simp
  moreover have "filter (\<lambda>d. ?m < f d) xs = filter (\<lambda>d. ?m < f d) ?t @ filter (\<lambda>d. ?m < f d) (drop k xs)"
    by (metis append_take_drop_id filter_append)
  ultimately show ?thesis by simp
qed

lemma next_page:
  assumes ok: "feed_request_ok rows cursor context" and p: "take k (entitled_after rows cursor context) \<noteq> []"
  defines "later \<equiv> cursor\<lparr>fc_afterSequence := pa_sequence (last (take k (entitled_after rows cursor context)))\<rparr>"
  shows "feed_request_ok rows later context" and "entitled_after rows later context = drop k (entitled_after rows cursor context)"
proof -
  let ?E = "entitled_after rows cursor context" and ?l = "last (take k (entitled_after rows cursor context))"
  have "?l \<in> set ?E" using p by (meson in_set_takeD last_in_set)
  then obtain r where r: "r \<in> set rows" "delta_selected cursor context r" "?l = ed_delta r"
    by (auto simp: entitled_after_def)
  then have "positive_decimal (pa_sequence ?l)" using ok by (auto simp: feed_request_ok_def list_all_iff delta_positive)
  then show "feed_request_ok rows later context"
    using ok by (auto simp: feed_request_ok_def later_def FeedCursorPayloadSchema_def unsigned_decimal_def)
  have above: "dec_val (fc_afterSequence cursor) < delta_number ?l" using r by (simp add: delta_selected_def delta_number_def)
  have sel: "delta_selected later context = (\<lambda>x. delta_selected cursor context x \<and> delta_number ?l < delta_number (ed_delta x))"
    using above by (auto simp: delta_selected_def later_def delta_number_def fun_eq_iff)
  have "entitled_after rows later context = filter (\<lambda>d. delta_number ?l < delta_number d) ?E"
    unfolding entitled_after_def filter_sort filter_map filter_filter sel comp_def by (simp add: conj_commute)
  then show "entitled_after rows later context = drop k ?E"
    using filter_above_last [OF entitled_ascending [OF ok] p] by simp
qed

lemma entitled_after_set:
  "set (entitled_after rows cursor context) =
     {ed_delta r | r. r \<in> set rows \<and> ed_memberId r = fx_memberId context \<and>
        (\<forall>b. fx_boardId context = Some b \<longrightarrow> ed_boardId r = b) \<and>
        pa_entitlementGeneration (ed_delta r) = fx_entitlementGeneration context \<and>
        dec_val (fc_afterSequence cursor) < dec_val (pa_sequence (ed_delta r))}"
  by (cases "fx_boardId context") (auto simp: entitled_after_def delta_selected_def)

text \<open>Property C10: paging loses and repeats nothing, and reveals nothing else. A client that starts from a cursor the server
  accepts and asks again from the last delta of each page until a page is empty has read, after at most one page more than
  there are rows, exactly the deltas of its member, of the board it reads (of every board when it names none), of its
  entitlement generation and with a sequence number above the cursor's, each once and in ascending order of the sequence
  numbers, whatever the page size.\<close>

theorem feed_pages_complete:
  assumes "orders_digits lc" and "feed_request_ok rows cursor context"
  shows "\<exists>deltas. read_pages (Suc (length rows)) lc rows cursor context = Inr deltas \<and>
     set deltas = {ed_delta r | r. r \<in> set rows \<and> ed_memberId r = fx_memberId context \<and>
        (\<forall>b. fx_boardId context = Some b \<longrightarrow> ed_boardId r = b) \<and>
        pa_entitlementGeneration (ed_delta r) = fx_entitlementGeneration context \<and>
        dec_val (fc_afterSequence cursor) < dec_val (pa_sequence (ed_delta r))} \<and>
     sorted_wrt (\<lambda>d e. dec_val (pa_sequence d) < dec_val (pa_sequence e)) deltas"
proof -
  have "read_pages (Suc n) lc rows cursor context = Inr (entitled_after rows cursor context)"
    if "length (entitled_after rows cursor context) \<le> n" "feed_request_ok rows cursor context" for n cursor
    using that
  proof (induction n arbitrary: cursor)
    case 0
    then have "listEntitledDeltas lc rows cursor context = Inr []" by (simp add: listEntitledDeltas_iff [OF assms(1)])
    with 0 show ?case by simp
  next
    case (Suc n)
    let ?E = "entitled_after rows cursor context" and ?k = "nat (fx_limit context)"
    have pg: "listEntitledDeltas lc rows cursor context = Inr (take ?k ?E)"
      using Suc.prems(2) by (simp add: listEntitledDeltas_iff [OF assms(1)])
    have k: "0 < ?k" using Suc.prems(2) by (simp add: feed_request_ok_def)
    show ?case
    proof (cases "take ?k ?E = []")
      case True
      then have "?E = []" using k by simp
      with pg show ?thesis by simp
    next
      case False
      note np = next_page [OF Suc.prems(2) False]
      have "length (drop ?k ?E) \<le> n" using Suc.prems(1) k False by simp
      with Suc.IH [OF _ np(1)] have "read_pages (Suc n) lc rows
          (cursor\<lparr>fc_afterSequence := pa_sequence (last (take ?k ?E))\<rparr>) context = Inr (drop ?k ?E)"
        by (simp only: np(2))
      then show ?thesis using pg False by (simp del: read_pages.simps add: read_pages.simps(2) [of "Suc n"])
    qed
  qed
  moreover have "length (entitled_after rows cursor context) \<le> length rows" by (simp add: entitled_after_def)
  ultimately have "read_pages (Suc (length rows)) lc rows cursor context = Inr (entitled_after rows cursor context)"
    using assms(2) by blast
  then show ?thesis
    using entitled_ascending [OF assms(2)] unfolding delta_number_def by (intro exI [of _ "entitled_after rows cursor context"] conjI entitled_after_set)
qed

definition wit_delta :: "string \<Rightarrow> int \<Rightarrow> PendingActionDelta" where
  "wit_delta n g = \<lparr>pa_sequence = lit n, pa_deltaType = delta_notice, pa_objectType = lit ''vote'', pa_objectId = wit_uuid,
     pa_objectVersion = 1, pa_entitlementGeneration = g, pa_actionState = action_pending, pa_changedComponentClasses = None,
     pa_safeRefs = [], pa_createdAt = wit_time\<rparr>"

definition wit_feed :: "EntitledPendingDelta list" where
  "wit_feed =
    [\<lparr>ed_memberId = wit_uuid, ed_boardId = wit_uuid', ed_delta = wit_delta ''10'' 1\<rparr>,
     \<lparr>ed_memberId = wit_uuid, ed_boardId = wit_uuid', ed_delta = wit_delta ''9'' 1\<rparr>,
     \<lparr>ed_memberId = wit_uuid, ed_boardId = wit_uuid', ed_delta = wit_delta ''2'' 1\<rparr>,
     \<lparr>ed_memberId = wit_uuid, ed_boardId = wit_uuid, ed_delta = wit_delta ''5'' 1\<rparr>,
     \<lparr>ed_memberId = wit_uuid, ed_boardId = wit_uuid', ed_delta = wit_delta ''6'' 2\<rparr>,
     \<lparr>ed_memberId = wit_uuid', ed_boardId = wit_uuid', ed_delta = wit_delta ''7'' 1\<rparr>]"

definition wit_cursor :: FeedCursorPayload where
  "wit_cursor = \<lparr>fc_memberId = wit_uuid, fc_boardId = Some wit_uuid', fc_entitlementGeneration = 1, fc_afterSequence = lit ''2''\<rparr>"

definition wit_reader :: FeedReadContext where
  "wit_reader = \<lparr>fx_memberId = wit_uuid, fx_boardId = Some wit_uuid', fx_entitlementGeneration = 1, fx_limit = 1\<rparr>"

lemma wit_delta_ok: "n \<in> {''10'', ''9'', ''2'', ''5'', ''6'', ''7''} \<Longrightarrow> g \<in> {1, 2} \<Longrightarrow> PendingActionDeltaSchema (wit_delta n g)"
proof -
  assume n: "n \<in> {''10'', ''9'', ''2'', ''5'', ''6'', ''7''}" and g: "g \<in> {1, 2}"
  have "positive_decimal (lit n)" using n by (auto simp: positive_decimal_def is_char_def)
  then show ?thesis
    using g wit_times by (auto simp: PendingActionDeltaSchema_def wit_delta_def feed_object_types_def
        SafePositiveIntegerSchema_def isSafeInteger_def MAX_SAFE_INTEGER_def simp del: lit_simps)
qed

text \<open>The feed holds rows of another board, of another generation and of another member among those the reader gets.\<close>

theorem feed_pages_complete_witness:
  "\<exists>deltas. read_pages 7 (\<lambda>s t. int (dec_val s) - int (dec_val t)) wit_feed wit_cursor wit_reader = Inr deltas \<and>
     set deltas = {wit_delta ''9'' 1, wit_delta ''10'' 1} \<and>
     sorted_wrt (\<lambda>d e. dec_val (pa_sequence d) < dec_val (pa_sequence e)) deltas"
proof -
  have "list_all (\<lambda>r. PendingActionDeltaSchema (ed_delta r)) wit_feed" by (simp add: wit_feed_def wit_delta_ok)
  moreover have "distinct (map delta_key wit_feed)" by (simp add: wit_feed_def delta_key_def wit_delta_def wit_uuid_ok(3) [symmetric])
  ultimately have r: "feed_request_ok wit_feed wit_cursor wit_reader"
    by (simp add: feed_request_ok_def wit_cursor_def wit_reader_def FeedCursorPayloadSchema_def
        SafePositiveIntegerSchema_def isSafeInteger_def MAX_SAFE_INTEGER_def unsigned_decimal_def positive_decimal_def is_char_def)
  have o: "orders_digits (\<lambda>s t. int (dec_val s) - int (dec_val t))" by (simp add: orders_digits_def)
  have n: "dec_val (lit ''2'') = 2" "dec_val (lit ''5'') = 5" "dec_val (lit ''6'') = 6" "dec_val (lit ''7'') = 7"
    "dec_val (lit ''9'') = 9" "dec_val (lit ''10'') = 10"
    by (simp_all add: dec_val_def digit_val_def)
  have "{ed_delta r | r. r \<in> set wit_feed \<and> ed_memberId r = fx_memberId wit_reader \<and>
        (\<forall>b. fx_boardId wit_reader = Some b \<longrightarrow> ed_boardId r = b) \<and>
        pa_entitlementGeneration (ed_delta r) = fx_entitlementGeneration wit_reader \<and>
        dec_val (fc_afterSequence wit_cursor) < dec_val (pa_sequence (ed_delta r))} = {wit_delta ''9'' 1, wit_delta ''10'' 1}"
    unfolding entitled_after_set [symmetric]
    by (simp add: entitled_after_def delta_selected_def wit_feed_def wit_reader_def wit_cursor_def wit_delta_def n delta_number_def
        wit_uuid_ok(3) [symmetric] del: lit_simps)
  moreover have "Suc (length wit_feed) = 7" by (simp add: wit_feed_def)
  ultimately show ?thesis using feed_pages_complete [OF o r] by simp
qed

end
