(* ===== verification/Json_Size.thy ===== *)
theory Json_Size
  imports Canonical
begin

text \<open>
  How long the canonical text of a value and its UTF-8 encoding can be, for the code that limits them.
\<close>

fun json_bound :: "json \<Rightarrow> nat" where
  "json_bound (JStr s) = 6 * length s + 2"
| "json_bound (JNum n) = length (dec_int n)"
| "json_bound (JArr xs) = 2 + (\<Sum>x\<leftarrow>xs. json_bound x + 1)"
| "json_bound (JObj es) = 2 + (\<Sum>(k, x)\<leftarrow>es. 6 * length k + json_bound x + 4)"
| "json_bound _ = 5"

lemma length_escape_unit: "length (escape_unit u) \<le> 6"
  by (simp add: escape_unit_def hex4_def)

lemma length_escape: "length (escape_string s) \<le> 6 * length s"
proof (induction s rule: escape_string.induct)
  case (2 u)
  then show ?case using length_escape_unit [of u] by simp
next
  case (3 u v s)
  then show ?case using length_escape_unit [of u] by auto
qed simp_all

lemma length_quote: "length (quote_string s) \<le> 6 * length s + 2"
  using length_escape [of s] by (simp add: quote_string_def)

lemma length_join_le: "length (join c xs) \<le> (\<Sum>x\<leftarrow>xs. length x + length c)"
  by (induction c xs rule: join.induct) simp_all

lemma length_stringify: "length (stringify v) \<le> json_bound v"
proof (induction v rule: stringify.induct)
  case (4 s)
  then show ?case using length_quote [of s] by simp
next
  case (5 xs)
  have "(\<Sum>x\<leftarrow>xs. length (stringify x) + 1) \<le> (\<Sum>x\<leftarrow>xs. json_bound x + 1)"
    using 5 by (intro sum_list_mono) simp
  then show ?case using length_join_le [of "lit '',''" "map stringify xs"] by (simp add: comp_def)
next
  case (6 es)
  let ?f = "\<lambda>(k, v). quote_string k @ lit '':'' @ stringify v"
  have "length (?f e) + 1 \<le> (case e of (k, x) \<Rightarrow> 6 * length k + json_bound x + 4)" if "e \<in> set es" for e
  proof (cases e)
    case (Pair k v)
    have "length (stringify v) \<le> json_bound v" using 6 that Pair by blast
    then show ?thesis using length_quote [of k] by (simp add: Pair)
  qed
  then have "(\<Sum>e\<leftarrow>es. length (?f e) + 1) \<le> (\<Sum>(k, x)\<leftarrow>es. 6 * length k + json_bound x + 4)"
    by (rule sum_list_mono)
  then show ?case using length_join_le [of "lit '',''" "map ?f es"] by (simp add: comp_def)
qed simp_all

lemma sum_list_sort_key: "(\<Sum>x\<leftarrow>sort_key k xs. f x) = (\<Sum>x\<leftarrow>xs. (f x :: nat))"
  by (metis mset_map mset_sort sum_mset_sum_list)

lemma json_bound_jsort [simp]: "json_bound (jsort v) = json_bound v"
proof (induction v rule: jsort.induct)
  case (1 xs)
  then have "map (\<lambda>x. json_bound (jsort x) + 1) xs = map (\<lambda>x. json_bound x + 1) xs" by simp
  from arg_cong [OF this, of sum_list] show ?case by (simp add: comp_def)
next
  case (2 es)
  have "(case x of (k, x) \<Rightarrow> 6 * length k + json_bound (jsort x) + 4) =
      (case x of (k, x) \<Rightarrow> 6 * length k + json_bound x + 4)" if "x \<in> set es" for x
  proof (cases x)
    case (Pair k v)
    then show ?thesis using 2 that by simp
  qed
  then have "map (\<lambda>(k, x). 6 * length k + json_bound (jsort x) + 4) es = map (\<lambda>(k, x). 6 * length k + json_bound x + 4) es"
    by simp
  from arg_cong [OF this, of sum_list] show ?case by (simp add: sum_list_sort_key comp_def split_beta')
qed simp_all

lemma length_code_points: "length (code_points s) \<le> length s"
  by (induction s rule: code_points.induct) (auto simp: Let_def)

lemma length_utf8_of_point: "length (utf8_of_point n) \<le> 4"
  by (simp add: utf8_of_point_def)

lemma length_utf8: "length (utf8_encode s) \<le> 4 * length s"
proof -
  have "length (concat (map utf8_of_point ps)) \<le> 4 * length ps" for ps
  proof (induction ps)
    case (Cons p ps)
    then show ?case using length_utf8_of_point [of p] by simp
  qed simp
  from this [of "code_points s"] length_code_points [of s] show ?thesis by (simp add: utf8_encode_def)
qed

end
