(* ===== verification/Document.thy ===== *)
theory Document
  imports Minutes Feed_Cursor Json_Size
begin

text \<open>
  Contributed documents: \<^verbatim>\<open>lib/domain/src/document.ts\<close> with the media types of \<^verbatim>\<open>lib/contracts/src/content.ts\<close> and the
  JSON document formats of \<^verbatim>\<open>document-schemas.ts\<close> and \<^verbatim>\<open>governance.ts\<close>. A \<open>DocumentValidationError\<close> carries its code and
  message; the remediation text, which the code path fixes, is left out.
\<close>

section \<open>Media types and document formats\<close>

datatype MediaType = text_markdown | text_plain | application_json

fun media_type_name :: "MediaType \<Rightarrow> jstring" where
  "media_type_name text_markdown = lit ''text/markdown; charset=utf-8''"
| "media_type_name text_plain = lit ''text/plain; charset=utf-8''"
| "media_type_name application_json = lit ''application/json''"

definition CanonicalMediaTypeSchema :: "jstring \<Rightarrow> MediaType option" where
  "CanonicalMediaTypeSchema val = find (\<lambda>m. media_type_name m = val) [text_markdown, text_plain, application_json]"

fun json_text :: "nat \<Rightarrow> nat \<Rightarrow> json \<Rightarrow> bool" where
  "json_text minimum maximum (JStr s) \<longleftrightarrow> minimum \<le> length s \<and> length s \<le> maximum"
| "json_text minimum maximum _ \<longleftrightarrow> False"

definition BoardPackSectionSchema :: "json \<Rightarrow> bool" where
  "BoardPackSectionSchema v \<longleftrightarrow>
     (case strict_object [''heading'', ''body''] v of
        Some [heading, body] \<Rightarrow> json_text 1 512 heading \<and> json_text 1 10485760 body
      | _ \<Rightarrow> False)"

definition BoardPackDocumentSchema :: "json \<Rightarrow> bool" where
  "BoardPackDocumentSchema v \<longleftrightarrow>
     (case strict_object [''schemaVersion'', ''title'', ''sections''] v of
        Some [ver, title, JArr sections] \<Rightarrow>
          ver = jstr ''boardagent.board-pack.v1'' \<and> json_text 1 512 title \<and>
          1 \<le> length sections \<and> length sections \<le> 1000 \<and> list_all BoardPackSectionSchema sections
      | _ \<Rightarrow> False)"

definition governance_citation_of :: "json \<Rightarrow> GovernanceCitation option" where
  "governance_citation_of v =
     (case strict_object [''sourceDocumentVersionId'', ''sourceDocumentSha256'', ''clause'', ''locator''] v of
        Some [JStr a, JStr b, JStr c, JStr d] \<Rightarrow>
          Some \<lparr>gc_sourceDocumentVersionId = a, gc_sourceDocumentSha256 = b, gc_clause = c, gc_locator = d\<rparr>
      | _ \<Rightarrow> None)"

definition GovernanceCitationJson :: "platform \<Rightarrow> json \<Rightarrow> bool" where
  "GovernanceCitationJson pl v \<longleftrightarrow> pred_option (GovernanceCitationSchema pl) (governance_citation_of v) \<and> governance_citation_of v \<noteq> None"

definition MinutesCommentSchema :: "platform \<Rightarrow> json \<Rightarrow> bool" where
  "MinutesCommentSchema pl v \<longleftrightarrow>
     (case strict_object [''schemaVersion'', ''minutesId'', ''baseVersion'', ''baseSha256'', ''comment'', ''citations''] v of
        Some [ver, JStr minutesId, JNum baseVersion, JStr baseSha256, JStr cmt, JArr citations] \<Rightarrow>
          ver = jstr ''boardagent.minutes-comment.v1'' \<and> UuidSchema minutesId \<and> SafePositiveIntegerSchema baseVersion \<and>
          Sha256HexSchema baseSha256 \<and> canonicalString pl 1 262144 cmt \<and> length citations \<le> 64 \<and>
          list_all (GovernanceCitationJson pl) citations
      | _ \<Rightarrow> False)"

definition minutes_anchor_of :: "json \<Rightarrow> MinutesAnchor option" where
  "minutes_anchor_of v =
     (if jfield (lit ''kind'') v = Some (jstr ''section'')
        then (case strict_object [''kind'', ''section''] v of Some [_, JStr sec] \<Rightarrow> Some (SectionAnchor sec) | _ \<Rightarrow> None)
      else if jfield (lit ''kind'') v = Some (jstr ''lines'')
        then (case strict_object [''kind'', ''startLine'', ''endLine''] v of
                Some [_, JNum startLine, JNum endLine] \<Rightarrow> Some (LinesAnchor startLine endLine)
              | _ \<Rightarrow> None)
      else None)"

definition redline_operation_of :: "json \<Rightarrow> RedlineOperation option" where
  "redline_operation_of = as_enum
     [(''replace'', redline_replace), (''insert_before'', redline_insert_before), (''insert_after'', redline_insert_after),
      (''delete'', redline_delete)]"

definition minutes_redline_of :: "json \<Rightarrow> MinutesRedline option" where
  "minutes_redline_of v =
     (case strict_object [''schemaVersion'', ''minutesId'', ''baseVersion'', ''baseSha256'', ''anchor'', ''anchoredTextSha256'',
        ''operation'', ''proposedText'', ''rationale'', ''citations''] v of
        Some [ver, JStr minutesId, JNum baseVersion, JStr baseSha256, a, JStr anchoredTextSha256, oper, JStr proposedText,
            JStr rationale, JArr cs] \<Rightarrow>
          if ver \<noteq> jstr ''boardagent.minutes-redline.v1'' then None
          else Option.bind (minutes_anchor_of a) (\<lambda>anchor. Option.bind (redline_operation_of oper) (\<lambda>operation.
            Option.bind (those (map governance_citation_of cs)) (\<lambda>citations.
            Some \<lparr>mr_minutesId = minutesId, mr_baseVersion = baseVersion, mr_baseSha256 = baseSha256, mr_anchor = anchor,
              mr_anchoredTextSha256 = anchoredTextSha256, mr_operation = operation, mr_proposedText = proposedText,
              mr_rationale = rationale, mr_citations = citations\<rparr>)))
      | _ \<Rightarrow> None)"

definition SUPPORTED_JSON_DOCUMENT_SCHEMAS :: "string list" where
  "SUPPORTED_JSON_DOCUMENT_SCHEMAS =
     [''boardagent.board-pack.v1'', ''boardagent.minutes-comment.v1'', ''boardagent.minutes-redline.v1'']"

definition documentBodySchema :: "platform \<Rightarrow> jstring \<Rightarrow> (json \<Rightarrow> bool) option" where
  "documentBodySchema pl name =
     (if name = lit ''boardagent.board-pack.v1'' then Some BoardPackDocumentSchema
      else if name = lit ''boardagent.minutes-comment.v1'' then Some (MinutesCommentSchema pl)
      else if name = lit ''boardagent.minutes-redline.v1''
        then Some (\<lambda>v. case minutes_redline_of v of None \<Rightarrow> False | Some r \<Rightarrow> MinutesRedlineSchema pl r)
      else None)"

section \<open>Errors\<close>

datatype DocumentValidationCode =
    machine_readable_material_required
  | document_empty
  | document_too_large
  | document_schema_required
  | document_schema_forbidden
  | document_schema_invalid
  | invalid_canonical_content

datatype document_error =
    DocumentValidationError DocumentValidationCode jstring
  | Thrown js_error

type_synonym 'a document_result = "document_error + 'a"

definition thrown :: "'a result \<Rightarrow> 'a document_result" where
  "thrown m = (case m of Inl e \<Rightarrow> Inl (Thrown e) | Inr x \<Rightarrow> Inr x)"

text \<open>The \<open>catch\<close> around canonicalization.\<close>

definition canonical_content :: "'a result \<Rightarrow> 'a document_result" where
  "canonical_content m =
     (case m of
        Inl (CanonicalizationError message) \<Rightarrow> Inl (DocumentValidationError invalid_canonical_content message)
      | Inl e \<Rightarrow> Inl (Thrown e)
      | Inr x \<Rightarrow> Inr x)"

section \<open>Preparing a contribution\<close>

definition MAX_DOCUMENT_BYTES :: nat where
  "MAX_DOCUMENT_BYTES = 10485760"

record DocumentContributionInput =
  di_organizationId :: jstring
  di_boardId :: jstring
  di_documentId :: jstring
  di_title :: jstring
  di_mediaType :: jstring
  di_documentSchema :: "jstring option"
  di_body :: "byte list"

record DocumentCanonicalMetadata =
  dm_organizationId :: jstring
  dm_boardId :: jstring
  dm_documentId :: jstring
  dm_title :: jstring
  dm_mediaType :: MediaType
  dm_documentSchema :: "jstring option"
  dm_byteLength :: nat
  dm_sha256 :: jstring

text \<open>The metadata and, beside it, the canonical and the offered bytes; the canonicalization version is constant.\<close>

record PreparedDocumentContribution =
  pc_canonicalMetadata :: DocumentCanonicalMetadata
  pc_canonicalBytes :: "byte list"
  pc_canonicalText :: jstring
  pc_offeredByteLength :: nat
  pc_offeredSha256 :: jstring
  pc_requestSha256 :: jstring

text \<open>\<^verbatim>\<open>^boardagent\.[a-z0-9_.-]+\.v[0-9]+$\<close>: after the prefix, the last dot starts the version.\<close>

definition schema_name_char :: "16 word \<Rightarrow> bool" where
  "schema_name_char c \<longleftrightarrow> is_lower c \<or> is_digit c \<or> is_char CHR ''_'' c \<or> is_char CHR ''.'' c \<or> is_char CHR ''-'' c"

definition document_schema_name :: "jstring \<Rightarrow> bool" where
  "document_schema_name s \<longleftrightarrow>
     (let rest = drop 11 s; digits = takeWhile is_digit (rev rest); name = rev (drop (length digits + 2) (rev rest))
      in take 11 s = lit ''boardagent.'' \<and> digits \<noteq> [] \<and>
         take 2 (drop (length digits) (rev rest)) = lit ''v.'' \<and> name \<noteq> [] \<and> list_all schema_name_char name)"

definition validateSchema :: "platform \<Rightarrow> MediaType \<Rightarrow> jstring option \<Rightarrow> jstring option document_result" where
  "validateSchema pl mediaType documentSchema =
     (if mediaType = application_json
        then (case documentSchema of
            None \<Rightarrow> Inl (DocumentValidationError document_schema_required
              (lit ''a versioned document schema is required for application/json''))
          | Some name \<Rightarrow>
              if \<not> document_schema_name name
                then Inl (DocumentValidationError document_schema_invalid
                  (lit ''document schema must be a versioned boardagent identifier''))
              else if documentBodySchema pl name = None
                then Inl (DocumentValidationError document_schema_invalid
                  (lit ''document schema is not in the supported versioned catalog''))
              else Inr (Some name))
      else if documentSchema \<noteq> None
        then Inl (DocumentValidationError document_schema_forbidden
          (lit ''document schema is allowed only for application/json''))
      else Inr None)"

definition CanonicalDocumentSchema :: "jstring \<Rightarrow> jstring \<Rightarrow> nat \<Rightarrow> jstring \<Rightarrow> jstring \<Rightarrow> bool" where
  "CanonicalDocumentSchema documentId title byteLength digest body \<longleftrightarrow>
     UuidSchema documentId \<and> 1 \<le> length title \<and> length title \<le> 512 \<and> byteLength \<le> 10485760 \<and>
     Sha256HexSchema digest \<and> length body \<le> 10485760"

definition document_metadata_json :: "DocumentCanonicalMetadata \<Rightarrow> json" where
  "document_metadata_json m = JObj
     [(lit ''schemaVersion'', jstr ''boardagent.document-metadata.v1''), (lit ''organizationId'', JStr (dm_organizationId m)),
      (lit ''boardId'', JStr (dm_boardId m)), (lit ''documentId'', JStr (dm_documentId m)), (lit ''title'', JStr (dm_title m)),
      (lit ''mediaType'', JStr (media_type_name (dm_mediaType m))),
      (lit ''documentSchema'', nullable JStr (dm_documentSchema m)),
      (lit ''canonicalizationVersion'', jstr ''RFC8785+NFC-LF-v1''), (lit ''byteLength'', JNum (int (dm_byteLength m))),
      (lit ''sha256'', JStr (dm_sha256 m))]"

text \<open>The document body against its declared format.\<close>

definition checkBody :: "platform \<Rightarrow> jstring option \<Rightarrow> jstring \<Rightarrow> unit document_result" where
  "checkBody pl documentSchema body =
     (case documentSchema of
        None \<Rightarrow> Inr ()
      | Some name \<Rightarrow>
          bindr (thrown (StrictJsonParser_parse (normalizeNFC pl) body)) (\<lambda>v.
            case documentBodySchema pl name of
              Some validator \<Rightarrow>
                if validator v then Inr ()
                else Inl (DocumentValidationError document_schema_invalid
                  (lit ''document body does not match its declared versioned schema''))
            | None \<Rightarrow> Inl (DocumentValidationError document_schema_invalid
                (lit ''document body does not match its declared versioned schema''))))"

definition prepareDocumentContribution ::
    "platform \<Rightarrow> DocumentContributionInput \<Rightarrow> PreparedDocumentContribution document_result" where
  "prepareDocumentContribution pl i =
     (case CanonicalMediaTypeSchema (di_mediaType i) of
        None \<Rightarrow> Inl (DocumentValidationError machine_readable_material_required
          (lit (''BoardAgent accepts only UTF-8 Markdown, plain text, or versioned strict JSON; '' @
             ''rejected bytes were not retained.'')))
      | Some media \<Rightarrow>
     if length (di_body i) = 0
       then Inl (DocumentValidationError document_empty (lit ''canonical document content cannot be empty''))
     else if MAX_DOCUMENT_BYTES < length (di_body i)
       then Inl (DocumentValidationError document_too_large (lit ''document content exceeds the exact 10 MiB limit''))
     else
     bindr (thrown (zparse UuidV7Schema (di_organizationId i))) (\<lambda>organizationId.
     bindr (thrown (zparse UuidV7Schema (di_boardId i))) (\<lambda>boardId.
     bindr (thrown (zparse UuidV7Schema (di_documentId i))) (\<lambda>documentId.
     bindr (thrown (canonicalText pl (Text (di_title i)))) (\<lambda>title.
     bindr (validateSchema pl media (di_documentSchema i)) (\<lambda>documentSchema.
     bindr (canonical_content (if media = application_json then canonicalJsonFromText pl (Bytes (di_body i))
         else canonicalText pl (Bytes (di_body i)))) (\<lambda>body.
     bindr (checkBody pl documentSchema body) (\<lambda>_.
     let canonicalBytes = utf8_encode body in
     if length canonicalBytes = 0
       then Inl (DocumentValidationError document_empty (lit ''canonical document content cannot be empty''))
     else if MAX_DOCUMENT_BYTES < length canonicalBytes
       then Inl (DocumentValidationError document_too_large (lit ''canonical document content exceeds the exact 10 MiB limit''))
     else let digest = sha256Hex (Bytes canonicalBytes) in
     bindr (thrown (ensure (CanonicalDocumentSchema documentId title (length canonicalBytes) digest body) ZodError)) (\<lambda>_.
     let canonicalMetadata = \<lparr>dm_organizationId = organizationId, dm_boardId = boardId, dm_documentId = documentId,
         dm_title = title, dm_mediaType = media, dm_documentSchema = documentSchema,
         dm_byteLength = length canonicalBytes, dm_sha256 = digest\<rparr>
     in bindr (thrown (canonicalSha256 pl (document_metadata_json canonicalMetadata))) (\<lambda>requestSha256.
     Inr \<lparr>pc_canonicalMetadata = canonicalMetadata, pc_canonicalBytes = canonicalBytes, pc_canonicalText = body,
       pc_offeredByteLength = length (di_body i), pc_offeredSha256 = sha256Hex (Bytes (di_body i)),
       pc_requestSha256 = requestSha256\<rparr>))))))))))"

section \<open>What is stored\<close>

lemma thrown_Inr [simp]: "thrown m = Inr x \<longleftrightarrow> m = Inr x"
  by (cases m) (simp_all add: thrown_def)

lemma thrown_ok: "thrown (Inr x) = Inr x"
  by (simp add: thrown_def)

lemma canonical_content_Inr [simp]: "canonical_content m = Inr x \<longleftrightarrow> m = Inr x"
  by (auto simp: canonical_content_def split: sum.splits js_error.splits)

lemma validateSchema_Inr: "validateSchema pl media s = Inr t \<Longrightarrow> t = s"
  by (auto simp: validateSchema_def split: if_splits option.splits)

definition document_body :: "platform \<Rightarrow> MediaType \<Rightarrow> byte list \<Rightarrow> jstring result" where
  "document_body pl media bs =
     (if media = application_json then canonicalJsonFromText pl (Bytes bs) else canonicalText pl (Bytes bs))"

text \<open>The metadata a contribution is recorded under.\<close>

definition metadata_of :: "DocumentContributionInput \<Rightarrow> MediaType \<Rightarrow> jstring \<Rightarrow> DocumentCanonicalMetadata" where
  "metadata_of i media body = \<lparr>dm_organizationId = di_organizationId i, dm_boardId = di_boardId i, dm_documentId = di_documentId i,
     dm_title = di_title i, dm_mediaType = media, dm_documentSchema = di_documentSchema i,
     dm_byteLength = length (utf8_encode body), dm_sha256 = sha256Hex (Bytes (utf8_encode body))\<rparr>"

definition contribution_ok :: "platform \<Rightarrow> DocumentContributionInput \<Rightarrow> MediaType \<Rightarrow> jstring \<Rightarrow> bool" where
  "contribution_ok pl i media body \<longleftrightarrow>
     CanonicalMediaTypeSchema (di_mediaType i) = Some media \<and>
     UuidV7Schema (di_organizationId i) \<and> UuidV7Schema (di_boardId i) \<and> UuidV7Schema (di_documentId i) \<and>
     canonicalText pl (Text (di_title i)) = Inr (di_title i) \<and> validateSchema pl media (di_documentSchema i) = Inr (di_documentSchema i) \<and>
     checkBody pl (di_documentSchema i) body = Inr () \<and>
     0 < length (utf8_encode body) \<and> length (utf8_encode body) \<le> MAX_DOCUMENT_BYTES \<and>
     CanonicalDocumentSchema (di_documentId i) (di_title i) (length (utf8_encode body)) (sha256Hex (Bytes (utf8_encode body))) body"

lemma canonicalText_Inr: "canonicalText pl (Text s) = Inr t \<Longrightarrow> t = s"
  by (auto simp: canonicalText_def bindr_eq_Inr_iff split: if_splits)

lemma prepare_iff:
  "prepareDocumentContribution pl i = Inr p \<longleftrightarrow>
     (\<exists>media body h. contribution_ok pl i media body \<and> di_body i \<noteq> [] \<and> length (di_body i) \<le> MAX_DOCUMENT_BYTES \<and>
       document_body pl media (di_body i) = Inr body \<and>
       canonicalSha256 pl (document_metadata_json (metadata_of i media body)) = Inr h \<and>
       p = \<lparr>pc_canonicalMetadata = metadata_of i media body, pc_canonicalBytes = utf8_encode body, pc_canonicalText = body,
         pc_offeredByteLength = length (di_body i), pc_offeredSha256 = sha256Hex (Bytes (di_body i)), pc_requestSha256 = h\<rparr>)"
  (is "?L \<longleftrightarrow> ?R")
proof
  assume ?L
  then obtain media title s body h where
    "CanonicalMediaTypeSchema (di_mediaType i) = Some media" "di_body i \<noteq> []" "length (di_body i) \<le> MAX_DOCUMENT_BYTES"
    "UuidV7Schema (di_organizationId i)" "UuidV7Schema (di_boardId i)" "UuidV7Schema (di_documentId i)" and
    t: "canonicalText pl (Text (di_title i)) = Inr title" and s: "validateSchema pl media (di_documentSchema i) = Inr s" and
    "document_body pl media (di_body i) = Inr body" "checkBody pl s body = Inr ()"
    "0 < length (utf8_encode body)" "length (utf8_encode body) \<le> MAX_DOCUMENT_BYTES"
    "CanonicalDocumentSchema (di_documentId i) title (length (utf8_encode body)) (sha256Hex (Bytes (utf8_encode body))) body"
    "canonicalSha256 pl (document_metadata_json \<lparr>dm_organizationId = di_organizationId i, dm_boardId = di_boardId i,
       dm_documentId = di_documentId i, dm_title = title, dm_mediaType = media, dm_documentSchema = s,
       dm_byteLength = length (utf8_encode body), dm_sha256 = sha256Hex (Bytes (utf8_encode body))\<rparr>) = Inr h"
    "p = \<lparr>pc_canonicalMetadata = \<lparr>dm_organizationId = di_organizationId i, dm_boardId = di_boardId i,
       dm_documentId = di_documentId i, dm_title = title, dm_mediaType = media, dm_documentSchema = s,
       dm_byteLength = length (utf8_encode body), dm_sha256 = sha256Hex (Bytes (utf8_encode body))\<rparr>,
       pc_canonicalBytes = utf8_encode body, pc_canonicalText = body,
       pc_offeredByteLength = length (di_body i), pc_offeredSha256 = sha256Hex (Bytes (di_body i)), pc_requestSha256 = h\<rparr>"
    by (auto simp: prepareDocumentContribution_def document_body_def bindr_eq_Inr_iff Let_def simp del: lit_simps
        split: option.splits if_splits)
  with canonicalText_Inr [OF t] validateSchema_Inr [OF s] show ?R
    by (auto simp: contribution_ok_def metadata_of_def)
next
  assume ?R
  then obtain media body h where
    c: "contribution_ok pl i media body" "di_body i \<noteq> []" "length (di_body i) \<le> MAX_DOCUMENT_BYTES"
    and b: "(if media = application_json then canonicalJsonFromText pl (Bytes (di_body i)) else canonicalText pl (Bytes (di_body i))) = Inr body"
    and h: "canonicalSha256 pl (document_metadata_json (metadata_of i media body)) = Inr h"
    and p: "p = \<lparr>pc_canonicalMetadata = metadata_of i media body, pc_canonicalBytes = utf8_encode body, pc_canonicalText = body,
         pc_offeredByteLength = length (di_body i), pc_offeredSha256 = sha256Hex (Bytes (di_body i)), pc_requestSha256 = h\<rparr>"
    unfolding document_body_def by blast
  have e: "thrown (ensure True ZodError) = Inr ()" by (simp add: thrown_def)
  show ?L
    using c h unfolding prepareDocumentContribution_def p contribution_ok_def metadata_of_def
    using b by (cases "media = application_json") (simp_all add: zparse_def thrown_ok canonical_content_def Let_def e del: lit_simps)
qed

lemma json_body_stable:
  assumes "rfc8785_encoder pl" and "canonicalJsonFromText pl (Bytes bs) = Inr s"
  shows "canonicalJsonFromText pl (Bytes (utf8_encode s)) = Inr s"
proof -
  obtain v where "js_json v" "canonicalJson pl v = Inr s"
    using assms(2) by (auto simp: canonicalJsonFromText_def bindr_eq_Inr_iff wf_json_iff dest!: parsed_wf split: if_splits)
  with assms(1) show ?thesis using canonical_bytes_stable by blast
qed

lemma text_body_stable: "canonicalText pl (Bytes bs) = Inr s \<Longrightarrow> utf8_encode s = bs"
  by (auto simp: canonicalText_def bindr_eq_Inr_iff utf8_encode_decode split: option.splits if_splits)

text \<open>Property C15: canonical content is a fixed point. A Markdown or plain text document is stored byte for byte as it was offered, and
  offering the stored bytes of any accepted document again under the same names gives the same document: the same bytes,
  metadata and request hash.\<close>

theorem document_content_is_fixed_point:
  assumes "rfc8785_encoder pl" and "prepareDocumentContribution pl i = Inr p"
  shows "(dm_mediaType (pc_canonicalMetadata p) \<noteq> application_json \<longrightarrow> pc_canonicalBytes p = di_body i) \<and>
    prepareDocumentContribution pl (i\<lparr>di_body := pc_canonicalBytes p\<rparr>) =
      Inr (p\<lparr>pc_offeredByteLength := dm_byteLength (pc_canonicalMetadata p),
        pc_offeredSha256 := dm_sha256 (pc_canonicalMetadata p)\<rparr>)"
proof -
  from assms(2) obtain media body h where ok: "contribution_ok pl i media body" and b: "document_body pl media (di_body i) = Inr body"
    and h: "canonicalSha256 pl (document_metadata_json (metadata_of i media body)) = Inr h"
    and p: "p = \<lparr>pc_canonicalMetadata = metadata_of i media body, pc_canonicalBytes = utf8_encode body, pc_canonicalText = body,
         pc_offeredByteLength = length (di_body i), pc_offeredSha256 = sha256Hex (Bytes (di_body i)), pc_requestSha256 = h\<rparr>"
    unfolding prepare_iff by blast
  have "document_body pl media (utf8_encode body) = Inr body"
  proof (cases "media = application_json")
    case True
    with b json_body_stable [OF assms(1)] show ?thesis by (simp add: document_body_def)
  next
    case False
    with b text_body_stable [of pl "di_body i" body] show ?thesis by (simp add: document_body_def)
  qed
  moreover have "contribution_ok pl (i\<lparr>di_body := utf8_encode body\<rparr>) media body" using ok by (simp add: contribution_ok_def)
  moreover have "metadata_of (i\<lparr>di_body := utf8_encode body\<rparr>) media body = metadata_of i media body" by (simp add: metadata_of_def)
  moreover have "utf8_encode body \<noteq> []" "length (utf8_encode body) \<le> MAX_DOCUMENT_BYTES" using ok by (auto simp: contribution_ok_def)
  ultimately have "prepareDocumentContribution pl (i\<lparr>di_body := utf8_encode body\<rparr>) =
      Inr \<lparr>pc_canonicalMetadata = metadata_of i media body, pc_canonicalBytes = utf8_encode body, pc_canonicalText = body,
         pc_offeredByteLength = length (utf8_encode body), pc_offeredSha256 = sha256Hex (Bytes (utf8_encode body)), pc_requestSha256 = h\<rparr>"
    unfolding prepare_iff using h by (intro exI [of _ media] exI [of _ body] exI [of _ h]) simp
  moreover have "media \<noteq> application_json \<longrightarrow> utf8_encode body = di_body i"
    using b text_body_stable [of pl "di_body i" body] by (auto simp: document_body_def)
  ultimately show ?thesis by (simp add: p metadata_of_def)
qed

section \<open>What a request hash identifies\<close>

lemma media_type_name_inj [json_inj]: "media_type_name a = media_type_name b \<longleftrightarrow> a = b"
  by (cases a; cases b) auto

lemma document_metadata_json_inj: "jval_of (document_metadata_json m) = jval_of (document_metadata_json n) \<longleftrightarrow> m = n"
proof
  assume "jval_of (document_metadata_json m) = jval_of (document_metadata_json n)"
  then show "m = n"
    unfolding document_metadata_json_def
    by (subst (asm) jval_obj_eq) (auto simp: json_inj nullable_jval_inj intro!: DocumentCanonicalMetadata.equality)
qed simp

lemma document_metadata_json_ok:
  "dm_byteLength m \<le> MAX_DOCUMENT_BYTES \<Longrightarrow> js_json (document_metadata_json m)" "index_free (document_metadata_json m)"
  by (cases "dm_documentSchema m"; simp add: document_metadata_json_def isSafeInteger_def MAX_SAFE_INTEGER_def MAX_DOCUMENT_BYTES_def)+

text \<open>Property C16: the request hash of a contribution identifies the document. Two accepted contributions with the same hash have the
  same organization, board, document, title, media type, format, length and digest, and the same canonical bytes, or the records
  or the contents that differ are a SHA-256 collision.\<close>

theorem document_hash_identifies:
  assumes "prepareDocumentContribution pl i = Inr p" and "prepareDocumentContribution pl j = Inr q"
    and "pc_requestSha256 p = pc_requestSha256 q"
  shows "pc_canonicalMetadata p = pc_canonicalMetadata q \<and>
      (pc_canonicalBytes p = pc_canonicalBytes q \<or> sha256_collision (pc_canonicalBytes p) (pc_canonicalBytes q)) \<or>
    sha256_collision (canonical_bytes (document_metadata_json (pc_canonicalMetadata p)))
      (canonical_bytes (document_metadata_json (pc_canonicalMetadata q)))"
proof -
  have f: "dm_byteLength (pc_canonicalMetadata r) \<le> MAX_DOCUMENT_BYTES \<and>
      canonicalSha256 pl (document_metadata_json (pc_canonicalMetadata r)) = Inr (pc_requestSha256 r) \<and>
      dm_sha256 (pc_canonicalMetadata r) = hex_of_bytes (sha256 (pc_canonicalBytes r))"
    if "prepareDocumentContribution pl k = Inr r" for k r
    using that by (auto simp: prepare_iff metadata_of_def contribution_ok_def sha256Hex_def sha256Bytes_def)
  note p = f [OF assms(1)] and q = f [OF assms(2)]
  have "canonicalSha256 pl (document_metadata_json (pc_canonicalMetadata q)) = Inr (pc_requestSha256 p)" using q assms(3) by simp
  from canonicalSha256_binding [OF document_metadata_json_ok(1) document_metadata_json_ok(1) document_metadata_json_ok(2)
      document_metadata_json_ok(2) _ this, of "pc_canonicalMetadata p"] p q
  have "pc_canonicalMetadata p = pc_canonicalMetadata q \<or>
    sha256_collision (canonical_bytes (document_metadata_json (pc_canonicalMetadata p)))
      (canonical_bytes (document_metadata_json (pc_canonicalMetadata q)))"
    by (simp add: document_metadata_json_inj)
  moreover have "pc_canonicalBytes p = pc_canonicalBytes q \<or> sha256_collision (pc_canonicalBytes p) (pc_canonicalBytes q)"
    if "pc_canonicalMetadata p = pc_canonicalMetadata q"
  proof -
    have "hex_of_bytes (sha256 (pc_canonicalBytes p)) = hex_of_bytes (sha256 (pc_canonicalBytes q))" using p q that by simp
    from hex_of_bytes_inj [OF this] show ?thesis by (auto simp: sha256_collision_def)
  qed
  ultimately show ?thesis by blast
qed

section \<open>An instance\<close>

definition wit_pack :: json where
  "wit_pack = JObj [(lit ''schemaVersion'', jstr ''boardagent.board-pack.v1''), (lit ''title'', jstr ''Pack''),
     (lit ''sections'', JArr [JObj [(lit ''heading'', jstr ''A''), (lit ''body'', jstr ''B'')]])]"

definition wit_document :: DocumentContributionInput where
  "wit_document = \<lparr>di_organizationId = wit_uuid, di_boardId = wit_uuid, di_documentId = wit_uuid', di_title = lit ''Pack'',
     di_mediaType = lit ''application/json'', di_documentSchema = Some (lit ''boardagent.board-pack.v1''),
     di_body = utf8_encode (stringify wit_pack)\<rparr>"

lemma wit_pack_facts: "js_json wit_pack" "index_free wit_pack" "json_depth wit_pack \<le> MAX_JSON_CONTAINER_DEPTH"
    "strings_ok nfc wit_pack" "BoardPackDocumentSchema (jsort wit_pack)"
proof -
  show "js_json wit_pack" "index_free wit_pack" "strings_ok nfc wit_pack" by (simp_all add: wit_pack_def)
  show "json_depth wit_pack \<le> MAX_JSON_CONTAINER_DEPTH" by (simp add: wit_pack_def MAX_JSON_CONTAINER_DEPTH_def)
  let ?sec = "JObj [(lit ''heading'', jstr ''A''), (lit ''body'', jstr ''B'')]"
  have "strict_object [''heading'', ''body''] (jsort ?sec) = Some [jstr ''A'', jstr ''B'']"
    using strict_object_zip [of "[''heading'', ''body'']" "[jstr ''A'', jstr ''B'']" jsort] by (simp add: lit_inj del: lit_simps)
  then have sec: "BoardPackSectionSchema (jsort ?sec)" by (simp add: BoardPackSectionSchema_def)
  have "strict_object [''schemaVersion'', ''title'', ''sections''] (jsort wit_pack) =
      Some [jstr ''boardagent.board-pack.v1'', jstr ''Pack'', JArr [jsort ?sec]]"
    using strict_object_zip [of "[''schemaVersion'', ''title'', ''sections'']"
        "[jstr ''boardagent.board-pack.v1'', jstr ''Pack'', JArr [?sec]]" jsort]
    by (simp add: lit_inj wit_pack_def del: lit_simps jsort.simps(2)) simp
  then show "BoardPackDocumentSchema (jsort wit_pack)" using sec by (simp add: BoardPackDocumentSchema_def)
qed

lemma wit_document_prepared:
  "\<exists>p. prepareDocumentContribution plain_platform wit_document = Inr p \<and> dm_mediaType (pc_canonicalMetadata p) = application_json"
proof -
  let ?s = "stringify (jsort wit_pack)" and ?d = "lit ''boardagent.board-pack.v1''"
  have wf: "wf_json nfc wit_pack" for nfc using wit_pack_facts by (simp add: wf_json_iff)
  have c: "canonicalJson plain_platform wit_pack = Inr ?s" using wit_pack_facts by (simp add: canonicalJson_iff)
  have body: "document_body plain_platform application_json (utf8_encode (stringify wit_pack)) = Inr ?s"
    using c stringify_no_bom [of wit_pack] text_structure_stringify [OF wit_pack_facts(3)] parse_stringify [OF wf]
    by (simp add: document_body_def canonicalJsonFromText_def utf8_decode_encode stringify_wf)
  have parse: "StrictJsonParser_parse nfc ?s = Inr (jsort wit_pack)" for nfc
    using wf [of nfc] by (intro parse_stringify) (simp add: wf_json_iff js_json_jsort strings_ok_jsort)
  have len: "utf8_encode ?s \<noteq> []" "length (utf8_encode ?s) \<le> 10485760" "length ?s \<le> 10485760"
    "utf8_encode (stringify wit_pack) \<noteq> []" "length (utf8_encode (stringify wit_pack)) \<le> 10485760"
  proof -
    have "json_bound wit_pack \<le> 1000" by (simp add: wit_pack_def)
    then have n: "length ?s \<le> 1000" "length (stringify wit_pack) \<le> 1000"
      using length_stringify [of "jsort wit_pack"] length_stringify [of wit_pack] by simp_all
    then show "length ?s \<le> 10485760" by simp
    show "utf8_encode ?s \<noteq> []" "utf8_encode (stringify wit_pack) \<noteq> []"
      unfolding wit_pack_def jsort.simps by (rule stringify_object_nonempty)+
    show "length (utf8_encode ?s) \<le> 10485760" "length (utf8_encode (stringify wit_pack)) \<le> 10485760"
      using length_utf8 [of ?s] length_utf8 [of "stringify wit_pack"] n by linarith+
  qed
  have t: "canonicalText plain_platform (Text (lit ''Pack'')) = Inr (lit ''Pack'')"
    by (simp add: canonicalText_def starts_with_def assertUnicodeScalar_def)
  have v: "document_schema_name ?d" "documentBodySchema plain_platform ?d = Some BoardPackDocumentSchema"
    by code_simp (simp add: documentBodySchema_def del: lit_simps)
  have m: "CanonicalMediaTypeSchema (lit ''application/json'') = Some application_json" by code_simp
  have ok: "contribution_ok plain_platform wit_document application_json ?s"
    using t v m len parse wit_pack_facts(5)
    by (simp add: contribution_ok_def wit_document_def validateSchema_def checkBody_def thrown_def CanonicalDocumentSchema_def
        MAX_DOCUMENT_BYTES_def sha256Hex_schema del: lit_simps)
  have "\<exists>h. canonicalSha256 plain_platform (document_metadata_json (metadata_of wit_document application_json ?s)) = Inr h"
    using scalar_digest [OF sha256Hex_schema]
    by (simp add: canonicalSha256_iff document_metadata_json_ok(2) document_metadata_json_def metadata_of_def wit_document_def
        MAX_JSON_CONTAINER_DEPTH_def)
  then show ?thesis
    using ok body len unfolding prepare_iff by (force simp: wit_document_def MAX_DOCUMENT_BYTES_def metadata_of_def)
qed

lemma plain_rfc8785: "rfc8785_encoder plain_platform"
  by (simp add: rfc8785_encoder_def plain_platform_def)

theorem document_content_is_fixed_point_witness:
  "\<exists>p. prepareDocumentContribution plain_platform wit_document = Inr p \<and>
     prepareDocumentContribution plain_platform (wit_document\<lparr>di_body := pc_canonicalBytes p\<rparr>) =
      Inr (p\<lparr>pc_offeredByteLength := dm_byteLength (pc_canonicalMetadata p),
        pc_offeredSha256 := dm_sha256 (pc_canonicalMetadata p)\<rparr>)"
  using wit_document_prepared document_content_is_fixed_point [OF plain_rfc8785] by blast

theorem document_hash_identifies_witness:
  "\<exists>p. prepareDocumentContribution plain_platform wit_document = Inr p \<and>
     (\<not> sha256_collision (canonical_bytes (document_metadata_json (pc_canonicalMetadata p)))
        (canonical_bytes (document_metadata_json (pc_canonicalMetadata p))))"
proof -
  obtain p where p: "prepareDocumentContribution plain_platform wit_document = Inr p" using wit_document_prepared by blast
  from document_hash_identifies [OF p p refl] p show ?thesis by (auto simp: sha256_collision_def)
qed

end
