(* ===== verification/Ballots.thy ===== *)
theory Ballots
  imports Vote_Store
begin

text \<open>
  The transactions of \<^verbatim>\<open>lib/db/src/transactions/ballots.ts\<close>: granting and revoking a proxy and casting a
  ballot. A function of the source that is one long sequence is split where it changes from checking its
  input to reading the store and from reading to writing: \<open>_request\<close>, \<open>_admit\<close> and \<open>_write\<close>.
\<close>

section \<open>Statements the transactions share\<close>

definition validateIdempotencyKey :: "jstring \<Rightarrow> jstring result" where
  "validateIdempotencyKey value =
     (if length value < 16 \<or> 256 < length value
        then throw (RangeError ''idempotency key must contain 16 through 256 characters'')
      else Inr value)"

definition uniqueGeneratedIds :: "jstring list \<Rightarrow> string \<Rightarrow> unit result" where
  "uniqueGeneratedIds values label =
     bindr (mapr parse_id values) (\<lambda>parsed.
       ensure (length (js_set parsed) = length parsed) (TypeError (label @ '' must be globally unique'')))"

record VoteRootRow = VoteRow +
  vt_deadlineOpen :: bool
  vt_actorReady :: bool

definition lockVoteRoot :: "TxEnv \<Rightarrow> VoteStore \<Rightarrow> jstring \<Rightarrow> jstring \<Rightarrow> VoteRootRow option" where
  "lockVoteRoot env st voteId requiredScope =
     (case map (\<lambda>v. VoteRow.extend v \<lparr>vt_deadlineOpen = tx_now env < vo_deadlineAt v,
            vt_actorReady = tx_actorReady env (vo_boardId v) requiredScope\<rparr>)
        (filter (\<lambda>v. vo_id v = voteId \<and> Some (vo_organizationId v) = map_option cx_organizationId (tx_context env) \<and>
            tx_boardAllowed env (vo_boardId v)) (st_votes st)) of
        [v] \<Rightarrow> Some v
      | _ \<Rightarrow> None)"

record ParticipantRow =
  pt_memberId :: jstring
  pt_votingWeight :: int
  pt_ready :: bool

definition lockParticipants ::
    "TxEnv \<Rightarrow> VoteStore \<Rightarrow> jstring \<Rightarrow> jstring \<Rightarrow> jstring \<Rightarrow> jstring list \<Rightarrow> ParticipantRow list" where
  "lockParticipants env st organizationId boardId voteId memberIds =
     concat (map (\<lambda>m.
       case tx_boardMember env organizationId boardId m of
         None \<Rightarrow> []
       | Some locked \<Rightarrow>
           map (\<lambda>e. \<lparr>pt_memberId = m, pt_votingWeight = el_votingWeight e,
               pt_ready = bm_activeNow locked \<and> bm_votingSeat locked \<and> 0 < bm_votingWeight locked\<rparr>)
             (filter (\<lambda>e. el_organizationId e = organizationId \<and> el_boardId e = boardId \<and>
                el_voteId e = voteId \<and> el_memberId e = m) (st_electorate st)))
       (sort (js_set memberIds)))"

text \<open>The current exclusion of a member: the row of the highest version.\<close>

definition later_exclusion :: "ExclusionRow \<Rightarrow> ExclusionRow option \<Rightarrow> ExclusionRow option" where
  "later_exclusion x current =
     (case current of
        None \<Rightarrow> Some x
      | Some y \<Rightarrow>
          if xr_version y < xr_version x \<or> xr_version y = xr_version x \<and> xr_id y < xr_id x then Some x
          else Some y)"

definition current_exclusion :: "VoteStore \<Rightarrow> jstring \<Rightarrow> jstring \<Rightarrow> ExclusionRow option" where
  "current_exclusion st voteId memberId =
     fold later_exclusion (filter (\<lambda>x. xr_voteId x = voteId \<and> xr_memberId x = memberId) (st_exclusions st)) None"

definition is_excluded :: "VoteStore \<Rightarrow> jstring \<Rightarrow> jstring \<Rightarrow> bool" where
  "is_excluded st voteId memberId \<longleftrightarrow> map_option xr_state (current_exclusion st voteId memberId) = Some excluded_state"

definition excludedMembers :: "VoteStore \<Rightarrow> jstring \<Rightarrow> jstring list \<Rightarrow> jstring list" where
  "excludedMembers st voteId memberIds = filter (is_excluded st voteId) (js_set memberIds)"

record ConsentQuery =
  cs_consentRecordId :: jstring
  cs_actionCode :: jstring
  cs_targetType :: jstring
  cs_targetId :: jstring
  cs_payloadSha256 :: jstring
  cs_packageSha256 :: jstring

definition consent_matches ::
    "ActiveRequestContext \<Rightarrow> ConsentQuery \<Rightarrow> ConsentRow \<Rightarrow> StageRow \<Rightarrow> AttemptRow \<Rightarrow> bool" where
  "consent_matches cx q c s a \<longleftrightarrow>
     sr_id s = cr_stageId c \<and> ar_id a = cr_attemptId c \<and>
     cr_id c = cs_consentRecordId q \<and> cr_organizationId c = cx_organizationId cx \<and>
     cr_actorMemberId c = cx_memberId cx \<and> cr_clientId c = cx_clientId cx \<and> cr_tokenJti c = cx_tokenJti cx \<and>
     cr_actionCode c = cs_actionCode q \<and> cr_targetType c = cs_targetType q \<and> cr_targetId c = Some (cs_targetId q) \<and>
     cr_payloadSha256 c = cs_payloadSha256 q \<and> cr_packageSha256 c = Some (cs_packageSha256 q) \<and>
     sr_organizationId s = cr_organizationId c \<and> sr_boardId s = cr_boardId c \<and> cr_boardId c \<noteq> None \<and>
     sr_actorMemberId s = cr_actorMemberId c \<and> sr_clientId s = cr_clientId c \<and> sr_tokenJti s = cr_tokenJti c \<and>
     sr_actionCode s = cr_actionCode c \<and> sr_targetType s = cr_targetType c \<and> sr_targetId s = cr_targetId c \<and>
     sr_payloadSha256 s = cr_payloadSha256 c \<and> sr_packageSha256 s = cr_packageSha256 c \<and>
     sr_state s = stage_confirmed \<and>
     ar_organizationId a = cr_organizationId c \<and> ar_stageId a = sr_id s \<and> ar_originalName a = cs_actionCode q \<and>
     ar_responseAction a = Some response_accept \<and> ar_state a = attempt_confirmed"

definition consentValid :: "ActiveRequestContext \<Rightarrow> VoteStore \<Rightarrow> ConsentQuery \<Rightarrow> bool" where
  "consentValid cx st q \<longleftrightarrow>
     list_ex (\<lambda>c. list_ex (\<lambda>s. list_ex (consent_matches cx q c s) (st_attempts st)) (st_stages st)) (st_consents st)"

definition readIdempotency :: "VoteStore \<Rightarrow> jstring \<Rightarrow> jstring \<Rightarrow> jstring \<Rightarrow> jstring \<Rightarrow> IdempotencyRow option" where
  "readIdempotency st actorMemberId clientId operation key =
     find (\<lambda>r. ir_actorMemberId r = actorMemberId \<and> ir_clientId r = clientId \<and> ir_operation r = operation \<and>
       ir_key r = key) (st_idempotency st)"

definition checkedReplay :: "IdempotencyRow option \<Rightarrow> jstring \<Rightarrow> (jstring \<times> jstring) option result" where
  "checkedReplay row requestSha256 =
     (case row of
        None \<Rightarrow> Inr None
      | Some r \<Rightarrow>
          if \<not> safeHashEqual (ir_requestSha256 r) requestSha256
            then throw (Coded ''idempotency_conflict'' ''idempotency key was already used for a different vote action'')
          else (case (ir_state r, ir_safeResponseId r, ir_safeResponseSha256 r) of
              (idem_succeeded, Some i, Some h) \<Rightarrow> Inr (Some (i, h))
            | _ \<Rightarrow> throw (Coded ''idempotency_in_progress'' ''identical vote action is already in progress'')))"

definition new_idempotency ::
    "jstring \<Rightarrow> ActiveRequestContext \<Rightarrow> jstring \<Rightarrow> jstring \<Rightarrow> jstring \<Rightarrow> IdempotencyRow" where
  "new_idempotency recordId cx operation key requestSha256 =
     \<lparr>ir_id = recordId, ir_actorMemberId = cx_memberId cx, ir_clientId = cx_clientId cx, ir_operation = operation,
      ir_key = key, ir_requestSha256 = requestSha256, ir_state = idem_in_progress, ir_safeResponseId = None,
      ir_safeResponseSha256 = None\<rparr>"

definition insertIdempotency :: "IdempotencyRow \<Rightarrow> VoteStore \<Rightarrow> VoteStore result" where
  "insertIdempotency input st =
     bindr (if list_ex (same_idempotency_key input) (st_idempotency st) then Inr (st_idempotency st)
            else insert_row (\<lambda>a b. ir_id a = ir_id b) input (st_idempotency st)) (\<lambda>rows.
     let inserted = length rows \<noteq> length (st_idempotency st); st' = st\<lparr>st_idempotency := rows\<rparr> in
     case readIdempotency st' (ir_actorMemberId input) (ir_clientId input) (ir_operation input) (ir_key input) of
       None \<Rightarrow> throw (Error ''vote-action idempotency record disappeared'')
     | Some row \<Rightarrow>
         bindr (if \<not> inserted then checkedReplay (Some row) (ir_requestSha256 input) else Inr None) (\<lambda>_.
         bindr (ensure (safeHashEqual (ir_requestSha256 row) (ir_requestSha256 input))
             (Coded ''idempotency_conflict'' ''vote-action idempotency record does not bind this request''))
           (\<lambda>_. Inr st')))"

text \<open>An update returns its rows and the number of rows it touched.\<close>

definition update_rows :: "('r \<Rightarrow> bool) \<Rightarrow> ('r \<Rightarrow> 'r) \<Rightarrow> 'r list \<Rightarrow> 'r list \<times> nat" where
  "update_rows p f rows = (map (\<lambda>r. if p r then f r else r) rows, length (filter p rows))"

definition finishIdempotency :: "jstring \<Rightarrow> jstring \<Rightarrow> jstring \<Rightarrow> VoteStore \<Rightarrow> VoteStore result" where
  "finishIdempotency recordId safeResponseId responseSha256 st =
     (let (rows, n) = update_rows (\<lambda>r. ir_id r = recordId \<and> ir_state r = idem_in_progress)
            (\<lambda>r. r\<lparr>ir_state := idem_succeeded, ir_safeResponseId := Some safeResponseId,
               ir_safeResponseSha256 := Some responseSha256\<rparr>) (st_idempotency st) in
      if n \<noteq> 1 then throw (Error ''vote-action idempotency completion failed'')
      else Inr (st\<lparr>st_idempotency := rows\<rparr>))"

definition advanceVoteVersion :: "jstring \<Rightarrow> int \<Rightarrow> VoteState list \<Rightarrow> VoteStore \<Rightarrow> (int \<times> VoteStore) result" where
  "advanceVoteVersion voteId rowVersion permittedStates st =
     (let (rows, n) = update_rows
            (\<lambda>v. vo_id v = voteId \<and> vo_rowVersion v = rowVersion \<and> vo_state v \<in> set permittedStates)
            (\<lambda>v. v\<lparr>vo_rowVersion := vo_rowVersion v + 1\<rparr>) (st_votes st) in
      if n \<noteq> 1 then throw (Coded ''ballot_unavailable'' ''vote changed during the confirmed action'')
      else Inr (rowVersion + 1, st\<lparr>st_votes := rows\<rparr>))"

definition grant_active :: "TxEnv \<Rightarrow> VoteStore \<Rightarrow> GrantRow \<Rightarrow> bool" where
  "grant_active env st g \<longleftrightarrow>
     \<not> list_ex (\<lambda>r. rv_grantId r = gr_id g) (st_revocations st) \<and>
     (case gr_expiresAt g of None \<Rightarrow> True | Some t \<Rightarrow> tx_now env < t)"

definition has_disposition :: "VoteStore \<Rightarrow> BallotRow \<Rightarrow> bool" where
  "has_disposition st b \<longleftrightarrow> list_ex (\<lambda>d. dr_priorBallotId d = br_id b) (st_dispositions st)"

definition effective_ballots :: "VoteStore \<Rightarrow> jstring \<Rightarrow> BallotRow list" where
  "effective_ballots st voteId = filter (\<lambda>b. br_voteId b = voteId \<and> \<not> has_disposition st b) (st_ballots st)"

abbreviation unavailable :: "string \<Rightarrow> string \<Rightarrow> js_error" where
  "unavailable code what \<equiv> Coded (code @ ''_unavailable'') (what @ '' is unavailable'')"


section \<open>Granting a proxy\<close>

record GrantProxyInput =
  gi_organizationId :: jstring
  gi_voteId :: jstring
  gi_holderMemberId :: jstring
  gi_packageSha256 :: jstring
  gi_policy :: PrincipalSupersessionRule
  gi_expiresAt :: "jstring option"
  gi_consentRecordId :: jstring
  gi_proxyGrantId :: jstring
  gi_idempotencyRecordId :: jstring
  gi_idempotencyKey :: jstring
  gi_auditEventId :: jstring

text \<open>What the checks of the input yield: the context and the digests of consent and request.\<close>

record VoteActionRequest =
  vq_context :: ActiveRequestContext
  vq_consentSha256 :: jstring
  vq_requestSha256 :: jstring

definition grant_request_json :: "GrantProxyInput \<Rightarrow> jstring \<Rightarrow> json" where
  "grant_request_json i principalMemberId = JObj
     [(lit ''schemaVersion'', jstr ''boardagent.proxy-grant-request.v1''),
      (lit ''organizationId'', JStr (gi_organizationId i)), (lit ''voteId'', JStr (gi_voteId i)),
      (lit ''principalMemberId'', JStr principalMemberId), (lit ''holderMemberId'', JStr (gi_holderMemberId i)),
      (lit ''policy'', JStr (supersession_name (gi_policy i))), (lit ''expiresAt'', nullable JStr (gi_expiresAt i)),
      (lit ''decisionPackageSha256'', JStr (gi_packageSha256 i)),
      (lit ''consentRecordId'', JStr (gi_consentRecordId i))]"

definition grant_request :: "platform \<Rightarrow> TxEnv \<Rightarrow> GrantProxyInput \<Rightarrow> VoteActionRequest result" where
  "grant_request pl env i =
     bindr (parse_id (gi_organizationId i)) (\<lambda>_.
     bindr (parse_id (gi_voteId i)) (\<lambda>_.
     bindr (parse_id (gi_holderMemberId i)) (\<lambda>_.
     bindr (parse_sha (gi_packageSha256 i)) (\<lambda>_.
     bindr (parse_nullable (zparse Rfc3339UtcSchema) (gi_expiresAt i)) (\<lambda>_.
     bindr (parse_id (gi_consentRecordId i)) (\<lambda>_.
     bindr (uniqueGeneratedIds [gi_proxyGrantId i, gi_idempotencyRecordId i, gi_auditEventId i]
         ''proxy-grant generated IDs'') (\<lambda>_.
     bindr (validateIdempotencyKey (gi_idempotencyKey i)) (\<lambda>_.
     bindr (readRequestContext env) (\<lambda>cx.
     if cx_organizationId cx \<noteq> gi_organizationId i then throw (unavailable ''proxy'' ''proxy grant'')
     else
     bindr (proxyGrantConsentHash pl \<lparr>pg_voteId = gi_voteId i, pg_principalMemberId = cx_memberId cx,
         pg_holderMemberId = gi_holderMemberId i, pg_policy = gi_policy i, pg_expiresAt = gi_expiresAt i,
         pg_packageSha256 = gi_packageSha256 i\<rparr>) (\<lambda>consentSha256.
     bindr (canonicalSha256 pl (grant_request_json i (cx_memberId cx))) (\<lambda>requestSha256.
     Inr \<lparr>vq_context = cx, vq_consentSha256 = consentSha256, vq_requestSha256 = requestSha256\<rparr>)))))))))))"

datatype 'a admission = Replayed jstring jstring | Admitted 'a

definition grant_admit ::
    "TxEnv \<Rightarrow> VoteStore \<Rightarrow> GrantProxyInput \<Rightarrow> VoteActionRequest \<Rightarrow> VoteRootRow admission result" where
  "grant_admit env st i q =
     (let cx = vq_context q; principal = cx_memberId cx; holder = gi_holderMemberId i;
          no = unavailable ''proxy'' ''proxy grant'' in
      case lockVoteRoot env st (gi_voteId i) (lit ''proxy:manage'') of
        None \<Rightarrow> throw no
      | Some vote \<Rightarrow>
      if vo_organizationId vote \<noteq> gi_organizationId i then throw no
      else
      bindr (checkedReplay (readIdempotency st (cx_memberId cx) (cx_clientId cx) (lit ''grant_proxy'')
          (gi_idempotencyKey i)) (vq_requestSha256 q)) (\<lambda>replay.
      case replay of Some (responseId, sha) \<Rightarrow> Inr (Replayed responseId sha)
      | None \<Rightarrow>
      if vo_state vote \<noteq> vote_open \<or> \<not> vt_deadlineOpen vote \<or> \<not> vt_actorReady vote \<or>
         vo_proxyPolicy vote \<noteq> Policy (gi_policy i) \<or> \<not> safeHashEqual (vo_packageSha256 vote) (gi_packageSha256 i)
        then throw no
      else
      let participants = lockParticipants env st (gi_organizationId i) (vo_boardId vote) (gi_voteId i) [principal, holder] in
      if length participants \<noteq> 2 \<or> list_ex (\<lambda>p. \<not> pt_ready p) participants then throw no
      else if 0 < length (excludedMembers st (gi_voteId i) [principal, holder]) then throw no
      else if \<not> consentValid cx st \<lparr>cs_consentRecordId = gi_consentRecordId i, cs_actionCode = lit ''grant_proxy'',
          cs_targetType = lit ''vote'', cs_targetId = gi_voteId i, cs_payloadSha256 = vq_consentSha256 q,
          cs_packageSha256 = gi_packageSha256 i\<rparr> then throw no
      else if \<not> (case gi_expiresAt i of None \<Rightarrow> True | Some t \<Rightarrow> tx_now env < tx_instant env t)
        then throw (Coded ''proxy_invalid'' ''proxy expiry must remain in the future'')
      else
      let relationships = filter (\<lambda>g. gr_voteId g = gi_voteId i) (st_grants st);
          active = filter (grant_active env st) relationships in
      if list_ex (\<lambda>g. gr_principalMemberId g = principal) relationships
        then throw (Coded ''proxy_invalid'' ''principal already has immutable proxy history for this vote'')
      else if list_ex (\<lambda>g. gr_principalMemberId g = holder) active \<or>
          list_ex (\<lambda>g. gr_holderMemberId g = principal) active
        then throw (Coded ''proxy_invalid'' ''proxy chain or cycle is forbidden'')
      else Inr (Admitted vote)))"

datatype GrantProxyResult =
    GrantReplayed jstring jstring
  | Granted jstring jstring "AuditEvent list"

definition new_grant :: "TxEnv \<Rightarrow> GrantProxyInput \<Rightarrow> ActiveRequestContext \<Rightarrow> VoteRootRow \<Rightarrow> GrantRow" where
  "new_grant env i cx vote = \<lparr>gr_id = gi_proxyGrantId i, gr_organizationId = gi_organizationId i,
     gr_boardId = vo_boardId vote, gr_voteId = gi_voteId i,
     gr_principalMemberId = cx_memberId cx, gr_holderMemberId = gi_holderMemberId i, gr_policy = gi_policy i,
     gr_consentRecordId = gi_consentRecordId i, gr_expiresAt = map_option (tx_instant env) (gi_expiresAt i)\<rparr>"

definition grant_event :: "GrantProxyInput \<Rightarrow> ActiveRequestContext \<Rightarrow> VoteRootRow \<Rightarrow> int \<Rightarrow> AuditAppendInput" where
  "grant_event i cx vote version =
     \<lparr>ai_organizationId = gi_organizationId i,
      ai_event = mcp_event (gi_auditEventId i) ''proxy_granted'' cx ''proxy_grant'' (gi_proxyGrantId i) (vo_boardId vote)
        [(lit ''voteId'', JStr (gi_voteId i)), (lit ''principalMemberId'', JStr (cx_memberId cx)),
         (lit ''holderMemberId'', JStr (gi_holderMemberId i)),
         (lit ''policy'', JStr (supersession_name (gi_policy i))),
         (lit ''expiresAt'', nullable JStr (gi_expiresAt i)),
         (lit ''decisionPackageId'', JStr (vo_packageId vote)),
         (lit ''packageSha256'', JStr (gi_packageSha256 i))],
      ai_actingForMemberId = None, ai_consentRecordId = Some (gi_consentRecordId i),
      ai_objectVersion = Some version\<rparr>"

definition grant_result_json ::
    "GrantProxyInput \<Rightarrow> ActiveRequestContext \<Rightarrow> int \<Rightarrow> json" where
  "grant_result_json i cx version = JObj
     [(lit ''schemaVersion'', jstr ''boardagent.proxy-grant-result.v1''), (lit ''voteId'', JStr (gi_voteId i)),
      (lit ''proxyGrantId'', JStr (gi_proxyGrantId i)), (lit ''principalMemberId'', JStr (cx_memberId cx)),
      (lit ''holderMemberId'', JStr (gi_holderMemberId i)),
      (lit ''policy'', JStr (supersession_name (gi_policy i))),
      (lit ''objectVersion'', JStr (dec_int version))]"

definition grant_write ::
    "platform \<Rightarrow> (jstring \<Rightarrow> jstring \<Rightarrow> int) \<Rightarrow> TxEnv \<Rightarrow> GrantProxyInput \<Rightarrow> VoteActionRequest \<Rightarrow> VoteRootRow \<Rightarrow>
     VoteStore \<Rightarrow> (GrantProxyResult \<times> VoteStore) result" where
  "grant_write pl lc env i q vote st =
     (let cx = vq_context q; principal = cx_memberId cx in
      bindr (insertIdempotency (new_idempotency (gi_idempotencyRecordId i) cx (lit ''grant_proxy'') (gi_idempotencyKey i) (vq_requestSha256 q)) st) (\<lambda>st.
      bindr (insert_row grant_clash (new_grant env i cx vote) (st_grants st)) (\<lambda>grants.
      bindr (advanceVoteVersion (gi_voteId i) (vo_rowVersion vote) [vote_open] (st\<lparr>st_grants := grants\<rparr>)) (\<lambda>(version, st).
      bindr (appendAuditEventsInTransaction pl lc env
          [grant_event i cx vote version] st) (\<lambda>(events, st).
      bindr (canonicalSha256 pl (grant_result_json i cx version)) (\<lambda>responseSha256.
      bindr (finishIdempotency (gi_idempotencyRecordId i) (gi_proxyGrantId i) responseSha256 st) (\<lambda>st.
      Inr (Granted (gi_proxyGrantId i) responseSha256 events, st))))))))"

definition grantProxyInTransaction ::
    "platform \<Rightarrow> (jstring \<Rightarrow> jstring \<Rightarrow> int) \<Rightarrow> TxEnv \<Rightarrow> GrantProxyInput \<Rightarrow> VoteStore \<Rightarrow>
     (GrantProxyResult \<times> VoteStore) result" where
  "grantProxyInTransaction pl lc env i st =
     bindr (grant_request pl env i) (\<lambda>q.
     bindr (grant_admit env st i q) (\<lambda>a.
     case a of
       Replayed responseId sha \<Rightarrow> Inr (GrantReplayed responseId sha, st)
     | Admitted vote \<Rightarrow> grant_write pl lc env i q vote st))"

section \<open>Revoking a proxy\<close>

record RevokeProxyInput =
  ri_organizationId :: jstring
  ri_voteId :: jstring
  ri_proxyGrantId :: jstring
  ri_packageSha256 :: jstring
  ri_reason :: jstring
  ri_consentRecordId :: jstring
  ri_proxyRevocationId :: jstring
  ri_idempotencyRecordId :: jstring
  ri_idempotencyKey :: jstring
  ri_auditEventId :: jstring

definition revoke_request_json :: "RevokeProxyInput \<Rightarrow> jstring \<Rightarrow> jstring \<Rightarrow> json" where
  "revoke_request_json i principalMemberId reason = JObj
     [(lit ''schemaVersion'', jstr ''boardagent.proxy-revoke-request.v1''),
      (lit ''organizationId'', JStr (ri_organizationId i)), (lit ''voteId'', JStr (ri_voteId i)),
      (lit ''proxyGrantId'', JStr (ri_proxyGrantId i)), (lit ''principalMemberId'', JStr principalMemberId),
      (lit ''reason'', JStr reason), (lit ''decisionPackageSha256'', JStr (ri_packageSha256 i)),
      (lit ''consentRecordId'', JStr (ri_consentRecordId i))]"

definition revoke_request :: "platform \<Rightarrow> TxEnv \<Rightarrow> RevokeProxyInput \<Rightarrow> (jstring \<times> VoteActionRequest) result" where
  "revoke_request pl env i =
     bindr (parse_id (ri_organizationId i)) (\<lambda>_.
     bindr (parse_id (ri_voteId i)) (\<lambda>_.
     bindr (parse_id (ri_proxyGrantId i)) (\<lambda>_.
     bindr (parse_sha (ri_packageSha256 i)) (\<lambda>_.
     bindr (canonical_string pl (ri_reason i)) (\<lambda>reason.
     if length reason < 1 \<or> 65536 < length reason
       then throw (RangeError ''proxy revocation reason must contain 1 through 65536 characters'')
     else
     bindr (parse_id (ri_consentRecordId i)) (\<lambda>_.
     bindr (uniqueGeneratedIds [ri_proxyRevocationId i, ri_idempotencyRecordId i, ri_auditEventId i]
         ''proxy-revoke generated IDs'') (\<lambda>_.
     bindr (validateIdempotencyKey (ri_idempotencyKey i)) (\<lambda>_.
     bindr (readRequestContext env) (\<lambda>cx.
     if cx_organizationId cx \<noteq> ri_organizationId i then throw (unavailable ''proxy'' ''proxy revocation'')
     else
     bindr (proxyRevokeConsentHash pl \<lparr>px_voteId = ri_voteId i, px_proxyGrantId = ri_proxyGrantId i,
         px_principalMemberId = cx_memberId cx, px_reason = reason, px_packageSha256 = ri_packageSha256 i\<rparr>)
       (\<lambda>consentSha256.
     bindr (canonicalSha256 pl (revoke_request_json i (cx_memberId cx) reason)) (\<lambda>requestSha256.
     Inr (reason, \<lparr>vq_context = cx, vq_consentSha256 = consentSha256, vq_requestSha256 = requestSha256\<rparr>))))))))))))"

definition revoke_admit ::
    "TxEnv \<Rightarrow> VoteStore \<Rightarrow> RevokeProxyInput \<Rightarrow> VoteActionRequest \<Rightarrow> VoteRootRow admission result" where
  "revoke_admit env st i q =
     (let cx = vq_context q; no = unavailable ''proxy'' ''proxy revocation'' in
      case lockVoteRoot env st (ri_voteId i) (lit ''proxy:manage'') of
        None \<Rightarrow> throw no
      | Some vote \<Rightarrow>
      if vo_organizationId vote \<noteq> ri_organizationId i then throw no
      else
      bindr (checkedReplay (readIdempotency st (cx_memberId cx) (cx_clientId cx) (lit ''revoke_proxy'')
          (ri_idempotencyKey i)) (vq_requestSha256 q)) (\<lambda>replay.
      case replay of Some (responseId, sha) \<Rightarrow> Inr (Replayed responseId sha)
      | None \<Rightarrow>
      if vo_state vote \<notin> {vote_open, vote_source_update_pending} \<or> \<not> vt_actorReady vote \<or>
         \<not> safeHashEqual (vo_packageSha256 vote) (ri_packageSha256 i)
        then throw no
      else
      case filter (\<lambda>g. gr_id g = ri_proxyGrantId i \<and> gr_voteId g = ri_voteId i \<and>
          gr_principalMemberId g = cx_memberId cx) (st_grants st) of
        [grant] \<Rightarrow>
          if \<not> grant_active env st grant
            then throw (Coded ''proxy_invalid'' ''active owned proxy grant is unavailable'')
          else if \<not> consentValid cx st \<lparr>cs_consentRecordId = ri_consentRecordId i, cs_actionCode = lit ''revoke_proxy'',
              cs_targetType = lit ''proxy_grant'', cs_targetId = ri_proxyGrantId i,
              cs_payloadSha256 = vq_consentSha256 q, cs_packageSha256 = ri_packageSha256 i\<rparr> then throw no
          else Inr (Admitted vote)
      | _ \<Rightarrow> throw (Coded ''proxy_invalid'' ''active owned proxy grant is unavailable'')))"

datatype RevokeProxyResult =
    RevokeReplayed jstring jstring
  | Revoked jstring jstring "AuditEvent list"

definition new_revocation :: "RevokeProxyInput \<Rightarrow> jstring \<Rightarrow> ActiveRequestContext \<Rightarrow> RevocationRow" where
  "new_revocation i reason cx = \<lparr>rv_id = ri_proxyRevocationId i, rv_grantId = ri_proxyGrantId i,
     rv_revokerMemberId = cx_memberId cx, rv_reason = reason, rv_consentRecordId = ri_consentRecordId i\<rparr>"

definition revoke_event ::
    "RevokeProxyInput \<Rightarrow> jstring \<Rightarrow> ActiveRequestContext \<Rightarrow> VoteRootRow \<Rightarrow> int \<Rightarrow> AuditAppendInput" where
  "revoke_event i reason cx vote version =
     \<lparr>ai_organizationId = ri_organizationId i,
      ai_event = mcp_event (ri_auditEventId i) ''proxy_revoked'' cx ''proxy_grant'' (ri_proxyGrantId i) (vo_boardId vote)
        [(lit ''voteId'', JStr (ri_voteId i)), (lit ''proxyGrantId'', JStr (ri_proxyGrantId i)),
         (lit ''proxyRevocationId'', JStr (ri_proxyRevocationId i)),
         (lit ''principalMemberId'', JStr (cx_memberId cx)), (lit ''effect'', jstr ''revoked''),
         (lit ''reasonSha256'', JStr (sha256Hex (Text reason))),
         (lit ''packageSha256'', JStr (ri_packageSha256 i))],
      ai_actingForMemberId = None, ai_consentRecordId = Some (ri_consentRecordId i),
      ai_objectVersion = Some version\<rparr>"

definition revoke_result_json ::
    "RevokeProxyInput \<Rightarrow> int \<Rightarrow> json" where
  "revoke_result_json i version = JObj
     [(lit ''schemaVersion'', jstr ''boardagent.proxy-revoke-result.v1''), (lit ''voteId'', JStr (ri_voteId i)),
      (lit ''proxyGrantId'', JStr (ri_proxyGrantId i)),
      (lit ''proxyRevocationId'', JStr (ri_proxyRevocationId i)), (lit ''effect'', jstr ''revoked''),
      (lit ''objectVersion'', JStr (dec_int version))]"

definition revoke_write ::
    "platform \<Rightarrow> (jstring \<Rightarrow> jstring \<Rightarrow> int) \<Rightarrow> TxEnv \<Rightarrow> RevokeProxyInput \<Rightarrow> jstring \<Rightarrow> VoteActionRequest \<Rightarrow>
     VoteRootRow \<Rightarrow> VoteStore \<Rightarrow> (RevokeProxyResult \<times> VoteStore) result" where
  "revoke_write pl lc env i reason q vote st =
     (let cx = vq_context q; principal = cx_memberId cx in
      bindr (insertIdempotency (new_idempotency (ri_idempotencyRecordId i) cx (lit ''revoke_proxy'') (ri_idempotencyKey i) (vq_requestSha256 q)) st) (\<lambda>st.
      bindr (insert_row revocation_clash (new_revocation i reason cx) (st_revocations st)) (\<lambda>revocations.
      bindr (advanceVoteVersion (ri_voteId i) (vo_rowVersion vote) [vote_open, vote_source_update_pending]
          (st\<lparr>st_revocations := revocations\<rparr>)) (\<lambda>(version, st).
      bindr (appendAuditEventsInTransaction pl lc env
          [revoke_event i reason cx vote version] st) (\<lambda>(events, st).
      bindr (canonicalSha256 pl (revoke_result_json i version)) (\<lambda>responseSha256.
      bindr (finishIdempotency (ri_idempotencyRecordId i) (ri_proxyRevocationId i) responseSha256 st) (\<lambda>st.
      Inr (Revoked (ri_proxyRevocationId i) responseSha256 events, st))))))))"

definition revokeProxyInTransaction ::
    "platform \<Rightarrow> (jstring \<Rightarrow> jstring \<Rightarrow> int) \<Rightarrow> TxEnv \<Rightarrow> RevokeProxyInput \<Rightarrow> VoteStore \<Rightarrow>
     (RevokeProxyResult \<times> VoteStore) result" where
  "revokeProxyInTransaction pl lc env i st =
     bindr (revoke_request pl env i) (\<lambda>(reason, q).
     bindr (revoke_admit env st i q) (\<lambda>a.
     case a of
       Replayed responseId sha \<Rightarrow> Inr (RevokeReplayed responseId sha, st)
     | Admitted vote \<Rightarrow> revoke_write pl lc env i reason q vote st))"

section \<open>Casting a ballot\<close>

record CastBallotInput =
  ci_organizationId :: jstring
  ci_voteId :: jstring
  ci_principalMemberId :: jstring
  ci_packageSha256 :: jstring
  ci_choice :: BallotChoice
  ci_statement :: "jstring option"
  ci_proxyGrantId :: "jstring option"
  ci_consentRecordId :: jstring
  ci_ballotId :: jstring
  ci_supersessionDispositionId :: jstring
  ci_supersessionAuditEventId :: jstring
  ci_idempotencyRecordId :: jstring
  ci_idempotencyKey :: jstring
  ci_auditEventId :: jstring

definition cast_request_json :: "CastBallotInput \<Rightarrow> jstring \<Rightarrow> jstring option \<Rightarrow> json" where
  "cast_request_json i casterMemberId statement = JObj
     [(lit ''schemaVersion'', jstr ''boardagent.ballot-request.v1''),
      (lit ''organizationId'', JStr (ci_organizationId i)), (lit ''voteId'', JStr (ci_voteId i)),
      (lit ''principalMemberId'', JStr (ci_principalMemberId i)), (lit ''casterMemberId'', JStr casterMemberId),
      (lit ''choice'', JStr (choice_name (ci_choice i))), (lit ''statement'', nullable JStr statement),
      (lit ''proxyGrantId'', nullable JStr (ci_proxyGrantId i)),
      (lit ''decisionPackageSha256'', JStr (ci_packageSha256 i)),
      (lit ''consentRecordId'', JStr (ci_consentRecordId i))]"

definition cast_request :: "platform \<Rightarrow> TxEnv \<Rightarrow> CastBallotInput \<Rightarrow> (jstring option \<times> VoteActionRequest) result" where
  "cast_request pl env i =
     bindr (parse_id (ci_organizationId i)) (\<lambda>_.
     bindr (parse_id (ci_voteId i)) (\<lambda>_.
     bindr (parse_id (ci_principalMemberId i)) (\<lambda>_.
     bindr (parse_sha (ci_packageSha256 i)) (\<lambda>_.
     bindr (parse_nullable (canonical_string pl) (ci_statement i)) (\<lambda>statement.
     if (case statement of None \<Rightarrow> False | Some t \<Rightarrow> 500 < length t)
       then throw (RangeError ''ballot statement must not exceed 500 characters'')
     else
     bindr (parse_nullable parse_id (ci_proxyGrantId i)) (\<lambda>_.
     bindr (parse_id (ci_consentRecordId i)) (\<lambda>_.
     bindr (uniqueGeneratedIds [ci_ballotId i, ci_supersessionDispositionId i, ci_supersessionAuditEventId i,
         ci_idempotencyRecordId i, ci_auditEventId i] ''ballot generated IDs'') (\<lambda>_.
     bindr (validateIdempotencyKey (ci_idempotencyKey i)) (\<lambda>_.
     bindr (readRequestContext env) (\<lambda>cx.
     if cx_organizationId cx \<noteq> ci_organizationId i then throw (unavailable ''ballot'' ''ballot'')
     else
     bindr (ballotConsentHash pl \<lparr>bi_voteId = ci_voteId i, bi_principalMemberId = ci_principalMemberId i,
         bi_casterMemberId = cx_memberId cx, bi_choice = ci_choice i, bi_statement = statement,
         bi_proxyGrantId = ci_proxyGrantId i, bi_packageSha256 = ci_packageSha256 i\<rparr>) (\<lambda>consentSha256.
     bindr (canonicalSha256 pl (cast_request_json i (cx_memberId cx) statement)) (\<lambda>requestSha256.
     Inr (statement, \<lparr>vq_context = cx, vq_consentSha256 = consentSha256, vq_requestSha256 = requestSha256\<rparr>)))))))))))))"

definition ballot_source_of :: "CastBallotInput \<Rightarrow> ActiveRequestContext \<Rightarrow> BallotSource" where
  "ballot_source_of i cx = (if cx_memberId cx = ci_principalMemberId i then own_ballot else proxy_ballot)"

record CastAdmission =
  cm_vote :: VoteRootRow
  cm_participants :: "ParticipantRow list"
  cm_superseded :: "BallotRow option"

definition proxy_allowed :: "TxEnv \<Rightarrow> VoteStore \<Rightarrow> CastBallotInput \<Rightarrow> ActiveRequestContext \<Rightarrow> VoteRootRow \<Rightarrow> unit result" where
  "proxy_allowed env st i cx vote =
     (if ballot_source_of i cx = own_ballot
        then ensure (ci_proxyGrantId i = None) (Coded ''ballot_invalid'' ''own ballot cannot cite a proxy grant'')
      else case ci_proxyGrantId i of
          None \<Rightarrow> throw (Coded ''ballot_invalid'' ''proxy ballot requires a grant'')
        | Some grantId \<Rightarrow>
            (case filter (\<lambda>g. gr_id g = grantId \<and> gr_voteId g = ci_voteId i \<and>
                gr_principalMemberId g = ci_principalMemberId i \<and> gr_holderMemberId g = cx_memberId cx) (st_grants st) of
               [grant] \<Rightarrow>
                 ensure (grant_active env st grant \<and> vo_proxyPolicy vote = Policy (gr_policy grant))
                   (unavailable ''ballot'' ''ballot'')
             | _ \<Rightarrow> throw (unavailable ''ballot'' ''ballot'')))"

definition cast_admit ::
    "TxEnv \<Rightarrow> VoteStore \<Rightarrow> CastBallotInput \<Rightarrow> VoteActionRequest \<Rightarrow> CastAdmission admission result" where
  "cast_admit env st i q =
     (let cx = vq_context q; principal = ci_principalMemberId i; caster = cx_memberId cx;
          no = unavailable ''ballot'' ''ballot'' in
      case lockVoteRoot env st (ci_voteId i) (lit ''vote:act'') of
        None \<Rightarrow> throw no
      | Some vote \<Rightarrow>
      if vo_organizationId vote \<noteq> ci_organizationId i then throw no
      else
      bindr (checkedReplay (readIdempotency st (cx_memberId cx) (cx_clientId cx) (lit ''cast_ballot'')
          (ci_idempotencyKey i)) (vq_requestSha256 q)) (\<lambda>replay.
      case replay of Some (responseId, sha) \<Rightarrow> Inr (Replayed responseId sha)
      | None \<Rightarrow>
      if vo_state vote \<noteq> vote_open \<or> \<not> vt_deadlineOpen vote \<or> \<not> vt_actorReady vote \<or>
         \<not> safeHashEqual (vo_packageSha256 vote) (ci_packageSha256 i)
        then throw no
      else
      let participants = lockParticipants env st (ci_organizationId i) (vo_boardId vote) (ci_voteId i) [principal, caster] in
      if length participants \<noteq> length (js_set [principal, caster]) \<or> list_ex (\<lambda>p. \<not> pt_ready p) participants
        then throw no
      else if 0 < length (excludedMembers st (ci_voteId i) [principal, caster]) then throw no
      else
      bindr (proxy_allowed env st i cx vote) (\<lambda>_.
      let active = sort_key br_id (filter (\<lambda>b. br_principalMemberId b = principal) (effective_ballots st (ci_voteId i))) in
      if 1 < length active then throw (Error ''multiple effective ballots violate invariants'')
      else
      let activeBallot = (case active of [] \<Rightarrow> None | b # _ \<Rightarrow> Some b);
          supersedes = (case activeBallot of
              None \<Rightarrow> False
            | Some b \<Rightarrow> ballot_source_of i cx = own_ballot \<and> br_source b = proxy_ballot \<and>
                vo_proxyPolicy vote = Policy principal_supersedes_proxy) in
      if activeBallot \<noteq> None \<and> \<not> supersedes
        then throw (Coded ''ballot_invalid'' ''principal already has an effective ballot under the frozen precedence rule'')
      else if \<not> consentValid cx st \<lparr>cs_consentRecordId = ci_consentRecordId i, cs_actionCode = lit ''stage_ballot'',
          cs_targetType = lit ''vote'', cs_targetId = ci_voteId i, cs_payloadSha256 = vq_consentSha256 q,
          cs_packageSha256 = ci_packageSha256 i\<rparr> then throw no
      else Inr (Admitted \<lparr>cm_vote = vote, cm_participants = participants, cm_superseded = activeBallot\<rparr>))))"

definition resolve_feed :: "TxEnv \<Rightarrow> jstring \<Rightarrow> jstring \<Rightarrow> jstring \<Rightarrow> FeedRow list \<Rightarrow> FeedRow list" where
  "resolve_feed env boardId memberId voteId rows =
     fst (update_rows (\<lambda>r. fr_boardId r = boardId \<and> fr_memberId r = memberId \<and> fr_objectType r = lit ''vote'' \<and>
         fr_objectId r = voteId \<and> fr_state r = feed_pending \<and>
         fr_actionType r \<in> {lit ''vote_opened'', lit ''revote_required'', lit ''recusal_changed''})
       (\<lambda>r. r\<lparr>fr_state := feed_resolved, fr_resolvedAt := Some (tx_now env)\<rparr>) rows)"

datatype CastBallotResult =
    CastReplayed jstring jstring
  | BallotCast jstring "jstring option" jstring "AuditEvent list"

definition supersession_event ::
    "CastBallotInput \<Rightarrow> ActiveRequestContext \<Rightarrow> VoteRootRow \<Rightarrow> int \<Rightarrow> BallotRow \<Rightarrow> AuditAppendInput" where
  "supersession_event i cx vote version b =
     \<lparr>ai_organizationId = ci_organizationId i,
      ai_event = mcp_event (ci_supersessionAuditEventId i) ''ballot_superseded'' cx ''ballot'' (br_id b) (vo_boardId vote)
        [(lit ''voteId'', JStr (ci_voteId i)), (lit ''priorBallotId'', JStr (br_id b)),
         (lit ''supersedingBallotId'', JStr (ci_ballotId i)),
         (lit ''reasonClass'', jstr ''principal_direct_precedence'')],
      ai_actingForMemberId = None, ai_consentRecordId = Some (ci_consentRecordId i), ai_objectVersion = Some version\<rparr>"

definition cast_event ::
    "CastBallotInput \<Rightarrow> ActiveRequestContext \<Rightarrow> VoteRootRow \<Rightarrow> int \<Rightarrow> jstring option \<Rightarrow> int \<Rightarrow> AuditAppendInput" where
  "cast_event i cx vote version statementSha256 weight =
     \<lparr>ai_organizationId = ci_organizationId i,
      ai_event = mcp_event (ci_auditEventId i) ''ballot_cast'' cx ''ballot'' (ci_ballotId i) (vo_boardId vote)
        [(lit ''voteId'', JStr (ci_voteId i)), (lit ''decisionPackageId'', JStr (vo_packageId vote)),
         (lit ''packageSha256'', JStr (ci_packageSha256 i)),
         (lit ''principalMemberId'', JStr (ci_principalMemberId i)), (lit ''casterMemberId'', JStr (cx_memberId cx)),
         (lit ''choice'', JStr (choice_name (ci_choice i))), (lit ''statementSha256'', nullable JStr statementSha256),
         (lit ''votingWeight'', JNum weight),
         (lit ''source'', jstr (if ballot_source_of i cx = own_ballot then ''own'' else ''proxy'')),
         (lit ''proxyGrantId'', nullable JStr (ci_proxyGrantId i))],
      ai_actingForMemberId = (if ballot_source_of i cx = proxy_ballot then Some (ci_principalMemberId i) else None),
      ai_consentRecordId = Some (ci_consentRecordId i), ai_objectVersion = Some version\<rparr>"

definition new_ballot ::
    "CastBallotInput \<Rightarrow> jstring option \<Rightarrow> ActiveRequestContext \<Rightarrow> VoteRootRow \<Rightarrow> ParticipantRow \<Rightarrow> BallotRow" where
  "new_ballot i statement cx vote principalRow =
     \<lparr>br_id = ci_ballotId i, br_organizationId = ci_organizationId i, br_boardId = vo_boardId vote, br_voteId = ci_voteId i, br_packageId = vo_packageId vote,
      br_principalMemberId = ci_principalMemberId i, br_casterMemberId = cx_memberId cx,
      br_choice = ci_choice i, br_statement = statement,
      br_statementSha256 = map_option (\<lambda>t. sha256Hex (Text t)) statement,
      br_votingWeight = pt_votingWeight principalRow, br_source = ballot_source_of i cx,
      br_proxyGrantId = ci_proxyGrantId i, br_consentRecordId = ci_consentRecordId i\<rparr>"

definition supersession :: "CastBallotInput \<Rightarrow> BallotRow \<Rightarrow> DispositionRow" where
  "supersession i b =
     \<lparr>dr_id = ci_supersessionDispositionId i, dr_priorBallotId = br_id b,
      dr_supersedingBallotId = Some (ci_ballotId i),
      dr_reason = lit ''principal direct ballot superseded the active proxy ballot'', dr_effect = superseded,
      dr_auditEventId = ci_supersessionAuditEventId i\<rparr>"

definition cast_result_json ::
    "CastBallotInput \<Rightarrow> ActiveRequestContext \<Rightarrow> jstring option \<Rightarrow> jstring option \<Rightarrow> int \<Rightarrow> json" where
  "cast_result_json i cx statementSha256 supersededId version = JObj
     [(lit ''schemaVersion'', jstr ''boardagent.ballot-result.v1''), (lit ''voteId'', JStr (ci_voteId i)),
      (lit ''ballotId'', JStr (ci_ballotId i)), (lit ''principalMemberId'', JStr (ci_principalMemberId i)),
      (lit ''casterMemberId'', JStr (cx_memberId cx)), (lit ''choice'', JStr (choice_name (ci_choice i))),
      (lit ''statementSha256'', nullable JStr statementSha256),
      (lit ''source'', jstr (if ballot_source_of i cx = own_ballot then ''own'' else ''proxy'')),
      (lit ''proxyGrantId'', nullable JStr (ci_proxyGrantId i)),
      (lit ''supersededBallotId'', nullable JStr supersededId),
      (lit ''objectVersion'', JStr (dec_int version))]"

definition cast_write ::
    "platform \<Rightarrow> (jstring \<Rightarrow> jstring \<Rightarrow> int) \<Rightarrow> TxEnv \<Rightarrow> CastBallotInput \<Rightarrow> jstring option \<Rightarrow> VoteActionRequest \<Rightarrow>
     CastAdmission \<Rightarrow> VoteStore \<Rightarrow> (CastBallotResult \<times> VoteStore) result" where
  "cast_write pl lc env i statement q a st =
     (let cx = vq_context q; vote = cm_vote a in
      bindr (insertIdempotency (new_idempotency (ci_idempotencyRecordId i) cx (lit ''cast_ballot'') (ci_idempotencyKey i) (vq_requestSha256 q)) st) (\<lambda>st.
      case find (\<lambda>p. pt_memberId p = ci_principalMemberId i) (cm_participants a) of
        None \<Rightarrow> throw (Error ''locked ballot principal disappeared'')
      | Some principalRow \<Rightarrow>
      let statementSha256 = map_option (\<lambda>t. sha256Hex (Text t)) statement in
      bindr (insert_row ballot_clash (new_ballot i statement cx vote principalRow) (st_ballots st)) (\<lambda>ballots.
      bindr (case cm_superseded a of
          None \<Rightarrow> Inr (st_dispositions st)
        | Some b \<Rightarrow> insert_row disposition_clash (supersession i b) (st_dispositions st)) (\<lambda>dispositions.
      let st = st\<lparr>st_ballots := ballots, st_dispositions := dispositions,
            st_feed := resolve_feed env (vo_boardId vote) (ci_principalMemberId i) (ci_voteId i) (st_feed st)\<rparr> in
      bindr (advanceVoteVersion (ci_voteId i) (vo_rowVersion vote) [vote_open] st) (\<lambda>(version, st).
      bindr (appendAuditEventsInTransaction pl lc env
          ((case cm_superseded a of None \<Rightarrow> [] | Some b \<Rightarrow> [supersession_event i cx vote version b]) @
           [cast_event i cx vote version statementSha256 (pt_votingWeight principalRow)]) st) (\<lambda>(events, st).
      bindr (canonicalSha256 pl (cast_result_json i cx statementSha256 (map_option br_id (cm_superseded a)) version)) (\<lambda>responseSha256.
      bindr (finishIdempotency (ci_idempotencyRecordId i) (ci_ballotId i) responseSha256 st) (\<lambda>st.
      Inr (BallotCast (ci_ballotId i) (map_option br_id (cm_superseded a)) responseSha256 events, st)))))))))"

definition castBallotInTransaction ::
    "platform \<Rightarrow> (jstring \<Rightarrow> jstring \<Rightarrow> int) \<Rightarrow> TxEnv \<Rightarrow> CastBallotInput \<Rightarrow> VoteStore \<Rightarrow>
     (CastBallotResult \<times> VoteStore) result" where
  "castBallotInTransaction pl lc env i st =
     bindr (cast_request pl env i) (\<lambda>(statement, q).
     bindr (cast_admit env st i q) (\<lambda>a.
     case a of
       Replayed responseId sha \<Rightarrow> Inr (CastReplayed responseId sha, st)
     | Admitted ad \<Rightarrow> cast_write pl lc env i statement q ad st))"

section \<open>What the statements do\<close>

lemma root_row_simps [simp]:
  "vo_id (VoteRow.extend v m) = vo_id v" "vo_organizationId (VoteRow.extend v m) = vo_organizationId v"
  "vo_boardId (VoteRow.extend v m) = vo_boardId v" "vo_state (VoteRow.extend v m) = vo_state v"
  "vo_rowVersion (VoteRow.extend v m) = vo_rowVersion v" "vo_packageId (VoteRow.extend v m) = vo_packageId v"
  "vo_packageSha256 (VoteRow.extend v m) = vo_packageSha256 v"
  "vo_proxyPolicy (VoteRow.extend v m) = vo_proxyPolicy v" "vo_deadlineAt (VoteRow.extend v m) = vo_deadlineAt v"
  by (simp_all add: VoteRow.defs)

lemma root_extension_simps [simp]:
  "vt_deadlineOpen (VoteRow.extend v \<lparr>vt_deadlineOpen = d, vt_actorReady = r\<rparr>) = d"
  "vt_actorReady (VoteRow.extend v \<lparr>vt_deadlineOpen = d, vt_actorReady = r\<rparr>) = r"
  by (simp_all add: VoteRow.defs)

lemma lockVoteRoot_Some:
  assumes "lockVoteRoot env st voteId scope = Some r"
  obtains v where "v \<in> set (st_votes st)" and "vo_id v = voteId"
    and "r = VoteRow.extend v \<lparr>vt_deadlineOpen = tx_now env < vo_deadlineAt v,
            vt_actorReady = tx_actorReady env (vo_boardId v) scope\<rparr>"
    and "Some (vo_organizationId v) = map_option cx_organizationId (tx_context env)" and "tx_boardAllowed env (vo_boardId v)"
proof -
  let ?p = "\<lambda>v. vo_id v = voteId \<and> Some (vo_organizationId v) = map_option cx_organizationId (tx_context env) \<and>
      tx_boardAllowed env (vo_boardId v)"
  from assms obtain v where v: "filter ?p (st_votes st) = [v]"
    and r: "r = VoteRow.extend v \<lparr>vt_deadlineOpen = tx_now env < vo_deadlineAt v,
            vt_actorReady = tx_actorReady env (vo_boardId v) scope\<rparr>"
    by (auto simp: lockVoteRoot_def split: list.splits)
  have "v \<in> set (filter ?p (st_votes st))" unfolding v by simp
  then show thesis using r by (intro that [of v]) auto
qed

lemma insertIdempotency_ok:
  "insertIdempotency input st = Inr st' \<Longrightarrow> \<exists>rows. st' = st\<lparr>st_idempotency := rows\<rparr>"
  by (auto simp: insertIdempotency_def bindr_eq_Inr_iff Let_def intro: exI [of _ "st_idempotency st'"]
      split: if_splits option.splits)

lemma finishIdempotency_ok:
  "finishIdempotency i r h st = Inr st' \<Longrightarrow> \<exists>rows. st' = st\<lparr>st_idempotency := rows\<rparr>"
  by (auto simp: finishIdempotency_def Let_def split: if_splits prod.splits)

text \<open>Advancing the version of a vote changes nothing else of the votes.\<close>

definition versions_only :: "VoteRow list \<Rightarrow> VoteRow list \<Rightarrow> bool" where
  "versions_only votes votes' \<longleftrightarrow>
     map (\<lambda>v. v\<lparr>vo_rowVersion := 0\<rparr>) votes' = map (\<lambda>v. v\<lparr>vo_rowVersion := 0\<rparr>) votes"

lemma versions_only_refl [simp]: "versions_only votes votes"
  by (simp add: versions_only_def)

lemma advanceVoteVersion_ok:
  "advanceVoteVersion voteId n permitted st = Inr (m, st') \<Longrightarrow>
     \<exists>votes. st' = st\<lparr>st_votes := votes\<rparr> \<and> versions_only (st_votes st) votes"
  by (auto simp: advanceVoteVersion_def update_rows_def versions_only_def Let_def comp_def split: if_splits)

lemma appendAudit_frame:
  "appendAuditEventsInTransaction pl lc env inputs st = Inr (events, st') \<Longrightarrow> \<exists>rows. st' = st\<lparr>st_audit := rows\<rparr>"
  by (auto dest!: appendAuditEvents_ok)

text \<open>The shape every one of these transactions has: the idempotency record, the rows of the action, the new
  version of the vote, the audit events and the completed idempotency record.\<close>

definition audit_kept :: "platform \<Rightarrow> (jstring \<Rightarrow> jstring \<Rightarrow> int) \<Rightarrow> VoteStore \<Rightarrow> VoteStore \<Rightarrow> bool" where
  "audit_kept pl lc st st' \<longleftrightarrow>
     (valid_log pl lc (audit_log st) \<longrightarrow> valid_log pl lc (audit_log st')) \<and>
     (\<exists>events. audit_log st' = audit_log st @ events)"

lemma appendAudit_kept:
  "appendAuditEventsInTransaction pl lc env inputs st = Inr (events, st') \<Longrightarrow> audit_kept pl lc st st'"
  unfolding audit_kept_def by (blast intro: appendAuditEvents_chain appendAuditEvents_log)

lemma audit_kept_same: "audit_log st' = audit_log st \<Longrightarrow> audit_kept pl lc st st'"
  by (simp add: audit_kept_def)

lemma write_frame:
  assumes "insertIdempotency input st = Inr s1" and "advanceVoteVersion voteId n permitted sa = Inr (m, s2)"
    and "appendAuditEventsInTransaction pl lc env inputs s2 = Inr (events, s3)"
    and "finishIdempotency recordId responseId h s3 = Inr st'"
  shows "\<exists>rows votes audit rows'. s1 = st\<lparr>st_idempotency := rows\<rparr> \<and>
    st' = sa\<lparr>st_votes := votes, st_audit := audit, st_idempotency := rows'\<rparr> \<and> versions_only (st_votes sa) votes \<and>
    audit_kept pl lc sa st'"
proof -
  obtain votes where v: "s2 = sa\<lparr>st_votes := votes\<rparr>" "versions_only (st_votes sa) votes"
    using advanceVoteVersion_ok [OF assms(2)] by blast
  obtain rows where r: "st' = s3\<lparr>st_idempotency := rows\<rparr>" using finishIdempotency_ok [OF assms(4)] by blast
  have "audit_log s2 = audit_log sa" "audit_log st' = audit_log s3" by (simp_all add: audit_log_def v(1) r)
  with appendAudit_kept [OF assms(3)] have "audit_kept pl lc sa st'" by (simp add: audit_kept_def)
  with insertIdempotency_ok [OF assms(1)] v r appendAudit_frame [OF assms(3)] show ?thesis by auto
qed

text \<open>Two stores that agree in all that the ballots of a vote depend on.\<close>

definition same_basis :: "VoteStore \<Rightarrow> VoteStore \<Rightarrow> bool" where
  "same_basis st st' \<longleftrightarrow>
     versions_only (st_votes st) (st_votes st') \<and> st_electorate st' = st_electorate st \<and>
     st_consents st' = st_consents st \<and> st_attempts st' = st_attempts st"

definition same_stages :: "VoteStore \<Rightarrow> VoteStore \<Rightarrow> bool" where
  "same_stages st st' \<longleftrightarrow> st_stages st' = st_stages st \<and> st_exclusions st' = st_exclusions st"

lemma grant_write_ok:
  assumes "grant_write pl lc env i q vote st = Inr (r, st')"
  shows "same_basis st st' \<and> same_stages st st' \<and> audit_kept pl lc st st' \<and> st_revocations st' = st_revocations st \<and>
    st_ballots st' = st_ballots st \<and> st_dispositions st' = st_dispositions st \<and>
    list_all (\<lambda>x. \<not> grant_clash (new_grant env i (vq_context q) vote) x) (st_grants st) \<and>
    st_grants st' = st_grants st @ [new_grant env i (vq_context q) vote]"
proof -
  let ?g = "new_grant env i (vq_context q) vote"
  obtain s1 s2 s3 n inputs h ev where
    1: "insertIdempotency (new_idempotency (gi_idempotencyRecordId i) (vq_context q) (lit ''grant_proxy'')
      (gi_idempotencyKey i) (vq_requestSha256 q)) st = Inr s1"
    and g: "list_all (\<lambda>x. \<not> grant_clash ?g x) (st_grants s1)"
    and 2: "advanceVoteVersion (gi_voteId i) (vo_rowVersion vote) [vote_open] (s1\<lparr>st_grants := st_grants s1 @ [?g]\<rparr>) = Inr (n, s2)"
    and 3: "appendAuditEventsInTransaction pl lc env inputs s2 = Inr (ev, s3)"
    and 4: "finishIdempotency (gi_idempotencyRecordId i) (gi_proxyGrantId i) h s3 = Inr st'"
    using assms by (auto simp: grant_write_def Let_def bindr_eq_Inr_iff insert_row_Inr simp del: lit_simps)
  from write_frame [OF 1 2 3 4] g show ?thesis
    by (elim exE conjE) (simp add: same_basis_def same_stages_def audit_kept_def audit_log_def)
qed

lemma revoke_write_ok:
  assumes "revoke_write pl lc env i reason q vote st = Inr (r, st')"
  shows "same_basis st st' \<and> same_stages st st' \<and> audit_kept pl lc st st' \<and> st_grants st' = st_grants st \<and>
    st_ballots st' = st_ballots st \<and> st_dispositions st' = st_dispositions st \<and>
    st_revocations st' = st_revocations st @ [new_revocation i reason (vq_context q)]"
proof -
  let ?r = "new_revocation i reason (vq_context q)"
  obtain s1 s2 s3 n inputs h ev where
    1: "insertIdempotency (new_idempotency (ri_idempotencyRecordId i) (vq_context q) (lit ''revoke_proxy'')
      (ri_idempotencyKey i) (vq_requestSha256 q)) st = Inr s1"
    and 2: "advanceVoteVersion (ri_voteId i) (vo_rowVersion vote) [vote_open, vote_source_update_pending]
      (s1\<lparr>st_revocations := st_revocations s1 @ [?r]\<rparr>) = Inr (n, s2)"
    and 3: "appendAuditEventsInTransaction pl lc env inputs s2 = Inr (ev, s3)"
    and 4: "finishIdempotency (ri_idempotencyRecordId i) (ri_proxyRevocationId i) h s3 = Inr st'"
    using assms by (auto simp: revoke_write_def Let_def bindr_eq_Inr_iff insert_row_Inr simp del: lit_simps)
  from write_frame [OF 1 2 3 4] show ?thesis
    by (elim exE conjE) (simp add: same_basis_def same_stages_def audit_kept_def audit_log_def)
qed

lemma cast_write_ok:
  assumes "cast_write pl lc env i statement q a st = Inr (r, st')"
  obtains p where "p \<in> set (cm_participants a)" and "pt_memberId p = ci_principalMemberId i"
    and "same_basis st st'" and "same_stages st st'" and "audit_kept pl lc st st'" and "st_grants st' = st_grants st"
    and "st_revocations st' = st_revocations st"
    and "list_all (\<lambda>x. \<not> ballot_clash (new_ballot i statement (vq_context q) (cm_vote a) p) x) (st_ballots st)"
    and "st_ballots st' = st_ballots st @ [new_ballot i statement (vq_context q) (cm_vote a) p]"
    and "st_dispositions st' = st_dispositions st @
      (case cm_superseded a of None \<Rightarrow> [] | Some b \<Rightarrow> [supersession i b])"
proof -
  let ?d = "case cm_superseded a of None \<Rightarrow> [] | Some b \<Rightarrow> [supersession i b]"
  let ?b = "new_ballot i statement (vq_context q) (cm_vote a)"
  let ?f = "\<lambda>p s. s\<lparr>st_ballots := st_ballots s @ [?b p], st_dispositions := st_dispositions s @ ?d,
     st_feed := resolve_feed env (vo_boardId (cm_vote a)) (ci_principalMemberId i) (ci_voteId i) (st_feed s)\<rparr>"
  obtain p s1 s2 s3 n inputs h ev where
    p: "find (\<lambda>p. pt_memberId p = ci_principalMemberId i) (cm_participants a) = Some p" and
    1: "insertIdempotency (new_idempotency (ci_idempotencyRecordId i) (vq_context q) (lit ''cast_ballot'')
      (ci_idempotencyKey i) (vq_requestSha256 q)) st = Inr s1"
    and g: "list_all (\<lambda>x. \<not> ballot_clash (?b p) x) (st_ballots s1)"
    and 2: "advanceVoteVersion (ci_voteId i) (vo_rowVersion (cm_vote a)) [vote_open] (?f p s1) = Inr (n, s2)"
    and 3: "appendAuditEventsInTransaction pl lc env inputs s2 = Inr (ev, s3)"
    and 4: "finishIdempotency (ci_idempotencyRecordId i) (ci_ballotId i) h s3 = Inr st'"
    using assms
    by (cases "cm_superseded a")
      (auto simp: cast_write_def Let_def bindr_eq_Inr_iff insert_row_Inr simp del: lit_simps split: option.splits)
  from p have "p \<in> set (cm_participants a)" "pt_memberId p = ci_principalMemberId i" by (auto simp: find_Some_iff)
  then show thesis
    using write_frame [OF 1 2 3 4] g by (elim exE conjE) (rule that [of p], simp_all add: same_basis_def same_stages_def audit_kept_def audit_log_def)
qed

end
