(* ===== verification/Ballot_Invariant.thy ===== *)
theory Ballot_Invariant
  imports Ballots
begin

text \<open>
  What the transactions of a vote keep true of the store: which ballots can be effective, what each of
  them rests on, and that granting, revoking and casting preserve it.
\<close>

section \<open>What admission guarantees\<close>

abbreviation electorate_keys :: "VoteStore \<Rightarrow> (jstring \<times> jstring) list" where
  "electorate_keys st \<equiv> map (\<lambda>e. (el_voteId e, el_memberId e)) (st_electorate st)"

definition in_electorate :: "VoteStore \<Rightarrow> jstring \<Rightarrow> jstring \<Rightarrow> bool" where
  "in_electorate st voteId m \<longleftrightarrow> (voteId, m) \<in> set (electorate_keys st)"

lemma distinct_filter_key:
  "distinct (map f xs) \<Longrightarrow> length (filter (\<lambda>x. p x \<and> f x = k) xs) \<le> 1"
proof (induction xs)
  case (Cons x xs)
  show ?case
  proof (cases "p x \<and> f x = k")
    case True
    with Cons.prems have "filter (\<lambda>x. p x \<and> f x = k) xs = []" by (auto simp: filter_empty_conv image_iff)
    with True show ?thesis by simp
  qed (use Cons in auto)
qed simp

lemma concat_full:
  assumes "\<And>m. m \<in> set ms \<Longrightarrow> length (f m) \<le> 1" and "length (concat (map f ms)) = length ms" and "m \<in> set ms"
  shows "f m \<noteq> []"
proof -
  have le: "(\<And>m. m \<in> set ms \<Longrightarrow> length (f m) \<le> 1) \<Longrightarrow> length (concat (map f ms)) \<le> length ms" for ms
  proof (induction ms)
    case (Cons m ms)
    have "length (f m) \<le> 1" by (rule Cons.prems) simp
    moreover have "length (concat (map f ms)) \<le> length ms" by (rule Cons.IH) (rule Cons.prems, simp)
    ultimately show ?case by simp
  qed simp
  show ?thesis
    using assms
  proof (induction ms)
    case (Cons x ms)
    have "length (concat (map f ms)) \<le> length ms" by (rule le) (use Cons.prems(1) in simp)
    moreover have "length (f x) \<le> 1" by (rule Cons.prems(1)) simp
    ultimately have "length (f x) = 1" "length (concat (map f ms)) = length ms"
      using Cons.prems(2) by simp_all
    then show ?case using Cons by auto
  qed simp
qed

lemma participant_row:
  assumes "p \<in> set (lockParticipants env st org board voteId ms)"
  obtains e where "e \<in> set (st_electorate st)" and "el_voteId e = voteId" and "el_memberId e = pt_memberId p"
    and "el_votingWeight e = pt_votingWeight p"
  using assms by (auto simp: lockParticipants_def split: option.splits)

lemma participants_complete:
  assumes "distinct (electorate_keys st)"
    and "length (lockParticipants env st org board voteId ms) = length (js_set ms)" and "m \<in> set ms"
  shows "in_electorate st voteId m"
proof -
  let ?f = "\<lambda>m. case tx_boardMember env org board m of
      None \<Rightarrow> []
    | Some locked \<Rightarrow>
        map (\<lambda>e. \<lparr>pt_memberId = m, pt_votingWeight = el_votingWeight e,
            pt_ready = bm_activeNow locked \<and> bm_votingSeat locked \<and> 0 < bm_votingWeight locked\<rparr>)
          (filter (\<lambda>e. el_organizationId e = org \<and> el_boardId e = board \<and> el_voteId e = voteId \<and> el_memberId e = m)
            (st_electorate st))"
  have le: "length (?f x) \<le> 1" for x
    using distinct_filter_key [OF assms(1), of "\<lambda>e. el_organizationId e = org \<and> el_boardId e = board" "(voteId, x)"]
    by (simp add: conj_assoc split: option.split)
  have "length (concat (map ?f (sort (js_set ms)))) = length (sort (js_set ms))"
    using assms(2) by (simp add: lockParticipants_def)
  from concat_full [OF le this, of m] assms(3) have "?f m \<noteq> []" by simp
  then show ?thesis by (auto simp: in_electorate_def filter_empty_conv split: option.splits)
qed

lemma not_excluded_members:
  "excludedMembers st voteId ms = [] \<Longrightarrow> m \<in> set ms \<Longrightarrow> \<not> is_excluded st voteId m"
  by (auto simp: excludedMembers_def filter_empty_conv)

text \<open>The grant a proxy ballot of a vote with the given policy rests on.\<close>

definition proxy_backed :: "VoteStore \<Rightarrow> ProxyPolicy \<Rightarrow> jstring \<Rightarrow> jstring \<Rightarrow> jstring \<Rightarrow> jstring option \<Rightarrow> bool" where
  "proxy_backed st policy voteId principalId casterId grantId \<longleftrightarrow>
     (\<exists>g\<in>set (st_grants st). Some (gr_id g) = grantId \<and> gr_voteId g = voteId \<and> gr_principalMemberId g = principalId \<and>
        gr_holderMemberId g = casterId \<and> policy = Policy (gr_policy g))"

lemma proxy_allowed_ok:
  assumes "proxy_allowed env st i cx vote = Inr u"
  shows "(ballot_source_of i cx = own_ballot \<longrightarrow> ci_proxyGrantId i = None) \<and>
    (ballot_source_of i cx = proxy_ballot \<longrightarrow>
       proxy_backed st (vo_proxyPolicy vote) (ci_voteId i) (ci_principalMemberId i) (cx_memberId cx) (ci_proxyGrantId i))"
proof (cases "ballot_source_of i cx")
  case own_ballot
  then show ?thesis using assms by (simp add: proxy_allowed_def)
next
  case proxy_ballot
  with assms obtain k g where k: "ci_proxyGrantId i = Some k" and
    f: "filter (\<lambda>g. gr_id g = k \<and> gr_voteId g = ci_voteId i \<and> gr_principalMemberId g = ci_principalMemberId i \<and>
        gr_holderMemberId g = cx_memberId cx) (st_grants st) = [g]" and
    p: "vo_proxyPolicy vote = Policy (gr_policy g)"
    by (auto simp: proxy_allowed_def split: option.splits list.splits)
  have "g \<in> set (filter (\<lambda>g. gr_id g = k \<and> gr_voteId g = ci_voteId i \<and> gr_principalMemberId g = ci_principalMemberId i \<and>
        gr_holderMemberId g = cx_memberId cx) (st_grants st))" unfolding f by simp
  then show ?thesis using proxy_ballot k p by (auto simp: proxy_backed_def)
qed

lemma replay_Admitted [result_simps]:
  "(case replay of None \<Rightarrow> m | Some (i, h) \<Rightarrow> Inr (Replayed i h)) = Inr (Admitted a) \<longleftrightarrow>
     replay = None \<and> m = Inr (Admitted a)"
  by (auto split: option.split)

lemma single_of_sorted:
  "length xs \<le> 1 \<Longrightarrow> xs = (case (case sort_key f xs of [] \<Rightarrow> None | b # _ \<Rightarrow> Some b) of None \<Rightarrow> [] | Some b \<Rightarrow> [b])"
  by (cases xs) simp_all

text \<open>The effective ballots of a principal.\<close>

abbreviation live_ballots_of :: "VoteStore \<Rightarrow> jstring \<Rightarrow> jstring \<Rightarrow> BallotRow list" where
  "live_ballots_of st voteId m \<equiv> filter (\<lambda>b. br_principalMemberId b = m) (effective_ballots st voteId)"

abbreviation ballot_consent :: "CastBallotInput \<Rightarrow> VoteActionRequest \<Rightarrow> ConsentQuery" where
  "ballot_consent i q \<equiv> \<lparr>cs_consentRecordId = ci_consentRecordId i, cs_actionCode = lit ''stage_ballot'',
     cs_targetType = lit ''vote'', cs_targetId = ci_voteId i, cs_payloadSha256 = vq_consentSha256 q,
     cs_packageSha256 = ci_packageSha256 i\<rparr>"

lemma cast_admit_ok:
  assumes "cast_admit env st i q = Inr (Admitted a)"
  obtains v where "v \<in> set (st_votes st)" and "vo_id v = ci_voteId i" and "vo_state v = vote_open"
    and "tx_now env < vo_deadlineAt v" and "vo_packageSha256 v = ci_packageSha256 i"
    and "vo_organizationId v = ci_organizationId i" and "vo_boardId (cm_vote a) = vo_boardId v"
    and "vo_packageId (cm_vote a) = vo_packageId v" and "vo_proxyPolicy (cm_vote a) = vo_proxyPolicy v"
    and "cm_participants a = lockParticipants env st (ci_organizationId i) (vo_boardId v) (ci_voteId i)
       [ci_principalMemberId i, cx_memberId (vq_context q)]"
    and "length (cm_participants a) = length (js_set [ci_principalMemberId i, cx_memberId (vq_context q)])"
    and "excludedMembers st (ci_voteId i) [ci_principalMemberId i, cx_memberId (vq_context q)] = []"
    and "proxy_allowed env st i (vq_context q) (cm_vote a) = Inr ()"
    and "live_ballots_of st (ci_voteId i) (ci_principalMemberId i) = (case cm_superseded a of None \<Rightarrow> [] | Some b \<Rightarrow> [b])"
    and "\<And>b. cm_superseded a = Some b \<Longrightarrow> ballot_source_of i (vq_context q) = own_ballot \<and> br_source b = proxy_ballot \<and>
      vo_proxyPolicy v = Policy principal_supersedes_proxy"
    and "consentValid (vq_context q) st (ballot_consent i q)"
proof -
  let ?act = "live_ballots_of st (ci_voteId i) (ci_principalMemberId i)"
  let ?first = "case sort_key br_id ?act of [] \<Rightarrow> None | b # _ \<Rightarrow> Some b"
  obtain r where r: "lockVoteRoot env st (ci_voteId i) (lit ''vote:act'') = Some r"
    and a: "vo_organizationId r = ci_organizationId i" "vo_state r = vote_open" "vt_deadlineOpen r" "safeHashEqual (vo_packageSha256 r) (ci_packageSha256 i)"
    "length (lockParticipants env st (ci_organizationId i) (vo_boardId r) (ci_voteId i)
       [ci_principalMemberId i, cx_memberId (vq_context q)]) =
       length (js_set [ci_principalMemberId i, cx_memberId (vq_context q)])"
    "excludedMembers st (ci_voteId i) [ci_principalMemberId i, cx_memberId (vq_context q)] = []"
    "proxy_allowed env st i (vq_context q) r = Inr ()" "length ?act \<le> 1"
    "?first = None \<or> (case ?first of None \<Rightarrow> False | Some b \<Rightarrow> ballot_source_of i (vq_context q) = own_ballot \<and>
       br_source b = proxy_ballot \<and> vo_proxyPolicy r = Policy principal_supersedes_proxy)"
    "consentValid (vq_context q) st (ballot_consent i q)"
    and m: "a = \<lparr>cm_vote = r, cm_participants = lockParticipants env st (ci_organizationId i) (vo_boardId r)
       (ci_voteId i) [ci_principalMemberId i, cx_memberId (vq_context q)], cm_superseded = ?first\<rparr>"
    using assms
    by (simp add: cast_admit_def result_simps Let_def not_less cong: conj_cong del: lit_simps split del: if_split)
       blast
  from lockVoteRoot_Some [OF r] obtain v where v: "v \<in> set (st_votes st)" "vo_id v = ci_voteId i"
    and rv: "r = VoteRow.extend v \<lparr>vt_deadlineOpen = tx_now env < vo_deadlineAt v,
            vt_actorReady = tx_actorReady env (vo_boardId v) (lit ''vote:act'')\<rparr>" by blast
  have s: "?act = (case ?first of None \<Rightarrow> [] | Some b \<Rightarrow> [b])" by (rule single_of_sorted) (rule a(8))
  show thesis
    using v a s
    by (intro that [of v]) (simp_all add: m rv safeHashEqual_iff del: filter_filter split: option.splits)
qed

section \<open>The invariant of the store\<close>

text \<open>The consent a ballot rests on: its caster confirmed exactly this ballot on exactly this package.\<close>

definition ballot_input_of :: "BallotRow \<Rightarrow> jstring \<Rightarrow> BallotInput" where
  "ballot_input_of b packageSha256 = \<lparr>bi_voteId = br_voteId b, bi_principalMemberId = br_principalMemberId b,
     bi_casterMemberId = br_casterMemberId b, bi_choice = br_choice b, bi_statement = br_statement b,
     bi_proxyGrantId = br_proxyGrantId b, bi_packageSha256 = packageSha256\<rparr>"

definition consents_to :: "platform \<Rightarrow> BallotRow \<Rightarrow> jstring \<Rightarrow> ConsentRow \<Rightarrow> StageRow \<Rightarrow> AttemptRow \<Rightarrow> bool" where
  "consents_to pl b packageSha256 c s a \<longleftrightarrow>
     cr_id c = br_consentRecordId b \<and> cr_actorMemberId c = br_casterMemberId b \<and>
     cr_actionCode c = lit ''stage_ballot'' \<and> cr_targetId c = Some (br_voteId b) \<and>
     cr_packageSha256 c = Some packageSha256 \<and>
     ballotConsentHash pl (ballot_input_of b packageSha256) = Inr (cr_payloadSha256 c) \<and>
     sr_id s = cr_stageId c \<and> sr_state s = stage_confirmed \<and> sr_payloadSha256 s = cr_payloadSha256 c \<and>
     ar_id a = cr_attemptId c \<and> ar_state a = attempt_confirmed \<and> ar_responseAction a = Some response_accept"

definition ballot_consented :: "platform \<Rightarrow> VoteStore \<Rightarrow> BallotRow \<Rightarrow> jstring \<Rightarrow> bool" where
  "ballot_consented pl st b packageSha256 \<longleftrightarrow>
     (\<exists>c\<in>set (st_consents st). \<exists>s\<in>set (st_stages st). \<exists>a\<in>set (st_attempts st). consents_to pl b packageSha256 c s a)"

definition ballot_attributed :: "VoteStore \<Rightarrow> ProxyPolicy \<Rightarrow> BallotRow \<Rightarrow> bool" where
  "ballot_attributed st policy b \<longleftrightarrow>
     (case br_source b of
        own_ballot \<Rightarrow> br_casterMemberId b = br_principalMemberId b \<and> br_proxyGrantId b = None
      | proxy_ballot \<Rightarrow> br_casterMemberId b \<noteq> br_principalMemberId b \<and>
          proxy_backed st policy (br_voteId b) (br_principalMemberId b) (br_casterMemberId b) (br_proxyGrantId b))"

definition ballot_bound :: "platform \<Rightarrow> VoteStore \<Rightarrow> BallotRow \<Rightarrow> bool" where
  "ballot_bound pl st b \<longleftrightarrow>
     (\<exists>v\<in>set (st_votes st). vo_id v = br_voteId b \<and> vo_organizationId v = br_organizationId b \<and>
        vo_boardId v = br_boardId b \<and> vo_packageId v = br_packageId b \<and>
        ballot_attributed st (vo_proxyPolicy v) b \<and> ballot_consented pl st b (vo_packageSha256 v)) \<and>
     (\<exists>e\<in>set (st_electorate st). el_voteId e = br_voteId b \<and> el_memberId e = br_principalMemberId b \<and>
        el_votingWeight e = br_votingWeight b) \<and>
     in_electorate st (br_voteId b) (br_casterMemberId b) \<and>
     br_statementSha256 b = map_option (\<lambda>t. sha256Hex (Text t)) (br_statement b) \<and>
     (\<forall>t. br_statement b = Some t \<longrightarrow> canonical_string pl t = Inr t)"

definition nobody_excluded :: "VoteStore \<Rightarrow> bool" where
  "nobody_excluded st \<longleftrightarrow>
     (\<forall>b\<in>set (st_ballots st). \<not> has_disposition st b \<longrightarrow>
        \<not> is_excluded st (br_voteId b) (br_principalMemberId b) \<and> \<not> is_excluded st (br_voteId b) (br_casterMemberId b))"

definition one_ballot_each :: "VoteStore \<Rightarrow> bool" where
  "one_ballot_each st \<longleftrightarrow>
     distinct (map br_id (st_ballots st)) \<and>
     (\<forall>voteId. distinct (map br_principalMemberId (effective_ballots st voteId)))"

definition store_ok :: "platform \<Rightarrow> VoteStore \<Rightarrow> bool" where
  "store_ok pl st \<longleftrightarrow>
     distinct (map vo_id (st_votes st)) \<and> distinct (electorate_keys st) \<and> one_ballot_each st \<and> nobody_excluded st \<and>
     list_all (ballot_bound pl st) (st_ballots st) \<and>
     list_all (\<lambda>g. \<exists>v\<in>set (st_votes st). vo_id v = gr_voteId g \<and> vo_organizationId v = gr_organizationId g \<and>
        vo_boardId v = gr_boardId g) (st_grants st)"

text \<open>What a vote is opened with never changes; rows of the evidence are only added.\<close>

abbreviation frozen_vote :: "VoteRow \<Rightarrow> jstring \<times> jstring \<times> jstring \<times> jstring \<times> jstring \<times> ProxyPolicy \<times> jstring \<times> ApprovalRule" where
  "frozen_vote v \<equiv> (vo_id v, vo_organizationId v, vo_boardId v, vo_packageId v, vo_packageSha256 v, vo_proxyPolicy v,
     vo_electorateSha256 v, vo_rule v)"

abbreviation confirmed_stages :: "VoteStore \<Rightarrow> StageRow set" where
  "confirmed_stages st \<equiv> {s \<in> set (st_stages st). sr_state s = stage_confirmed}"

abbreviation confirmed_attempts :: "VoteStore \<Rightarrow> AttemptRow set" where
  "confirmed_attempts st \<equiv> {a \<in> set (st_attempts st). ar_state a = attempt_confirmed}"

definition evidence_kept :: "VoteStore \<Rightarrow> VoteStore \<Rightarrow> bool" where
  "evidence_kept st st' \<longleftrightarrow>
     frozen_vote ` set (st_votes st) \<subseteq> frozen_vote ` set (st_votes st') \<and>
     set (st_electorate st) \<subseteq> set (st_electorate st') \<and> set (st_grants st) \<subseteq> set (st_grants st') \<and>
     set (st_consents st) \<subseteq> set (st_consents st') \<and> confirmed_stages st \<subseteq> confirmed_stages st' \<and>
     confirmed_attempts st \<subseteq> confirmed_attempts st'"

lemma evidence_keptD:
  assumes "evidence_kept st st'"
  shows "v \<in> set (st_votes st) \<Longrightarrow> \<exists>v'\<in>set (st_votes st'). frozen_vote v' = frozen_vote v"
    and "e \<in> set (st_electorate st) \<Longrightarrow> e \<in> set (st_electorate st')"
    and "g \<in> set (st_grants st) \<Longrightarrow> g \<in> set (st_grants st')"
    and "c \<in> set (st_consents st) \<Longrightarrow> c \<in> set (st_consents st')"
    and "s \<in> set (st_stages st) \<Longrightarrow> sr_state s = stage_confirmed \<Longrightarrow> s \<in> set (st_stages st')"
    and "a \<in> set (st_attempts st) \<Longrightarrow> ar_state a = attempt_confirmed \<Longrightarrow> a \<in> set (st_attempts st')"
proof -
  have k: "frozen_vote ` set (st_votes st) \<subseteq> frozen_vote ` set (st_votes st')"
    "set (st_electorate st) \<subseteq> set (st_electorate st')" "set (st_grants st) \<subseteq> set (st_grants st')"
    "set (st_consents st) \<subseteq> set (st_consents st')" "confirmed_stages st \<subseteq> confirmed_stages st'"
    "confirmed_attempts st \<subseteq> confirmed_attempts st'"
    using assms by (simp_all only: evidence_kept_def)
  show "\<exists>v'\<in>set (st_votes st'). frozen_vote v' = frozen_vote v" if "v \<in> set (st_votes st)"
    using subsetD [OF k(1) imageI [OF that]] by (metis (no_types, lifting) imageE)
  show "e \<in> set (st_electorate st) \<Longrightarrow> e \<in> set (st_electorate st')" using k(2) by (rule subsetD)
  show "g \<in> set (st_grants st) \<Longrightarrow> g \<in> set (st_grants st')" using k(3) by (rule subsetD)
  show "c \<in> set (st_consents st) \<Longrightarrow> c \<in> set (st_consents st')" using k(4) by (rule subsetD)
  show "s \<in> set (st_stages st) \<Longrightarrow> sr_state s = stage_confirmed \<Longrightarrow> s \<in> set (st_stages st')" using k(5) by blast
  show "a \<in> set (st_attempts st) \<Longrightarrow> ar_state a = attempt_confirmed \<Longrightarrow> a \<in> set (st_attempts st')" using k(6) by blast
qed

lemma proxy_backed_kept: "evidence_kept st st' \<Longrightarrow> proxy_backed st p v m c g \<Longrightarrow> proxy_backed st' p v m c g"
  unfolding proxy_backed_def by (blast dest: evidence_keptD(3))

lemma ballot_consented_kept:
  assumes "evidence_kept st st'" and "ballot_consented pl st b h"
  shows "ballot_consented pl st' b h"
proof -
  from assms(2) obtain c s a where r: "c \<in> set (st_consents st)" "s \<in> set (st_stages st)" "a \<in> set (st_attempts st)"
    and m: "consents_to pl b h c s a" unfolding ballot_consented_def by blast
  then have "sr_state s = stage_confirmed" "ar_state a = attempt_confirmed" unfolding consents_to_def by blast+
  with r evidence_keptD(4-6) [OF assms(1)] have "c \<in> set (st_consents st')" "s \<in> set (st_stages st')"
    "a \<in> set (st_attempts st')" by simp_all
  with m show ?thesis unfolding ballot_consented_def by blast
qed

lemma in_electorate_kept: "evidence_kept st st' \<Longrightarrow> in_electorate st v m \<Longrightarrow> in_electorate st' v m"
  unfolding in_electorate_def by (auto dest: evidence_keptD(2))

lemma ballot_bound_kept:
  assumes "evidence_kept st st'" and "ballot_bound pl st b"
  shows "ballot_bound pl st' b"
proof -
  from assms(2) obtain v e where v: "v \<in> set (st_votes st)" "vo_id v = br_voteId b" "vo_organizationId v = br_organizationId b"
      "vo_boardId v = br_boardId b" "vo_packageId v = br_packageId b" "ballot_attributed st (vo_proxyPolicy v) b"
      "ballot_consented pl st b (vo_packageSha256 v)"
    and e: "e \<in> set (st_electorate st)" "el_voteId e = br_voteId b" "el_memberId e = br_principalMemberId b"
      "el_votingWeight e = br_votingWeight b"
    and r: "in_electorate st (br_voteId b) (br_casterMemberId b)"
      "br_statementSha256 b = map_option (\<lambda>t. sha256Hex (Text t)) (br_statement b)"
      "\<forall>t. br_statement b = Some t \<longrightarrow> canonical_string pl t = Inr t"
    unfolding ballot_bound_def by blast
  from evidence_keptD(1) [OF assms(1) v(1)] obtain v' where v': "v' \<in> set (st_votes st')" "frozen_vote v' = frozen_vote v" by blast
  have "ballot_attributed st' (vo_proxyPolicy v) b"
    using v(6) proxy_backed_kept [OF assms(1)] by (auto simp: ballot_attributed_def split: BallotSource.splits)
  then have "\<exists>v\<in>set (st_votes st'). vo_id v = br_voteId b \<and> vo_organizationId v = br_organizationId b \<and>
        vo_boardId v = br_boardId b \<and> vo_packageId v = br_packageId b \<and>
        ballot_attributed st' (vo_proxyPolicy v) b \<and> ballot_consented pl st' b (vo_packageSha256 v)"
    using v v' ballot_consented_kept [OF assms(1) v(7)] by (intro bexI [of _ v']) auto
  with e r evidence_keptD(2) [OF assms(1) e(1)] in_electorate_kept [OF assms(1) r(1)] show ?thesis
    unfolding ballot_bound_def by blast
qed

section \<open>Granting, revoking and casting keep the invariant\<close>

abbreviation grants_ok :: "VoteStore \<Rightarrow> bool" where
  "grants_ok st \<equiv> list_all (\<lambda>g. \<exists>v\<in>set (st_votes st). vo_id v = gr_voteId g \<and> vo_organizationId v = gr_organizationId g \<and>
     vo_boardId v = gr_boardId g) (st_grants st)"

lemma versions_only_frozen:
  assumes "versions_only votes votes'"
  shows "map vo_id votes' = map vo_id votes" and "frozen_vote ` set votes' = frozen_vote ` set votes"
proof -
  have m: "map f votes' = map f votes" if "\<And>v. f (v\<lparr>vo_rowVersion := 0\<rparr>) = f v" for f :: "VoteRow \<Rightarrow> 'a"
    using arg_cong [OF assms [unfolded versions_only_def], of "map f"] by (simp add: comp_def that)
  show "map vo_id votes' = map vo_id votes" by (rule m) simp
  show "frozen_vote ` set votes' = frozen_vote ` set votes"
    using arg_cong [OF m [of frozen_vote], of set] by simp
qed

lemma evidence_kept_same:
  assumes "same_basis st st'" and "same_stages st st'" and "set (st_grants st) \<subseteq> set (st_grants st')"
  shows "evidence_kept st st'"
  using assms versions_only_frozen(2) [of "st_votes st" "st_votes st'"]
  by (simp add: evidence_kept_def same_basis_def same_stages_def)

lemma grants_ok_kept:
  assumes "evidence_kept st st'" and "grants_ok st" and "g \<in> set (st_grants st)"
  shows "\<exists>v\<in>set (st_votes st'). vo_id v = gr_voteId g \<and> vo_organizationId v = gr_organizationId g \<and> vo_boardId v = gr_boardId g"
proof -
  from assms(2,3) obtain v where v: "v \<in> set (st_votes st)" "vo_id v = gr_voteId g"
      "vo_organizationId v = gr_organizationId g" "vo_boardId v = gr_boardId g"
    by (auto simp: list_all_iff)
  from evidence_keptD(1) [OF assms(1) v(1)] obtain v' where "v' \<in> set (st_votes st')" "frozen_vote v' = frozen_vote v" by blast
  with v show ?thesis by (intro bexI [of _ v']) auto
qed

lemma has_disposition_mono:
  "set (st_dispositions st) \<subseteq> set (st_dispositions st') \<Longrightarrow> has_disposition st b \<Longrightarrow> has_disposition st' b"
  by (auto simp: has_disposition_def list_ex_iff)

lemma distinct_sub:
  assumes "distinct (map f (filter p xs))" and "\<And>x. q x \<Longrightarrow> p x"
  shows "distinct (map f (filter q xs))"
proof -
  have "filter q xs = filter q (filter p xs)" using assms(2) by (auto intro: filter_cong)
  with assms(1) show ?thesis by (simp only: distinct_map_filter)
qed

lemma admission_Inr [result_simps]:
  "(case a of Replayed i h \<Rightarrow> f i h | Admitted x \<Rightarrow> g x) = Inr y \<longleftrightarrow>
     (\<exists>i h. a = Replayed i h \<and> f i h = Inr y) \<or> (\<exists>x. a = Admitted x \<and> g x = Inr y)"
  by (cases a) simp_all

lemma store_ok_step:
  assumes "store_ok pl st" and "evidence_kept st st'" and "distinct (map vo_id (st_votes st'))"
    and "distinct (electorate_keys st')" and "st_ballots st' = st_ballots st"
    and "set (st_dispositions st) \<subseteq> set (st_dispositions st')" and "nobody_excluded st'" and "grants_ok st'"
  shows "store_ok pl st'"
proof -
  have b: "list_all (ballot_bound pl st') (st_ballots st')"
    using assms(1,5) ballot_bound_kept [OF assms(2)] by (auto simp: store_ok_def list_all_iff)
  have "distinct (map br_principalMemberId (effective_ballots st' v))" for v
  proof -
    have "distinct (map br_principalMemberId (filter (\<lambda>b. br_voteId b = v \<and> \<not> has_disposition st b) (st_ballots st)))"
      using assms(1) by (simp add: store_ok_def one_ballot_each_def effective_ballots_def)
    then have "distinct (map br_principalMemberId (filter (\<lambda>b. br_voteId b = v \<and> \<not> has_disposition st' b) (st_ballots st)))"
      by (rule distinct_sub) (use has_disposition_mono [OF assms(6)] in blast)
    then show ?thesis by (simp add: effective_ballots_def assms(5))
  qed
  then have "one_ballot_each st'" using assms(1,5) by (simp add: store_ok_def one_ballot_each_def)
  with b assms(3,4,7,8) show ?thesis by (simp add: store_ok_def)
qed

lemma store_ok_quiet:
  assumes "store_ok pl st" and "same_basis st st'" and "same_stages st st'" and "st_ballots st' = st_ballots st"
    and "st_dispositions st' = st_dispositions st" and "set (st_grants st) \<subseteq> set (st_grants st')" and "grants_ok st'"
  shows "store_ok pl st'"
proof (rule store_ok_step [OF assms(1) evidence_kept_same [OF assms(2,3,6)]])
  show "distinct (map vo_id (st_votes st'))"
    using assms(1,2) versions_only_frozen(1) [of "st_votes st" "st_votes st'"] by (simp add: store_ok_def same_basis_def)
  show "nobody_excluded st'"
    using assms(1,3,4,5) by (simp add: store_ok_def nobody_excluded_def is_excluded_def current_exclusion_def same_stages_def
      has_disposition_def)
qed (use assms in \<open>simp_all add: store_ok_def same_basis_def\<close>)

lemma revoke_keeps_store_ok:
  assumes "revokeProxyInTransaction pl lc env i st = Inr (r, st')" and "store_ok pl st"
  shows "store_ok pl st'"
proof -
  consider "st' = st" | reason q vote where "revoke_write pl lc env i reason q vote st = Inr (r, st')"
    using assms(1) by (auto simp: revokeProxyInTransaction_def bindr_eq_Inr_iff admission_Inr)
  then show ?thesis
  proof cases
    case 2
    from revoke_write_ok [OF 2] have w: "same_basis st st'" "same_stages st st'" "st_grants st' = st_grants st"
      "st_ballots st' = st_ballots st" "st_dispositions st' = st_dispositions st" by simp_all
    have "grants_ok st'"
      using grants_ok_kept [OF evidence_kept_same [OF w(1,2)]] w(3) assms(2) by (simp add: store_ok_def list_all_iff)
    with w assms(2) show ?thesis by (intro store_ok_quiet [of pl st st']) simp_all
  qed (use assms(2) in simp)
qed

lemma grant_admit_ok:
  assumes "grant_admit env st i q = Inr (Admitted r)"
  obtains v where "v \<in> set (st_votes st)" and "vo_id v = gi_voteId i" and "vo_organizationId v = gi_organizationId i"
    and "vo_boardId r = vo_boardId v" and "vo_state v = vote_open" and "vo_proxyPolicy v = Policy (gi_policy i)"
    and "consentValid (vq_context q) st \<lparr>cs_consentRecordId = gi_consentRecordId i, cs_actionCode = lit ''grant_proxy'',
      cs_targetType = lit ''vote'', cs_targetId = gi_voteId i, cs_payloadSha256 = vq_consentSha256 q,
      cs_packageSha256 = gi_packageSha256 i\<rparr>"
proof -
  from assms have r: "lockVoteRoot env st (gi_voteId i) (lit ''proxy:manage'') = Some r"
    and "vo_organizationId r = gi_organizationId i" "vo_state r = vote_open" "vo_proxyPolicy r = Policy (gi_policy i)"
    and "consentValid (vq_context q) st \<lparr>cs_consentRecordId = gi_consentRecordId i, cs_actionCode = lit ''grant_proxy'',
      cs_targetType = lit ''vote'', cs_targetId = gi_voteId i, cs_payloadSha256 = vq_consentSha256 q,
      cs_packageSha256 = gi_packageSha256 i\<rparr>"
    by (auto simp: grant_admit_def result_simps Let_def cong: conj_cong del: lit_simps split del: if_split)
  with lockVoteRoot_Some [OF r] show thesis by (metis root_row_simps that)
qed

lemma grant_keeps_store_ok:
  assumes "grantProxyInTransaction pl lc env i st = Inr (r, st')" and "store_ok pl st"
  shows "store_ok pl st'"
proof -
  consider "st' = st" | q vote where "grant_admit env st i q = Inr (Admitted vote)"
      "grant_write pl lc env i q vote st = Inr (r, st')"
    using assms(1) by (auto simp: grantProxyInTransaction_def bindr_eq_Inr_iff admission_Inr)
  then show ?thesis
  proof cases
    case 2
    from grant_write_ok [OF 2(2)] have w: "same_basis st st'" "same_stages st st'"
      "st_grants st' = st_grants st @ [new_grant env i (vq_context q) vote]"
      "st_ballots st' = st_ballots st" "st_dispositions st' = st_dispositions st" by simp_all
    then have k: "evidence_kept st st'" by (intro evidence_kept_same) auto
    from grant_admit_ok [OF 2(1)] obtain v where v: "v \<in> set (st_votes st)" "vo_id v = gi_voteId i"
      "vo_organizationId v = gi_organizationId i" "vo_boardId vote = vo_boardId v" by metis
    from evidence_keptD(1) [OF k v(1)] obtain v' where v': "v' \<in> set (st_votes st')" "frozen_vote v' = frozen_vote v" by blast
    have "grants_ok st'"
      using grants_ok_kept [OF k] assms(2) v v' by (auto simp: w(3) store_ok_def list_all_iff new_grant_def)
    with w assms(2) show ?thesis by (intro store_ok_quiet [of pl st st']) auto
  qed (use assms(2) in simp)
qed

lemma cast_request_ok:
  assumes "cast_request pl env i = Inr (statement, q)"
  shows "tx_context env = Some (vq_context q)" and "cx_organizationId (vq_context q) = ci_organizationId i"
    and "ci_statement i = statement" and "statement = Some t \<Longrightarrow> canonical_string pl t = Inr t"
    and "ballotConsentHash pl \<lparr>bi_voteId = ci_voteId i, bi_principalMemberId = ci_principalMemberId i,
         bi_casterMemberId = cx_memberId (vq_context q), bi_choice = ci_choice i, bi_statement = statement,
         bi_proxyGrantId = ci_proxyGrantId i, bi_packageSha256 = ci_packageSha256 i\<rparr> = Inr (vq_consentSha256 q)"
proof -
  obtain cx sha rsha where s: "parse_nullable (canonical_string pl) (ci_statement i) = Inr statement"
    and c: "readRequestContext env = Inr cx" "cx_organizationId cx = ci_organizationId i"
    and h: "ballotConsentHash pl \<lparr>bi_voteId = ci_voteId i, bi_principalMemberId = ci_principalMemberId i,
         bi_casterMemberId = cx_memberId cx, bi_choice = ci_choice i, bi_statement = statement,
         bi_proxyGrantId = ci_proxyGrantId i, bi_packageSha256 = ci_packageSha256 i\<rparr> = Inr sha"
    and q: "q = \<lparr>vq_context = cx, vq_consentSha256 = sha, vq_requestSha256 = rsha\<rparr>"
    using assms by (simp add: cast_request_def result_simps cong: conj_cong del: lit_simps split del: if_split) blast
  from c have "tx_context env = Some cx" by (auto simp: readRequestContext_def split: option.splits)
  with c h q show "tx_context env = Some (vq_context q)" "cx_organizationId (vq_context q) = ci_organizationId i"
    "ballotConsentHash pl \<lparr>bi_voteId = ci_voteId i, bi_principalMemberId = ci_principalMemberId i,
         bi_casterMemberId = cx_memberId (vq_context q), bi_choice = ci_choice i, bi_statement = statement,
         bi_proxyGrantId = ci_proxyGrantId i, bi_packageSha256 = ci_packageSha256 i\<rparr> = Inr (vq_consentSha256 q)"
    by simp_all
  show "ci_statement i = statement"
    using s by (auto simp: parse_nullable_def bindr_eq_Inr_iff split: option.splits dest: canonical_string_id)
  show "canonical_string pl t = Inr t" if "statement = Some t"
    using s that by (auto simp: parse_nullable_def bindr_eq_Inr_iff split: option.splits dest: canonical_string_id)
qed

lemma consentValid_rows:
  assumes "consentValid cx st k"
  obtains c s a where "c \<in> set (st_consents st)" and "s \<in> set (st_stages st)" and "a \<in> set (st_attempts st)"
    and "consent_matches cx k c s a"
  using assms unfolding consentValid_def list_ex_iff by blast

lemma new_ballot_simps [simp]:
  "br_id (new_ballot i t cx v p) = ci_ballotId i" "br_organizationId (new_ballot i t cx v p) = ci_organizationId i"
  "br_boardId (new_ballot i t cx v p) = vo_boardId v" "br_voteId (new_ballot i t cx v p) = ci_voteId i"
  "br_packageId (new_ballot i t cx v p) = vo_packageId v" "br_casterMemberId (new_ballot i t cx v p) = cx_memberId cx"
  "br_principalMemberId (new_ballot i t cx v p) = ci_principalMemberId i" "br_choice (new_ballot i t cx v p) = ci_choice i"
  "br_statement (new_ballot i t cx v p) = t" "br_source (new_ballot i t cx v p) = ballot_source_of i cx"
  "br_statementSha256 (new_ballot i t cx v p) = map_option (\<lambda>t. sha256Hex (Text t)) t"
  "br_votingWeight (new_ballot i t cx v p) = pt_votingWeight p" "br_proxyGrantId (new_ballot i t cx v p) = ci_proxyGrantId i"
  "br_consentRecordId (new_ballot i t cx v p) = ci_consentRecordId i"
  by (simp_all add: new_ballot_def)

lemma new_ballot_consented:
  assumes "cast_request pl env i = Inr (statement, q)" and "consentValid (vq_context q) st (ballot_consent i q)"
  shows "ballot_consented pl st (new_ballot i statement (vq_context q) vote p) (ci_packageSha256 i)"
proof -
  from consentValid_rows [OF assms(2)] obtain c s a where r: "c \<in> set (st_consents st)" "s \<in> set (st_stages st)"
    "a \<in> set (st_attempts st)" and m: "consent_matches (vq_context q) (ballot_consent i q) c s a" .
  from m cast_request_ok(5) [OF assms(1)]
  have "consents_to pl (new_ballot i statement (vq_context q) vote p) (ci_packageSha256 i) c s a"
    by (simp add: consents_to_def consent_matches_def ballot_input_of_def del: lit_simps)
  with r show ?thesis unfolding ballot_consented_def by blast
qed

lemma new_ballot_attributed:
  assumes "proxy_allowed env st i (vq_context q) r = Inr ()"
  shows "ballot_attributed st (vo_proxyPolicy r) (new_ballot i statement (vq_context q) vote p)"
  using proxy_allowed_ok [OF assms]
  by (auto simp: ballot_attributed_def ballot_source_of_def split: if_splits)

lemma new_ballot_bound:
  assumes "cast_request pl env i = Inr (statement, q)" and "cast_admit env st i q = Inr (Admitted a)" and "store_ok pl st"
    and "p \<in> set (cm_participants a)" and "pt_memberId p = ci_principalMemberId i"
  shows "ballot_bound pl st (new_ballot i statement (vq_context q) (cm_vote a) p)"
  using assms(2)
proof (rule cast_admit_ok)
  fix v
  let ?b = "new_ballot i statement (vq_context q) (cm_vote a) p"
  let ?ms = "[ci_principalMemberId i, cx_memberId (vq_context q)]"
  assume v: "v \<in> set (st_votes st)" "vo_id v = ci_voteId i" "vo_packageSha256 v = ci_packageSha256 i"
    "vo_organizationId v = ci_organizationId i" "vo_boardId (cm_vote a) = vo_boardId v"
    "vo_packageId (cm_vote a) = vo_packageId v" "vo_proxyPolicy (cm_vote a) = vo_proxyPolicy v"
    and ps: "cm_participants a = lockParticipants env st (ci_organizationId i) (vo_boardId v) (ci_voteId i) ?ms"
    "length (cm_participants a) = length (js_set ?ms)"
    and x: "proxy_allowed env st i (vq_context q) (cm_vote a) = Inr ()"
    "consentValid (vq_context q) st (ballot_consent i q)"
  have "distinct (electorate_keys st)" using assms(3) by (simp add: store_ok_def)
  from participants_complete [OF this, of env "ci_organizationId i" "vo_boardId v" "ci_voteId i" ?ms] ps
  have el: "in_electorate st (ci_voteId i) (cx_memberId (vq_context q))" by simp
  from participant_row [OF assms(4) [unfolded ps(1)]] obtain e where e: "e \<in> set (st_electorate st)"
    "el_voteId e = ci_voteId i" "el_memberId e = pt_memberId p" "el_votingWeight e = pt_votingWeight p" by metis
  have "\<exists>v\<in>set (st_votes st). vo_id v = br_voteId ?b \<and> vo_organizationId v = br_organizationId ?b \<and>
        vo_boardId v = br_boardId ?b \<and> vo_packageId v = br_packageId ?b \<and>
        ballot_attributed st (vo_proxyPolicy v) ?b \<and> ballot_consented pl st ?b (vo_packageSha256 v)"
    using v new_ballot_attributed [OF x(1)] new_ballot_consented [OF assms(1) x(2)]
    by (intro bexI [of _ v]) simp_all
  moreover have "\<exists>e\<in>set (st_electorate st). el_voteId e = br_voteId ?b \<and> el_memberId e = br_principalMemberId ?b \<and>
        el_votingWeight e = br_votingWeight ?b"
    using e assms(5) by (intro bexI [of _ e]) simp_all
  ultimately show ?thesis
    using el cast_request_ok(3,4) [OF assms(1)] unfolding ballot_bound_def by simp
qed

lemma mem_of_case: "xs = (case m of None \<Rightarrow> [] | Some b \<Rightarrow> [b]) \<Longrightarrow> b \<in> set xs \<longleftrightarrow> m = Some b"
  by (cases m) auto

lemma cast_one_ballot_each:
  assumes "one_ballot_each st" and "live_ballots_of st (br_voteId n) (br_principalMemberId n) = (case prior of None \<Rightarrow> [] | Some b \<Rightarrow> [b])"
    and "list_all (\<lambda>x. \<not> ballot_clash n x) (st_ballots st)"
    and "st_ballots st' = st_ballots st @ [n]"
    and "set (st_dispositions st') = set (st_dispositions st) \<union> ds" and "\<And>b. prior = Some b \<Longrightarrow> \<exists>d\<in>ds. dr_priorBallotId d = br_id b"
  shows "one_ballot_each st'"
proof -
  have old: "br_principalMemberId x \<noteq> br_principalMemberId n"
    if live: "\<not> has_disposition st' x" and v: "br_voteId x = br_voteId n" and x: "x \<in> set (st_ballots st)" for x
  proof
    assume p: "br_principalMemberId x = br_principalMemberId n"
    have "\<not> has_disposition st x" using live has_disposition_mono [of st st' x] assms(5) by auto
    with x p v have "x \<in> set (live_ballots_of st (br_voteId n) (br_principalMemberId n))" by (simp add: effective_ballots_def)
    with mem_of_case [OF assms(2)] have s: "prior = Some x" by simp
    from assms(5) assms(6) [OF s] have "has_disposition st' x" by (auto simp: has_disposition_def list_ex_iff)
    with live show False ..
  qed
  have "distinct (map br_principalMemberId (effective_ballots st' v))" for v
  proof -
    have "distinct (map br_principalMemberId (filter (\<lambda>b. br_voteId b = v \<and> \<not> has_disposition st b) (st_ballots st)))"
      using assms(1) by (simp add: one_ballot_each_def effective_ballots_def)
    then have "distinct (map br_principalMemberId (filter (\<lambda>b. br_voteId b = v \<and> \<not> has_disposition st' b) (st_ballots st)))"
      by (rule distinct_sub) (use has_disposition_mono [of st st'] assms(5) in auto)
    then show ?thesis by (auto simp: effective_ballots_def assms(4)) (metis old)
  qed
  moreover have "distinct (map br_id (st_ballots st'))"
    using assms(1,3) by (auto simp: one_ballot_each_def assms(4) list_all_iff ballot_clash_def)
  ultimately show ?thesis by (simp add: one_ballot_each_def)
qed

lemma cast_keeps_store_ok:
  assumes "castBallotInTransaction pl lc env i st = Inr (r, st')" and "store_ok pl st"
  shows "store_ok pl st'"
proof -
  consider "st' = st" | statement q a where "cast_request pl env i = Inr (statement, q)"
      "cast_admit env st i q = Inr (Admitted a)" "cast_write pl lc env i statement q a st = Inr (r, st')"
    using assms(1) by (auto simp: castBallotInTransaction_def bindr_eq_Inr_iff admission_Inr)
  then show ?thesis
  proof cases
    case 2
    from cast_write_ok [OF 2(3)] obtain p where p: "p \<in> set (cm_participants a)" "pt_memberId p = ci_principalMemberId i"
      and same: "same_basis st st'" "same_stages st st'" "st_grants st' = st_grants st"
      and free: "list_all (\<lambda>x. \<not> ballot_clash (new_ballot i statement (vq_context q) (cm_vote a) p) x) (st_ballots st)"
      and rows: "st_ballots st' = st_ballots st @ [new_ballot i statement (vq_context q) (cm_vote a) p]"
        "st_dispositions st' = st_dispositions st @ (case cm_superseded a of None \<Rightarrow> [] | Some b \<Rightarrow> [supersession i b])" .
    let ?n = "new_ballot i statement (vq_context q) (cm_vote a) p"
    have k: "evidence_kept st st'" using same by (intro evidence_kept_same) simp_all
    have s: "one_ballot_each st" "nobody_excluded st" "list_all (ballot_bound pl st) (st_ballots st)" "grants_ok st"
      using assms(2) by (simp_all add: store_ok_def)
    from 2(2) obtain
      one: "live_ballots_of st (ci_voteId i) (ci_principalMemberId i) = (case cm_superseded a of None \<Rightarrow> [] | Some b \<Rightarrow> [b])"
      and x: "excludedMembers st (ci_voteId i) [ci_principalMemberId i, cx_memberId (vq_context q)] = []"
      by (rule cast_admit_ok)
    have "one_ballot_each st'"
      by (rule cast_one_ballot_each [OF s(1) _ free rows(1), of "cm_superseded a"
            "set (case cm_superseded a of None \<Rightarrow> [] | Some b \<Rightarrow> [supersession i b])"])
        (use one in \<open>simp_all add: rows(2) supersession_def\<close>)
    moreover have "nobody_excluded st'"
    proof -
      have ex: "is_excluded st' v m = is_excluded st v m" for v m
        using same(2) by (simp add: is_excluded_def current_exclusion_def same_stages_def)
      have d: "\<not> has_disposition st' b \<Longrightarrow> \<not> has_disposition st b" for b
        using has_disposition_mono [of st st' b] by (auto simp: rows(2))
      show ?thesis
        using s(2) d not_excluded_members [OF x] by (auto simp: nobody_excluded_def ex rows(1))
    qed
    moreover have "list_all (ballot_bound pl st') (st_ballots st')"
      using s(3) ballot_bound_kept [OF k] ballot_bound_kept [OF k new_ballot_bound [OF 2(1,2) assms(2) p]]
      by (simp add: rows(1) list_all_iff)
    moreover have "grants_ok st'" using grants_ok_kept [OF k s(4)] same(3) by (simp add: list_all_iff)
    moreover have "distinct (map vo_id (st_votes st'))" "distinct (electorate_keys st')"
      using assms(2) same(1) versions_only_frozen(1) [of "st_votes st" "st_votes st'"]
      by (simp_all add: store_ok_def same_basis_def)
    ultimately show ?thesis by (simp add: store_ok_def)
  qed (use assms(2) in simp)
qed

end
