(* ===== verification/Recusals.thy ===== *)
theory Recusals
  imports Ballot_Invariant Feed
begin

text \<open>
  Recusing a member from a vote and lifting the recusal: \<^verbatim>\<open>manageVoteRecusalInTransaction\<close> of
  \<^verbatim>\<open>lib/db/src/transactions/recusals.ts\<close>, with the statement \<^verbatim>\<open>boardagent_lock_vote_for_recusal\<close> it reads
  the vote with. As in \<^verbatim>\<open>Ballots\<close> the handler is split into \<open>_request\<close>, \<open>_admit\<close> and \<open>_write\<close>.
\<close>

section \<open>Input\<close>

record VoteStageReplacementInput =
  sd_stageId :: jstring
  sd_auditEventId :: jstring

record VoteProxyReplacementInput =
  pd_proxyGrantId :: jstring
  pd_proxyRevocationId :: jstring
  pd_auditEventId :: jstring

record VoteBallotReplacementInput =
  bd_ballotId :: jstring
  bd_ballotDispositionId :: jstring
  bd_auditEventId :: jstring

record VoteRecusalTombstoneInput =
  td_removedFeedId :: jstring
  td_tombstoneId :: jstring

record VoteRecusalDeliveryInput =
  dl_memberId :: jstring
  dl_noticeId :: jstring
  dl_feedId :: jstring
  dl_noticeAuditEventId :: jstring

record BoardCause =
  bc_exclusionId :: jstring
  bc_payloadSha256 :: jstring

record ManageVoteRecusalInput =
  mi_boardCause :: "BoardCause option"
  mi_organizationId :: jstring
  mi_voteId :: jstring
  mi_memberId :: jstring
  mi_decisionPackageSha256 :: jstring
  mi_state :: RecusalState
  mi_exclusionId :: jstring
  mi_reason :: jstring
  mi_consentRecordId :: jstring
  mi_idempotencyRecordId :: jstring
  mi_idempotencyKey :: jstring
  mi_stageDispositions :: "VoteStageReplacementInput list"
  mi_proxyDispositions :: "VoteProxyReplacementInput list"
  mi_ballotDispositions :: "VoteBallotReplacementInput list"
  mi_feedTombstones :: "VoteRecusalTombstoneInput list"
  mi_deliveries :: "VoteRecusalDeliveryInput list"
  mi_auditEventId :: jstring

definition unique_ids :: "jstring list \<Rightarrow> string \<Rightarrow> unit result" where
  "unique_ids values label =
     bindr (mapr parse_id values) (\<lambda>parsed.
       ensure (length (js_set parsed) = length parsed) (TypeError (label @ '' must be unique'')))"

definition parse_ids :: "('a \<Rightarrow> jstring) list \<Rightarrow> 'a \<Rightarrow> 'a result" where
  "parse_ids ids x = bindr (mapr (\<lambda>f. parse_id (f x)) ids) (\<lambda>_. Inr x)"

definition normalizeStages ::
    "(jstring \<Rightarrow> jstring \<Rightarrow> int) \<Rightarrow> VoteStageReplacementInput list \<Rightarrow> VoteStageReplacementInput list result" where
  "normalizeStages lc inputs =
     bindr (mapr (parse_ids [sd_stageId, sd_auditEventId]) inputs) (\<lambda>parsed.
     let rows = toSorted (\<lambda>left right. lc (sd_stageId left) (sd_stageId right)) parsed in
     bindr (unique_ids (map sd_stageId rows) ''recusal stage IDs'') (\<lambda>_.
     bindr (unique_ids (map sd_auditEventId rows) ''recusal stage audit IDs'') (\<lambda>_. Inr rows)))"

definition normalizeProxies ::
    "(jstring \<Rightarrow> jstring \<Rightarrow> int) \<Rightarrow> VoteProxyReplacementInput list \<Rightarrow> VoteProxyReplacementInput list result" where
  "normalizeProxies lc inputs =
     bindr (mapr (parse_ids [pd_proxyGrantId, pd_proxyRevocationId, pd_auditEventId]) inputs) (\<lambda>parsed.
     let rows = toSorted (\<lambda>left right. lc (pd_proxyGrantId left) (pd_proxyGrantId right)) parsed in
     bindr (unique_ids (map pd_proxyGrantId rows) ''recusal proxy grant IDs'') (\<lambda>_.
     bindr (unique_ids (map pd_proxyRevocationId rows) ''recusal proxy revocation IDs'') (\<lambda>_.
     bindr (unique_ids (map pd_auditEventId rows) ''recusal proxy audit IDs'') (\<lambda>_. Inr rows))))"

definition normalizeBallots ::
    "(jstring \<Rightarrow> jstring \<Rightarrow> int) \<Rightarrow> VoteBallotReplacementInput list \<Rightarrow> VoteBallotReplacementInput list result" where
  "normalizeBallots lc inputs =
     bindr (mapr (parse_ids [bd_ballotId, bd_ballotDispositionId, bd_auditEventId]) inputs) (\<lambda>parsed.
     let rows = toSorted (\<lambda>left right. lc (bd_ballotId left) (bd_ballotId right)) parsed in
     bindr (unique_ids (map bd_ballotId rows) ''recusal ballot IDs'') (\<lambda>_.
     bindr (unique_ids (map bd_ballotDispositionId rows) ''recusal ballot disposition IDs'') (\<lambda>_.
     bindr (unique_ids (map bd_auditEventId rows) ''recusal ballot audit IDs'') (\<lambda>_. Inr rows))))"

definition normalizeTombstones ::
    "(jstring \<Rightarrow> jstring \<Rightarrow> int) \<Rightarrow> VoteRecusalTombstoneInput list \<Rightarrow> VoteRecusalTombstoneInput list result" where
  "normalizeTombstones lc inputs =
     bindr (mapr (parse_ids [td_removedFeedId, td_tombstoneId]) inputs) (\<lambda>parsed.
     let rows = toSorted (\<lambda>left right. lc (td_removedFeedId left) (td_removedFeedId right)) parsed in
     bindr (unique_ids (map td_removedFeedId rows) ''recusal removed feed IDs'') (\<lambda>_.
     bindr (unique_ids (map td_tombstoneId rows) ''recusal tombstone IDs'') (\<lambda>_. Inr rows)))"

definition normalizeDeliveries ::
    "(jstring \<Rightarrow> jstring \<Rightarrow> int) \<Rightarrow> VoteRecusalDeliveryInput list \<Rightarrow> VoteRecusalDeliveryInput list result" where
  "normalizeDeliveries lc inputs =
     bindr (mapr (parse_ids [dl_memberId, dl_noticeId, dl_feedId, dl_noticeAuditEventId]) inputs) (\<lambda>parsed.
     let rows = toSorted (\<lambda>left right. lc (dl_memberId left) (dl_memberId right)) parsed in
     bindr (unique_ids (map dl_memberId rows) ''recusal delivery members'') (\<lambda>_.
     bindr (unique_ids (map dl_noticeId rows) ''recusal notice IDs'') (\<lambda>_.
     bindr (unique_ids (map dl_feedId rows) ''recusal feed IDs'') (\<lambda>_.
     bindr (unique_ids (map dl_noticeAuditEventId rows) ''recusal notice audit IDs'') (\<lambda>_. Inr rows)))))"

record RecusalRequest = VoteActionRequest +
  rq_reason :: jstring
  rq_stages :: "VoteStageReplacementInput list"
  rq_proxies :: "VoteProxyReplacementInput list"
  rq_ballots :: "VoteBallotReplacementInput list"
  rq_tombstones :: "VoteRecusalTombstoneInput list"
  rq_deliveries :: "VoteRecusalDeliveryInput list"

definition recusal_generated_ids ::
    "ManageVoteRecusalInput \<Rightarrow> VoteStageReplacementInput list \<Rightarrow> VoteProxyReplacementInput list \<Rightarrow>
     VoteBallotReplacementInput list \<Rightarrow> VoteRecusalTombstoneInput list \<Rightarrow> VoteRecusalDeliveryInput list \<Rightarrow> jstring list" where
  "recusal_generated_ids i stages proxies ballots tombstones deliveries =
     [mi_exclusionId i, mi_idempotencyRecordId i, mi_auditEventId i] @
     concat (map (\<lambda>s. [sd_stageId s, sd_auditEventId s]) stages) @
     concat (map (\<lambda>p. [pd_proxyGrantId p, pd_proxyRevocationId p, pd_auditEventId p]) proxies) @
     concat (map (\<lambda>b. [bd_ballotId b, bd_ballotDispositionId b, bd_auditEventId b]) ballots) @
     concat (map (\<lambda>t. [td_removedFeedId t, td_tombstoneId t]) tombstones) @
     concat (map (\<lambda>d. [dl_noticeId d, dl_feedId d, dl_noticeAuditEventId d]) deliveries)"

definition recusal_request_json :: "ManageVoteRecusalInput \<Rightarrow> jstring \<Rightarrow> jstring \<Rightarrow> json" where
  "recusal_request_json i reason consentPayloadSha256 = JObj
     [(lit ''schemaVersion'', jstr ''boardagent.vote-recusal-request.v1''),
      (lit ''organizationId'', JStr (mi_organizationId i)), (lit ''voteId'', JStr (mi_voteId i)),
      (lit ''memberId'', JStr (mi_memberId i)), (lit ''state'', JStr (recusalState_name (mi_state i))),
      (lit ''exclusionId'', JStr (mi_exclusionId i)), (lit ''reason'', JStr reason),
      (lit ''decisionPackageSha256'', JStr (mi_decisionPackageSha256 i)),
      (lit ''consentPayloadSha256'', JStr consentPayloadSha256),
      (lit ''consentRecordId'', JStr (mi_consentRecordId i))]"

definition recusal_consent_sha :: "platform \<Rightarrow> ManageVoteRecusalInput \<Rightarrow> jstring \<Rightarrow> jstring result" where
  "recusal_consent_sha pl i reason =
     (case mi_boardCause i of
        Some cause \<Rightarrow> parse_sha (bc_payloadSha256 cause)
      | None \<Rightarrow> voteRecusalConsentHash pl \<lparr>vr_voteId = mi_voteId i, vr_memberId = mi_memberId i, vr_state = mi_state i,
          vr_reason = reason, vr_packageSha256 = mi_decisionPackageSha256 i\<rparr>)"

definition recusal_request ::
    "platform \<Rightarrow> (jstring \<Rightarrow> jstring \<Rightarrow> int) \<Rightarrow> TxEnv \<Rightarrow> ManageVoteRecusalInput \<Rightarrow> RecusalRequest result" where
  "recusal_request pl lc env i =
     bindr (parse_id (mi_organizationId i)) (\<lambda>_.
     bindr (parse_id (mi_voteId i)) (\<lambda>_.
     bindr (parse_id (mi_memberId i)) (\<lambda>_.
     bindr (parse_sha (mi_decisionPackageSha256 i)) (\<lambda>_.
     bindr (mapr parse_id [mi_exclusionId i, mi_consentRecordId i, mi_idempotencyRecordId i, mi_auditEventId i]) (\<lambda>_.
     bindr (validateIdempotencyKey (mi_idempotencyKey i)) (\<lambda>_.
     bindr (canonical_string pl (mi_reason i)) (\<lambda>reason.
     if length reason < 1 \<or> 65536 < length reason
       then throw (RangeError ''recusal reason must contain 1 through 65536 characters'')
     else
     bindr (normalizeStages lc (mi_stageDispositions i)) (\<lambda>stages.
     bindr (normalizeProxies lc (mi_proxyDispositions i)) (\<lambda>proxies.
     bindr (normalizeBallots lc (mi_ballotDispositions i)) (\<lambda>ballots.
     bindr (normalizeTombstones lc (mi_feedTombstones i)) (\<lambda>tombstones.
     bindr (normalizeDeliveries lc (mi_deliveries i)) (\<lambda>deliveries.
     let ids = recusal_generated_ids i stages proxies ballots tombstones deliveries in
     if length (js_set ids) \<noteq> length ids then throw (TypeError ''recusal generated IDs must be globally unique'')
     else
     bindr (recusal_consent_sha pl i reason) (\<lambda>consentPayloadSha256.
     bindr (canonicalSha256 pl (recusal_request_json i reason consentPayloadSha256)) (\<lambda>requestSha256.
     bindr (readRequestContext env) (\<lambda>cx.
     if cx_organizationId cx \<noteq> mi_organizationId i then throw (unavailable ''vote_recusal'' ''vote recusal'')
     else Inr \<lparr>vq_context = cx, vq_consentSha256 = consentPayloadSha256, vq_requestSha256 = requestSha256,
       rq_reason = reason, rq_stages = stages, rq_proxies = proxies, rq_ballots = ballots,
       rq_tombstones = tombstones, rq_deliveries = deliveries\<rparr>)))))))))))))))"

section \<open>Admission\<close>

record LockedRecusalRow =
  lk_vote :: VoteRow
  lk_electorateWeight :: int
  lk_current :: "ExclusionRow option"
  lk_actorReady :: bool
  lk_consentValid :: bool

definition recusal_consent_valid ::
    "TxEnv \<Rightarrow> VoteStore \<Rightarrow> ActiveRequestContext \<Rightarrow> VoteRow \<Rightarrow> jstring \<Rightarrow> jstring \<Rightarrow> jstring \<Rightarrow> bool" where
  "recusal_consent_valid env st cx v memberId consentRecordId payloadSha256 \<longleftrightarrow>
     list_ex (\<lambda>c. cr_boardId c = Some (vo_boardId v) \<and>
       list_ex (\<lambda>s. list_ex (consent_matches cx
           \<lparr>cs_consentRecordId = consentRecordId, cs_actionCode = lit ''manage_recusal'', cs_targetType = lit ''vote'',
            cs_targetId = vo_id v, cs_payloadSha256 = payloadSha256, cs_packageSha256 = vo_packageSha256 v\<rparr> c s)
         (st_attempts st)) (st_stages st)) (st_consents st) \<or>
     list_ex (\<lambda>c. cr_id c = consentRecordId \<and> cr_payloadSha256 c = payloadSha256 \<and>
       tx_boardRecusalConfirmed env consentRecordId memberId (vo_id v)) (st_consents st)"

definition lock_vote_for_recusal ::
    "TxEnv \<Rightarrow> VoteStore \<Rightarrow> ActiveRequestContext \<Rightarrow> jstring \<Rightarrow> jstring \<Rightarrow> jstring \<Rightarrow> jstring \<Rightarrow> LockedRecusalRow list" where
  "lock_vote_for_recusal env st cx voteId memberId consentRecordId payloadSha256 =
     concat (map (\<lambda>v. map (\<lambda>e.
         \<lparr>lk_vote = v, lk_electorateWeight = el_votingWeight e, lk_current = current_exclusion st voteId memberId,
          lk_actorReady = tx_voteActorReady env (vo_boardId v),
          lk_consentValid = recusal_consent_valid env st cx v memberId consentRecordId payloadSha256\<rparr>)
         (filter (\<lambda>e. el_voteId e = vo_id v \<and> el_memberId e = memberId) (st_electorate st)))
       (filter (\<lambda>v. vo_id v = voteId \<and> vo_organizationId v = cx_organizationId cx \<and> tx_boardAllowed env (vo_boardId v) \<and>
          tx_targetActive env (vo_organizationId v) (vo_boardId v) memberId) (st_votes st)))"

text \<open>The state last requested for the member on this vote alone, not by a recusal of the board.\<close>

definition manual_state :: "VoteStore \<Rightarrow> jstring \<Rightarrow> jstring \<Rightarrow> RecusalState option" where
  "manual_state st voteId memberId =
     map_option (\<lambda>x. case xr_requestedState x of Some s \<Rightarrow> s | None \<Rightarrow> xr_state x)
       (fold later_exclusion (filter (\<lambda>x. xr_voteId x = voteId \<and> xr_memberId x = memberId \<and>
          xr_sourceBoardExclusionId x = None) (st_exclusions st)) None)"

definition active_stages :: "VoteStore \<Rightarrow> jstring \<Rightarrow> jstring \<Rightarrow> jstring \<Rightarrow> jstring \<Rightarrow> StageRow list" where
  "active_stages st organizationId boardId voteId memberId = sort_key sr_id (filter (\<lambda>s.
     sr_organizationId s = organizationId \<and> sr_boardId s = Some boardId \<and> sr_targetType s = lit ''vote'' \<and>
     sr_targetId s = Some voteId \<and> sr_state s = stage_active \<and>
     (sr_actorMemberId s = memberId \<or> sr_actingForMemberId s = Some memberId)) (st_stages st))"

definition active_proxies :: "VoteStore \<Rightarrow> jstring \<Rightarrow> jstring \<Rightarrow> jstring \<Rightarrow> jstring \<Rightarrow> GrantRow list" where
  "active_proxies st organizationId boardId voteId memberId = sort_key gr_id (filter (\<lambda>g.
     gr_organizationId g = organizationId \<and> gr_boardId g = boardId \<and> gr_voteId g = voteId \<and>
     (gr_principalMemberId g = memberId \<or> gr_holderMemberId g = memberId) \<and>
     \<not> list_ex (\<lambda>r. rv_grantId r = gr_id g) (st_revocations st)) (st_grants st))"

definition active_ballots :: "VoteStore \<Rightarrow> jstring \<Rightarrow> jstring \<Rightarrow> jstring \<Rightarrow> jstring \<Rightarrow> BallotRow list" where
  "active_ballots st organizationId boardId voteId memberId = sort_key br_id (filter (\<lambda>b.
     br_organizationId b = organizationId \<and> br_boardId b = boardId \<and> br_voteId b = voteId \<and>
     (br_principalMemberId b = memberId \<or> br_source b = proxy_ballot \<and> br_casterMemberId b = memberId) \<and>
     \<not> has_disposition st b) (st_ballots st))"

definition pending_feeds :: "VoteStore \<Rightarrow> jstring \<Rightarrow> jstring \<Rightarrow> jstring \<Rightarrow> jstring \<Rightarrow> FeedRow list" where
  "pending_feeds st organizationId boardId voteId memberId = sort_key fr_id (filter (\<lambda>f.
     fr_organizationId f = organizationId \<and> fr_boardId f = boardId \<and> fr_memberId f = memberId \<and>
     fr_objectType f = lit ''vote'' \<and> fr_objectId f = voteId \<and> fr_state f = feed_pending) (st_feed st))"

text \<open>The result of a replayed request, or an error when the record does not belong to this request.\<close>

datatype ManageVoteRecusalResult =
    RecusalReplayed int RecusalState jstring
  | RecusalManaged int RecusalState int jstring "AuditEvent list"

definition replayResult ::
    "IdempotencyRow option \<Rightarrow> jstring \<Rightarrow> jstring \<Rightarrow> int \<Rightarrow> RecusalState \<Rightarrow> ManageVoteRecusalResult option result" where
  "replayResult row requestSha256 exclusionId exclusionVersion state =
     (case row of
        None \<Rightarrow> Inr None
      | Some r \<Rightarrow>
          if \<not> safeHashEqual (ir_requestSha256 r) requestSha256
            then throw (Coded ''idempotency_conflict'' ''idempotency key was already used for a different recusal request'')
          else (case (ir_state r, ir_safeResponseSha256 r) of
              (idem_succeeded, Some h) \<Rightarrow>
                if ir_safeResponseId r = Some exclusionId then Inr (Some (RecusalReplayed exclusionVersion state h))
                else throw (Coded ''idempotency_in_progress'' ''identical recusal request is already in progress'')
            | _ \<Rightarrow> throw (Coded ''idempotency_in_progress'' ''identical recusal request is already in progress'')))"

record RecusalAdmission =
  ra_vote :: VoteRow
  ra_version :: int
  ra_state :: RecusalState
  ra_stages :: "StageRow list"
  ra_proxies :: "GrantRow list"
  ra_ballots :: "BallotRow list"
  ra_feeds :: "FeedRow list"
  ra_recipients :: "(jstring \<times> int) list"

datatype recusal_admission = RecusalReplay ManageVoteRecusalResult | RecusalAdmitted RecusalAdmission

definition effective_recusal :: "TxEnv \<Rightarrow> ManageVoteRecusalInput \<Rightarrow> RecusalState option \<Rightarrow> jstring \<Rightarrow> RecusalState" where
  "effective_recusal env i manual boardId =
     (if mi_state i = excluded_state \<or>
         (if mi_boardCause i \<noteq> None then manual = Some excluded_state else tx_boardRecused env boardId (mi_memberId i))
        then excluded_state else lifted_state)"

definition recusal_admit ::
    "TxEnv \<Rightarrow> VoteStore \<Rightarrow> ManageVoteRecusalInput \<Rightarrow> RecusalRequest \<Rightarrow> recusal_admission result" where
  "recusal_admit env st i q =
     (let cx = vq_context q; no = unavailable ''vote_recusal'' ''vote recusal'';
          org = mi_organizationId i; voteId = mi_voteId i; memberId = mi_memberId i in
      case lock_vote_for_recusal env st cx voteId memberId (mi_consentRecordId i) (vq_consentSha256 q) of
        [locked] \<Rightarrow>
          let vote = lk_vote locked; board = vo_boardId vote in
          if vo_organizationId vote \<noteq> org \<or> \<not> lk_actorReady locked \<or> \<not> lk_consentValid locked \<or>
             \<not> safeHashEqual (vo_packageSha256 vote) (mi_decisionPackageSha256 i)
            then throw no
          else
          let manual = manual_state st voteId memberId;
              state = effective_recusal env i manual board;
              currentVersion = (case lk_current locked of None \<Rightarrow> 0 | Some x \<Rightarrow> xr_version x);
              exclusionVersion = currentVersion + 1 in
          if mi_boardCause i = None \<and> manual = Some (mi_state i)
            then if map_option xr_id (lk_current locked) \<noteq> Some (mi_exclusionId i)
                   then throw (Coded ''vote_recusal_invalid'' ''member already has a different current recusal state record'')
                 else bindr (replayResult (readIdempotency st (cx_memberId cx) (cx_clientId cx) (lit ''manage_recusal'')
                     (mi_idempotencyKey i)) (vq_requestSha256 q) (mi_exclusionId i) currentVersion state) (\<lambda>replayed.
                   case replayed of
                     None \<Rightarrow> throw (Coded ''vote_recusal_unavailable'' ''recusal replay evidence is unavailable'')
                   | Some r \<Rightarrow> Inr (RecusalReplay r))
          else if vo_state vote \<notin> {vote_open, vote_source_update_pending} \<or>
              mi_boardCause i = None \<and> mi_state i = lifted_state \<and> manual \<noteq> Some excluded_state
            then throw (Coded ''vote_recusal_invalid'' ''requested recusal transition is not available'')
          else
          let stages = active_stages st org board voteId memberId;
              proxies = active_proxies st org board voteId memberId;
              ballots = active_ballots st org board voteId memberId;
              feeds = pending_feeds st org board voteId memberId in
          if map sr_id stages \<noteq> map sd_stageId (rq_stages q) \<or>
             map gr_id proxies \<noteq> map pd_proxyGrantId (rq_proxies q) \<or>
             map br_id ballots \<noteq> map bd_ballotId (rq_ballots q) \<or>
             map fr_id feeds \<noteq> map td_removedFeedId (rq_tombstones q)
            then throw (Coded ''vote_recusal_invalid'' ''recusal dispositions do not cover every current affected projection'')
          else
          let recipients = tx_recusalRecipients env voteId memberId state (mi_boardCause i \<noteq> None \<and> mi_state i = lifted_state) in
          if map fst recipients \<noteq> map dl_memberId (rq_deliveries q)
            then throw (Coded ''vote_recusal_recipient_invalid''
              ''recusal deliveries must cover every current entitled recipient exactly once'')
          else Inr (RecusalAdmitted \<lparr>ra_vote = vote, ra_version = exclusionVersion, ra_state = state, ra_stages = stages,
            ra_proxies = proxies, ra_ballots = ballots, ra_feeds = feeds, ra_recipients = recipients\<rparr>)
      | _ \<Rightarrow> throw no)"

section \<open>The writes\<close>

text \<open>A loop that runs a statement for each element and stops at the first error.\<close>

fun for_each :: "('a \<Rightarrow> 's \<Rightarrow> 's result) \<Rightarrow> 'a list \<Rightarrow> 's \<Rightarrow> 's result" where
  "for_each f [] s = Inr s"
| "for_each f (x # xs) s = bindr (f x s) (for_each f xs)"

definition new_exclusion :: "ManageVoteRecusalInput \<Rightarrow> RecusalRequest \<Rightarrow> RecusalAdmission \<Rightarrow> ExclusionRow" where
  "new_exclusion i q a =
     \<lparr>xr_id = mi_exclusionId i, xr_organizationId = mi_organizationId i, xr_boardId = vo_boardId (ra_vote a),
      xr_voteId = mi_voteId i, xr_memberId = mi_memberId i, xr_version = ra_version a, xr_state = ra_state a,
      xr_reason = rq_reason q, xr_actorMemberId = cx_memberId (vq_context q), xr_requestedState = Some (mi_state i),
      xr_sourceBoardExclusionId = map_option bc_exclusionId (mi_boardCause i), xr_consentRecordId = mi_consentRecordId i\<rparr>"

definition replace_stage :: "StageRow \<times> VoteStageReplacementInput \<Rightarrow> VoteStore \<Rightarrow> VoteStore result" where
  "replace_stage = (\<lambda>(row, d) st.
     let (rows, n) = update_rows (\<lambda>s. sr_id s = sr_id row \<and> sr_state s = stage_active)
           (\<lambda>s. s\<lparr>sr_state := stage_replaced\<rparr>) (st_stages st) in
     if n \<noteq> 1 \<or> sr_id row \<noteq> sd_stageId d
       then throw (Coded ''vote_recusal_unavailable'' ''an affected stage changed during recusal'')
     else Inr (st\<lparr>st_stages := rows\<rparr>))"

definition recusal_revocation ::
    "ManageVoteRecusalInput \<Rightarrow> RecusalRequest \<Rightarrow> GrantRow \<times> VoteProxyReplacementInput \<Rightarrow> RevocationRow" where
  "recusal_revocation i q = (\<lambda>(proxy, d).
     \<lparr>rv_id = pd_proxyRevocationId d, rv_grantId = gr_id proxy, rv_revokerMemberId = cx_memberId (vq_context q),
      rv_reason = rq_reason q, rv_consentRecordId = mi_consentRecordId i\<rparr>)"

definition revoke_grant ::
    "ManageVoteRecusalInput \<Rightarrow> RecusalRequest \<Rightarrow> GrantRow \<times> VoteProxyReplacementInput \<Rightarrow> VoteStore \<Rightarrow> VoteStore result" where
  "revoke_grant i q x st =
     bindr (insert_row revocation_clash (recusal_revocation i q x) (st_revocations st)) (\<lambda>rows.
     Inr (st\<lparr>st_revocations := rows\<rparr>))"

definition invalidation :: "RecusalRequest \<Rightarrow> BallotRow \<times> VoteBallotReplacementInput \<Rightarrow> DispositionRow" where
  "invalidation q = (\<lambda>(ballot, d).
     \<lparr>dr_id = bd_ballotDispositionId d, dr_priorBallotId = br_id ballot, dr_supersedingBallotId = None,
      dr_reason = rq_reason q, dr_effect = invalidated_by_recusal, dr_auditEventId = bd_auditEventId d\<rparr>)"

definition invalidate_ballot ::
    "RecusalRequest \<Rightarrow> BallotRow \<times> VoteBallotReplacementInput \<Rightarrow> VoteStore \<Rightarrow> VoteStore result" where
  "invalidate_ballot q x st =
     bindr (insert_row disposition_clash (invalidation q x) (st_dispositions st)) (\<lambda>rows.
     Inr (st\<lparr>st_dispositions := rows\<rparr>))"

definition recusal_advance :: "RecusalAdmission \<Rightarrow> VoteStore \<Rightarrow> (int \<times> VoteStore) result" where
  "recusal_advance a st =
     (let (rows, n) = update_rows
            (\<lambda>v. vo_id v = vo_id (ra_vote a) \<and> vo_rowVersion v = vo_rowVersion (ra_vote a) \<and>
               vo_state v \<in> {vote_open, vote_source_update_pending})
            (\<lambda>v. v\<lparr>vo_rowVersion := vo_rowVersion v + 1\<rparr>) (st_votes st) in
      if n \<noteq> 1 then throw (Coded ''vote_recusal_unavailable'' ''vote changed during recusal'')
      else Inr (vo_rowVersion (ra_vote a) + 1, st\<lparr>st_votes := rows\<rparr>))"

definition tombstone_json :: "ManageVoteRecusalInput \<Rightarrow> RecusalAdmission \<Rightarrow> FeedRow \<Rightarrow> json" where
  "tombstone_json i a feed = JObj
     [(lit ''schemaVersion'', jstr ''boardagent.feed-tombstone.v1''), (lit ''removedFeedId'', JStr (fr_id feed)),
      (lit ''voteId'', JStr (mi_voteId i)), (lit ''memberId'', JStr (mi_memberId i)),
      (lit ''exclusionId'', JStr (mi_exclusionId i)), (lit ''exclusionVersion'', JNum (ra_version a)),
      (lit ''reasonClass'', jstr ''recused'')]"

definition remove_feed ::
    "platform \<Rightarrow> TxEnv \<Rightarrow> ManageVoteRecusalInput \<Rightarrow> RecusalAdmission \<Rightarrow> FeedRow \<times> VoteRecusalTombstoneInput \<Rightarrow>
     VoteStore \<Rightarrow> VoteStore result" where
  "remove_feed pl env i a = (\<lambda>(feed, t) st.
     let (feeds, n) = update_rows (\<lambda>f. fr_id f = fr_id feed \<and> fr_state f = feed_pending)
           (\<lambda>f. f\<lparr>fr_state := feed_superseded, fr_resolvedAt := Some (tx_now env)\<rparr>) (st_feed st) in
     if n \<noteq> 1 then throw (Coded ''vote_recusal_unavailable'' ''an affected feed changed during recusal'')
     else
     bindr (canonicalSha256 pl (tombstone_json i a feed)) (\<lambda>sha.
     bindr (insert_row tombstone_clash
         \<lparr>tr_id = td_tombstoneId t, tr_organizationId = mi_organizationId i, tr_boardId = vo_boardId (ra_vote a),
          tr_memberId = mi_memberId i, tr_entitlementGeneration = fr_entitlementGeneration feed,
          tr_feedSequence = fr_feedSequence feed, tr_removedFeedId = fr_id feed, tr_objectType = lit ''vote'',
          tr_objectId = mi_voteId i, tr_reasonClass = lit ''recused'', tr_tombstoneSha256 = sha,
          tr_auditEventId = mi_auditEventId i\<rparr> (st_tombstones st)) (\<lambda>tombstones.
     Inr (st\<lparr>st_feed := feeds, st_tombstones := tombstones\<rparr>))))"

definition recusal_seats :: "VoteStore \<Rightarrow> jstring \<Rightarrow> ElectorSeat list" where
  "recusal_seats st voteId =
     map (\<lambda>e. \<lparr>es_memberId = el_memberId e, es_role = voting_member, es_weight = el_votingWeight e, es_eligible = True,
         es_recused = is_excluded st voteId (el_memberId e), es_chair = False\<rparr>)
       (sort_key el_memberId (filter (\<lambda>e. el_voteId e = voteId) (st_electorate st)))"

definition stage_replaced_event ::
    "ManageVoteRecusalInput \<Rightarrow> RecusalRequest \<Rightarrow> RecusalAdmission \<Rightarrow> StageRow \<times> VoteStageReplacementInput \<Rightarrow> AuditAppendInput" where
  "stage_replaced_event i q a = (\<lambda>(stage, d).
     \<lparr>ai_organizationId = mi_organizationId i,
      ai_event = mcp_event (sd_auditEventId d) ''stage_replaced'' (vq_context q) ''action_stage'' (sr_id stage)
        (vo_boardId (ra_vote a))
        [(lit ''voteId'', JStr (mi_voteId i)), (lit ''memberId'', JStr (mi_memberId i)),
         (lit ''reason'', jstr ''live_recusal'')],
      ai_actingForMemberId = None, ai_consentRecordId = Some (mi_consentRecordId i), ai_objectVersion = None\<rparr>)"

definition proxy_revoked_event ::
    "ManageVoteRecusalInput \<Rightarrow> RecusalRequest \<Rightarrow> RecusalAdmission \<Rightarrow> GrantRow \<times> VoteProxyReplacementInput \<Rightarrow> AuditAppendInput" where
  "proxy_revoked_event i q a = (\<lambda>(proxy, d).
     \<lparr>ai_organizationId = mi_organizationId i,
      ai_event = mcp_event (pd_auditEventId d) ''proxy_revoked'' (vq_context q) ''proxy_grant'' (gr_id proxy)
        (vo_boardId (ra_vote a))
        [(lit ''voteId'', JStr (mi_voteId i)), (lit ''memberId'', JStr (mi_memberId i)),
         (lit ''effect'', jstr ''revoked_by_recusal'')],
      ai_actingForMemberId = Some (gr_principalMemberId proxy), ai_consentRecordId = Some (mi_consentRecordId i),
      ai_objectVersion = None\<rparr>)"

definition ballot_invalidated_event ::
    "ManageVoteRecusalInput \<Rightarrow> RecusalRequest \<Rightarrow> RecusalAdmission \<Rightarrow> BallotRow \<times> VoteBallotReplacementInput \<Rightarrow> AuditAppendInput" where
  "ballot_invalidated_event i q a = (\<lambda>(ballot, d).
     \<lparr>ai_organizationId = mi_organizationId i,
      ai_event = mcp_event (bd_auditEventId d) ''ballot_superseded'' (vq_context q) ''ballot'' (br_id ballot)
        (vo_boardId (ra_vote a))
        [(lit ''voteId'', JStr (mi_voteId i)), (lit ''memberId'', JStr (mi_memberId i)),
         (lit ''effect'', jstr ''invalidated_by_recusal'')],
      ai_actingForMemberId = (if br_principalMemberId ballot = br_casterMemberId ballot then None
        else Some (br_principalMemberId ballot)),
      ai_consentRecordId = Some (mi_consentRecordId i), ai_objectVersion = None\<rparr>)"

definition recusal_changed_event ::
    "ManageVoteRecusalInput \<Rightarrow> RecusalRequest \<Rightarrow> RecusalAdmission \<Rightarrow> int \<Rightarrow> int \<Rightarrow> AuditAppendInput" where
  "recusal_changed_event i q a version eligibleWeight =
     \<lparr>ai_organizationId = mi_organizationId i,
      ai_event = mcp_event (mi_auditEventId i) ''recusal_changed'' (vq_context q) ''vote'' (mi_voteId i)
        (vo_boardId (ra_vote a))
        [(lit ''memberId'', JStr (mi_memberId i)), (lit ''exclusionId'', JStr (mi_exclusionId i)),
         (lit ''exclusionVersion'', JNum (ra_version a)), (lit ''state'', JStr (recusalState_name (ra_state a))),
         (lit ''reason'', JStr (rq_reason q)), (lit ''decisionPackageId'', JStr (vo_packageId (ra_vote a))),
         (lit ''packageSha256'', JStr (mi_decisionPackageSha256 i)),
         (lit ''eligibleWeight'', JStr (dec_int eligibleWeight)),
         (lit ''invalidatedStageCount'', JNum (int (length (rq_stages q)))),
         (lit ''invalidatedProxyCount'', JNum (int (length (rq_proxies q)))),
         (lit ''invalidatedBallotCount'', JNum (int (length (rq_ballots q)))),
         (lit ''tombstoneCount'', JNum (int (length (rq_tombstones q))))],
      ai_actingForMemberId = None, ai_consentRecordId = Some (mi_consentRecordId i), ai_objectVersion = Some version\<rparr>"

definition recusal_safe_refs :: "ManageVoteRecusalInput \<Rightarrow> RecusalAdmission \<Rightarrow> int \<Rightarrow> (jstring \<times> json) list" where
  "recusal_safe_refs i a eligibleWeight =
     [(lit ''voteId'', JStr (mi_voteId i)), (lit ''memberId'', JStr (mi_memberId i)),
      (lit ''decisionPackageId'', JStr (vo_packageId (ra_vote a))),
      (lit ''packageSha256'', JStr (mi_decisionPackageSha256 i)), (lit ''exclusionId'', JStr (mi_exclusionId i)),
      (lit ''exclusionVersion'', JNum (ra_version a)), (lit ''eligibleWeight'', JNum eligibleWeight)]"

definition recusal_delta ::
    "TxEnv \<Rightarrow> ManageVoteRecusalInput \<Rightarrow> RecusalAdmission \<Rightarrow> int \<Rightarrow> int \<Rightarrow> int \<Rightarrow> int \<Rightarrow> bool \<Rightarrow> PendingActionDelta" where
  "recusal_delta env i a version eligibleWeight generation sequence actionRequired =
     \<lparr>pa_sequence = dec_int sequence,
      pa_deltaType = (if actionRequired then delta_action_required else delta_notice), pa_objectType = lit ''vote'',
      pa_objectId = mi_voteId i, pa_objectVersion = version, pa_entitlementGeneration = generation,
      pa_actionState = (if actionRequired then action_pending else action_informational),
      pa_changedComponentClasses = None, pa_safeRefs = recusal_safe_refs i a eligibleWeight,
      pa_createdAt = tx_nowText env\<rparr>"

definition notice_delivered_event ::
    "ManageVoteRecusalInput \<Rightarrow> RecusalRequest \<Rightarrow> RecusalAdmission \<Rightarrow> int \<Rightarrow> int \<Rightarrow> VoteRecusalDeliveryInput \<Rightarrow> int \<Rightarrow> bool \<Rightarrow>
     AuditAppendInput" where
  "notice_delivered_event i q a version eligibleWeight d sequence actionRequired =
     \<lparr>ai_organizationId = mi_organizationId i,
      ai_event = mcp_event (dl_noticeAuditEventId d) ''notice_delivered'' (vq_context q) ''vote'' (mi_voteId i)
        (vo_boardId (ra_vote a))
        ([(lit ''noticeType'', jstr ''recusal_changed''), (lit ''recipientMemberId'', JStr (dl_memberId d)),
          (lit ''feedSequence'', JStr (dec_int sequence)), (lit ''recusalState'', JStr (recusalState_name (ra_state a))),
          (lit ''actionRequired'', JBool actionRequired)] @ recusal_safe_refs i a eligibleWeight),
      ai_actingForMemberId = None, ai_consentRecordId = Some (mi_consentRecordId i), ai_objectVersion = Some version\<rparr>"

definition recusal_notice_json ::
    "ManageVoteRecusalInput \<Rightarrow> RecusalAdmission \<Rightarrow> int \<Rightarrow> VoteRecusalDeliveryInput \<Rightarrow> json" where
  "recusal_notice_json i a eligibleWeight d = JObj
     ([(lit ''noticeType'', jstr ''recusal_changed''), (lit ''recipientMemberId'', JStr (dl_memberId d)),
       (lit ''state'', JStr (recusalState_name (ra_state a)))] @ recusal_safe_refs i a eligibleWeight)"

definition recusal_visibility_json ::
    "ManageVoteRecusalInput \<Rightarrow> RecusalAdmission \<Rightarrow> VoteRecusalDeliveryInput \<Rightarrow> int \<Rightarrow> json" where
  "recusal_visibility_json i a d generation = JObj
     [(lit ''boardId'', JStr (vo_boardId (ra_vote a))), (lit ''voteId'', JStr (mi_voteId i)),
      (lit ''recipientMemberId'', JStr (dl_memberId d)), (lit ''entitlementGeneration'', JNum generation)]"

text \<open>One delivery: the notice, the feed row and the audit event of a recipient.\<close>

definition deliver_recusal ::
    "platform \<Rightarrow> TxEnv \<Rightarrow> ManageVoteRecusalInput \<Rightarrow> RecusalRequest \<Rightarrow> RecusalAdmission \<Rightarrow> int \<Rightarrow> int \<Rightarrow>
     VoteRecusalDeliveryInput \<Rightarrow> VoteStore \<times> AuditAppendInput list \<Rightarrow> (VoteStore \<times> AuditAppendInput list) result" where
  "deliver_recusal pl env i q a version eligibleWeight d = (\<lambda>(st, audit).
     case map_of (rev (ra_recipients a)) (dl_memberId d) of
       None \<Rightarrow> throw (TypeError ''Cannot read properties of undefined'')
     | Some generation \<Rightarrow>
     if \<not> isSafeInteger generation \<or> generation < 1
       then throw (Error ''recusal recipient entitlement generation is invalid'')
     else
     let actionRequired = ra_state a = lifted_state \<and> dl_memberId d = mi_memberId i; board = vo_boardId (ra_vote a) in
     bindr (nextFeedSequence st board (dl_memberId d)) (\<lambda>sequence.
     if \<not> isSafeInteger eligibleWeight
       then throw (Error ''recusal eligible weight exceeds the safe feed reference range'')
     else
     bindr (zparse PendingActionDeltaSchema (recusal_delta env i a version eligibleWeight generation sequence actionRequired)) (\<lambda>delta.
     bindr (canonicalSha256 pl (recusal_notice_json i a eligibleWeight d)) (\<lambda>noticeSha256.
     bindr (canonicalSha256 pl (recusal_visibility_json i a d generation)) (\<lambda>visibilitySha256.
     bindr (insert_row notice_clash
         \<lparr>nr_id = dl_noticeId d, nr_organizationId = mi_organizationId i, nr_boardId = board,
          nr_noticeType = lit ''recusal_changed'', nr_objectType = lit ''vote'', nr_objectId = mi_voteId i,
          nr_objectVersion = version, nr_recipientMemberId = dl_memberId d, nr_contentSha256 = noticeSha256,
          nr_feedSequence = sequence, nr_auditEventId = dl_noticeAuditEventId d\<rparr> (st_notices st)) (\<lambda>notices.
     bindr (canonicalJson pl (pending_action_json delta)) (\<lambda>canonicalPayload.
     bindr (canonicalSha256 pl (pending_action_json delta)) (\<lambda>payloadSha256.
     bindr (insert_row feed_clash
         \<lparr>fr_id = dl_feedId d, fr_organizationId = mi_organizationId i, fr_boardId = board, fr_memberId = dl_memberId d,
          fr_entitlementGeneration = generation, fr_feedSequence = sequence, fr_actionType = lit ''recusal_changed'',
          fr_objectType = lit ''vote'', fr_objectId = mi_voteId i, fr_objectVersion = version,
          fr_visibilitySha256 = visibilitySha256, fr_canonicalPayload = canonicalPayload,
          fr_payloadSha256 = payloadSha256, fr_state = (if actionRequired then feed_pending else feed_resolved),
          fr_noticeId = Some (dl_noticeId d), fr_auditEventId = dl_noticeAuditEventId d,
          fr_resolvedAt = (if actionRequired then None else Some (tx_now env))\<rparr> (st_feed st)) (\<lambda>feed.
     Inr (st\<lparr>st_notices := notices, st_feed := feed\<rparr>,
          audit @ [notice_delivered_event i q a version eligibleWeight d sequence actionRequired]))))))))))"

definition recusal_response_json :: "ManageVoteRecusalInput \<Rightarrow> RecusalAdmission \<Rightarrow> int \<Rightarrow> json" where
  "recusal_response_json i a eligibleWeight = JObj
     [(lit ''voteId'', JStr (mi_voteId i)), (lit ''memberId'', JStr (mi_memberId i)),
      (lit ''exclusionId'', JStr (mi_exclusionId i)), (lit ''exclusionVersion'', JNum (ra_version a)),
      (lit ''state'', JStr (recusalState_name (ra_state a))), (lit ''eligibleWeight'', JStr (dec_int eligibleWeight))]"

definition finish_recusal :: "ManageVoteRecusalInput \<Rightarrow> ActiveRequestContext \<Rightarrow> jstring \<Rightarrow> VoteStore \<Rightarrow> VoteStore result" where
  "finish_recusal i cx responseSha256 st =
     (let (rows, n) = update_rows (\<lambda>r. ir_actorMemberId r = cx_memberId cx \<and> ir_clientId r = cx_clientId cx \<and>
            ir_operation r = lit ''manage_recusal'' \<and> ir_key r = mi_idempotencyKey i \<and> ir_state r = idem_in_progress)
            (\<lambda>r. r\<lparr>ir_state := idem_succeeded, ir_safeResponseId := Some (mi_exclusionId i),
               ir_safeResponseSha256 := Some responseSha256\<rparr>) (st_idempotency st) in
      if n \<noteq> 1 then throw (Error ''recusal idempotency completion failed'')
      else Inr (st\<lparr>st_idempotency := rows\<rparr>))"

text \<open>The statements from the insert of the exclusion to the removal of the pending feed rows.\<close>

definition recusal_dispositions ::
    "platform \<Rightarrow> TxEnv \<Rightarrow> ManageVoteRecusalInput \<Rightarrow> RecusalRequest \<Rightarrow> RecusalAdmission \<Rightarrow> VoteStore \<Rightarrow> (int \<times> VoteStore) result" where
  "recusal_dispositions pl env i q a st =
     bindr (parse_nullable parse_id (map_option bc_exclusionId (mi_boardCause i))) (\<lambda>_.
     bindr (insert_row exclusion_clash (new_exclusion i q a) (st_exclusions st)) (\<lambda>exclusions.
     bindr (for_each replace_stage (zip (ra_stages a) (rq_stages q)) (st\<lparr>st_exclusions := exclusions\<rparr>)) (\<lambda>st.
     bindr (for_each (revoke_grant i q) (zip (ra_proxies a) (rq_proxies q)) st) (\<lambda>st.
     bindr (for_each (invalidate_ballot q) (zip (ra_ballots a) (rq_ballots q)) st) (\<lambda>st.
     bindr (recusal_advance a st) (\<lambda>(version, st).
     bindr (for_each (remove_feed pl env i a) (zip (ra_feeds a) (rq_tombstones q)) st) (\<lambda>st.
     Inr (version, st))))))))"

definition recusal_write ::
    "platform \<Rightarrow> (jstring \<Rightarrow> jstring \<Rightarrow> int) \<Rightarrow> TxEnv \<Rightarrow> ManageVoteRecusalInput \<Rightarrow> RecusalRequest \<Rightarrow> RecusalAdmission \<Rightarrow>
     VoteStore \<Rightarrow> (ManageVoteRecusalResult \<times> VoteStore) result" where
  "recusal_write pl lc env i q a st =
     (let cx = vq_context q;
          record = new_idempotency (mi_idempotencyRecordId i) cx (lit ''manage_recusal'') (mi_idempotencyKey i) (vq_requestSha256 q);
          conflict = list_ex (same_idempotency_key record) (st_idempotency st) in
      bindr (if conflict then Inr (st_idempotency st)
             else insert_row (\<lambda>x y. ir_id x = ir_id y) record (st_idempotency st)) (\<lambda>rows.
      let existing = readIdempotency (st\<lparr>st_idempotency := rows\<rparr>) (cx_memberId cx) (cx_clientId cx) (lit ''manage_recusal'')
            (mi_idempotencyKey i) in
      if existing = None then throw (Error ''recusal idempotency record disappeared'')
      else
      bindr (if conflict then replayResult existing (vq_requestSha256 q) (mi_exclusionId i) (ra_version a) (ra_state a)
             else Inr None) (\<lambda>replayed.
      case replayed of Some r \<Rightarrow> Inr (r, st\<lparr>st_idempotency := rows\<rparr>)
      | None \<Rightarrow>
      bindr (recusal_dispositions pl env i q a (st\<lparr>st_idempotency := rows\<rparr>)) (\<lambda>(version, st).
      let seats = recusal_seats st (mi_voteId i) in
      if length seats < 1 then throw (Error ''recusal electorate disappeared during eligibility recomputation'')
      else
      bindr (eligibleVotingWeight seats) (\<lambda>eligibleWeight.
      let audit = map (stage_replaced_event i q a) (zip (ra_stages a) (rq_stages q)) @
            map (proxy_revoked_event i q a) (zip (ra_proxies a) (rq_proxies q)) @
            map (ballot_invalidated_event i q a) (zip (ra_ballots a) (rq_ballots q)) @
            [recusal_changed_event i q a version eligibleWeight] in
      bindr (for_each (deliver_recusal pl env i q a version eligibleWeight) (rq_deliveries q) (st, audit)) (\<lambda>(st, audit).
      bindr (appendAuditEventsInTransaction pl lc env audit st) (\<lambda>(events, st).
      bindr (canonicalSha256 pl (recusal_response_json i a eligibleWeight)) (\<lambda>responseSha256.
      bindr (finish_recusal i cx responseSha256 st) (\<lambda>st.
      Inr (RecusalManaged (ra_version a) (ra_state a) eligibleWeight responseSha256 events, st))))))))))"

definition manageVoteRecusalInTransaction ::
    "platform \<Rightarrow> (jstring \<Rightarrow> jstring \<Rightarrow> int) \<Rightarrow> TxEnv \<Rightarrow> ManageVoteRecusalInput \<Rightarrow> VoteStore \<Rightarrow>
     (ManageVoteRecusalResult \<times> VoteStore) result" where
  "manageVoteRecusalInTransaction pl lc env i st =
     bindr (recusal_request pl lc env i) (\<lambda>q.
     bindr (recusal_admit env st i q) (\<lambda>d.
     case d of
       RecusalReplay r \<Rightarrow> Inr (r, st)
     | RecusalAdmitted a \<Rightarrow> recusal_write pl lc env i q a st))"

section \<open>What the writes do\<close>

lemma for_each_rel:
  assumes "for_each f xs s = Inr s'" and "\<And>s. R s s" and "\<And>a b c. R a b \<Longrightarrow> R b c \<Longrightarrow> R a c"
    and "\<And>x s s'. f x s = Inr s' \<Longrightarrow> R s s'"
  shows "R s s'"
  using assms(1)
proof (induction xs arbitrary: s)
  case (Cons x xs)
  then obtain t where "f x s = Inr t" "for_each f xs t = Inr s'" by (auto simp: bindr_eq_Inr_iff)
  then show ?case using assms(3,4) Cons.IH by blast
qed (use assms(2) in simp)

definition stages_only :: "VoteStore \<Rightarrow> VoteStore \<Rightarrow> bool" where
  "stages_only st st' \<longleftrightarrow> st'\<lparr>st_stages := []\<rparr> = st\<lparr>st_stages := []\<rparr> \<and> confirmed_stages st \<subseteq> confirmed_stages st'"

lemma replace_stage_ok:
  assumes "replace_stage x st = Inr st'"
  shows "stages_only st st'"
proof -
  obtain row d where x: "x = (row, d)" by (cases x)
  let ?rows = "map (\<lambda>r. if sr_id r = sr_id row \<and> sr_state r = stage_active then r\<lparr>sr_state := stage_replaced\<rparr> else r) (st_stages st)"
  from assms have st': "st' = st\<lparr>st_stages := ?rows\<rparr>"
    by (auto simp: replace_stage_def x update_rows_def Let_def split: if_splits)
  have "s \<in> set ?rows" if "s \<in> set (st_stages st)" "sr_state s = stage_confirmed" for s
    using that by (force simp: image_iff)
  then show ?thesis by (auto simp: stages_only_def st')
qed

lemma replace_stages_ok: "for_each replace_stage xs st = Inr st' \<Longrightarrow> stages_only st st'"
proof (erule for_each_rel)
  show "stages_only a c" if "stages_only a b" "stages_only b c" for a b c
    using that by (auto simp: stages_only_def)
qed (simp_all add: stages_only_def replace_stage_ok [unfolded stages_only_def])

lemma for_each_fold: "for_each f xs s = Inr s' \<Longrightarrow> (\<And>x s s'. f x s = Inr s' \<Longrightarrow> s' = h x s) \<Longrightarrow> s' = fold h xs s"
proof (induction xs arbitrary: s)
  case (Cons x xs)
  then obtain t where "f x s = Inr t" "for_each f xs t = Inr s'" by (auto simp: bindr_eq_Inr_iff)
  then show ?case using Cons.prems(2) Cons.IH by (metis fold_simps(2))
qed simp

lemma revoke_grants_ok:
  assumes "for_each (revoke_grant i q) xs st = Inr st'"
  shows "st' = st\<lparr>st_revocations := st_revocations st @ map (recusal_revocation i q) xs\<rparr>"
proof -
  have "fold (\<lambda>x s. s\<lparr>st_revocations := st_revocations s @ [recusal_revocation i q x]\<rparr>) xs st =
      st\<lparr>st_revocations := st_revocations st @ map (recusal_revocation i q) xs\<rparr>"
    by (induction xs arbitrary: st) simp_all
  with for_each_fold [OF assms, of "\<lambda>x s. s\<lparr>st_revocations := st_revocations s @ [recusal_revocation i q x]\<rparr>"]
  show ?thesis by (simp add: revoke_grant_def bindr_eq_Inr_iff insert_row_Inr)
qed

lemma invalidate_ballots_ok:
  assumes "for_each (invalidate_ballot q) xs st = Inr st'"
  shows "st' = st\<lparr>st_dispositions := st_dispositions st @ map (invalidation q) xs\<rparr>"
proof -
  have "fold (\<lambda>x s. s\<lparr>st_dispositions := st_dispositions s @ [invalidation q x]\<rparr>) xs st =
      st\<lparr>st_dispositions := st_dispositions st @ map (invalidation q) xs\<rparr>"
    by (induction xs arbitrary: st) simp_all
  with for_each_fold [OF assms, of "\<lambda>x s. s\<lparr>st_dispositions := st_dispositions s @ [invalidation q x]\<rparr>"]
  show ?thesis by (simp add: invalidate_ballot_def bindr_eq_Inr_iff insert_row_Inr)
qed

lemma recusal_advance_ok:
  "recusal_advance a st = Inr (n, st') \<Longrightarrow> \<exists>votes. st' = st\<lparr>st_votes := votes\<rparr> \<and> versions_only (st_votes st) votes"
  by (auto simp: recusal_advance_def update_rows_def versions_only_def Let_def comp_def split: if_splits)

abbreviation without_feed :: "VoteStore \<Rightarrow> VoteStore" where
  "without_feed st \<equiv> st\<lparr>st_feed := [], st_notices := [], st_tombstones := []\<rparr>"

definition feed_only :: "VoteStore \<Rightarrow> VoteStore \<Rightarrow> bool" where
  "feed_only st st' \<longleftrightarrow> without_feed st' = without_feed st"

lemma feed_only_refl: "feed_only st st"
  by (simp add: feed_only_def)

lemma feed_only_trans: "feed_only a b \<Longrightarrow> feed_only b c \<Longrightarrow> feed_only a c"
  by (simp add: feed_only_def)

lemma feed_onlyD:
  assumes "feed_only st st'"
  shows "st_votes st' = st_votes st" "st_electorate st' = st_electorate st" "st_exclusions st' = st_exclusions st"
    "st_grants st' = st_grants st" "st_revocations st' = st_revocations st" "st_ballots st' = st_ballots st"
    "st_dispositions st' = st_dispositions st" "st_stages st' = st_stages st" "st_attempts st' = st_attempts st"
    "st_consents st' = st_consents st" "st_audit st' = st_audit st" "st_idempotency st' = st_idempotency st"
  using arg_cong [OF assms [unfolded feed_only_def], of st_votes] arg_cong [OF assms [unfolded feed_only_def], of st_electorate]
    arg_cong [OF assms [unfolded feed_only_def], of st_exclusions] arg_cong [OF assms [unfolded feed_only_def], of st_grants]
    arg_cong [OF assms [unfolded feed_only_def], of st_revocations] arg_cong [OF assms [unfolded feed_only_def], of st_ballots]
    arg_cong [OF assms [unfolded feed_only_def], of st_dispositions] arg_cong [OF assms [unfolded feed_only_def], of st_stages]
    arg_cong [OF assms [unfolded feed_only_def], of st_attempts] arg_cong [OF assms [unfolded feed_only_def], of st_consents]
    arg_cong [OF assms [unfolded feed_only_def], of st_audit] arg_cong [OF assms [unfolded feed_only_def], of st_idempotency]
  by simp_all

lemma remove_feeds_ok: "for_each (remove_feed pl env i a) xs st = Inr st' \<Longrightarrow> feed_only st st'"
proof (erule for_each_rel [OF _ feed_only_refl feed_only_trans])
  fix x s s'
  assume "remove_feed pl env i a x s = Inr s'"
  then obtain feed tombstones where "s' = s\<lparr>st_feed := feed, st_tombstones := tombstones\<rparr>"
    by (cases x) (auto simp: remove_feed_def Let_def bindr_eq_Inr_iff insert_row_Inr split: if_splits prod.splits)
  then show "feed_only s s'" by (simp add: feed_only_def)
qed assumption+

lemma deliveries_ok:
  assumes "for_each (deliver_recusal pl env i q a version w) ds (st, audit) = Inr (st', audit')"
  shows "feed_only st st'"
proof -
  have "feed_only (fst (st, audit)) (fst (st', audit'))"
    using assms
  proof (rule for_each_rel [where R = "\<lambda>s t. feed_only (fst s) (fst t)"])
    fix x s t
    assume d: "deliver_recusal pl env i q a version w x s = Inr t"
    obtain feed notices where "fst t = (fst s)\<lparr>st_notices := notices, st_feed := feed\<rparr>"
      using d by (cases s) (auto simp: deliver_recusal_def Let_def bindr_eq_Inr_iff split: option.splits if_splits)
    then show "feed_only (fst s) (fst t)" by (simp add: feed_only_def)
  qed (blast intro: feed_only_refl feed_only_trans)+
  then show ?thesis by simp
qed

lemma finish_recusal_ok: "finish_recusal i cx h st = Inr st' \<Longrightarrow> \<exists>rows. st' = st\<lparr>st_idempotency := rows\<rparr>"
  by (auto simp: finish_recusal_def Let_def split: if_splits prod.splits)

lemma stages_onlyD:
  assumes "stages_only st st'"
  shows "st_votes st' = st_votes st" "st_electorate st' = st_electorate st" "st_exclusions st' = st_exclusions st"
    "st_grants st' = st_grants st" "st_revocations st' = st_revocations st" "st_ballots st' = st_ballots st"
    "st_dispositions st' = st_dispositions st" "st_attempts st' = st_attempts st"
    "st_consents st' = st_consents st" "st_audit st' = st_audit st" "st_idempotency st' = st_idempotency st"
proof -
  have e: "st'\<lparr>st_stages := []\<rparr> = st\<lparr>st_stages := []\<rparr>" using assms by (simp add: stages_only_def)
  show "st_votes st' = st_votes st" using arg_cong [OF e, of st_votes] by simp
  show "st_electorate st' = st_electorate st" using arg_cong [OF e, of st_electorate] by simp
  show "st_exclusions st' = st_exclusions st" using arg_cong [OF e, of st_exclusions] by simp
  show "st_grants st' = st_grants st" using arg_cong [OF e, of st_grants] by simp
  show "st_revocations st' = st_revocations st" using arg_cong [OF e, of st_revocations] by simp
  show "st_ballots st' = st_ballots st" using arg_cong [OF e, of st_ballots] by simp
  show "st_dispositions st' = st_dispositions st" using arg_cong [OF e, of st_dispositions] by simp
  show "st_attempts st' = st_attempts st" using arg_cong [OF e, of st_attempts] by simp
  show "st_consents st' = st_consents st" using arg_cong [OF e, of st_consents] by simp
  show "st_audit st' = st_audit st" using arg_cong [OF e, of st_audit] by simp
  show "st_idempotency st' = st_idempotency st" using arg_cong [OF e, of st_idempotency] by simp
qed

text \<open>What a recusal writes to the tables a ballot depends on.\<close>

definition recusal_written ::
    "ManageVoteRecusalInput \<Rightarrow> RecusalRequest \<Rightarrow> RecusalAdmission \<Rightarrow> VoteStore \<Rightarrow> VoteStore \<Rightarrow> bool" where
  "recusal_written i q a st st' \<longleftrightarrow>
     same_basis st st' \<and> confirmed_stages st \<subseteq> confirmed_stages st' \<and> st_grants st' = st_grants st \<and>
     st_ballots st' = st_ballots st \<and>
     list_all (\<lambda>x. \<not> exclusion_clash (new_exclusion i q a) x) (st_exclusions st) \<and>
     st_exclusions st' = st_exclusions st @ [new_exclusion i q a] \<and>
     st_revocations st' = st_revocations st @ map (recusal_revocation i q) (zip (ra_proxies a) (rq_proxies q)) \<and>
     st_dispositions st' = st_dispositions st @ map (invalidation q) (zip (ra_ballots a) (rq_ballots q))"

lemma recusal_dispositions_ok:
  assumes "recusal_dispositions pl env i q a st = Inr (n, st')"
  shows "recusal_written i q a st st' \<and> st_audit st' = st_audit st"
proof -
  let ?s0 = "st\<lparr>st_exclusions := st_exclusions st @ [new_exclusion i q a]\<rparr>"
  obtain s1 s2 s3 s4 where x: "list_all (\<lambda>x. \<not> exclusion_clash (new_exclusion i q a) x) (st_exclusions st)"
    and 1: "for_each replace_stage (zip (ra_stages a) (rq_stages q)) ?s0 = Inr s1"
    and 2: "for_each (revoke_grant i q) (zip (ra_proxies a) (rq_proxies q)) s1 = Inr s2"
    and 3: "for_each (invalidate_ballot q) (zip (ra_ballots a) (rq_ballots q)) s2 = Inr s3"
    and 4: "recusal_advance a s3 = Inr (n, s4)"
    and 5: "for_each (remove_feed pl env i a) (zip (ra_feeds a) (rq_tombstones q)) s4 = Inr st'"
    using assms by (auto simp: recusal_dispositions_def bindr_eq_Inr_iff insert_row_Inr)
  from replace_stages_ok [OF 1] have c: "confirmed_stages ?s0 \<subseteq> confirmed_stages s1" by (simp add: stages_only_def)
  from recusal_advance_ok [OF 4] obtain votes where "s4 = s3\<lparr>st_votes := votes\<rparr>" "versions_only (st_votes s3) votes" by blast
  with x c show ?thesis
    by (simp add: recusal_written_def same_basis_def feed_onlyD [OF remove_feeds_ok [OF 5]] invalidate_ballots_ok [OF 3]
      revoke_grants_ok [OF 2] stages_onlyD [OF replace_stages_ok [OF 1]])
qed

lemma recusal_write_ok:
  assumes "recusal_write pl lc env i q a st = Inr (r, st')"
  shows "st' = st \<and> (\<exists>n s h. r = RecusalReplayed n s h) \<or>
    recusal_written i q a st st' \<and> audit_kept pl lc st st' \<and> (\<exists>w h events. r = RecusalManaged (ra_version a) (ra_state a) w h events)"
proof (cases "list_ex (same_idempotency_key (new_idempotency (mi_idempotencyRecordId i) (vq_context q) (lit ''manage_recusal'')
    (mi_idempotencyKey i) (vq_requestSha256 q))) (st_idempotency st)")
  case True
  with assms show ?thesis
    by (auto simp: recusal_write_def Let_def bindr_eq_Inr_iff replayResult_def simp del: lit_simps
        split: option.splits if_splits IdempotencyState.splits)
next
  case False
  with assms obtain rows n s1 w s2 audit s3 audit' events h where
    1: "recusal_dispositions pl env i q a (st\<lparr>st_idempotency := rows\<rparr>) = Inr (n, s1)" and
    2: "for_each (deliver_recusal pl env i q a n w) (rq_deliveries q) (s1, audit) = Inr (s2, audit')" and
    3: "appendAuditEventsInTransaction pl lc env audit' s2 = Inr (events, s3)" and
    4: "finish_recusal i (vq_context q) h s3 = Inr st'" and
    r: "r = RecusalManaged (ra_version a) (ra_state a) w h events"
    by (auto simp: recusal_write_def Let_def bindr_eq_Inr_iff guard_Inr simp del: lit_simps split del: if_split)
  from finish_recusal_ok [OF 4] obtain y where y: "st' = s3\<lparr>st_idempotency := y\<rparr>" by blast
  with appendAudit_frame [OF 3] obtain x where "st' = s2\<lparr>st_audit := x, st_idempotency := y\<rparr>" by auto
  moreover have "audit_log s2 = audit_log st" "audit_log st' = audit_log s3"
    using recusal_dispositions_ok [OF 1] feed_onlyD [OF deliveries_ok [OF 2]] by (simp_all add: audit_log_def y)
  with appendAudit_kept [OF 3] have "audit_kept pl lc st st'" by (simp add: audit_kept_def)
  ultimately show ?thesis using recusal_dispositions_ok [OF 1] feed_onlyD [OF deliveries_ok [OF 2]]
    by (simp add: r recusal_written_def same_basis_def)
qed

section \<open>Admission\<close>

lemma recusal_admit_ok:
  assumes "recusal_admit env st i q = Inr (RecusalAdmitted a)"
  shows "ra_vote a \<in> set (st_votes st)" and "vo_id (ra_vote a) = mi_voteId i"
    and "vo_organizationId (ra_vote a) = mi_organizationId i"
    and "vo_state (ra_vote a) \<in> {vote_open, vote_source_update_pending}"
    and "ra_version a = (case current_exclusion st (mi_voteId i) (mi_memberId i) of None \<Rightarrow> 0 | Some x \<Rightarrow> xr_version x) + 1"
    and "ra_proxies a = active_proxies st (mi_organizationId i) (vo_boardId (ra_vote a)) (mi_voteId i) (mi_memberId i)"
    and "ra_ballots a = active_ballots st (mi_organizationId i) (vo_boardId (ra_vote a)) (mi_voteId i) (mi_memberId i)"
    and "map gr_id (ra_proxies a) = map pd_proxyGrantId (rq_proxies q)"
    and "map br_id (ra_ballots a) = map bd_ballotId (rq_ballots q)"
    and "mi_state i = excluded_state \<Longrightarrow> ra_state a = excluded_state"
proof -
  let ?lock = "lock_vote_for_recusal env st (vq_context q) (mi_voteId i) (mi_memberId i) (mi_consentRecordId i) (vq_consentSha256 q)"
  from assms obtain l where l: "?lock = [l]"
    by (auto simp: recusal_admit_def Let_def split: list.splits)
  have "l \<in> set ?lock" unfolding l by simp
  then have lv: "lk_vote l \<in> set (st_votes st)" "vo_id (lk_vote l) = mi_voteId i"
    "lk_current l = current_exclusion st (mi_voteId i) (mi_memberId i)"
    by (auto simp: lock_vote_for_recusal_def)
  have R2: "(if b then if c then throw e else bindr m (\<lambda>x. case x of None \<Rightarrow> throw e' | Some r \<Rightarrow> Inr (RecusalReplay r)) else n) =
      Inr (RecusalAdmitted a) \<longleftrightarrow> \<not> b \<and> n = Inr (RecusalAdmitted a)" for c b e e' n and m :: "ManageVoteRecusalResult option result"
    by (auto simp: bindr_eq_Inr_iff split: option.splits)
  from assms have a: "vo_organizationId (lk_vote l) = mi_organizationId i" "vo_state (lk_vote l) \<in> {vote_open, vote_source_update_pending}"
    "map gr_id (ra_proxies a) = map pd_proxyGrantId (rq_proxies q)" "map br_id (ra_ballots a) = map bd_ballotId (rq_ballots q)"
    "ra_vote a = lk_vote l" "ra_version a = (case lk_current l of None \<Rightarrow> 0 | Some x \<Rightarrow> xr_version x) + 1"
    "ra_proxies a = active_proxies st (mi_organizationId i) (vo_boardId (lk_vote l)) (mi_voteId i) (mi_memberId i)"
    "ra_ballots a = active_ballots st (mi_organizationId i) (vo_boardId (lk_vote l)) (mi_voteId i) (mi_memberId i)"
    "ra_state a = effective_recusal env i (manual_state st (mi_voteId i) (mi_memberId i)) (vo_boardId (lk_vote l))"
    by (auto simp: recusal_admit_def Let_def l guard_Inr R2 simp del: lit_simps split del: if_split)
  with lv show "ra_vote a \<in> set (st_votes st)" "vo_id (ra_vote a) = mi_voteId i"
    "vo_organizationId (ra_vote a) = mi_organizationId i" "vo_state (ra_vote a) \<in> {vote_open, vote_source_update_pending}"
    "ra_version a = (case current_exclusion st (mi_voteId i) (mi_memberId i) of None \<Rightarrow> 0 | Some x \<Rightarrow> xr_version x) + 1"
    "ra_proxies a = active_proxies st (mi_organizationId i) (vo_boardId (ra_vote a)) (mi_voteId i) (mi_memberId i)"
    "ra_ballots a = active_ballots st (mi_organizationId i) (vo_boardId (ra_vote a)) (mi_voteId i) (mi_memberId i)"
    "map gr_id (ra_proxies a) = map pd_proxyGrantId (rq_proxies q)"
    "map br_id (ra_ballots a) = map bd_ballotId (rq_ballots q)"
    "mi_state i = excluded_state \<Longrightarrow> ra_state a = excluded_state"
    by (simp_all add: effective_recusal_def)
qed

section \<open>A recusal keeps the invariant\<close>

lemma replayResult_ok: "replayResult row h x n s = Inr (Some r) \<Longrightarrow> \<exists>h. r = RecusalReplayed n s h"
  by (auto simp: replayResult_def split: option.splits if_splits IdempotencyState.splits)

lemma recusal_admit_replay:
  "recusal_admit env st i q = Inr (RecusalReplay r) \<Longrightarrow> \<exists>n s h. r = RecusalReplayed n s h"
  by (auto simp: recusal_admit_def Let_def bindr_eq_Inr_iff simp del: lit_simps dest!: replayResult_ok
      split: list.splits if_splits option.splits)

lemma set_fst_zip: "map f xs = map g ys \<Longrightarrow> set (map fst (zip xs ys)) = set xs"
  using map_eq_imp_length_eq [of f xs g ys] by (simp add: map_fst_zip del: set_map)

lemma current_exclusion_snoc:
  assumes "st_exclusions st' = st_exclusions st @ [x]"
  shows "current_exclusion st' v m =
    (if xr_voteId x = v \<and> xr_memberId x = m then later_exclusion x (current_exclusion st v m) else current_exclusion st v m)"
  by (simp add: current_exclusion_def assms)

text \<open>Every live ballot that names the member, as principal or as caster, is among those the recusal invalidates.\<close>

lemma live_ballot_active:
  assumes "store_ok pl st" and "b \<in> set (st_ballots st)" and "\<not> has_disposition st b"
    and "v \<in> set (st_votes st)" and "vo_id v = br_voteId b"
    and "br_principalMemberId b = m \<or> br_casterMemberId b = m"
  shows "b \<in> set (active_ballots st (vo_organizationId v) (vo_boardId v) (br_voteId b) m)"
proof -
  have "ballot_bound pl st b" using assms(1,2) by (simp add: store_ok_def list_all_iff)
  then obtain v' where v': "v' \<in> set (st_votes st)" "vo_id v' = br_voteId b" "vo_organizationId v' = br_organizationId b"
    "vo_boardId v' = br_boardId b" "ballot_attributed st (vo_proxyPolicy v') b" unfolding ballot_bound_def by blast
  have "distinct (map vo_id (st_votes st))" using assms(1) by (simp add: store_ok_def)
  with assms(4,5) v'(1,2) have "v' = v" by (auto simp: distinct_map inj_on_def)
  moreover have "br_principalMemberId b = m \<or> br_source b = proxy_ballot \<and> br_casterMemberId b = m"
    using assms(6) v'(5) by (cases "br_source b") (auto simp: ballot_attributed_def)
  ultimately show ?thesis using assms(2,3) v' by (simp add: active_ballots_def)
qed

lemma recusal_invalidates:
  assumes "recusal_admit env st i q = Inr (RecusalAdmitted a)" and "recusal_written i q a st st'" and "store_ok pl st"
    and "b \<in> set (st_ballots st)" and "br_voteId b = mi_voteId i"
    and "br_principalMemberId b = mi_memberId i \<or> br_casterMemberId b = mi_memberId i"
  shows "has_disposition st' b"
proof (cases "has_disposition st b")
  case True
  then show ?thesis using assms(2) has_disposition_mono [of st st' b] by (auto simp: recusal_written_def)
next
  case False
  note ok = recusal_admit_ok [OF assms(1)]
  have "b \<in> set (ra_ballots a)"
    using live_ballot_active [OF assms(3,4) False ok(1) _ assms(6)] ok(2,3,7) assms(5) by simp
  then have "b \<in> set (map fst (zip (ra_ballots a) (rq_ballots q)))" using set_fst_zip [OF ok(9)] by simp
  then obtain d where "(b, d) \<in> set (zip (ra_ballots a) (rq_ballots q))" by auto
  then have "invalidation q (b, d) \<in> set (st_dispositions st')"
    using assms(2) by (auto simp: recusal_written_def intro!: image_eqI [of _ _ "(b, d)"])
  then show ?thesis by (auto simp: has_disposition_def list_ex_iff invalidation_def intro!: bexI)
qed

lemma recusal_cases:
  assumes "manageVoteRecusalInTransaction pl lc env i st = Inr (r, st')"
  obtains n s h where "st' = st" and "r = RecusalReplayed n s h"
  | q a w h events where "audit_kept pl lc st st'" and "recusal_admit env st i q = Inr (RecusalAdmitted a)" and "recusal_written i q a st st'"
      and "r = RecusalManaged (ra_version a) (ra_state a) w h events" and "recusal_request pl lc env i = Inr q"
proof -
  from assms obtain q d where q: "recusal_request pl lc env i = Inr q" and d: "recusal_admit env st i q = Inr d"
    and c: "(case d of RecusalReplay r \<Rightarrow> Inr (r, st) | RecusalAdmitted a \<Rightarrow> recusal_write pl lc env i q a st) = Inr (r, st')"
    by (auto simp: manageVoteRecusalInTransaction_def bindr_eq_Inr_iff)
  show thesis
  proof (cases d)
    case (RecusalReplay x)
    have "\<exists>n s h. x = RecusalReplayed n s h" using recusal_admit_replay d RecusalReplay by blast
    then show thesis using c RecusalReplay that(1) by auto
  next
    case (RecusalAdmitted a)
    with c have "recusal_write pl lc env i q a st = Inr (r, st')" by simp
    from recusal_write_ok [OF this] that d q RecusalAdmitted show thesis by blast
  qed
qed

lemma recusal_keeps_store_ok:
  assumes "manageVoteRecusalInTransaction pl lc env i st = Inr (r, st')" and "store_ok pl st"
  shows "store_ok pl st'"
proof -
  consider "st' = st" | q a where "recusal_admit env st i q = Inr (RecusalAdmitted a)" "recusal_written i q a st st'"
    by (rule recusal_cases [OF assms(1)])
  then show ?thesis
  proof cases
    case 2
    have w: "same_basis st st'" "confirmed_stages st \<subseteq> confirmed_stages st'" "st_grants st' = st_grants st"
      "st_ballots st' = st_ballots st" "st_exclusions st' = st_exclusions st @ [new_exclusion i q a]"
      "set (st_dispositions st) \<subseteq> set (st_dispositions st')"
      using 2(2) by (auto simp: recusal_written_def)
    have k: "evidence_kept st st'"
      using w(1-3) versions_only_frozen(2) [of "st_votes st" "st_votes st'"] by (simp add: evidence_kept_def same_basis_def)
    have n: "nobody_excluded st'"
    proof -
      have "\<not> is_excluded st' (br_voteId b) m"
        if b: "b \<in> set (st_ballots st)" "\<not> has_disposition st' b" and m: "m = br_principalMemberId b \<or> m = br_casterMemberId b" for b m
      proof -
        have live: "\<not> has_disposition st b" using b(2) has_disposition_mono [OF w(6)] by blast
        have "\<not> (br_voteId b = mi_voteId i \<and> m = mi_memberId i)"
          using recusal_invalidates [OF 2 assms(2) b(1)] b(2) m by metis
        then have "is_excluded st' (br_voteId b) m = is_excluded st (br_voteId b) m"
          using current_exclusion_snoc [OF w(5), of "br_voteId b" m]
          by (auto simp: is_excluded_def new_exclusion_def)
        with assms(2) b(1) live m show ?thesis by (auto simp: store_ok_def nobody_excluded_def)
      qed
      then show ?thesis by (simp add: nobody_excluded_def w(4))
    qed
    show ?thesis
    proof (rule store_ok_step [OF assms(2) k _ _ w(4,6) n])
      show "distinct (map vo_id (st_votes st'))" "distinct (electorate_keys st')"
        using assms(2) w(1) versions_only_frozen(1) [of "st_votes st" "st_votes st'"]
        by (simp_all add: store_ok_def same_basis_def)
      show "grants_ok st'" using grants_ok_kept [OF k] assms(2) w(3) by (simp add: store_ok_def list_all_iff)
    qed
  qed (use assms(2) in simp)
qed

lemma later_exclusion_newer: "(\<And>y. c = Some y \<Longrightarrow> xr_version y < xr_version x) \<Longrightarrow> later_exclusion x c = Some x"
  by (cases c) (simp_all add: later_exclusion_def)

lemma recusal_sets_state:
  assumes "recusal_admit env st i q = Inr (RecusalAdmitted a)" and "recusal_written i q a st st'"
  shows "current_exclusion st' (mi_voteId i) (mi_memberId i) = Some (new_exclusion i q a)"
proof -
  have "st_exclusions st' = st_exclusions st @ [new_exclusion i q a]" using assms(2) by (simp add: recusal_written_def)
  moreover have "later_exclusion (new_exclusion i q a) (current_exclusion st (mi_voteId i) (mi_memberId i)) =
      Some (new_exclusion i q a)"
    by (rule later_exclusion_newer) (simp add: recusal_admit_ok(5) [OF assms(1)] new_exclusion_def)
  ultimately show ?thesis by (simp add: current_exclusion_snoc) (simp add: new_exclusion_def)
qed

lemma recusal_revokes:
  assumes "recusal_admit env st i q = Inr (RecusalAdmitted a)" and "recusal_written i q a st st'" and "store_ok pl st"
    and "g \<in> set (st_grants st)" and "gr_voteId g = mi_voteId i"
    and "gr_principalMemberId g = mi_memberId i \<or> gr_holderMemberId g = mi_memberId i"
  shows "\<exists>r\<in>set (st_revocations st'). rv_grantId r = gr_id g"
proof (cases "list_ex (\<lambda>r. rv_grantId r = gr_id g) (st_revocations st)")
  case True
  then show ?thesis using assms(2) by (auto simp: recusal_written_def list_ex_iff)
next
  case False
  note ok = recusal_admit_ok [OF assms(1)]
  obtain v where v: "v \<in> set (st_votes st)" "vo_id v = gr_voteId g" "vo_organizationId v = gr_organizationId g"
      "vo_boardId v = gr_boardId g"
    using assms(3,4) by (auto simp: store_ok_def list_all_iff)
  have "distinct (map vo_id (st_votes st))" using assms(3) by (simp add: store_ok_def)
  with ok(1,2) v(1,2) assms(5) have "v = ra_vote a" by (auto simp: distinct_map inj_on_def)
  with v ok(3) False assms(4-6) have "g \<in> set (ra_proxies a)" by (simp add: ok(6) active_proxies_def)
  then have "g \<in> set (map fst (zip (ra_proxies a) (rq_proxies q)))" using set_fst_zip [OF ok(8)] by simp
  then obtain d where "(g, d) \<in> set (zip (ra_proxies a) (rq_proxies q))" by auto
  then have "recusal_revocation i q (g, d) \<in> set (st_revocations st')"
    using assms(2) by (auto simp: recusal_written_def intro!: image_eqI [of _ _ "(g, d)"])
  then show ?thesis by (rule bexI [rotated]) (simp add: recusal_revocation_def)
qed

lemma recusal_clears_member:
  assumes "manageVoteRecusalInTransaction pl lc env i st = Inr (RecusalManaged n s w h events, st')" and "store_ok pl st"
  shows "(\<forall>b\<in>set (effective_ballots st' (mi_voteId i)). br_principalMemberId b \<noteq> mi_memberId i \<and> br_casterMemberId b \<noteq> mi_memberId i) \<and>
    (\<forall>g\<in>set (st_grants st'). gr_voteId g = mi_voteId i \<and> (gr_principalMemberId g = mi_memberId i \<or> gr_holderMemberId g = mi_memberId i) \<longrightarrow>
       (\<exists>r\<in>set (st_revocations st'). rv_grantId r = gr_id g)) \<and>
    (is_excluded st' (mi_voteId i) (mi_memberId i) \<longleftrightarrow> s = excluded_state)"
  using assms(1)
proof (cases rule: recusal_cases)
  case (2 q a w h events)
  have s: "st_ballots st' = st_ballots st" "st_grants st' = st_grants st" using 2(3) by (simp_all add: recusal_written_def)
  have "\<forall>b\<in>set (effective_ballots st' (mi_voteId i)). br_principalMemberId b \<noteq> mi_memberId i \<and> br_casterMemberId b \<noteq> mi_memberId i"
    using recusal_invalidates [OF 2(2,3) assms(2)] s(1) by (auto simp: effective_ballots_def)
  moreover have "\<forall>g\<in>set (st_grants st'). gr_voteId g = mi_voteId i \<and>
      (gr_principalMemberId g = mi_memberId i \<or> gr_holderMemberId g = mi_memberId i) \<longrightarrow>
       (\<exists>r\<in>set (st_revocations st'). rv_grantId r = gr_id g)"
    using recusal_revokes [OF 2(2,3) assms(2)] s(2) by auto
  moreover have "is_excluded st' (mi_voteId i) (mi_memberId i) \<longleftrightarrow> s = excluded_state"
    using recusal_sets_state [OF 2(2,3)] 2(4) by (simp add: is_excluded_def new_exclusion_def)
  ultimately show ?thesis by blast
qed simp

end
