(* ===== verification/Vote_Lifecycle.thy ===== *)
theory Vote_Lifecycle
  imports Recusals
begin

text \<open>
  The life of a vote as a sequence of transactions. A step is one of the modelled transactions
  (\<^verbatim>\<open>Ballots\<close>, \<^verbatim>\<open>Recusals\<close>) or what the transactions outside the model may do to these tables: open a vote
  with a prepared electorate, stage and confirm actions, move a vote to another state, replace it, write
  notices, append audit events. A store is reachable when such steps lead to it from the empty database.
\<close>

section \<open>Steps\<close>

definition entry_of :: "ElectorateRow \<Rightarrow> VoteElectorateEntryInput" where
  "entry_of e = \<lparr>vi_id = el_id e, vi_memberId = el_memberId e, vi_membershipVersionId = el_membershipVersionId e,
     vi_isChair = Some (el_isChair e), vi_votingWeight = el_votingWeight e, vi_eligibilitySnapshot = el_eligibilitySnapshot e\<rparr>"

text \<open>The electorate rows a vote is opened with: those of a prepared electorate, whose digest the vote keeps.\<close>

definition opened_with ::
    "platform \<Rightarrow> (jstring \<Rightarrow> jstring \<Rightarrow> int) \<Rightarrow> VoteRow \<Rightarrow> ElectorateRow list \<Rightarrow> bool" where
  "opened_with pl lc v es \<longleftrightarrow>
     (\<forall>e\<in>set es. el_voteId e = vo_id v \<and> canonicalSha256 pl (el_eligibilitySnapshot e) = Inr (el_eligibilitySha256 e)) \<and>
     (\<exists>p. prepareVoteElectorate pl lc (vo_id v) (map entry_of (sort_key el_memberId es)) = Inr p \<and>
        pe_electorateSha256 p = vo_electorateSha256 v)"

inductive vote_step :: "platform \<Rightarrow> (jstring \<Rightarrow> jstring \<Rightarrow> int) \<Rightarrow> VoteStore \<Rightarrow> VoteStore \<Rightarrow> bool"
  for pl lc st where
  grant_step: "grantProxyInTransaction pl lc env gi st = Inr (gr, st') \<Longrightarrow> vote_step pl lc st st'"
| revoke_step: "revokeProxyInTransaction pl lc env ri st = Inr (rr, st') \<Longrightarrow> vote_step pl lc st st'"
| cast_step: "castBallotInTransaction pl lc env ci st = Inr (cr, st') \<Longrightarrow> vote_step pl lc st st'"
| recusal_step: "manageVoteRecusalInTransaction pl lc env mi st = Inr (mr, st') \<Longrightarrow> vote_step pl lc st st'"
| open_step: "vo_id v \<notin> vo_id ` set (st_votes st) \<Longrightarrow> vo_id v \<notin> el_voteId ` set (st_electorate st) \<Longrightarrow>
    opened_with pl lc v es \<Longrightarrow>
    vote_step pl lc st (st\<lparr>st_votes := st_votes st @ [v], st_electorate := st_electorate st @ es\<rparr>)"
| consent_step: "st' = st\<lparr>st_stages := stages, st_attempts := attempts, st_consents := st_consents st @ consents\<rparr> \<Longrightarrow>
    confirmed_stages st \<subseteq> confirmed_stages st' \<Longrightarrow> confirmed_attempts st \<subseteq> confirmed_attempts st' \<Longrightarrow> vote_step pl lc st st'"
| state_step: "map frozen_vote votes = map frozen_vote (st_votes st) \<Longrightarrow> vote_step pl lc st (st\<lparr>st_votes := votes\<rparr>)"
| replace_step: "vote_step pl lc st (st\<lparr>st_revocations := st_revocations st @ revocations,
    st_dispositions := st_dispositions st @ dispositions\<rparr>)"
| notice_step: "vote_step pl lc st (st\<lparr>st_idempotency := idempotency, st_feed := feed, st_notices := notices,
    st_tombstones := tombstones\<rparr>)"
| audit_step: "appendAuditEventsInTransaction pl lc env inputs st = Inr (events, st') \<Longrightarrow> vote_step pl lc st st'"

definition empty_store :: VoteStore where
  "empty_store = \<lparr>st_votes = [], st_electorate = [], st_exclusions = [], st_grants = [], st_revocations = [],
     st_ballots = [], st_dispositions = [], st_stages = [], st_attempts = [], st_consents = [], st_idempotency = [],
     st_feed = [], st_notices = [], st_tombstones = [], st_audit = []\<rparr>"

inductive reachable :: "platform \<Rightarrow> (jstring \<Rightarrow> jstring \<Rightarrow> int) \<Rightarrow> VoteStore \<Rightarrow> bool" for pl lc where
  reachable_empty: "reachable pl lc empty_store"
| reachable_step: "reachable pl lc st \<Longrightarrow> vote_step pl lc st st' \<Longrightarrow> reachable pl lc st'"

section \<open>Keys and references\<close>

definition keys_ok :: "VoteStore \<Rightarrow> bool" where
  "keys_ok st \<longleftrightarrow> distinct (map (\<lambda>x. (xr_voteId x, xr_memberId x, xr_version x)) (st_exclusions st)) \<and>
     distinct (map gr_id (st_grants st)) \<and>
     list_all (\<lambda>x. xr_consentRecordId x \<in> cr_id ` set (st_consents st)) (st_exclusions st) \<and>
     list_all (\<lambda>g. gr_consentRecordId g \<in> cr_id ` set (st_consents st)) (st_grants st)"

definition electorates_ok :: "platform \<Rightarrow> (jstring \<Rightarrow> jstring \<Rightarrow> int) \<Rightarrow> VoteStore \<Rightarrow> bool" where
  "electorates_ok pl lc st \<longleftrightarrow>
     (\<forall>v\<in>set (st_votes st). opened_with pl lc v (filter (\<lambda>e. el_voteId e = vo_id v) (st_electorate st)))"

definition vote_inv :: "platform \<Rightarrow> (jstring \<Rightarrow> jstring \<Rightarrow> int) \<Rightarrow> VoteStore \<Rightarrow> bool" where
  "vote_inv pl lc st \<longleftrightarrow> store_ok pl st \<and> keys_ok st \<and> electorates_ok pl lc st \<and> valid_log pl lc (audit_log st)"

lemma consentValid_record: "consentValid cx st k \<Longrightarrow> cs_consentRecordId k \<in> cr_id ` set (st_consents st)"
  by (erule consentValid_rows) (metis consent_matches_def image_eqI)

lemma electorates_frozen:
  assumes "electorates_ok pl lc st" and "map frozen_vote (st_votes st') = map frozen_vote (st_votes st)"
    and "st_electorate st' = st_electorate st"
  shows "electorates_ok pl lc st'"
proof -
  have "opened_with pl lc v (filter (\<lambda>e. el_voteId e = vo_id v) (st_electorate st'))" if "v \<in> set (st_votes st')" for v
  proof -
    have "frozen_vote v \<in> set (map frozen_vote (st_votes st'))" using that by (simp only: set_map image_eqI)
    then have "frozen_vote v \<in> frozen_vote ` set (st_votes st)" by (simp only: assms(2) set_map)
    then obtain w where w: "w \<in> set (st_votes st)" "frozen_vote w = frozen_vote v" by (metis (no_types, lifting) imageE)
    from w(1) assms(1) have "opened_with pl lc w (filter (\<lambda>e. el_voteId e = vo_id w) (st_electorate st))"
      by (simp add: electorates_ok_def)
    with w(2) show ?thesis by (simp add: opened_with_def assms(3))
  qed
  then show ?thesis by (simp add: electorates_ok_def)
qed

lemma versions_only_map: "versions_only votes votes' \<Longrightarrow> map frozen_vote votes' = map frozen_vote votes"
  unfolding versions_only_def by (drule arg_cong [of _ _ "map frozen_vote"]) (simp add: comp_def)

text \<open>An operation that keeps the basis keeps keys and electorates, when the rows it adds have fresh keys.\<close>

lemma quiet_keys:
  assumes "vote_inv pl lc st" and "same_basis st st'" and "store_ok pl st'" and "audit_kept pl lc st st'" and "keys_ok st'"
  shows "vote_inv pl lc st'"
  using assms electorates_frozen [of pl lc st st'] versions_only_map [of "st_votes st" "st_votes st'"]
  by (simp add: vote_inv_def same_basis_def audit_kept_def)

lemma grant_keeps_inv:
  assumes "grantProxyInTransaction pl lc env i st = Inr (r, st')" and "vote_inv pl lc st"
  shows "vote_inv pl lc st'"
proof -
  have s: "store_ok pl st'" using grant_keeps_store_ok [OF assms(1)] assms(2) by (simp add: vote_inv_def)
  consider "st' = st" | q vote where "grant_admit env st i q = Inr (Admitted vote)"
      "grant_write pl lc env i q vote st = Inr (r, st')"
    using assms(1) by (auto simp: grantProxyInTransaction_def bindr_eq_Inr_iff admission_Inr)
  then show ?thesis
  proof cases
    case 2
    from grant_write_ok [OF 2(2)] have w: "same_basis st st'" "same_stages st st'" "audit_kept pl lc st st'"
      "list_all (\<lambda>x. \<not> grant_clash (new_grant env i (vq_context q) vote) x) (st_grants st)"
      "st_grants st' = st_grants st @ [new_grant env i (vq_context q) vote]" by simp_all
    from 2(1) have "gi_consentRecordId i \<in> cr_id ` set (st_consents st)"
      by (rule grant_admit_ok) (auto dest: consentValid_record)
    with w assms(2) have "keys_ok st'"
      by (auto simp: keys_ok_def vote_inv_def same_basis_def same_stages_def list_all_iff grant_clash_def new_grant_def)
    then show ?thesis using quiet_keys assms(2) w s by blast
  qed (use assms(2) in simp)
qed

lemma revoke_keeps_inv:
  assumes "revokeProxyInTransaction pl lc env i st = Inr (r, st')" and "vote_inv pl lc st"
  shows "vote_inv pl lc st'"
proof -
  have s: "store_ok pl st'" using revoke_keeps_store_ok [OF assms(1)] assms(2) by (simp add: vote_inv_def)
  consider "st' = st" | reason q vote where "revoke_write pl lc env i reason q vote st = Inr (r, st')"
    using assms(1) by (auto simp: revokeProxyInTransaction_def bindr_eq_Inr_iff admission_Inr)
  then show ?thesis
  proof cases
    case 2
    from revoke_write_ok [OF 2] have w: "same_basis st st'" "same_stages st st'" "audit_kept pl lc st st'"
      "st_grants st' = st_grants st" by simp_all
    with assms(2) have "keys_ok st'" by (simp add: keys_ok_def vote_inv_def same_basis_def same_stages_def)
    then show ?thesis using quiet_keys assms(2) w s by blast
  qed (use assms(2) in simp)
qed

lemma cast_keeps_inv:
  assumes "castBallotInTransaction pl lc env i st = Inr (r, st')" and "vote_inv pl lc st"
  shows "vote_inv pl lc st'"
proof -
  have s: "store_ok pl st'" using cast_keeps_store_ok [OF assms(1)] assms(2) by (simp add: vote_inv_def)
  consider "st' = st" | statement q a where "cast_write pl lc env i statement q a st = Inr (r, st')"
    using assms(1) by (auto simp: castBallotInTransaction_def bindr_eq_Inr_iff admission_Inr)
  then show ?thesis
  proof cases
    case 2
    from cast_write_ok [OF 2] have w: "same_basis st st'" "same_stages st st'" "audit_kept pl lc st st'"
      "st_grants st' = st_grants st" by blast+
    with assms(2) have "keys_ok st'" by (simp add: keys_ok_def vote_inv_def same_basis_def same_stages_def)
    then show ?thesis using quiet_keys assms(2) w s by blast
  qed (use assms(2) in simp)
qed


lemma recusal_admit_consent:
  assumes "recusal_admit env st i q = Inr (RecusalAdmitted a)"
  shows "mi_consentRecordId i \<in> cr_id ` set (st_consents st)"
proof -
  let ?lock = "lock_vote_for_recusal env st (vq_context q) (mi_voteId i) (mi_memberId i) (mi_consentRecordId i) (vq_consentSha256 q)"
  from assms obtain l where l: "?lock = [l]" by (auto simp: recusal_admit_def Let_def split: list.splits)
  with assms have c: "lk_consentValid l" by (simp add: recusal_admit_def Let_def l guard_Inr split del: if_split)
  have "l \<in> set ?lock" unfolding l by simp
  with c obtain v where "recusal_consent_valid env st (vq_context q) v (mi_memberId i) (mi_consentRecordId i) (vq_consentSha256 q)"
    by (auto simp: lock_vote_for_recusal_def)
  then obtain c where "c \<in> set (st_consents st)" "cr_id c = mi_consentRecordId i"
    unfolding recusal_consent_valid_def list_ex_iff consent_matches_def by auto
  then show ?thesis by (metis image_eqI)
qed

lemma recusal_keeps_inv:
  assumes "manageVoteRecusalInTransaction pl lc env i st = Inr (r, st')" and "vote_inv pl lc st"
  shows "vote_inv pl lc st'"
  using assms(1)
proof (cases rule: recusal_cases)
  case (2 q a w h events)
  have s: "store_ok pl st'" using recusal_keeps_store_ok [OF assms(1)] assms(2) by (simp add: vote_inv_def)
  have w: "same_basis st st'" "st_grants st' = st_grants st"
    "list_all (\<lambda>x. \<not> exclusion_clash (new_exclusion i q a) x) (st_exclusions st)"
    "st_exclusions st' = st_exclusions st @ [new_exclusion i q a]"
    using 2(3) by (simp_all add: recusal_written_def)
  with assms(2) recusal_admit_consent [OF 2(2)] have "keys_ok st'"
    by (auto simp: keys_ok_def vote_inv_def same_basis_def list_all_iff exclusion_clash_def new_exclusion_def)
  then show ?thesis using quiet_keys assms(2) w(1) s 2(1) by blast
qed (use assms(2) in simp)

text \<open>The steps outside the modelled transactions.\<close>

lemma evidence_kept_refl: "evidence_kept st st"
  by (simp add: evidence_kept_def)

lemma nobody_excluded_fewer:
  assumes "nobody_excluded st" and "st_ballots st' = st_ballots st" and "st_exclusions st' = st_exclusions st"
    and "set (st_dispositions st) \<subseteq> set (st_dispositions st')"
  shows "nobody_excluded st'"
  using assms(1) has_disposition_mono [OF assms(4)]
  by (auto simp: nobody_excluded_def assms(2,3) is_excluded_def current_exclusion_def)

lemma opened_electorate:
  assumes "opened_with pl lc v es"
  shows "distinct (map el_memberId es)" and "length (filter el_isChair es) \<le> 1"
    and "\<And>e. e \<in> set es \<Longrightarrow> 1 \<le> el_votingWeight e \<and> el_votingWeight e \<le> MAX_ELECTORATE_WEIGHT"
proof -
  let ?rows = "sort_key el_memberId es"
  from assms obtain p where p: "prepareVoteElectorate pl lc (vo_id v) (map entry_of ?rows) = Inr p"
    unfolding opened_with_def by blast
  obtain xs where x: "mapr (prepare_entry pl) (map entry_of ?rows) = Inr xs" "mset (pe_entries p) = mset xs"
    and d: "distinct (map pv_memberId (pe_entries p))" "length (filter pv_isChair (pe_entries p)) \<le> 1"
    using prepared_entries [OF p] by blast
  note m = prepared_entries_match [OF x(1)]
  have k: "map (\<lambda>x. (pv_memberId x, pv_isChair x)) xs = map (\<lambda>e. (el_memberId e, el_isChair e)) ?rows"
    using arg_cong [OF m(1), of "map (\<lambda>(a, b, c, d). (a, d))"] by (simp add: comp_def entry_of_def)
  have "mset (map pv_memberId (pe_entries p)) = mset (map pv_memberId xs)" by (simp only: mset_map x(2))
  also have "map pv_memberId xs = map el_memberId ?rows"
    using arg_cong [OF k, of "map fst"] by (simp add: comp_def)
  finally have "mset (map el_memberId es) = mset (map pv_memberId (pe_entries p))" by simp
  with d(1) show "distinct (map el_memberId es)" by (metis mset_eq_imp_distinct_iff)
  have "mset (map pv_isChair (pe_entries p)) = mset (map pv_isChair xs)" by (simp only: mset_map x(2))
  also have "map pv_isChair xs = map el_isChair ?rows"
    using arg_cong [OF k, of "map snd"] by (simp add: comp_def)
  finally have "mset (filter id (map el_isChair es)) = mset (filter id (map pv_isChair (pe_entries p)))"
    by (simp only: mset_filter mset_sort mset_map)
  then have "length (filter id (map el_isChair es)) = length (filter id (map pv_isChair (pe_entries p)))" by (rule mset_eq_length)
  with d(2) show "length (filter el_isChair es) \<le> 1" by (simp add: filter_map comp_def)
  fix e
  assume "e \<in> set es"
  moreover have "map pv_votingWeight xs = map el_votingWeight ?rows"
    using arg_cong [OF m(1), of "map (\<lambda>(a, b, c, d). c)"] by (simp add: comp_def entry_of_def)
  then have "set (map pv_votingWeight xs) = el_votingWeight ` set es" by simp
  ultimately have "el_votingWeight e \<in> set (map pv_votingWeight xs)" by simp
  then show "1 \<le> el_votingWeight e \<and> el_votingWeight e \<le> MAX_ELECTORATE_WEIGHT" using m(2) by auto
qed

lemma open_keeps_inv:
  assumes "vote_inv pl lc st" and "vo_id v \<notin> vo_id ` set (st_votes st)" and "vo_id v \<notin> el_voteId ` set (st_electorate st)"
    and "opened_with pl lc v es"
  shows "vote_inv pl lc (st\<lparr>st_votes := st_votes st @ [v], st_electorate := st_electorate st @ es\<rparr>)" (is "vote_inv pl lc ?t")
proof -
  have s: "store_ok pl st" "keys_ok st" "electorates_ok pl lc st" "valid_log pl lc (audit_log st)"
    using assms(1) by (simp_all add: vote_inv_def)
  have k: "evidence_kept st ?t" by (auto simp: evidence_kept_def)
  have ids: "\<forall>e\<in>set es. el_voteId e = vo_id v" using assms(4) by (simp add: opened_with_def)
  then have "map (\<lambda>e. (el_voteId e, el_memberId e)) es = map (\<lambda>m. (vo_id v, m)) (map el_memberId es)" by simp
  then have "distinct (map (\<lambda>e. (el_voteId e, el_memberId e)) es)"
    using opened_electorate(1) [OF assms(4)] by (simp only: distinct_map) (simp add: inj_on_def)
  moreover have "fst k \<noteq> vo_id v" if "k \<in> set (electorate_keys st)" for k
    using that assms(3) by (auto simp: image_iff)
  moreover have "fst k = vo_id v" if "k \<in> set (map (\<lambda>e. (el_voteId e, el_memberId e)) es)" for k
    using that ids by auto
  ultimately have "distinct (electorate_keys st @ map (\<lambda>e. (el_voteId e, el_memberId e)) es)"
    using s(1) unfolding distinct_append store_ok_def by blast
  then have d: "distinct (electorate_keys ?t)" by simp
  have "store_ok pl ?t"
  proof (rule store_ok_step [OF s(1) k _ d])
    show "distinct (map vo_id (st_votes ?t))" using s(1) assms(2) by (simp add: store_ok_def)
    have "nobody_excluded st" using s(1) by (simp only: store_ok_def)
    then show "nobody_excluded ?t" by (rule nobody_excluded_fewer) simp_all
    show "grants_ok ?t" using s(1) by (auto simp: store_ok_def list_all_iff)
  qed simp_all
  moreover have "electorates_ok pl lc ?t"
  proof -
    have n: "filter (\<lambda>e. el_voteId e = vo_id v) (st_electorate st) = []" using assms(3) by (auto simp: filter_empty_conv image_iff)
    have o: "filter (\<lambda>e. el_voteId e = vo_id w) es = []" if "w \<in> set (st_votes st)" for w
      using ids assms(2) that by (auto simp: filter_empty_conv image_iff)
    have "filter (\<lambda>e. el_voteId e = vo_id v) es = es" using ids by (simp add: filter_id_conv)
    with s(3) n o assms(4) show ?thesis by (auto simp: electorates_ok_def)
  qed
  ultimately show ?thesis using s(2,4) by (simp add: vote_inv_def keys_ok_def audit_log_def)
qed

lemma other_tables_inv:
  assumes "vote_inv pl lc st" and "evidence_kept st st'" and "st_votes st' = st_votes st"
    and "st_electorate st' = st_electorate st" and "st_grants st' = st_grants st"
    and "st_exclusions st' = st_exclusions st" and "st_ballots st' = st_ballots st"
    and "set (st_dispositions st) \<subseteq> set (st_dispositions st')" and "audit_kept pl lc st st'"
  shows "vote_inv pl lc st'"
proof -
  have s: "store_ok pl st" "keys_ok st" "electorates_ok pl lc st" "valid_log pl lc (audit_log st)"
    using assms(1) by (simp_all add: vote_inv_def)
  have n: "nobody_excluded st'" using s(1) nobody_excluded_fewer [OF _ assms(7,6,8)] by (simp add: store_ok_def)
  have "store_ok pl st'"
    by (rule store_ok_step [OF s(1) assms(2) _ _ assms(7,8) n]) (use s(1) in \<open>simp_all add: store_ok_def assms(3-5)\<close>)
  moreover have "keys_ok st'"
    using s(2) evidence_keptD(4) [OF assms(2)] by (force simp: keys_ok_def list_all_iff assms(5,6))
  ultimately show ?thesis
    using s(3,4) assms(9) by (simp add: vote_inv_def electorates_ok_def audit_kept_def assms(3,4))
qed

lemma step_keeps_inv:
  assumes "vote_step pl lc st st'" and "vote_inv pl lc st"
  shows "vote_inv pl lc st'"
  using assms(1)
proof cases
  case (grant_step env gi gr)
  then show ?thesis using grant_keeps_inv assms(2) by blast
next
  case (revoke_step env ri rr)
  then show ?thesis using revoke_keeps_inv assms(2) by blast
next
  case (cast_step env ci cr)
  then show ?thesis using cast_keeps_inv assms(2) by blast
next
  case (recusal_step env mi mr)
  then show ?thesis using recusal_keeps_inv assms(2) by blast
next
  case (open_step v es)
  then show ?thesis using open_keeps_inv [OF assms(2)] by blast
next
  case (consent_step consents attempts stages)
  show ?thesis
    by (rule other_tables_inv [OF assms(2)])
      (use consent_step(2,3) in \<open>simp_all add: evidence_kept_def audit_kept_def audit_log_def consent_step(1)\<close>)
next
  case (state_step votes)
  have f: "frozen_vote ` set votes = frozen_vote ` set (st_votes st)"
    using arg_cong [OF state_step(2), of set] by (simp only: set_map)
  have i: "map vo_id votes = map vo_id (st_votes st)"
    using arg_cong [OF state_step(2), of "map fst"] by (simp add: comp_def)
  have k: "evidence_kept st st'" using f by (simp add: evidence_kept_def state_step(1))
  have s: "store_ok pl st" "keys_ok st" "electorates_ok pl lc st" "valid_log pl lc (audit_log st)"
    using assms(2) by (simp_all add: vote_inv_def)
  have "store_ok pl st'"
  proof (rule store_ok_step [OF s(1) k])
    have "nobody_excluded st" using s(1) by (simp only: store_ok_def)
    then show "nobody_excluded st'" by (rule nobody_excluded_fewer) (simp_all add: state_step(1))
    show "grants_ok st'" using grants_ok_kept [OF k] s(1) by (simp add: store_ok_def list_all_iff state_step(1))
  qed (use s(1) i in \<open>simp_all add: store_ok_def state_step(1)\<close>)
  moreover have "electorates_ok pl lc st'"
    using electorates_frozen [OF s(3), of st'] state_step(2) by (simp add: state_step(1))
  ultimately show ?thesis using s(2,4) by (simp add: vote_inv_def keys_ok_def audit_log_def state_step(1))
next
  case (replace_step revocations dispositions)
  show ?thesis
    by (rule other_tables_inv [OF assms(2)]) (simp_all add: evidence_kept_def audit_kept_def audit_log_def replace_step)
next
  case (notice_step idempotency feed notices tombstones)
  show ?thesis
    by (rule other_tables_inv [OF assms(2)]) (simp_all add: evidence_kept_def audit_kept_def audit_log_def notice_step)
next
  case (audit_step env inputs events)
  from appendAudit_frame [OF audit_step] obtain rows where r: "st' = st\<lparr>st_audit := rows\<rparr>" by blast
  show ?thesis
    by (rule other_tables_inv [OF assms(2)])
      (use appendAudit_kept [OF audit_step] in \<open>simp_all add: evidence_kept_def r\<close>)
qed

lemma empty_inv: "vote_inv pl lc empty_store"
  by (simp add: vote_inv_def store_ok_def keys_ok_def electorates_ok_def empty_store_def one_ballot_each_def
      nobody_excluded_def effective_ballots_def audit_log_def)

lemma reachable_inv: "reachable pl lc st \<Longrightarrow> vote_inv pl lc st"
  by (induction rule: reachable.induct) (auto intro: empty_inv step_keeps_inv)
end
