(* ===== verification/Vote_Close.thy ===== *)
theory Vote_Close
  imports Vote_Lifecycle
begin

text \<open>
  The evidence a vote is closed on (\<^verbatim>\<open>lib/db/src/transactions/vote-close.ts\<close>): reading it
  (\<^verbatim>\<open>readVoteEvidence\<close>, with the statement \<^verbatim>\<open>boardagent_vote_close_evidence\<close>), its format, the digest of its
  consent records (\<^verbatim>\<open>consentSetSha256\<close>) and the checks and tally of \<^verbatim>\<open>buildClosePayload\<close>. The columns of the rows that the
  store leaves out, above all the timestamps, are looked up in \<open>RowColumns\<close> by the identifier of the row. The joins on a
  primary or unique key look the row up.
\<close>

section \<open>The evidence\<close>

record ProxyEvidence =
  pe_grant :: GrantRow
  pe_consentRecordSha256 :: jstring
  pe_revocation :: "(RevocationRow \<times> jstring option) option"

record BallotEvidence =
  be_ballot :: BallotRow
  be_consentRecordSha256 :: jstring
  be_disposition :: "DispositionRow option"

datatype RevocationEffect = grant_revoked | grant_expired | grant_superseded

record RowColumns =
  rc_effectiveAt :: "jstring \<Rightarrow> jstring"
  rc_grantedAt :: "jstring \<Rightarrow> jstring"
  rc_expiresAt :: "jstring \<Rightarrow> jstring"
  rc_revokedAt :: "jstring \<Rightarrow> jstring"
  rc_revocationEffect :: "jstring \<Rightarrow> RevocationEffect"
  rc_castAt :: "jstring \<Rightarrow> jstring"
  rc_createdAt :: "jstring \<Rightarrow> jstring"
  rc_replacementVoteId :: "jstring \<Rightarrow> jstring option"

record VoteEvidence =
  ve_columns :: RowColumns
  ve_electorate :: "ElectorateRow list"
  ve_exclusions :: "(ExclusionRow \<times> jstring) list"
  ve_proxies :: "ProxyEvidence list"
  ve_ballots :: "BallotEvidence list"

definition record_sha :: "VoteStore \<Rightarrow> jstring \<Rightarrow> jstring option" where
  "record_sha st consentRecordId = map_option cr_recordSha256 (find (\<lambda>c. cr_id c = consentRecordId) (st_consents st))"

text \<open>An inner join with the consent records.\<close>

definition with_consent :: "VoteStore \<Rightarrow> ('r \<Rightarrow> jstring) \<Rightarrow> 'r list \<Rightarrow> ('r \<times> jstring) list" where
  "with_consent st key rows =
     concat (map (\<lambda>r. case record_sha st (key r) of None \<Rightarrow> [] | Some h \<Rightarrow> [(r, h)]) rows)"

definition proxy_evidence :: "VoteStore \<Rightarrow> GrantRow \<times> jstring \<Rightarrow> ProxyEvidence" where
  "proxy_evidence st = (\<lambda>(g, h).
     \<lparr>pe_grant = g, pe_consentRecordSha256 = h,
      pe_revocation = map_option (\<lambda>r. (r, record_sha st (rv_consentRecordId r)))
        (find (\<lambda>r. rv_grantId r = gr_id g) (st_revocations st))\<rparr>)"

definition ballot_evidence :: "VoteStore \<Rightarrow> BallotRow \<times> jstring \<Rightarrow> BallotEvidence" where
  "ballot_evidence st = (\<lambda>(b, h).
     \<lparr>be_ballot = b, be_consentRecordSha256 = h,
      be_disposition = find (\<lambda>d. dr_priorBallotId d = br_id b) (st_dispositions st)\<rparr>)"

text \<open>The timestamps are rendered with a fixed width, so that the order of the texts is the order in time.\<close>

definition evidence_of :: "RowColumns \<Rightarrow> VoteStore \<Rightarrow> jstring \<Rightarrow> VoteEvidence" where
  "evidence_of cols st voteId =
     \<lparr>ve_columns = cols,
      ve_electorate = sort_key el_memberId (filter (\<lambda>e. el_voteId e = voteId) (st_electorate st)),
      ve_exclusions = with_consent st xr_consentRecordId (sort_key xr_memberId (sort_key xr_version (sort_key xr_id
        (filter (\<lambda>x. xr_voteId x = voteId) (st_exclusions st))))),
      ve_proxies = map (proxy_evidence st) (with_consent st gr_consentRecordId
        (sort_key gr_id (filter (\<lambda>g. gr_voteId g = voteId) (st_grants st)))),
      ve_ballots = map (ballot_evidence st) (with_consent st br_consentRecordId
        (sort_key br_principalMemberId (sort_key (\<lambda>b. rc_castAt cols (br_id b)) (sort_key br_id
          (filter (\<lambda>b. br_voteId b = voteId) (st_ballots st))))))\<rparr>"

definition vote_close_evidence :: "RowColumns \<Rightarrow> TxEnv \<Rightarrow> VoteStore \<Rightarrow> jstring \<Rightarrow> jstring \<Rightarrow> VoteEvidence result" where
  "vote_close_evidence cols env st organizationId voteId =
     (case filter (\<lambda>v. vo_id v = voteId \<and> vo_organizationId v = organizationId) (st_votes st) of
        [v] \<Rightarrow>
          if vo_state v \<notin> {vote_open, vote_closing, vote_closed} \<or>
             (case tx_context env of
                Some cx \<Rightarrow> organizationId \<noteq> cx_organizationId cx \<or> \<not> tx_boardAllowed env (vo_boardId v)
              | None \<Rightarrow> vo_closeMode v \<noteq> tc_automatic \<and> vo_state v \<noteq> vote_closing)
            then throw (Error ''vote close evidence is unavailable'')
          else Inr (evidence_of cols st voteId)
      | _ \<Rightarrow> throw (Error ''query returned no rows''))"

definition electorate_row_ok :: "ElectorateRow \<Rightarrow> bool" where
  "electorate_row_ok e \<longleftrightarrow> UuidV7Schema (el_id e) \<and> UuidV7Schema (el_memberId e) \<and>
     UuidV7Schema (el_membershipVersionId e) \<and> 0 < el_votingWeight e \<and> Sha256HexSchema (el_eligibilitySha256 e)"

definition exclusion_row_ok :: "RowColumns \<Rightarrow> ExclusionRow \<times> jstring \<Rightarrow> bool" where
  "exclusion_row_ok cols = (\<lambda>(x, h). UuidV7Schema (xr_id x) \<and> UuidV7Schema (xr_memberId x) \<and>
     SafePositiveIntegerSchema (xr_version x) \<and> 1 \<le> length (xr_reason x) \<and> length (xr_reason x) \<le> 65536 \<and>
     UuidV7Schema (xr_actorMemberId x) \<and> UuidV7Schema (xr_consentRecordId x) \<and> Sha256HexSchema h \<and>
     Rfc3339UtcSchema (rc_effectiveAt cols (xr_id x)))"

definition revocation_row_ok :: "RowColumns \<Rightarrow> RevocationRow \<times> jstring option \<Rightarrow> bool" where
  "revocation_row_ok cols = (\<lambda>(r, h). UuidV7Schema (rv_id r) \<and> UuidV7Schema (rv_consentRecordId r) \<and>
     (case h of None \<Rightarrow> True | Some s \<Rightarrow> Sha256HexSchema s) \<and> Rfc3339UtcSchema (rc_revokedAt cols (rv_id r)))"

definition proxy_row_ok :: "RowColumns \<Rightarrow> ProxyEvidence \<Rightarrow> bool" where
  "proxy_row_ok cols p \<longleftrightarrow> UuidV7Schema (gr_id (pe_grant p)) \<and> UuidV7Schema (gr_principalMemberId (pe_grant p)) \<and>
     UuidV7Schema (gr_holderMemberId (pe_grant p)) \<and> UuidV7Schema (gr_consentRecordId (pe_grant p)) \<and>
     Sha256HexSchema (pe_consentRecordSha256 p) \<and> Rfc3339UtcSchema (rc_grantedAt cols (gr_id (pe_grant p))) \<and>
     (gr_expiresAt (pe_grant p) \<noteq> None \<longrightarrow> Rfc3339UtcSchema (rc_expiresAt cols (gr_id (pe_grant p)))) \<and>
     (case pe_revocation p of None \<Rightarrow> True | Some r \<Rightarrow> revocation_row_ok cols r)"

definition nullable_ok :: "('a \<Rightarrow> bool) \<Rightarrow> 'a option \<Rightarrow> bool" where
  "nullable_ok p x = (case x of None \<Rightarrow> True | Some y \<Rightarrow> p y)"

definition ballot_row_ok :: "RowColumns \<Rightarrow> BallotEvidence \<Rightarrow> bool" where
  "ballot_row_ok cols e \<longleftrightarrow> (let b = be_ballot e in
     UuidV7Schema (br_id b) \<and> UuidV7Schema (br_packageId b) \<and> UuidV7Schema (br_principalMemberId b) \<and>
     UuidV7Schema (br_casterMemberId b) \<and> nullable_ok (\<lambda>t. length t \<le> 500) (br_statement b) \<and>
     nullable_ok Sha256HexSchema (br_statementSha256 b) \<and> 0 < br_votingWeight b \<and>
     nullable_ok UuidV7Schema (br_proxyGrantId b) \<and> UuidV7Schema (br_consentRecordId b) \<and>
     Sha256HexSchema (be_consentRecordSha256 e) \<and> Rfc3339UtcSchema (rc_castAt cols (br_id b)) \<and>
     nullable_ok (\<lambda>d. UuidV7Schema (dr_id d) \<and> nullable_ok UuidV7Schema (dr_supersedingBallotId d) \<and>
       nullable_ok UuidV7Schema (rc_replacementVoteId cols (dr_id d)) \<and>
       UuidV7Schema (dr_auditEventId d) \<and> Rfc3339UtcSchema (rc_createdAt cols (dr_id d))) (be_disposition e))"

definition VoteEvidenceSchema :: "VoteEvidence \<Rightarrow> bool" where
  "VoteEvidenceSchema e \<longleftrightarrow> list_all electorate_row_ok (ve_electorate e) \<and> 
     list_all (exclusion_row_ok (ve_columns e)) (ve_exclusions e) \<and>
     list_all (proxy_row_ok (ve_columns e)) (ve_proxies e) \<and> list_all (ballot_row_ok (ve_columns e)) (ve_ballots e)"

definition readVoteEvidence :: "RowColumns \<Rightarrow> TxEnv \<Rightarrow> VoteStore \<Rightarrow> jstring \<Rightarrow> jstring \<Rightarrow> VoteEvidence result" where
  "readVoteEvidence cols env st organizationId voteId =
     bindr (vote_close_evidence cols env st organizationId voteId) (zparse VoteEvidenceSchema)"

section \<open>The consent set\<close>

definition consent_records :: "VoteEvidence \<Rightarrow> jstring option \<Rightarrow> jstring list" where
  "consent_records e closeConsentSha256 = sort
     (map snd (ve_exclusions e) @
      concat (map (\<lambda>p. pe_consentRecordSha256 p # (case pe_revocation p of Some (_, Some h) \<Rightarrow> [h] | _ \<Rightarrow> [])) (ve_proxies e)) @
      map be_consentRecordSha256 (ve_ballots e) @
      (case closeConsentSha256 of None \<Rightarrow> [] | Some h \<Rightarrow> [h]))"

abbreviation integrity_failure :: "string \<Rightarrow> js_error" where
  "integrity_failure \<equiv> Coded ''vote_close_integrity_failure''"

definition consentSetSha256 :: "platform \<Rightarrow> VoteEvidence \<Rightarrow> jstring option \<Rightarrow> jstring result" where
  "consentSetSha256 pl e closeConsentSha256 =
     (let records = consent_records e closeConsentSha256 in
      if length (js_set records) \<noteq> length records
        then throw (integrity_failure ''vote close evidence reuses a consent record'')
      else canonicalSha256 pl (JObj
        [(lit ''schemaVersion'', jstr ''boardagent.vote-certificate-consent-set.v1''),
         (lit ''recordSha256'', JArr (map JStr records))]))"

section \<open>The checks and the tally\<close>

record LockedCloseRow = VoteRow +
  lc_clockSampleId :: "jstring option"
  lc_clockMeasuredAt :: "jstring option"
  lc_clockDriftMicroseconds :: "jstring option"
  lc_clockValidUntil :: "jstring option"

definition close_entry :: "platform \<Rightarrow> ElectorateRow \<Rightarrow> VoteElectorateEntryInput result" where
  "close_entry pl e =
     bindr (canonicalJson pl (el_eligibilitySnapshot e)) (\<lambda>_.
     bindr (canonicalSha256 pl (el_eligibilitySnapshot e)) (\<lambda>sha.
     if \<not> safeHashEqual sha (el_eligibilitySha256 e)
       then throw (integrity_failure ''electorate eligibility evidence does not match its hash'')
     else Inr (entry_of e)))"

definition latest_exclusion :: "VoteEvidence \<Rightarrow> jstring \<Rightarrow> ExclusionRow option" where
  "latest_exclusion e m = map_of (rev (map (\<lambda>(x, _). (xr_memberId x, x)) (ve_exclusions e))) m"

definition close_seats :: "VoteEvidence \<Rightarrow> ElectorSeat list" where
  "close_seats e = map (\<lambda>r. \<lparr>es_memberId = el_memberId r, es_role = voting_member, es_weight = el_votingWeight r,
     es_eligible = True, es_recused = map_option xr_state (latest_exclusion e (el_memberId r)) = Some excluded_state,
     es_chair = el_isChair r\<rparr>) (ve_electorate e)"

definition ballot_attribution_check :: "VoteEvidence \<Rightarrow> 'r LockedCloseRow_scheme \<Rightarrow> BallotRow \<Rightarrow> unit result" where
  "ballot_attribution_check e row b =
     (if br_source b = own_ballot
        then ensure (br_casterMemberId b = br_principalMemberId b \<and> br_proxyGrantId b = None)
          (integrity_failure ''own ballot attribution is invalid'')
      else
      let proxy = (case br_proxyGrantId b of
            None \<Rightarrow> None
          | Some k \<Rightarrow> map_of (rev (map (\<lambda>p. (gr_id (pe_grant p), pe_grant p)) (ve_proxies e))) k) in
      ensure (case proxy of
          None \<Rightarrow> False
        | Some g \<Rightarrow> gr_principalMemberId g = br_principalMemberId b \<and> gr_holderMemberId g = br_casterMemberId b \<and>
            vo_proxyPolicy row = Policy (gr_policy g))
        (integrity_failure ''proxy ballot does not bind its exact frozen grant''))"

definition check_close_ballot :: "platform \<Rightarrow> VoteEvidence \<Rightarrow> 'r LockedCloseRow_scheme \<Rightarrow> BallotEvidence \<Rightarrow> EffectiveBallot list result" where
  "check_close_ballot pl e row x =
     (let b = be_ballot x;
          seat = map_of (rev (map (\<lambda>r. (el_memberId r, r)) (ve_electorate e))) (br_principalMemberId b) in
      if br_packageId b \<noteq> vo_packageId row \<or> (case seat of None \<Rightarrow> True | Some s \<Rightarrow> br_votingWeight b \<noteq> el_votingWeight s)
        then throw (integrity_failure ''ballot does not bind the exact package and frozen principal weight'')
      else if (br_statement b = None) \<noteq> (br_statementSha256 b = None)
        then throw (integrity_failure ''ballot statement evidence is incomplete'')
      else
      bindr (case (br_statement b, br_statementSha256 b) of
          (Some t, Some h) \<Rightarrow>
            bindr (canonical_string pl t) (\<lambda>t. ensure (safeHashEqual (sha256Hex (Text t)) h)
              (integrity_failure ''ballot statement does not match its persisted hash''))
        | _ \<Rightarrow> Inr ()) (\<lambda>_.
      bindr (ballot_attribution_check e row b) (\<lambda>_.
      Inr (if be_disposition x = None
           then [\<lparr>eb_principalMemberId = br_principalMemberId b, eb_casterMemberId = br_casterMemberId b,
             eb_choice = br_choice b, eb_source = br_source b\<rparr>]
           else []))))"

fun js_message :: "js_error \<Rightarrow> string" where
  "js_message (Error m) = m"
| "js_message (RangeError m) = m"
| "js_message (TypeError m) = m"
| "js_message (Coded c m) = m"
| "js_message _ = ''invalid evidence''"

definition close_tally ::
    "platform \<Rightarrow> (jstring \<Rightarrow> jstring \<Rightarrow> int) \<Rightarrow> 'r LockedCloseRow_scheme \<Rightarrow> VoteEvidence \<Rightarrow> (VoteTally \<times> jstring) result" where
  "close_tally pl lc row e =
     (if lc_clockSampleId row = None \<or> lc_clockMeasuredAt row = None \<or> lc_clockDriftMicroseconds row = None \<or>
         lc_clockValidUntil row = None
        then throw (Coded ''vote_close_clock_unhealthy'' ''vote close requires a current healthy clock sample'')
      else
      bindr (mapr (close_entry pl) (ve_electorate e)) (\<lambda>entries.
      bindr (prepareVoteElectorate pl lc (vo_id row) entries) (\<lambda>prepared.
      if \<not> safeHashEqual (pe_electorateSha256 prepared) (vo_electorateSha256 row)
        then throw (integrity_failure ''persisted electorate no longer matches the frozen package'')
      else
      bindr (mapr (check_close_ballot pl e row) (ve_ballots e)) (\<lambda>effective.
      bindr (case tallyVote (close_seats e) (concat effective) (vo_rule row) of
          Inl x \<Rightarrow> throw (integrity_failure (''persisted vote evidence cannot be tallied: '' @ js_message x))
        | Inr t \<Rightarrow> Inr t) (\<lambda>tally.
      bindr (canonicalSha256 pl (canonicalVoteTally tally)) (\<lambda>sha. Inr (tally, sha)))))))"

section \<open>The evidence of a reachable store\<close>

lemma find_id: "x \<in> set xs \<Longrightarrow> \<exists>y. find (\<lambda>z. f z = f x) xs = Some y"
  by (metis (mono_tags, lifting) find_None_iff not_None_eq)

lemma record_sha_defined: "k \<in> cr_id ` set (st_consents st) \<Longrightarrow> \<exists>h. record_sha st k = Some h"
  by (auto simp: record_sha_def dest!: find_id [of _ _ cr_id])

lemma with_consent_fst:
  "(\<And>r. r \<in> set rows \<Longrightarrow> key r \<in> cr_id ` set (st_consents st)) \<Longrightarrow> map fst (with_consent st key rows) = rows"
proof (induction rows)
  case (Cons r rows)
  then obtain h where "record_sha st (key r) = Some h" using record_sha_defined by (metis list.set_intros(1))
  with Cons show ?case by (simp add: with_consent_def)
qed (simp add: with_consent_def)

lemma filter_sort_key: "filter p (sort_key f xs) = sort_key f (filter p xs)"
  by (simp add: filter_sort)

text \<open>The last row of a list sorted by version is the current exclusion.\<close>

lemma fold_later_max:
  "fold later_exclusion xs c = Some y \<Longrightarrow>
     (\<forall>x\<in>set xs. xr_version x \<le> xr_version y) \<and> (\<forall>x. c = Some x \<longrightarrow> xr_version x \<le> xr_version y) \<and>
     (y \<in> set xs \<or> c = Some y)"
proof (induction xs arbitrary: c)
  case (Cons x xs)
  from Cons.IH [OF Cons.prems [unfolded fold_simps]] show ?case
    by (cases c) (auto simp: later_exclusion_def split: if_splits)
qed simp

lemma fold_later_None: "fold later_exclusion xs c = None \<longleftrightarrow> xs = [] \<and> c = None"
  by (induction xs arbitrary: c) (auto simp: later_exclusion_def split: option.splits if_splits)

lemma last_sorted_version:
  assumes "xs \<noteq> []" and "x \<in> set xs"
  shows "xr_version x \<le> xr_version (last (sort_key xr_version xs))"
proof -
  let ?ys = "sort_key xr_version xs"
  have ne: "?ys \<noteq> []" using assms(1) by (metis length_0_conv length_sort)
  have "x \<in> set ?ys" using assms(2) by simp
  then obtain i where i: "i < length ?ys" "?ys ! i = x" by (metis in_set_conv_nth)
  have "map xr_version ?ys ! i \<le> map xr_version ?ys ! (length ?ys - 1)"
    by (rule sorted_nth_mono [OF sorted_sort_key]) (use i ne in auto)
  with i ne show ?thesis by (simp add: last_conv_nth)
qed

lemma last_is_current:
  assumes "distinct (map xr_version xs)"
  shows "(if xs = [] then None else Some (last (sort_key xr_version (sort_key xr_id xs)))) = fold later_exclusion xs None"
proof (cases "xs = []")
  case False
  let ?l = "last (sort_key xr_version (sort_key xr_id xs))"
  have s: "sort_key xr_id xs \<noteq> []" using False by (metis length_0_conv length_sort)
  have l: "?l \<in> set xs" using s by (metis last_in_set length_0_conv length_sort set_sort)
  from False fold_later_None obtain y where y: "fold later_exclusion xs None = Some y" by blast
  with fold_later_max [OF y] have "y \<in> set xs" "xr_version ?l \<le> xr_version y" using l by auto
  moreover from this have "xr_version y \<le> xr_version ?l" using last_sorted_version [OF s, of y] by simp
  ultimately have "?l = y" using assms l by (metis distinct_map inj_onD order_antisym)
  with y False show ?thesis by simp
qed simp

lemma map_of_rev_filter:
  "map_of (rev (map (\<lambda>(x, _). (f x, x)) ys)) m =
     (let zs = filter (\<lambda>x. f x = m) (map fst ys) in if zs = [] then None else Some (last zs))"
proof (induction ys rule: rev_induct)
  case (snoc y ys)
  then show ?case by (cases y) (auto simp: Let_def)
qed simp

lemma evidence_exclusions:
  assumes "keys_ok st"
  shows "latest_exclusion (evidence_of cols st voteId) m = current_exclusion st voteId m"
proof -
  let ?rows = "filter (\<lambda>x. xr_voteId x = voteId) (st_exclusions st)"
  let ?mine = "filter (\<lambda>x. xr_voteId x = voteId \<and> xr_memberId x = m) (st_exclusions st)"
  have d: "distinct (map xr_version ?mine)"
  proof -
    have "distinct (map (\<lambda>x. (xr_voteId x, xr_memberId x, xr_version x)) ?mine)"
      using assms by (simp add: keys_ok_def distinct_map_filter)
    moreover have "map (\<lambda>x. (xr_voteId x, xr_memberId x, xr_version x)) ?mine = map (\<lambda>n. (voteId, m, n)) (map xr_version ?mine)"
      by simp
    ultimately show ?thesis by (simp only: distinct_map)
  qed
  have f: "map fst (ve_exclusions (evidence_of cols st voteId)) = sort_key xr_memberId (sort_key xr_version (sort_key xr_id ?rows))"
    unfolding evidence_of_def by (simp, rule with_consent_fst) (use assms in \<open>auto simp: keys_ok_def list_all_iff\<close>)
  have "filter (\<lambda>x. xr_memberId x = m) (sort_key xr_memberId (sort_key xr_version (sort_key xr_id ?rows))) =
      filter (\<lambda>x. xr_memberId x = m) (sort_key xr_version (sort_key xr_id ?rows))"
    by (rule sort_key_stable)
  also have "\<dots> = sort_key xr_version (sort_key xr_id ?mine)"
    by (simp add: filter_sort_key conj_commute)
  finally show ?thesis
    using last_is_current [OF d] by (simp add: latest_exclusion_def map_of_rev_filter f current_exclusion_def Let_def
      flip: set_empty)
qed

abbreviation vote_rows :: "VoteStore \<Rightarrow> VoteRow \<Rightarrow> ElectorateRow list" where
  "vote_rows st v \<equiv> filter (\<lambda>e. el_voteId e = vo_id v) (st_electorate st)"

lemma canonicalSha256_canonical: "canonicalSha256 pl x = Inr h \<Longrightarrow> \<exists>s. canonicalJson pl x = Inr s"
  by (auto simp: canonicalSha256_def bindr_eq_Inr_iff)

lemma close_entries:
  assumes "opened_with pl lc v es"
  shows "mapr (close_entry pl) (sort_key el_memberId es) = Inr (map entry_of (sort_key el_memberId es))"
proof (rule mapr_total)
  fix e
  assume "e \<in> set (sort_key el_memberId es)"
  then have h: "canonicalSha256 pl (el_eligibilitySnapshot e) = Inr (el_eligibilitySha256 e)"
    using assms by (simp add: opened_with_def)
  from canonicalSha256_canonical [OF h] h show "close_entry pl e = Inr (entry_of e)"
    by (auto simp: close_entry_def safeHashEqual_iff wit_digest [OF h])
qed

lemma close_seats_ok:
  assumes "opened_with pl lc v (vote_rows st v)"
  shows "electorate_ok (close_seats (evidence_of cols st (vo_id v)))"
proof -
  let ?es = "sort_key el_memberId (vote_rows st v)"
  note o = opened_electorate [OF assms]
  have "mset (map el_memberId ?es) = mset (map el_memberId (vote_rows st v))" by simp
  then have "distinct (map el_memberId ?es)" using o(1) by (metis mset_eq_imp_distinct_iff)
  moreover have "length (filter el_isChair ?es) \<le> 1" using o(2) by (simp add: filter_sort_key)
  moreover have "0 < el_votingWeight e \<and> el_votingWeight e \<le> MAX_VOTING_WEIGHT" if "e \<in> set ?es" for e
    using o(3) [of e] that by (simp add: MAX_ELECTORATE_WEIGHT_def MAX_VOTING_WEIGHT_def)
  ultimately show ?thesis
    by (simp add: electorate_ok_def close_seats_def evidence_of_def comp_def list_all_iff seat_ok_def filter_map)
qed

lemma close_seat_eligible:
  assumes "keys_ok st" and "in_electorate st voteId m" and "\<not> is_excluded st voteId m"
  shows "eligible_member (close_seats (evidence_of cols st voteId)) m"
proof -
  from assms(2) obtain e where "e \<in> set (st_electorate st)" "el_voteId e = voteId" "el_memberId e = m"
    by (auto simp: in_electorate_def)
  moreover have "map_option xr_state (latest_exclusion (evidence_of cols st voteId) m) \<noteq> Some excluded_state"
    using assms(3) by (simp add: evidence_exclusions [OF assms(1)] is_excluded_def)
  ultimately show ?thesis
    by (auto simp: eligible_member_def close_seats_def evidence_of_def eligibleSeat_def intro!: bexI [of _ e])
qed

text \<open>The members of the electorate, the grants and the ballots of the evidence.\<close>

lemma evidence_grant:
  assumes "keys_ok st" and "g \<in> set (st_grants st)" and "gr_voteId g = voteId"
  shows "map_of (rev (map (\<lambda>p. (gr_id (pe_grant p), pe_grant p)) (ve_proxies (evidence_of cols st voteId)))) (gr_id g) = Some g"
proof -
  let ?gs = "sort_key gr_id (filter (\<lambda>g. gr_voteId g = voteId) (st_grants st))"
  have m: "map pe_grant (ve_proxies (evidence_of cols st voteId)) = ?gs"
  proof -
    have "map pe_grant (ve_proxies (evidence_of cols st voteId)) = map fst (with_consent st gr_consentRecordId ?gs)"
      by (simp add: evidence_of_def proxy_evidence_def comp_def case_prod_unfold)
    also have "\<dots> = ?gs" by (rule with_consent_fst) (use assms(1) in \<open>auto simp: keys_ok_def list_all_iff\<close>)
    finally show ?thesis .
  qed
  have "mset (map gr_id ?gs) = mset (map gr_id (filter (\<lambda>g. gr_voteId g = voteId) (st_grants st)))" by simp
  moreover have "distinct (map gr_id (filter (\<lambda>g. gr_voteId g = voteId) (st_grants st)))"
    using assms(1) by (simp add: keys_ok_def distinct_map_filter)
  ultimately have "distinct (map gr_id ?gs)" by (metis mset_eq_imp_distinct_iff)
  then have "map_of (rev (map (\<lambda>g. (gr_id g, g)) ?gs)) (gr_id g) = Some g"
    by (intro map_of_is_SomeI) (use assms(2,3) in \<open>auto simp: comp_def simp flip: rev_map\<close>)
  moreover have "map (\<lambda>p. (gr_id (pe_grant p), pe_grant p)) (ve_proxies (evidence_of cols st voteId)) = map (\<lambda>g. (gr_id g, g)) ?gs"
    unfolding m [symmetric] by simp
  ultimately show ?thesis by (simp only:)
qed

lemma evidence_seat:
  assumes "store_ok pl st" and "e \<in> set (st_electorate st)" and "el_voteId e = voteId"
  shows "map_of (rev (map (\<lambda>r. (el_memberId r, r)) (ve_electorate (evidence_of cols st voteId)))) (el_memberId e) = Some e"
proof -
  let ?rows = "filter (\<lambda>e. el_voteId e = voteId) (st_electorate st)"
  have "distinct (map (\<lambda>e. (el_voteId e, el_memberId e)) ?rows)" using assms(1) by (simp add: store_ok_def distinct_map_filter)
  moreover have "map (\<lambda>e. (el_voteId e, el_memberId e)) ?rows = map (\<lambda>m. (voteId, m)) (map el_memberId ?rows)" by simp
  ultimately have "distinct (map el_memberId ?rows)" by (simp only: distinct_map)
  then have "distinct (map el_memberId (sort_key el_memberId ?rows))" by (metis mset_eq_imp_distinct_iff mset_map mset_sort)
  then show ?thesis
    by (intro map_of_is_SomeI) (use assms(2,3) in \<open>auto simp: evidence_of_def comp_def simp flip: rev_map\<close>)
qed

lemma evidence_ballots:
  assumes "store_ok pl st"
  shows "map be_ballot (ve_ballots (evidence_of cols st voteId)) =
    sort_key br_principalMemberId (sort_key (\<lambda>b. rc_castAt cols (br_id b)) (sort_key br_id
      (filter (\<lambda>b. br_voteId b = voteId) (st_ballots st))))"
proof -
  let ?bs = "sort_key br_principalMemberId (sort_key (\<lambda>b. rc_castAt cols (br_id b)) (sort_key br_id
      (filter (\<lambda>b. br_voteId b = voteId) (st_ballots st))))"
  have "map be_ballot (ve_ballots (evidence_of cols st voteId)) = map fst (with_consent st br_consentRecordId ?bs)"
    by (simp add: evidence_of_def ballot_evidence_def comp_def case_prod_unfold)
  also have "\<dots> = ?bs"
  proof (rule with_consent_fst)
    fix b
    assume "b \<in> set ?bs"
    then have "ballot_bound pl st b" using assms by (simp add: store_ok_def list_all_iff)
    then obtain h where "ballot_consented pl st b h" unfolding ballot_bound_def by blast
    then obtain c where "c \<in> set (st_consents st)" "cr_id c = br_consentRecordId b"
      unfolding ballot_consented_def consents_to_def by blast
    then show "br_consentRecordId b \<in> cr_id ` set (st_consents st)" by (metis image_eqI)
  qed
  finally show ?thesis .
qed

lemma evidence_disposition:
  assumes "x \<in> set (ve_ballots (evidence_of cols st voteId))"
  shows "be_disposition x = None \<longleftrightarrow> \<not> has_disposition st (be_ballot x)"
  using assms by (auto simp: evidence_of_def ballot_evidence_def has_disposition_def list_ex_iff find_None_iff)

definition cast_entry :: "BallotRow \<Rightarrow> EffectiveBallot" where
  "cast_entry b = \<lparr>eb_principalMemberId = br_principalMemberId b, eb_casterMemberId = br_casterMemberId b,
     eb_choice = br_choice b, eb_source = br_source b\<rparr>"

lemma check_ballot_ok:
  assumes "store_ok pl st" and "keys_ok st" and "v \<in> set (st_votes st)" and "x \<in> set (ve_ballots (evidence_of cols st (vo_id v)))"
    and "vo_packageId row = vo_packageId v" and "vo_proxyPolicy row = vo_proxyPolicy v"
  shows "check_close_ballot pl (evidence_of cols st (vo_id v)) row x =
    Inr (if has_disposition st (be_ballot x) then [] else [cast_entry (be_ballot x)])"
proof -
  let ?b = "be_ballot x" and ?e = "evidence_of cols st (vo_id v)"
  have "?b \<in> set (map be_ballot (ve_ballots ?e))" using assms(4) by simp
  then have b: "?b \<in> set (st_ballots st)" "br_voteId ?b = vo_id v" by (simp_all add: evidence_ballots [OF assms(1)])
  then have "ballot_bound pl st ?b" using assms(1) by (simp add: store_ok_def list_all_iff)
  then obtain v' e where v': "v' \<in> set (st_votes st)" "vo_id v' = br_voteId ?b" "vo_packageId v' = br_packageId ?b"
      "ballot_attributed st (vo_proxyPolicy v') ?b"
    and e: "e \<in> set (st_electorate st)" "el_voteId e = br_voteId ?b" "el_memberId e = br_principalMemberId ?b"
      "el_votingWeight e = br_votingWeight ?b"
    and s: "br_statementSha256 ?b = map_option (\<lambda>t. sha256Hex (Text t)) (br_statement ?b)"
      "\<forall>t. br_statement ?b = Some t \<longrightarrow> canonical_string pl t = Inr t"
    unfolding ballot_bound_def by blast
  have "distinct (map vo_id (st_votes st))" using assms(1) by (simp add: store_ok_def)
  with v'(1,2) b(2) assms(3) have vv: "v' = v" by (auto simp: distinct_map inj_on_def)
  have seat: "map_of (rev (map (\<lambda>r. (el_memberId r, r)) (ve_electorate ?e))) (br_principalMemberId ?b) = Some e"
    using evidence_seat [OF assms(1) e(1)] e(2,3) b(2) by simp
  have a: "ballot_attribution_check ?e row ?b = Inr ()"
  proof (cases "br_source ?b")
    case own_ballot
    then show ?thesis using v'(4) by (simp add: ballot_attribution_check_def ballot_attributed_def)
  next
    case proxy_ballot
    with v'(4) obtain g where g: "g \<in> set (st_grants st)" "Some (gr_id g) = br_proxyGrantId ?b" "gr_voteId g = br_voteId ?b"
      "gr_principalMemberId g = br_principalMemberId ?b" "gr_holderMemberId g = br_casterMemberId ?b"
      "vo_proxyPolicy v = Policy (gr_policy g)"
      by (auto simp: ballot_attributed_def proxy_backed_def vv)
    have "map_of (rev (map (\<lambda>p. (gr_id (pe_grant p), pe_grant p)) (ve_proxies ?e))) (gr_id g) = Some g"
      using evidence_grant [OF assms(2) g(1)] g(3) b(2) by simp
    with g proxy_ballot assms(6) show ?thesis
      by (simp add: ballot_attribution_check_def Let_def flip: g(2))
  qed
  have st: "(case (br_statement ?b, br_statementSha256 ?b) of
          (Some t, Some h) \<Rightarrow> bindr (canonical_string pl t) (\<lambda>t. ensure (safeHashEqual (sha256Hex (Text t)) h)
              (integrity_failure ''ballot statement does not match its persisted hash''))
        | _ \<Rightarrow> Inr ()) = Inr ()"
    using s by (cases "br_statement ?b") (simp_all add: safeHashEqual_iff sha256Hex_schema)
  have n: "(br_statement ?b = None) = (br_statementSha256 ?b = None)" by (simp add: s(1))
  show ?thesis
    unfolding check_close_ballot_def Let_def seat st a
    using v'(3) e(4) assms(5) n evidence_disposition [OF assms(4)] by (simp add: vv cast_entry_def)
qed

text \<open>The row the close locks: the vote with a current clock sample.\<close>

definition closes :: "VoteRow \<Rightarrow> 'r LockedCloseRow_scheme \<Rightarrow> bool" where
  "closes v row \<longleftrightarrow>
     vo_id row = vo_id v \<and> vo_packageId row = vo_packageId v \<and> vo_proxyPolicy row = vo_proxyPolicy v \<and>
     vo_electorateSha256 row = vo_electorateSha256 v \<and> vo_rule row = vo_rule v \<and> lc_clockSampleId row \<noteq> None \<and>
     lc_clockMeasuredAt row \<noteq> None \<and> lc_clockDriftMicroseconds row \<noteq> None \<and> lc_clockValidUntil row \<noteq> None"

definition effective_list :: "VoteStore \<Rightarrow> jstring \<Rightarrow> EffectiveBallot list" where
  "effective_list st voteId = map cast_entry (sort_key br_principalMemberId (effective_ballots st voteId))"

lemma effective_list_eq:
  assumes "store_ok pl st"
  shows "concat (map (\<lambda>x. if has_disposition st (be_ballot x) then [] else [cast_entry (be_ballot x)])
      (ve_ballots (evidence_of cols st voteId))) = effective_list st voteId"
proof -
  have c: "concat (map (\<lambda>x. if p (f x) then [] else [g (f x)]) xs) = map g (filter (\<lambda>b. \<not> p b) (map f xs))"
    for p and f :: "BallotEvidence \<Rightarrow> BallotRow" and g :: "BallotRow \<Rightarrow> EffectiveBallot" and xs
    by (induction xs) simp_all
  have d: "distinct (map br_principalMemberId (effective_ballots st voteId))"
    using assms by (simp add: store_ok_def one_ballot_each_def)
  have "sort_key br_principalMemberId (sort_key g (sort_key br_id (effective_ballots st voteId))) =
      sort_key br_principalMemberId (effective_ballots st voteId)" for g :: "BallotRow \<Rightarrow> jstring"
    by (rule sort_key_inj_key_eq) (use d in \<open>simp_all add: distinct_map\<close>)
  then show ?thesis
    unfolding c evidence_ballots [OF assms]
    by (simp add: effective_list_def effective_ballots_def filter_sort_key conj_commute)
qed

lemma effective_list_ok:
  assumes "store_ok pl st" and "keys_ok st"
  shows "ballots_ok (close_seats (evidence_of cols st voteId)) (effective_list st voteId)"
proof -
  let ?E = "close_seats (evidence_of cols st voteId)"
  have "ballot_ok ?E (cast_entry b)" if b: "b \<in> set (effective_ballots st voteId)" for b
  proof -
    from b have r: "b \<in> set (st_ballots st)" "br_voteId b = voteId" "\<not> has_disposition st b"
      by (simp_all add: effective_ballots_def)
    with assms(1) have x: "\<not> is_excluded st voteId (br_principalMemberId b)" "\<not> is_excluded st voteId (br_casterMemberId b)"
      by (auto simp: store_ok_def nobody_excluded_def)
    have bb: "ballot_bound pl st b" using assms(1) r(1) by (simp add: store_ok_def list_all_iff)
    then obtain p where p: "ballot_attributed st p b" unfolding ballot_bound_def by blast
    from bb r(2) obtain e where "e \<in> set (st_electorate st)" "el_voteId e = voteId" "el_memberId e = br_principalMemberId b"
      unfolding ballot_bound_def by blast
    then have "in_electorate st voteId (br_principalMemberId b)" by (force simp: in_electorate_def)
    moreover from bb r(2) have "in_electorate st voteId (br_casterMemberId b)" unfolding ballot_bound_def by blast
    ultimately have "eligible_member ?E (br_principalMemberId b)" "eligible_member ?E (br_casterMemberId b)"
      using close_seat_eligible [OF assms(2)] x by blast+
    with p show ?thesis
      by (auto simp: ballot_ok_def cast_entry_def ballot_attributed_def split: BallotSource.splits)
  qed
  moreover have "distinct (map br_principalMemberId (effective_ballots st voteId))"
    using assms(1) by (simp add: store_ok_def one_ballot_each_def)
  then have "distinct (map br_principalMemberId (sort_key br_principalMemberId (effective_ballots st voteId)))"
    by (rule mset_eq_imp_distinct_iff [THEN iffD2, rotated]) simp
  ultimately show ?thesis
    by (simp add: ballots_ok_def effective_list_def list_all_iff comp_def cast_entry_def)
qed

lemma close_tally_ok:
  assumes "vote_inv pl lc st" and "v \<in> set (st_votes st)" and "closes v row"
  shows "close_tally pl lc row (evidence_of cols st (vo_id v)) =
    bindr (canonicalSha256 pl (canonicalVoteTally (tally_spec (close_seats (evidence_of cols st (vo_id v)))
        (effective_list st (vo_id v)) (vo_rule v))))
      (\<lambda>sha. Inr (tally_spec (close_seats (evidence_of cols st (vo_id v))) (effective_list st (vo_id v)) (vo_rule v), sha))"
proof -
  let ?e = "evidence_of cols st (vo_id v)"
  have s: "store_ok pl st" "keys_ok st" using assms(1) by (simp_all add: vote_inv_def)
  have o: "opened_with pl lc v (vote_rows st v)" using assms(1,2) by (simp add: vote_inv_def electorates_ok_def)
  have el: "ve_electorate ?e = sort_key el_memberId (vote_rows st v)" by (simp add: evidence_of_def)
  from o obtain p where p: "prepareVoteElectorate pl lc (vo_id v) (map entry_of (sort_key el_memberId (vote_rows st v))) = Inr p"
    "pe_electorateSha256 p = vo_electorateSha256 v" unfolding opened_with_def by blast
  have d: "Sha256HexSchema (pe_electorateSha256 p)"
    using p(1) by (auto simp: prepareVoteElectorate_def bindr_eq_Inr_iff Let_def dest: wit_digest split: if_splits)
  have b: "mapr (check_close_ballot pl ?e row) (ve_ballots ?e) =
      Inr (map (\<lambda>x. if has_disposition st (be_ballot x) then [] else [cast_entry (be_ballot x)]) (ve_ballots ?e))"
    by (rule mapr_total, rule check_ballot_ok [OF s assms(2)]) (use assms(3) in \<open>simp_all add: closes_def\<close>)
  have t: "tallyVote (close_seats ?e) (effective_list st (vo_id v)) (vo_rule v) =
      Inr (tally_spec (close_seats ?e) (effective_list st (vo_id v)) (vo_rule v))"
    by (rule tallyVote_ok [OF close_seats_ok [OF o] effective_list_ok [OF s]])
  from assms(3) obtain c1 c2 c3 c4 where "lc_clockSampleId row = Some c1" "lc_clockMeasuredAt row = Some c2"
    "lc_clockDriftMicroseconds row = Some c3" "lc_clockValidUntil row = Some c4" "vo_id row = vo_id v"
    "vo_electorateSha256 row = vo_electorateSha256 v" "vo_rule row = vo_rule v"
    by (auto simp: closes_def)
  then show ?thesis
    using d
    by (simp add: close_tally_def el close_entries [OF o] p b [unfolded el] effective_list_eq [OF s(1)] t
        safeHashEqual_iff)
qed
end
