(* ===== verification/Certificate.thy ===== *)
theory Certificate
  imports Vote_Close Feed_Cursor Question
begin

text \<open>
  Signed vote certificates: \<^verbatim>\<open>lib/audit/src/certificate.ts\<close>, and the offline check of a certificate bundle in
  \<^verbatim>\<open>offline.ts\<close>. Ed25519 of \<^verbatim>\<open>node:crypto\<close> is the argument \<open>signatures\<close>; \<open>ed25519\<close> states what is relied on: a
  signature has 64 bytes and verifies under the public half of the key it was made with. Decimal numbers are strings, as in
  the payload. A value of the wrong shape is refused by the same schemas before these definitions apply.
\<close>

section \<open>Signatures\<close>

record 'k signatures =
  sg_sign :: "'k \<Rightarrow> byte list \<Rightarrow> byte list"
  sg_verify :: "'k \<Rightarrow> byte list \<Rightarrow> byte list \<Rightarrow> bool"
  sg_public :: "'k \<Rightarrow> 'k"
  sg_import :: "(jstring \<times> json) list \<Rightarrow> 'k option"

definition ed25519 :: "'k signatures \<Rightarrow> bool" where
  "ed25519 sg \<longleftrightarrow>
     (\<forall>k m. length (sg_sign sg k m) = 64 \<and> sg_verify sg (sg_public sg k) m (sg_sign sg k m))"

section \<open>The payload\<close>

record DecimalFraction =
  df_numerator :: jstring
  df_denominator :: jstring

record CertificateApprovalRule =
  ca_id :: jstring
  ca_canonicalSha256 :: jstring
  ca_approval :: DecimalFraction
  ca_quorum :: DecimalFraction
  ca_approvalDenominator :: ApprovalDenominator
  ca_abstentionsCountForQuorum :: bool
  ca_tieBehavior :: TieBehavior
  ca_proxyPolicy :: ProxyPolicy
  ca_closeMode :: TemplateCloseMode

record CertificateElectorateEntry =
  ce_memberId :: jstring
  ce_membershipVersionId :: jstring
  ce_isChair :: bool
  ce_votingWeight :: jstring
  ce_eligibilitySha256 :: jstring

record CertificateBallotDisposition =
  cd_id :: jstring
  cd_effect :: DispositionEffect
  cd_supersedingBallotId :: "jstring option"
  cd_replacementVoteId :: "jstring option"
  cd_auditEventId :: "jstring option"
  cd_createdAt :: jstring

record CertificateBallotEntry =
  cb_id :: jstring
  cb_principalMemberId :: jstring
  cb_casterMemberId :: jstring
  cb_choice :: BallotChoice
  cb_statementSha256 :: "jstring option"
  cb_votingWeight :: jstring
  cb_source :: BallotSource
  cb_proxyGrantId :: "jstring option"
  cb_consentRecordId :: jstring
  cb_consentRecordSha256 :: jstring
  cb_castAt :: jstring
  cb_disposition :: "CertificateBallotDisposition option"

record CertificateProxyRevocation =
  cv_id :: jstring
  cv_effect :: RevocationEffect
  cv_consentRecordId :: "jstring option"
  cv_consentRecordSha256 :: "jstring option"
  cv_revokedAt :: jstring

record CertificateProxyEntry =
  cp_id :: jstring
  cp_principalMemberId :: jstring
  cp_holderMemberId :: jstring
  cp_policy :: PrincipalSupersessionRule
  cp_consentRecordId :: jstring
  cp_consentRecordSha256 :: jstring
  cp_grantedAt :: jstring
  cp_expiresAt :: "jstring option"
  cp_revocation :: "CertificateProxyRevocation option"

record CertificateExclusionEntry =
  cx_id :: jstring
  cx_memberId :: jstring
  cx_version :: int
  cx_state :: RecusalState
  cx_reasonSha256 :: jstring
  cx_actorMemberId :: jstring
  cx_consentRecordId :: jstring
  cx_consentRecordSha256 :: jstring
  cx_effectiveAt :: jstring

record CanonicalVoteTally =
  ct_eligibleWeight :: jstring
  ct_participatingWeight :: jstring
  ct_yesWeight :: jstring
  ct_noWeight :: jstring
  ct_abstainWeight :: jstring
  ct_quorumMet :: bool
  ct_approvalMet :: bool
  ct_outcome :: VoteOutcome

record CertificateVote =
  cw_id :: jstring
  cw_title :: jstring
  cw_resolutionVersionId :: jstring
  cw_resolutionVersion :: int
  cw_resolutionText :: jstring
  cw_resolutionSha256 :: jstring
  cw_decisionPackageId :: jstring
  cw_decisionPackageVersion :: int
  cw_decisionPackageSha256 :: jstring
  cw_closeMode :: TemplateCloseMode
  cw_deadlineAt :: jstring

record CertificatePackageEvidence =
  cm_submissionManifestSha256 :: jstring
  cm_documentManifestSha256 :: jstring
  cm_questionCutoffSha256 :: jstring

record CertificateGovernance =
  cg_governanceProfileId :: jstring
  cg_governanceProfileSha256 :: jstring
  cg_rulesetId :: jstring
  cg_rulesetSha256 :: jstring
  cg_matterEvaluationId :: jstring
  cg_matterEvaluationResultSha256 :: jstring
  cg_selectedRulesetRuleId :: jstring
  cg_selectedRulesetRuleSha256 :: jstring
  cg_ruleOverrideId :: "jstring option"
  cg_ruleOverrideSha256 :: "jstring option"
  cg_approvalRule :: CertificateApprovalRule

record CertificateClose =
  cl_actorMemberId :: "jstring option"
  cl_consentRecordId :: "jstring option"
  cl_consentRecordSha256 :: "jstring option"
  cl_clockSampleId :: jstring
  cl_measuredAt :: jstring
  cl_driftMicroseconds :: jstring
  cl_validUntil :: jstring

record VoteCertificatePayload =
  vp_certificateId :: jstring
  vp_publicId :: jstring
  vp_outcomeId :: jstring
  vp_instanceId :: jstring
  vp_organizationId :: jstring
  vp_boardId :: jstring
  vp_vote :: CertificateVote
  vp_packageEvidence :: CertificatePackageEvidence
  vp_governance :: CertificateGovernance
  vp_electorateSha256 :: jstring
  vp_electorate :: "CertificateElectorateEntry list"
  vp_exclusions :: "CertificateExclusionEntry list"
  vp_proxies :: "CertificateProxyEntry list"
  vp_ballots :: "CertificateBallotEntry list"
  vp_consentSetSha256 :: jstring
  vp_tally :: CanonicalVoteTally
  vp_tallySha256 :: jstring
  vp_outcome :: VoteOutcome
  vp_close :: CertificateClose
  vp_closingAuditEventId :: jstring
  vp_closingAuditSequence :: jstring
  vp_closingAuditHash :: jstring
  vp_preparedAt :: jstring
  vp_keyId :: jstring
  vp_signingKeyId :: jstring

section \<open>The payload as JSON\<close>

definition decimal_fraction_json :: "DecimalFraction \<Rightarrow> json" where
  "decimal_fraction_json f = JObj [(lit ''numerator'', JStr (df_numerator f)), (lit ''denominator'', JStr (df_denominator f))]"

fun policy_name :: "ProxyPolicy \<Rightarrow> jstring" where
  "policy_name (Policy p) = supersession_name p"
| "policy_name proxy_forbidden = lit ''forbidden''"

fun disposition_name :: "DispositionEffect \<Rightarrow> jstring" where
  "disposition_name superseded = lit ''superseded''"
| "disposition_name invalidated_by_recusal = lit ''invalidated_by_recusal''"
| "disposition_name invalidated_by_vote_replacement = lit ''invalidated_by_vote_replacement''"

fun revocation_name :: "RevocationEffect \<Rightarrow> jstring" where
  "revocation_name grant_revoked = lit ''revoked''"
| "revocation_name grant_expired = lit ''expired''"
| "revocation_name grant_superseded = lit ''superseded''"

fun source_name :: "BallotSource \<Rightarrow> jstring" where
  "source_name own_ballot = lit ''own''"
| "source_name proxy_ballot = lit ''proxy''"

definition certificate_rule_json :: "CertificateApprovalRule \<Rightarrow> json" where
  "certificate_rule_json r = JObj
     [(lit ''id'', JStr (ca_id r)), (lit ''canonicalSha256'', JStr (ca_canonicalSha256 r)),
      (lit ''approval'', decimal_fraction_json (ca_approval r)), (lit ''quorum'', decimal_fraction_json (ca_quorum r)),
      (lit ''approvalDenominator'', JStr (denominator_name (ca_approvalDenominator r))),
      (lit ''abstentionsCountForQuorum'', JBool (ca_abstentionsCountForQuorum r)),
      (lit ''tieBehavior'', JStr (tie_name (ca_tieBehavior r))),
      (lit ''proxyPolicy'', JStr (policy_name (ca_proxyPolicy r))),
      (lit ''closeMode'', JStr (close_mode_name (ca_closeMode r)))]"

definition certificate_seat_json :: "CertificateElectorateEntry \<Rightarrow> json" where
  "certificate_seat_json e = JObj
     [(lit ''memberId'', JStr (ce_memberId e)), (lit ''membershipVersionId'', JStr (ce_membershipVersionId e)),
      (lit ''seatRole'', jstr ''voting_member''), (lit ''isChair'', JBool (ce_isChair e)),
      (lit ''votingWeight'', JStr (ce_votingWeight e)), (lit ''eligibilitySha256'', JStr (ce_eligibilitySha256 e))]"

definition certificate_disposition_json :: "CertificateBallotDisposition \<Rightarrow> json" where
  "certificate_disposition_json d = JObj
     [(lit ''id'', JStr (cd_id d)), (lit ''effect'', JStr (disposition_name (cd_effect d))),
      (lit ''supersedingBallotId'', nullable JStr (cd_supersedingBallotId d)),
      (lit ''replacementVoteId'', nullable JStr (cd_replacementVoteId d)),
      (lit ''auditEventId'', nullable JStr (cd_auditEventId d)), (lit ''createdAt'', JStr (cd_createdAt d))]"

definition certificate_ballot_json :: "CertificateBallotEntry \<Rightarrow> json" where
  "certificate_ballot_json b = JObj
     [(lit ''id'', JStr (cb_id b)), (lit ''principalMemberId'', JStr (cb_principalMemberId b)),
      (lit ''casterMemberId'', JStr (cb_casterMemberId b)), (lit ''choice'', JStr (choice_name (cb_choice b))),
      (lit ''statementSha256'', nullable JStr (cb_statementSha256 b)), (lit ''votingWeight'', JStr (cb_votingWeight b)),
      (lit ''source'', JStr (source_name (cb_source b))), (lit ''proxyGrantId'', nullable JStr (cb_proxyGrantId b)),
      (lit ''consentRecordId'', JStr (cb_consentRecordId b)),
      (lit ''consentRecordSha256'', JStr (cb_consentRecordSha256 b)), (lit ''castAt'', JStr (cb_castAt b)),
      (lit ''disposition'', nullable certificate_disposition_json (cb_disposition b))]"

definition certificate_revocation_json :: "CertificateProxyRevocation \<Rightarrow> json" where
  "certificate_revocation_json r = JObj
     [(lit ''id'', JStr (cv_id r)), (lit ''effect'', JStr (revocation_name (cv_effect r))),
      (lit ''consentRecordId'', nullable JStr (cv_consentRecordId r)),
      (lit ''consentRecordSha256'', nullable JStr (cv_consentRecordSha256 r)), (lit ''revokedAt'', JStr (cv_revokedAt r))]"

definition certificate_proxy_json :: "CertificateProxyEntry \<Rightarrow> json" where
  "certificate_proxy_json p = JObj
     [(lit ''id'', JStr (cp_id p)), (lit ''principalMemberId'', JStr (cp_principalMemberId p)),
      (lit ''holderMemberId'', JStr (cp_holderMemberId p)), (lit ''policy'', JStr (supersession_name (cp_policy p))),
      (lit ''consentRecordId'', JStr (cp_consentRecordId p)),
      (lit ''consentRecordSha256'', JStr (cp_consentRecordSha256 p)), (lit ''grantedAt'', JStr (cp_grantedAt p)),
      (lit ''expiresAt'', nullable JStr (cp_expiresAt p)),
      (lit ''revocation'', nullable certificate_revocation_json (cp_revocation p))]"

definition certificate_exclusion_json :: "CertificateExclusionEntry \<Rightarrow> json" where
  "certificate_exclusion_json x = JObj
     [(lit ''id'', JStr (cx_id x)), (lit ''memberId'', JStr (cx_memberId x)), (lit ''version'', JNum (cx_version x)),
      (lit ''state'', JStr (recusalState_name (cx_state x))), (lit ''reasonSha256'', JStr (cx_reasonSha256 x)),
      (lit ''actorMemberId'', JStr (cx_actorMemberId x)), (lit ''consentRecordId'', JStr (cx_consentRecordId x)),
      (lit ''consentRecordSha256'', JStr (cx_consentRecordSha256 x)), (lit ''effectiveAt'', JStr (cx_effectiveAt x))]"

definition certificate_tally_json :: "CanonicalVoteTally \<Rightarrow> json" where
  "certificate_tally_json t = JObj
     [(lit ''schemaVersion'', jstr ''boardagent.vote-tally.v1''),
      (lit ''eligibleWeight'', JStr (ct_eligibleWeight t)), (lit ''participatingWeight'', JStr (ct_participatingWeight t)),
      (lit ''yesWeight'', JStr (ct_yesWeight t)), (lit ''noWeight'', JStr (ct_noWeight t)),
      (lit ''abstainWeight'', JStr (ct_abstainWeight t)), (lit ''quorumMet'', JBool (ct_quorumMet t)),
      (lit ''approvalMet'', JBool (ct_approvalMet t)), (lit ''outcome'', JStr (outcome_name (ct_outcome t)))]"

definition certificate_vote_json :: "CertificateVote \<Rightarrow> json" where
  "certificate_vote_json v = JObj
     [(lit ''id'', JStr (cw_id v)), (lit ''title'', JStr (cw_title v)),
      (lit ''resolutionVersionId'', JStr (cw_resolutionVersionId v)),
      (lit ''resolutionVersion'', JNum (cw_resolutionVersion v)), (lit ''resolutionText'', JStr (cw_resolutionText v)),
      (lit ''resolutionSha256'', JStr (cw_resolutionSha256 v)),
      (lit ''decisionPackageId'', JStr (cw_decisionPackageId v)),
      (lit ''decisionPackageVersion'', JNum (cw_decisionPackageVersion v)),
      (lit ''decisionPackageSha256'', JStr (cw_decisionPackageSha256 v)),
      (lit ''closeMode'', JStr (close_mode_name (cw_closeMode v))), (lit ''deadlineAt'', JStr (cw_deadlineAt v))]"

definition package_evidence_json :: "CertificatePackageEvidence \<Rightarrow> json" where
  "package_evidence_json e = JObj
     [(lit ''submissionManifestSha256'', JStr (cm_submissionManifestSha256 e)),
      (lit ''documentManifestSha256'', JStr (cm_documentManifestSha256 e)),
      (lit ''questionCutoffSha256'', JStr (cm_questionCutoffSha256 e))]"

definition certificate_governance_json :: "CertificateGovernance \<Rightarrow> json" where
  "certificate_governance_json g = JObj
     [(lit ''governanceProfileId'', JStr (cg_governanceProfileId g)),
      (lit ''governanceProfileSha256'', JStr (cg_governanceProfileSha256 g)), (lit ''rulesetId'', JStr (cg_rulesetId g)),
      (lit ''rulesetSha256'', JStr (cg_rulesetSha256 g)), (lit ''matterEvaluationId'', JStr (cg_matterEvaluationId g)),
      (lit ''matterEvaluationResultSha256'', JStr (cg_matterEvaluationResultSha256 g)),
      (lit ''selectedRulesetRuleId'', JStr (cg_selectedRulesetRuleId g)),
      (lit ''selectedRulesetRuleSha256'', JStr (cg_selectedRulesetRuleSha256 g)),
      (lit ''ruleOverrideId'', nullable JStr (cg_ruleOverrideId g)),
      (lit ''ruleOverrideSha256'', nullable JStr (cg_ruleOverrideSha256 g)),
      (lit ''approvalRule'', certificate_rule_json (cg_approvalRule g))]"

definition certificate_close_json :: "CertificateClose \<Rightarrow> json" where
  "certificate_close_json c = JObj
     [(lit ''actorMemberId'', nullable JStr (cl_actorMemberId c)),
      (lit ''consentRecordId'', nullable JStr (cl_consentRecordId c)),
      (lit ''consentRecordSha256'', nullable JStr (cl_consentRecordSha256 c)),
      (lit ''clockSampleId'', JStr (cl_clockSampleId c)), (lit ''measuredAt'', JStr (cl_measuredAt c)),
      (lit ''driftMicroseconds'', JStr (cl_driftMicroseconds c)), (lit ''validUntil'', JStr (cl_validUntil c))]"

definition certificate_json :: "VoteCertificatePayload \<Rightarrow> json" where
  "certificate_json p = JObj
     [(lit ''schema'', jstr ''boardagent.vote-certificate.v1''), (lit ''certificateId'', JStr (vp_certificateId p)),
      (lit ''publicId'', JStr (vp_publicId p)), (lit ''outcomeId'', JStr (vp_outcomeId p)),
      (lit ''instanceId'', JStr (vp_instanceId p)), (lit ''organizationId'', JStr (vp_organizationId p)),
      (lit ''boardId'', JStr (vp_boardId p)), (lit ''vote'', certificate_vote_json (vp_vote p)),
      (lit ''packageEvidence'', package_evidence_json (vp_packageEvidence p)),
      (lit ''governance'', certificate_governance_json (vp_governance p)),
      (lit ''electorateSha256'', JStr (vp_electorateSha256 p)),
      (lit ''electorate'', JArr (map certificate_seat_json (vp_electorate p))),
      (lit ''exclusions'', JArr (map certificate_exclusion_json (vp_exclusions p))),
      (lit ''proxies'', JArr (map certificate_proxy_json (vp_proxies p))),
      (lit ''ballots'', JArr (map certificate_ballot_json (vp_ballots p))),
      (lit ''consentSetSha256'', JStr (vp_consentSetSha256 p)), (lit ''tally'', certificate_tally_json (vp_tally p)),
      (lit ''tallySha256'', JStr (vp_tallySha256 p)), (lit ''outcome'', JStr (outcome_name (vp_outcome p))),
      (lit ''close'', certificate_close_json (vp_close p)),
      (lit ''closingAuditEventId'', JStr (vp_closingAuditEventId p)),
      (lit ''closingAuditSequence'', JStr (vp_closingAuditSequence p)),
      (lit ''closingAuditHash'', JStr (vp_closingAuditHash p)), (lit ''preparedAt'', JStr (vp_preparedAt p)),
      (lit ''keyId'', JStr (vp_keyId p)), (lit ''signingKeyId'', JStr (vp_signingKeyId p))]"

section \<open>The schemas\<close>

definition DecimalFractionSchema :: "DecimalFraction \<Rightarrow> bool" where
  "DecimalFractionSchema f \<longleftrightarrow> unsigned_decimal (df_numerator f) \<and> positive_decimal (df_denominator f)"

definition CertificateApprovalRuleSchema :: "CertificateApprovalRule \<Rightarrow> bool" where
  "CertificateApprovalRuleSchema r \<longleftrightarrow> UuidV7Schema (ca_id r) \<and> Sha256HexSchema (ca_canonicalSha256 r) \<and>
     DecimalFractionSchema (ca_approval r) \<and> DecimalFractionSchema (ca_quorum r)"

definition CertificateElectorateEntrySchema :: "CertificateElectorateEntry \<Rightarrow> bool" where
  "CertificateElectorateEntrySchema e \<longleftrightarrow> UuidV7Schema (ce_memberId e) \<and> UuidV7Schema (ce_membershipVersionId e) \<and>
     positive_decimal (ce_votingWeight e) \<and> Sha256HexSchema (ce_eligibilitySha256 e)"

definition CertificateBallotDispositionSchema :: "CertificateBallotDisposition \<Rightarrow> bool" where
  "CertificateBallotDispositionSchema d \<longleftrightarrow> UuidV7Schema (cd_id d) \<and> nullable_ok UuidV7Schema (cd_supersedingBallotId d) \<and>
     nullable_ok UuidV7Schema (cd_replacementVoteId d) \<and> nullable_ok UuidV7Schema (cd_auditEventId d) \<and>
     Rfc3339UtcSchema (cd_createdAt d)"

definition CertificateBallotEntrySchema :: "CertificateBallotEntry \<Rightarrow> bool" where
  "CertificateBallotEntrySchema b \<longleftrightarrow> UuidV7Schema (cb_id b) \<and> UuidV7Schema (cb_principalMemberId b) \<and>
     UuidV7Schema (cb_casterMemberId b) \<and> nullable_ok Sha256HexSchema (cb_statementSha256 b) \<and>
     positive_decimal (cb_votingWeight b) \<and> nullable_ok UuidV7Schema (cb_proxyGrantId b) \<and>
     UuidV7Schema (cb_consentRecordId b) \<and> Sha256HexSchema (cb_consentRecordSha256 b) \<and>
     Rfc3339UtcSchema (cb_castAt b) \<and> nullable_ok CertificateBallotDispositionSchema (cb_disposition b) \<and>
     \<not> (cb_source b = own_ballot \<and> (cb_principalMemberId b \<noteq> cb_casterMemberId b \<or> cb_proxyGrantId b \<noteq> None) \<or>
        cb_source b = proxy_ballot \<and> (cb_principalMemberId b = cb_casterMemberId b \<or> cb_proxyGrantId b = None))"

definition CertificateProxyRevocationSchema :: "CertificateProxyRevocation \<Rightarrow> bool" where
  "CertificateProxyRevocationSchema r \<longleftrightarrow> UuidV7Schema (cv_id r) \<and> nullable_ok UuidV7Schema (cv_consentRecordId r) \<and>
     nullable_ok Sha256HexSchema (cv_consentRecordSha256 r) \<and> Rfc3339UtcSchema (cv_revokedAt r) \<and>
     (cv_consentRecordId r = None) = (cv_consentRecordSha256 r = None)"

definition CertificateProxyEntrySchema :: "CertificateProxyEntry \<Rightarrow> bool" where
  "CertificateProxyEntrySchema p \<longleftrightarrow> UuidV7Schema (cp_id p) \<and> UuidV7Schema (cp_principalMemberId p) \<and>
     UuidV7Schema (cp_holderMemberId p) \<and> UuidV7Schema (cp_consentRecordId p) \<and>
     Sha256HexSchema (cp_consentRecordSha256 p) \<and> Rfc3339UtcSchema (cp_grantedAt p) \<and>
     nullable_ok Rfc3339UtcSchema (cp_expiresAt p) \<and> nullable_ok CertificateProxyRevocationSchema (cp_revocation p) \<and>
     cp_principalMemberId p \<noteq> cp_holderMemberId p"

definition CertificateExclusionEntrySchema :: "CertificateExclusionEntry \<Rightarrow> bool" where
  "CertificateExclusionEntrySchema x \<longleftrightarrow> UuidV7Schema (cx_id x) \<and> UuidV7Schema (cx_memberId x) \<and>
     SafePositiveIntegerSchema (cx_version x) \<and> Sha256HexSchema (cx_reasonSha256 x) \<and>
     UuidV7Schema (cx_actorMemberId x) \<and> UuidV7Schema (cx_consentRecordId x) \<and>
     Sha256HexSchema (cx_consentRecordSha256 x) \<and> Rfc3339UtcSchema (cx_effectiveAt x)"

definition CanonicalVoteTallySchema :: "CanonicalVoteTally \<Rightarrow> bool" where
  "CanonicalVoteTallySchema t \<longleftrightarrow> unsigned_decimal (ct_eligibleWeight t) \<and> unsigned_decimal (ct_participatingWeight t) \<and>
     unsigned_decimal (ct_yesWeight t) \<and> unsigned_decimal (ct_noWeight t) \<and> unsigned_decimal (ct_abstainWeight t)"

text \<open>\<^verbatim>\<open>orderedUnique\<close>: neighbours are compared as strings, code unit by code unit.\<close>

fun adjacent_ordered :: "jstring list \<Rightarrow> bool" where
  "adjacent_ordered (k # l # ks) \<longleftrightarrow> \<not> l \<le> k \<and> adjacent_ordered (l # ks)"
| "adjacent_ordered _ \<longleftrightarrow> True"

definition orderedUnique :: "('a \<Rightarrow> jstring) \<Rightarrow> 'a list \<Rightarrow> bool" where
  "orderedUnique key vals \<longleftrightarrow>
     (let keys = map key vals in length (js_set keys) = length keys \<and> adjacent_ordered keys)"

definition padStart :: "nat \<Rightarrow> 16 word \<Rightarrow> jstring \<Rightarrow> jstring" where
  "padStart n c s = replicate (n - length s) c @ s"

definition exclusion_key :: "CertificateExclusionEntry \<Rightarrow> jstring" where
  "exclusion_key x = cx_memberId x @ [0] @ padStart 10 0x30 (dec_int (cx_version x)) @ [0] @ cx_id x"

definition ballot_key :: "CertificateBallotEntry \<Rightarrow> jstring" where
  "ballot_key b = cb_principalMemberId b @ [0] @ cb_castAt b @ [0] @ cb_id b"

definition signed_decimal :: "jstring \<Rightarrow> bool" where
  "signed_decimal s \<longleftrightarrow> unsigned_decimal s \<or> (case s of [] \<Rightarrow> False | c # t \<Rightarrow> is_char CHR ''-'' c \<and> unsigned_decimal t)"

definition PublicIdSchema :: "jstring \<Rightarrow> bool" where
  "PublicIdSchema s \<longleftrightarrow> canonical_base64url 32 s \<noteq> None"

definition certificate_vote_ok :: "CertificateVote \<Rightarrow> bool" where
  "certificate_vote_ok v \<longleftrightarrow> UuidV7Schema (cw_id v) \<and> 1 \<le> length (cw_title v) \<and> length (cw_title v) \<le> 512 \<and>
     UuidV7Schema (cw_resolutionVersionId v) \<and> SafePositiveIntegerSchema (cw_resolutionVersion v) \<and>
     CanonicalResolutionTextSchema (cw_resolutionText v) \<and> Sha256HexSchema (cw_resolutionSha256 v) \<and>
     UuidV7Schema (cw_decisionPackageId v) \<and> SafePositiveIntegerSchema (cw_decisionPackageVersion v) \<and>
     Sha256HexSchema (cw_decisionPackageSha256 v) \<and> Rfc3339UtcSchema (cw_deadlineAt v)"

definition certificate_governance_ok :: "CertificateGovernance \<Rightarrow> bool" where
  "certificate_governance_ok g \<longleftrightarrow> UuidV7Schema (cg_governanceProfileId g) \<and>
     Sha256HexSchema (cg_governanceProfileSha256 g) \<and> UuidV7Schema (cg_rulesetId g) \<and>
     Sha256HexSchema (cg_rulesetSha256 g) \<and> UuidV7Schema (cg_matterEvaluationId g) \<and>
     Sha256HexSchema (cg_matterEvaluationResultSha256 g) \<and> UuidV7Schema (cg_selectedRulesetRuleId g) \<and>
     Sha256HexSchema (cg_selectedRulesetRuleSha256 g) \<and> nullable_ok UuidV7Schema (cg_ruleOverrideId g) \<and>
     nullable_ok Sha256HexSchema (cg_ruleOverrideSha256 g) \<and> CertificateApprovalRuleSchema (cg_approvalRule g)"

definition certificate_close_ok :: "CertificateClose \<Rightarrow> bool" where
  "certificate_close_ok c \<longleftrightarrow> nullable_ok UuidV7Schema (cl_actorMemberId c) \<and> nullable_ok UuidV7Schema (cl_consentRecordId c) \<and>
     nullable_ok Sha256HexSchema (cl_consentRecordSha256 c) \<and> UuidV7Schema (cl_clockSampleId c) \<and>
     Rfc3339UtcSchema (cl_measuredAt c) \<and> signed_decimal (cl_driftMicroseconds c) \<and> Rfc3339UtcSchema (cl_validUntil c)"

text \<open>The fields of the payload by themselves, and then the refinements that relate them.\<close>

definition certificate_fields_ok :: "VoteCertificatePayload \<Rightarrow> bool" where
  "certificate_fields_ok p \<longleftrightarrow>
     UuidV7Schema (vp_certificateId p) \<and> PublicIdSchema (vp_publicId p) \<and> UuidV7Schema (vp_outcomeId p) \<and>
     UuidV7Schema (vp_instanceId p) \<and> UuidV7Schema (vp_organizationId p) \<and> UuidV7Schema (vp_boardId p) \<and>
     certificate_vote_ok (vp_vote p) \<and>
     Sha256HexSchema (cm_submissionManifestSha256 (vp_packageEvidence p)) \<and>
     Sha256HexSchema (cm_documentManifestSha256 (vp_packageEvidence p)) \<and>
     Sha256HexSchema (cm_questionCutoffSha256 (vp_packageEvidence p)) \<and>
     certificate_governance_ok (vp_governance p) \<and> Sha256HexSchema (vp_electorateSha256 p) \<and>
     list_all CertificateElectorateEntrySchema (vp_electorate p) \<and> 1 \<le> length (vp_electorate p) \<and>
     length (vp_electorate p) \<le> 10000 \<and>
     list_all CertificateExclusionEntrySchema (vp_exclusions p) \<and> length (vp_exclusions p) \<le> 100000 \<and>
     list_all CertificateProxyEntrySchema (vp_proxies p) \<and> length (vp_proxies p) \<le> 10000 \<and>
     list_all CertificateBallotEntrySchema (vp_ballots p) \<and> length (vp_ballots p) \<le> 100000 \<and>
     Sha256HexSchema (vp_consentSetSha256 p) \<and> CanonicalVoteTallySchema (vp_tally p) \<and>
     Sha256HexSchema (vp_tallySha256 p) \<and> certificate_close_ok (vp_close p) \<and>
     UuidV7Schema (vp_closingAuditEventId p) \<and> positive_decimal (vp_closingAuditSequence p) \<and>
     Sha256HexSchema (vp_closingAuditHash p) \<and> Rfc3339UtcSchema (vp_preparedAt p) \<and>
     Kid (vp_keyId p) \<and> UuidV7Schema (vp_signingKeyId p)"

definition VoteCertificatePayloadSchema :: "platform \<Rightarrow> VoteCertificatePayload \<Rightarrow> bool" where
  "VoteCertificatePayloadSchema pl p \<longleftrightarrow>
     certificate_fields_ok p \<and>
     \<not> (ca_proxyPolicy (cg_approvalRule (vp_governance p)) = proxy_forbidden \<and>
        (length (vp_proxies p) \<noteq> 0 \<or> list_ex (\<lambda>b. cb_source b = proxy_ballot) (vp_ballots p))) \<and>
     cw_id (vp_vote p) \<noteq> vp_certificateId p \<and>
     cw_closeMode (vp_vote p) = ca_closeMode (cg_approvalRule (vp_governance p)) \<and>
     vp_outcome p = ct_outcome (vp_tally p) \<and>
     (case canonicalSha256 pl (certificate_tally_json (vp_tally p)) of
        Inl _ \<Rightarrow> False | Inr h \<Rightarrow> safeHashEqual (vp_tallySha256 p) h) \<and>
     (cg_ruleOverrideId (vp_governance p) \<noteq> None) = (cg_ruleOverrideSha256 (vp_governance p) \<noteq> None) \<and>
     (let manual = (cw_closeMode (vp_vote p) = tc_secretariat_confirmed) in
        manual = (cl_actorMemberId (vp_close p) \<noteq> None) \<and> manual = (cl_consentRecordId (vp_close p) \<noteq> None) \<and>
        manual = (cl_consentRecordSha256 (vp_close p) \<noteq> None)) \<and>
     length (filter ce_isChair (vp_electorate p)) \<le> 1 \<and>
     orderedUnique ce_memberId (vp_electorate p) \<and> orderedUnique exclusion_key (vp_exclusions p) \<and>
     orderedUnique cp_id (vp_proxies p) \<and> orderedUnique ballot_key (vp_ballots p)"

section \<open>Issuing and verifying\<close>

record VoteCertificate =
  vc_payload :: VoteCertificatePayload
  vc_payloadSha256 :: jstring
  vc_signatureBase64Url :: jstring

definition certificatePublicIdBytes :: "jstring \<Rightarrow> byte list result" where
  "certificatePublicIdBytes publicId =
     bindr (zparse PublicIdSchema publicId) (\<lambda>s.
     case canonical_base64url 32 s of Some bs \<Rightarrow> Inr bs | None \<Rightarrow> throw (TypeError ''null''))"

definition certificatePublicIdSha256 :: "jstring \<Rightarrow> jstring result" where
  "certificatePublicIdSha256 publicId =
     bindr (certificatePublicIdBytes publicId) (\<lambda>bs. Inr (sha256Hex (Bytes bs)))"

definition canonicalVoteCertificatePayload :: "platform \<Rightarrow> VoteCertificatePayload \<Rightarrow> jstring result" where
  "canonicalVoteCertificatePayload pl payload =
     bindr (zparse (VoteCertificatePayloadSchema pl) payload) (\<lambda>p. canonicalJson pl (certificate_json p))"

definition issueVoteCertificate ::
    "platform \<Rightarrow> 'k signatures \<Rightarrow> VoteCertificatePayload \<Rightarrow> 'k \<Rightarrow> VoteCertificate result" where
  "issueVoteCertificate pl sg i key =
     bindr (zparse (VoteCertificatePayloadSchema pl) i) (\<lambda>payload.
     bindr (canonicalVoteCertificatePayload pl payload) (\<lambda>bytes.
     bindr (canonicalSha256 pl (certificate_json payload)) (\<lambda>sha.
     Inr \<lparr>vc_payload = payload, vc_payloadSha256 = sha,
       vc_signatureBase64Url = base64url (sg_sign sg key (utf8_encode bytes))\<rparr>)))"

definition verifyVoteCertificate ::
    "platform \<Rightarrow> 'k signatures \<Rightarrow> VoteCertificate \<Rightarrow> 'k \<Rightarrow> bool result" where
  "verifyVoteCertificate pl sg certificate trustedKey =
     (let payload = vc_payload certificate in
      if \<not> VoteCertificatePayloadSchema pl payload then Inr False
      else case canonical_base64url 64 (vc_signatureBase64Url certificate) of
        None \<Rightarrow> Inr False
      | Some signature \<Rightarrow>
          bindr (canonicalSha256 pl (certificate_json payload)) (\<lambda>sha.
          if \<not> safeHashEqual (vc_payloadSha256 certificate) sha then Inr False
          else bindr (canonicalVoteCertificatePayload pl payload) (\<lambda>bytes.
            Inr (sg_verify sg trustedKey (utf8_encode bytes) signature))))"

section \<open>The text determines the payload\<close>

lemma certificate_name_inj [json_inj]:
  "policy_name p = policy_name q \<longleftrightarrow> p = q" "disposition_name d = disposition_name e \<longleftrightarrow> d = e"
  "revocation_name r = revocation_name s \<longleftrightarrow> r = s" "source_name a = source_name b \<longleftrightarrow> a = b"
proof -
  show "policy_name p = policy_name q \<longleftrightarrow> p = q"
  proof (cases p; cases q)
    fix a b
    assume "p = Policy a" "q = Policy b"
    then show ?thesis by (cases a; cases b) auto
  next
    fix a
    assume "p = Policy a" "q = proxy_forbidden"
    then show ?thesis by (cases a) auto
  next
    fix b
    assume "p = proxy_forbidden" "q = Policy b"
    then show ?thesis by (cases b) auto
  qed simp
  show "disposition_name d = disposition_name e \<longleftrightarrow> d = e" by (cases d; cases e) auto
  show "revocation_name r = revocation_name s \<longleftrightarrow> r = s" by (cases r; cases s) auto
  show "source_name a = source_name b \<longleftrightarrow> a = b" by (cases a; cases b) auto
qed

lemmas [json_inj] = name_inj nullable_jval_inj

lemma decimal_fraction_json_inj [json_inj]: "jval_of (decimal_fraction_json f) = jval_of (decimal_fraction_json g) \<longleftrightarrow> f = g"
  unfolding decimal_fraction_json_def by (subst jval_obj_eq) (auto simp: json_inj)

lemma certificate_rule_json_inj [json_inj]: "jval_of (certificate_rule_json x) = jval_of (certificate_rule_json y) \<longleftrightarrow> x = y"
  unfolding certificate_rule_json_def
  by (subst jval_obj_eq) (auto simp: json_inj intro!: CertificateApprovalRule.equality)

lemma certificate_seat_json_inj: "jval_of (certificate_seat_json x) = jval_of (certificate_seat_json y) \<longleftrightarrow> x = y"
  unfolding certificate_seat_json_def by (subst jval_obj_eq) (auto simp: json_inj intro!: CertificateElectorateEntry.equality)

lemma certificate_disposition_json_inj:
  "jval_of (certificate_disposition_json x) = jval_of (certificate_disposition_json y) \<longleftrightarrow> x = y"
  unfolding certificate_disposition_json_def
  by (subst jval_obj_eq) (auto simp: json_inj intro!: CertificateBallotDisposition.equality)

lemma certificate_revocation_json_inj:
  "jval_of (certificate_revocation_json x) = jval_of (certificate_revocation_json y) \<longleftrightarrow> x = y"
  unfolding certificate_revocation_json_def
  by (subst jval_obj_eq) (auto simp: json_inj intro!: CertificateProxyRevocation.equality)

lemma certificate_nullable_inj [json_inj]:
  "jval_of (nullable certificate_disposition_json u) = jval_of (nullable certificate_disposition_json v) \<longleftrightarrow> u = v"
  "jval_of (nullable certificate_revocation_json r) = jval_of (nullable certificate_revocation_json s) \<longleftrightarrow> r = s"
  by (rule nullable_inj [OF certificate_disposition_json_inj], simp add: certificate_disposition_json_def)
    (rule nullable_inj [OF certificate_revocation_json_inj], simp add: certificate_revocation_json_def)

lemma certificate_ballot_json_inj: "jval_of (certificate_ballot_json x) = jval_of (certificate_ballot_json y) \<longleftrightarrow> x = y"
  unfolding certificate_ballot_json_def
  by (subst jval_obj_eq) (auto simp: json_inj simp del: nullable_simps intro!: CertificateBallotEntry.equality)

lemma certificate_proxy_json_inj: "jval_of (certificate_proxy_json x) = jval_of (certificate_proxy_json y) \<longleftrightarrow> x = y"
  unfolding certificate_proxy_json_def
  by (subst jval_obj_eq) (auto simp: json_inj simp del: nullable_simps intro!: CertificateProxyEntry.equality)

lemma certificate_exclusion_json_inj:
  "jval_of (certificate_exclusion_json x) = jval_of (certificate_exclusion_json y) \<longleftrightarrow> x = y"
  unfolding certificate_exclusion_json_def
  by (subst jval_obj_eq) (auto simp: json_inj intro!: CertificateExclusionEntry.equality)

lemma certificate_tally_json_inj [json_inj]: "jval_of (certificate_tally_json x) = jval_of (certificate_tally_json y) \<longleftrightarrow> x = y"
  unfolding certificate_tally_json_def by (subst jval_obj_eq) (auto simp: json_inj intro!: CanonicalVoteTally.equality)

lemma certificate_vote_json_inj [json_inj]: "jval_of (certificate_vote_json x) = jval_of (certificate_vote_json y) \<longleftrightarrow> x = y"
  unfolding certificate_vote_json_def by (subst jval_obj_eq) (auto simp: json_inj intro!: CertificateVote.equality)

lemma package_evidence_json_inj [json_inj]: "jval_of (package_evidence_json x) = jval_of (package_evidence_json y) \<longleftrightarrow> x = y"
  unfolding package_evidence_json_def by (subst jval_obj_eq) (auto simp: json_inj)

lemma certificate_governance_json_inj [json_inj]:
  "jval_of (certificate_governance_json x) = jval_of (certificate_governance_json y) \<longleftrightarrow> x = y"
  unfolding certificate_governance_json_def
  by (subst jval_obj_eq) (auto simp: json_inj intro!: CertificateGovernance.equality)

lemma certificate_close_json_inj [json_inj]:
  "jval_of (certificate_close_json x) = jval_of (certificate_close_json y) \<longleftrightarrow> x = y"
  unfolding certificate_close_json_def by (subst jval_obj_eq) (auto simp: json_inj intro!: CertificateClose.equality)

lemmas certificate_arrays [json_inj] =
  jarr_inj [OF certificate_seat_json_inj] jarr_inj [OF certificate_exclusion_json_inj]
  jarr_inj [OF certificate_proxy_json_inj] jarr_inj [OF certificate_ballot_json_inj]

lemma certificate_json_inj: "jval_of (certificate_json p) = jval_of (certificate_json q) \<longleftrightarrow> p = q"
proof
  assume "jval_of (certificate_json p) = jval_of (certificate_json q)"
  then show "p = q"
    unfolding certificate_json_def
    by (subst (asm) jval_obj_eq)
      (auto simp: json_inj simp del: jval_of.simps(5) intro!: VoteCertificatePayload.equality)
qed simp

lemma certificate_part_ok [simp]:
  "js_json (certificate_rule_json r) \<and> index_free (certificate_rule_json r)"
  "js_json (certificate_seat_json e) \<and> index_free (certificate_seat_json e)"
  "js_json (certificate_disposition_json d) \<and> index_free (certificate_disposition_json d)"
  "js_json (certificate_revocation_json v) \<and> index_free (certificate_revocation_json v)"
  "js_json (certificate_tally_json t) \<and> index_free (certificate_tally_json t)"
  "js_json (package_evidence_json k) \<and> index_free (package_evidence_json k)"
  "js_json (certificate_close_json c) \<and> index_free (certificate_close_json c)"
  by (simp_all add: certificate_rule_json_def decimal_fraction_json_def certificate_seat_json_def nullable_def
      certificate_disposition_json_def certificate_revocation_json_def certificate_tally_json_def
      package_evidence_json_def certificate_close_json_def split: option.split)

lemma certificate_entry_ok [simp]:
  "js_json (certificate_ballot_json b) \<and> index_free (certificate_ballot_json b)"
  "js_json (certificate_proxy_json q) \<and> index_free (certificate_proxy_json q)"
  "js_json (certificate_governance_json g) \<and> index_free (certificate_governance_json g)"
  by (simp_all add: certificate_ballot_json_def certificate_proxy_json_def certificate_governance_json_def nullable_def
      split: option.split)

lemma certificate_number_ok:
  "CertificateExclusionEntrySchema x \<Longrightarrow> js_json (certificate_exclusion_json x) \<and> index_free (certificate_exclusion_json x)"
  "certificate_vote_ok v \<Longrightarrow> js_json (certificate_vote_json v) \<and> index_free (certificate_vote_json v)"
  by (simp_all add: certificate_exclusion_json_def certificate_vote_json_def CertificateExclusionEntrySchema_def
      certificate_vote_ok_def SafePositiveIntegerSchema_def)

lemma certificate_json_ok:
  assumes "certificate_fields_ok p"
  shows "js_json (certificate_json p) \<and> index_free (certificate_json p)"
proof -
  have "certificate_vote_ok (vp_vote p)" "\<forall>x\<in>set (vp_exclusions p). CertificateExclusionEntrySchema x"
    using assms by (simp_all add: certificate_fields_ok_def list_all_iff)
  then show ?thesis
    by (simp add: certificate_json_def certificate_number_ok certificate_part_ok certificate_entry_ok)
qed

section \<open>What a certificate attests\<close>

definition certificate_message :: "VoteCertificatePayload \<Rightarrow> byte list" where
  "certificate_message p = canonical_bytes (certificate_json p)"

definition certificate_writable :: "platform \<Rightarrow> VoteCertificatePayload \<Rightarrow> bool" where
  "certificate_writable pl p \<longleftrightarrow> json_depth (certificate_json p) \<le> MAX_JSON_CONTAINER_DEPTH \<and>
     strings_ok (normalizeNFC pl) (certificate_json p)"

lemma schema_fields: "VoteCertificatePayloadSchema pl p \<Longrightarrow> certificate_fields_ok p"
  by (simp add: VoteCertificatePayloadSchema_def)

lemma certificate_text_iff:
  "canonicalVoteCertificatePayload pl p = Inr s \<longleftrightarrow>
     VoteCertificatePayloadSchema pl p \<and> certificate_writable pl p \<and> s = stringify (jsort (certificate_json p))"
  using certificate_json_ok [OF schema_fields, of pl p]
  by (auto simp: canonicalVoteCertificatePayload_def bindr_eq_Inr_iff canonicalJson_iff certificate_writable_def)

lemma certificate_digest_iff:
  "VoteCertificatePayloadSchema pl p \<Longrightarrow>
     canonicalSha256 pl (certificate_json p) = Inr h \<longleftrightarrow>
       certificate_writable pl p \<and> h = hex_of_bytes (sha256 (certificate_message p))"
  using certificate_json_ok [OF schema_fields, of pl p]
  by (auto simp: canonicalSha256_iff certificate_writable_def certificate_message_def)

lemma hex_digest [simp]: "Sha256HexSchema (hex_of_bytes (sha256 bs))"
  using sha256Hex_schema [of "Bytes bs"] by (simp add: sha256Hex_def sha256Bytes_def)

lemma issueVoteCertificate_iff:
  "issueVoteCertificate pl sg p key = Inr c \<longleftrightarrow>
     VoteCertificatePayloadSchema pl p \<and> certificate_writable pl p \<and>
     c = \<lparr>vc_payload = p, vc_payloadSha256 = hex_of_bytes (sha256 (certificate_message p)),
       vc_signatureBase64Url = base64url (sg_sign sg key (certificate_message p))\<rparr>"
  by (auto simp: issueVoteCertificate_def bindr_eq_Inr_iff certificate_text_iff certificate_digest_iff
      certificate_message_def canonical_bytes_def)

lemma canonical_base64url_write [simp]: "canonical_base64url n (base64url bs) = (if length bs = n then Some bs else None)"
  by (simp add: canonical_base64url_def Let_def)

declare base64url_inj [simp]

lemma verifyVoteCertificate_iff:
  "verifyVoteCertificate pl sg c key = Inr True \<longleftrightarrow>
     VoteCertificatePayloadSchema pl (vc_payload c) \<and> certificate_writable pl (vc_payload c) \<and>
     vc_payloadSha256 c = hex_of_bytes (sha256 (certificate_message (vc_payload c))) \<and>
     (\<exists>s. length s = 64 \<and> vc_signatureBase64Url c = base64url s \<and>
       sg_verify sg key (certificate_message (vc_payload c)) s)"
  by (auto simp: verifyVoteCertificate_def Let_def bindr_eq_Inr_iff certificate_text_iff certificate_digest_iff
      certificate_message_def canonical_bytes_def canonical_base64url_iff safeHashEqual_iff
      split: if_splits option.splits)

lemma certificate_message_inj:
  assumes "VoteCertificatePayloadSchema pl p" and "VoteCertificatePayloadSchema pl q"
    and "certificate_writable pl p" and "certificate_writable pl q"
  shows "certificate_message p = certificate_message q \<longleftrightarrow> p = q"
proof -
  have "wf_json (normalizeNFC pl) (certificate_json p)" "wf_json (normalizeNFC pl) (certificate_json q)"
    using certificate_json_ok [OF schema_fields [OF assms(1)]] certificate_json_ok [OF schema_fields [OF assms(2)]] assms(3,4)
    by (simp_all add: wf_json_iff certificate_writable_def)
  from canonical_bytes_eq [OF this] show ?thesis by (simp add: certificate_message_def certificate_json_inj)
qed

section \<open>Which payloads can be written\<close>

text \<open>All strings of an admissible payload are ASCII but the title and the resolution.\<close>

lemma char_ascii: "is_alnum c \<Longrightarrow> c < 0x80" "is_digit c \<Longrightarrow> c < 0x80" "is_char CHR ''-'' c \<Longrightarrow> c < 0x80"
  "is_char CHR ''_'' c \<Longrightarrow> c < 0x80" "is_char CHR ''.'' c \<Longrightarrow> c < 0x80"
  by (auto simp: is_alnum_def is_lower_def is_upper_def is_digit_def is_char_def word_le_nat_alt word_less_nat_alt)

lemma list_ascii: "list_all p s \<Longrightarrow> (\<And>c. p c \<Longrightarrow> c < 0x80) \<Longrightarrow> is_ascii s"
  by (auto simp: is_ascii_def list_all_iff)

lemma positive_ascii: "positive_decimal s \<Longrightarrow> is_ascii s"
  using positive_decimal_digits list_ascii char_ascii(2) by blast

lemma unsigned_ascii: "unsigned_decimal s \<Longrightarrow> is_ascii s"
  by (auto simp: unsigned_decimal_def positive_ascii)

lemma signed_ascii: "signed_decimal s \<Longrightarrow> is_ascii s"
  by (cases s) (auto simp: signed_decimal_def unsigned_ascii [of "tl s"] char_ascii dest: unsigned_ascii)

lemma kid_ascii: "Kid s \<Longrightarrow> is_ascii s"
  unfolding Kid_def by (auto simp: kid_char_def intro: char_ascii elim!: list_ascii)

lemma base64url_ascii: "list_all base64url_unit s \<Longrightarrow> is_ascii s"
  by (erule list_ascii) (auto simp: base64url_unit_def intro: char_ascii)

lemma public_id_ascii: "PublicIdSchema s \<Longrightarrow> is_ascii s"
  by (auto simp: PublicIdSchema_def canonical_base64url_iff intro: base64url_ascii base64url_units)

lemma time_char: "p c \<Longrightarrow> c < 0x80"
  if "p \<in> {is_digit, is_char CHR ''-'', is_char CHR ''T'', is_char CHR '':'', is_char CHR ''.'', is_char CHR ''Z''}"
  using that by (auto simp: is_digit_def is_char_def word_le_nat_alt word_less_nat_alt)

lemma time_ascii:
  assumes "Rfc3339UtcSchema s"
  shows "is_ascii s"
proof -
  from assms have m: "matches rfc3339_prefix (take 19 s)" and "rfc3339_suffix (drop 19 s)"
    by (simp_all add: Rfc3339UtcSchema_def RFC3339_UTC_PATTERN_def)
  then consider "drop 19 s = lit ''Z''"
    | n where "matches ([is_char CHR ''.''] @ replicate n is_digit @ [is_char CHR ''Z'']) (drop 19 s)"
    unfolding rfc3339_suffix_def by blast
  then have "is_ascii (drop 19 s)"
  proof cases
    case 2
    then show ?thesis
    proof (rule matches_ascii)
      fix p and c :: "16 word"
      assume "p \<in> set ([is_char CHR ''.''] @ replicate n is_digit @ [is_char CHR ''Z''])" and p: "p c"
      then have "p \<in> {is_digit, is_char CHR ''.'', is_char CHR ''Z''}" by (auto simp: set_replicate_conv_if split: if_splits)
      then show "c < 0x80" by (intro time_char [of p, OF _ p]) blast
    qed
  qed simp
  moreover from m have "is_ascii (take 19 s)"
  proof (rule matches_ascii)
    fix p and c :: "16 word"
    assume "p \<in> set rfc3339_prefix" and p: "p c"
    then have "p \<in> {is_digit, is_char CHR ''-'', is_char CHR ''T'', is_char CHR '':''}"
      by (auto simp: rfc3339_prefix_def set_replicate_conv_if)
    then show "c < 0x80" by (intro time_char [of p, OF _ p]) blast
  qed
  ultimately have "is_ascii (take 19 s @ drop 19 s)" unfolding is_ascii_def list_all_append by blast
  then show ?thesis by simp
qed

lemmas certificate_ascii = uuid_ascii positive_ascii unsigned_ascii signed_ascii kid_ascii public_id_ascii time_ascii

lemma nullable_string_ok:
  "nullable_ok UuidV7Schema x \<Longrightarrow> strings_ok nfc (nullable JStr x)"
  "nullable_ok Sha256HexSchema x \<Longrightarrow> strings_ok nfc (nullable JStr x)"
  "nullable_ok Rfc3339UtcSchema x \<Longrightarrow> strings_ok nfc (nullable JStr x)"
  by (cases x; simp add: nullable_ok_def certificate_ascii scalar_digest)+

lemma certificate_names_ok [simp]:
  "scalar_string nfc (policy_name p)" "scalar_string nfc (disposition_name d)" "scalar_string nfc (revocation_name r)"
  "scalar_string nfc (source_name s)" "scalar_string nfc (denominator_name a)" "scalar_string nfc (tie_name b)"
  "scalar_string nfc (close_mode_name c)" "scalar_string nfc (outcome_name u)" "scalar_string nfc (choice_name w)"
  "scalar_string nfc (recusalState_name x)" "scalar_string nfc (supersession_name y)"
proof -
  show "scalar_string nfc (supersession_name y)" for y by (cases y) simp_all
  then show "scalar_string nfc (policy_name p)" by (cases p) simp_all
  show "scalar_string nfc (disposition_name d)" by (cases d) simp_all
  show "scalar_string nfc (revocation_name r)" by (cases r) simp_all
  show "scalar_string nfc (source_name s)" by (cases s) simp_all
  show "scalar_string nfc (denominator_name a)" by (cases a) simp_all
  show "scalar_string nfc (tie_name b)" by (cases b) simp_all
  show "scalar_string nfc (close_mode_name c)" by (cases c) simp_all
  show "scalar_string nfc (outcome_name u)" by (cases u) simp_all
  show "scalar_string nfc (choice_name w)" by (cases w) simp_all
  show "scalar_string nfc (recusalState_name x)" by (cases x) simp_all
qed

lemma certificate_strings:
  "CertificateApprovalRuleSchema r \<Longrightarrow> strings_ok nfc (certificate_rule_json r)"
  "CertificateElectorateEntrySchema e \<Longrightarrow> strings_ok nfc (certificate_seat_json e)"
  "CertificateBallotDispositionSchema d \<Longrightarrow> strings_ok nfc (certificate_disposition_json d)"
  "CertificateProxyRevocationSchema v \<Longrightarrow> strings_ok nfc (certificate_revocation_json v)"
  "CertificateExclusionEntrySchema x \<Longrightarrow> strings_ok nfc (certificate_exclusion_json x)"
  "CanonicalVoteTallySchema t \<Longrightarrow> strings_ok nfc (certificate_tally_json t)"
  "certificate_close_ok c \<Longrightarrow> strings_ok nfc (certificate_close_json c)"
  by (simp_all add: certificate_rule_json_def CertificateApprovalRuleSchema_def decimal_fraction_json_def
      DecimalFractionSchema_def certificate_seat_json_def CertificateElectorateEntrySchema_def
      certificate_disposition_json_def CertificateBallotDispositionSchema_def certificate_revocation_json_def
      CertificateProxyRevocationSchema_def certificate_exclusion_json_def CertificateExclusionEntrySchema_def
      certificate_tally_json_def CanonicalVoteTallySchema_def certificate_close_json_def certificate_close_ok_def
      certificate_ascii scalar_digest nullable_string_ok del: nullable_simps)

lemma certificate_entry_strings:
  assumes "\<And>d. CertificateBallotDispositionSchema d \<Longrightarrow> strings_ok nfc (certificate_disposition_json d)"
    and "\<And>v. CertificateProxyRevocationSchema v \<Longrightarrow> strings_ok nfc (certificate_revocation_json v)"
  shows "CertificateBallotEntrySchema b \<Longrightarrow> strings_ok nfc (certificate_ballot_json b)"
    and "CertificateProxyEntrySchema q \<Longrightarrow> strings_ok nfc (certificate_proxy_json q)"
    and "certificate_governance_ok g \<Longrightarrow> strings_ok nfc (certificate_governance_json g)"
proof -
  have n: "strings_ok nfc (nullable certificate_disposition_json u)" if "nullable_ok CertificateBallotDispositionSchema u" for u
    using that assms(1) by (cases u) (simp_all add: nullable_ok_def)
  have m: "strings_ok nfc (nullable certificate_revocation_json u)" if "nullable_ok CertificateProxyRevocationSchema u" for u
    using that assms(2) by (cases u) (simp_all add: nullable_ok_def)
  show "CertificateBallotEntrySchema b \<Longrightarrow> strings_ok nfc (certificate_ballot_json b)"
    by (simp add: certificate_ballot_json_def CertificateBallotEntrySchema_def certificate_ascii scalar_digest
        nullable_string_ok n del: nullable_simps)
  show "CertificateProxyEntrySchema q \<Longrightarrow> strings_ok nfc (certificate_proxy_json q)"
    by (simp add: certificate_proxy_json_def CertificateProxyEntrySchema_def certificate_ascii scalar_digest
        nullable_string_ok m del: nullable_simps)
  show "certificate_governance_ok g \<Longrightarrow> strings_ok nfc (certificate_governance_json g)"
    by (simp add: certificate_governance_json_def certificate_governance_ok_def certificate_ascii scalar_digest
        nullable_string_ok certificate_strings(1) del: nullable_simps)
qed

lemma nullable_depth: "(\<And>x. json_depth (f x) \<le> n) \<Longrightarrow> json_depth (nullable f u) \<le> n"
  by (cases u) simp_all

lemma depth_array: "(\<And>x. json_depth (f x) \<le> n) \<Longrightarrow> foldr max (map (json_depth \<circ> f) xs) 0 \<le> n"
  by (simp add: foldr_max_le)

lemma certificate_depths:
  "json_depth (certificate_rule_json r) = 2" "json_depth (certificate_seat_json e) = 1"
  "json_depth (certificate_disposition_json d) = 1" "json_depth (certificate_revocation_json v) = 1"
  "json_depth (certificate_exclusion_json x) = 1" "json_depth (certificate_tally_json t) = 1"
  "json_depth (certificate_close_json c) = 1" "json_depth (certificate_vote_json w) = 1"
  "json_depth (package_evidence_json k) = 1" "json_depth (certificate_governance_json g) = 3"
  by (simp_all add: certificate_rule_json_def decimal_fraction_json_def certificate_seat_json_def nullable_def
      certificate_disposition_json_def certificate_revocation_json_def certificate_exclusion_json_def
      certificate_tally_json_def certificate_close_json_def certificate_vote_json_def package_evidence_json_def
      certificate_governance_json_def split: option.split)

lemma certificate_entry_depths: "json_depth (certificate_ballot_json b) \<le> 2" "json_depth (certificate_proxy_json q) \<le> 2"
  by (simp_all add: certificate_ballot_json_def certificate_proxy_json_def certificate_depths nullable_def split: option.split)

lemma certificate_writable_iff:
  assumes "certificate_fields_ok p"
  shows "certificate_writable pl p \<longleftrightarrow> scalar_string (normalizeNFC pl) (cw_title (vp_vote p)) \<and>
    scalar_string (normalizeNFC pl) (cw_resolutionText (vp_vote p))"
proof -
  note f = assms [unfolded certificate_fields_ok_def list_all_iff]
  let ?n = "normalizeNFC pl" and ?v = "vp_vote p"
  have d: "json_depth (certificate_json p) \<le> MAX_JSON_CONTAINER_DEPTH"
    using certificate_entry_depths
    by (simp add: certificate_json_def certificate_depths MAX_JSON_CONTAINER_DEPTH_def foldr_max_le le_SucI numeral_eq_Suc)
  have v: "strings_ok ?n (certificate_vote_json ?v) \<longleftrightarrow> scalar_string ?n (cw_title ?v) \<and> scalar_string ?n (cw_resolutionText ?v)"
    using f by (simp add: certificate_vote_json_def certificate_vote_ok_def certificate_ascii scalar_digest)
  have e: "strings_ok ?n (package_evidence_json (vp_packageEvidence p))"
    "strings_ok ?n (certificate_governance_json (vp_governance p))" "strings_ok ?n (certificate_tally_json (vp_tally p))"
    "strings_ok ?n (certificate_close_json (vp_close p))"
    using f by (simp_all add: package_evidence_json_def scalar_digest certificate_strings
        certificate_entry_strings(3) [OF certificate_strings(3,4)])
  have a: "\<forall>x\<in>set (vp_electorate p). strings_ok ?n (certificate_seat_json x)"
    "\<forall>x\<in>set (vp_exclusions p). strings_ok ?n (certificate_exclusion_json x)"
    "\<forall>x\<in>set (vp_proxies p). strings_ok ?n (certificate_proxy_json x)"
    "\<forall>x\<in>set (vp_ballots p). strings_ok ?n (certificate_ballot_json x)"
    using f by (simp_all add: certificate_strings certificate_entry_strings [OF certificate_strings(3,4)])
  have s: "scalar_string ?n (vp_publicId p)" "scalar_string ?n (vp_keyId p)" "scalar_string ?n (vp_preparedAt p)"
    "scalar_string ?n (vp_closingAuditSequence p)"
    using f by (simp_all add: certificate_ascii)
  have u: "scalar_string ?n k" if "UuidV7Schema k \<or> Sha256HexSchema k" for k
    using that uuid_ascii scalar_digest by auto
  have i: "\<forall>k\<in>{vp_certificateId p, vp_outcomeId p, vp_instanceId p, vp_organizationId p, vp_boardId p, vp_electorateSha256 p,
      vp_consentSetSha256 p, vp_tallySha256 p, vp_closingAuditEventId p, vp_closingAuditHash p, vp_signingKeyId p}. scalar_string ?n k"
    using f by (intro ballI u) auto
  have "strings_ok ?n (certificate_json p) \<longleftrightarrow> strings_ok ?n (certificate_vote_json ?v)"
    using e a s i unfolding certificate_json_def by simp
  with d v show ?thesis by (simp add: certificate_writable_def)
qed

text \<open>Property C8: issuing and verifying a certificate fit together. A certificate is issued exactly for the payloads that keep to
  the schema and whose title and resolution are well-formed NFC text, whatever the key; it carries the payload it was
  asked for and verifies under the public half of the key. For any two certificates that verify, each under any key, the
  signed bytes agree exactly when the payloads are equal, and equal payload digests mean equal payloads or exhibit a
  SHA-256 collision.\<close>

theorem issued_certificate_verifies:
  assumes "ed25519 sg"
  shows "((\<exists>c. issueVoteCertificate pl sg p key = Inr c) \<longleftrightarrow>
      VoteCertificatePayloadSchema pl p \<and> scalar_string (normalizeNFC pl) (cw_title (vp_vote p)) \<and>
      scalar_string (normalizeNFC pl) (cw_resolutionText (vp_vote p))) \<and>
    (\<forall>c. issueVoteCertificate pl sg p key = Inr c \<longrightarrow>
      verifyVoteCertificate pl sg c (sg_public sg key) = Inr True \<and> vc_payload c = p) \<and>
    (\<forall>c d k l. verifyVoteCertificate pl sg c k = Inr True \<and> verifyVoteCertificate pl sg d l = Inr True \<longrightarrow>
      (certificate_message (vc_payload c) = certificate_message (vc_payload d) \<longleftrightarrow> vc_payload c = vc_payload d) \<and>
      (vc_payloadSha256 c = vc_payloadSha256 d \<longrightarrow> vc_payload c = vc_payload d \<or>
         sha256_collision (certificate_message (vc_payload c)) (certificate_message (vc_payload d))))"
proof (intro conjI allI impI)
  show "(\<exists>c. issueVoteCertificate pl sg p key = Inr c) \<longleftrightarrow>
      VoteCertificatePayloadSchema pl p \<and> scalar_string (normalizeNFC pl) (cw_title (vp_vote p)) \<and>
      scalar_string (normalizeNFC pl) (cw_resolutionText (vp_vote p))"
    using certificate_writable_iff [OF schema_fields, of pl p] by (auto simp: issueVoteCertificate_iff)
next
  fix c
  assume "issueVoteCertificate pl sg p key = Inr c"
  then show "verifyVoteCertificate pl sg c (sg_public sg key) = Inr True" "vc_payload c = p"
    using assms by (auto simp: issueVoteCertificate_iff verifyVoteCertificate_iff ed25519_def)
next
  fix c d k l
  assume "verifyVoteCertificate pl sg c k = Inr True \<and> verifyVoteCertificate pl sg d l = Inr True"
  then have v: "verifyVoteCertificate pl sg c k = Inr True" "verifyVoteCertificate pl sg d l = Inr True" by simp_all
  then show "certificate_message (vc_payload c) = certificate_message (vc_payload d) \<longleftrightarrow> vc_payload c = vc_payload d"
    by (intro certificate_message_inj) (auto simp: verifyVoteCertificate_iff)
  assume "vc_payloadSha256 c = vc_payloadSha256 d"
  then show "vc_payload c = vc_payload d \<or>
      sha256_collision (certificate_message (vc_payload c)) (certificate_message (vc_payload d))"
    using v certificate_message_inj [of pl "vc_payload c" "vc_payload d"]
    by (auto simp: verifyVoteCertificate_iff sha256_collision_def dest: hex_of_bytes_inj)
qed

section \<open>A certificate\<close>

definition wit_signatures :: "byte list signatures" where
  "wit_signatures = \<lparr>sg_sign = \<lambda>k m. sha256 (k @ m) @ sha256 (k @ m),
     sg_verify = \<lambda>k m s. s = sha256 (k @ m) @ sha256 (k @ m), sg_public = \<lambda>k. k,
     sg_import = \<lambda>es. (case map_of es (lit ''x'') of Some (JStr s) \<Rightarrow> Some (utf8_encode s) | _ \<Rightarrow> None)\<rparr>"

lemma wit_ed25519: "ed25519 wit_signatures"
  by (simp add: ed25519_def wit_signatures_def)

definition wit_fraction :: DecimalFraction where
  "wit_fraction = \<lparr>df_numerator = lit ''1'', df_denominator = lit ''2''\<rparr>"

definition wit_certificate_tally :: CanonicalVoteTally where
  "wit_certificate_tally = \<lparr>ct_eligibleWeight = lit ''1'', ct_participatingWeight = lit ''1'', ct_yesWeight = lit ''1'',
     ct_noWeight = lit ''0'', ct_abstainWeight = lit ''0'', ct_quorumMet = True, ct_approvalMet = True,
     ct_outcome = approved\<rparr>"

definition wit_payload :: VoteCertificatePayload where
  "wit_payload = \<lparr>vp_certificateId = wit_uuid, vp_publicId = base64url (replicate 32 0), vp_outcomeId = wit_uuid,
     vp_instanceId = wit_uuid, vp_organizationId = wit_uuid, vp_boardId = wit_uuid,
     vp_vote = \<lparr>cw_id = wit_uuid', cw_title = lit ''Budget'', cw_resolutionVersionId = wit_uuid, cw_resolutionVersion = 1,
       cw_resolutionText = lit ''Approve the budget.'', cw_resolutionSha256 = wit_sha, cw_decisionPackageId = wit_uuid,
       cw_decisionPackageVersion = 1, cw_decisionPackageSha256 = wit_sha, cw_closeMode = tc_automatic,
       cw_deadlineAt = wit_time\<rparr>,
     vp_packageEvidence = \<lparr>cm_submissionManifestSha256 = wit_sha, cm_documentManifestSha256 = wit_sha,
       cm_questionCutoffSha256 = wit_sha\<rparr>,
     vp_governance = \<lparr>cg_governanceProfileId = wit_uuid, cg_governanceProfileSha256 = wit_sha, cg_rulesetId = wit_uuid,
       cg_rulesetSha256 = wit_sha, cg_matterEvaluationId = wit_uuid, cg_matterEvaluationResultSha256 = wit_sha,
       cg_selectedRulesetRuleId = wit_uuid, cg_selectedRulesetRuleSha256 = wit_sha, cg_ruleOverrideId = None,
       cg_ruleOverrideSha256 = None,
       cg_approvalRule = \<lparr>ca_id = wit_uuid, ca_canonicalSha256 = wit_sha, ca_approval = wit_fraction, ca_quorum = wit_fraction,
         ca_approvalDenominator = eligible_weight, ca_abstentionsCountForQuorum = True, ca_tieBehavior = reject_tie,
         ca_proxyPolicy = Policy first_ballot_final, ca_closeMode = tc_automatic\<rparr>\<rparr>,
     vp_electorateSha256 = wit_sha,
     vp_electorate = [\<lparr>ce_memberId = wit_uuid, ce_membershipVersionId = wit_uuid, ce_isChair = False,
       ce_votingWeight = lit ''1'', ce_eligibilitySha256 = wit_sha\<rparr>],
     vp_exclusions = [], vp_proxies = [],
     vp_ballots = [\<lparr>cb_id = wit_uuid, cb_principalMemberId = wit_uuid, cb_casterMemberId = wit_uuid, cb_choice = Yes,
       cb_statementSha256 = None, cb_votingWeight = lit ''1'', cb_source = own_ballot, cb_proxyGrantId = None,
       cb_consentRecordId = wit_uuid, cb_consentRecordSha256 = wit_sha, cb_castAt = wit_time, cb_disposition = None\<rparr>],
     vp_consentSetSha256 = wit_sha, vp_tally = wit_certificate_tally,
     vp_tallySha256 = hex_of_bytes (sha256 (canonical_bytes (certificate_tally_json wit_certificate_tally))),
     vp_outcome = approved,
     vp_close = \<lparr>cl_actorMemberId = None, cl_consentRecordId = None, cl_consentRecordSha256 = None,
       cl_clockSampleId = wit_uuid, cl_measuredAt = wit_time, cl_driftMicroseconds = lit ''-5'', cl_validUntil = wit_time\<rparr>,
     vp_closingAuditEventId = wit_uuid, vp_closingAuditSequence = lit ''7'', vp_closingAuditHash = wit_sha,
     vp_preparedAt = wit_time, vp_keyId = lit ''k1'', vp_signingKeyId = wit_uuid\<rparr>"

lemma wit_decimals: "positive_decimal (lit ''1'')" "positive_decimal (lit ''2'')" "positive_decimal (lit ''7'')"
  "unsigned_decimal (lit ''1'')" "unsigned_decimal (lit ''0'')" "signed_decimal (lit ''-5'')" "Kid (lit ''k1'')"
  by code_simp+

lemma wit_tally_schema: "CanonicalVoteTallySchema wit_certificate_tally"
  by (simp add: CanonicalVoteTallySchema_def wit_certificate_tally_def wit_decimals del: lit_simps)

lemma wit_fields: "certificate_fields_ok wit_payload"
  by (simp add: certificate_fields_ok_def wit_payload_def wit_uuid_parses wit_times wit_decimals wit_tally_schema
      PublicIdSchema_def certificate_vote_ok_def certificate_governance_ok_def certificate_close_ok_def nullable_ok_def
      CertificateApprovalRuleSchema_def DecimalFractionSchema_def wit_fraction_def CertificateElectorateEntrySchema_def
      CertificateBallotEntrySchema_def SafePositiveIntegerSchema_def isSafeInteger_def MAX_SAFE_INTEGER_def
      CanonicalResolutionTextSchema_def length_lit del: lit_simps)

lemma wit_uuids: "wit_uuid' \<noteq> wit_uuid"
  by code_simp

lemma wit_payload_schema: "VoteCertificatePayloadSchema pl wit_payload"
proof -
  have "canonicalSha256 pl (certificate_tally_json wit_certificate_tally) =
      Inr (hex_of_bytes (sha256 (canonical_bytes (certificate_tally_json wit_certificate_tally))))"
    by (simp add: canonicalSha256_iff certificate_part_ok certificate_depths certificate_strings wit_tally_schema
        MAX_JSON_CONTAINER_DEPTH_def)
  then show ?thesis
    using wit_fields wit_uuids
    by (simp add: VoteCertificatePayloadSchema_def safeHashEqual_iff)
      (simp add: wit_payload_def wit_certificate_tally_def safeHashEqual_iff orderedUnique_def length_js_set_iff)
qed

lemma wit_payload_writable: "certificate_writable pl wit_payload"
  by (simp add: certificate_writable_iff wit_fields) (simp add: wit_payload_def)

theorem issued_certificate_verifies_witness:
  "\<exists>c. issueVoteCertificate plain_platform wit_signatures wit_payload [1] = Inr c \<and>
     verifyVoteCertificate plain_platform wit_signatures c [1] = Inr True \<and> vc_payload c = wit_payload"
proof -
  have "sg_public wit_signatures [1] = [1]" by (simp add: wit_signatures_def)
  moreover have "scalar_string (normalizeNFC plain_platform) (cw_title (vp_vote wit_payload))"
    "scalar_string (normalizeNFC plain_platform) (cw_resolutionText (vp_vote wit_payload))"
    using wit_payload_writable [of plain_platform] by (simp_all add: certificate_writable_iff wit_fields)
  ultimately show ?thesis
    using issued_certificate_verifies [OF wit_ed25519, of plain_platform wit_payload "[1]"] wit_payload_schema by auto
qed

end
