(* ===== verification/Certificate_Bundle.thy ===== *)
theory Certificate_Bundle
  imports Certificate Document
begin

text \<open>
  The offline check of a certificate bundle: \<^verbatim>\<open>verifyOfflineCertificateBundle\<close> of \<^verbatim>\<open>lib/audit/src/offline.ts\<close>. The bundle
  brings its own key, which is trusted only when the separately supplied key set has it. Key material is an object of JSON
  values; a number in it is an integer of the safe range, as everywhere in these theories. The tally is counted again from the
  ballots of the payload before the signature is checked. An error inside the \<open>try\<close> block gives a negative answer.
\<close>

section \<open>Bundles and trusted keys\<close>

record OfflineEvidenceKey =
  ok_id :: jstring
  ok_kid :: jstring
  ok_public_jwk :: "(jstring \<times> json) list"

definition OfflineEvidenceKeySchema :: "OfflineEvidenceKey \<Rightarrow> bool" where
  "OfflineEvidenceKeySchema k \<longleftrightarrow> UuidV7Schema (ok_id k) \<and> Kid (ok_kid k) \<and> js_json (JObj (ok_public_jwk k))"

definition TrustedEvidenceKeySetSchema :: "OfflineEvidenceKey list \<Rightarrow> bool" where
  "TrustedEvidenceKeySetSchema keys \<longleftrightarrow>
     list_all OfflineEvidenceKeySchema keys \<and> 1 \<le> length keys \<and> length keys \<le> 1000 \<and>
     length (js_set (map ok_id keys)) = length keys \<and> length (js_set (map ok_kid keys)) = length keys"

record OfflineCertificateBundle =
  ob_certificate_id :: jstring
  ob_vote_id :: jstring
  ob_outcome_id :: jstring
  ob_public_id :: jstring
  ob_canonical_payload :: VoteCertificatePayload
  ob_payload_sha256 :: jstring
  ob_signature_base64url :: jstring
  ob_signing_key :: OfflineEvidenceKey
  ob_issued_at :: jstring

definition OfflineCertificateBundleSchema :: "platform \<Rightarrow> OfflineCertificateBundle \<Rightarrow> bool" where
  "OfflineCertificateBundleSchema pl b \<longleftrightarrow>
     UuidV7Schema (ob_certificate_id b) \<and> UuidV7Schema (ob_vote_id b) \<and> UuidV7Schema (ob_outcome_id b) \<and>
     length (ob_public_id b) = 43 \<and> list_all base64url_unit (ob_public_id b) \<and>
     VoteCertificatePayloadSchema pl (ob_canonical_payload b) \<and> Sha256HexSchema (ob_payload_sha256 b) \<and>
     length (ob_signature_base64url b) = 86 \<and> list_all base64url_unit (ob_signature_base64url b) \<and>
     OfflineEvidenceKeySchema (ob_signing_key b) \<and> Rfc3339UtcSchema (ob_issued_at b)"

definition trustedEvidenceKey :: "OfflineEvidenceKey list \<Rightarrow> jstring \<Rightarrow> jstring \<Rightarrow> OfflineEvidenceKey option" where
  "trustedEvidenceKey keySet signingKeyId keyId =
     map_of (rev (map (\<lambda>k. (ok_id k @ lit '':'' @ ok_kid k, k)) keySet)) (signingKeyId @ lit '':'' @ keyId)"

definition projection_json ::
    "jstring \<Rightarrow> jstring \<Rightarrow> jstring \<Rightarrow> jstring \<Rightarrow> OfflineEvidenceKey \<Rightarrow> json" where
  "projection_json certificateId voteId outcomeId publicId key = JObj
     [(lit ''certificateId'', JStr certificateId), (lit ''voteId'', JStr voteId), (lit ''outcomeId'', JStr outcomeId),
      (lit ''publicId'', JStr publicId), (lit ''signingKeyId'', JStr (ok_id key)), (lit ''keyId'', JStr (ok_kid key)),
      (lit ''publicJwk'', JObj (ok_public_jwk key))]"

definition bundle_projection :: "OfflineCertificateBundle \<Rightarrow> json" where
  "bundle_projection b = projection_json (ob_certificate_id b) (ob_vote_id b) (ob_outcome_id b) (ob_public_id b) (ob_signing_key b)"

definition trusted_projection :: "VoteCertificatePayload \<Rightarrow> OfflineEvidenceKey \<Rightarrow> json" where
  "trusted_projection p key = projection_json (vp_certificateId p) (cw_id (vp_vote p)) (vp_outcomeId p) (vp_publicId p) key"

section \<open>Counting the payload again\<close>

definition seat_weight :: "VoteCertificatePayload \<Rightarrow> jstring \<Rightarrow> jstring option" where
  "seat_weight p m = map_of (rev (map (\<lambda>s. (ce_memberId s, ce_votingWeight s)) (vp_electorate p))) m"

fun offline_exclusions ::
    "VoteCertificatePayload \<Rightarrow> (jstring \<times> CertificateExclusionEntry) list \<Rightarrow> CertificateExclusionEntry list \<Rightarrow>
     (jstring \<times> CertificateExclusionEntry) list option" where
  "offline_exclusions p exclusions [] = Some exclusions"
| "offline_exclusions p exclusions (x # xs) =
     (if seat_weight p (cx_memberId x) = None then None
      else if (case map_of exclusions (cx_memberId x) of Some prior \<Rightarrow> cx_version x \<le> cx_version prior | None \<Rightarrow> False)
        then None
      else offline_exclusions p (map_set (cx_memberId x) x exclusions) xs)"

definition offline_ballot_ok :: "VoteCertificatePayload \<Rightarrow> CertificateBallotEntry \<Rightarrow> bool" where
  "offline_ballot_ok p b \<longleftrightarrow>
     seat_weight p (cb_principalMemberId b) = Some (cb_votingWeight b) \<and>
     (cb_source b = proxy_ballot \<longrightarrow>
        (case Option.bind (cb_proxyGrantId b) (map_of (rev (map (\<lambda>q. (cp_id q, q)) (vp_proxies p)))) of
           None \<Rightarrow> False
         | Some q \<Rightarrow> cp_principalMemberId q = cb_principalMemberId b \<and> cp_holderMemberId q = cb_casterMemberId b \<and>
             Policy (cp_policy q) = ca_proxyPolicy (cg_approvalRule (vp_governance p))))"

definition decimal_int :: "jstring \<Rightarrow> int" where
  "decimal_int s = int (dec_val s)"

definition fraction_of :: "DecimalFraction \<Rightarrow> Rational" where
  "fraction_of f = \<lparr>numerator = decimal_int (df_numerator f), denominator = decimal_int (df_denominator f)\<rparr>"

definition certificate_rule :: "CertificateApprovalRule \<Rightarrow> ApprovalRule" where
  "certificate_rule r = \<lparr>ar_approval = fraction_of (ca_approval r), ar_quorum = fraction_of (ca_quorum r),
     ar_approvalDenominator = ca_approvalDenominator r, ar_abstentionsCountForQuorum = ca_abstentionsCountForQuorum r,
     ar_tieBehavior = ca_tieBehavior r\<rparr>"

definition certificate_seats ::
    "VoteCertificatePayload \<Rightarrow> (jstring \<times> CertificateExclusionEntry) list \<Rightarrow> ElectorSeat list" where
  "certificate_seats p exclusions = map (\<lambda>s. \<lparr>es_memberId = ce_memberId s, es_role = voting_member,
     es_weight = decimal_int (ce_votingWeight s), es_eligible = True,
     es_recused = map_option cx_state (map_of exclusions (ce_memberId s)) = Some excluded_state,
     es_chair = ce_isChair s\<rparr>) (vp_electorate p)"

definition certificate_ballots :: "VoteCertificatePayload \<Rightarrow> EffectiveBallot list" where
  "certificate_ballots p = map (\<lambda>b. \<lparr>eb_principalMemberId = cb_principalMemberId b,
     eb_casterMemberId = cb_casterMemberId b, eb_choice = cb_choice b, eb_source = cb_source b\<rparr>)
     (filter (\<lambda>b. cb_disposition b = None) (vp_ballots p))"

section \<open>The check\<close>

definition catch_false :: "bool result \<Rightarrow> bool" where
  "catch_false m = (case m of Inl _ \<Rightarrow> False | Inr b \<Rightarrow> b)"

definition offline_payload_check ::
    "platform \<Rightarrow> 'k signatures \<Rightarrow> OfflineCertificateBundle \<Rightarrow> OfflineEvidenceKey \<Rightarrow> bool result" where
  "offline_payload_check pl sg bundle trusted =
     (let payload = ob_canonical_payload bundle in
      case offline_exclusions payload [] (vp_exclusions payload) of
        None \<Rightarrow> Inr False
      | Some exclusions \<Rightarrow>
          if \<not> list_all (offline_ballot_ok payload) (vp_ballots payload) then Inr False
          else
          bindr (tallyVote (certificate_seats payload exclusions) (certificate_ballots payload)
            (certificate_rule (cg_approvalRule (vp_governance payload)))) (\<lambda>recomputed.
          bindr (canonicalJson pl (canonicalVoteTally recomputed)) (\<lambda>s.
          bindr (canonicalJson pl (certificate_tally_json (vp_tally payload))) (\<lambda>t.
          if s \<noteq> t then Inr False
          else case sg_import sg (ok_public_jwk trusted) of
            None \<Rightarrow> throw (TypeError ''invalid JWK'')
          | Some key \<Rightarrow> verifyVoteCertificate pl sg
              \<lparr>vc_payload = payload, vc_payloadSha256 = ob_payload_sha256 bundle,
               vc_signatureBase64Url = ob_signature_base64url bundle\<rparr> key))))"

definition verifyOfflineCertificateBundle ::
    "platform \<Rightarrow> 'k signatures \<Rightarrow> OfflineCertificateBundle \<Rightarrow> OfflineEvidenceKey list \<Rightarrow> bool result" where
  "verifyOfflineCertificateBundle pl sg bundle trustedKeys =
     (if \<not> OfflineCertificateBundleSchema pl bundle \<or> \<not> TrustedEvidenceKeySetSchema trustedKeys then Inr False
      else
      let payload = ob_canonical_payload bundle in
      case trustedEvidenceKey trustedKeys (vp_signingKeyId payload) (vp_keyId payload) of
        None \<Rightarrow> Inr False
      | Some trusted \<Rightarrow>
          bindr (canonicalJson pl (bundle_projection bundle)) (\<lambda>bundleProjection.
          bindr (canonicalJson pl (trusted_projection payload trusted)) (\<lambda>trustedProjection.
          if bundleProjection \<noteq> trustedProjection then Inr False
          else Inr (catch_false (offline_payload_check pl sg bundle trusted)))))"

section \<open>What an accepted bundle shows\<close>

definition canonical_tally :: "VoteTally \<Rightarrow> CanonicalVoteTally" where
  "canonical_tally t = \<lparr>ct_eligibleWeight = dec_int (vt_eligibleWeight t),
     ct_participatingWeight = dec_int (vt_participatingWeight t), ct_yesWeight = dec_int (vt_yesWeight t),
     ct_noWeight = dec_int (vt_noWeight t), ct_abstainWeight = dec_int (vt_abstainWeight t),
     ct_quorumMet = vt_quorumMet t, ct_approvalMet = vt_approvalMet t, ct_outcome = vt_outcome t\<rparr>"

lemma canonical_tally_json: "canonicalVoteTally t = certificate_tally_json (canonical_tally t)"
  by (simp add: canonicalVoteTally_def certificate_tally_json_def canonical_tally_def)

text \<open>The member is recused by the exclusion with the highest version.\<close>

definition recused_in :: "VoteCertificatePayload \<Rightarrow> jstring \<Rightarrow> bool" where
  "recused_in p m \<longleftrightarrow> (\<exists>x\<in>set (vp_exclusions p). cx_memberId x = m \<and> cx_state x = excluded_state \<and>
     (\<forall>y\<in>set (vp_exclusions p). cx_memberId y = m \<longrightarrow> cx_version y \<le> cx_version x))"

definition counted_seats :: "VoteCertificatePayload \<Rightarrow> ElectorSeat list" where
  "counted_seats p = map (\<lambda>s. \<lparr>es_memberId = ce_memberId s, es_role = voting_member,
     es_weight = decimal_int (ce_votingWeight s), es_eligible = True, es_recused = recused_in p (ce_memberId s),
     es_chair = ce_isChair s\<rparr>) (vp_electorate p)"

lemma offline_exclusions_latest:
  assumes "offline_exclusions p seen xs = Some ex" and "\<forall>m x. map_of seen m = Some x \<longrightarrow> cx_memberId x = m"
  shows "(\<forall>m x. map_of ex m = Some x \<longrightarrow> cx_memberId x = m \<and> (x \<in> set xs \<or> map_of seen m = Some x)) \<and>
    (\<forall>y\<in>set xs. \<exists>x. map_of ex (cx_memberId y) = Some x \<and> (cx_version y < cx_version x \<or> y = x)) \<and>
    (\<forall>m y. map_of seen m = Some y \<longrightarrow> (\<exists>x. map_of ex m = Some x \<and> (cx_version y < cx_version x \<or> y = x)))"
  using assms
proof (induction xs arbitrary: seen)
  case (Cons x xs)
  let ?s = "map_set (cx_memberId x) x seen"
  have ok: "offline_exclusions p ?s xs = Some ex"
    "\<forall>y. map_of seen (cx_memberId x) = Some y \<longrightarrow> cx_version y < cx_version x"
    using Cons.prems(1) by (auto split: if_splits option.splits)
  have s: "\<forall>m x. map_of ?s m = Some x \<longrightarrow> cx_memberId x = m" using Cons.prems(2) by simp
  note I = Cons.IH [OF ok(1) s]
  have I1: "cx_memberId w = m \<and> (w \<in> set xs \<or> map_of ?s m = Some w)" if "map_of ex m = Some w" for m w
    using I that by blast
  have I2: "\<exists>w. map_of ex (cx_memberId y) = Some w \<and> (cx_version y < cx_version w \<or> y = w)" if "y \<in> set xs" for y
    using I that by blast
  have I3: "\<exists>w. map_of ex m = Some w \<and> (cx_version y < cx_version w \<or> y = w)" if "map_of ?s m = Some y" for m y
    using I that by blast
  obtain z where z: "map_of ex (cx_memberId x) = Some z" "cx_version x < cx_version z \<or> x = z"
    using I3 [of "cx_memberId x" x] by auto
  have 1: "cx_memberId w = m \<and> (w \<in> set (x # xs) \<or> map_of seen m = Some w)" if "map_of ex m = Some w" for m w
    using I1 [OF that] by (cases "m = cx_memberId x") auto
  have 2: "\<exists>w. map_of ex (cx_memberId y) = Some w \<and> (cx_version y < cx_version w \<or> y = w)" if "y \<in> set (x # xs)" for y
    using I2 [of y] z that by (cases "y = x") auto
  have 3: "\<exists>w. map_of ex m = Some w \<and> (cx_version y < cx_version w \<or> y = w)" if y: "map_of seen m = Some y" for m y
  proof (cases "m = cx_memberId x")
    case True
    with y ok(2) have "cx_version y < cx_version x" by simp
    with z(2) have "cx_version y < cx_version z" by auto
    with z(1) True show ?thesis by simp
  next
    case False
    with y show ?thesis by (intro I3) simp
  qed
  from 1 2 3 show ?case by blast
qed auto

lemma offline_exclusions_recused:
  assumes "offline_exclusions p [] (vp_exclusions p) = Some ex"
  shows "map_option cx_state (map_of ex m) = Some excluded_state \<longleftrightarrow> recused_in p m"
proof -
  note L = offline_exclusions_latest [OF assms, simplified]
  have L1: "cx_memberId x = m \<and> x \<in> set (vp_exclusions p)" if "map_of ex m = Some x" for x m using L that by blast
  have L2: "\<exists>x. map_of ex (cx_memberId y) = Some x \<and> (cx_version y < cx_version x \<or> y = x)"
    if "y \<in> set (vp_exclusions p)" for y using L that by blast
  show ?thesis
  proof
    assume "map_option cx_state (map_of ex m) = Some excluded_state"
    then obtain x where x: "map_of ex m = Some x" "cx_state x = excluded_state" by auto
    have "cx_version y \<le> cx_version x" if "y \<in> set (vp_exclusions p)" "cx_memberId y = m" for y
      using L2 [OF that(1)] that(2) x(1) by auto
    with x L1 [OF x(1)] show "recused_in p m" unfolding recused_in_def by blast
  next
    assume "recused_in p m"
    then obtain x where x: "x \<in> set (vp_exclusions p)" "cx_memberId x = m" "cx_state x = excluded_state"
      "\<forall>y\<in>set (vp_exclusions p). cx_memberId y = m \<longrightarrow> cx_version y \<le> cx_version x"
      unfolding recused_in_def by blast
    from L2 [OF x(1)] obtain z where z: "map_of ex m = Some z" "cx_version x < cx_version z \<or> x = z" using x(2) by auto
    from L1 [OF z(1)] x(4) have "cx_version z \<le> cx_version x" by blast
    with z(2) have "x = z" by auto
    with z(1) x(3) show "map_option cx_state (map_of ex m) = Some excluded_state" by simp
  qed
qed

lemma offline_seats: "offline_exclusions p [] (vp_exclusions p) = Some ex \<Longrightarrow> certificate_seats p ex = counted_seats p"
  unfolding certificate_seats_def counted_seats_def by (simp only: offline_exclusions_recused)

lemma trustedEvidenceKey_Some:
  assumes "trustedEvidenceKey keys i j = Some k" and "TrustedEvidenceKeySetSchema keys" and "UuidV7Schema i"
  shows "k \<in> set keys \<and> ok_id k = i \<and> ok_kid k = j"
proof -
  from assms(1) have k: "k \<in> set keys" "ok_id k @ lit '':'' @ ok_kid k = i @ lit '':'' @ j"
    by (auto simp: trustedEvidenceKey_def dest!: map_of_SomeD)
  with assms(2) have "UuidV7Schema (ok_id k)"
    by (simp add: TrustedEvidenceKeySetSchema_def list_all_iff OfflineEvidenceKeySchema_def)
  with assms(3) have "length (ok_id k) = length i" by (simp add: UuidV7Schema_length)
  with k show ?thesis by (simp del: lit_simps)
qed

lemma projection_json_ok: "js_json (JObj (ok_public_jwk k)) \<Longrightarrow> js_json (projection_json a b c d k)"
  by (simp add: projection_json_def)

lemma projection_json_eq:
  "jval_of (projection_json a b c d k) = jval_of (projection_json a' b' c' d' k') \<longleftrightarrow>
     a = a' \<and> b = b' \<and> c = c' \<and> d = d' \<and> ok_id k = ok_id k' \<and> ok_kid k = ok_kid k' \<and>
     jval_of (JObj (ok_public_jwk k)) = jval_of (JObj (ok_public_jwk k'))"
  unfolding projection_json_def by (subst jval_obj_eq) (auto simp del: jval_of.simps(6))

lemma same_canonical_text:
  assumes "rfc8785_encoder pl" and "js_json v" and "js_json w" and "canonicalJson pl v = Inr s" and "canonicalJson pl w = Inr s"
  shows "jval_of v = jval_of w"
proof -
  have "canonical_bytes v = canonical_bytes w" "wf_json (normalizeNFC pl) v" "wf_json (normalizeNFC pl) w"
    using assms by (simp_all add: canonicalJson_rfc8785 canonical_bytes_def wf_json_iff)
  then show ?thesis using canonical_bytes_eq by blast
qed

lemma offline_payload_check_True:
  assumes "offline_payload_check pl sg b k = Inr True"
  shows "let p = ob_canonical_payload b; E = counted_seats p; B = certificate_ballots p;
      R = certificate_rule (cg_approvalRule (vp_governance p)) in
    electorate_ok E \<and> ballots_ok E B \<and> vp_tally p = canonical_tally (tally_spec E B R) \<and>
    list_all (offline_ballot_ok p) (vp_ballots p) \<and>
    (\<exists>key. sg_import sg (ok_public_jwk k) = Some key \<and>
      verifyVoteCertificate pl sg \<lparr>vc_payload = p, vc_payloadSha256 = ob_payload_sha256 b,
        vc_signatureBase64Url = ob_signature_base64url b\<rparr> key = Inr True)"
proof -
  let ?p = "ob_canonical_payload b"
  let ?R = "certificate_rule (cg_approvalRule (vp_governance ?p))"
  from assms obtain ex where ex: "offline_exclusions ?p [] (vp_exclusions ?p) = Some ex"
    by (auto simp: offline_payload_check_def Let_def split: option.splits)
  note s = offline_seats [OF ex]
  from assms obtain t u key where t: "list_all (offline_ballot_ok ?p) (vp_ballots ?p)"
    "tallyVote (counted_seats ?p) (certificate_ballots ?p) ?R = Inr t"
    "canonicalJson pl (canonicalVoteTally t) = Inr u" "canonicalJson pl (certificate_tally_json (vp_tally ?p)) = Inr u"
    and key: "sg_import sg (ok_public_jwk k) = Some key"
      "verifyVoteCertificate pl sg \<lparr>vc_payload = ?p, vc_payloadSha256 = ob_payload_sha256 b,
        vc_signatureBase64Url = ob_signature_base64url b\<rparr> key = Inr True"
    unfolding offline_payload_check_def Let_def ex option.case s
    by (auto simp: bindr_eq_Inr_iff split: if_splits option.splits)
  have "jval_of (certificate_tally_json (canonical_tally t)) = jval_of (certificate_tally_json (vp_tally ?p))"
    using canonicalJson_eq_iff [OF _ _ _ _ t(3,4) [unfolded canonical_tally_json]] by simp
  then have "vp_tally ?p = canonical_tally t" by (simp add: certificate_tally_json_inj)
  with t(1,2) key show ?thesis by (auto simp: Let_def tallyVote_Inr_iff)
qed

text \<open>Property C7: a certificate bundle that passes the offline check proves its outcome. Its key is one of the separately trusted keys,
  the one the payload names, and signed exactly the canonical bytes of the payload; the bundle repeats the identifiers
  and carries the digest of the payload; and the tally and the outcome are the declarative tally of the payload's seats,
  recused by their latest exclusion, and of its ballots without a disposition, which are of different eligible members and
  carry the weight of their seats.\<close>

theorem offline_bundle_sound:
  assumes "rfc8785_encoder pl" and "verifyOfflineCertificateBundle pl sg b keys = Inr True"
  shows "let p = ob_canonical_payload b; E = counted_seats p; B = certificate_ballots p;
      R = certificate_rule (cg_approvalRule (vp_governance p)) in
    (\<exists>k\<in>set keys. ok_id k = vp_signingKeyId p \<and> ok_kid k = vp_keyId p \<and>
       jval_of (JObj (ok_public_jwk k)) = jval_of (JObj (ok_public_jwk (ob_signing_key b))) \<and>
       (\<exists>key s. sg_import sg (ok_public_jwk k) = Some key \<and> ob_signature_base64url b = base64url s \<and>
          sg_verify sg key (certificate_message p) s)) \<and>
    ob_certificate_id b = vp_certificateId p \<and> ob_vote_id b = cw_id (vp_vote p) \<and> ob_outcome_id b = vp_outcomeId p \<and>
    ob_public_id b = vp_publicId p \<and> ob_payload_sha256 b = hex_of_bytes (sha256 (certificate_message p)) \<and>
    electorate_ok E \<and> ballots_ok E B \<and> vp_tally p = canonical_tally (tally_spec E B R) \<and>
    vp_outcome p = vt_outcome (tally_spec E B R) \<and>
    (\<forall>x\<in>set (vp_ballots p). seat_weight p (cb_principalMemberId x) = Some (cb_votingWeight x))"
proof -
  let ?p = "ob_canonical_payload b"
  from assms(2) obtain k u where b: "OfflineCertificateBundleSchema pl b" "TrustedEvidenceKeySetSchema keys"
    and k: "trustedEvidenceKey keys (vp_signingKeyId ?p) (vp_keyId ?p) = Some k"
    and u: "canonicalJson pl (bundle_projection b) = Inr u" "canonicalJson pl (trusted_projection ?p k) = Inr u"
    and c: "offline_payload_check pl sg b k = Inr True"
    by (auto simp: verifyOfflineCertificateBundle_def Let_def bindr_eq_Inr_iff catch_false_def
        split: if_splits option.splits sum.splits)
  have v: "VoteCertificatePayloadSchema pl ?p" using b(1) by (simp add: OfflineCertificateBundleSchema_def)
  then have i: "UuidV7Schema (vp_signingKeyId ?p)" by (auto dest: schema_fields simp: certificate_fields_ok_def)
  note kk = trustedEvidenceKey_Some [OF k b(2) i]
  have "js_json (bundle_projection b)" "js_json (trusted_projection ?p k)"
    using b kk unfolding bundle_projection_def trusted_projection_def
    by (auto intro!: projection_json_ok simp: OfflineCertificateBundleSchema_def OfflineEvidenceKeySchema_def
        TrustedEvidenceKeySetSchema_def list_all_iff simp del: js_json.simps)
  from same_canonical_text [OF assms(1) this u] have j: "ob_certificate_id b = vp_certificateId ?p"
    "ob_vote_id b = cw_id (vp_vote ?p)" "ob_outcome_id b = vp_outcomeId ?p" "ob_public_id b = vp_publicId ?p"
    "jval_of (JObj (ok_public_jwk k)) = jval_of (JObj (ok_public_jwk (ob_signing_key b)))"
    unfolding bundle_projection_def trusted_projection_def projection_json_eq by auto
  from offline_payload_check_True [OF c] obtain key s where
    c: "electorate_ok (counted_seats ?p)" "ballots_ok (counted_seats ?p) (certificate_ballots ?p)"
      "vp_tally ?p = canonical_tally (tally_spec (counted_seats ?p) (certificate_ballots ?p)
        (certificate_rule (cg_approvalRule (vp_governance ?p))))"
      "list_all (offline_ballot_ok ?p) (vp_ballots ?p)" "sg_import sg (ok_public_jwk k) = Some key"
      "ob_payload_sha256 b = hex_of_bytes (sha256 (certificate_message ?p))" "ob_signature_base64url b = base64url s"
      "sg_verify sg key (certificate_message ?p) s"
    by (auto simp: Let_def verifyVoteCertificate_iff)
  have o: "vp_outcome ?p = vt_outcome (tally_spec (counted_seats ?p) (certificate_ballots ?p)
      (certificate_rule (cg_approvalRule (vp_governance ?p))))"
    using v c(3) by (simp add: VoteCertificatePayloadSchema_def canonical_tally_def)
  have w: "\<forall>x\<in>set (vp_ballots ?p). seat_weight ?p (cb_principalMemberId x) = Some (cb_votingWeight x)"
    using c(4) by (simp add: list_all_iff offline_ballot_ok_def)
  from kk j c o w show ?thesis unfolding Let_def by blast
qed

section \<open>A bundle\<close>

definition wit_evidence_key :: OfflineEvidenceKey where
  "wit_evidence_key = \<lparr>ok_id = wit_uuid, ok_kid = lit ''k1'', ok_public_jwk = [(lit ''kty'', jstr ''OKP''), (lit ''x'', jstr ''key'')]\<rparr>"

definition wit_bundle :: OfflineCertificateBundle where
  "wit_bundle = \<lparr>ob_certificate_id = wit_uuid, ob_vote_id = wit_uuid', ob_outcome_id = wit_uuid,
     ob_public_id = vp_publicId wit_payload, ob_canonical_payload = wit_payload,
     ob_payload_sha256 = hex_of_bytes (sha256 (certificate_message wit_payload)),
     ob_signature_base64url = base64url (sg_sign wit_signatures (utf8_encode (lit ''key'')) (certificate_message wit_payload)),
     ob_signing_key = wit_evidence_key, ob_issued_at = wit_time\<rparr>"

lemma wit_projection:
  "bundle_projection wit_bundle = trusted_projection wit_payload wit_evidence_key"
  "\<exists>u. canonicalJson pl (bundle_projection wit_bundle) = Inr u"
proof -
  show p: "bundle_projection wit_bundle = trusted_projection wit_payload wit_evidence_key"
    by (simp add: bundle_projection_def trusted_projection_def wit_bundle_def wit_payload_def)
  have i: "is_ascii (vp_publicId wit_payload)"
    using wit_fields by (simp add: certificate_fields_ok_def public_id_ascii)
  have "vp_certificateId wit_payload = wit_uuid" "cw_id (vp_vote wit_payload) = wit_uuid'" "vp_outcomeId wit_payload = wit_uuid"
    by (simp_all add: wit_payload_def)
  with i have "strings_ok nfc (trusted_projection wit_payload wit_evidence_key)" for nfc
    using wit_uuid_parses by (simp add: trusted_projection_def projection_json_def wit_evidence_key_def uuid_ascii)
  moreover have "index_free (trusted_projection wit_payload wit_evidence_key)"
    "json_depth (trusted_projection wit_payload wit_evidence_key) \<le> MAX_JSON_CONTAINER_DEPTH"
    by (simp_all add: trusted_projection_def projection_json_def wit_evidence_key_def MAX_JSON_CONTAINER_DEPTH_def)
  ultimately show "\<exists>u. canonicalJson pl (bundle_projection wit_bundle) = Inr u" by (simp add: p canonicalJson_iff)
qed

lemma wit_recount:
  "tallyVote (certificate_seats wit_payload []) (certificate_ballots wit_payload)
     (certificate_rule (cg_approvalRule (vp_governance wit_payload))) =
   Inr \<lparr>vt_eligibleWeight = 1, vt_participatingWeight = 1, vt_yesWeight = 1, vt_noWeight = 0, vt_abstainWeight = 0,
     vt_quorumMet = True, vt_approvalMet = True, vt_outcome = approved\<rparr>"
proof -
  have d: "decimal_int (lit ''1'') = 1" "decimal_int (lit ''2'') = 2" by code_simp+
  have "certificate_seats wit_payload [] = [\<lparr>es_memberId = wit_uuid, es_role = voting_member, es_weight = 1,
      es_eligible = True, es_recused = False, es_chair = False\<rparr>]"
    by (simp add: certificate_seats_def wit_payload_def d del: lit_simps)
  moreover have "certificate_ballots wit_payload = [\<lparr>eb_principalMemberId = wit_uuid, eb_casterMemberId = wit_uuid,
      eb_choice = Yes, eb_source = own_ballot\<rparr>]"
    by (simp add: certificate_ballots_def wit_payload_def del: lit_simps)
  moreover have "certificate_rule (cg_approvalRule (vp_governance wit_payload)) = \<lparr>ar_approval = \<lparr>numerator = 1, denominator = 2\<rparr>,
      ar_quorum = \<lparr>numerator = 1, denominator = 2\<rparr>, ar_approvalDenominator = eligible_weight,
      ar_abstentionsCountForQuorum = True, ar_tieBehavior = reject_tie\<rparr>"
    by (simp add: certificate_rule_def wit_payload_def fraction_of_def wit_fraction_def d del: lit_simps)
  moreover have "tallyVote [\<lparr>es_memberId = wit_uuid, es_role = voting_member, es_weight = 1,
      es_eligible = True, es_recused = False, es_chair = False\<rparr>] [\<lparr>eb_principalMemberId = wit_uuid, eb_casterMemberId = wit_uuid,
      eb_choice = Yes, eb_source = own_ballot\<rparr>] \<lparr>ar_approval = \<lparr>numerator = 1, denominator = 2\<rparr>,
      ar_quorum = \<lparr>numerator = 1, denominator = 2\<rparr>, ar_approvalDenominator = eligible_weight,
      ar_abstentionsCountForQuorum = True, ar_tieBehavior = reject_tie\<rparr> =
     Inr \<lparr>vt_eligibleWeight = 1, vt_participatingWeight = 1, vt_yesWeight = 1, vt_noWeight = 0, vt_abstainWeight = 0,
       vt_quorumMet = True, vt_approvalMet = True, vt_outcome = approved\<rparr>"
    by code_simp
  ultimately show ?thesis by (simp only:)
qed

lemma wit_accepted: "verifyOfflineCertificateBundle plain_platform wit_signatures wit_bundle [wit_evidence_key] = Inr True"
proof -
  obtain u where u: "canonicalJson plain_platform (bundle_projection wit_bundle) = Inr u" using wit_projection by blast
  have k: "OfflineEvidenceKeySchema wit_evidence_key"
    by (simp add: OfflineEvidenceKeySchema_def wit_evidence_key_def wit_uuid_parses wit_decimals lit_inj del: lit_simps)
  have s: "OfflineCertificateBundleSchema plain_platform wit_bundle" "TrustedEvidenceKeySetSchema [wit_evidence_key]"
    using wit_payload_schema [of plain_platform] k base64url_units
    by (simp_all add: OfflineCertificateBundleSchema_def TrustedEvidenceKeySetSchema_def wit_bundle_def wit_uuid_parses
        wit_times length_base64url wit_payload_def wit_signatures_def js_set_def)
  have t: "trustedEvidenceKey [wit_evidence_key] (vp_signingKeyId wit_payload) (vp_keyId wit_payload) = Some wit_evidence_key"
    by (simp add: trustedEvidenceKey_def wit_evidence_key_def wit_payload_def)
  have r: "canonicalVoteTally \<lparr>vt_eligibleWeight = 1, vt_participatingWeight = 1, vt_yesWeight = 1, vt_noWeight = 0,
      vt_abstainWeight = 0, vt_quorumMet = True, vt_approvalMet = True, vt_outcome = approved\<rparr> =
      certificate_tally_json (vp_tally wit_payload)"
    by (simp add: canonical_tally_json canonical_tally_def wit_payload_def wit_certificate_tally_def) code_simp
  obtain v where v: "canonicalJson plain_platform (certificate_tally_json (vp_tally wit_payload)) = Inr v"
    by (simp add: canonicalJson_iff certificate_part_ok certificate_depths certificate_strings wit_tally_schema
        MAX_JSON_CONTAINER_DEPTH_def wit_payload_def)
  have b: "list_all (offline_ballot_ok wit_payload) (vp_ballots wit_payload)"
    by (simp add: offline_ballot_ok_def seat_weight_def wit_payload_def)
  have c: "verifyVoteCertificate plain_platform wit_signatures \<lparr>vc_payload = wit_payload,
      vc_payloadSha256 = ob_payload_sha256 wit_bundle, vc_signatureBase64Url = ob_signature_base64url wit_bundle\<rparr>
      (utf8_encode (lit ''key'')) = Inr True"
    using wit_payload_schema wit_payload_writable by (simp add: verifyVoteCertificate_iff wit_bundle_def wit_signatures_def)
  have i: "sg_import wit_signatures (ok_public_jwk wit_evidence_key) = Some (utf8_encode (lit ''key''))"
    by (simp add: wit_signatures_def wit_evidence_key_def)
  have p: "ob_canonical_payload wit_bundle = wit_payload" "vp_exclusions wit_payload = []"
    by (simp_all add: wit_bundle_def wit_payload_def)
  have "offline_payload_check plain_platform wit_signatures wit_bundle wit_evidence_key = Inr True"
    by (simp add: offline_payload_check_def Let_def p b wit_recount r v i c del: lit_simps)
  then show ?thesis
    using u by (simp add: verifyOfflineCertificateBundle_def Let_def s t p flip: wit_projection(1)) (simp add: catch_false_def)
qed

theorem offline_bundle_sound_witness:
  "verifyOfflineCertificateBundle plain_platform wit_signatures wit_bundle [wit_evidence_key] = Inr True \<and>
     vp_outcome wit_payload = approved"
proof -
  have "rfc8785_encoder plain_platform" by (simp add: rfc8785_encoder_def plain_platform_def)
  from offline_bundle_sound [OF this wit_accepted] wit_accepted show ?thesis by (simp add: wit_payload_def)
qed

end
