(* ===== verification/Vote_Scenario.thy ===== *)
theory Vote_Scenario
  imports Vote_Close Json_Size
begin

text \<open>
  When an audit append cannot fail, and one vote from its opening to a recusal: two members, a proxy from the first to
  the second, a ballot of the second and the recusal of the second. The stores of this vote are where the
  properties of \<^verbatim>\<open>Vote_Properties\<close> are applied.
\<close>

section \<open>Appending events that cannot be refused\<close>

text \<open>What an append needs of an input, apart from its place in the log: the checks of the input and of the dated
  event pass, and its details are canonical JSON of bounded size.\<close>

definition dated :: "TxEnv \<Rightarrow> AuditAppendInput \<Rightarrow> AuditEventBody" where
  "dated env i = (ai_event i)\<lparr>ab_occurredAt := tx_nowText env\<rparr>"

definition event_ready :: "platform \<Rightarrow> (jstring \<Rightarrow> jstring \<Rightarrow> int) \<Rightarrow> TxEnv \<Rightarrow> AuditAppendInput \<Rightarrow> bool" where
  "event_ready pl lc env i \<longleftrightarrow>
     normalize_input i = Inr i \<and> AuditEventBodySchema pl lc (dated env i) \<and>
     js_json (JObj (ab_details (ai_event i))) \<and> index_free (JObj (ab_details (ai_event i))) \<and>
     json_depth (JObj (ab_details (ai_event i))) < MAX_JSON_CONTAINER_DEPTH \<and>
     strings_ok (normalizeNFC pl) (JObj (body_fields (dated env i))) \<and>
     4 * json_bound (JObj (body_fields (dated env i))) \<le> MAX_CANONICAL_AUDIT_BYTES"

lemma depth_nullable [simp]: "json_depth (nullable JStr x) = 0"
  by (cases x) simp_all

lemma depth_material:
  "json_depth (JObj (body_fields b)) = Suc (json_depth (JObj (ab_details b)))"
  "json_depth (hash_material n h b) = Suc (json_depth (JObj (ab_details b)))"
  by (simp_all add: body_fields_def hash_material_def)

lemma digest_of_digest: "Sha256HexSchema (hex_of_bytes (sha256 bs))"
  using sha256Hex_schema [of "Bytes bs"] by (simp add: sha256Hex_def sha256Bytes_def)

lemma append_event_total:
  assumes "event_ready pl lc env i" and "1 \<le> n" and "Sha256HexSchema h"
    and "ab_eventId (ai_event i) \<notin> (ab_eventId \<circ> au_event) ` set (st_audit st)"
    and "n \<notin> (ae_sequence \<circ> au_event) ` set (st_audit st)"
  shows "\<exists>e st'. append_event pl lc env i n h st = Inr (e, st') \<and> Sha256HexSchema (ae_eventHash e) \<and>
    ab_eventId e = ab_eventId (ai_event i) \<and> ae_sequence e = n"
proof -
  let ?b = "dated env i"
  have r: "AuditEventBodySchema pl lc ?b" "js_json (JObj (ab_details ?b)) \<and> index_free (JObj (ab_details ?b))"
    "json_depth (JObj (ab_details ?b)) < MAX_JSON_CONTAINER_DEPTH" "strings_ok (normalizeNFC pl) (JObj (body_fields ?b))"
    "4 * json_bound (JObj (body_fields ?b)) \<le> MAX_CANONICAL_AUDIT_BYTES"
    using assms(1) by (simp_all add: event_ready_def dated_def)
  have f: "index_free (JObj (body_fields ?b))" using r(2) by (simp add: body_fields_def del: index_free.simps(3))
  have "canonicalJson pl (JObj (body_fields ?b)) = Inr (stringify (jsort (JObj (body_fields ?b))))"
    using r(3,4) by (simp only: canonicalJson_iff [OF f]) (simp add: depth_material del: strings_ok.simps(3) json_depth.simps)
  moreover have "length (utf8_encode (stringify (jsort (JObj (body_fields ?b))))) \<le> MAX_CANONICAL_AUDIT_BYTES"
    using length_utf8 [of "stringify (jsort (JObj (body_fields ?b)))"] length_stringify [of "jsort (JObj (body_fields ?b))"] r(5)
    by (simp del: json_bound.simps(4) jsort.simps)
  moreover obtain k where k: "eventHash pl lc n h ?b = Inr k" "Sha256HexSchema k"
  proof -
    have "eventHash pl lc n h ?b = Inr (hex_of_bytes (sha256 (canonical_bytes (hash_material n h ?b))))"
    proof (rule eventHash_defined [OF r(1) assms(3,2) r(2)])
      show "json_depth (hash_material n h ?b) \<le> MAX_JSON_CONTAINER_DEPTH"
        using r(3) by (simp add: depth_material del: json_depth.simps)
      assume "is_ascii (dec_int n)" "scalar_string (normalizeNFC pl) h"
      with r(4) show "strings_ok (normalizeNFC pl) (hash_material n h ?b)"
        by (simp add: hash_material_def AUDIT_DOMAIN_def)
    qed
    with that show thesis by (simp add: digest_of_digest)
  qed
  moreover have "\<not> list_ex (audit_clash \<lparr>au_event = AuditEventBody.extend ?b \<lparr>ae_sequence = n, ae_previousHash = h, ae_eventHash = k\<rparr>,
      au_organizationId = ai_organizationId i, au_actingForMemberId = ai_actingForMemberId i,
      au_consentRecordId = ai_consentRecordId i, au_objectVersion = ai_objectVersion i\<rparr>) (st_audit st)"
    using assms(4,5) by (auto simp: list_ex_iff audit_clash_def dated_def AuditEventBody.defs)
  ultimately show ?thesis
    using r(1) by (simp add: append_event_def zparse_ok insert_row_def dated_def [symmetric] Let_def)
      (simp add: dated_def AuditEventBody.defs)
qed

lemma append_events_total:
  assumes "list_all (event_ready pl lc env) is" and "0 \<le> n" and "Sha256HexSchema h"
    and "distinct (map (ab_eventId \<circ> ai_event) is)"
    and "\<forall>i\<in>set is. ab_eventId (ai_event i) \<notin> ab_eventId ` set (audit_log st)"
    and "\<forall>e\<in>set (audit_log st). ae_sequence e \<le> n"
  shows "\<exists>events st'. append_events pl lc env is n h appended st = Inr (events, st') \<and>
    map ab_eventId events = map ab_eventId appended @ map (ab_eventId \<circ> ai_event) is"
  using assms
proof (induction "is" arbitrary: n h appended st)
  case (Cons i "is")
  have "\<exists>e st'. append_event pl lc env i (n + 1) h st = Inr (e, st') \<and> Sha256HexSchema (ae_eventHash e) \<and>
      ab_eventId e = ab_eventId (ai_event i) \<and> ae_sequence e = n + 1"
    using Cons.prems by (intro append_event_total) (force simp: audit_log_def)+
  then obtain e st1 where e: "append_event pl lc env i (n + 1) h st = Inr (e, st1)" "Sha256HexSchema (ae_eventHash e)"
    "ab_eventId e = ab_eventId (ai_event i)" "ae_sequence e = n + 1" by blast
  from append_event_ok [OF e(1)] have l: "audit_log st1 = audit_log st @ [e]" by (auto simp: audit_log_def)
  have "\<exists>events st'. append_events pl lc env is (n + 1) (ae_eventHash e) (appended @ [e]) st1 = Inr (events, st') \<and>
      map ab_eventId events = map ab_eventId (appended @ [e]) @ map (ab_eventId \<circ> ai_event) is"
    by (rule Cons.IH) (use Cons.prems e(2-4) in \<open>auto simp: l intro: rev_image_eqI\<close>)
  then show ?case by (auto simp: e(1,3) comp_def)
qed simp

lemma chain_sequence: "chain pl lc n h es \<Longrightarrow> e \<in> set es \<Longrightarrow> ae_sequence e < n + int (length es)"
  by (induction es arbitrary: n h) (force simp: links_def)+

lemma log_head_digest: "valid_log pl lc es \<Longrightarrow> Sha256HexSchema (log_head es)"
  by (cases es rule: rev_cases) (auto simp: chain_append links_def head_hash_def genesis_digest dest!: eventHash_digest)

lemma append_total:
  assumes "valid_log pl lc (audit_log st)" and "list_all (event_ready pl lc env) inputs"
    and "distinct (map (ab_eventId \<circ> ai_event) inputs)"
    and "\<forall>i\<in>set inputs. ab_eventId (ai_event i) \<notin> ab_eventId ` set (audit_log st)"
  shows "\<exists>events st'. appendAuditEventsInTransaction pl lc env inputs st = Inr (events, st') \<and>
    map ab_eventId events = map (ab_eventId \<circ> ai_event) inputs"
proof (cases "inputs = []")
  case False
  note h = log_head_digest [OF assms(1)]
  have q: "\<forall>e\<in>set (audit_log st). ae_sequence e \<le> int (length (audit_log st))"
    using chain_sequence [OF assms(1)] by force
  have "mapr normalize_input inputs = Inr inputs"
    using assms(2) by (induction inputs) (simp_all add: event_ready_def)
  moreover have "length (log_head (audit_log st)) = 64" using h by (simp add: Sha256HexSchema_iff)
  moreover have "\<exists>events st'. append_events pl lc env inputs (int (length (audit_log st))) (log_head (audit_log st)) [] st =
      Inr (events, st') \<and> map ab_eventId events = map (ab_eventId \<circ> ai_event) inputs"
    using append_events_total [OF assms(2) _ h assms(3,4), of "int (length (audit_log st))" "[]"] q by simp
  ultimately show ?thesis
    using False by (simp add: appendAuditEventsInTransaction_def audit_head_log [OF assms(1)])
qed (simp add: appendAuditEventsInTransaction_def)

lemma append_rows:
  assumes "valid_log pl lc (audit_log st)" and "list_all (event_ready pl lc env) inputs"
    and "distinct (map (ab_eventId \<circ> ai_event) inputs)"
    and "\<forall>i\<in>set inputs. ab_eventId (ai_event i) \<notin> ab_eventId ` set (audit_log st)"
  obtains events rows where "appendAuditEventsInTransaction pl lc env inputs st = Inr (events, st\<lparr>st_audit := rows\<rparr>)"
    and "map (ab_eventId \<circ> au_event) rows = map (ab_eventId \<circ> au_event) (st_audit st) @ map (ab_eventId \<circ> ai_event) inputs"
    and "valid_log pl lc (map au_event rows)"
proof -
  from append_total [OF assms] obtain events st' where
    a: "appendAuditEventsInTransaction pl lc env inputs st = Inr (events, st')"
    and m: "map ab_eventId events = map (ab_eventId \<circ> ai_event) inputs" by blast
  from appendAuditEvents_ok [OF a] obtain rows where
    r: "st' = st\<lparr>st_audit := st_audit st @ rows\<rparr>" "events = map au_event rows" by blast
  show thesis
    by (rule that [of events "st_audit st @ rows"])
      (use a m r appendAuditEvents_chain [OF a assms(1)] in \<open>simp_all add: audit_log_def comp_def\<close>)
qed

section \<open>Identifiers and digests\<close>

lemma find_app: "find p (xs @ ys) = (case find p xs of None \<Rightarrow> find p ys | Some x \<Rightarrow> Some x)"
  by (induction xs) simp_all

lemma ascii_dec_int: "is_ascii (dec_int n)"
  using dec_nat_digits [of "nat n"] dec_nat_digits [of "nat (- n)"]
  by (auto simp: dec_int_def is_ascii_def list_all_iff is_digit_def word_le_nat_alt word_less_nat_alt)

lemma scalar_dec_int [simp]: "scalar_string nfc (dec_int n)"
  by (simp add: ascii_dec_int)

definition uid :: "nat \<Rightarrow> jstring" where
  "uid n = lit ''01890a5d-ac96-774b-bcce-b302099a80'' @ [hex4_digit (n div 16 mod 16), hex4_digit (n mod 16)]"

lemma hex4_digit_lower: "d < 16 \<Longrightarrow> is_lower_hex (hex4_digit d) \<and> hex4_digit d < 0x80"
  by (simp add: is_lower_hex_def is_digit_def word_le_nat_alt word_less_nat_alt unat_hex4_digit)

lemma hex4_digit_eq: "d < 16 \<Longrightarrow> e < 16 \<Longrightarrow> hex4_digit d = hex4_digit e \<longleftrightarrow> d = e"
  by (auto simp: word_unat_eq_iff unat_hex4_digit split: if_splits)

lemma uid_ok [simp]: "UuidV7Schema (uid n)"
proof -
  have p: "UUID_V7_PATTERN = take 34 UUID_V7_PATTERN @ [is_lower_hex, is_lower_hex]"
    by (simp add: UUID_V7_PATTERN_def numeral_eq_Suc)
  have "matches (take 34 UUID_V7_PATTERN) (lit ''01890a5d-ac96-774b-bcce-b302099a80'')" by code_simp
  then show ?thesis
    unfolding UuidV7Schema_def uid_def
    by (subst p, subst matches_append) (simp_all add: hex4_digit_lower UUID_V7_PATTERN_def)
qed

lemma uid_length [simp]: "length (uid n) = 36"
  by (simp add: UuidV7Schema_length)

lemma uid_scalar [simp]: "scalar_string nfc (uid n)"
proof -
  have "is_ascii (lit ''01890a5d-ac96-774b-bcce-b302099a80'')" by code_simp
  then show ?thesis by (simp add: uid_def scalar_string_def is_ascii_def hex4_digit_lower del: lit_simps)
qed

lemma uid_eq [simp]: "n < 256 \<Longrightarrow> m < 256 \<Longrightarrow> uid n = uid m \<longleftrightarrow> n = m"
proof -
  assume "n < 256" "m < 256"
  then have "n div 16 mod 16 = n div 16" "m div 16 mod 16 = m div 16" by simp_all
  moreover have "n = m \<longleftrightarrow> n div 16 = m div 16 \<and> n mod 16 = m mod 16" by (metis div_mult_mod_eq)
  ultimately show "uid n = uid m \<longleftrightarrow> n = m" by (simp add: uid_def hex4_digit_eq del: lit_simps)
qed

definition digest :: "json \<Rightarrow> jstring" where
  "digest v = hex_of_bytes (sha256 (canonical_bytes v))"

lemma digest_ok [simp]: "Sha256HexSchema (digest v)"
  by (simp add: digest_def digest_of_digest)

lemma digest_length [simp]: "length (digest v) = 64"
  using digest_ok [of v] by (simp only: Sha256HexSchema_iff)

lemma digest_scalar [simp]: "scalar_string nfc (digest v)"
  by (simp add: scalar_digest)

lemma canonicalSha256_digest:
  "index_free v \<Longrightarrow> json_depth v \<le> MAX_JSON_CONTAINER_DEPTH \<Longrightarrow> strings_ok (normalizeNFC pl) v \<Longrightarrow>
     canonicalSha256 pl v = Inr (digest v)"
  by (simp add: canonicalSha256_iff digest_def)

section \<open>The vote\<close>

text \<open>Member 11 has a weight of 1 and grants a proxy to member 12, the chair, with a weight of 2, who casts a ballot; member 13
  records the recusal of member 12.\<close>

definition wit_seat_row :: "nat \<Rightarrow> bool \<Rightarrow> int \<Rightarrow> ElectorateRow" where
  "wit_seat_row m chair w = \<lparr>el_id = uid m, el_membershipVersionId = uid m, el_eligibilitySnapshot = JObj [],
     el_eligibilitySha256 = digest (JObj []), el_voteId = uid 6, el_organizationId = uid 4, el_boardId = uid 5,
     el_memberId = uid m, el_isChair = chair, el_votingWeight = w\<rparr>"

definition wit_seats :: "ElectorateRow list" where
  "wit_seats = [wit_seat_row 11 False 1, wit_seat_row 12 True 2]"

definition wit_prepared_entries :: "PreparedVoteElectorateEntry list" where
  "wit_prepared_entries = map (\<lambda>e. \<lparr>pv_id = el_id e, pv_memberId = el_memberId e,
     pv_membershipVersionId = el_membershipVersionId e, pv_isChair = el_isChair e, pv_votingWeight = el_votingWeight e,
     pv_eligibilitySnapshot = JObj [], pv_eligibilitySha256 = digest (JObj [])\<rparr>) wit_seats"

abbreviation wit_lc :: "jstring \<Rightarrow> jstring \<Rightarrow> int" where
  "wit_lc \<equiv> \<lambda>x y. - 1"

definition wit_vote :: VoteRow where
  "wit_vote = \<lparr>vo_id = uid 6, vo_organizationId = uid 4, vo_boardId = uid 5, vo_state = vote_open, vo_rowVersion = 1,
     vo_packageId = uid 7, vo_packageSha256 = wit_sha, vo_proxyPolicy = Policy principal_supersedes_proxy,
     vo_deadlineAt = 100, vo_electorateSha256 = digest (electorate_json (uid 6) wit_prepared_entries),
     vo_rule = wit_rule, vo_closeMode = tc_automatic\<rparr>"

definition wit_opened :: VoteStore where
  "wit_opened = empty_store\<lparr>st_votes := [wit_vote], st_electorate := wit_seats\<rparr>"

lemma wit_sorted: "uid 11 < uid 12"
  by code_simp

lemma wit_opened_with: "opened_with plain_platform wit_lc wit_vote wit_seats"
proof -
  have h: "canonicalSha256 plain_platform (JObj []) = Inr (digest (JObj []))"
    by (rule canonicalSha256_digest) (simp_all add: MAX_JSON_CONTAINER_DEPTH_def)
  have k: "canonicalSha256 plain_platform (electorate_json (uid 6) wit_prepared_entries) =
      Inr (digest (electorate_json (uid 6) wit_prepared_entries))"
    by (rule canonicalSha256_digest) (simp_all add: electorate_json_def electorate_entry_json_def wit_prepared_entries_def
        wit_seats_def wit_seat_row_def MAX_JSON_CONTAINER_DEPTH_def)
  have s: "sort_key el_memberId wit_seats = wit_seats" using wit_sorted by (simp add: wit_seats_def wit_seat_row_def)
  have p: "mapr (prepare_entry plain_platform) (map entry_of wit_seats) = Inr wit_prepared_entries"
    using h by (simp add: wit_seats_def wit_seat_row_def entry_of_def prepare_entry_def or_else_def zparse_ok
        MAX_ELECTORATE_WEIGHT_def wit_prepared_entries_def)
  have l: "length (map entry_of wit_seats) = 2" by (simp add: wit_seats_def)
  have "toSorted (\<lambda>x y. - 1) wit_prepared_entries = wit_prepared_entries"
    by (simp add: toSorted_def wit_prepared_entries_def wit_seats_def)
  then have "\<exists>p. prepareVoteElectorate plain_platform wit_lc (uid 6) (map entry_of wit_seats) = Inr p \<and>
      pe_electorateSha256 p = vo_electorateSha256 wit_vote"
    using k by (simp add: prepareVoteElectorate_def zparse_ok l p Let_def)
      (simp add: wit_prepared_entries_def wit_seats_def wit_seat_row_def js_set_distinct wit_vote_def)
  then show ?thesis
    using h by (simp add: opened_with_def s) (simp add: wit_seats_def wit_seat_row_def wit_vote_def)
qed

lemma wit_opened_reachable: "reachable plain_platform wit_lc wit_opened"
proof (rule reachable_step [OF reachable_empty])
  show "vote_step plain_platform wit_lc empty_store wit_opened"
    using open_step [OF _ _ wit_opened_with, of empty_store] by (simp add: empty_store_def wit_opened_def)
qed

section \<open>The requests\<close>

definition wit_context :: "nat \<Rightarrow> ActiveRequestContext" where
  "wit_context m = \<lparr>cx_organizationId = uid 4, cx_memberId = uid m, cx_clientId = uid 8, cx_tokenJti = uid 9\<rparr>"

definition wit_env :: "nat \<Rightarrow> TxEnv" where
  "wit_env m = \<lparr>tx_context = Some (wit_context m), tx_now = 10, tx_nowText = wit_time, tx_boardAllowed = \<lambda>_. True,
     tx_actorReady = \<lambda>_ _. True,
     tx_boardMember = \<lambda>_ _ _. Some \<lparr>bm_activeNow = True, bm_votingSeat = True, bm_votingWeight = 1\<rparr>,
     tx_instant = \<lambda>_. 0, tx_voteActorReady = \<lambda>_. True, tx_targetActive = \<lambda>_ _ _. True, tx_boardRecused = \<lambda>_ _. False,
     tx_boardRecusalConfirmed = \<lambda>_ _ _. False, tx_recusalRecipients = \<lambda>_ _ _ _. []\<rparr>"

lemma wit_env_simps [simp]:
  "cx_organizationId (wit_context m) = uid 4" "cx_memberId (wit_context m) = uid m"
  "cx_clientId (wit_context m) = uid 8" "cx_tokenJti (wit_context m) = uid 9"
  "tx_context (wit_env m) = Some (wit_context m)" "tx_now (wit_env m) = 10" "tx_nowText (wit_env m) = wit_time"
  "tx_boardAllowed (wit_env m) b" "tx_actorReady (wit_env m) b s"
  "tx_boardMember (wit_env m) b s k = Some \<lparr>bm_activeNow = True, bm_votingSeat = True, bm_votingWeight = 1\<rparr>"
  "tx_voteActorReady (wit_env m) b" "tx_targetActive (wit_env m) b s k" "\<not> tx_boardRecused (wit_env m) b s"
  "\<not> tx_boardRecusalConfirmed (wit_env m) b s k" "tx_recusalRecipients (wit_env m) b s r l = []"
  "readRequestContext (wit_env m) = Inr (wit_context m)"
  by (simp_all add: wit_env_def wit_context_def readRequestContext_def)

definition wit_key :: jstring where
  "wit_key = lit ''confirmed-action-0001''"

definition wit_grant :: GrantProxyInput where
  "wit_grant = \<lparr>gi_organizationId = uid 4, gi_voteId = uid 6, gi_holderMemberId = uid 12, gi_packageSha256 = wit_sha,
     gi_policy = principal_supersedes_proxy, gi_expiresAt = None, gi_consentRecordId = uid 19, gi_proxyGrantId = uid 16,
     gi_idempotencyRecordId = uid 17, gi_idempotencyKey = wit_key, gi_auditEventId = uid 18\<rparr>"

lemma wit_grant_simps [simp]:
  "gi_organizationId wit_grant = uid 4"
  "gi_voteId wit_grant = uid 6"
  "gi_holderMemberId wit_grant = uid 12"
  "gi_packageSha256 wit_grant = wit_sha"
  "gi_policy wit_grant = principal_supersedes_proxy"
  "gi_expiresAt wit_grant = None"
  "gi_consentRecordId wit_grant = uid 19"
  "gi_proxyGrantId wit_grant = uid 16"
  "gi_idempotencyRecordId wit_grant = uid 17"
  "gi_idempotencyKey wit_grant = wit_key"
  "gi_auditEventId wit_grant = uid 18"
  by (simp_all add: wit_grant_def)

definition wit_cast :: CastBallotInput where
  "wit_cast = \<lparr>ci_organizationId = uid 4, ci_voteId = uid 6, ci_principalMemberId = uid 12, ci_packageSha256 = wit_sha,
     ci_choice = Yes, ci_statement = None, ci_proxyGrantId = None, ci_consentRecordId = uid 37, ci_ballotId = uid 32,
     ci_supersessionDispositionId = uid 33, ci_supersessionAuditEventId = uid 34, ci_idempotencyRecordId = uid 35,
     ci_idempotencyKey = wit_key, ci_auditEventId = uid 36\<rparr>"

lemma wit_cast_simps [simp]:
  "ci_organizationId wit_cast = uid 4"
  "ci_voteId wit_cast = uid 6"
  "ci_principalMemberId wit_cast = uid 12"
  "ci_packageSha256 wit_cast = wit_sha"
  "ci_choice wit_cast = Yes"
  "ci_statement wit_cast = None"
  "ci_proxyGrantId wit_cast = None"
  "ci_consentRecordId wit_cast = uid 37"
  "ci_ballotId wit_cast = uid 32"
  "ci_supersessionDispositionId wit_cast = uid 33"
  "ci_supersessionAuditEventId wit_cast = uid 34"
  "ci_idempotencyRecordId wit_cast = uid 35"
  "ci_idempotencyKey wit_cast = wit_key"
  "ci_auditEventId wit_cast = uid 36"
  by (simp_all add: wit_cast_def)

definition wit_recusal :: ManageVoteRecusalInput where
  "wit_recusal = \<lparr>mi_boardCause = None, mi_organizationId = uid 4, mi_voteId = uid 6, mi_memberId = uid 12,
     mi_decisionPackageSha256 = wit_sha, mi_state = excluded_state, mi_exclusionId = uid 48, mi_reason = lit ''family tie'',
     mi_consentRecordId = uid 51, mi_idempotencyRecordId = uid 49, mi_idempotencyKey = wit_key,
     mi_stageDispositions = [],
     mi_proxyDispositions = [\<lparr>pd_proxyGrantId = uid 16, pd_proxyRevocationId = uid 52, pd_auditEventId = uid 53\<rparr>],
     mi_ballotDispositions = [\<lparr>bd_ballotId = uid 32, bd_ballotDispositionId = uid 54, bd_auditEventId = uid 55\<rparr>],
     mi_feedTombstones = [], mi_deliveries = [], mi_auditEventId = uid 50\<rparr>"

lemma wit_recusal_simps [simp]:
  "mi_boardCause wit_recusal = None"
  "mi_organizationId wit_recusal = uid 4"
  "mi_voteId wit_recusal = uid 6"
  "mi_memberId wit_recusal = uid 12"
  "mi_decisionPackageSha256 wit_recusal = wit_sha"
  "mi_state wit_recusal = excluded_state"
  "mi_exclusionId wit_recusal = uid 48"
  "mi_reason wit_recusal = lit ''family tie''"
  "mi_consentRecordId wit_recusal = uid 51"
  "mi_idempotencyRecordId wit_recusal = uid 49"
  "mi_idempotencyKey wit_recusal = wit_key"
  "mi_stageDispositions wit_recusal = []"
  "mi_proxyDispositions wit_recusal = [\<lparr>pd_proxyGrantId = uid 16, pd_proxyRevocationId = uid 52, pd_auditEventId = uid 53\<rparr>]"
  "mi_ballotDispositions wit_recusal = [\<lparr>bd_ballotId = uid 32, bd_ballotDispositionId = uid 54, bd_auditEventId = uid 55\<rparr>]"
  "mi_feedTombstones wit_recusal = []"
  "mi_deliveries wit_recusal = []"
  "mi_auditEventId wit_recusal = uid 50"
  by (simp_all add: wit_recusal_def)

text \<open>The digests the members consent to.\<close>

definition wit_grant_body :: json where
  "wit_grant_body = proxy_grant_body \<lparr>pg_voteId = uid 6, pg_principalMemberId = uid 11, pg_holderMemberId = uid 12,
     pg_policy = principal_supersedes_proxy, pg_expiresAt = None, pg_packageSha256 = wit_sha\<rparr>"

definition wit_cast_body :: json where
  "wit_cast_body = ballot_body \<lparr>bi_voteId = uid 6, bi_principalMemberId = uid 12, bi_casterMemberId = uid 12, bi_choice = Yes,
     bi_statement = None, bi_proxyGrantId = None, bi_packageSha256 = wit_sha\<rparr>"

definition wit_recusal_body :: json where
  "wit_recusal_body = vote_recusal_body \<lparr>vr_voteId = uid 6, vr_memberId = uid 12, vr_state = excluded_state,
     vr_reason = lit ''family tie'', vr_packageSha256 = wit_sha\<rparr>"

definition wit_request :: "nat \<Rightarrow> json \<Rightarrow> json \<Rightarrow> VoteActionRequest" where
  "wit_request m consent request =
     \<lparr>vq_context = wit_context m, vq_consentSha256 = digest consent, vq_requestSha256 = digest request\<rparr>"

lemma wit_lengths [simp]: "length wit_key = 21" "length wit_sha = 64"
  by (simp_all add: wit_key_def wit_sha_def)

lemma ascii_lit: "list_all (\<lambda>c. of_char c < (0x80 :: 16 word)) s \<Longrightarrow> scalar_string nfc (lit s)"
  by (simp add: scalar_string_def is_ascii_def lit_def list_all_length)

lemma wit_grant_request:
  "grant_request plain_platform (wit_env 11) wit_grant =
     Inr (wit_request 11 wit_grant_body (grant_request_json wit_grant (uid 11)))"
proof -
  have 1: "proxyGrantConsentHash plain_platform \<lparr>pg_voteId = uid 6, pg_principalMemberId = uid 11, pg_holderMemberId = uid 12,
     pg_policy = principal_supersedes_proxy, pg_expiresAt = None, pg_packageSha256 = wit_sha\<rparr> = Inr (digest wit_grant_body)"
    by (simp add: proxyGrantConsentHash_def zparse_ok parse_nullable_def wit_grant_body_def)
      (rule canonicalSha256_digest; simp add: proxy_grant_body_def MAX_JSON_CONTAINER_DEPTH_def)
  have 2: "canonicalSha256 plain_platform (grant_request_json wit_grant (uid 11)) =
      Inr (digest (grant_request_json wit_grant (uid 11)))"
    by (rule canonicalSha256_digest) (simp_all add: grant_request_json_def MAX_JSON_CONTAINER_DEPTH_def)
  show ?thesis
    by (simp add: grant_request_def 1 2 zparse_ok parse_nullable_def uniqueGeneratedIds_def validateIdempotencyKey_def
        js_set_distinct ensure_def wit_request_def del: lit_simps)
qed

lemma wit_reason [simp]:
  "scalar_string nfc (lit ''family tie'')"
  "canonical_string plain_platform (lit ''family tie'') = Inr (lit ''family tie'')"
  "length (lit ''family tie'') = 10" "lit ''family tie'' \<noteq> []"
proof -
  have a: "is_ascii (lit ''family tie'')" by code_simp
  then show "scalar_string nfc (lit ''family tie'')" by (simp del: lit_simps)
  show "canonical_string plain_platform (lit ''family tie'') = Inr (lit ''family tie'')" by code_simp
qed simp_all

lemma wit_cast_request:
  "cast_request plain_platform (wit_env 12) wit_cast =
     Inr (None, wit_request 12 wit_cast_body (cast_request_json wit_cast (uid 12) None))"
proof -
  have 1: "ballotConsentHash plain_platform \<lparr>bi_voteId = uid 6, bi_principalMemberId = uid 12, bi_casterMemberId = uid 12,
     bi_choice = Yes, bi_statement = None, bi_proxyGrantId = None, bi_packageSha256 = wit_sha\<rparr> = Inr (digest wit_cast_body)"
    by (simp add: ballotConsentHash_def zparse_ok parse_nullable_def wit_cast_body_def)
      (rule canonicalSha256_digest; simp add: ballot_body_def MAX_JSON_CONTAINER_DEPTH_def)
  have 2: "canonicalSha256 plain_platform (cast_request_json wit_cast (uid 12) None) =
      Inr (digest (cast_request_json wit_cast (uid 12) None))"
    by (rule canonicalSha256_digest) (simp_all add: cast_request_json_def MAX_JSON_CONTAINER_DEPTH_def)
  show ?thesis
    by (simp add: cast_request_def 1 2 zparse_ok parse_nullable_def uniqueGeneratedIds_def validateIdempotencyKey_def
        js_set_distinct ensure_def wit_request_def del: lit_simps)
qed

definition wit_recusal_request :: RecusalRequest where
  "wit_recusal_request = VoteActionRequest.extend
     (wit_request 13 wit_recusal_body (recusal_request_json wit_recusal (lit ''family tie'') (digest wit_recusal_body)))
     \<lparr>rq_reason = lit ''family tie'', rq_stages = [], rq_proxies = mi_proxyDispositions wit_recusal,
      rq_ballots = mi_ballotDispositions wit_recusal, rq_tombstones = [], rq_deliveries = []\<rparr>"

lemma wit_recusal_request:
  "recusal_request plain_platform wit_lc (wit_env 13) wit_recusal = Inr wit_recusal_request"
proof -
  have 1: "recusal_consent_sha plain_platform wit_recusal (lit ''family tie'') = Inr (digest wit_recusal_body)"
    by (simp add: recusal_consent_sha_def voteRecusalConsentHash_def zparse_ok wit_recusal_body_def del: lit_simps)
      (rule canonicalSha256_digest; simp add: vote_recusal_body_def MAX_JSON_CONTAINER_DEPTH_def)
  have 2: "canonicalSha256 plain_platform (recusal_request_json wit_recusal (lit ''family tie'') (digest wit_recusal_body)) =
      Inr (digest (recusal_request_json wit_recusal (lit ''family tie'') (digest wit_recusal_body)))"
    by (rule canonicalSha256_digest) (simp_all add: recusal_request_json_def MAX_JSON_CONTAINER_DEPTH_def)
  have s: "normalizeStages wit_lc [] = Inr []" "normalizeTombstones wit_lc [] = Inr []" "normalizeDeliveries wit_lc [] = Inr []"
    by (simp_all add: normalizeStages_def normalizeTombstones_def normalizeDeliveries_def toSorted_def unique_ids_def js_set_distinct ensure_def)
  have p: "normalizeProxies wit_lc (mi_proxyDispositions wit_recusal) = Inr (mi_proxyDispositions wit_recusal)"
    "normalizeBallots wit_lc (mi_ballotDispositions wit_recusal) = Inr (mi_ballotDispositions wit_recusal)"
    by (simp_all add: normalizeProxies_def normalizeBallots_def parse_ids_def toSorted_def unique_ids_def js_set_distinct ensure_def zparse_ok)
  show ?thesis
    by (simp add: recusal_request_def s p [simplified] 1 2 zparse_ok validateIdempotencyKey_def Let_def recusal_generated_ids_def
        js_set_distinct wit_recusal_request_def wit_request_def VoteActionRequest.defs del: lit_simps)
qed

section \<open>The run\<close>

definition wit_stage_row :: "nat \<Rightarrow> nat \<Rightarrow> string \<Rightarrow> json \<Rightarrow> StageRow" where
  "wit_stage_row n m action body = \<lparr>sr_id = uid (n + 64), sr_organizationId = uid 4, sr_boardId = Some (uid 5),
     sr_actorMemberId = uid m, sr_actingForMemberId = None, sr_clientId = uid 8, sr_tokenJti = uid 9,
     sr_actionCode = lit action, sr_targetType = lit ''vote'', sr_targetId = Some (uid 6),
     sr_payloadSha256 = digest body, sr_packageSha256 = Some wit_sha, sr_state = stage_confirmed\<rparr>"

definition wit_attempt_row :: "nat \<Rightarrow> string \<Rightarrow> AttemptRow" where
  "wit_attempt_row n action = \<lparr>ar_id = uid (n + 128), ar_organizationId = uid 4, ar_stageId = uid (n + 64),
     ar_originalName = lit action, ar_responseAction = Some response_accept, ar_state = attempt_confirmed\<rparr>"

text \<open>A digest that tells the record apart; the steps outside the model choose it.\<close>

definition wit_record_sha :: "nat \<Rightarrow> jstring" where
  "wit_record_sha n = replicate 62 0x30 @ [hex4_digit (n div 16 mod 16), hex4_digit (n mod 16)]"

definition wit_consent_row :: "nat \<Rightarrow> nat \<Rightarrow> string \<Rightarrow> json \<Rightarrow> ConsentRow" where
  "wit_consent_row n m action body = \<lparr>cr_id = uid n, cr_organizationId = uid 4, cr_boardId = Some (uid 5),
     cr_stageId = uid (n + 64), cr_attemptId = uid (n + 128), cr_actorMemberId = uid m, cr_clientId = uid 8,
     cr_tokenJti = uid 9, cr_actionCode = lit action, cr_targetType = lit ''vote'', cr_targetId = Some (uid 6),
     cr_payloadSha256 = digest body, cr_packageSha256 = Some wit_sha, cr_recordSha256 = wit_record_sha n\<rparr>"

definition wit_consented :: VoteStore where
  "wit_consented = wit_opened
     \<lparr>st_stages := [wit_stage_row 19 11 ''grant_proxy'' wit_grant_body, wit_stage_row 37 12 ''stage_ballot'' wit_cast_body,
        wit_stage_row 51 13 ''manage_recusal'' wit_recusal_body],
      st_attempts := [wit_attempt_row 19 ''grant_proxy'', wit_attempt_row 37 ''stage_ballot'',
        wit_attempt_row 51 ''manage_recusal''],
      st_consents := [wit_consent_row 19 11 ''grant_proxy'' wit_grant_body, wit_consent_row 37 12 ''stage_ballot'' wit_cast_body,
        wit_consent_row 51 13 ''manage_recusal'' wit_recusal_body]\<rparr>"

lemma wit_consented_reachable: "reachable plain_platform wit_lc wit_consented"
proof (rule reachable_step [OF wit_opened_reachable])
  show "vote_step plain_platform wit_lc wit_opened wit_consented"
    by (rule consent_step) (simp_all add: wit_consented_def wit_opened_def empty_store_def)
qed

definition wit_grant_row :: GrantRow where
  "wit_grant_row = \<lparr>gr_id = uid 16, gr_organizationId = uid 4, gr_boardId = uid 5, gr_voteId = uid 6,
     gr_principalMemberId = uid 11, gr_holderMemberId = uid 12, gr_policy = principal_supersedes_proxy,
     gr_consentRecordId = uid 19, gr_expiresAt = None\<rparr>"

definition wit_idempotency :: "nat \<Rightarrow> nat \<Rightarrow> string \<Rightarrow> json \<Rightarrow> IdempotencyRow" where
  "wit_idempotency n m operation request =
     new_idempotency (uid n) (wit_context m) (lit operation) wit_key (digest request)"

definition finished :: "jstring \<Rightarrow> jstring \<Rightarrow> IdempotencyRow \<Rightarrow> IdempotencyRow" where
  "finished x h r = r\<lparr>ir_state := idem_succeeded, ir_safeResponseId := Some x, ir_safeResponseSha256 := Some h\<rparr>"

definition wit_granted :: "jstring \<Rightarrow> AuditRow list \<Rightarrow> VoteStore" where
  "wit_granted h rows = wit_consented\<lparr>st_votes := [wit_vote\<lparr>vo_rowVersion := 2\<rparr>], st_grants := [wit_grant_row],
     st_idempotency := [finished (uid 16) h (wit_idempotency 17 11 ''grant_proxy'' (grant_request_json wit_grant (uid 11)))],
     st_audit := rows\<rparr>"

definition wit_root :: "int \<Rightarrow> VoteRootRow" where
  "wit_root n = VoteRow.extend (wit_vote\<lparr>vo_rowVersion := n\<rparr>) \<lparr>vt_deadlineOpen = True, vt_actorReady = True\<rparr>"

lemma wit_root_simps [simp]:
  "vo_id (wit_root n) = uid 6" "vo_organizationId (wit_root n) = uid 4" "vo_boardId (wit_root n) = uid 5"
  "vo_state (wit_root n) = vote_open" "vo_rowVersion (wit_root n) = n" "vo_packageId (wit_root n) = uid 7"
  "vo_packageSha256 (wit_root n) = wit_sha" "vo_proxyPolicy (wit_root n) = Policy principal_supersedes_proxy"
  "vt_deadlineOpen (wit_root n)" "vt_actorReady (wit_root n)"
  by (simp_all add: wit_root_def wit_vote_def VoteRow.defs)

lemma wit_lock:
  "st_votes st = [wit_vote\<lparr>vo_rowVersion := n\<rparr>] \<Longrightarrow> lockVoteRoot (wit_env m) st (uid 6) scope = Some (wit_root n)"
  by (simp add: lockVoteRoot_def wit_root_def wit_vote_def VoteRow.defs)

lemma wit_members:
  assumes "st_electorate st = wit_seats"
  shows "lockParticipants (wit_env m) st (uid 4) (uid 5) (uid 6) [uid 11, uid 12] =
      [\<lparr>pt_memberId = uid 11, pt_votingWeight = 1, pt_ready = True\<rparr>, \<lparr>pt_memberId = uid 12, pt_votingWeight = 2, pt_ready = True\<rparr>]"
    and "lockParticipants (wit_env m) st (uid 4) (uid 5) (uid 6) [uid 12, uid 12] =
      [\<lparr>pt_memberId = uid 12, pt_votingWeight = 2, pt_ready = True\<rparr>]"
  using wit_sorted assms
  by (simp_all add: lockParticipants_def js_set_def wit_seats_def wit_seat_row_def)

lemma wit_nobody_excluded: "st_exclusions st = [] \<Longrightarrow> excludedMembers st v ms = []"
  by (simp add: excludedMembers_def is_excluded_def current_exclusion_def)

lemma wit_grant_admit:
  "grant_admit (wit_env 11) wit_consented wit_grant (wit_request 11 wit_grant_body (grant_request_json wit_grant (uid 11))) =
     Inr (Admitted (wit_root 1))"
proof -
  let ?st = wit_consented
  have v: "st_votes ?st = [wit_vote\<lparr>vo_rowVersion := 1\<rparr>]" "st_electorate ?st = wit_seats" "st_exclusions ?st = []"
    "st_grants ?st = []" "st_idempotency ?st = []"
    by (simp_all add: wit_consented_def wit_opened_def empty_store_def wit_vote_def)
  have c: "consentValid (wit_context 11) ?st \<lparr>cs_consentRecordId = uid 19, cs_actionCode = lit ''grant_proxy'',
      cs_targetType = lit ''vote'', cs_targetId = uid 6, cs_payloadSha256 = digest wit_grant_body, cs_packageSha256 = wit_sha\<rparr>"
    by (simp add: consentValid_def wit_consented_def consent_matches_def wit_stage_row_def wit_attempt_row_def wit_consent_row_def
        del: lit_simps)
  show ?thesis
    by (simp add: grant_admit_def Let_def wit_lock [OF v(1)] wit_members(1) [OF v(2)] wit_nobody_excluded [OF v(3)] v(4,5) c
        wit_request_def readIdempotency_def checkedReplay_def safeHashEqual_iff del: lit_simps)
qed

lemma wit_time_length: "length wit_time \<le> 40" "scalar_string nfc wit_time"
proof -
  show "length wit_time \<le> 40" by code_simp
  have "is_ascii wit_time" by code_simp
  then show "scalar_string nfc wit_time" by simp
qed

lemma bound_nullable: "json_bound (nullable JStr x) \<le> (case x of None \<Rightarrow> 5 | Some s \<Rightarrow> 6 * length s + 2)"
  by (cases x) simp_all

lemma wit_mcp_ready:
  assumes "ty \<in> set EVENT_IDS" and "ty \<noteq> ''key_lifecycle_changed''" and "entity_type_ok (lit ety)"
    and "list_all (\<lambda>(k, v). detail_key_ok k) details" and "is_ascii (lit ty)" and "is_ascii (lit ety)"
    and "length ty \<le> 100" and "length ety \<le> 100"
    and "js_json (JObj details)" and "index_free (JObj details)" and "json_depth (JObj details) < MAX_JSON_CONTAINER_DEPTH"
    and "strings_ok (normalizeNFC plain_platform) (JObj details)" and "json_bound (JObj details) \<le> 1000000"
    and "pred_option UuidSchema f" and "pred_option UuidSchema c" and "case v of None \<Rightarrow> True | Some n \<Rightarrow> 1 \<le> n \<and> n \<le> MAX_BIGINT"
  shows "event_ready plain_platform wit_lc (wit_env m)
    \<lparr>ai_organizationId = uid 4, ai_event = mcp_event (uid e) ty (wit_context m) ety (uid x) (uid 5) details,
     ai_actingForMemberId = f, ai_consentRecordId = c, ai_objectVersion = v\<rparr>"
proof -
  let ?i = "\<lparr>ai_organizationId = uid 4, ai_event = mcp_event (uid e) ty (wit_context m) ety (uid x) (uid 5) details,
     ai_actingForMemberId = f, ai_consentRecordId = c, ai_objectVersion = v\<rparr>"
  let ?b = "dated (wit_env m) ?i"
  have o: "lit ''mcp'' \<in> set (map lit origins)" "is_ascii (lit ''mcp'')" by code_simp+
  have t: "lit ty \<in> set (map lit EVENT_IDS)" "lit ty \<noteq> lit ''key_lifecycle_changed''"
    using assms(1,2) by (simp_all only: set_map lit_inj image_eqI not_False_eq_True)
  have n: "normalize_input ?i = Inr ?i"
    using assms(14-16) by (cases f; cases c; cases v)
      (simp_all add: normalize_input_def parse_nullable_def zparse_ok objectVersion_def ensure_def)
  have s: "AuditEventBodySchema plain_platform wit_lc ?b"
    using assms(3,4) o(1) t wit_times(1)
    by (simp add: AuditEventBodySchema_def dated_def mcp_event_def del: lit_simps set_map list.map)
  have d: "ab_details (ai_event ?i) = details" by (simp add: mcp_event_def)
  have k: "strings_ok (normalizeNFC plain_platform) (JObj (body_fields ?b))"
    using assms(5,6,12) o(2) wit_time_length(2)
    by (simp add: body_fields_def dated_def mcp_event_def)
  have "length (dec_int 1) = 1" by code_simp
  then have "json_bound (JObj (body_fields ?b)) \<le> 2000000"
    using assms(7,8,13) wit_time_length(1) by (simp add: body_fields_def dated_def mcp_event_def del: lit_simps)
  then have "4 * json_bound (JObj (body_fields ?b)) \<le> MAX_CANONICAL_AUDIT_BYTES" by (simp add: MAX_CANONICAL_AUDIT_BYTES_def)
  with n s k assms(9-11) show ?thesis by (simp only: event_ready_def d)
qed

lemma detail_key_plain:
  assumes "detail_key_ok k"
  shows "\<not> integer_index k" and "scalar_string nfc k"
proof -
  from assms obtain c cs where k: "k = c # cs" "is_lower c" "list_all (\<lambda>c. is_alnum c \<or> is_char CHR ''_'' c) cs"
    by (auto simp: detail_key_ok_def split: list.splits)
  then have "\<not> is_digit c" by (auto simp: char_class_defs word_le_nat_alt)
  with k(1) show "\<not> integer_index k" by (auto simp: integer_index_def)
  have "is_lower d \<or> is_alnum d \<or> is_char CHR ''_'' d \<Longrightarrow> d < 0x80" for d
    by (auto simp: char_class_defs word_le_nat_alt word_less_nat_alt)
  with k have "is_ascii k" by (auto simp: is_ascii_def list_all_iff)
  then show "scalar_string nfc k" by simp
qed

lemma wit_grant_ready: "event_ready plain_platform wit_lc (wit_env 11) (grant_event wit_grant (wit_context 11) (wit_root 1) 2)"
proof -
  have k: "list_all detail_key_ok (map lit [''voteId'', ''principalMemberId'', ''holderMemberId'', ''policy'', ''expiresAt'',
      ''decisionPackageId'', ''packageSha256''])"
    and e: "entity_type_ok (lit ''proxy_grant'')" "is_ascii (lit ''proxy_granted'')" "is_ascii (lit ''proxy_grant'')"
      "is_ascii (lit ''principal_supersedes_proxy'')"
    by code_simp+
  show ?thesis
    unfolding grant_event_def
    by (simp only: wit_grant_simps wit_root_simps wit_env_simps,
        rule wit_mcp_ready [OF _ _ e(1) _ e(2,3)])
      (use k e(4) in \<open>simp_all add: EVENT_IDS_def lit_inj detail_key_plain MAX_JSON_CONTAINER_DEPTH_def MAX_BIGINT_def del: lit_simps\<close>)
qed

lemma insert_fresh_idempotency:
  assumes "\<not> list_ex (same_idempotency_key n) (st_idempotency st)" and "\<not> list_ex (\<lambda>r. ir_id n = ir_id r) (st_idempotency st)"
    and "Sha256HexSchema (ir_requestSha256 n)"
  shows "insertIdempotency n st = Inr (st\<lparr>st_idempotency := st_idempotency st @ [n]\<rparr>)"
proof -
  have "find (\<lambda>r. ir_actorMemberId r = ir_actorMemberId n \<and> ir_clientId r = ir_clientId n \<and> ir_operation r = ir_operation n \<and>
      ir_key r = ir_key n) (st_idempotency st) = None"
    using assms(1) by (auto simp: find_None_iff list_ex_iff same_idempotency_key_def)
  then show ?thesis
    using assms by (simp add: insertIdempotency_def insert_row_def Let_def readIdempotency_def find_app safeHashEqual_iff ensure_def)
qed

lemma finish_last_idempotency:
  assumes "st_idempotency st = rows @ [n]" and "\<not> list_ex (\<lambda>r. ir_id n = ir_id r) rows" and "ir_state n = idem_in_progress"
  shows "finishIdempotency (ir_id n) x h st = Inr (st\<lparr>st_idempotency := rows @ [finished x h n]\<rparr>)"
proof -
  have "filter (\<lambda>r. ir_id r = ir_id n \<and> ir_state r = idem_in_progress) rows = []"
    using assms(2) by (auto simp: filter_empty_conv list_ex_iff)
  moreover have "map (\<lambda>r. if ir_id r = ir_id n \<and> ir_state r = idem_in_progress then finished x h r else r) rows = rows"
    using assms(2) by (intro map_idI) (auto simp: list_ex_iff)
  ultimately show ?thesis
    unfolding finished_def using assms(1,3) by (simp add: finishIdempotency_def update_rows_def Let_def)
qed

lemma advance_only_vote:
  "st_votes st = [v] \<Longrightarrow> vo_id v = voteId \<Longrightarrow> vo_rowVersion v = n \<Longrightarrow> vo_state v \<in> set states \<Longrightarrow>
     advanceVoteVersion voteId n states st = Inr (n + 1, st\<lparr>st_votes := [v\<lparr>vo_rowVersion := n + 1\<rparr>]\<rparr>)"
  by (simp add: advanceVoteVersion_def update_rows_def)

lemma wit_vote_simps [simp]: "vo_id wit_vote = uid 6" "vo_rowVersion wit_vote = 1" "vo_state wit_vote = vote_open"
  by (simp_all add: wit_vote_def)

lemma wit_grant_step:
  "\<exists>h events rows. grantProxyInTransaction plain_platform wit_lc (wit_env 11) wit_grant wit_consented =
      Inr (Granted (uid 16) h events, wit_granted h rows) \<and>
    valid_log plain_platform wit_lc (map au_event rows) \<and> map (ab_eventId \<circ> au_event) rows = [uid 18]"
proof -
  let ?q = "wit_request 11 wit_grant_body (grant_request_json wit_grant (uid 11))"
  let ?n = "wit_idempotency 17 11 ''grant_proxy'' (grant_request_json wit_grant (uid 11))"
  let ?json = "grant_result_json wit_grant (wit_context 11) 2"
  let ?s = "wit_consented\<lparr>st_idempotency := [?n], st_grants := [wit_grant_row], st_votes := [wit_vote\<lparr>vo_rowVersion := 2\<rparr>]\<rparr>"
  have v: "st_votes wit_consented = [wit_vote]" "st_grants wit_consented = []" "st_idempotency wit_consented = []"
    "st_audit wit_consented = []"
    by (simp_all add: wit_consented_def wit_opened_def empty_store_def)
  have n: "ir_id ?n = uid 17" "ir_state ?n = idem_in_progress" "Sha256HexSchema (ir_requestSha256 ?n)"
    "new_idempotency (uid 17) (wit_context 11) (lit ''grant_proxy'') wit_key (digest (grant_request_json wit_grant (uid 11))) = ?n"
    by (simp_all add: wit_idempotency_def new_idempotency_def)
  have g: "new_grant (wit_env 11) wit_grant (wit_context 11) (wit_root 1) = wit_grant_row"
    by (simp add: new_grant_def wit_grant_row_def)
  have h: "canonicalSha256 plain_platform ?json = Inr (digest ?json)"
    by (rule canonicalSha256_digest) (simp_all add: grant_result_json_def MAX_JSON_CONTAINER_DEPTH_def)
  obtain events rows where a: "appendAuditEventsInTransaction plain_platform wit_lc (wit_env 11)
      [grant_event wit_grant (wit_context 11) (wit_root 1) 2] ?s = Inr (events, ?s\<lparr>st_audit := rows\<rparr>)"
    and r: "map (ab_eventId \<circ> au_event) rows = [uid 18]" "valid_log plain_platform wit_lc (map au_event rows)"
    by (rule append_rows [of plain_platform wit_lc ?s "wit_env 11" "[grant_event wit_grant (wit_context 11) (wit_root 1) 2]"])
      (use wit_grant_ready in \<open>simp_all add: audit_log_def v(4) grant_event_def mcp_event_def\<close>)
  have f: "finishIdempotency (uid 17) (uid 16) (digest ?json) (?s\<lparr>st_audit := rows\<rparr>) = Inr (wit_granted (digest ?json) rows)"
    using finish_last_idempotency [of "?s\<lparr>st_audit := rows\<rparr>" "[]" ?n "uid 16" "digest ?json"] n(1,2)
    by (simp add: wit_granted_def)
  have w: "grant_write plain_platform wit_lc (wit_env 11) wit_grant ?q (wit_root 1) wit_consented =
      Inr (Granted (uid 16) (digest ?json) events, wit_granted (digest ?json) rows)"
    by (simp add: grant_write_def Let_def wit_request_def n(4) insert_fresh_idempotency n(1-3) v g insert_row_def
        advance_only_vote [of _ wit_vote] wit_vote_simps a h f del: lit_simps)
  show ?thesis
    using r w by (intro exI) (simp add: grantProxyInTransaction_def wit_grant_request wit_grant_admit)
qed

definition wit_ballot_row :: BallotRow where
  "wit_ballot_row = \<lparr>br_id = uid 32, br_organizationId = uid 4, br_boardId = uid 5, br_voteId = uid 6, br_packageId = uid 7,
     br_principalMemberId = uid 12, br_casterMemberId = uid 12, br_choice = Yes, br_statement = None,
     br_statementSha256 = None, br_votingWeight = 2, br_source = own_ballot, br_proxyGrantId = None,
     br_consentRecordId = uid 37\<rparr>"

definition wit_voted :: "jstring \<Rightarrow> jstring \<Rightarrow> AuditRow list \<Rightarrow> VoteStore" where
  "wit_voted h h' rows = wit_consented\<lparr>st_votes := [wit_vote\<lparr>vo_rowVersion := 3\<rparr>], st_grants := [wit_grant_row],
     st_ballots := [wit_ballot_row],
     st_idempotency := [finished (uid 16) h (wit_idempotency 17 11 ''grant_proxy'' (grant_request_json wit_grant (uid 11))),
       finished (uid 32) h' (wit_idempotency 35 12 ''cast_ballot'' (cast_request_json wit_cast (uid 12) None))],
     st_audit := rows\<rparr>"

lemma wit_cast_ready: "event_ready plain_platform wit_lc (wit_env 12) (cast_event wit_cast (wit_context 12) (wit_root 2) 3 None 2)"
proof -
  have k: "list_all detail_key_ok (map lit [''voteId'', ''decisionPackageId'', ''packageSha256'', ''principalMemberId'',
      ''casterMemberId'', ''choice'', ''statementSha256'', ''votingWeight'', ''source'', ''proxyGrantId''])"
    and e: "entity_type_ok (lit ''ballot'')" "is_ascii (lit ''ballot_cast'')" "is_ascii (lit ''ballot'')"
      "is_ascii (lit ''yes'')" "is_ascii (lit ''own'')"
    by code_simp+
  have n: "length (dec_int 2) = 1" by code_simp
  show ?thesis
    unfolding cast_event_def
    by (simp only: wit_cast_simps wit_root_simps wit_env_simps,
        rule wit_mcp_ready [OF _ _ e(1) _ e(2,3)])
      (use k e(4,5) n in \<open>simp_all add: EVENT_IDS_def lit_inj detail_key_plain MAX_JSON_CONTAINER_DEPTH_def MAX_BIGINT_def
        isSafeInteger_def MAX_SAFE_INTEGER_def ballot_source_of_def del: lit_simps\<close>)
qed

lemma wit_cast_admit:
  "cast_admit (wit_env 12) (wit_granted h rows) wit_cast (wit_request 12 wit_cast_body (cast_request_json wit_cast (uid 12) None)) =
     Inr (Admitted \<lparr>cm_vote = wit_root 2, cm_participants = [\<lparr>pt_memberId = uid 12, pt_votingWeight = 2, pt_ready = True\<rparr>],
       cm_superseded = None\<rparr>)"
proof -
  let ?st = "wit_granted h rows"
  have v: "st_votes ?st = [wit_vote\<lparr>vo_rowVersion := 2\<rparr>]" "st_electorate ?st = wit_seats" "st_exclusions ?st = []"
    "st_ballots ?st = []"
    by (simp_all add: wit_granted_def wit_consented_def wit_opened_def empty_store_def wit_vote_def)
  have c: "consentValid (wit_context 12) ?st \<lparr>cs_consentRecordId = uid 37, cs_actionCode = lit ''stage_ballot'',
      cs_targetType = lit ''vote'', cs_targetId = uid 6, cs_payloadSha256 = digest wit_cast_body, cs_packageSha256 = wit_sha\<rparr>"
    by (simp add: consentValid_def wit_granted_def wit_consented_def consent_matches_def wit_stage_row_def wit_attempt_row_def
        wit_consent_row_def del: lit_simps)
  have i: "readIdempotency ?st (uid 12) (uid 8) (lit ''cast_ballot'') wit_key = None"
    by (simp add: readIdempotency_def wit_granted_def finished_def wit_idempotency_def new_idempotency_def del: lit_simps)
  show ?thesis
    by (simp add: cast_admit_def Let_def wit_lock [OF v(1)] wit_members(2) [OF v(2)] wit_nobody_excluded [OF v(3)] v(4) c i
        wit_request_def checkedReplay_def safeHashEqual_iff proxy_allowed_def ballot_source_of_def ensure_def js_set_def
        effective_ballots_def del: lit_simps)
qed

lemma wit_cast_step:
  assumes "valid_log plain_platform wit_lc (map au_event rows)" and "map (ab_eventId \<circ> au_event) rows = [uid 18]"
  shows "\<exists>h' events rows'. castBallotInTransaction plain_platform wit_lc (wit_env 12) wit_cast (wit_granted h rows) =
      Inr (BallotCast (uid 32) None h' events, wit_voted h h' rows') \<and>
    valid_log plain_platform wit_lc (map au_event rows') \<and> map (ab_eventId \<circ> au_event) rows' = [uid 18, uid 36]"
proof -
  let ?st = "wit_granted h rows"
  let ?q = "wit_request 12 wit_cast_body (cast_request_json wit_cast (uid 12) None)"
  let ?a = "\<lparr>cm_vote = wit_root 2, cm_participants = [\<lparr>pt_memberId = uid 12, pt_votingWeight = 2, pt_ready = True\<rparr>],
       cm_superseded = None\<rparr>"
  let ?m = "finished (uid 16) h (wit_idempotency 17 11 ''grant_proxy'' (grant_request_json wit_grant (uid 11)))"
  let ?n = "wit_idempotency 35 12 ''cast_ballot'' (cast_request_json wit_cast (uid 12) None)"
  let ?json = "cast_result_json wit_cast (wit_context 12) None None 3"
  let ?s = "wit_granted h rows\<lparr>st_idempotency := [?m, ?n], st_ballots := [wit_ballot_row], st_feed := [],
     st_votes := [wit_vote\<lparr>vo_rowVersion := 3\<rparr>]\<rparr>"
  have v: "st_votes ?st = [wit_vote\<lparr>vo_rowVersion := 2\<rparr>]" "st_ballots ?st = []" "st_idempotency ?st = [?m]" "st_dispositions ?st = []"
    "st_feed ?st = []"
    by (simp_all add: wit_granted_def wit_consented_def wit_opened_def empty_store_def)
  have n: "ir_id ?n = uid 35" "ir_id ?m = uid 17" "ir_state ?n = idem_in_progress" "Sha256HexSchema (ir_requestSha256 ?n)"
    "new_idempotency (uid 35) (wit_context 12) (lit ''cast_ballot'') wit_key (digest (cast_request_json wit_cast (uid 12) None)) = ?n"
    "\<not> same_idempotency_key ?n ?m"
    by (simp_all add: wit_idempotency_def new_idempotency_def finished_def same_idempotency_key_def)
  have g: "new_ballot wit_cast None (wit_context 12) (wit_root 2) \<lparr>pt_memberId = uid 12, pt_votingWeight = 2, pt_ready = True\<rparr> =
      wit_ballot_row"
    by (simp add: new_ballot_def wit_ballot_row_def ballot_source_of_def)
  have h: "canonicalSha256 plain_platform ?json = Inr (digest ?json)"
    by (rule canonicalSha256_digest) (simp_all add: cast_result_json_def MAX_JSON_CONTAINER_DEPTH_def ballot_source_of_def)
  obtain events rows' where a: "appendAuditEventsInTransaction plain_platform wit_lc (wit_env 12)
      [cast_event wit_cast (wit_context 12) (wit_root 2) 3 None 2] ?s = Inr (events, ?s\<lparr>st_audit := rows'\<rparr>)"
    and r: "map (ab_eventId \<circ> au_event) rows' = [uid 18, uid 36]" "valid_log plain_platform wit_lc (map au_event rows')"
  proof (rule append_rows [of plain_platform wit_lc ?s "wit_env 12" "[cast_event wit_cast (wit_context 12) (wit_root 2) 3 None 2]"])
    have e: "st_audit ?s = rows" by (simp add: wit_granted_def)
    show "valid_log plain_platform wit_lc (audit_log ?s)" using assms(1) by (simp add: audit_log_def e)
    have "ab_eventId ` set (audit_log ?s) = set (map (ab_eventId \<circ> au_event) rows)"
      by (simp only: audit_log_def e set_map image_comp)
    then show "\<forall>i\<in>set [cast_event wit_cast (wit_context 12) (wit_root 2) 3 None 2].
        ab_eventId (ai_event i) \<notin> ab_eventId ` set (audit_log ?s)"
      by (simp add: assms(2) cast_event_def mcp_event_def)
  qed (use wit_cast_ready assms(2) in \<open>simp_all add: cast_event_def mcp_event_def wit_granted_def\<close>)
  have f: "finishIdempotency (uid 35) (uid 32) (digest ?json) (?s\<lparr>st_audit := rows'\<rparr>) = Inr (wit_voted h (digest ?json) rows')"
    using finish_last_idempotency [of "?s\<lparr>st_audit := rows'\<rparr>" "[?m]" ?n "uid 32" "digest ?json"] n(1-3)
    by (simp add: wit_voted_def wit_granted_def wit_consented_def wit_opened_def empty_store_def)
  have "cast_write plain_platform wit_lc (wit_env 12) wit_cast None ?q ?a ?st =
      Inr (BallotCast (uid 32) None (digest ?json) events, wit_voted h (digest ?json) rows')"
    by (simp add: cast_write_def Let_def wit_request_def n(5) insert_fresh_idempotency n(1-4,6) v g insert_row_def resolve_feed_def
        update_rows_def advance_only_vote [of _ "wit_vote\<lparr>vo_rowVersion := 2\<rparr>"] wit_vote_simps a h f del: lit_simps)
  then show ?thesis
    using r by (intro exI) (simp add: castBallotInTransaction_def wit_cast_request wit_cast_admit)
qed

definition wit_admission :: RecusalAdmission where
  "wit_admission = \<lparr>ra_vote = wit_vote\<lparr>vo_rowVersion := 3\<rparr>, ra_version = 1, ra_state = excluded_state, ra_stages = [],
     ra_proxies = [wit_grant_row], ra_ballots = [wit_ballot_row], ra_feeds = [], ra_recipients = []\<rparr>"

definition wit_events :: "AuditAppendInput list" where
  "wit_events =
     [proxy_revoked_event wit_recusal wit_recusal_request wit_admission (wit_grant_row, hd (mi_proxyDispositions wit_recusal)),
      ballot_invalidated_event wit_recusal wit_recusal_request wit_admission (wit_ballot_row, hd (mi_ballotDispositions wit_recusal)),
      recusal_changed_event wit_recusal wit_recusal_request wit_admission 4 1]"

definition wit_recused :: "jstring \<Rightarrow> jstring \<Rightarrow> jstring \<Rightarrow> AuditRow list \<Rightarrow> VoteStore" where
  "wit_recused h h' h'' rows = wit_consented\<lparr>st_votes := [wit_vote\<lparr>vo_rowVersion := 4\<rparr>], st_grants := [wit_grant_row],
     st_exclusions := [new_exclusion wit_recusal wit_recusal_request wit_admission],
     st_revocations := [recusal_revocation wit_recusal wit_recusal_request (wit_grant_row, hd (mi_proxyDispositions wit_recusal))],
     st_ballots := [wit_ballot_row],
     st_dispositions := [invalidation wit_recusal_request (wit_ballot_row, hd (mi_ballotDispositions wit_recusal))],
     st_idempotency := [finished (uid 16) h (wit_idempotency 17 11 ''grant_proxy'' (grant_request_json wit_grant (uid 11))),
       finished (uid 32) h' (wit_idempotency 35 12 ''cast_ballot'' (cast_request_json wit_cast (uid 12) None)),
       finished (uid 48) h'' (wit_idempotency 49 13 ''manage_recusal''
         (recusal_request_json wit_recusal (lit ''family tie'') (digest wit_recusal_body)))],
     st_audit := rows\<rparr>"

lemma wit_recusal_request_simps [simp]:
  "vq_context wit_recusal_request = wit_context 13" "vq_consentSha256 wit_recusal_request = digest wit_recusal_body"
  "rq_reason wit_recusal_request = lit ''family tie''" "rq_stages wit_recusal_request = []"
  "rq_proxies wit_recusal_request = mi_proxyDispositions wit_recusal"
  "rq_ballots wit_recusal_request = mi_ballotDispositions wit_recusal"
  "rq_tombstones wit_recusal_request = []" "rq_deliveries wit_recusal_request = []"
  "vq_requestSha256 wit_recusal_request =
     digest (recusal_request_json wit_recusal (lit ''family tie'') (digest wit_recusal_body))"
  by (simp_all add: wit_recusal_request_def wit_request_def VoteActionRequest.defs)

lemma wit_rows_simps [simp]:
  "gr_id wit_grant_row = uid 16" "gr_principalMemberId wit_grant_row = uid 11" "gr_holderMemberId wit_grant_row = uid 12"
  "br_id wit_ballot_row = uid 32" "br_principalMemberId wit_ballot_row = uid 12" "br_casterMemberId wit_ballot_row = uid 12"
  "vo_boardId wit_vote = uid 5" "vo_packageId wit_vote = uid 7"
  by (simp_all add: wit_grant_row_def wit_ballot_row_def wit_vote_def)

lemma wit_events_ready: "list_all (event_ready plain_platform wit_lc (wit_env 13)) wit_events"
proof -
  have k: "list_all detail_key_ok (map lit [''voteId'', ''memberId'', ''effect'', ''exclusionId'', ''exclusionVersion'',
      ''state'', ''reason'', ''decisionPackageId'', ''packageSha256'', ''eligibleWeight'', ''invalidatedStageCount'',
      ''invalidatedProxyCount'', ''invalidatedBallotCount'', ''tombstoneCount''])"
    and e: "entity_type_ok (lit ''proxy_grant'')" "entity_type_ok (lit ''ballot'')" "entity_type_ok (lit ''vote'')"
      "is_ascii (lit ''proxy_revoked'')" "is_ascii (lit ''ballot_superseded'')" "is_ascii (lit ''recusal_changed'')"
      "is_ascii (lit ''proxy_grant'')" "is_ascii (lit ''ballot'')" "is_ascii (lit ''vote'')"
      "is_ascii (lit ''revoked_by_recusal'')" "is_ascii (lit ''invalidated_by_recusal'')" "is_ascii (lit ''excluded'')"
    by code_simp+
  have n: "length (dec_int 1) = 1" "length (dec_int 0) = 1" by code_simp+
  note s = EVENT_IDS_def lit_inj detail_key_plain MAX_JSON_CONTAINER_DEPTH_def MAX_BIGINT_def isSafeInteger_def
    MAX_SAFE_INTEGER_def
  have 1: "event_ready plain_platform wit_lc (wit_env 13)
      (proxy_revoked_event wit_recusal wit_recusal_request wit_admission (wit_grant_row, hd (mi_proxyDispositions wit_recusal)))"
    unfolding proxy_revoked_event_def
    by (simp add: wit_admission_def del: lit_simps, rule wit_mcp_ready [OF _ _ e(1) _ e(4,7)])
      (use k e(10) in \<open>simp_all add: s del: lit_simps\<close>)
  have 2: "event_ready plain_platform wit_lc (wit_env 13)
      (ballot_invalidated_event wit_recusal wit_recusal_request wit_admission
        (wit_ballot_row, hd (mi_ballotDispositions wit_recusal)))"
    unfolding ballot_invalidated_event_def
    by (simp add: wit_admission_def del: lit_simps, rule wit_mcp_ready [OF _ _ e(2) _ e(5,8)])
      (use k e(11) in \<open>simp_all add: s del: lit_simps\<close>)
  have 3: "event_ready plain_platform wit_lc (wit_env 13)
      (recusal_changed_event wit_recusal wit_recusal_request wit_admission 4 1)"
    unfolding recusal_changed_event_def
    by (simp add: wit_admission_def del: lit_simps, rule wit_mcp_ready [OF _ _ e(3) _ e(6,9)])
      (use k e(12) n in \<open>simp_all add: s del: lit_simps\<close>)
  from 1 2 3 show ?thesis by (simp add: wit_events_def)
qed

lemma wit_recusal_admit:
  "recusal_admit (wit_env 13) (wit_voted h h' rows) wit_recusal wit_recusal_request = Inr (RecusalAdmitted wit_admission)"
proof -
  let ?st = "wit_voted h h' rows"
  let ?locked = "\<lparr>lk_vote = wit_vote\<lparr>vo_rowVersion := 3\<rparr>, lk_electorateWeight = 2, lk_current = None, lk_actorReady = True,
    lk_consentValid = True\<rparr>"
  have t: "st_votes ?st = [wit_vote\<lparr>vo_rowVersion := 3\<rparr>]" "st_electorate ?st = wit_seats" "st_exclusions ?st = []"
    "st_grants ?st = [wit_grant_row]" "st_revocations ?st = []" "st_ballots ?st = [wit_ballot_row]"
    "st_dispositions ?st = []" "st_feed ?st = []"
    by (simp_all add: wit_voted_def wit_consented_def wit_opened_def empty_store_def)
  have c: "recusal_consent_valid (wit_env 13) ?st (wit_context 13) (wit_vote\<lparr>vo_rowVersion := 3\<rparr>) (uid 12) (uid 51)
      (digest wit_recusal_body)"
    by (simp add: recusal_consent_valid_def wit_voted_def wit_consented_def consent_matches_def wit_stage_row_def
        wit_attempt_row_def wit_consent_row_def wit_vote_def del: lit_simps)
  have w: "vo_organizationId wit_vote = uid 4" "vo_packageSha256 wit_vote = wit_sha" by (simp_all add: wit_vote_def)
  have e: "filter (\<lambda>e. el_voteId e = uid 6 \<and> el_memberId e = uid 12) wit_seats = [wit_seat_row 12 True 2]"
    by (simp add: wit_seats_def wit_seat_row_def)
  have l: "lock_vote_for_recusal (wit_env 13) ?st (wit_context 13) (uid 6) (uid 12) (uid 51) (digest wit_recusal_body) = [?locked]"
    by (simp add: lock_vote_for_recusal_def t current_exclusion_def e w c) (simp add: wit_seat_row_def)
  have s: "active_stages ?st (uid 4) (uid 5) (uid 6) (uid 12) = []"
    by (simp add: active_stages_def wit_voted_def wit_consented_def wit_stage_row_def)
  have p: "active_proxies ?st (uid 4) (uid 5) (uid 6) (uid 12) = [wit_grant_row]"
    by (simp add: active_proxies_def t) (simp add: wit_grant_row_def)
  have b: "active_ballots ?st (uid 4) (uid 5) (uid 6) (uid 12) = [wit_ballot_row]"
    by (simp add: active_ballots_def t has_disposition_def) (simp add: wit_ballot_row_def)
  have f: "pending_feeds ?st (uid 4) (uid 5) (uid 6) (uid 12) = []" by (simp add: pending_feeds_def t)
  have m: "manual_state ?st (uid 6) (uid 12) = None" by (simp add: manual_state_def t)
  show ?thesis
    by (simp add: recusal_admit_def Let_def l s p b f m w effective_recusal_def safeHashEqual_iff wit_admission_def del: lit_simps)
qed

lemma wit_recusal_step:
  assumes "valid_log plain_platform wit_lc (map au_event rows)" and "map (ab_eventId \<circ> au_event) rows = [uid 18, uid 36]"
  shows "\<exists>h'' events rows'. manageVoteRecusalInTransaction plain_platform wit_lc (wit_env 13) wit_recusal (wit_voted h h' rows) =
      Inr (RecusalManaged 1 excluded_state 1 h'' events, wit_recused h h' h'' rows')"
proof -
  let ?st = "wit_voted h h' rows"
  let ?old = "st_idempotency ?st"
  let ?n = "wit_idempotency 49 13 ''manage_recusal'' (recusal_request_json wit_recusal (lit ''family tie'') (digest wit_recusal_body))"
  let ?x = "new_exclusion wit_recusal wit_recusal_request wit_admission"
  let ?r = "recusal_revocation wit_recusal wit_recusal_request (wit_grant_row,
      \<lparr>pd_proxyGrantId = uid 16, pd_proxyRevocationId = uid 52, pd_auditEventId = uid 53\<rparr>)"
  let ?d = "invalidation wit_recusal_request (wit_ballot_row,
      \<lparr>bd_ballotId = uid 32, bd_ballotDispositionId = uid 54, bd_auditEventId = uid 55\<rparr>)"
  let ?json = "recusal_response_json wit_recusal wit_admission 1"
  let ?u = "?st\<lparr>st_idempotency := ?old @ [?n]\<rparr>"
  let ?s = "?u\<lparr>st_exclusions := [?x], st_revocations := [?r], st_dispositions := [?d], st_votes := [wit_vote\<lparr>vo_rowVersion := 4\<rparr>]\<rparr>"
  have t: "st_votes ?st = [wit_vote\<lparr>vo_rowVersion := 3\<rparr>]" "st_exclusions ?st = []" "st_revocations ?st = []" "st_dispositions ?st = []"
    "st_electorate ?st = wit_seats"
    by (simp_all add: wit_voted_def wit_consented_def wit_opened_def empty_store_def)
  have a: "ra_stages wit_admission = []" "ra_proxies wit_admission = [wit_grant_row]" "ra_ballots wit_admission = [wit_ballot_row]"
    "ra_feeds wit_admission = []" "ra_vote wit_admission = wit_vote\<lparr>vo_rowVersion := 3\<rparr>" "ra_version wit_admission = 1"
    "ra_state wit_admission = excluded_state"
    by (simp_all add: wit_admission_def)
  have n: "new_idempotency (uid 49) (wit_context 13) (lit ''manage_recusal'') wit_key
      (digest (recusal_request_json wit_recusal (lit ''family tie'') (digest wit_recusal_body))) = ?n"
    "\<not> list_ex (same_idempotency_key ?n) ?old" "\<not> list_ex (\<lambda>r. ir_id ?n = ir_id r) ?old"
    by (simp_all add: wit_idempotency_def new_idempotency_def finished_def same_idempotency_key_def wit_voted_def)
  have rd: "readIdempotency ?u (uid 13) (uid 8) (lit ''manage_recusal'') wit_key = Some ?n"
    by (simp add: readIdempotency_def find_app wit_voted_def wit_idempotency_def new_idempotency_def finished_def del: lit_simps)
  have disp: "recusal_dispositions plain_platform (wit_env 13) wit_recusal wit_recusal_request wit_admission ?u = Inr (4, ?s)"
    by (simp add: recusal_dispositions_def parse_nullable_def insert_row_def t a revoke_grant_def invalidate_ballot_def
        recusal_advance_def update_rows_def Let_def del: lit_simps)
  have seats: "recusal_seats ?s (uid 6) = [\<lparr>es_memberId = uid 11, es_role = voting_member, es_weight = 1, es_eligible = True,
      es_recused = False, es_chair = False\<rparr>, \<lparr>es_memberId = uid 12, es_role = voting_member, es_weight = 2, es_eligible = True,
      es_recused = True, es_chair = False\<rparr>]"
    using wit_sorted by (simp add: recusal_seats_def is_excluded_def current_exclusion_def t new_exclusion_def a later_exclusion_def)
      (simp add: wit_seats_def wit_seat_row_def later_exclusion_def less_imp_le)
  have weight: "eligibleVotingWeight (recusal_seats ?s (uid 6)) = Inr 1"
    unfolding seats by (simp add: eligibleVotingWeight_def validateElectorate_def eligibleSeat_def assertWeight_def
        isSafeInteger_def MAX_SAFE_INTEGER_def MAX_VOTING_WEIGHT_def ensure_def)
  have json: "canonicalSha256 plain_platform ?json = Inr (digest ?json)"
    by (rule canonicalSha256_digest) (simp_all add: recusal_response_json_def a MAX_JSON_CONTAINER_DEPTH_def)
  obtain events rows' where app: "appendAuditEventsInTransaction plain_platform wit_lc (wit_env 13) wit_events ?s =
      Inr (events, ?s\<lparr>st_audit := rows'\<rparr>)"
  proof (rule append_rows [of plain_platform wit_lc ?s "wit_env 13" wit_events])
    have e: "st_audit ?s = rows" by (simp add: wit_voted_def)
    show "valid_log plain_platform wit_lc (audit_log ?s)" unfolding audit_log_def e by (rule assms(1))
    have "ab_eventId ` set (audit_log ?s) = set (map (ab_eventId \<circ> au_event) rows)"
      by (simp only: audit_log_def e set_map image_comp)
    then show "\<forall>i\<in>set wit_events. ab_eventId (ai_event i) \<notin> ab_eventId ` set (audit_log ?s)"
      by (simp add: assms(2) wit_events_def proxy_revoked_event_def ballot_invalidated_event_def recusal_changed_event_def mcp_event_def)
    show "distinct (map (ab_eventId \<circ> ai_event) wit_events)"
      by (simp add: wit_events_def proxy_revoked_event_def ballot_invalidated_event_def recusal_changed_event_def mcp_event_def)
  qed (rule wit_events_ready)
  have fin: "finish_recusal wit_recusal (wit_context 13) (digest ?json) (?s\<lparr>st_audit := rows'\<rparr>) =
      Inr (wit_recused h h' (digest ?json) rows')"
    by (simp add: finish_recusal_def update_rows_def wit_voted_def wit_recused_def wit_idempotency_def new_idempotency_def
        finished_def wit_consented_def wit_opened_def empty_store_def del: lit_simps)
  have "recusal_write plain_platform wit_lc (wit_env 13) wit_recusal wit_recusal_request wit_admission ?st =
      Inr (RecusalManaged 1 excluded_state 1 (digest ?json) events, wit_recused h h' (digest ?json) rows')"
    using app by (simp add: recusal_write_def Let_def n insert_row_def rd disp seats weight [unfolded seats] json fin a wit_events_def
        del: lit_simps)
  then show ?thesis
    by (intro exI) (simp add: manageVoteRecusalInTransaction_def wit_recusal_request wit_recusal_admit)
qed

text \<open>The whole run: every step succeeds, so the four stores are reachable.\<close>

lemma wit_run:
  obtains h h' rows rows' h'' events events' rows'' where
    "reachable plain_platform wit_lc (wit_granted h rows)"
    and "castBallotInTransaction plain_platform wit_lc (wit_env 12) wit_cast (wit_granted h rows) =
      Inr (BallotCast (uid 32) None h' events, wit_voted h h' rows')"
    and "reachable plain_platform wit_lc (wit_voted h h' rows')"
    and "manageVoteRecusalInTransaction plain_platform wit_lc (wit_env 13) wit_recusal (wit_voted h h' rows') =
      Inr (RecusalManaged 1 excluded_state 1 h'' events', wit_recused h h' h'' rows'')"
    and "reachable plain_platform wit_lc (wit_recused h h' h'' rows'')"
proof -
  obtain h e rows where 1: "grantProxyInTransaction plain_platform wit_lc (wit_env 11) wit_grant wit_consented =
      Inr (Granted (uid 16) h e, wit_granted h rows)"
    and r: "valid_log plain_platform wit_lc (map au_event rows)" "map (ab_eventId \<circ> au_event) rows = [uid 18]"
    by (insert wit_grant_step, elim exE conjE) (rule that)
  obtain h' e' rows' where 2: "castBallotInTransaction plain_platform wit_lc (wit_env 12) wit_cast (wit_granted h rows) =
      Inr (BallotCast (uid 32) None h' e', wit_voted h h' rows')"
    and r': "valid_log plain_platform wit_lc (map au_event rows')" "map (ab_eventId \<circ> au_event) rows' = [uid 18, uid 36]"
    by (insert wit_cast_step [OF r, of h], elim exE conjE) (rule that)
  obtain h'' e'' rows'' where 3: "manageVoteRecusalInTransaction plain_platform wit_lc (wit_env 13) wit_recusal
      (wit_voted h h' rows') = Inr (RecusalManaged 1 excluded_state 1 h'' e'', wit_recused h h' h'' rows'')"
    by (insert wit_recusal_step [OF r', of h h'], elim exE) (rule that)
  have a: "reachable plain_platform wit_lc (wit_granted h rows)"
    by (rule reachable_step [OF wit_consented_reachable grant_step [OF 1]])
  have b: "reachable plain_platform wit_lc (wit_voted h h' rows')" by (rule reachable_step [OF a cast_step [OF 2]])
  have c: "reachable plain_platform wit_lc (wit_recused h h' h'' rows'')" by (rule reachable_step [OF b recusal_step [OF 3]])
  show thesis by (rule that [OF a 2 b 3 c])
qed

end
