(* ===== verification/Vote_Properties.thy ===== *)
theory Vote_Properties
  imports Vote_Scenario
begin

text \<open>
  What holds of a vote in every reachable store: its close evidence passes and has the tally of the recorded
  ballots, every ballot rests on its caster's confirmed consent, a recusal leaves nothing of the member in
  the vote, a repeated cast is answered from the record of the first, and the audit log stays a valid chain.
\<close>

section \<open>Rows are only added\<close>

definition grows :: "VoteStore \<Rightarrow> VoteStore \<Rightarrow> bool" where
  "grows st st' \<longleftrightarrow>
     (\<exists>xs. st_exclusions st' = st_exclusions st @ xs) \<and> (\<exists>gs. st_grants st' = st_grants st @ gs) \<and>
     (\<exists>rs. st_revocations st' = st_revocations st @ rs) \<and> (\<exists>cs. st_consents st' = st_consents st @ cs) \<and>
     (\<exists>es. audit_log st' = audit_log st @ es)"

lemma grows_refl [simp]: "grows st st"
  by (simp add: grows_def)

lemma grows_trans: "grows a b \<Longrightarrow> grows b c \<Longrightarrow> grows a c"
  by (auto simp: grows_def)

lemma grows_append:
  "st_exclusions st' = st_exclusions st @ xs \<Longrightarrow> st_grants st' = st_grants st @ gs \<Longrightarrow>
     st_revocations st' = st_revocations st @ rs \<Longrightarrow> st_consents st' = st_consents st @ cs \<Longrightarrow>
     audit_kept pl lc st st' \<Longrightarrow> grows st st'"
  by (simp add: grows_def audit_kept_def)

lemma step_grows:
  assumes "vote_step pl lc st st'"
  shows "grows st st'"
  using assms
proof cases
  case (grant_step env i r)
  then consider "st' = st" | q vote where "grant_write pl lc env i q vote st = Inr (r, st')"
    by (auto simp: grantProxyInTransaction_def bindr_eq_Inr_iff admission_Inr)
  then show ?thesis
    by cases (auto simp: same_basis_def same_stages_def intro: grows_append [of _ _ "[]" _ "[]" "[]" pl lc] dest!: grant_write_ok)
next
  case (revoke_step env i r)
  then consider "st' = st" | reason q vote where "revoke_write pl lc env i reason q vote st = Inr (r, st')"
    by (auto simp: revokeProxyInTransaction_def bindr_eq_Inr_iff admission_Inr)
  then show ?thesis
    by cases (auto simp: same_basis_def same_stages_def intro: grows_append [of _ _ "[]" "[]" _ "[]" pl lc] dest!: revoke_write_ok)
next
  case (cast_step env i r)
  then consider "st' = st" | statement q a where "cast_write pl lc env i statement q a st = Inr (r, st')"
    by (auto simp: castBallotInTransaction_def bindr_eq_Inr_iff admission_Inr)
  then show ?thesis
  proof cases
    case 2
    from cast_write_ok [OF 2] have "same_basis st st'" "same_stages st st'" "st_grants st' = st_grants st"
      "st_revocations st' = st_revocations st" "audit_kept pl lc st st'" by blast+
    then show ?thesis by (simp add: grows_def same_basis_def same_stages_def audit_kept_def)
  qed simp
next
  case (recusal_step env i r)
  from recusal_step show ?thesis
    by (cases rule: recusal_cases) (auto simp: recusal_written_def same_basis_def grows_def audit_kept_def)
next
  case (audit_step env inputs events)
  from appendAudit_frame [OF audit_step] appendAuditEvents_log [OF audit_step] show ?thesis by (auto simp: grows_def)
qed (simp_all add: grows_def audit_log_def)

lemma steps_grow: "(vote_step pl lc)\<^sup>*\<^sup>* st st' \<Longrightarrow> grows st st'"
  by (induction rule: rtranclp_induct) (auto intro: step_grows grows_trans)

lemma record_sha_grows: "grows st st' \<Longrightarrow> record_sha st k = Some h \<Longrightarrow> record_sha st' k = Some h"
  by (auto simp: grows_def record_sha_def find_app split: option.splits)

section \<open>A consent record that serves twice\<close>

lemma with_consent_mem: "r \<in> set rows \<Longrightarrow> record_sha st (key r) = Some h \<Longrightarrow> (r, h) \<in> set (with_consent st key rows)"
  by (auto simp: with_consent_def intro!: bexI [of _ r])

lemma reused_consent:
  assumes "x \<in> set (st_exclusions st)" and "xr_voteId x = voteId"
    and "g \<in> set (st_grants st)" and "gr_voteId g = voteId" and "gr_consentRecordId g \<in> cr_id ` set (st_consents st)"
    and "find (\<lambda>r. rv_grantId r = gr_id g) (st_revocations st) = Some r"
    and "rv_consentRecordId r = xr_consentRecordId x" and "record_sha st (xr_consentRecordId x) = Some h"
  shows "consentSetSha256 pl (evidence_of cols st voteId) c =
    throw (integrity_failure ''vote close evidence reuses a consent record'')"
proof -
  let ?e = "evidence_of cols st voteId"
  let ?f = "\<lambda>p. pe_consentRecordSha256 p # (case pe_revocation p of Some (_, Some h) \<Rightarrow> [h] | _ \<Rightarrow> [])"
  have "(x, h) \<in> set (ve_exclusions ?e)"
    using assms(1,2,8) by (auto simp: evidence_of_def intro!: with_consent_mem)
  then have 1: "h \<in> set (map snd (ve_exclusions ?e))" by force
  obtain k where "record_sha st (gr_consentRecordId g) = Some k" using record_sha_defined [OF assms(5)] by blast
  then have "(g, k) \<in> set (with_consent st gr_consentRecordId (sort_key gr_id (filter (\<lambda>g. gr_voteId g = voteId) (st_grants st))))"
    using assms(3,4) by (intro with_consent_mem) simp_all
  then have "proxy_evidence st (g, k) \<in> set (ve_proxies ?e)" by (simp add: evidence_of_def)
  moreover have "h \<in> set (?f (proxy_evidence st (g, k)))" by (simp add: proxy_evidence_def assms(6-8))
  ultimately have 2: "h \<in> set (concat (map ?f (ve_proxies ?e)))" by auto
  have "\<not> distinct (map snd (ve_exclusions ?e) @ concat (map ?f (ve_proxies ?e)) @ rest)" for rest
    using 1 2 by (simp only: distinct_append set_append) blast
  then have "\<not> distinct (consent_records ?e c)" by (simp only: consent_records_def distinct_sort) simp
  then show ?thesis by (simp add: consentSetSha256_def length_js_set_iff)
qed

section \<open>A repeated cast\<close>

lemma checkedReplay_done:
  "checkedReplay (Some r) h = Inr (Some (x, y)) \<longleftrightarrow> safeHashEqual (ir_requestSha256 r) h \<and> ir_state r = idem_succeeded \<and>
     ir_safeResponseId r = Some x \<and> ir_safeResponseSha256 r = Some y"
  by (auto simp: checkedReplay_def split: IdempotencyState.splits option.splits)

lemma checkedReplay_none: "checkedReplay row h = Inr None \<Longrightarrow> row = None"
  by (auto simp: checkedReplay_def split: option.splits if_splits IdempotencyState.splits)

lemma checkedReplay_fresh:
  assumes "readIdempotency st (ir_actorMemberId n) (ir_clientId n) (ir_operation n) (ir_key n) = None"
  shows "\<not> list_ex (same_idempotency_key n) (st_idempotency st)"
  using assms by (auto simp: readIdempotency_def find_None_iff list_ex_iff same_idempotency_key_def)


section \<open>The tally of a vote\<close>

text \<open>The seats of a vote, read from the tables.\<close>

definition vote_seats :: "VoteStore \<Rightarrow> jstring \<Rightarrow> ElectorSeat list" where
  "vote_seats st voteId = map (\<lambda>e. \<lparr>es_memberId = el_memberId e, es_role = voting_member, es_weight = el_votingWeight e,
       es_eligible = True, es_recused = is_excluded st voteId (el_memberId e), es_chair = el_isChair e\<rparr>)
     (sort_key el_memberId (filter (\<lambda>e. el_voteId e = voteId) (st_electorate st)))"

lemma close_seats_eq: "keys_ok st \<Longrightarrow> close_seats (evidence_of cols st voteId) = vote_seats st voteId"
  by (simp add: close_seats_def vote_seats_def evidence_exclusions is_excluded_def) (simp add: evidence_of_def)

lemma tally_digest: "\<exists>h. canonicalSha256 pl (canonicalVoteTally t) = Inr h"
  by (rule hash_defined; cases "vt_outcome t")
    (simp_all add: canonicalVoteTally_def MAX_JSON_CONTAINER_DEPTH_def ascii_dec_int)

lemma filter_key_unique: "distinct (map f xs) \<Longrightarrow> x \<in> set xs \<Longrightarrow> filter (\<lambda>u. f u = f x) xs = [x]"
proof (induction xs)
  case (Cons y ys)
  show ?case
  proof (cases "x = y")
    case True
    then have "f u \<noteq> f x" if "u \<in> set ys" for u using Cons.prems(1) that by (metis distinct.simps(2) image_eqI list.map(2) list.set_map)
    with True show ?thesis by (simp add: filter_empty_conv)
  qed (use Cons in auto)
qed simp

text \<open>The evidence of a vote is read exactly while the vote is open, closing or closed, by its own organization.\<close>

lemma vote_close_evidence_Inr:
  assumes "distinct (map vo_id (st_votes st))" and "v \<in> set (st_votes st)"
  shows "vote_close_evidence cols env st org (vo_id v) = Inr e \<longleftrightarrow>
    e = evidence_of cols st (vo_id v) \<and> org = vo_organizationId v \<and> vo_state v \<in> {vote_open, vote_closing, vote_closed} \<and>
    (case tx_context env of
       Some cx \<Rightarrow> org = cx_organizationId cx \<and> tx_boardAllowed env (vo_boardId v)
     | None \<Rightarrow> vo_closeMode v = tc_automatic \<or> vo_state v = vote_closing)"
proof -
  have one: "filter (\<lambda>u. vo_id u = vo_id v) (st_votes st) = [v]" using assms by (rule filter_key_unique)
  have "filter (\<lambda>u. vo_id u = vo_id v \<and> vo_organizationId u = org) (st_votes st) =
      filter (\<lambda>u. vo_organizationId u = org) (filter (\<lambda>u. vo_id u = vo_id v) (st_votes st))"
    by (simp add: conj_commute)
  then have "filter (\<lambda>u. vo_id u = vo_id v \<and> vo_organizationId u = org) (st_votes st) = (if vo_organizationId v = org then [v] else [])"
    by (simp add: one)
  then show ?thesis by (auto simp: vote_close_evidence_def split: option.splits)
qed

text \<open>The consent records of evidence that has its schema are digests, so their set is refused only when one occurs twice.\<close>

lemma proxy_records_hex:
  assumes "proxy_row_ok cols p" and "h = pe_consentRecordSha256 p \<or> (\<exists>r. pe_revocation p = Some (r, Some h))"
  shows "Sha256HexSchema h"
  using assms by (auto simp: proxy_row_ok_def revocation_row_ok_def)

lemma consent_records_hex:
  assumes "VoteEvidenceSchema e" and "nullable_ok Sha256HexSchema c" and "h \<in> set (consent_records e c)"
  shows "Sha256HexSchema h"
proof -
  note s = assms(1) [unfolded VoteEvidenceSchema_def list_all_iff]
  from assms(3) consider "h \<in> snd ` set (ve_exclusions e)"
    | p where "p \<in> set (ve_proxies e)" "h = pe_consentRecordSha256 p \<or> (\<exists>r. pe_revocation p = Some (r, Some h))"
    | "h \<in> be_consentRecordSha256 ` set (ve_ballots e)" | "c = Some h"
    by (auto simp: consent_records_def split: option.splits prod.splits) metis
  then show ?thesis
  proof cases
    case 1
    then show ?thesis using s by (force simp: exclusion_row_ok_def)
  next
    case 2
    then show ?thesis using s proxy_records_hex by blast
  next
    case 3
    then show ?thesis using s by (auto simp: ballot_row_ok_def Let_def)
  next
    case 4
    then show ?thesis using assms(2) by (simp add: nullable_ok_def)
  qed
qed

lemma consent_set_iff:
  assumes "VoteEvidenceSchema e" and "nullable_ok Sha256HexSchema c"
  shows "(\<exists>h. consentSetSha256 pl e c = Inr h) \<longleftrightarrow> distinct (consent_records e c)"
proof -
  let ?j = "JObj [(lit ''schemaVersion'', jstr ''boardagent.vote-certificate-consent-set.v1''),
         (lit ''recordSha256'', JArr (map JStr (consent_records e c)))]"
  have "list_all (\<lambda>h. scalar_string (normalizeNFC pl) h) (consent_records e c)"
    using consent_records_hex [OF assms] by (simp add: list_all_iff scalar_digest)
  moreover have "foldr max (map (\<lambda>x. 0) xs) 0 = (0 :: nat)" for xs :: "jstring list" by (induction xs) simp_all
  ultimately have "\<exists>h. canonicalSha256 pl ?j = Inr h"
    by (simp add: canonicalSha256_iff MAX_JSON_CONTAINER_DEPTH_def list_all_iff comp_def)
  then show ?thesis by (auto simp: consentSetSha256_def Let_def length_js_set_iff simp del: lit_simps)
qed

text \<open>Property C1: what closing a vote of a reachable store checks. Its evidence is handed out exactly to its own organization, while
  the vote is open, closing or closed, and to a caller with access to its board, or without a caller for a vote that closes
  automatically or is already closing. On that evidence, whatever grants, revocations, casts, recusals and other transactions
  led to the store, the checks of the tally pass for a row with a clock sample, and the tally is the declarative tally
  of the seats, with the members now excluded as recused, and of the ballots that no disposition has ended; these ballots
  are of different members. The consent set, the one check that can still refuse evidence of the right shape, does so
  exactly when a consent record occurs twice in it.\<close>

theorem reachable_vote_closes:
  assumes "reachable pl lc st" and "v \<in> set (st_votes st)" and "closes v row"
  shows "((\<exists>e. vote_close_evidence cols env st org (vo_id v) = Inr e) \<longleftrightarrow>
      org = vo_organizationId v \<and> vo_state v \<in> {vote_open, vote_closing, vote_closed} \<and>
      (case tx_context env of
         Some cx \<Rightarrow> org = cx_organizationId cx \<and> tx_boardAllowed env (vo_boardId v)
       | None \<Rightarrow> vo_closeMode v = tc_automatic \<or> vo_state v = vote_closing)) \<and>
    (\<forall>e. vote_close_evidence cols env st org (vo_id v) = Inr e \<longrightarrow>
      (\<exists>sha. close_tally pl lc row e =
        Inr (tally_spec (vote_seats st (vo_id v)) (effective_list st (vo_id v)) (vo_rule v), sha))) \<and>
    distinct (map br_principalMemberId (effective_ballots st (vo_id v))) \<and>
    (\<forall>e c. readVoteEvidence cols env st org (vo_id v) = Inr e \<and> nullable_ok Sha256HexSchema c \<longrightarrow>
      ((\<exists>h. consentSetSha256 pl e c = Inr h) \<longleftrightarrow> distinct (consent_records e c)))"
proof -
  from reachable_inv [OF assms(1)] have i: "vote_inv pl lc st" .
  then have s: "store_ok pl st" "keys_ok st" by (simp_all add: vote_inv_def)
  then have "distinct (map vo_id (st_votes st))" by (simp add: store_ok_def)
  note ev = vote_close_evidence_Inr [OF this assms(2)]
  obtain h where "canonicalSha256 pl (canonicalVoteTally (tally_spec (vote_seats st (vo_id v))
      (effective_list st (vo_id v)) (vo_rule v))) = Inr h"
    using tally_digest by blast
  with close_tally_ok [OF i assms(2,3)] s
  have "close_tally pl lc row (evidence_of cols st (vo_id v)) =
      Inr (tally_spec (vote_seats st (vo_id v)) (effective_list st (vo_id v)) (vo_rule v), h)"
    by (simp add: close_seats_eq)
  moreover have "distinct (map br_principalMemberId (effective_ballots st (vo_id v)))"
    using s by (simp add: store_ok_def one_ballot_each_def)
  moreover have "VoteEvidenceSchema e" if "readVoteEvidence cols env st org (vo_id v) = Inr e" for e
    using that by (auto simp: readVoteEvidence_def bindr_eq_Inr_iff)
  ultimately show ?thesis using consent_set_iff unfolding ev by blast
qed

definition wit_columns :: RowColumns where
  "wit_columns = \<lparr>rc_effectiveAt = \<lambda>_. wit_time, rc_grantedAt = \<lambda>_. wit_time, rc_expiresAt = \<lambda>_. wit_time,
     rc_revokedAt = \<lambda>_. wit_time, rc_revocationEffect = \<lambda>_. grant_revoked, rc_castAt = \<lambda>_. wit_time,
     rc_createdAt = \<lambda>_. wit_time, rc_replacementVoteId = \<lambda>_. None\<rparr>"

definition wit_locked_row :: LockedCloseRow where
  "wit_locked_row = VoteRow.extend (wit_vote\<lparr>vo_rowVersion := 3\<rparr>) \<lparr>lc_clockSampleId = Some (uid 20),
     lc_clockMeasuredAt = Some wit_time, lc_clockDriftMicroseconds = Some (lit ''0''), lc_clockValidUntil = Some wit_time\<rparr>"

definition wit_evidence :: VoteEvidence where
  "wit_evidence = \<lparr>ve_columns = wit_columns, ve_electorate = wit_seats, ve_exclusions = [],
     ve_proxies = [\<lparr>pe_grant = wit_grant_row, pe_consentRecordSha256 = wit_record_sha 19, pe_revocation = None\<rparr>],
     ve_ballots = [\<lparr>be_ballot = wit_ballot_row, be_consentRecordSha256 = wit_record_sha 37, be_disposition = None\<rparr>]\<rparr>"

lemma wit_evidence_of: "evidence_of wit_columns (wit_voted h h' rows) (uid 6) = wit_evidence"
proof -
  have "sort_key el_memberId wit_seats = wit_seats" using wit_sorted by (simp add: wit_seats_def wit_seat_row_def)
  moreover have "filter (\<lambda>e. el_voteId e = uid 6) wit_seats = wit_seats" by (simp add: wit_seats_def wit_seat_row_def)
  ultimately show ?thesis
    by (simp add: evidence_of_def wit_voted_def wit_consented_def wit_opened_def empty_store_def wit_evidence_def
        with_consent_def record_sha_def wit_consent_row_def wit_grant_row_def wit_ballot_row_def proxy_evidence_def
        ballot_evidence_def)
qed

lemma wit_record_sha_ok [simp]: "Sha256HexSchema (wit_record_sha n)"
proof -
  have "list_all is_lower_hex (replicate 62 0x30)" by code_simp
  then show ?thesis by (simp add: Sha256HexSchema_iff wit_record_sha_def hex4_digit_lower)
qed

lemma wit_evidence_read:
  "readVoteEvidence wit_columns (wit_env 11) (wit_voted h h' rows) (uid 4) (uid 6) = Inr wit_evidence"
proof -
  have "vote_close_evidence wit_columns (wit_env 11) (wit_voted h h' rows) (uid 4) (uid 6) = Inr wit_evidence"
  proof -
    have "st_votes (wit_voted h h' rows) = [wit_vote\<lparr>vo_rowVersion := 3\<rparr>]" by (simp add: wit_voted_def)
    then show ?thesis by (simp add: vote_close_evidence_def wit_evidence_of) (simp add: wit_vote_def)
  qed
  moreover have "VoteEvidenceSchema wit_evidence"
    by (simp add: VoteEvidenceSchema_def wit_evidence_def electorate_row_ok_def wit_seats_def wit_seat_row_def proxy_row_ok_def
        wit_grant_row_def wit_columns_def wit_times ballot_row_ok_def wit_ballot_row_def nullable_ok_def)
  ultimately show ?thesis by (simp add: readVoteEvidence_def)
qed

lemma wit_consent_records: "distinct (consent_records wit_evidence None)"
proof -
  have "wit_record_sha 19 \<noteq> wit_record_sha 37" by (simp add: wit_record_sha_def hex4_digit_eq)
  then show ?thesis by (simp add: consent_records_def wit_evidence_def)
qed

theorem reachable_vote_closes_witness:
  "\<exists>st e sha h. reachable plain_platform wit_lc st \<and> readVoteEvidence wit_columns (wit_env 11) st (uid 4) (uid 6) = Inr e \<and>
     close_tally plain_platform wit_lc wit_locked_row e =
       Inr (tally_spec (vote_seats st (uid 6)) (effective_list st (uid 6)) wit_rule, sha) \<and>
     consentSetSha256 plain_platform e None = Inr h \<and> be_ballot ` set (ve_ballots e) = {wit_ballot_row}"
proof -
  let ?v = "wit_vote\<lparr>vo_rowVersion := 3\<rparr>"
  obtain h h' rows where r: "reachable plain_platform wit_lc (wit_voted h h' rows)" by (rule wit_run)
  let ?st = "wit_voted h h' rows"
  have v: "?v \<in> set (st_votes ?st)" "closes ?v wit_locked_row" "vo_id ?v = uid 6" "vo_rule ?v = wit_rule"
    by (simp_all add: wit_voted_def closes_def wit_locked_row_def wit_vote_def VoteRow.defs)
  have e: "readVoteEvidence wit_columns (wit_env 11) ?st (uid 4) (uid 6) = Inr wit_evidence" by (rule wit_evidence_read)
  then have f: "vote_close_evidence wit_columns (wit_env 11) ?st (uid 4) (uid 6) = Inr wit_evidence"
    by (auto simp: readVoteEvidence_def bindr_eq_Inr_iff)
  note c = reachable_vote_closes [OF r v(1,2), of wit_columns "wit_env 11" "uid 4", unfolded v(3,4)]
  from c f obtain sha where "close_tally plain_platform wit_lc wit_locked_row wit_evidence =
      Inr (tally_spec (vote_seats ?st (uid 6)) (effective_list ?st (uid 6)) wit_rule, sha)"
    by blast
  moreover have "nullable_ok Sha256HexSchema None" by (simp add: nullable_ok_def)
  with c e wit_consent_records have "\<exists>h. consentSetSha256 plain_platform wit_evidence None = Inr h" by blast
  moreover have "be_ballot ` set (ve_ballots wit_evidence) = {wit_ballot_row}" by (simp add: wit_evidence_def)
  ultimately show ?thesis using r e by blast
qed

text \<open>Property C2: a counted ballot is the confirmed will of its caster. In every reachable store a ballot that no
  disposition has ended belongs to a vote with its package, carries the weight of its principal's seat, has a principal and
  a caster who are not recused, was cast by the principal or by the holder of a grant of the principal
  under the policy of the vote, and rests on a confirmed consent of the caster whose payload hash is the hash of exactly
  this ballot.\<close>

theorem counted_ballot_consented:
  assumes "reachable pl lc st" and "b \<in> set (effective_ballots st voteId)"
  shows "(\<exists>v\<in>set (st_votes st). vo_id v = voteId \<and> br_packageId b = vo_packageId v \<and>
      ballot_attributed st (vo_proxyPolicy v) b \<and> ballot_consented pl st b (vo_packageSha256 v)) \<and>
    (\<exists>e\<in>set (st_electorate st). el_voteId e = voteId \<and> el_memberId e = br_principalMemberId b \<and>
      el_votingWeight e = br_votingWeight b) \<and>
    \<not> is_excluded st voteId (br_principalMemberId b) \<and> \<not> is_excluded st voteId (br_casterMemberId b)"
proof -
  from reachable_inv [OF assms(1)] have s: "store_ok pl st" by (simp add: vote_inv_def)
  have b: "b \<in> set (st_ballots st)" "br_voteId b = voteId" "\<not> has_disposition st b"
    using assms(2) by (simp_all add: effective_ballots_def)
  with s have "ballot_bound pl st b" "nobody_excluded st" by (simp_all add: store_ok_def list_all_iff)
  with b show ?thesis unfolding ballot_bound_def nobody_excluded_def by metis
qed

theorem counted_ballot_consented_witness:
  "\<exists>st. reachable plain_platform wit_lc st \<and> \<not> is_excluded st (uid 6) (uid 12) \<and>
     (\<exists>v\<in>set (st_votes st). ballot_consented plain_platform st wit_ballot_row (vo_packageSha256 v))"
proof -
  obtain h h' rows where r: "reachable plain_platform wit_lc (wit_voted h h' rows)" by (rule wit_run)
  have "wit_ballot_row \<in> set (effective_ballots (wit_voted h h' rows) (uid 6))"
    by (simp add: effective_ballots_def wit_voted_def wit_consented_def wit_opened_def empty_store_def has_disposition_def
        wit_ballot_row_def)
  from counted_ballot_consented [OF r this] r show ?thesis by auto
qed

text \<open>Property C3: a recusal takes the member out of the vote. After it no counted ballot names the member as principal or
  caster, every grant of or to the member has a revocation, and the member stands excluded exactly when
  the recusal reports so.\<close>

theorem recusal_clears:
  assumes "reachable pl lc st"
    and "manageVoteRecusalInTransaction pl lc env i st = Inr (RecusalManaged n s w h events, st')"
  shows "(\<forall>b\<in>set (effective_ballots st' (mi_voteId i)).
       br_principalMemberId b \<noteq> mi_memberId i \<and> br_casterMemberId b \<noteq> mi_memberId i) \<and>
    (\<forall>g\<in>set (st_grants st'). gr_voteId g = mi_voteId i \<and>
       (gr_principalMemberId g = mi_memberId i \<or> gr_holderMemberId g = mi_memberId i) \<longrightarrow>
       (\<exists>r\<in>set (st_revocations st'). rv_grantId r = gr_id g)) \<and>
    (is_excluded st' (mi_voteId i) (mi_memberId i) \<longleftrightarrow> s = excluded_state)"
  using recusal_clears_member [OF assms(2)] reachable_inv [OF assms(1)] unfolding vote_inv_def by blast

theorem recusal_clears_witness:
  "\<exists>st. reachable plain_platform wit_lc st \<and> is_excluded st (uid 6) (uid 12) \<and>
     (\<forall>b\<in>set (effective_ballots st (uid 6)). br_principalMemberId b \<noteq> uid 12)"
proof -
  obtain h h' rows h'' events rows' where
    "reachable plain_platform wit_lc (wit_voted h h' rows)"
    "manageVoteRecusalInTransaction plain_platform wit_lc (wit_env 13) wit_recusal (wit_voted h h' rows) =
      Inr (RecusalManaged 1 excluded_state 1 h'' events, wit_recused h h' h'' rows')"
    and r: "reachable plain_platform wit_lc (wit_recused h h' h'' rows')"
    by (rule wit_run)
  from recusal_clears [OF this(1,2)] r show ?thesis by auto
qed

text \<open>Property C4: a recusal that ends a proxy makes the vote impossible to close. The recusal writes its own consent record
  both to the exclusion and to the revocation of the proxy, and the consent set of the close refuses evidence in which a
  consent record occurs twice, after the recusal and after any later steps.\<close>

theorem recusal_of_proxy_blocks_close:
  assumes "reachable pl lc st"
    and "manageVoteRecusalInTransaction pl lc env i st = Inr (RecusalManaged n s w h events, st')"
    and "mi_proxyDispositions i \<noteq> []" and "(vote_step pl lc)\<^sup>*\<^sup>* st' later"
  shows "consentSetSha256 pl (evidence_of cols later (mi_voteId i)) closeConsentSha256 =
    throw (integrity_failure ''vote close evidence reuses a consent record'')"
  using assms(2)
proof (cases rule: recusal_cases)
  case (2 q a w h events)
  let ?x = "new_exclusion i q a"
  have inv: "keys_ok st" "keys_ok st'"
    using reachable_inv [OF assms(1)] recusal_keeps_inv [OF assms(2)] by (simp_all add: vote_inv_def)
  note g = steps_grow [OF assms(4)]
  have w: "st_exclusions st' = st_exclusions st @ [?x]" "st_grants st' = st_grants st" "st_consents st' = st_consents st"
    "st_revocations st' = st_revocations st @ map (recusal_revocation i q) (zip (ra_proxies a) (rq_proxies q))"
    using 2(3) by (simp_all add: recusal_written_def same_basis_def)
  have "length (rq_proxies q) = length (mi_proxyDispositions i)"
    using 2(5) by (auto simp: recusal_request_def normalizeProxies_def bindr_eq_Inr_iff Let_def guard_Inr mapr_length
        split del: if_split dest!: mapr_length)
  then obtain p where p: "p \<in> set (ra_proxies a)"
    using recusal_admit_ok(8) [OF 2(2), THEN map_eq_imp_length_eq] assms(3) by (cases "ra_proxies a") auto
  then have pg: "p \<in> set (st_grants st)" "gr_voteId p = mi_voteId i" "\<not> list_ex (\<lambda>r. rv_grantId r = gr_id p) (st_revocations st)"
    by (auto simp: recusal_admit_ok(6) [OF 2(2)] active_proxies_def)
  have "p \<in> set (map fst (zip (ra_proxies a) (rq_proxies q)))" using set_fst_zip [OF recusal_admit_ok(8) [OF 2(2)]] p by simp
  then obtain d where "(p, d) \<in> set (zip (ra_proxies a) (rq_proxies q))" by auto
  then have m: "recusal_revocation i q (p, d) \<in> set (st_revocations st')" "rv_grantId (recusal_revocation i q (p, d)) = gr_id p"
    by (auto simp: w(4) recusal_revocation_def intro!: image_eqI [of _ _ "(p, d)"])
  then obtain r where r: "find (\<lambda>r. rv_grantId r = gr_id p) (st_revocations st') = Some r"
    using find_id [OF m(1), of rv_grantId] by auto
  then have "r \<in> set (st_revocations st')" "rv_grantId r = gr_id p" by (auto simp: find_Some_iff)
  with pg(3) have rc: "rv_consentRecordId r = xr_consentRecordId ?x"
    by (auto simp: w(4) list_ex_iff recusal_revocation_def new_exclusion_def)
  have xc: "xr_consentRecordId ?x \<in> cr_id ` set (st_consents st')"
    using recusal_admit_consent [OF 2(2)] by (simp add: w(3) new_exclusion_def)
  then obtain k where k: "record_sha st' (xr_consentRecordId ?x) = Some k" using record_sha_defined by blast
  show ?thesis
  proof (rule reused_consent)
    show "?x \<in> set (st_exclusions later)" using g w(1) by (auto simp: grows_def)
    show "xr_voteId ?x = mi_voteId i" by (simp add: new_exclusion_def)
    show "p \<in> set (st_grants later)" using g w(2) pg(1) by (auto simp: grows_def)
    show "gr_voteId p = mi_voteId i" by (rule pg(2))
    show "gr_consentRecordId p \<in> cr_id ` set (st_consents later)"
      using g w(3) pg(1) inv(1) by (auto simp: grows_def keys_ok_def list_all_iff)
    show "find (\<lambda>r. rv_grantId r = gr_id p) (st_revocations later) = Some r"
      using g r by (auto simp: grows_def find_app)
    show "rv_consentRecordId r = xr_consentRecordId ?x" by (rule rc)
    show "record_sha later (xr_consentRecordId ?x) = Some k" by (rule record_sha_grows [OF g k])
  qed
qed simp

theorem recusal_of_proxy_blocks_close_witness:
  "\<exists>st. reachable plain_platform wit_lc st \<and> consentSetSha256 plain_platform (evidence_of wit_columns st (uid 6)) None =
     throw (integrity_failure ''vote close evidence reuses a consent record'')"
proof -
  obtain h h' rows h'' events rows' where
    "reachable plain_platform wit_lc (wit_voted h h' rows)"
    "manageVoteRecusalInTransaction plain_platform wit_lc (wit_env 13) wit_recusal (wit_voted h h' rows) =
      Inr (RecusalManaged 1 excluded_state 1 h'' events, wit_recused h h' h'' rows')"
    and r: "reachable plain_platform wit_lc (wit_recused h h' h'' rows')"
    by (rule wit_run)
  from recusal_of_proxy_blocks_close [OF this(1,2) _ rtranclp.rtrancl_refl] r show ?thesis by auto
qed


lemma insertIdempotency_fresh:
  assumes "insertIdempotency n st = Inr s" and "\<not> list_ex (same_idempotency_key n) (st_idempotency st)"
  shows "s = st\<lparr>st_idempotency := st_idempotency st @ [n]\<rparr>"
  using assms by (auto simp: insertIdempotency_def bindr_eq_Inr_iff insert_row_Inr Let_def split: if_splits option.splits)

lemma finish_record:
  assumes "finishIdempotency (ir_id n) x h s = Inr s'" and "st_idempotency s = rows @ [n]" and "ir_state n = idem_in_progress"
  shows "st_idempotency s' = rows @ [n\<lparr>ir_state := idem_succeeded, ir_safeResponseId := Some x, ir_safeResponseSha256 := Some h\<rparr>]"
    and "s' = s\<lparr>st_idempotency := st_idempotency s'\<rparr>"
proof -
  let ?p = "\<lambda>r. ir_id r = ir_id n \<and> ir_state r = idem_in_progress"
  let ?f = "\<lambda>r. r\<lparr>ir_state := idem_succeeded, ir_safeResponseId := Some x, ir_safeResponseSha256 := Some h\<rparr>"
  from assms have l: "length (filter ?p (rows @ [n])) = 1" and
    s': "s' = s\<lparr>st_idempotency := map (\<lambda>r. if ?p r then ?f r else r) (rows @ [n])\<rparr>"
    by (auto simp: finishIdempotency_def update_rows_def Let_def split: if_splits)
  have "filter ?p rows = []" using l assms(3) by simp
  then have "map (\<lambda>r. if ?p r then ?f r else r) rows = rows" by (intro map_idI) (auto simp: filter_empty_conv)
  with assms(3) show "st_idempotency s' = rows @ [?f n]" "s' = s\<lparr>st_idempotency := st_idempotency s'\<rparr>" by (simp_all add: s')
qed

lemma read_appended:
  assumes "\<not> list_ex (same_idempotency_key n) (st_idempotency st)" and "st_idempotency st' = (st_idempotency st @ [n']) @ records"
    and "same_idempotency_key n n'"
  shows "readIdempotency st' (ir_actorMemberId n) (ir_clientId n) (ir_operation n) (ir_key n) = Some n'"
proof -
  have "find (\<lambda>r. ir_actorMemberId r = ir_actorMemberId n \<and> ir_clientId r = ir_clientId n \<and> ir_operation r = ir_operation n \<and>
      ir_key r = ir_key n) (st_idempotency st) = None"
    using assms(1) by (auto simp: find_None_iff list_ex_iff same_idempotency_key_def)
  with assms(2,3) show ?thesis by (simp add: readIdempotency_def find_app same_idempotency_key_def)
qed

lemma cast_request_digest: "cast_request pl env i = Inr (statement, q) \<Longrightarrow> Sha256HexSchema (vq_requestSha256 q)"
  by (auto simp: cast_request_def result_simps cong: conj_cong simp del: lit_simps split del: if_split dest: wit_digest)

lemma cast_write_steps:
  assumes "cast_write pl lc env i statement q a st = Inr (r, st')"
  obtains p s1 s2 s3 n inputs h ev where
    "insertIdempotency (new_idempotency (ci_idempotencyRecordId i) (vq_context q) (lit ''cast_ballot'')
      (ci_idempotencyKey i) (vq_requestSha256 q)) st = Inr s1"
    and "advanceVoteVersion (ci_voteId i) (vo_rowVersion (cm_vote a)) [vote_open]
      (s1\<lparr>st_ballots := st_ballots s1 @ [new_ballot i statement (vq_context q) (cm_vote a) p],
        st_dispositions := st_dispositions s1 @ (case cm_superseded a of None \<Rightarrow> [] | Some b \<Rightarrow> [supersession i b]),
        st_feed := resolve_feed env (vo_boardId (cm_vote a)) (ci_principalMemberId i) (ci_voteId i) (st_feed s1)\<rparr>) = Inr (n, s2)"
    and "appendAuditEventsInTransaction pl lc env inputs s2 = Inr (ev, s3)"
    and "finishIdempotency (ci_idempotencyRecordId i) (ci_ballotId i) h s3 = Inr st'"
    and "r = BallotCast (ci_ballotId i) (map_option br_id (cm_superseded a)) h ev"
proof -
  let ?ex = "\<exists>p s1 s2 s3 n inputs h ev.
    insertIdempotency (new_idempotency (ci_idempotencyRecordId i) (vq_context q) (lit ''cast_ballot'')
      (ci_idempotencyKey i) (vq_requestSha256 q)) st = Inr s1 \<and>
    advanceVoteVersion (ci_voteId i) (vo_rowVersion (cm_vote a)) [vote_open]
      (s1\<lparr>st_ballots := st_ballots s1 @ [new_ballot i statement (vq_context q) (cm_vote a) p],
        st_dispositions := st_dispositions s1 @ (case cm_superseded a of None \<Rightarrow> [] | Some b \<Rightarrow> [supersession i b]),
        st_feed := resolve_feed env (vo_boardId (cm_vote a)) (ci_principalMemberId i) (ci_voteId i) (st_feed s1)\<rparr>) = Inr (n, s2) \<and>
    appendAuditEventsInTransaction pl lc env inputs s2 = Inr (ev, s3) \<and>
    finishIdempotency (ci_idempotencyRecordId i) (ci_ballotId i) h s3 = Inr st' \<and>
    r = BallotCast (ci_ballotId i) (map_option br_id (cm_superseded a)) h ev"
  obtain p s1 where 0: "find (\<lambda>p. pt_memberId p = ci_principalMemberId i) (cm_participants a) = Some p"
    "insertIdempotency (new_idempotency (ci_idempotencyRecordId i) (vq_context q) (lit ''cast_ballot'')
      (ci_idempotencyKey i) (vq_requestSha256 q)) st = Inr s1"
    using assms unfolding cast_write_def Let_def bindr_eq_Inr_iff
    by (cases "find (\<lambda>p. pt_memberId p = ci_principalMemberId i) (cm_participants a)") auto
  have ?ex
    using assms
    apply (cases "cm_superseded a")
     apply (simp_all add: cast_write_def Let_def 0 bindr_eq_Inr_iff insert_row_Inr split_beta' del: lit_simps)
    by (metis prod.collapse)+
  then show thesis using that by blast
qed

abbreviation cast_key :: "CastBallotInput \<Rightarrow> VoteActionRequest \<Rightarrow> IdempotencyRow" where
  "cast_key i q \<equiv> new_idempotency (ci_idempotencyRecordId i) (vq_context q) (lit ''cast_ballot'') (ci_idempotencyKey i)
     (vq_requestSha256 q)"

abbreviation cast_done :: "CastBallotInput \<Rightarrow> VoteActionRequest \<Rightarrow> jstring \<Rightarrow> IdempotencyRow" where
  "cast_done i q h \<equiv> (cast_key i q)\<lparr>ir_state := idem_succeeded, ir_safeResponseId := Some (ci_ballotId i),
     ir_safeResponseSha256 := Some h\<rparr>"

text \<open>An admitted cast is the first of its idempotency key, on a visible vote of its organization.\<close>

lemma cast_admitted_first:
  assumes ad: "cast_admit env st i q = Inr (Admitted a)"
  obtains r where "lockVoteRoot env st (ci_voteId i) (lit ''vote:act'') = Some r" and "vo_organizationId r = ci_organizationId i"
    and "\<not> list_ex (same_idempotency_key (cast_key i q)) (st_idempotency st)"
proof -
  let ?replay = "checkedReplay (readIdempotency st (cx_memberId (vq_context q)) (cx_clientId (vq_context q)) (lit ''cast_ballot'')
      (ci_idempotencyKey i)) (vq_requestSha256 q)"
  obtain r where r1: "lockVoteRoot env st (ci_voteId i) (lit ''vote:act'') = Some r"
    using ad by (cases "lockVoteRoot env st (ci_voteId i) (lit ''vote:act'')") (simp_all add: cast_admit_def Let_def del: lit_simps)
  have r2: "vo_organizationId r = ci_organizationId i"
    using ad by (rule contrapos_pp) (simp add: cast_admit_def Let_def r1 del: lit_simps)
  have c: "?replay = Inr None"
  proof (cases ?replay)
    case (Inl e)
    then have "cast_admit env st i q = Inl e" by (simp add: cast_admit_def Let_def r1 r2 del: lit_simps)
    with ad show ?thesis by simp
  next
    case (Inr x)
    show ?thesis
    proof (cases x)
      case (Some p)
      with Inr have "cast_admit env st i q = Inr (Replayed (fst p) (snd p))"
        by (cases p) (simp add: cast_admit_def Let_def r1 r2 del: lit_simps)
      with ad show ?thesis by simp
    qed (use Inr in simp)
  qed
  note r = r1 r2
  have fresh: "\<not> list_ex (same_idempotency_key (cast_key i q)) (st_idempotency st)"
    using checkedReplay_none [OF c] by (intro checkedReplay_fresh) (simp add: new_idempotency_def)
  with r that show thesis by blast
qed

text \<open>An accepted cast leaves the finished record of its key behind, and no vote with another frozen part.\<close>

lemma cast_recorded:
  assumes w: "cast_write pl lc env i statement q a st = Inr (BallotCast b s h events, st')"
    and fresh: "\<not> list_ex (same_idempotency_key (cast_key i q)) (st_idempotency st)"
  shows "b = ci_ballotId i" and "st_idempotency st' = st_idempotency st @ [cast_done i q h]"
    and "map frozen_vote (st_votes st') = map frozen_vote (st_votes st)"
proof -
  let ?n = "cast_key i q"
  let ?d = "case cm_superseded a of None \<Rightarrow> [] | Some b \<Rightarrow> [supersession i b]"
  let ?f = "\<lambda>p s. s\<lparr>st_ballots := st_ballots s @ [new_ballot i statement (vq_context q) (cm_vote a) p],
     st_dispositions := st_dispositions s @ ?d,
     st_feed := resolve_feed env (vo_boardId (cm_vote a)) (ci_principalMemberId i) (ci_voteId i) (st_feed s)\<rparr>"
  obtain p s1 s2 s3 n inputs ev h' where
    1: "insertIdempotency ?n st = Inr s1" and
    2: "advanceVoteVersion (ci_voteId i) (vo_rowVersion (cm_vote a)) [vote_open] (?f p s1) = Inr (n, s2)" and
    3: "appendAuditEventsInTransaction pl lc env inputs s2 = Inr (ev, s3)" and
    4: "finishIdempotency (ci_idempotencyRecordId i) (ci_ballotId i) h' s3 = Inr st'" and
    b: "BallotCast b s h events = BallotCast (ci_ballotId i) (map_option br_id (cm_superseded a)) h' ev"
    by (rule cast_write_steps [OF w])
  from b show "b = ci_ballotId i" by simp
  from b have h: "h' = h" by simp
  note 4 = 4 [unfolded h]
  note s1 = insertIdempotency_fresh [OF 1 fresh]
  obtain votes where v: "s2 = (?f p s1)\<lparr>st_votes := votes\<rparr>" "versions_only (st_votes (?f p s1)) votes"
    using advanceVoteVersion_ok [OF 2] by blast
  obtain rows where s3: "s3 = s2\<lparr>st_audit := rows\<rparr>" using appendAudit_frame [OF 3] by blast
  have "st_idempotency s3 = st_idempotency st @ [?n]" by (simp add: s3 v(1) s1)
  from finish_record [OF _ this, of "ci_ballotId i" h st'] 4
  have fin: "st_idempotency st' = st_idempotency st @ [cast_done i q h]" "st' = s3\<lparr>st_idempotency := st_idempotency st'\<rparr>"
    by (simp_all add: new_idempotency_def)
  show "st_idempotency st' = st_idempotency st @ [cast_done i q h]" by (rule fin(1))
  have "st_votes st' = votes" using arg_cong [OF fin(2), of st_votes] by (simp add: s3 v(1))
  then show "map frozen_vote (st_votes st') = map frozen_vote (st_votes st)" using versions_only_map [OF v(2)] by (simp add: s1)
qed

lemma cast_request_context:
  "cast_request pl env i = Inr (statement, q) \<Longrightarrow>
     tx_context env = Some (vq_context q) \<and> cx_organizationId (vq_context q) = ci_organizationId i"
  by (auto simp: cast_request_def readRequestContext_def bindr_eq_Inr_iff split: option.splits if_splits)

text \<open>Property C5: casting is idempotent. When a cast has been accepted, the same cast sent again in the same request context is
  answered with the ballot and the digest of the first answer and changes nothing, as long as the record of its idempotency
  key is kept and the vote is visible to the caller; whatever else has changed by then: other votes, ballots, proxies and
  recusals, the state of the vote itself, further idempotency records, the time and all other parts of the request
  environment.\<close>

theorem repeated_cast_replays:
  assumes "castBallotInTransaction pl lc env i st = Inr (BallotCast b s h events, st')"
    and "tx_context env = Some cx" and "tx_context env' = Some cx"
    and "readIdempotency later (cx_memberId cx) (cx_clientId cx) (lit ''cast_ballot'') (ci_idempotencyKey i) =
      readIdempotency st' (cx_memberId cx) (cx_clientId cx) (lit ''cast_ballot'') (ci_idempotencyKey i)"
    and "filter (\<lambda>v. vo_id v = ci_voteId i \<and> vo_organizationId v = ci_organizationId i \<and>
      tx_boardAllowed env' (vo_boardId v)) (st_votes later) = [v]"
  shows "castBallotInTransaction pl lc env' i later = Inr (CastReplayed b h, later)"
proof -
  from assms(1) obtain statement q a where q: "cast_request pl env i = Inr (statement, q)"
    and ad: "cast_admit env st i q = Inr (Admitted a)"
    and w: "cast_write pl lc env i statement q a st = Inr (BallotCast b s h events, st')"
    by (auto simp: castBallotInTransaction_def bindr_eq_Inr_iff admission_Inr)
  have fresh: "\<not> list_ex (same_idempotency_key (cast_key i q)) (st_idempotency st)"
    by (rule cast_admitted_first [OF ad])
  note recorded = cast_recorded [OF w fresh]
  have cx: "cx = vq_context q" "cx_organizationId cx = ci_organizationId i"
    using cast_request_context [OF q] assms(2) by simp_all
  have rd: "readIdempotency later (cx_memberId (vq_context q)) (cx_clientId (vq_context q)) (lit ''cast_ballot'') (ci_idempotencyKey i) =
      Some (cast_done i q h)"
    using read_appended [OF fresh, of st' "cast_done i q h" "[]"] recorded(2) assms(4)
    by (simp add: new_idempotency_def same_idempotency_key_def cx(1))
  have "vo_organizationId v = ci_organizationId i" using assms(5) [THEN arg_cong, of set] by auto
  then obtain r where r: "lockVoteRoot env' later (ci_voteId i) (lit ''vote:act'') = Some r"
      "vo_organizationId r = ci_organizationId i"
    using assms(5) by (simp add: lockVoteRoot_def assms(3) cx(2) VoteRow.defs del: lit_simps)
  have "readRequestContext env' = readRequestContext env" by (simp add: readRequestContext_def assms(2,3))
  with q have q': "cast_request pl env' i = Inr (statement, q)" by (simp only: cast_request_def)
  have "Sha256HexSchema (vq_requestSha256 q)" by (rule cast_request_digest [OF q])
  then have "checkedReplay (Some (cast_done i q h)) (vq_requestSha256 q) = Inr (Some (ci_ballotId i, h))"
    by (simp add: checkedReplay_done new_idempotency_def safeHashEqual_iff)
  with r rd have "cast_admit env' later i q = Inr (Replayed (ci_ballotId i) h)"
    by (simp add: cast_admit_def Let_def del: lit_simps)
  with q' recorded(1) show ?thesis by (simp add: castBallotInTransaction_def)
qed

theorem repeated_cast_replays_witness:
  "\<exists>st h. reachable plain_platform wit_lc st \<and> is_excluded st (uid 6) (uid 12) \<and>
     castBallotInTransaction plain_platform wit_lc (wit_env 12) wit_cast st = Inr (CastReplayed (uid 32) h, st)"
proof -
  obtain h h' rows rows' h'' events events' rows'' where
    c: "castBallotInTransaction plain_platform wit_lc (wit_env 12) wit_cast (wit_granted h rows) =
      Inr (BallotCast (uid 32) None h' events, wit_voted h h' rows')"
    and r: "reachable plain_platform wit_lc (wit_recused h h' h'' rows'')"
    by (rule wit_run)
  let ?later = "wit_recused h h' h'' rows''"
  have d: "readIdempotency ?later (uid 12) (uid 8) (lit ''cast_ballot'') (ci_idempotencyKey wit_cast) =
      readIdempotency (wit_voted h h' rows') (uid 12) (uid 8) (lit ''cast_ballot'') (ci_idempotencyKey wit_cast)"
    by (simp add: readIdempotency_def wit_recused_def wit_voted_def finished_def wit_idempotency_def new_idempotency_def del: lit_simps)
  have f: "filter (\<lambda>v. vo_id v = ci_voteId wit_cast \<and> vo_organizationId v = ci_organizationId wit_cast \<and>
      tx_boardAllowed (wit_env 12) (vo_boardId v)) (st_votes ?later) = [wit_vote\<lparr>vo_rowVersion := 4\<rparr>]"
    by (simp add: wit_recused_def wit_vote_def)
  have x: "is_excluded ?later (uid 6) (uid 12)"
    by (simp add: wit_recused_def is_excluded_def current_exclusion_def later_exclusion_def new_exclusion_def wit_admission_def)
  have m: "tx_context (wit_env 12) = Some (wit_context 12)" "cx_memberId (wit_context 12) = uid 12"
    "cx_clientId (wit_context 12) = uid 8"
    by simp_all
  have "castBallotInTransaction plain_platform wit_lc (wit_env 12) wit_cast ?later = Inr (CastReplayed (uid 32) h', ?later)"
    by (rule repeated_cast_replays [OF c m(1) m(1) _ f]) (unfold m, rule d)
  with r x show ?thesis by blast
qed

lemma steps_reachable: "(vote_step pl lc)\<^sup>*\<^sup>* st st' \<Longrightarrow> reachable pl lc st \<Longrightarrow> reachable pl lc st'"
  by (induction rule: rtranclp_induct) (auto intro: reachable_step)

text \<open>Property C6: the audit log is append-only and stays verifiable. Whatever transactions follow, the log of the later
  store continues the log of the earlier one event for event, and the verifier accepts it as a whole, reporting
  its length and the hash of its last event.\<close>

theorem reachable_audit_valid:
  assumes "reachable pl lc st" and "(vote_step pl lc)\<^sup>*\<^sup>* st later"
  shows "(\<exists>events. audit_log later = audit_log st @ events) \<and>
    verifyChain pl lc (audit_log later) None = ValidChain (int (length (audit_log later))) (log_head (audit_log later))"
  using reachable_inv [OF steps_reachable [OF assms(2,1)]] steps_grow [OF assms(2)]
  by (simp add: grows_def vote_inv_def verifyChain_ok_iff)

theorem reachable_audit_valid_witness:
  "\<exists>st. verifyChain plain_platform wit_lc (audit_log st) None = ValidChain (int (length (audit_log st))) (log_head (audit_log st)) \<and>
     wit_ballot_row \<in> set (st_ballots st)"
proof -
  obtain h h' rows rows' events where "reachable plain_platform wit_lc (wit_granted h rows)"
    and "castBallotInTransaction plain_platform wit_lc (wit_env 12) wit_cast (wit_granted h rows) =
      Inr (BallotCast (uid 32) None h' events, wit_voted h h' rows')"
    by (rule wit_run)
  then have steps: "(vote_step plain_platform wit_lc)\<^sup>*\<^sup>* (wit_granted h rows) (wit_voted h h' rows')"
    by (intro r_into_rtranclp cast_step)
  have "wit_ballot_row \<in> set (st_ballots (wit_voted h h' rows'))" by (simp add: wit_voted_def)
  with reachable_audit_valid [OF \<open>reachable plain_platform wit_lc (wit_granted h rows)\<close> steps] show ?thesis by blast
qed

end
