(* ===== verification/Close_Payload.thy ===== *)
theory Close_Payload
  imports Certificate_Bundle Vote_Properties
begin

text \<open>
  The certificate payload a vote is closed with: \<^verbatim>\<open>buildClosePayload\<close> of \<^verbatim>\<open>lib/db/src/transactions/vote-close.ts\<close>, around
  the checks and the tally of \<open>close_tally\<close>, and the bundle \<^verbatim>\<open>verifyPublicPersistedVoteCertificateInTransaction\<close> compares
  with. Digest columns are kept as the hexadecimal text of their bytes, fractions and weights as numbers. The theory ends with
  the two ends of a vote joined: what is built from a reachable store is accepted by the offline check.
\<close>

section \<open>The row, the context and the result\<close>

record CloseRow = LockedCloseRow +
  lw_voteTitle :: jstring
  lw_deadlineAt :: jstring
  lw_resolutionVersionId :: jstring
  lw_resolutionVersion :: int
  lw_resolutionText :: jstring
  lw_resolutionSha256 :: jstring
  lw_decisionPackageVersion :: int
  lw_submissionManifestSha256 :: jstring
  lw_documentManifestSha256 :: jstring
  lw_questionCutoffSha256 :: jstring
  lw_governanceProfileId :: jstring
  lw_governanceProfileSha256 :: jstring
  lw_rulesetId :: jstring
  lw_rulesetSha256 :: jstring
  lw_matterEvaluationId :: jstring
  lw_matterEvaluationResultSha256 :: jstring
  lw_selectedRulesetRuleId :: jstring
  lw_selectedRulesetRuleSha256 :: jstring
  lw_ruleOverrideId :: "jstring option"
  lw_ruleOverrideSha256 :: "jstring option"
  lw_approvalRuleId :: jstring
  lw_approvalRuleSha256 :: jstring
  lw_instanceId :: jstring
  lw_signingKeyId :: jstring
  lw_signingKid :: jstring
  lw_signingPublicJwk :: "(jstring \<times> json) list"

record ClosePayloadContext =
  cc_outcomeId :: jstring
  cc_certificateId :: jstring
  cc_certificatePublicId :: jstring
  cc_closeActorMemberId :: "jstring option"
  cc_closeConsentRecordId :: "jstring option"
  cc_closeConsentRecordSha256 :: "jstring option"
  cc_closingAuditEventId :: jstring
  cc_closingAuditSequence :: jstring
  cc_closingAuditHash :: jstring
  cc_preparedAt :: jstring

record BuiltClosePayload =
  bp_payload :: VoteCertificatePayload
  bp_payloadSha256 :: jstring
  bp_canonicalPayload :: "byte list"
  bp_tally :: VoteTally
  bp_tallySha256 :: jstring

section \<open>The entries of the payload\<close>

definition decimal_fraction :: "Rational \<Rightarrow> DecimalFraction" where
  "decimal_fraction r = \<lparr>df_numerator = dec_int (numerator r), df_denominator = dec_int (denominator r)\<rparr>"

definition close_rule :: "'r CloseRow_scheme \<Rightarrow> CertificateApprovalRule" where
  "close_rule row = \<lparr>ca_id = lw_approvalRuleId row, ca_canonicalSha256 = lw_approvalRuleSha256 row,
     ca_approval = decimal_fraction (ar_approval (vo_rule row)), ca_quorum = decimal_fraction (ar_quorum (vo_rule row)),
     ca_approvalDenominator = ar_approvalDenominator (vo_rule row),
     ca_abstentionsCountForQuorum = ar_abstentionsCountForQuorum (vo_rule row),
     ca_tieBehavior = ar_tieBehavior (vo_rule row), ca_proxyPolicy = vo_proxyPolicy row, ca_closeMode = vo_closeMode row\<rparr>"

definition seat_entry :: "ElectorateRow \<Rightarrow> CertificateElectorateEntry" where
  "seat_entry e = \<lparr>ce_memberId = el_memberId e, ce_membershipVersionId = el_membershipVersionId e,
     ce_isChair = el_isChair e, ce_votingWeight = dec_int (el_votingWeight e), ce_eligibilitySha256 = el_eligibilitySha256 e\<rparr>"

definition exclusion_entry :: "RowColumns \<Rightarrow> ExclusionRow \<times> jstring \<Rightarrow> CertificateExclusionEntry" where
  "exclusion_entry cols = (\<lambda>(x, h). \<lparr>cx_id = xr_id x, cx_memberId = xr_memberId x, cx_version = xr_version x,
     cx_state = xr_state x, cx_reasonSha256 = sha256Hex (Text (xr_reason x)), cx_actorMemberId = xr_actorMemberId x,
     cx_consentRecordId = xr_consentRecordId x, cx_consentRecordSha256 = h, cx_effectiveAt = rc_effectiveAt cols (xr_id x)\<rparr>)"

definition close_exclusion ::
    "platform \<Rightarrow> RowColumns \<Rightarrow> ExclusionRow \<times> jstring \<Rightarrow> CertificateExclusionEntry result" where
  "close_exclusion pl cols x =
     bindr (canonical_string pl (xr_reason (fst x))) (\<lambda>reason.
     Inr ((exclusion_entry cols x)\<lparr>cx_reasonSha256 := sha256Hex (Text reason)\<rparr>))"

definition revocation_entry :: "RowColumns \<Rightarrow> RevocationRow \<times> jstring option \<Rightarrow> CertificateProxyRevocation" where
  "revocation_entry cols = (\<lambda>(r, h). \<lparr>cv_id = rv_id r, cv_effect = rc_revocationEffect cols (rv_id r),
     cv_consentRecordId = Some (rv_consentRecordId r), cv_consentRecordSha256 = h,
     cv_revokedAt = rc_revokedAt cols (rv_id r)\<rparr>)"

definition proxy_entry :: "RowColumns \<Rightarrow> ProxyEvidence \<Rightarrow> CertificateProxyEntry" where
  "proxy_entry cols p = (let g = pe_grant p in
     \<lparr>cp_id = gr_id g, cp_principalMemberId = gr_principalMemberId g, cp_holderMemberId = gr_holderMemberId g,
      cp_policy = gr_policy g, cp_consentRecordId = gr_consentRecordId g,
      cp_consentRecordSha256 = pe_consentRecordSha256 p, cp_grantedAt = rc_grantedAt cols (gr_id g),
      cp_expiresAt = map_option (\<lambda>_. rc_expiresAt cols (gr_id g)) (gr_expiresAt g),
      cp_revocation = map_option (revocation_entry cols) (pe_revocation p)\<rparr>)"

definition disposition_entry :: "RowColumns \<Rightarrow> DispositionRow \<Rightarrow> CertificateBallotDisposition" where
  "disposition_entry cols d = \<lparr>cd_id = dr_id d, cd_effect = dr_effect d, cd_supersedingBallotId = dr_supersedingBallotId d,
     cd_replacementVoteId = rc_replacementVoteId cols (dr_id d), cd_auditEventId = Some (dr_auditEventId d),
     cd_createdAt = rc_createdAt cols (dr_id d)\<rparr>"

definition ballot_entry :: "RowColumns \<Rightarrow> BallotEvidence \<Rightarrow> CertificateBallotEntry" where
  "ballot_entry cols x = (let b = be_ballot x in
     \<lparr>cb_id = br_id b, cb_principalMemberId = br_principalMemberId b, cb_casterMemberId = br_casterMemberId b,
      cb_choice = br_choice b, cb_statementSha256 = br_statementSha256 b, cb_votingWeight = dec_int (br_votingWeight b),
      cb_source = br_source b, cb_proxyGrantId = br_proxyGrantId b, cb_consentRecordId = br_consentRecordId b,
      cb_consentRecordSha256 = be_consentRecordSha256 x, cb_castAt = rc_castAt cols (br_id b),
      cb_disposition = map_option (disposition_entry cols) (be_disposition x)\<rparr>)"

section \<open>The payload\<close>

definition hex_column :: "jstring \<Rightarrow> jstring result" where
  "hex_column s =
     (if length s \<noteq> 64 then throw (Error ''persisted SHA-256 value has an invalid length'') else Inr s)"

definition close_digests :: "'r CloseRow_scheme \<Rightarrow> jstring list" where
  "close_digests row =
     [lw_resolutionSha256 row, vo_packageSha256 row, lw_submissionManifestSha256 row, lw_documentManifestSha256 row,
      lw_questionCutoffSha256 row, lw_governanceProfileSha256 row, lw_rulesetSha256 row,
      lw_matterEvaluationResultSha256 row, lw_selectedRulesetRuleSha256 row] @
     (case lw_ruleOverrideSha256 row of None \<Rightarrow> [] | Some h \<Rightarrow> [h]) @
     [lw_approvalRuleSha256 row, vo_electorateSha256 row]"

definition close_payload ::
    "'r CloseRow_scheme \<Rightarrow> VoteEvidence \<Rightarrow> ClosePayloadContext \<Rightarrow> CertificateExclusionEntry list \<Rightarrow> jstring \<Rightarrow>
     VoteTally \<Rightarrow> jstring \<Rightarrow> VoteCertificatePayload" where
  "close_payload row e context exclusions consentSet tally tallySha256 =
     \<lparr>vp_certificateId = cc_certificateId context, vp_publicId = cc_certificatePublicId context,
      vp_outcomeId = cc_outcomeId context, vp_instanceId = lw_instanceId row, vp_organizationId = vo_organizationId row,
      vp_boardId = vo_boardId row,
      vp_vote = \<lparr>cw_id = vo_id row, cw_title = lw_voteTitle row, cw_resolutionVersionId = lw_resolutionVersionId row,
        cw_resolutionVersion = lw_resolutionVersion row, cw_resolutionText = lw_resolutionText row,
        cw_resolutionSha256 = lw_resolutionSha256 row, cw_decisionPackageId = vo_packageId row,
        cw_decisionPackageVersion = lw_decisionPackageVersion row, cw_decisionPackageSha256 = vo_packageSha256 row,
        cw_closeMode = vo_closeMode row, cw_deadlineAt = lw_deadlineAt row\<rparr>,
      vp_packageEvidence = \<lparr>cm_submissionManifestSha256 = lw_submissionManifestSha256 row,
        cm_documentManifestSha256 = lw_documentManifestSha256 row, cm_questionCutoffSha256 = lw_questionCutoffSha256 row\<rparr>,
      vp_governance = \<lparr>cg_governanceProfileId = lw_governanceProfileId row,
        cg_governanceProfileSha256 = lw_governanceProfileSha256 row, cg_rulesetId = lw_rulesetId row,
        cg_rulesetSha256 = lw_rulesetSha256 row, cg_matterEvaluationId = lw_matterEvaluationId row,
        cg_matterEvaluationResultSha256 = lw_matterEvaluationResultSha256 row,
        cg_selectedRulesetRuleId = lw_selectedRulesetRuleId row,
        cg_selectedRulesetRuleSha256 = lw_selectedRulesetRuleSha256 row, cg_ruleOverrideId = lw_ruleOverrideId row,
        cg_ruleOverrideSha256 = lw_ruleOverrideSha256 row, cg_approvalRule = close_rule row\<rparr>,
      vp_electorateSha256 = vo_electorateSha256 row, vp_electorate = map seat_entry (ve_electorate e),
      vp_exclusions = exclusions, vp_proxies = map (proxy_entry (ve_columns e)) (ve_proxies e),
      vp_ballots = map (ballot_entry (ve_columns e)) (ve_ballots e), vp_consentSetSha256 = consentSet,
      vp_tally = canonical_tally tally, vp_tallySha256 = tallySha256, vp_outcome = vt_outcome tally,
      vp_close = \<lparr>cl_actorMemberId = cc_closeActorMemberId context, cl_consentRecordId = cc_closeConsentRecordId context,
        cl_consentRecordSha256 = cc_closeConsentRecordSha256 context, cl_clockSampleId = the (lc_clockSampleId row),
        cl_measuredAt = the (lc_clockMeasuredAt row), cl_driftMicroseconds = the (lc_clockDriftMicroseconds row),
        cl_validUntil = the (lc_clockValidUntil row)\<rparr>,
      vp_closingAuditEventId = cc_closingAuditEventId context, vp_closingAuditSequence = cc_closingAuditSequence context,
      vp_closingAuditHash = cc_closingAuditHash context, vp_preparedAt = cc_preparedAt context,
      vp_keyId = lw_signingKid row, vp_signingKeyId = lw_signingKeyId row\<rparr>"

definition buildClosePayload ::
    "platform \<Rightarrow> (jstring \<Rightarrow> jstring \<Rightarrow> int) \<Rightarrow> 'r CloseRow_scheme \<Rightarrow> VoteEvidence \<Rightarrow> ClosePayloadContext \<Rightarrow>
     BuiltClosePayload result" where
  "buildClosePayload pl lc row e context =
     bindr (close_tally pl lc row e) (\<lambda>(tally, tallySha256).
     bindr (mapr hex_column (close_digests row)) (\<lambda>_.
     bindr (mapr (close_exclusion pl (ve_columns e)) (ve_exclusions e)) (\<lambda>exclusions.
     bindr (consentSetSha256 pl e (cc_closeConsentRecordSha256 context)) (\<lambda>consentSet.
     bindr (zparse (VoteCertificatePayloadSchema pl)
         (close_payload row e context exclusions consentSet tally tallySha256)) (\<lambda>payload.
     bindr (canonicalVoteCertificatePayload pl payload) (\<lambda>text.
     bindr (canonicalSha256 pl (certificate_json payload)) (\<lambda>sha.
     Inr \<lparr>bp_payload = payload, bp_payloadSha256 = sha, bp_canonicalPayload = utf8_encode text, bp_tally = tally,
       bp_tallySha256 = tallySha256\<rparr>)))))))"

text \<open>The certificate and the bundle of a payload with its signature.\<close>

definition built_certificate :: "BuiltClosePayload \<Rightarrow> jstring \<Rightarrow> VoteCertificate" where
  "built_certificate built signature = \<lparr>vc_payload = bp_payload built, vc_payloadSha256 = bp_payloadSha256 built,
     vc_signatureBase64Url = signature\<rparr>"

definition signing_key :: "'r CloseRow_scheme \<Rightarrow> OfflineEvidenceKey" where
  "signing_key row = \<lparr>ok_id = lw_signingKeyId row, ok_kid = lw_signingKid row, ok_public_jwk = lw_signingPublicJwk row\<rparr>"

definition certificate_bundle ::
    "'r CloseRow_scheme \<Rightarrow> BuiltClosePayload \<Rightarrow> jstring \<Rightarrow> jstring \<Rightarrow> OfflineCertificateBundle" where
  "certificate_bundle row built signature issuedAt = (let p = bp_payload built in
     \<lparr>ob_certificate_id = vp_certificateId p, ob_vote_id = cw_id (vp_vote p), ob_outcome_id = vp_outcomeId p,
      ob_public_id = vp_publicId p, ob_canonical_payload = p, ob_payload_sha256 = bp_payloadSha256 built,
      ob_signature_base64url = signature, ob_signing_key = signing_key row, ob_issued_at = issuedAt\<rparr>)"

section \<open>Excluded members have a seat\<close>

definition exclusions_seated :: "VoteStore \<Rightarrow> bool" where
  "exclusions_seated st \<longleftrightarrow> list_all (\<lambda>x. in_electorate st (xr_voteId x) (xr_memberId x)) (st_exclusions st)"

lemma seated_kept:
  "exclusions_seated st \<Longrightarrow> st_exclusions st' = st_exclusions st \<Longrightarrow>
     set (st_electorate st) \<subseteq> set (st_electorate st') \<Longrightarrow> exclusions_seated st'"
  by (auto simp: exclusions_seated_def list_all_iff in_electorate_def)

lemma recusal_admit_seated:
  assumes "recusal_admit env st i q = Inr (RecusalAdmitted a)"
  shows "in_electorate st (mi_voteId i) (mi_memberId i)"
proof -
  let ?lock = "lock_vote_for_recusal env st (vq_context q) (mi_voteId i) (mi_memberId i) (mi_consentRecordId i) (vq_consentSha256 q)"
  from assms obtain l where l: "?lock = [l]" by (auto simp: recusal_admit_def Let_def split: list.splits)
  have "l \<in> set ?lock" unfolding l by simp
  then show ?thesis by (force simp: lock_vote_for_recusal_def in_electorate_def)
qed

lemma step_keeps_seated:
  assumes "vote_step pl lc st st'" and "exclusions_seated st"
  shows "exclusions_seated st'"
  using assms(1)
proof cases
  case (grant_step env i r)
  then consider "st' = st" | q vote where "grant_write pl lc env i q vote st = Inr (r, st')"
    by (auto simp: grantProxyInTransaction_def bindr_eq_Inr_iff admission_Inr)
  then show ?thesis
    using assms(2) by cases (auto simp: same_basis_def same_stages_def intro: seated_kept dest!: grant_write_ok)
next
  case (revoke_step env i r)
  then consider "st' = st" | reason q vote where "revoke_write pl lc env i reason q vote st = Inr (r, st')"
    by (auto simp: revokeProxyInTransaction_def bindr_eq_Inr_iff admission_Inr)
  then show ?thesis
    using assms(2) by cases (auto simp: same_basis_def same_stages_def intro: seated_kept dest!: revoke_write_ok)
next
  case (cast_step env i r)
  then consider "st' = st" | statement q a where "cast_write pl lc env i statement q a st = Inr (r, st')"
    by (auto simp: castBallotInTransaction_def bindr_eq_Inr_iff admission_Inr)
  then show ?thesis
  proof cases
    case 2
    from cast_write_ok [OF 2] have "same_basis st st'" "same_stages st st'" by blast+
    then show ?thesis using seated_kept [OF assms(2)] by (simp add: same_basis_def same_stages_def)
  qed (use assms(2) in simp)
next
  case (recusal_step env i r)
  from recusal_step show ?thesis
  proof (cases rule: recusal_cases)
    case (2 q a w h events)
    then have "st_exclusions st' = st_exclusions st @ [new_exclusion i q a]" "st_electorate st' = st_electorate st"
      by (simp_all add: recusal_written_def same_basis_def)
    with assms(2) recusal_admit_seated [OF 2(2)] show ?thesis
      by (simp add: exclusions_seated_def in_electorate_def new_exclusion_def)
  qed (use assms(2) in simp)
next
  case (audit_step env inputs events)
  from appendAudit_frame [OF audit_step] assms(2) show ?thesis by (auto intro: seated_kept)
qed (use assms(2) in \<open>auto intro: seated_kept\<close>)

lemma reachable_seated: "reachable pl lc st \<Longrightarrow> exclusions_seated st"
proof (induction rule: reachable.induct)
  case reachable_empty
  show ?case by (simp add: exclusions_seated_def empty_store_def)
qed (rule step_keeps_seated)

section \<open>The exclusions are in order\<close>

lemma sorted_wrt_by_key:
  "(\<And>k. sorted_wrt R (filter (\<lambda>y. f y = k) ys)) \<Longrightarrow> sorted_wrt (\<lambda>x y. f x = f y \<longrightarrow> R x y) ys"
proof (induction ys)
  case (Cons y ys)
  have "sorted_wrt R (filter (\<lambda>z. f z = k) ys)" for k
    using Cons.prems [of k] by (simp split: if_splits)
  moreover have "R y z" if "z \<in> set ys" "f y = f z" for z
    using Cons.prems [of "f y"] that by simp
  ultimately show ?case using Cons.IH by simp
qed simp

definition versions_rise :: "ExclusionRow list \<Rightarrow> bool" where
  "versions_rise xs \<longleftrightarrow> sorted_wrt (\<lambda>x y. xr_memberId x = xr_memberId y \<longrightarrow> xr_version x < xr_version y) xs"

lemma evidence_exclusion_rows:
  assumes "keys_ok st"
  shows "map fst (ve_exclusions (evidence_of cols st voteId)) = sort_key xr_memberId (sort_key xr_version (sort_key xr_id
    (filter (\<lambda>x. xr_voteId x = voteId) (st_exclusions st))))"
  unfolding evidence_of_def by (simp, rule with_consent_fst) (use assms in \<open>auto simp: keys_ok_def list_all_iff\<close>)

lemma evidence_versions_rise:
  assumes "keys_ok st"
  shows "versions_rise (map fst (ve_exclusions (evidence_of cols st voteId)))"
  unfolding versions_rise_def evidence_exclusion_rows [OF assms]
proof (rule sorted_wrt_by_key)
  fix m
  let ?rows = "filter (\<lambda>x. xr_voteId x = voteId) (st_exclusions st)"
  let ?mine = "sort_key xr_version (sort_key xr_id (filter (\<lambda>x. xr_voteId x = voteId \<and> xr_memberId x = m) (st_exclusions st)))"
  have "distinct (map (\<lambda>x. (xr_voteId x, xr_memberId x, xr_version x)) (filter (\<lambda>x. xr_voteId x = voteId \<and> xr_memberId x = m) (st_exclusions st)))"
    using assms by (simp add: keys_ok_def distinct_map_filter)
  moreover have "map (\<lambda>x. (xr_voteId x, xr_memberId x, xr_version x)) (filter (\<lambda>x. xr_voteId x = voteId \<and> xr_memberId x = m) (st_exclusions st)) =
      map (\<lambda>n. (voteId, m, n)) (map xr_version (filter (\<lambda>x. xr_voteId x = voteId \<and> xr_memberId x = m) (st_exclusions st)))"
    by simp
  ultimately have d: "distinct (map xr_version (filter (\<lambda>x. xr_voteId x = voteId \<and> xr_memberId x = m) (st_exclusions st)))"
    by (simp only: distinct_map)
  have "distinct (map xr_version ?mine)"
    by (rule mset_eq_imp_distinct_iff [THEN iffD2, OF _ d]) simp
  then have "sorted_wrt (<) (map xr_version ?mine)" by (simp add: strict_sorted_iff)
  moreover have "filter (\<lambda>x. xr_memberId x = m) (sort_key xr_memberId (sort_key xr_version (sort_key xr_id ?rows))) = ?mine"
    by (simp only: sort_key_stable) (simp add: filter_sort_key conj_commute)
  ultimately show "sorted_wrt (\<lambda>x y. xr_version x < xr_version y)
      (filter (\<lambda>x. xr_memberId x = m) (sort_key xr_memberId (sort_key xr_version (sort_key xr_id ?rows))))"
    by (simp only: sorted_wrt_map)
qed

text \<open>The offline check walks ordered exclusions of seated members to the end.\<close>

lemma offline_exclusions_walk:
  assumes "\<forall>x\<in>set xs. seat_weight p (cx_memberId x) \<noteq> None"
    and "sorted_wrt (\<lambda>x y. cx_memberId x = cx_memberId y \<longrightarrow> cx_version x < cx_version y) xs"
    and "\<forall>x\<in>set xs. \<forall>y. map_of seen (cx_memberId x) = Some y \<longrightarrow> cx_version y < cx_version x"
  shows "\<exists>ex. offline_exclusions p seen xs = Some ex \<and>
    map_of ex = map_of seen ++ map_of (rev (map (\<lambda>x. (cx_memberId x, x)) xs))"
  using assms
proof (induction xs arbitrary: seen)
  case (Cons x xs)
  let ?s = "map_set (cx_memberId x) x seen"
  have "\<exists>ex. offline_exclusions p ?s xs = Some ex \<and>
      map_of ex = map_of ?s ++ map_of (rev (map (\<lambda>x. (cx_memberId x, x)) xs))"
    by (rule Cons.IH) (use Cons.prems in auto)
  moreover have "\<not> (case map_of seen (cx_memberId x) of Some prior \<Rightarrow> cx_version x \<le> cx_version prior | None \<Rightarrow> False)"
    using Cons.prems(3) by (auto split: option.split)
  moreover have "seat_weight p (cx_memberId x) \<noteq> None" using Cons.prems(1) by simp
  moreover have "map_of ?s ++ map_of (rev (map (\<lambda>x. (cx_memberId x, x)) xs)) =
      map_of seen ++ map_of (rev (map (\<lambda>x. (cx_memberId x, x)) (x # xs)))"
    by (simp add: map_add_assoc [symmetric])
  ultimately show ?case by simp
qed simp

section \<open>The payload and the evidence\<close>

lemma map_of_rev_image: "map_of (rev (map (\<lambda>x. (f x, g x)) xs)) k = map_option g (map_of (rev (map (\<lambda>x. (f x, x)) xs)) k)"
proof -
  have "map (\<lambda>x. (f x, g x)) xs = map (\<lambda>(k, x). (k, g x)) (map (\<lambda>x. (f x, x)) xs)" by simp
  then show ?thesis by (simp only: rev_map map_of_map comp_def)
qed

lemma dec_int_unsigned: "unsigned_decimal (dec_int n) \<Longrightarrow> 0 \<le> n"
  by (rule ccontr) (simp add: unsigned_decimal_def positive_decimal_def dec_int_def is_digit_def word_le_nat_alt)

lemma decimal_int_dec_int: "0 \<le> n \<Longrightarrow> decimal_int (dec_int n) = n"
  by (simp add: decimal_int_def dec_int_def dec_val_dec_nat)

lemma positive_unsigned: "positive_decimal s \<Longrightarrow> unsigned_decimal s"
  by (simp add: unsigned_decimal_def)

lemma close_tally_Inr:
  assumes "close_tally pl lc row e = Inr (t, sha)"
  obtains effective where "mapr (check_close_ballot pl e row) (ve_ballots e) = Inr effective"
    and "tallyVote (close_seats e) (concat effective) (vo_rule row) = Inr t"
    and "canonicalSha256 pl (canonicalVoteTally t) = Inr sha"
proof -
  from assms obtain effective where e: "mapr (check_close_ballot pl e row) (ve_ballots e) = Inr effective"
    and t: "bindr (case tallyVote (close_seats e) (concat effective) (vo_rule row) of
        Inl x \<Rightarrow> throw (integrity_failure (''persisted vote evidence cannot be tallied: '' @ js_message x))
      | Inr t \<Rightarrow> Inr t) (\<lambda>tally. bindr (canonicalSha256 pl (canonicalVoteTally tally)) (\<lambda>sha. Inr (tally, sha))) = Inr (t, sha)"
    by (auto simp: close_tally_def bindr_eq_Inr_iff guard_Inr split del: if_split)
  from t show thesis
    by (cases "tallyVote (close_seats e) (concat effective) (vo_rule row)") (auto simp: bindr_eq_Inr_iff intro: that [OF e])
qed

lemma close_exclusions_entries:
  "mapr (close_exclusion pl cols) xs = Inr ys \<Longrightarrow> ys = map (exclusion_entry cols) xs"
proof (induction xs arbitrary: ys)
  case (Cons x xs)
  have "y = exclusion_entry cols x" if "close_exclusion pl cols x = Inr y" for y
    using that by (cases x) (auto simp: close_exclusion_def bindr_eq_Inr_iff exclusion_entry_def dest!: canonical_string_id)
  with Cons show ?case by (auto simp: bindr_eq_Inr_iff)
qed simp

lemma buildClosePayload_Inr:
  assumes "buildClosePayload pl lc row e context = Inr built"
  obtains t sha consentSet p where "close_tally pl lc row e = Inr (t, sha)"
    and "p = close_payload row e context (map (exclusion_entry (ve_columns e)) (ve_exclusions e)) consentSet t sha"
    and "VoteCertificatePayloadSchema pl p" and "certificate_writable pl p"
    and "built = \<lparr>bp_payload = p, bp_payloadSha256 = hex_of_bytes (sha256 (certificate_message p)),
      bp_canonicalPayload = certificate_message p, bp_tally = t, bp_tallySha256 = sha\<rparr>"
proof -
  from assms obtain t sha exs consentSet p u h where 1: "close_tally pl lc row e = Inr (t, sha)"
    "mapr (close_exclusion pl (ve_columns e)) (ve_exclusions e) = Inr exs"
    "p = close_payload row e context exs consentSet t sha" "VoteCertificatePayloadSchema pl p"
    "canonicalVoteCertificatePayload pl p = Inr u" "canonicalSha256 pl (certificate_json p) = Inr h"
    "built = \<lparr>bp_payload = p, bp_payloadSha256 = h, bp_canonicalPayload = utf8_encode u, bp_tally = t, bp_tallySha256 = sha\<rparr>"
    by (auto simp: buildClosePayload_def bindr_eq_Inr_iff)
  from 1(4-7) have "certificate_writable pl p" "built = \<lparr>bp_payload = p, bp_payloadSha256 = hex_of_bytes (sha256 (certificate_message p)),
      bp_canonicalPayload = certificate_message p, bp_tally = t, bp_tallySha256 = sha\<rparr>"
    by (simp_all add: certificate_text_iff certificate_digest_iff certificate_message_def canonical_bytes_def)
  with 1(1,3,4) close_exclusions_entries [OF 1(2)] show thesis by (intro that) simp_all
qed

lemma payload_seat_weight:
  "vp_electorate p = map seat_entry es \<Longrightarrow>
     seat_weight p m = map_option (\<lambda>r. dec_int (el_votingWeight r)) (map_of (rev (map (\<lambda>r. (el_memberId r, r)) es)) m)"
  by (simp add: seat_weight_def seat_entry_def comp_def map_of_rev_image [where g = "\<lambda>r. dec_int (el_votingWeight r)"])

lemma payload_proxies:
  "map_of (rev (map (\<lambda>q. (cp_id q, q)) (map (proxy_entry cols) ps))) k =
     map_option (proxy_entry cols) (map_of (rev (map (\<lambda>p. (gr_id (pe_grant p), p)) ps)) k)"
proof -
  have "cp_id (proxy_entry cols p) = gr_id (pe_grant p)" for p by (simp add: proxy_entry_def Let_def)
  then have "map (\<lambda>q. (cp_id q, q)) (map (proxy_entry cols) ps) = map (\<lambda>p. (gr_id (pe_grant p), proxy_entry cols p)) ps"
    by simp
  then show ?thesis by (simp only: map_of_rev_image [where g = "proxy_entry cols"])
qed

lemma checked_ballot_offline:
  assumes "check_close_ballot pl e row x = Inr ys"
    and "vp_electorate p = map seat_entry (ve_electorate e)" and "vp_proxies p = map (proxy_entry cols) (ve_proxies e)"
    and "ca_proxyPolicy (cg_approvalRule (vp_governance p)) = vo_proxyPolicy row"
  shows "offline_ballot_ok p (ballot_entry cols x)"
    and "ys = (if be_disposition x = None then [cast_entry (be_ballot x)] else [])"
proof -
  let ?b = "be_ballot x"
  from assms(1) obtain s where s: "map_of (rev (map (\<lambda>r. (el_memberId r, r)) (ve_electorate e))) (br_principalMemberId ?b) = Some s"
    "br_votingWeight ?b = el_votingWeight s" and a: "ballot_attribution_check e row ?b = Inr ()"
    and y: "ys = (if be_disposition x = None then [cast_entry ?b] else [])"
    by (auto simp: check_close_ballot_def Let_def bindr_eq_Inr_iff cast_entry_def split: if_splits option.splits)
  from y show "ys = (if be_disposition x = None then [cast_entry ?b] else [])" .
  have w: "seat_weight p (br_principalMemberId ?b) = Some (dec_int (br_votingWeight ?b))"
    by (simp add: payload_seat_weight [OF assms(2)] s)
  have b: "cb_source (ballot_entry cols x) = br_source ?b" "cb_principalMemberId (ballot_entry cols x) = br_principalMemberId ?b"
    "cb_casterMemberId (ballot_entry cols x) = br_casterMemberId ?b" "cb_proxyGrantId (ballot_entry cols x) = br_proxyGrantId ?b"
    "cb_votingWeight (ballot_entry cols x) = dec_int (br_votingWeight ?b)"
    by (simp_all add: ballot_entry_def Let_def)
  show "offline_ballot_ok p (ballot_entry cols x)"
  proof (cases "br_source ?b")
    case own_ballot
    then show ?thesis by (simp add: offline_ballot_ok_def b w)
  next
    case proxy_ballot
    with a obtain k g where g: "br_proxyGrantId ?b = Some k"
      "map_of (rev (map (\<lambda>p. (gr_id (pe_grant p), pe_grant p)) (ve_proxies e))) k = Some g"
      "gr_principalMemberId g = br_principalMemberId ?b" "gr_holderMemberId g = br_casterMemberId ?b"
      "vo_proxyPolicy row = Policy (gr_policy g)"
      by (auto simp: ballot_attribution_check_def Let_def ensure_def split: option.splits if_splits)
    from g(2) obtain q where q: "map_of (rev (map (\<lambda>p. (gr_id (pe_grant p), p)) (ve_proxies e))) k = Some q" "pe_grant q = g"
      unfolding map_of_rev_image [where g = pe_grant] by auto
    have "map_of (rev (map (\<lambda>q. (cp_id q, q)) (vp_proxies p))) k = Some (proxy_entry cols q)"
      by (simp only: assms(3) payload_proxies q(1) option.map)
    then show ?thesis
      using g(3-5) by (simp add: offline_ballot_ok_def b w g(1) assms(4)) (simp add: proxy_entry_def Let_def q(2))
  qed
qed

section \<open>The offline check accepts what is built\<close>

lemma certificate_rule_close_rule:
  assumes "CertificateApprovalRuleSchema (close_rule row)"
  shows "certificate_rule (close_rule row) = vo_rule row"
proof -
  have "0 \<le> numerator (ar_approval (vo_rule row))" "0 \<le> denominator (ar_approval (vo_rule row))"
    "0 \<le> numerator (ar_quorum (vo_rule row))" "0 \<le> denominator (ar_quorum (vo_rule row))"
    using assms by (auto simp: CertificateApprovalRuleSchema_def close_rule_def DecimalFractionSchema_def decimal_fraction_def
        intro: dec_int_unsigned positive_unsigned)
  then show ?thesis
    by (simp add: certificate_rule_def close_rule_def fraction_of_def decimal_fraction_def decimal_int_dec_int)
qed

lemma payload_seats:
  assumes "list_all CertificateElectorateEntrySchema (map seat_entry (ve_electorate e))"
    and "vp_electorate p = map seat_entry (ve_electorate e)"
    and "map_of ex = map_of (rev (map (\<lambda>x. (cx_memberId x, x)) (map (exclusion_entry cols) (ve_exclusions e))))"
  shows "certificate_seats p ex = close_seats e"
proof -
  have x: "map (\<lambda>x. (cx_memberId x, x)) (map (exclusion_entry cols) (ve_exclusions e)) =
      map (\<lambda>x. (xr_memberId (fst x), exclusion_entry cols x)) (ve_exclusions e)"
    by (simp add: exclusion_entry_def split_beta')
  have "map_option cx_state (map_of ex m) = map_option xr_state (latest_exclusion e m)" for m
    unfolding assms(3) x latest_exclusion_def split_beta' map_of_rev_image [where g = "exclusion_entry cols"]
      map_of_rev_image [where g = fst]
    by (simp add: option.map_comp comp_def exclusion_entry_def split_beta')
  moreover have "decimal_int (dec_int (el_votingWeight r)) = el_votingWeight r" if "r \<in> set (ve_electorate e)" for r
    using assms(1) that by (intro decimal_int_dec_int dec_int_unsigned positive_unsigned)
      (auto simp: list_all_iff CertificateElectorateEntrySchema_def seat_entry_def)
  ultimately show ?thesis
    by (auto simp: certificate_seats_def close_seats_def assms(2) seat_entry_def)
qed

lemma payload_ballots:
  assumes "list_all2 (\<lambda>x ys. check_close_ballot pl e row x = Inr ys) xs effective"
    and "vp_electorate p = map seat_entry (ve_electorate e)" and "vp_proxies p = map (proxy_entry cols) (ve_proxies e)"
    and "ca_proxyPolicy (cg_approvalRule (vp_governance p)) = vo_proxyPolicy row"
  shows "list_all (offline_ballot_ok p) (map (ballot_entry cols) xs)"
    and "map (\<lambda>b. \<lparr>eb_principalMemberId = cb_principalMemberId b, eb_casterMemberId = cb_casterMemberId b,
        eb_choice = cb_choice b, eb_source = cb_source b\<rparr>)
      (filter (\<lambda>b. cb_disposition b = None) (map (ballot_entry cols) xs)) = concat effective"
  using assms(1)
proof (induction rule: list_all2_induct)
  case (Cons x xs y ys)
  note c = checked_ballot_offline [OF Cons.hyps(1) assms(2-4)]
  {
    case 1
    with Cons.IH(1) c(1) show ?case by simp
  next
    case 2
    with Cons.IH(2) c(2) show ?case by (simp add: ballot_entry_def Let_def cast_entry_def)
  }
qed simp_all

lemma built_payload_accepted:
  assumes b: "buildClosePayload pl lc row e context = Inr built"
    and seated: "\<forall>x\<in>set (ve_exclusions e). xr_memberId (fst x) \<in> el_memberId ` set (ve_electorate e)"
    and rise: "versions_rise (map fst (ve_exclusions e))"
    and key: "sg_import sg (lw_signingPublicJwk row) = Some key"
    and sig: "verifyVoteCertificate pl sg (built_certificate built signature) key = Inr True"
  shows "offline_payload_check pl sg (certificate_bundle row built signature issuedAt) (signing_key row) = Inr True"
proof -
  let ?cols = "ve_columns e"
  obtain t sha c p where t: "close_tally pl lc row e = Inr (t, sha)"
    and p: "p = close_payload row e context (map (exclusion_entry ?cols) (ve_exclusions e)) c t sha"
    and v: "VoteCertificatePayloadSchema pl p"
    and built: "built = \<lparr>bp_payload = p, bp_payloadSha256 = hex_of_bytes (sha256 (certificate_message p)),
      bp_canonicalPayload = certificate_message p, bp_tally = t, bp_tallySha256 = sha\<rparr>"
    by (rule buildClosePayload_Inr [OF b])
  have f: "vp_electorate p = map seat_entry (ve_electorate e)" "vp_proxies p = map (proxy_entry ?cols) (ve_proxies e)"
    "vp_ballots p = map (ballot_entry ?cols) (ve_ballots e)" "cg_approvalRule (vp_governance p) = close_rule row"
    "vp_exclusions p = map (exclusion_entry ?cols) (ve_exclusions e)" "vp_tally p = canonical_tally t"
    by (simp_all add: p close_payload_def)
  have pol: "ca_proxyPolicy (cg_approvalRule (vp_governance p)) = vo_proxyPolicy row" by (simp add: f(4) close_rule_def)
  note s = schema_fields [OF v, unfolded certificate_fields_ok_def certificate_governance_ok_def f]
  have "\<exists>ex. offline_exclusions p [] (vp_exclusions p) = Some ex \<and>
      map_of ex = map_of [] ++ map_of (rev (map (\<lambda>x. (cx_memberId x, x)) (vp_exclusions p)))"
  proof (rule offline_exclusions_walk)
    show "\<forall>x\<in>set (vp_exclusions p). seat_weight p (cx_memberId x) \<noteq> None"
    proof
      fix x
      assume "x \<in> set (vp_exclusions p)"
      then obtain y where "y \<in> set (ve_exclusions e)" "cx_memberId x = xr_memberId (fst y)"
        by (auto simp: f(5) exclusion_entry_def)
      with seated have "cx_memberId x \<in> fst ` set (rev (map (\<lambda>r. (el_memberId r, r)) (ve_electorate e)))" by force
      then have "map_of (rev (map (\<lambda>r. (el_memberId r, r)) (ve_electorate e))) (cx_memberId x) \<noteq> None"
        by (simp only: map_of_eq_None_iff not_not)
      then show "seat_weight p (cx_memberId x) \<noteq> None" by (simp add: payload_seat_weight [OF f(1)])
    qed
    show "sorted_wrt (\<lambda>x y. cx_memberId x = cx_memberId y \<longrightarrow> cx_version x < cx_version y) (vp_exclusions p)"
      using rise by (simp add: f(5) versions_rise_def sorted_wrt_map exclusion_entry_def split_beta')
  qed simp
  then obtain ex where ex: "offline_exclusions p [] (vp_exclusions p) = Some ex"
    "map_of ex = map_of (rev (map (\<lambda>x. (cx_memberId x, x)) (vp_exclusions p)))" by auto
  have seats: "certificate_seats p ex = close_seats e" by (rule payload_seats) (use s f ex in auto)
  obtain effective where eff: "mapr (check_close_ballot pl e row) (ve_ballots e) = Inr effective"
    "tallyVote (close_seats e) (concat effective) (vo_rule row) = Inr t"
    by (rule close_tally_Inr [OF t])
  note bal = payload_ballots [OF eff(1) [unfolded mapr_Inr_iff] f(1,2) pol, folded f(3)]
  have rule: "certificate_rule (close_rule row) = vo_rule row" by (rule certificate_rule_close_rule) (use s in blast)
  obtain u where u: "canonicalJson pl (certificate_tally_json (canonical_tally t)) = Inr u"
    using s by (simp add: canonicalJson_iff certificate_part_ok certificate_depths certificate_strings MAX_JSON_CONTAINER_DEPTH_def)
  show ?thesis
    using sig bal(1) unfolding offline_payload_check_def Let_def
    by (simp add: certificate_bundle_def Let_def built ex(1) seats certificate_ballots_def bal(2) f(4,6) rule eff(2)
        canonical_tally_json u signing_key_def key built_certificate_def)
qed

lemma trustedEvidenceKey_member:
  assumes "TrustedEvidenceKeySetSchema keys" and "k \<in> set keys"
  shows "trustedEvidenceKey keys (ok_id k) (ok_kid k) = Some k"
proof -
  have u: "UuidV7Schema (ok_id k)" if "k \<in> set keys" for k
    using assms(1) that by (simp add: TrustedEvidenceKeySetSchema_def list_all_iff OfflineEvidenceKeySchema_def)
  have d: "distinct (map ok_id keys)"
    using assms(1) length_js_set_iff [of "map ok_id keys"] by (simp add: TrustedEvidenceKeySetSchema_def)
  have "inj_on (\<lambda>k. ok_id k @ lit '':'' @ ok_kid k) (set keys)"
  proof (rule inj_onI)
    fix a b
    assume a: "a \<in> set keys" and b: "b \<in> set keys" and eq: "ok_id a @ lit '':'' @ ok_kid a = ok_id b @ lit '':'' @ ok_kid b"
    have "length (ok_id a) = length (ok_id b)" using u [OF a] u [OF b] by (simp add: UuidV7Schema_length)
    with eq have "ok_id a = ok_id b" by (simp del: lit_simps)
    with d a b show "a = b" by (auto simp: distinct_map dest: inj_onD)
  qed
  with d have "distinct (map (\<lambda>k. ok_id k @ lit '':'' @ ok_kid k) keys)" by (simp add: distinct_map)
  then show ?thesis
    unfolding trustedEvidenceKey_def
    by (intro map_of_is_SomeI) (use assms(2) in \<open>auto simp: comp_def simp flip: rev_map simp del: lit_simps\<close>)
qed

lemma built_bundle_schema:
  assumes "VoteCertificatePayloadSchema pl (bp_payload built)" and "OfflineEvidenceKeySchema (signing_key row)"
    and "verifyVoteCertificate pl sg (built_certificate built signature) key = Inr True" and "Rfc3339UtcSchema issuedAt"
  shows "OfflineCertificateBundleSchema pl (certificate_bundle row built signature issuedAt)"
proof -
  have f: "certificate_fields_ok (bp_payload built)" by (rule schema_fields [OF assms(1)])
  then obtain bs where "length bs = 32" "vp_publicId (bp_payload built) = base64url bs"
    by (auto simp: certificate_fields_ok_def PublicIdSchema_def canonical_base64url_iff)
  moreover obtain s where "length s = 64" "signature = base64url s"
    "bp_payloadSha256 built = hex_of_bytes (sha256 (certificate_message (bp_payload built)))"
    using assms(3) by (auto simp: verifyVoteCertificate_iff built_certificate_def)
  ultimately show ?thesis
    using f assms(1,2,4)
    by (simp add: OfflineCertificateBundleSchema_def certificate_bundle_def Let_def certificate_fields_ok_def
        certificate_vote_ok_def length_base64url base64url_units)
qed

text \<open>Property C9: the two ends of a vote meet. Take any reachable store, the evidence read from it for one of its votes, and the
  payload built from that evidence and the locked row of the vote. If a signature over it verifies under the key of
  the row, then the bundle, issued at any well-formed instant, is accepted offline by everyone who trusts that key, as long as its
  identifiers and key material can be written canonically; and the tally in it is the declarative tally of the recorded seats, recusals and ballots.\<close>

theorem closed_vote_accepted_offline:
  assumes "reachable pl lc st" and "v \<in> set (st_votes st)" and "closes v row"
    and "readVoteEvidence cols env st organizationId (vo_id v) = Inr e"
    and "buildClosePayload pl lc row e ctx = Inr built"
    and "sg_import sg (lw_signingPublicJwk row) = Some key"
    and "verifyVoteCertificate pl sg (built_certificate built signature) key = Inr True"
    and "TrustedEvidenceKeySetSchema keys" and "signing_key row \<in> set keys"
    and "canonicalJson pl (bundle_projection (certificate_bundle row built signature issuedAt)) = Inr u"
    and "Rfc3339UtcSchema issuedAt"
  shows "verifyOfflineCertificateBundle pl sg (certificate_bundle row built signature issuedAt) keys = Inr True \<and>
    vp_tally (bp_payload built) =
      canonical_tally (tally_spec (vote_seats st (vo_id v)) (effective_list st (vo_id v)) (vo_rule v))"
proof -
  have inv: "vote_inv pl lc st" "exclusions_seated st" using assms(1) by (simp_all add: reachable_inv reachable_seated)
  then have k: "store_ok pl st" "keys_ok st" by (simp_all add: vote_inv_def)
  have e: "e = evidence_of cols st (vo_id v)"
    using assms(4) by (auto simp: readVoteEvidence_def vote_close_evidence_def bindr_eq_Inr_iff split: list.splits if_splits)
  obtain t sha c p where p: "close_tally pl lc row e = Inr (t, sha)"
    "p = close_payload row e ctx (map (exclusion_entry (ve_columns e)) (ve_exclusions e)) c t sha"
    "VoteCertificatePayloadSchema pl p"
    "built = \<lparr>bp_payload = p, bp_payloadSha256 = hex_of_bytes (sha256 (certificate_message p)),
      bp_canonicalPayload = certificate_message p, bp_tally = t, bp_tallySha256 = sha\<rparr>"
    by (rule buildClosePayload_Inr [OF assms(5)])
  have seated: "\<forall>x\<in>set (ve_exclusions e). xr_memberId (fst x) \<in> el_memberId ` set (ve_electorate e)"
  proof
    fix x
    assume "x \<in> set (ve_exclusions e)"
    then have "fst x \<in> set (map fst (ve_exclusions e))" by simp
    then have "fst x \<in> set (st_exclusions st)" "xr_voteId (fst x) = vo_id v"
      by (simp_all add: e evidence_exclusion_rows [OF k(2)])
    with inv(2) show "xr_memberId (fst x) \<in> el_memberId ` set (ve_electorate e)"
      by (force simp: exclusions_seated_def list_all_iff in_electorate_def e evidence_of_def)
  qed
  have c: "offline_payload_check pl sg (certificate_bundle row built signature issuedAt) (signing_key row) = Inr True"
    by (rule built_payload_accepted [OF assms(5) seated _ assms(6,7)]) (simp add: e evidence_versions_rise [OF k(2)])
  have s: "OfflineCertificateBundleSchema pl (certificate_bundle row built signature issuedAt)"
    by (rule built_bundle_schema [OF _ _ assms(7,11)])
      (use assms(8,9) p(3) in \<open>simp_all add: p(4) TrustedEvidenceKeySetSchema_def list_all_iff\<close>)
  have i: "vp_signingKeyId p = ok_id (signing_key row)" "vp_keyId p = ok_kid (signing_key row)"
    by (simp_all add: p(2) close_payload_def signing_key_def)
  have j: "ob_canonical_payload (certificate_bundle row built signature issuedAt) = p"
    "trusted_projection p (signing_key row) = bundle_projection (certificate_bundle row built signature issuedAt)"
    by (simp_all add: certificate_bundle_def Let_def p(4) trusted_projection_def bundle_projection_def)
  have "verifyOfflineCertificateBundle pl sg (certificate_bundle row built signature issuedAt) keys = Inr True"
    by (simp add: verifyOfflineCertificateBundle_def Let_def s assms(8) j i trustedEvidenceKey_member [OF assms(8,9)]
        assms(10) c catch_false_def)
  moreover have "t = tally_spec (close_seats e) (effective_list st (vo_id v)) (vo_rule v)"
    using p(1) close_tally_ok [OF inv(1) assms(2,3)] by (auto simp: e bindr_eq_Inr_iff)
  ultimately show ?thesis
    by (simp add: p(2,4) close_payload_def e close_seats_eq [OF k(2)])
qed

section \<open>A certificate of the vote of the scenario\<close>

definition wit_close_row :: CloseRow where
  "wit_close_row = LockedCloseRow.extend (VoteRow.extend (wit_vote\<lparr>vo_rowVersion := 3\<rparr>)
     \<lparr>lc_clockSampleId = Some (uid 20), lc_clockMeasuredAt = Some wit_time, lc_clockDriftMicroseconds = Some (lit ''0''),
      lc_clockValidUntil = Some wit_time\<rparr>)
     \<lparr>lw_voteTitle = lit ''Budget'', lw_deadlineAt = wit_time, lw_resolutionVersionId = uid 21, lw_resolutionVersion = 1,
      lw_resolutionText = lit ''Approve the budget.'', lw_resolutionSha256 = wit_sha, lw_decisionPackageVersion = 1,
      lw_submissionManifestSha256 = wit_sha, lw_documentManifestSha256 = wit_sha, lw_questionCutoffSha256 = wit_sha,
      lw_governanceProfileId = uid 22, lw_governanceProfileSha256 = wit_sha, lw_rulesetId = uid 23, lw_rulesetSha256 = wit_sha,
      lw_matterEvaluationId = uid 24, lw_matterEvaluationResultSha256 = wit_sha, lw_selectedRulesetRuleId = uid 25,
      lw_selectedRulesetRuleSha256 = wit_sha, lw_ruleOverrideId = None, lw_ruleOverrideSha256 = None,
      lw_approvalRuleId = uid 26, lw_approvalRuleSha256 = wit_sha, lw_instanceId = uid 27, lw_signingKeyId = uid 28,
      lw_signingKid = lit ''k1'', lw_signingPublicJwk = [(lit ''kty'', jstr ''OKP''), (lit ''x'', jstr ''key'')]\<rparr>"

definition wit_close_context :: ClosePayloadContext where
  "wit_close_context = \<lparr>cc_outcomeId = uid 40, cc_certificateId = uid 41, cc_certificatePublicId = base64url (replicate 32 0),
     cc_closeActorMemberId = None, cc_closeConsentRecordId = None, cc_closeConsentRecordSha256 = None,
     cc_closingAuditEventId = uid 42, cc_closingAuditSequence = lit ''7'', cc_closingAuditHash = wit_sha,
     cc_preparedAt = wit_time\<rparr>"

lemma wit_consent_set: "\<exists>h. consentSetSha256 plain_platform wit_evidence None = Inr h \<and> Sha256HexSchema h"
proof -
  have "wit_record_sha 19 \<noteq> wit_record_sha 37" by (simp add: wit_record_sha_def hex4_digit_eq)
  then have "consent_records wit_evidence None = sort [wit_record_sha 19, wit_record_sha 37]"
    "length (js_set (sort [wit_record_sha 19, wit_record_sha 37])) = length (sort [wit_record_sha 19, wit_record_sha 37])"
    unfolding length_js_set_iff by (simp_all add: consent_records_def wit_evidence_def)
  moreover have "\<exists>h. canonicalSha256 plain_platform (JObj [(lit ''schemaVersion'', jstr ''boardagent.vote-certificate-consent-set.v1''),
         (lit ''recordSha256'', JArr (map JStr (sort [wit_record_sha 19, wit_record_sha 37])))]) = Inr h"
    by (simp add: canonicalSha256_iff MAX_JSON_CONTAINER_DEPTH_def scalar_digest)
  ultimately show ?thesis by (auto simp: consentSetSha256_def Let_def dest: wit_digest simp del: lit_simps)
qed

definition wit_close_tally :: VoteTally where
  "wit_close_tally = \<lparr>vt_eligibleWeight = 3, vt_participatingWeight = 2, vt_yesWeight = 2, vt_noWeight = 0, vt_abstainWeight = 0,
     vt_quorumMet = True, vt_approvalMet = True, vt_outcome = approved\<rparr>"

lemma wit_close_spec:
  "tally_spec (close_seats wit_evidence) (effective_list (wit_voted h h' rows) (uid 6)) wit_rule = wit_close_tally"
proof -
  have s: "close_seats wit_evidence =
     [\<lparr>es_memberId = uid 11, es_role = voting_member, es_weight = 1, es_eligible = True, es_recused = False, es_chair = False\<rparr>,
      \<lparr>es_memberId = uid 12, es_role = voting_member, es_weight = 2, es_eligible = True, es_recused = False, es_chair = True\<rparr>]"
    by (simp add: close_seats_def wit_evidence_def wit_seats_def wit_seat_row_def latest_exclusion_def)
  have b: "effective_list (wit_voted h h' rows) (uid 6) =
     [\<lparr>eb_principalMemberId = uid 12, eb_casterMemberId = uid 12, eb_choice = Yes, eb_source = own_ballot\<rparr>]"
    by (simp add: effective_list_def effective_ballots_def wit_voted_def wit_consented_def wit_opened_def empty_store_def
        has_disposition_def wit_ballot_row_def cast_entry_def)
  show ?thesis unfolding s b by code_simp
qed

definition wit_built_payload :: "jstring \<Rightarrow> jstring \<Rightarrow> VoteCertificatePayload" where
  "wit_built_payload c sha = close_payload wit_close_row wit_evidence wit_close_context [] c wit_close_tally sha"

lemma wit_close_row_columns:
  "vo_id wit_close_row = uid 6" "vo_organizationId wit_close_row = uid 4" "vo_boardId wit_close_row = uid 5"
  "vo_packageId wit_close_row = uid 7" "vo_packageSha256 wit_close_row = wit_sha"
  "vo_proxyPolicy wit_close_row = Policy principal_supersedes_proxy" "vo_rule wit_close_row = wit_rule"
  "vo_closeMode wit_close_row = tc_automatic"
  "vo_electorateSha256 wit_close_row = digest (electorate_json (uid 6) wit_prepared_entries)"
  "lc_clockSampleId wit_close_row = Some (uid 20)" "lc_clockMeasuredAt wit_close_row = Some wit_time"
  "lc_clockDriftMicroseconds wit_close_row = Some (lit ''0'')" "lc_clockValidUntil wit_close_row = Some wit_time"
  by (simp_all add: wit_close_row_def wit_vote_def VoteRow.defs LockedCloseRow.defs del: lit_simps)

lemma wit_closes: "closes (wit_vote\<lparr>vo_rowVersion := 3\<rparr>) wit_close_row"
  by (simp add: closes_def wit_close_row_columns del: lit_simps) (simp add: wit_vote_def)

lemma wit_tally_json: "CanonicalVoteTallySchema (canonical_tally wit_close_tally)"
proof -
  have "unsigned_decimal (dec_int 3)" "unsigned_decimal (dec_int 2)" "unsigned_decimal (dec_int 0)" by code_simp+
  then show ?thesis by (simp add: CanonicalVoteTallySchema_def canonical_tally_def wit_close_tally_def)
qed

lemma wit_rule_schema: "CertificateApprovalRuleSchema (close_rule wit_close_row)"
proof -
  have "unsigned_decimal (dec_int 1)" "positive_decimal (dec_int 2)" by code_simp+
  moreover have "lw_approvalRuleId wit_close_row = uid 26" "lw_approvalRuleSha256 wit_close_row = wit_sha"
    by (simp_all add: wit_close_row_def LockedCloseRow.defs del: lit_simps)
  ultimately show ?thesis
    by (simp add: CertificateApprovalRuleSchema_def close_rule_def wit_close_row_columns wit_rule_def
        DecimalFractionSchema_def decimal_fraction_def)
qed

lemma wit_entries_ok:
  "list_all CertificateElectorateEntrySchema (map seat_entry (ve_electorate wit_evidence))"
  "list_all CertificateProxyEntrySchema (map (proxy_entry wit_columns) (ve_proxies wit_evidence))"
  "list_all CertificateBallotEntrySchema (map (ballot_entry wit_columns) (ve_ballots wit_evidence))"
proof -
  have d: "positive_decimal (dec_int 1)" "positive_decimal (dec_int 2)" by code_simp+
  show "list_all CertificateElectorateEntrySchema (map seat_entry (ve_electorate wit_evidence))"
    by (simp add: wit_evidence_def wit_seats_def wit_seat_row_def seat_entry_def CertificateElectorateEntrySchema_def d)
  show "list_all CertificateProxyEntrySchema (map (proxy_entry wit_columns) (ve_proxies wit_evidence))"
    by (simp add: wit_evidence_def wit_grant_row_def proxy_entry_def Let_def CertificateProxyEntrySchema_def nullable_ok_def
        wit_columns_def wit_times)
  show "list_all CertificateBallotEntrySchema (map (ballot_entry wit_columns) (ve_ballots wit_evidence))"
    by (simp add: wit_evidence_def wit_ballot_row_def ballot_entry_def Let_def CertificateBallotEntrySchema_def nullable_ok_def
        wit_columns_def wit_times d)
qed

lemma wit_built_schema:
  assumes "Sha256HexSchema c" and "canonicalSha256 pl (canonicalVoteTally wit_close_tally) = Inr sha"
  shows "VoteCertificatePayloadSchema pl (wit_built_payload c sha)" and "certificate_writable pl (wit_built_payload c sha)"
proof -
  let ?p = "wit_built_payload c sha"
  have sha: "Sha256HexSchema sha" by (rule wit_digest [OF assms(2)])
  have e: "ve_columns wit_evidence = wit_columns" by (simp add: wit_evidence_def)
  have parts: "certificate_vote_ok (vp_vote ?p)" "certificate_close_ok (vp_close ?p)" "certificate_governance_ok (vp_governance ?p)"
    using wit_rule_schema
    by (simp_all add: wit_built_payload_def close_payload_def wit_close_row_columns certificate_vote_ok_def certificate_close_ok_def
        certificate_governance_ok_def wit_close_context_def nullable_ok_def wit_decimals wit_times del: lit_simps)
      (simp_all add: wit_close_row_def LockedCloseRow.defs wit_times SafePositiveIntegerSchema_def isSafeInteger_def MAX_SAFE_INTEGER_def
        CanonicalResolutionTextSchema_def length_lit signed_decimal_def wit_decimals nullable_ok_def del: lit_simps)
  have fields: "certificate_fields_ok ?p"
    unfolding certificate_fields_ok_def
    using parts wit_entries_ok wit_tally_json assms(1) sha
    by (simp add: wit_built_payload_def close_payload_def e wit_close_row_columns wit_close_context_def PublicIdSchema_def
        wit_decimals wit_times del: lit_simps)
      (simp add: wit_close_row_def LockedCloseRow.defs wit_evidence_def wit_seats_def wit_decimals del: lit_simps)
  show "certificate_writable pl ?p"
    by (simp add: certificate_writable_iff fields)
      (simp add: wit_built_payload_def close_payload_def wit_close_row_def LockedCloseRow.defs)
  have f: "cg_approvalRule (vp_governance ?p) = close_rule wit_close_row" "cw_id (vp_vote ?p) = uid 6" "vp_certificateId ?p = uid 41"
    "cw_closeMode (vp_vote ?p) = tc_automatic" "vp_outcome ?p = approved" "vp_tally ?p = canonical_tally wit_close_tally"
    "vp_tallySha256 ?p = sha" "cl_actorMemberId (vp_close ?p) = None" "cl_consentRecordId (vp_close ?p) = None"
    "cl_consentRecordSha256 (vp_close ?p) = None" "vp_electorate ?p = map seat_entry (ve_electorate wit_evidence)"
    "vp_exclusions ?p = []" "vp_proxies ?p = map (proxy_entry wit_columns) (ve_proxies wit_evidence)"
    "vp_ballots ?p = map (ballot_entry wit_columns) (ve_ballots wit_evidence)"
    by (simp_all add: wit_built_payload_def close_payload_def wit_close_row_columns wit_close_context_def wit_close_tally_def e
        del: lit_simps)
  have g: "cg_ruleOverrideId (vp_governance ?p) = None" "cg_ruleOverrideSha256 (vp_governance ?p) = None"
    by (simp_all add: wit_built_payload_def close_payload_def) (simp_all add: wit_close_row_def LockedCloseRow.defs)
  have o: "orderedUnique ce_memberId (vp_electorate ?p)" "length (filter ce_isChair (vp_electorate ?p)) \<le> 1"
    "orderedUnique cp_id (vp_proxies ?p)" "orderedUnique ballot_key (vp_ballots ?p)"
    using wit_sorted
    by (simp_all add: f wit_evidence_def wit_seats_def wit_seat_row_def seat_entry_def orderedUnique_def Let_def length_js_set_iff)
  show "VoteCertificatePayloadSchema pl ?p"
    unfolding VoteCertificatePayloadSchema_def
    using fields o assms(2) sha
    by (simp add: f g canonical_tally_json safeHashEqual_iff close_rule_def wit_close_row_columns)
      (simp add: canonical_tally_def wit_close_tally_def orderedUnique_def js_set_distinct)
qed

lemma wit_close_built:
  assumes "reachable plain_platform wit_lc (wit_voted h h' rows)"
  obtains c sha built where "buildClosePayload plain_platform wit_lc wit_close_row wit_evidence wit_close_context = Inr built"
    and "bp_payload built = wit_built_payload c sha"
    and "VoteCertificatePayloadSchema plain_platform (wit_built_payload c sha)"
    and "certificate_writable plain_platform (wit_built_payload c sha)"
    and "bp_payloadSha256 built = hex_of_bytes (sha256 (certificate_message (wit_built_payload c sha)))"
proof -
  have inv: "vote_inv plain_platform wit_lc (wit_voted h h' rows)" by (rule reachable_inv [OF assms])
  have v: "wit_vote\<lparr>vo_rowVersion := 3\<rparr> \<in> set (st_votes (wit_voted h h' rows))" by (simp add: wit_voted_def)
  obtain sha where sha: "canonicalSha256 plain_platform (canonicalVoteTally wit_close_tally) = Inr sha" using tally_digest by blast
  have r: "vo_id (wit_vote\<lparr>vo_rowVersion := 3\<rparr>) = uid 6" "vo_rule (wit_vote\<lparr>vo_rowVersion := 3\<rparr>) = wit_rule"
    by (simp_all add: wit_vote_def)
  have t: "close_tally plain_platform wit_lc wit_close_row wit_evidence = Inr (wit_close_tally, sha)"
    using close_tally_ok [OF inv v wit_closes, of wit_columns] sha
    unfolding r by (simp only: wit_evidence_of wit_close_spec bindr_simps)
  obtain c where c: "consentSetSha256 plain_platform wit_evidence None = Inr c" "Sha256HexSchema c" using wit_consent_set by blast
  have "length wit_sha = 64" using Sha256HexSchema_iff [of wit_sha] by simp
  then have "mapr hex_column (close_digests wit_close_row) = Inr (map id (close_digests wit_close_row))"
    by (intro mapr_total)
      (auto simp: close_digests_def wit_close_row_columns hex_column_def,
        simp_all add: wit_close_row_def LockedCloseRow.defs)
  moreover note s = wit_built_schema [OF c(2) sha]
  moreover have "ve_exclusions wit_evidence = []" "cc_closeConsentRecordSha256 wit_close_context = None"
    by (simp_all add: wit_evidence_def wit_close_context_def)
  moreover obtain u where u: "canonicalVoteCertificatePayload plain_platform (wit_built_payload c sha) = Inr u"
    using s by (simp add: certificate_text_iff)
  moreover have "canonicalSha256 plain_platform (certificate_json (wit_built_payload c sha)) =
      Inr (hex_of_bytes (sha256 (certificate_message (wit_built_payload c sha))))"
    using s by (simp add: certificate_digest_iff)
  ultimately have built: "buildClosePayload plain_platform wit_lc wit_close_row wit_evidence wit_close_context =
      Inr \<lparr>bp_payload = wit_built_payload c sha,
        bp_payloadSha256 = hex_of_bytes (sha256 (certificate_message (wit_built_payload c sha))),
        bp_canonicalPayload = utf8_encode u, bp_tally = wit_close_tally, bp_tallySha256 = sha\<rparr>"
    by (simp add: buildClosePayload_def t c(1) zparse_ok flip: wit_built_payload_def)
  show thesis by (rule that [OF built _ s]) simp_all
qed

definition wit_close_signature :: "VoteCertificatePayload \<Rightarrow> jstring" where
  "wit_close_signature p = base64url (sg_sign wit_signatures (utf8_encode (lit ''key'')) (certificate_message p))"

theorem closed_vote_accepted_offline_witness:
  "\<exists>st built. reachable plain_platform wit_lc st \<and>
     buildClosePayload plain_platform wit_lc wit_close_row wit_evidence wit_close_context = Inr built \<and>
     verifyOfflineCertificateBundle plain_platform wit_signatures
       (certificate_bundle wit_close_row built (wit_close_signature (bp_payload built)) wit_time) [signing_key wit_close_row] =
       Inr True \<and>
     vp_tally (bp_payload built) = canonical_tally (tally_spec (vote_seats st (uid 6)) (effective_list st (uid 6)) wit_rule)"
proof -
  let ?v = "wit_vote\<lparr>vo_rowVersion := 3\<rparr>"
  obtain h h' rows where r: "reachable plain_platform wit_lc (wit_voted h h' rows)" by (rule wit_run)
  have v: "?v \<in> set (st_votes (wit_voted h h' rows))" "vo_id ?v = uid 6" "vo_rule ?v = wit_rule"
    by (simp_all add: wit_voted_def wit_vote_def)
  obtain c sha built where b: "buildClosePayload plain_platform wit_lc wit_close_row wit_evidence wit_close_context = Inr built"
    "bp_payload built = wit_built_payload c sha" "VoteCertificatePayloadSchema plain_platform (wit_built_payload c sha)"
    "certificate_writable plain_platform (wit_built_payload c sha)"
    "bp_payloadSha256 built = hex_of_bytes (sha256 (certificate_message (wit_built_payload c sha)))"
    by (rule wit_close_built [OF r])
  let ?s = "wit_close_signature (bp_payload built)" and ?k = "utf8_encode (lit ''key'')"
  have jwk: "lw_signingPublicJwk wit_close_row = [(lit ''kty'', jstr ''OKP''), (lit ''x'', jstr ''key'')]"
    "lw_signingKeyId wit_close_row = uid 28" "lw_signingKid wit_close_row = lit ''k1''"
    by (simp_all add: wit_close_row_def LockedCloseRow.defs del: lit_simps)
  have i: "sg_import wit_signatures (lw_signingPublicJwk wit_close_row) = Some ?k" unfolding jwk by (simp add: wit_signatures_def)
  have "sg_public wit_signatures ?k = ?k" by (simp add: wit_signatures_def)
  then have w: "verifyVoteCertificate plain_platform wit_signatures (built_certificate built ?s) ?k = Inr True"
    using b(2-5) wit_ed25519 by (auto simp: verifyVoteCertificate_iff built_certificate_def wit_close_signature_def ed25519_def) metis
  have g: "signing_key wit_close_row =
      \<lparr>ok_id = uid 28, ok_kid = lit ''k1'', ok_public_jwk = [(lit ''kty'', jstr ''OKP''), (lit ''x'', jstr ''key'')]\<rparr>"
    by (simp add: signing_key_def jwk del: lit_simps)
  have "OfflineEvidenceKeySchema (signing_key wit_close_row)"
    by (simp add: g OfflineEvidenceKeySchema_def wit_decimals lit_inj del: lit_simps)
  then have k: "TrustedEvidenceKeySetSchema [signing_key wit_close_row]"
    by (simp add: TrustedEvidenceKeySetSchema_def js_set_def)
  let ?j = "bundle_projection (certificate_bundle wit_close_row built ?s wit_time)"
  have "certificate_fields_ok (wit_built_payload c sha)" by (rule schema_fields [OF b(3)])
  then have f: "is_ascii (vp_certificateId (wit_built_payload c sha))" "is_ascii (cw_id (vp_vote (wit_built_payload c sha)))"
    "is_ascii (vp_outcomeId (wit_built_payload c sha))" "is_ascii (vp_publicId (wit_built_payload c sha))"
    by (simp_all add: certificate_fields_ok_def certificate_vote_ok_def public_id_ascii uuid_ascii)
  have "strings_ok (normalizeNFC plain_platform) ?j" "index_free ?j" "json_depth ?j \<le> MAX_JSON_CONTAINER_DEPTH"
    using f by (simp_all add: bundle_projection_def certificate_bundle_def Let_def b(2) projection_json_def g
        MAX_JSON_CONTAINER_DEPTH_def)
  then obtain u where u: "canonicalJson plain_platform ?j = Inr u" by (auto simp: canonicalJson_iff)
  from closed_vote_accepted_offline [OF r v(1) wit_closes wit_evidence_read [of h h' rows, folded v(2)] b(1) i w k _ u, unfolded v(2,3)]
    r b(1) wit_times show ?thesis by auto
qed

end
