(* ===== verification/Spec2Isabelle.thy ===== *)
theory Spec2Isabelle
  imports Consent Authorize Audit_Event Decision_Package Question Document Close_Payload
begin

text \<open>
  A verification library for BoardAgent, a governance system for boards: members, observers, management and a
  secretariat work through a registry of tools; every decision is staged, confirmed by its actor and bound to
  a digest of what was confirmed; votes are opened on a frozen decision package and electorate, ballots are cast in
  person or by proxy, members are recused, and a vote is closed with a tally over evidence read back from the
  database; every change is an event of a hash-chained audit log. The library models the parts that decide: the
  pure rules in \<^verbatim>\<open>lib/domain\<close>, \<^verbatim>\<open>lib/ruleset\<close>, \<^verbatim>\<open>lib/authz\<close>, \<^verbatim>\<open>lib/audit\<close> and
  \<^verbatim>\<open>lib/contracts\<close>, and from \<^verbatim>\<open>lib/db\<close> the transactions that move a vote.

  \<^bold>\<open>How the code is represented\<close>

  A string is a list of 16-bit code units (\<open>jstring\<close>), a \<open>bigint\<close> is an \<open>int\<close>, a \<open>number\<close> is an \<open>int\<close> within the safe
  range the code checks for, an object is a record, a union a datatype. Code that throws returns a \<open>result\<close>, whose
  left side is the error with its class and message; guards are in the order of the source. A Map or Set is
  a list in insertion order. Loops are recursions of HOL and total. Only the JSON parser takes fuel, one unit per call;
  it starts with twice the length of its source and one more, and \<open>strict_parser_total\<close> shows that this is never used up. A number
  that is no integer, which only the parser can meet, is the error \<open>NotModelled\<close>. Code outside the repository is an argument: \<open>platform\<close> is Unicode
  normalization (\<open>String.normalize\<close>) and the npm package \<open>canonicalize\<close>, and \<open>lc\<close> is \<open>localeCompare\<close>;
  what a theorem needs of them is a hypothesis (\<open>rfc8785_encoder\<close>, \<open>comparator\<close>, \<open>orders_digits\<close>, \<open>grant_order\<close>). Theorems
  about digests end in "or a SHA-256 collision" because SHA-256 is a concrete function here (\<open>Sha256\<close>, on 32-bit words).

  \<^bold>\<open>Theories\<close>

  \<^item> \<open>Prelude\<close>: strings, errors, results, Map, Set, sorting, the locale \<open>comparator\<close>.
  \<^item> \<open>Unicode\<close>, \<open>Json\<close>: UTF-16 and UTF-8; JSON values, \<open>JSON.stringify\<close>, the strict parser of \<^verbatim>\<open>canonical.ts\<close>.
  \<^item> \<open>Schemas\<close> (\<^verbatim>\<open>lib/contracts/src/schemas.ts\<close>): identifiers, digests, instants, texts.
  \<^item> \<open>Value_Objects\<close> (\<^verbatim>\<open>lib/domain/src/value-objects.ts\<close>): exact fractions, weights, UUIDv7, confirmation codes.
  \<^item> \<open>Sha256\<close>, \<open>Canonical\<close> (\<^verbatim>\<open>lib/contracts/src/canonical.ts\<close>): canonical JSON and its digests.
  \<^item> \<open>Voting\<close> (\<^verbatim>\<open>lib/domain/src/voting.ts\<close>): electorate, tally, supersession of ballots; \<open>Consent_Hash\<close> and
    \<open>Voting_Consent\<close>: the consent and evidence hashes of the same file.
  \<^item> \<open>State_Machines\<close> (\<^verbatim>\<open>state-machines.ts\<close>): every lifecycle table; \<open>Consent\<close> (\<^verbatim>\<open>consent.ts\<close>): staged confirmations.
  \<^item> \<open>Registry_Data\<close>, \<open>Authorize\<close> (\<^verbatim>\<open>lib/contracts/src/generated/registry.data.ts\<close>, \<^verbatim>\<open>lib/authz/src\<close>): the tools,
    their policy and the authorization decision.
  \<^item> \<open>Ruleset\<close>, \<open>Governance_Profile\<close> (\<^verbatim>\<open>lib/ruleset/src\<close>): matter rules and their evaluation, board profiles.
  \<^item> \<open>Key_Lifecycle\<close>, \<open>Audit_Event\<close> (\<^verbatim>\<open>lib/audit/src\<close>): key evidence, events, the hash chain and its verifier.
  \<^item> \<open>Decision_Package\<close> (\<^verbatim>\<open>lib/domain/src/decision-package.ts\<close>, parts of \<^verbatim>\<open>lib/contracts/src/governance.ts\<close>): the
    frozen basis of a vote, its replacement, and the electorate it is opened with.
  \<^item> \<open>Encoding\<close>: base64url and HMAC of \<^verbatim>\<open>node:crypto\<close> and \<^verbatim>\<open>Buffer\<close>, over the concrete SHA-256; \<open>Json_Size\<close>: bounds on the length of
    a canonical text.
  \<^item> \<open>Feed_Cursor\<close> (\<^verbatim>\<open>lib/domain/src/feed.ts\<close>): signed cursors and the page a cursor selects. \<open>Minutes\<close> (\<^verbatim>\<open>minutes.ts\<close>): exact
    redlines, the resolution of a review, the action manifest and its activation. \<open>Question\<close> (\<^verbatim>\<open>question.ts\<close>): questions
    to management and their turns. \<open>Document\<close> (\<^verbatim>\<open>document.ts\<close>, \<^verbatim>\<open>content.ts\<close>, \<^verbatim>\<open>document-schemas.ts\<close>): contributed documents.
    Their schemas are in \<^verbatim>\<open>lib/contracts/src/governance.ts\<close>.
  \<^item> \<open>Vote_Store\<close> (\<^verbatim>\<open>lib/db/src/schema.ts\<close>, the migrations, \<^verbatim>\<open>transactions/audit.ts\<close>): the rows a vote is kept in, one
    list per table in the record \<open>VoteStore\<close>, the statements on them, and the append to the audit log.
  \<^item> \<open>Ballots\<close> (\<^verbatim>\<open>transactions/ballots.ts\<close>), \<open>Recusals\<close> (\<^verbatim>\<open>transactions/recusals.ts\<close>), \<open>Feed\<close>, \<open>Vote_Close\<close>
    (\<^verbatim>\<open>transactions/vote-close.ts\<close>): granting and revoking a proxy, casting, recusing, the evidence and tally of
    the close. A long handler is split where it goes from checking its input to reading and to writing.
  \<^item> \<open>Ballot_Invariant\<close>, \<open>Vote_Lifecycle\<close>: the invariant of the store and its preservation; the step relation
    \<open>vote_step\<close> and the stores \<open>reachable\<close> by it.
  \<^item> \<open>Vote_Scenario\<close>, \<open>Vote_Properties\<close>: one vote from opening to recusal, evaluated; what holds of every vote.
  \<^item> \<open>Certificate\<close> (\<^verbatim>\<open>lib/audit/src/certificate.ts\<close>), \<open>Certificate_Bundle\<close> (\<^verbatim>\<open>offline.ts\<close>): the signed certificate of a closed vote, and
    the check of a certificate bundle by someone who has only the trusted keys. Ed25519 is an argument of the model;
    \<open>ed25519\<close> states what is relied on.
  \<^item> \<open>Close_Payload\<close> (\<^verbatim>\<open>vote-close.ts\<close>): the certificate payload built from the evidence and the tally of a close, and the bundle
    of a built certificate.

  \<^bold>\<open>Interfaces\<close>

  \<open>binding_hash\<close> and \<open>tagged_hash\<close> (\<open>Consent_Hash\<close>) say what a consent hash promises, and every hash of the code is
  an interpretation; \<open>lifecycle\<close> and \<open>acyclic_lifecycle\<close> (\<open>State_Machines\<close>) say what a transition table promises, and
  every table is one; \<open>comparator\<close> (\<open>Prelude\<close>) is a comparison function passed to a sort.

  \<^bold>\<open>How the parts of a vote interact\<close>

  \<open>prepareVoteElectorate\<close> freezes the electorate a vote is opened with. A grant, revocation, cast or recusal recomputes the
  consent hash of its request (\<open>Voting_Consent\<close>), compares it with the confirmed stage, attempt and consent record,
  takes an idempotency record, writes its rows, advances the version of the vote and appends its audit events
  (\<open>Audit_Event\<close>). The close reads the rows back, checks them against each other and tallies them (\<open>Voting\<close>).
  \<open>vote_step\<close> interleaves these transactions in any order with what the transactions that are not modelled may do
  to the same tables: open a vote with a prepared electorate, rewrite stages and attempts without taking
  back a confirmation and add consent records, move a vote to another state without touching its frozen part, add
  proxy revocations and ballot dispositions, rewrite idempotency records, feed and notices, and append audit events.
  A transaction either returns a new store or throws and leaves the store as it was, and the row locks the code
  takes on the vote make the transactions of one vote sequential.

  \<^bold>\<open>What the lemmas show\<close>

  Every component has its functional behaviour (which inputs succeed, with which result, which error otherwise), and the
  laws the others rest on: round trips and injectivity of encodings, so that digests bind what was confirmed;
  equivalence of the tally, the matter evaluation and the structural walk with declarative specifications;
  tamper evidence of the audit log; termination and totality of the parser. On the store, \<open>vote_inv\<close> holds in
  every reachable store, and from it follow the properties of \<open>Vote_Properties\<close>: the checks of the tally at the close succeed with
  the declarative tally and the consent set is refused only for a consent record that occurs twice, a counted ballot rests on a confirmed consent, a recusal leaves nothing of the member behind,
  a repeated request is answered from its record, the log only grows and verifies. A feed cursor cannot be forged and paging
  loses nothing; a redline changes the lines it names and no others; activations, questions and documents are identified
  by their digests. A certificate verifies under the key it was issued with, and a bundle the offline check accepts carries the
  tally of its own ballots, signed by a trusted key; what is built and signed at the close of a reachable vote is accepted by that
  check. One property shows a defect:
  a recusal that ends a proxy uses one consent record twice, and the consent set of the close then refuses the vote.

  \<^bold>\<open>Bounds\<close>

  Voting weights are at most 1000000000, JSON is nested at most 512 deep, a condition has depth at most 16
  and at most 512 nodes, an identifier has a 48-bit timestamp: all written out in the definitions. The canonical text of an audit
  event is limited by the append; \<open>Vote_Scenario\<close> bounds the texts of its events by the size of their values and shows
  that such an append succeeds.

  \<^bold>\<open>Not modelled\<close>

  \<^item> In the store: columns that hold only a creation time or a display text, foreign keys, check constraints and
    triggers. All of them only reject a statement, so a run of the program is still a run of the model. Tables outside
    the vote (memberships, boards, matters, clients) are read through the arguments of a transaction (\<open>TxEnv\<close>).
  \<^item> Of \<^verbatim>\<open>vote-close.ts\<close> the staging, finalization and recovery of a close; \<^verbatim>\<open>votes.ts\<close>, \<^verbatim>\<open>consent.ts\<close> and the other transactions: long sequences of statements on tables of other components.
  \<^item> Signed checkpoints, archives and the offline check of an audit export: they wrap the verified hash chain in files
    and in signatures of \<open>node:crypto\<close>.
  \<^item> The transactions that store minutes, questions, documents and feed entries; only their domain functions are here.
  \<^item> The input and output schemas of the tools: declarations, whose scalars are modelled.
  \<^item> The server (HTTP, OAuth, OIDC, WebAuthn and the dispatch of tools), the worker, configuration, logging,
    migrations as such and operator scripts: input, output and glue around third-party packages.
\<close>

end
